(* ===== verification/Prelude.thy ===== *)
theory Prelude
  imports "HOL-Library.Word"
begin

section \<open>Prelude: machine integers, results, effects\<close>

text \<open>
  What every component shares. Rust's unsigned integers are words of their width; the
  checked and saturating operations of the standard library are defined here once, with
  the facts about \<^term>\<open>unat\<close> the components use. A \<open>usize\<close> that counts elements of
  a vector is a \<^typ>\<open>nat\<close> (the length), with saturation at \<open>usize::MAX\<close> written out. A
  signed \<open>i64\<close> is an \<^typ>\<open>int\<close> clamped by the saturating operations.

  A fallible operation over a mutable state is a function from the state to a result and
  the state it leaves behind. As in the source, an error does not undo what was written
  before it: rolling back is the business of the caller of the transaction.
\<close>

named_theorems word_facts \<open>how the checked and saturating operations act on unat\<close>
named_theorems effect_simps \<open>evaluation of the effect combinators\<close>

subsection \<open>Integers\<close>

type_synonym u8 = "8 word"
type_synonym u16 = "16 word"
type_synonym u32 = "32 word"
type_synonym u64 = "64 word"
type_synonym u128 = "128 word"
type_synonym bytes = "u8 list"

definition checked_add :: "'a::len word \<Rightarrow> 'a word \<Rightarrow> 'a word option" where
  "checked_add a b = (if unat a + unat b < 2 ^ LENGTH('a) then Some (a + b) else None)"

definition checked_sub :: "'a::len word \<Rightarrow> 'a word \<Rightarrow> 'a word option" where
  "checked_sub a b = (if b \<le> a then Some (a - b) else None)"

definition saturating_add :: "'a::len word \<Rightarrow> 'a word \<Rightarrow> 'a word" where
  "saturating_add a b = (if unat a + unat b < 2 ^ LENGTH('a) then a + b else - 1)"

definition saturating_sub :: "'a::len word \<Rightarrow> 'a word \<Rightarrow> 'a word" where
  "saturating_sub a b = (if b \<le> a then a - b else 0)"

definition usize_max :: nat where
  "usize_max = 2 ^ 64 - 1"

definition usize_saturating_add :: "nat \<Rightarrow> nat \<Rightarrow> nat" where
  "usize_saturating_add a b = min (a + b) usize_max"

text \<open>The two's complement range of \<open>i64\<close>, and a value clamped to it.\<close>

definition i64_clamp :: "int \<Rightarrow> int" where
  "i64_clamp x = max (- (2 ^ 63)) (min (2 ^ 63 - 1) x)"

lemma checked_add_Some [word_facts]:
  "checked_add a b = Some c \<Longrightarrow> unat c = unat a + unat b"
  by (auto simp: checked_add_def unat_word_ariths split: if_splits)

lemma checked_add_None [word_facts]:
  fixes a :: "'a::len word"
  shows "checked_add a b = None \<longleftrightarrow> 2 ^ LENGTH('a) \<le> unat a + unat b"
  by (auto simp: checked_add_def)

lemma checked_sub_Some [word_facts]:
  "checked_sub a b = Some c \<longleftrightarrow> b \<le> a \<and> c = a - b"
  by (auto simp: checked_sub_def)

lemma checked_sub_None [word_facts]: "checked_sub a b = None \<longleftrightarrow> a < b"
  by (auto simp: checked_sub_def)

lemma unat_minus_le [word_facts]:
  fixes a b :: "'a::len word"
  shows "b \<le> a \<Longrightarrow> unat (a - b) = unat a - unat b"
  by (rule unat_sub)

lemma unat_minus_plus:
  fixes a b :: "'a::len word"
  shows "b \<le> a \<Longrightarrow> unat (a - b) + unat b = unat a"
  by (simp add: unat_sub word_le_nat_alt)

lemma unat_saturating_add [word_facts]:
  fixes a b :: "'a::len word"
  shows "unat (saturating_add a b) = min (unat a + unat b) (2 ^ LENGTH('a) - 1)"
proof (cases "unat a + unat b < 2 ^ LENGTH('a)")
  case True
  then show ?thesis by (simp add: saturating_add_def unat_word_ariths)
next
  case False
  then show ?thesis by (simp add: saturating_add_def unsigned_minus_1_eq_mask mask_eq_exp_minus_1)
qed

lemma unat_saturating_sub [word_facts]:
  "unat (saturating_sub a b) = unat a - unat b"
  by (auto simp: saturating_sub_def unat_sub word_le_nat_alt)

lemma i64_clamp_id [simp]: "- (2 ^ 63) \<le> x \<Longrightarrow> x < 2 ^ 63 \<Longrightarrow> i64_clamp x = x"
  by (simp add: i64_clamp_def)

subsection \<open>Vectors\<close>

text \<open>\<open>v.get(i)\<close> of a slice or a vector: \<open>None\<close> out of range.\<close>

definition vec_get :: "'a list \<Rightarrow> nat \<Rightarrow> 'a option" where
  "vec_get xs i = (if i < length xs then Some (xs ! i) else None)"

lemma vec_get_Some [simp]: "vec_get xs i = Some x \<longleftrightarrow> i < length xs \<and> xs ! i = x"
  by (auto simp: vec_get_def)

lemma vec_get_None [simp]: "vec_get xs i = None \<longleftrightarrow> length xs \<le> i"
  by (auto simp: vec_get_def)

text \<open>\<open>iter().position(p)\<close> and \<open>iter().rposition(p)\<close>.\<close>

fun vec_position :: "('a \<Rightarrow> bool) \<Rightarrow> 'a list \<Rightarrow> nat option" where
  "vec_position p [] = None"
| "vec_position p (x # xs) = (if p x then Some 0 else map_option Suc (vec_position p xs))"

definition vec_rposition :: "('a \<Rightarrow> bool) \<Rightarrow> 'a list \<Rightarrow> nat option" where
  "vec_rposition p xs = map_option (\<lambda>i. length xs - Suc i) (vec_position p (rev xs))"

lemma vec_position_Some:
  "vec_position p xs = Some i \<longleftrightarrow> i < length xs \<and> p (xs ! i) \<and> (\<forall>j<i. \<not> p (xs ! j))"
proof (induction xs arbitrary: i)
  case Nil
  then show ?case by simp
next
  case (Cons x xs)
  show ?case
  proof (cases "p x")
    case True
    then show ?thesis by (cases i) auto
  next
    case False
    with Cons show ?thesis
      by (cases i) (auto simp: All_less_Suc2)
  qed
qed

lemma vec_position_None: "vec_position p xs = None \<longleftrightarrow> (\<forall>x\<in>set xs. \<not> p x)"
  by (induction xs) auto

subsection \<open>Results and effects\<close>

text \<open>
  \<open>Result<'a, 'e>\<close> is \<^typ>\<open>'e + 'a\<close>, with \<open>Inl\<close> the error. An effect
  is a function of the state; \<open>bind\<close> is the \<open>?\<close> operator followed by the rest of
  the function.
\<close>

type_synonym ('s, 'e, 'a) effect = "'s \<Rightarrow> ('e + 'a) \<times> 's"

definition return :: "'a \<Rightarrow> ('s, 'e, 'a) effect" where
  "return x = (\<lambda>s. (Inr x, s))"

definition throw :: "'e \<Rightarrow> ('s, 'e, 'a) effect" where
  "throw e = (\<lambda>s. (Inl e, s))"

definition bind :: "('s, 'e, 'a) effect \<Rightarrow> ('a \<Rightarrow> ('s, 'e, 'b) effect) \<Rightarrow> ('s, 'e, 'b) effect" where
  "bind m f = (\<lambda>s. case m s of (Inl e, s') \<Rightarrow> (Inl e, s') | (Inr x, s') \<Rightarrow> f x s')"

definition gets :: "('s \<Rightarrow> 'a) \<Rightarrow> ('s, 'e, 'a) effect" where
  "gets f = (\<lambda>s. (Inr (f s), s))"

definition modify :: "('s \<Rightarrow> 's) \<Rightarrow> ('s, 'e, unit) effect" where
  "modify f = (\<lambda>s. (Inr (), f s))"

text \<open>A pure \<open>Result\<close> used with \<open>?\<close>, possibly computed from the state.\<close>

definition lift :: "'e + 'a \<Rightarrow> ('s, 'e, 'a) effect" where
  "lift r = (\<lambda>s. (r, s))"

definition reads :: "('s \<Rightarrow> 'e + 'a) \<Rightarrow> ('s, 'e, 'a) effect" where
  "reads f = (\<lambda>s. (f s, s))"

text \<open>\<open>if cond { return Err(e); }\<close>\<close>

definition fail_if :: "bool \<Rightarrow> 'e \<Rightarrow> ('s, 'e, unit) effect" where
  "fail_if b e = (if b then throw e else return ())"

text \<open>\<open>ok_or(e)?\<close> on an \<open>Option\<close>.\<close>

definition ok_or :: "'a option \<Rightarrow> 'e \<Rightarrow> 'e + 'a" where
  "ok_or x e = (case x of None \<Rightarrow> Inl e | Some y \<Rightarrow> Inr y)"

definition map_err :: "('e \<Rightarrow> 'f) \<Rightarrow> 'e + 'a \<Rightarrow> 'f + 'a" where
  "map_err f r = (case r of Inl e \<Rightarrow> Inl (f e) | Inr x \<Rightarrow> Inr x)"

definition and_then :: "'e + 'a \<Rightarrow> ('a \<Rightarrow> 'e + 'b) \<Rightarrow> 'e + 'b" where
  "and_then r f = (case r of Inl e \<Rightarrow> Inl e | Inr x \<Rightarrow> f x)"

text \<open>\<open>r.unwrap_or(d)\<close> on a result.\<close>

definition unwrap_or :: "'e + 'a \<Rightarrow> 'a \<Rightarrow> 'a" where
  "unwrap_or r d = (case r of Inl _ \<Rightarrow> d | Inr x \<Rightarrow> x)"

text \<open>
  A guard whose destructor runs on every way out of the scope: \<open>d\<close> is applied to the
  state whatever the result.
\<close>

definition finally_do :: "('s, 'e, 'a) effect \<Rightarrow> ('s \<Rightarrow> 's) \<Rightarrow> ('s, 'e, 'a) effect" where
  "finally_do m d = (\<lambda>s. case m s of (r, s') \<Rightarrow> (r, d s'))"

definition is_ok :: "'e + 'a \<Rightarrow> bool" where
  "is_ok r = (case r of Inl _ \<Rightarrow> False | Inr _ \<Rightarrow> True)"

lemma return_apply [effect_simps]: "return x s = (Inr x, s)"
  by (simp add: return_def)

lemma throw_apply [effect_simps]: "throw e s = (Inl e, s)"
  by (simp add: throw_def)

lemma gets_apply [effect_simps]: "gets f s = (Inr (f s), s)"
  by (simp add: gets_def)

lemma modify_apply [effect_simps]: "modify f s = (Inr (), f s)"
  by (simp add: modify_def)

lemma lift_apply [effect_simps]: "lift r s = (r, s)"
  by (simp add: lift_def)

lemma reads_apply [effect_simps]: "reads f s = (f s, s)"
  by (simp add: reads_def)

lemma fail_if_apply [effect_simps]:
  "fail_if b e s = (if b then (Inl e, s) else (Inr (), s))"
  by (simp add: fail_if_def effect_simps)

lemma bind_apply [effect_simps]:
  "bind m f s = (case m s of (Inl e, s') \<Rightarrow> (Inl e, s') | (Inr x, s') \<Rightarrow> f x s')"
  by (simp add: bind_def)

lemma finally_do_apply [effect_simps]:
  "finally_do m d s = (fst (m s), d (snd (m s)))"
  by (simp add: finally_do_def case_prod_beta)

lemma ok_or_simps [simp, effect_simps]:
  "ok_or None e = Inl e" "ok_or (Some x) e = Inr x"
  by (simp_all add: ok_or_def)

lemma ok_or_Inr [simp]: "ok_or x e = Inr y \<longleftrightarrow> x = Some y"
  by (simp add: ok_or_def split: option.splits)

lemma ok_or_Inl [simp]: "ok_or x e = Inl e' \<longleftrightarrow> x = None \<and> e' = e"
  by (auto simp add: ok_or_def split: option.splits)

lemma map_err_simps [simp]:
  "map_err f (Inl e) = Inl (f e)" "map_err f (Inr x) = Inr x"
  by (simp_all add: map_err_def)

lemma and_then_simps [simp]:
  "and_then (Inl e) f = Inl e" "and_then (Inr x) f = f x"
  by (simp_all add: and_then_def)

lemma and_then_Inr: "and_then r f = Inr y \<longleftrightarrow> (\<exists>x. r = Inr x \<and> f x = Inr y)"
  by (cases r) auto

lemma unwrap_or_simps [simp]: "unwrap_or (Inl e) d = d" "unwrap_or (Inr x) d = x"
  by (simp_all add: unwrap_or_def)

lemma is_ok_simps [simp]: "\<not> is_ok (Inl e)" "is_ok (Inr x)"
  by (simp_all add: is_ok_def)

text \<open>Running to the end of a sequence means running to the end of each part.\<close>

lemma bind_okE:
  assumes "bind m f s = (Inr y, t)"
  obtains x s' where "m s = (Inr x, s')" "f x s' = (Inr y, t)"
  using assms by (auto simp: bind_def split: prod.splits sum.splits)

lemma fail_if_okE:
  assumes "fail_if b e s = (Inr y, t)"
  obtains "\<not> b" "t = s"
  using assms by (auto simp: fail_if_apply split: if_splits)

lemma finally_do_okE:
  assumes "finally_do m d s = (r, t)"
  obtains s' where "m s = (r, s')" "t = d s'"
  using assms by (auto simp: finally_do_def split: prod.splits)

lemma lift_okE:
  assumes "lift r s = (Inr y, t)"
  obtains "r = Inr y" "t = s"
  using assms by (auto simp: lift_apply)

lemma reads_okE:
  assumes "reads f s = (Inr y, t)"
  obtains "f s = Inr y" "t = s"
proof -
  from assms have "(f s, s) = (Inr y, t)" by (simp only: reads_apply)
  then show thesis by (elim Pair_inject) (rule that, assumption, erule sym)
qed

lemmas effect_elims = bind_okE fail_if_okE finally_do_okE lift_okE reads_okE

subsection \<open>Effects that stay inside a relation\<close>

text \<open>
  \<open>keeps R m\<close>: whatever the result of \<open>m\<close>, errors included, the state it leaves is
  related by \<open>R\<close> to the one it started from. The rules for the combinators need only that
  \<open>R\<close> is a preorder; each component names the relation its operations stay in and
  interprets the locale at it.
\<close>

definition keeps :: "('s \<Rightarrow> 's \<Rightarrow> bool) \<Rightarrow> ('s, 'e, 'a) effect \<Rightarrow> bool" where
  "keeps R m \<longleftrightarrow> (\<forall>s. R s (snd (m s)))"

lemma keepsI: "(\<And>s. R s (snd (m s))) \<Longrightarrow> keeps R m"
  by (simp add: keeps_def)

lemma keepsD: "keeps R m \<Longrightarrow> m s = (r, t) \<Longrightarrow> R s t"
  unfolding keeps_def by (drule spec [of _ s]) simp

locale effect_preorder =
  fixes R :: "'s \<Rightarrow> 's \<Rightarrow> bool"
  assumes R_refl: "R s s"
    and R_trans: "R s t \<Longrightarrow> R t u \<Longrightarrow> R s u"
begin

lemma keeps_return: "keeps R (return x)"
  by (simp add: keeps_def return_apply R_refl)

lemma keeps_throw: "keeps R (throw e)"
  by (simp add: keeps_def throw_apply R_refl)

lemma keeps_gets: "keeps R (gets f)"
  by (simp add: keeps_def gets_apply R_refl)

lemma keeps_lift: "keeps R (lift r)"
  by (simp add: keeps_def lift_apply R_refl)

lemma keeps_reads: "keeps R (reads f)"
  by (simp add: keeps_def reads_apply R_refl)

lemma keeps_fail_if: "keeps R (fail_if b e)"
  by (simp add: keeps_def fail_if_apply R_refl)

lemma keeps_modify: "(\<And>s. R s (f s)) \<Longrightarrow> keeps R (modify f)"
  by (simp add: keeps_def modify_apply)

lemma keeps_bind:
  assumes "keeps R m" and "\<And>x. keeps R (f x)"
  shows "keeps R (bind m f)"
proof (rule keepsI)
  fix s
  obtain r t where m: "m s = (r, t)" by (cases "m s")
  with assms(1) have "R s t" by (rule keepsD)
  moreover have "R t (snd (f x t))" for x using assms(2) by (simp add: keeps_def)
  ultimately show "R s (snd (bind m f s))"
    using m by (auto simp: bind_apply split: sum.splits intro: R_trans)
qed

lemma keeps_finally: "keeps R m \<Longrightarrow> (\<And>s. R s (d s)) \<Longrightarrow> keeps R (finally_do m d)"
  by (auto simp: keeps_def finally_do_apply intro: R_trans)

lemma keeps_if: "(b \<Longrightarrow> keeps R m) \<Longrightarrow> (\<not> b \<Longrightarrow> keeps R n) \<Longrightarrow> keeps R (if b then m else n)"
  by simp

lemma keeps_option:
  "keeps R n \<Longrightarrow> (\<And>x. keeps R (f x)) \<Longrightarrow> keeps R (case v of None \<Rightarrow> n | Some x \<Rightarrow> f x)"
  by (cases v) auto

lemma keeps_sum:
  "(\<And>x. keeps R (f x)) \<Longrightarrow> (\<And>y. keeps R (g y)) \<Longrightarrow> keeps R (case v of Inl x \<Rightarrow> f x | Inr y \<Rightarrow> g y)"
  by (cases v) auto

lemma keeps_prod: "(\<And>x y. keeps R (f x y)) \<Longrightarrow> keeps R (case v of (x, y) \<Rightarrow> f x y)"
  by (cases v) auto

lemmas keeps_rules = keeps_return keeps_throw keeps_gets keeps_lift keeps_reads keeps_fail_if
  keeps_bind keeps_if keeps_option keeps_sum keeps_prod

end

end
