(* ===== verification/F64.thy ===== *)
theory F64
  imports Complex_Main Prelude
begin

section \<open>Rust's f64\<close>

text \<open>
  The formulas of rent and of the warm-up of stake are written in \<open>f64\<close>. A value is NaN, an infinity or
  \<open>\<plusminus> m * 2 ^ e\<close>; every operation rounds the exact rational result to the nearest
  binary64 value, ties to even, as IEEE 754 and the Rust reference prescribe. The casts are
  Rust's \<open>as\<close>: from \<open>u64\<close> rounding to nearest, to \<open>u64\<close> truncating and saturating
  with NaN going to 0. The sign of zero is kept but no operation used here can observe it.
\<close>

datatype f64 = NaN | Infinity bool | Finite bool nat int

fun bit_length :: "nat \<Rightarrow> nat" where
  "bit_length n = (if n = 0 then 0 else Suc (bit_length (n div 2)))"

declare bit_length.simps [simp del]

definition round_half_even :: "nat \<Rightarrow> nat \<Rightarrow> nat" where
  "round_half_even n d =
     (let q = n div d; r = n mod d
      in if 2 * r < d \<or> (2 * r = d \<and> even q) then q else Suc q)"

text \<open>
  The exponent of the result: the one for which the significand has 53 bits, but not below the
  exponent of the subnormal numbers.
\<close>

definition scaled :: "nat \<Rightarrow> nat \<Rightarrow> int \<Rightarrow> nat \<times> nat" where
  "scaled n d e = (n * 2 ^ nat (- e), d * 2 ^ nat e)"

definition round_exponent :: "nat \<Rightarrow> nat \<Rightarrow> int" where
  "round_exponent n d =
     (let e0 = int (bit_length n) - int (bit_length d) - 53;
          (n', d') = scaled n d e0;
          e1 = (if 2 ^ 53 * d' \<le> n' then e0 + 1 else e0)
      in max e1 (- 1074))"

definition round_ratio :: "bool \<Rightarrow> nat \<Rightarrow> nat \<Rightarrow> f64" where
  "round_ratio s n d =
     (if n = 0 then Finite s 0 0
      else let e = round_exponent n d;
               (n', d') = scaled n d e;
               m = round_half_even n' d'
           in if 971 < e \<or> (e = 971 \<and> 2 ^ 53 \<le> m) then Infinity s else Finite s m e)"

definition f64_of_u64 :: "u64 \<Rightarrow> f64" where
  "f64_of_u64 w = round_ratio False (unat w) 1"

fun f64_mul :: "f64 \<Rightarrow> f64 \<Rightarrow> f64" where
  "f64_mul (Finite s m e) (Finite s' m' e') =
     round_ratio (s \<noteq> s') (m * m' * 2 ^ nat (e + e')) (2 ^ nat (- (e + e')))"
| "f64_mul (Infinity s) (Infinity s') = Infinity (s \<noteq> s')"
| "f64_mul (Infinity s) (Finite s' m' e') = (if m' = 0 then NaN else Infinity (s \<noteq> s'))"
| "f64_mul (Finite s m e) (Infinity s') = (if m = 0 then NaN else Infinity (s \<noteq> s'))"
| "f64_mul _ _ = NaN"

fun f64_div :: "f64 \<Rightarrow> f64 \<Rightarrow> f64" where
  "f64_div (Finite s m e) (Finite s' m' e') =
     (if m' = 0 then (if m = 0 then NaN else Infinity (s \<noteq> s'))
      else round_ratio (s \<noteq> s') (m * 2 ^ nat (e - e')) (m' * 2 ^ nat (e' - e)))"
| "f64_div (Infinity s) (Infinity s') = NaN"
| "f64_div (Infinity s) (Finite s' m' e') = Infinity (s \<noteq> s')"
| "f64_div (Finite s m e) (Infinity s') = Finite (s \<noteq> s') 0 0"
| "f64_div _ _ = NaN"

fun f64_is_zero :: "f64 \<Rightarrow> bool" where
  "f64_is_zero (Finite s m e) = (m = 0)"
| "f64_is_zero _ = False"

fun f64_to_u64 :: "f64 \<Rightarrow> u64" where
  "f64_to_u64 NaN = 0"
| "f64_to_u64 (Infinity s) = (if s then 0 else - 1)"
| "f64_to_u64 (Finite s m e) =
     (if s then 0
      else let v = (m * 2 ^ nat e) div 2 ^ nat (- e)
           in if v < 2 ^ 64 then of_nat v else - 1)"

subsection \<open>Exact results\<close>

definition f64_value :: "nat \<Rightarrow> int \<Rightarrow> real" where
  "f64_value m e = real m * 2 powi e"

lemma bit_length_bounds: "0 < n \<Longrightarrow> 2 ^ (bit_length n - 1) \<le> n \<and> n < 2 ^ bit_length n \<and> 0 < bit_length n"
proof (induction n rule: bit_length.induct)
  case (1 n)
  show ?case
  proof (cases "n = 1")
    case True
    then show ?thesis by (simp add: bit_length.simps)
  next
    case False
    with "1.prems" have h: "0 < n div 2" by auto
    with "1.IH" "1.prems" have ih: "2 ^ (bit_length (n div 2) - 1) \<le> n div 2"
      "n div 2 < 2 ^ bit_length (n div 2)" "0 < bit_length (n div 2)" by auto
    have eq: "bit_length n = Suc (bit_length (n div 2))"
      using "1.prems" by (simp add: bit_length.simps [of n])
    obtain k where k: "bit_length (n div 2) = Suc k" using ih(3) by (cases "bit_length (n div 2)") auto
    from ih k have "2 ^ Suc k \<le> n" "n < 2 ^ Suc (Suc k)" by auto
    with eq k show ?thesis by simp
  qed
qed

lemma scaled_ratio:
  assumes "0 < d" and "scaled n d e = (n', d')"
  shows "0 < d'" and "real n' / real d' = real n / real d * 2 powi (- e)"
proof -
  show "0 < d'" using assms by (auto simp: scaled_def)
  show "real n' / real d' = real n / real d * 2 powi (- e)"
    using assms by (cases "0 \<le> e") (auto simp: scaled_def power_int_def field_simps)
qed

lemma round_half_even_exact: "0 < d \<Longrightarrow> round_half_even (q * d) d = q"
  by (simp add: round_half_even_def)

lemma powi_split: "2 powi (i + j) = (2 powi i * 2 powi j :: real)"
  by (simp add: power_int_add)

lemma round_exponent_window:
  assumes n: "0 < n" and d: "0 < d"
  obtains e1 where "round_exponent n d = max e1 (- 1074)"
    and "2 ^ 52 \<le> real n / real d * 2 powi (- e1)" and "real n / real d * 2 powi (- e1) < 2 ^ 53"
proof -
  define e0 where "e0 = int (bit_length n) - int (bit_length d) - 53"
  obtain n' d' where sc: "scaled n d e0 = (n', d')" by (cases "scaled n d e0")
  note d' = scaled_ratio (1) [OF d sc] and ratio = scaled_ratio (2) [OF d sc]
  define r where "r = real n / real d * 2 powi (- e0)"
  note bn = bit_length_bounds [OF n] and bd = bit_length_bounds [OF d]
  have nlo: "2 powi (int (bit_length n) - 1) \<le> real n"
  proof -
    have "real (2 ^ (bit_length n - 1)) \<le> real n" using bn by (simp only: of_nat_le_iff)
    moreover have "2 powi (int (bit_length n) - 1) = real (2 ^ (bit_length n - 1))"
      using bn by (simp add: power_int_def nat_diff_distrib)
    ultimately show ?thesis by simp
  qed
  have nhi: "real n < 2 powi int (bit_length n)"
    using bn by (simp add: power_int_def)
  have dlo: "2 powi (int (bit_length d) - 1) \<le> real d"
  proof -
    have "real (2 ^ (bit_length d - 1)) \<le> real d" using bd by (simp only: of_nat_le_iff)
    moreover have "2 powi (int (bit_length d) - 1) = real (2 ^ (bit_length d - 1))"
      using bd by (simp add: power_int_def nat_diff_distrib)
    ultimately show ?thesis by simp
  qed
  have dhi: "real d < 2 powi int (bit_length d)"
    using bd by (simp add: power_int_def)
  have lo: "2 ^ 52 \<le> r"
  proof -
    have "2 powi (52 :: int) * real d \<le> 2 powi (52 :: int) * 2 powi int (bit_length d)"
      using dhi by simp
    also have "\<dots> = 2 powi (int (bit_length n) - 1) * 2 powi (- e0)"
      unfolding powi_split [symmetric] by (rule arg_cong [where f = "\<lambda>k. 2 powi k"]) (simp add: e0_def)
    also have "\<dots> \<le> real n * 2 powi (- e0)" using nlo by simp
    finally show ?thesis using d by (simp add: r_def field_simps)
  qed
  have hi: "r < 2 ^ 54"
  proof -
    have "real n * 2 powi (- e0) < 2 powi int (bit_length n) * 2 powi (- e0)"
      using nhi by simp
    also have "\<dots> = 2 powi (54 :: int) * 2 powi (int (bit_length d) - 1)"
      unfolding powi_split [symmetric] by (rule arg_cong [where f = "\<lambda>k. 2 powi k"]) (simp add: e0_def)
    also have "\<dots> \<le> 2 powi (54 :: int) * real d" using dlo by simp
    finally show ?thesis using d by (simp add: r_def field_simps)
  qed
  have test: "2 ^ 53 * d' \<le> n' \<longleftrightarrow> 2 ^ 53 \<le> r"
  proof -
    have "2 ^ 53 \<le> real n' / real d' \<longleftrightarrow> real (2 ^ 53 * d') \<le> real n'"
      using d' by (simp add: field_simps)
    then show ?thesis using ratio by (simp only: r_def of_nat_le_iff)
  qed
  define e1 where "e1 = (if 2 ^ 53 \<le> r then e0 + 1 else e0)"
  show thesis
  proof (rule that [of e1])
    show "round_exponent n d = max e1 (- 1074)"
      using sc test by (auto simp: round_exponent_def e1_def e0_def Let_def)
    have half: "2 powi (- e0 - 1) = (2 powi (- e0) / 2 :: real)"
      using powi_split [of "- e0" "- 1"] by (simp add: power_int_minus)
    have r1: "real n / real d * 2 powi (- e1) = (if 2 ^ 53 \<le> r then r / 2 else r)"
      by (simp add: e1_def half r_def)
    show "2 ^ 52 \<le> real n / real d * 2 powi (- e1)" unfolding r1 using lo by simp
    show "real n / real d * 2 powi (- e1) < 2 ^ 53" unfolding r1 using hi by simp
  qed
qed

text \<open>
  A result that is a dyadic number with at most 53 significant bits, in the normal range, is not
  rounded.
\<close>

lemma round_ratio_exact:
  assumes n: "0 < n" and d: "0 < d" and a: "a < 2 ^ 53"
    and v: "real n / real d = real a * 2 powi z" and z: "- 1074 \<le> z" "z \<le> 900"
  obtains m e where "round_ratio s n d = Finite s m e" "f64_value m e = real a * 2 powi z"
proof -
  obtain e1 where re: "round_exponent n d = max e1 (- 1074)"
    and lo: "2 ^ 52 \<le> real n / real d * 2 powi (- e1)"
    using round_exponent_window [OF n d] by metis
  define e where "e = round_exponent n d"
  have ez: "e \<le> z"
  proof (cases "e1 \<le> z")
    case True
    then show ?thesis using re z by (simp add: e_def)
  next
    case False
    have "2 ^ 52 \<le> real a * 2 powi (z - e1)" using lo v by (simp add: mult.assoc flip: powi_split)
    also have "\<dots> \<le> real a * 2 powi (- 1)"
      using False by (intro mult_left_mono power_int_increasing) auto
    also have "\<dots> < 2 ^ 52" using a by (simp add: power_int_def field_simps)
    finally show ?thesis by simp
  qed
  obtain n' d' where sc: "scaled n d e = (n', d')" by (cases "scaled n d e")
  note d' = scaled_ratio (1) [OF d sc] and ratio = scaled_ratio (2) [OF d sc]
  define m where "m = a * 2 ^ nat (z - e)"
  have pw: "2 ^ nat (z - e) = (2 powi (z - e) :: real)" using ez by (simp add: power_int_def)
  have "real n' / real d' = real m"
    using ratio v by (simp add: m_def pw mult.assoc flip: powi_split)
  then have "real n' = real (m * d')" using d' by (simp add: field_simps)
  then have "n' = m * d'" by (simp only: of_nat_eq_iff)
  then have rh: "round_half_even n' d' = m" using d' by (simp add: round_half_even_exact)
  have "f64_value m e = real a * 2 powi z"
    by (simp add: f64_value_def m_def pw mult.assoc flip: powi_split)
  moreover have "round_ratio s n d = Finite s m e"
    using n ez z sc rh by (simp add: round_ratio_def e_def [symmetric] Let_def)
  ultimately show thesis using that by blast
qed

lemma nat_scale_value: "real (m * 2 ^ nat e) / real (2 ^ nat (- e)) = f64_value m e"
  by (cases "0 \<le> e") (auto simp: f64_value_def power_int_def field_simps)

lemma f64_of_u64_exact:
  assumes "0 < w" "unat w < 2 ^ 53"
  obtains m e where "f64_of_u64 w = Finite False m e" "f64_value m e = real (unat w)"
proof -
  have "0 < unat w" using assms(1) by (simp add: word_less_nat_alt)
  then obtain m e where "round_ratio False (unat w) 1 = Finite False m e"
    "f64_value m e = real (unat w) * 2 powi 0"
    using assms(2) round_ratio_exact [of "unat w" 1 "unat w" 0 False] by auto
  then show thesis using that by (simp add: f64_of_u64_def)
qed

lemma f64_mul_exact:
  assumes "0 < m" "0 < m'" "a < 2 ^ 53" "- 1074 \<le> z" "z \<le> 900"
    and v: "f64_value m e * f64_value m' e' = real a * 2 powi z"
  obtains m'' e'' where "f64_mul (Finite False m e) (Finite False m' e') = Finite False m'' e''"
    "f64_value m'' e'' = real a * 2 powi z"
proof -
  let ?n = "m * m' * 2 ^ nat (e + e')" and ?d = "2 ^ nat (- (e + e')) :: nat"
  have "real ?n / real ?d = f64_value (m * m') (e + e')"
    by (rule nat_scale_value)
  also have "\<dots> = real a * 2 powi z"
    using v by (simp add: f64_value_def powi_split mult_ac)
  finally have "real ?n / real ?d = real a * 2 powi z" .
  then obtain m'' e'' where "round_ratio False ?n ?d = Finite False m'' e''"
    "f64_value m'' e'' = real a * 2 powi z"
    using assms(1-5) round_ratio_exact [of ?n ?d a z False] by auto
  then show thesis using that by simp
qed

lemma f64_to_u64_exact:
  assumes v: "f64_value m e = real k" and k: "k < 2 ^ 64"
  shows "f64_to_u64 (Finite False m e) = of_nat k"
proof -
  have "real (m * 2 ^ nat e) = real (k * 2 ^ nat (- e))"
    using nat_scale_value [of m e] v by (simp add: field_simps)
  then have "m * 2 ^ nat e = k * 2 ^ nat (- e)" by (simp only: of_nat_eq_iff)
  then have "(m * 2 ^ nat e) div 2 ^ nat (- e) = k" by simp
  then show ?thesis using k by (simp add: Let_def)
qed

end
