(* ===== verification/Epoch_Schedule.thy ===== *)
theory Epoch_Schedule
  imports F64
begin

section \<open>Epochs and slots\<close>

text \<open>
  \<open>sdk/program/src/epoch_schedule.rs\<close>: the map between slots and epochs. With warm-up, epoch
  \<open>e\<close> before the first normal one has \<open>32 * 2 ^ e\<close> slots; afterwards every epoch has
  \<open>slots_per_epoch\<close> slots. The code computes with saturating 64-bit arithmetic, powers of two and
  bit counts; the lemmas show that no saturation happens for a schedule built by \<open>custom\<close>, and
  that the two directions of the map are inverse.
\<close>

definition next_power_of_two :: "u64 \<Rightarrow> u64" where
  "next_power_of_two x = (if unat x \<le> 1 then 1 else 2 ^ bit_length (unat x - 1))"

fun nat_trailing_zeros :: "nat \<Rightarrow> nat" where
  "nat_trailing_zeros n = (if n = 0 \<or> odd n then 0 else Suc (nat_trailing_zeros (n div 2)))"

declare nat_trailing_zeros.simps [simp del]

definition trailing_zeros :: "u64 \<Rightarrow> u32" where
  "trailing_zeros x = (if x = 0 then 64 else of_nat (nat_trailing_zeros (unat x)))"

definition saturating_mul :: "u64 \<Rightarrow> u64 \<Rightarrow> u64" where
  "saturating_mul a b = (if unat a * unat b < 2 ^ 64 then a * b else - 1)"

definition saturating_pow :: "u64 \<Rightarrow> u32 \<Rightarrow> u64" where
  "saturating_pow a n = (if unat a ^ unat n < 2 ^ 64 then a ^ unat n else - 1)"

definition checked_div_or_0 :: "u64 \<Rightarrow> u64 \<Rightarrow> u64" where
  "checked_div_or_0 a b = (if b = 0 then 0 else a div b)"

definition checked_rem_or_0 :: "u64 \<Rightarrow> u64 \<Rightarrow> u64" where
  "checked_rem_or_0 a b = (if b = 0 then 0 else a mod b)"

definition DEFAULT_SLOTS_PER_EPOCH :: u64 where
  "DEFAULT_SLOTS_PER_EPOCH = 432000"

definition DEFAULT_LEADER_SCHEDULE_SLOT_OFFSET :: u64 where
  "DEFAULT_LEADER_SCHEDULE_SLOT_OFFSET = DEFAULT_SLOTS_PER_EPOCH"

definition MINIMUM_SLOTS_PER_EPOCH :: u64 where
  "MINIMUM_SLOTS_PER_EPOCH = 32"

record epoch_schedule =
  es_slots_per_epoch :: u64
  es_leader_schedule_slot_offset :: u64
  es_warmup :: bool
  es_first_normal_epoch :: u64
  es_first_normal_slot :: u64

text \<open>\<open>custom\<close> asserts that an epoch has at least the minimum number of slots; \<open>None\<close> is the panic.\<close>

definition epoch_schedule_custom :: "u64 \<Rightarrow> u64 \<Rightarrow> bool \<Rightarrow> epoch_schedule option" where
  "epoch_schedule_custom slots_per_epoch leader_schedule_slot_offset warmup =
     (if slots_per_epoch < MINIMUM_SLOTS_PER_EPOCH then None
      else
        (let (first_normal_epoch, first_normal_slot) =
           (if warmup
            then
              (let next = next_power_of_two slots_per_epoch;
                   log2_slots_per_epoch =
                     saturating_sub (trailing_zeros next) (trailing_zeros MINIMUM_SLOTS_PER_EPOCH)
               in (ucast log2_slots_per_epoch, saturating_sub next MINIMUM_SLOTS_PER_EPOCH))
            else (0, 0))
         in Some \<lparr>es_slots_per_epoch = slots_per_epoch,
              es_leader_schedule_slot_offset = leader_schedule_slot_offset, es_warmup = warmup,
              es_first_normal_epoch = first_normal_epoch, es_first_normal_slot = first_normal_slot\<rparr>))"

definition epoch_schedule_default :: "epoch_schedule option" where
  "epoch_schedule_default =
     epoch_schedule_custom DEFAULT_SLOTS_PER_EPOCH DEFAULT_LEADER_SCHEDULE_SLOT_OFFSET True"

definition epoch_schedule_new :: "u64 \<Rightarrow> epoch_schedule option" where
  "epoch_schedule_new slots_per_epoch = epoch_schedule_custom slots_per_epoch slots_per_epoch True"

definition epoch_schedule_without_warmup :: "epoch_schedule option" where
  "epoch_schedule_without_warmup =
     epoch_schedule_custom DEFAULT_SLOTS_PER_EPOCH DEFAULT_LEADER_SCHEDULE_SLOT_OFFSET False"

definition get_slots_in_epoch :: "epoch_schedule \<Rightarrow> u64 \<Rightarrow> u64" where
  "get_slots_in_epoch s epoch =
     (if epoch < es_first_normal_epoch s
      then saturating_pow 2 (saturating_add (ucast epoch) (trailing_zeros MINIMUM_SLOTS_PER_EPOCH))
      else es_slots_per_epoch s)"

definition get_epoch_and_slot_index :: "epoch_schedule \<Rightarrow> u64 \<Rightarrow> u64 \<times> u64" where
  "get_epoch_and_slot_index s slot =
     (if slot < es_first_normal_slot s
      then
        (let epoch = saturating_sub (saturating_sub
               (trailing_zeros (next_power_of_two
                  (saturating_add (saturating_add slot MINIMUM_SLOTS_PER_EPOCH) 1)))
               (trailing_zeros MINIMUM_SLOTS_PER_EPOCH)) 1;
             epoch_len = saturating_pow 2 (saturating_add epoch (trailing_zeros MINIMUM_SLOTS_PER_EPOCH))
         in (ucast epoch, saturating_sub slot (saturating_sub epoch_len MINIMUM_SLOTS_PER_EPOCH)))
      else
        (let normal_slot_index = saturating_sub slot (es_first_normal_slot s);
             normal_epoch_index = checked_div_or_0 normal_slot_index (es_slots_per_epoch s);
             epoch = saturating_add (es_first_normal_epoch s) normal_epoch_index;
             slot_index = checked_rem_or_0 normal_slot_index (es_slots_per_epoch s)
         in (epoch, slot_index)))"

definition get_epoch :: "epoch_schedule \<Rightarrow> u64 \<Rightarrow> u64" where
  "get_epoch s slot = fst (get_epoch_and_slot_index s slot)"

definition get_leader_schedule_epoch :: "epoch_schedule \<Rightarrow> u64 \<Rightarrow> u64" where
  "get_leader_schedule_epoch s slot =
     (if slot < es_first_normal_slot s
      then saturating_add (fst (get_epoch_and_slot_index s slot)) 1
      else
        (let new_slots_since_first_normal_slot = saturating_sub slot (es_first_normal_slot s);
             new_first_normal_leader_schedule_slot =
               saturating_add new_slots_since_first_normal_slot (es_leader_schedule_slot_offset s);
             new_epochs_since_first_normal_leader_schedule =
               checked_div_or_0 new_first_normal_leader_schedule_slot (es_slots_per_epoch s)
         in saturating_add (es_first_normal_epoch s) new_epochs_since_first_normal_leader_schedule))"

definition get_first_slot_in_epoch :: "epoch_schedule \<Rightarrow> u64 \<Rightarrow> u64" where
  "get_first_slot_in_epoch s epoch =
     (if epoch \<le> es_first_normal_epoch s
      then saturating_mul (saturating_sub (saturating_pow 2 (ucast epoch)) 1) MINIMUM_SLOTS_PER_EPOCH
      else saturating_add
             (saturating_mul (saturating_sub epoch (es_first_normal_epoch s)) (es_slots_per_epoch s))
             (es_first_normal_slot s))"

definition get_last_slot_in_epoch :: "epoch_schedule \<Rightarrow> u64 \<Rightarrow> u64" where
  "get_last_slot_in_epoch s epoch =
     saturating_sub (saturating_add (get_first_slot_in_epoch s epoch) (get_slots_in_epoch s epoch)) 1"

subsection \<open>Bit counts\<close>

lemma nat_trailing_zeros_power: "nat_trailing_zeros (2 ^ k) = k"
  by (induction k) (simp_all add: nat_trailing_zeros.simps)

lemma unat_ucast_up: "unat (ucast (x :: u32) :: u64) = unat x"
  by (simp add: unsigned_ucast_eq take_bit_nat_eq_self_iff)
    (rule less_le_trans [OF unsigned_less], simp)

lemma unat_ucast_down: "unat x < 2 ^ 32 \<Longrightarrow> unat (ucast (x :: u64) :: u32) = unat x"
  by (simp add: unsigned_ucast_eq take_bit_eq_mod)

lemma power2_less_word: "k < 64 \<Longrightarrow> (2::nat) ^ k < 18446744073709551616"
  using power_strict_increasing [of k 64 "2::nat"] by simp

lemma unat_power2: "k < 64 \<Longrightarrow> unat (2 ^ k :: u64) = 2 ^ k"
  using unat_of_nat [of "2 ^ k", where 'a = 64] power2_less_word [of k] by simp

lemma unat_trailing_zeros_power: "k < 64 \<Longrightarrow> unat (trailing_zeros (2 ^ k)) = k"
proof -
  assume k: "k < 64"
  have "unat (2 ^ k :: u64) = 2 ^ k" by (rule unat_power2 [OF k])
  moreover from this have "(2 ^ k :: u64) \<noteq> 0" by (metis power_not_zero unat_0 zero_neq_numeral)
  ultimately show ?thesis
    using k by (simp add: trailing_zeros_def nat_trailing_zeros_power unat_of_nat)
qed

lemma trailing_zeros_minimum: "unat (trailing_zeros MINIMUM_SLOTS_PER_EPOCH) = 5"
  using unat_trailing_zeros_power [of 5] by (simp add: MINIMUM_SLOTS_PER_EPOCH_def)

lemma next_power_of_two_bounds:
  assumes "1 < unat x" "unat x \<le> 2 ^ 63"
  obtains k where "next_power_of_two x = 2 ^ k" "0 < k" "k < 64" "2 ^ (k - 1) < unat x" "unat x \<le> 2 ^ k"
proof -
  define k where "k = bit_length (unat x - 1)"
  have b: "2 ^ (k - 1) \<le> unat x - 1" "unat x - 1 < 2 ^ k" "0 < k"
    using bit_length_bounds [of "unat x - 1"] assms(1) by (simp_all add: k_def)
  have "(2::nat) ^ (k - 1) < 2 ^ 63" using b(1) assms by linarith
  then have "k - 1 < 63" by (rule power_less_imp_less_exp [rotated]) simp
  moreover have "next_power_of_two x = 2 ^ k" using assms(1) by (simp add: next_power_of_two_def k_def)
  ultimately show thesis using b assms(1) by (intro that [of k]) linarith+
qed

lemma unat_saturating_pow: "k < 64 \<Longrightarrow> unat n = k \<Longrightarrow> unat (saturating_pow 2 n) = 2 ^ k"
  using power2_less_word [of k] by (simp add: saturating_pow_def unat_power2)

subsection \<open>Schedules built by \<open>custom\<close>\<close>

definition schedule_inv :: "nat \<Rightarrow> epoch_schedule \<Rightarrow> bool" where
  "schedule_inv n s \<longleftrightarrow> n \<le> 58 \<and> unat (es_first_normal_epoch s) = n \<and>
     unat (es_first_normal_slot s) = 32 * (2 ^ n - 1) \<and> 32 \<le> unat (es_slots_per_epoch s)"

lemma schedule_inv_custom:
  assumes "epoch_schedule_custom slots_per_epoch off warmup = Some s" "unat slots_per_epoch \<le> 2 ^ 63"
  shows "\<exists>n. schedule_inv n s \<and> (warmup \<longrightarrow> 2 ^ (n + 5) < 2 * unat slots_per_epoch \<and>
    unat slots_per_epoch \<le> 2 ^ (n + 5)) \<and> (\<not> warmup \<longrightarrow> n = 0)"
proof -
  have min: "32 \<le> unat slots_per_epoch"
    using assms(1) by (auto simp: epoch_schedule_custom_def MINIMUM_SLOTS_PER_EPOCH_def word_less_nat_alt
        split: if_splits)
  show ?thesis
  proof (cases warmup)
    case False
    then have "schedule_inv 0 s"
      using assms(1) min by (auto simp: epoch_schedule_custom_def schedule_inv_def split: if_splits)
    then show ?thesis using False by blast
  next
    case True
    obtain k where k: "next_power_of_two slots_per_epoch = 2 ^ k" "k < 64"
      "2 ^ (k - 1) < unat slots_per_epoch" "unat slots_per_epoch \<le> 2 ^ k" "0 < k"
    proof (rule next_power_of_two_bounds [of slots_per_epoch])
      show "1 < unat slots_per_epoch" using min by linarith
    qed (use assms(2) in auto)
    have "(2::nat) ^ 5 \<le> 2 ^ k" using min k(4) by simp
    then have k5: "5 \<le> k" by (rule power_le_imp_le_exp [rotated]) simp
    then obtain n where n: "k = n + 5" by (metis le_add_diff_inverse2)
    have "unat (es_first_normal_epoch s) = n"
      using assms(1) True k n
      by (auto simp: epoch_schedule_custom_def unat_ucast_up unat_saturating_sub trailing_zeros_minimum
          unat_trailing_zeros_power Let_def split: if_splits)
    moreover have "unat (es_first_normal_slot s) = 32 * (2 ^ n - 1)"
    proof -
      have "unat (es_first_normal_slot s) = unat (2 ^ k :: u64) - 32"
        using assms(1) True k(1)
        by (auto simp: epoch_schedule_custom_def unat_saturating_sub MINIMUM_SLOTS_PER_EPOCH_def
            Let_def split: if_splits)
      also have "unat (2 ^ k :: u64) = 32 * 2 ^ n"
        using unat_power2 [OF k(2)] n by (simp only: power_add) simp
      finally show ?thesis by (simp add: diff_mult_distrib2)
    qed
    moreover have "es_slots_per_epoch s = slots_per_epoch"
      using assms(1) by (auto simp: epoch_schedule_custom_def Let_def split: if_splits prod.splits)
    ultimately have "schedule_inv n s" using k n min by (simp add: schedule_inv_def)
    moreover have "2 ^ (n + 5) < 2 * unat slots_per_epoch"
      using k(3) n by (simp add: power_add)
    ultimately show ?thesis using True k n by blast
  qed
qed

lemma warmup_index:
  assumes inv: "schedule_inv n s" and slot: "slot < es_first_normal_slot s"
    and res: "get_epoch_and_slot_index s slot = (e, i)"
  shows "unat e < n" "unat slot = 32 * (2 ^ unat e - 1) + unat i" "unat i < 32 * 2 ^ unat e"
proof -
  have bound: "unat slot + 32 < 2 ^ (n + 5)" and n: "n \<le> 58"
    using inv slot by (auto simp: schedule_inv_def word_less_nat_alt power_add diff_mult_distrib2)
  have "(2::nat) ^ (n + 5) \<le> 2 ^ 63" using n by (intro power_increasing) auto
  then have small: "unat slot + 33 \<le> 2 ^ 63" using bound by linarith
  have arg: "unat (saturating_add (saturating_add slot MINIMUM_SLOTS_PER_EPOCH) 1) = unat slot + 33"
    using small by (simp add: unat_saturating_add MINIMUM_SLOTS_PER_EPOCH_def)
  obtain k where k: "next_power_of_two (saturating_add (saturating_add slot MINIMUM_SLOTS_PER_EPOCH) 1) = 2 ^ k"
    "k < 64" "2 ^ (k - 1) < unat slot + 33" "unat slot + 33 \<le> 2 ^ k" "0 < k"
    by (rule next_power_of_two_bounds [of "saturating_add (saturating_add slot MINIMUM_SLOTS_PER_EPOCH) 1",
          unfolded arg]) (use small in auto)
  have "(2::nat) ^ 5 < 2 ^ k" using k(4) by simp
  then have "5 < k" by (rule power_less_imp_less_exp [rotated]) simp
  then obtain m where m: "k = m + 6" using le_add_diff_inverse2 [of 6 k] by (metis Suc_leI eval_nat_numeral(2)
        semiring_norm(28))
  have e32: "unat (saturating_sub (saturating_sub (trailing_zeros (2 ^ k)) (trailing_zeros MINIMUM_SLOTS_PER_EPOCH)) 1) = m"
    using k(2) m by (simp add: unat_saturating_sub unat_trailing_zeros_power trailing_zeros_minimum)
  then have len: "unat (saturating_pow 2 (saturating_add (saturating_sub (saturating_sub (trailing_zeros (2 ^ k))
      (trailing_zeros MINIMUM_SLOTS_PER_EPOCH)) 1) (trailing_zeros MINIMUM_SLOTS_PER_EPOCH))) = 2 ^ (m + 5)"
    using k(2) m by (intro unat_saturating_pow) (simp_all add: unat_saturating_add trailing_zeros_minimum)
  have e: "unat e = m" using res slot e32 k(1)
    by (auto simp: get_epoch_and_slot_index_def Let_def unat_ucast_up)
  have i: "unat i = unat slot - (2 ^ (m + 5) - 32)" using res slot len k(1)
    by (auto simp: get_epoch_and_slot_index_def Let_def unat_saturating_sub MINIMUM_SLOTS_PER_EPOCH_def)
  have lo: "2 ^ (m + 5) \<le> unat slot + 32" and hi: "unat slot + 32 < 2 ^ (m + 6)"
    using k(3,4) m by (simp_all add: power_add)
  have "(2::nat) ^ (m + 5) < 2 ^ (n + 5)" using lo bound by linarith
  then show "unat e < n" using e by simp
  show "unat slot = 32 * (2 ^ unat e - 1) + unat i" "unat i < 32 * 2 ^ unat e"
    using lo hi by (simp_all add: e i power_add)
qed

lemma unat_saturating_mul: "unat a * unat b < 2 ^ 64 \<Longrightarrow> unat (saturating_mul a b) = unat a * unat b"
  by (simp add: saturating_mul_def unat_word_ariths)

lemma normal_index:
  assumes inv: "schedule_inv n s" and slot: "\<not> slot < es_first_normal_slot s"
    and res: "get_epoch_and_slot_index s slot = (e, i)"
  shows "unat e = n + (unat slot - 32 * (2 ^ n - 1)) div unat (es_slots_per_epoch s)"
    and "unat i = (unat slot - 32 * (2 ^ n - 1)) mod unat (es_slots_per_epoch s)"
proof -
  let ?d = "unat slot - 32 * (2 ^ n - 1)" and ?l = "unat (es_slots_per_epoch s)"
  have s: "unat (es_first_normal_slot s) = 32 * (2 ^ n - 1)" "unat (es_first_normal_epoch s) = n" "n \<le> 58" "32 \<le> ?l"
    using inv by (auto simp: schedule_inv_def)
  then have ne: "es_slots_per_epoch s \<noteq> 0" by auto
  have d: "unat (saturating_sub slot (es_first_normal_slot s)) = ?d" by (simp add: unat_saturating_sub s)
  have "?d div ?l \<le> ?d div 32" using s(4) by (intro div_le_mono2) auto
  also have "\<dots> \<le> unat slot div 32" by (intro div_le_mono) auto
  also have "\<dots> < 2 ^ 59" using unsigned_less [of slot, where 'a = nat] by simp
  finally have "n + ?d div ?l < 2 ^ 64" using s(3) by simp
  then show "unat e = n + ?d div ?l" "unat i = ?d mod ?l"
    using res slot ne d s(2)
    by (auto simp: get_epoch_and_slot_index_def Let_def checked_div_or_0_def checked_rem_or_0_def
        unat_saturating_add unat_div_distrib unat_mod_distrib)
qed

lemma unat_first_slot_warmup:
  assumes "schedule_inv n s" "unat e \<le> n"
  shows "unat (get_first_slot_in_epoch s e) = 32 * (2 ^ unat e - 1)"
proof -
  have n: "unat e \<le> 58" and le: "e \<le> es_first_normal_epoch s"
    using assms by (auto simp: schedule_inv_def word_le_nat_alt)
  have p: "unat (saturating_pow 2 (ucast e)) = 2 ^ unat e"
    using n by (intro unat_saturating_pow) (auto simp: unat_ucast_down)
  have "(2::nat) ^ unat e \<le> 2 ^ 58" using n by (intro power_increasing) auto
  then have "unat (saturating_sub (saturating_pow 2 (ucast e)) 1) * unat MINIMUM_SLOTS_PER_EPOCH < 2 ^ 64"
    by (simp add: unat_saturating_sub p MINIMUM_SLOTS_PER_EPOCH_def)
  then show ?thesis
    using le by (simp add: get_first_slot_in_epoch_def unat_saturating_mul)
      (simp add: unat_saturating_sub p MINIMUM_SLOTS_PER_EPOCH_def)
qed

lemma unat_first_slot_normal:
  assumes "schedule_inv n s" "n \<le> unat e"
    and "(unat e - n) * unat (es_slots_per_epoch s) + 32 * (2 ^ n - 1) < 2 ^ 64"
  shows "unat (get_first_slot_in_epoch s e) = (unat e - n) * unat (es_slots_per_epoch s) + 32 * (2 ^ n - 1)"
proof (cases "unat e = n")
  case True
  then show ?thesis using unat_first_slot_warmup [OF assms(1)] by simp
next
  case False
  with assms show ?thesis
    by (simp add: get_first_slot_in_epoch_def schedule_inv_def word_le_nat_alt unat_saturating_add
        unat_saturating_mul unat_saturating_sub)
qed

lemma unat_slots_in_epoch:
  assumes "schedule_inv n s"
  shows "unat (get_slots_in_epoch s e) =
    (if unat e < n then 32 * 2 ^ unat e else unat (es_slots_per_epoch s))"
proof (cases "unat e < n")
  case True
  then have "unat e < 58" using assms by (simp add: schedule_inv_def)
  then have "unat (saturating_pow 2 (saturating_add (ucast e) (trailing_zeros MINIMUM_SLOTS_PER_EPOCH))) = 2 ^ (unat e + 5)"
    by (intro unat_saturating_pow) (auto simp: unat_saturating_add unat_ucast_down trailing_zeros_minimum)
  then show ?thesis using True assms
    by (simp add: get_slots_in_epoch_def schedule_inv_def word_less_nat_alt power_add)
next
  case False
  then show ?thesis using assms by (simp add: get_slots_in_epoch_def schedule_inv_def word_less_nat_alt)
qed

text \<open>The epoch and index of a slot lead back to the slot, with the index inside the epoch.\<close>

lemma slot_position:
  assumes inv: "schedule_inv n s" and res: "get_epoch_and_slot_index s slot = (e, i)"
  shows "unat (get_first_slot_in_epoch s e) + unat i = unat slot" "i < get_slots_in_epoch s e"
proof -
  have "unat (get_first_slot_in_epoch s e) + unat i = unat slot \<and> unat i < unat (get_slots_in_epoch s e)"
  proof (cases "slot < es_first_normal_slot s")
    case True
    note w = warmup_index [OF inv True res]
    then show ?thesis
      using unat_first_slot_warmup [OF inv, of e] unat_slots_in_epoch [OF inv, of e] by simp
  next
    case False
    note w = normal_index [OF inv False res]
    let ?d = "unat slot - 32 * (2 ^ n - 1)" and ?l = "unat (es_slots_per_epoch s)"
    have l: "0 < ?l" and ge: "32 * (2 ^ n - 1) \<le> unat slot"
      using inv False by (auto simp: schedule_inv_def word_less_nat_alt)
    have "(unat e - n) * ?l + unat i = ?d" by (simp add: w)
    then have eq: "(unat e - n) * ?l + 32 * (2 ^ n - 1) + unat i = unat slot" using ge by linarith
    then have "(unat e - n) * ?l + 32 * (2 ^ n - 1) < 2 ^ 64"
      using unsigned_less [of slot, where 'a = nat] by simp
    then have "unat (get_first_slot_in_epoch s e) = (unat e - n) * ?l + 32 * (2 ^ n - 1)"
      using w by (intro unat_first_slot_normal [OF inv]) auto
    then show ?thesis using eq l unat_slots_in_epoch [OF inv, of e] by (simp add: w)
  qed
  then show "unat (get_first_slot_in_epoch s e) + unat i = unat slot" "i < get_slots_in_epoch s e"
    by (simp_all add: word_less_nat_alt)
qed

text \<open>
  C28: for every schedule that \<open>EpochSchedule::custom\<close> builds from at most 2^63 slots per epoch, with
  or without warm-up, and every 64-bit slot, the epoch and index that
  \<open>get_epoch_and_slot_index\<close> computes satisfy \<open>get_first_slot_in_epoch epoch + index = slot\<close> with
  the index below \<open>get_slots_in_epoch epoch\<close>; so no saturating operation on the way saturates.
\<close>

theorem epoch_slot_roundtrip:
  assumes "epoch_schedule_custom slots_per_epoch off warmup = Some s"
    and "unat slots_per_epoch \<le> 2 ^ 63"
  shows "case get_epoch_and_slot_index s slot of (e, i) \<Rightarrow>
    unat (get_first_slot_in_epoch s e) + unat i = unat slot \<and> i < get_slots_in_epoch s e"
  using schedule_inv_custom [OF assms] slot_position by (auto split: prod.splits)

theorem epoch_slot_roundtrip_witness:
  "\<exists>s. epoch_schedule_custom 64 64 True = Some s \<and>
     (case get_epoch_and_slot_index s 100 of (e, i) \<Rightarrow>
       unat (get_first_slot_in_epoch s e) + unat i = 100 \<and> i < get_slots_in_epoch s e)"
proof -
  obtain s where s: "epoch_schedule_custom 64 64 True = Some s"
    by (simp add: epoch_schedule_custom_def MINIMUM_SLOTS_PER_EPOCH_def Let_def)
  then show ?thesis using epoch_slot_roundtrip [OF s, of 100] by auto
qed

text \<open>
  For every schedule built by \<open>EpochSchedule::custom\<close> with warm-up, the first normal slot is
  \<open>MINIMUM_SLOTS_PER_EPOCH * (2 ^ first_normal_epoch - 1)\<close>, as the comment on the field says, and
  the first normal epoch is the rounded-up base-2 logarithm of the ratio between the epoch length
  and the minimum.
\<close>

lemma warmup_first_normal:
  assumes "epoch_schedule_custom slots_per_epoch off True = Some s" and "unat slots_per_epoch \<le> 2 ^ 63"
  shows "unat (es_first_normal_slot s) =
           unat MINIMUM_SLOTS_PER_EPOCH * (2 ^ unat (es_first_normal_epoch s) - 1) \<and>
         unat slots_per_epoch \<le> unat MINIMUM_SLOTS_PER_EPOCH * 2 ^ unat (es_first_normal_epoch s) \<and>
         unat MINIMUM_SLOTS_PER_EPOCH * 2 ^ unat (es_first_normal_epoch s) < 2 * unat slots_per_epoch"
  using schedule_inv_custom [OF assms]
  by (auto simp: schedule_inv_def MINIMUM_SLOTS_PER_EPOCH_def power_add)

end
