(* ===== verification/Sdk_Types.thy ===== *)
theory Sdk_Types
  imports Prelude
begin

section \<open>Keys, hashes, errors and accounts of the SDK\<close>

text \<open>
  The data every program sees: \<open>Pubkey\<close> and \<open>Hash\<close> (32-byte arrays, here byte lists
  with the length as the predicate \<open>wf_key\<close>), \<open>InstructionError\<close> with the conversion
  of program-specific error enums into it, \<open>AccountSharedData\<close>, and the address derivations
  of \<open>sdk/program/src/pubkey.rs\<close>. SHA-256 and the curve test come from third-party crates
  (\<open>sha2\<close>, \<open>curve25519_dalek\<close>) and bincode from the crate of that name: they are
  parameters of the definitions that use them.
\<close>

type_synonym pubkey = bytes
type_synonym hash = bytes

definition PUBKEY_BYTES :: nat where "PUBKEY_BYTES = 32"
definition MAX_SEED_LEN :: nat where "MAX_SEED_LEN = 32"
definition MAX_SEEDS :: nat where "MAX_SEEDS = 16"

definition wf_key :: "bytes \<Rightarrow> bool" where
  "wf_key k \<longleftrightarrow> length k = PUBKEY_BYTES"

text \<open>\<open>b"ProgramDerivedAddress"\<close>\<close>

definition PDA_MARKER :: bytes where
  "PDA_MARKER = [80, 114, 111, 103, 114, 97, 109, 68, 101, 114, 105, 118, 101, 100,
     65, 100, 100, 114, 101, 115, 115]"

subsection \<open>Program and sysvar ids\<close>

text \<open>The base58 strings of the \<open>declare_id!\<close> invocations, decoded.\<close>

definition system_program_id :: pubkey where
  "system_program_id = replicate 32 0"

definition native_loader_id :: pubkey where
  "native_loader_id = [5, 135, 132, 191, 20, 139, 164, 40, 47, 176, 18, 87, 72, 136, 169, 241,
     83, 160, 125, 173, 247, 101, 192, 69, 92, 154, 151, 3, 128, 0, 0, 0]"

definition sysvar_clock_id :: pubkey where
  "sysvar_clock_id = [6, 167, 213, 23, 24, 199, 116, 201, 40, 86, 99, 152, 105, 29, 94, 182,
     139, 94, 184, 163, 155, 75, 109, 92, 115, 85, 91, 33, 0, 0, 0, 0]"

definition sysvar_rent_id :: pubkey where
  "sysvar_rent_id = [6, 167, 213, 23, 25, 44, 92, 81, 33, 140, 201, 76, 61, 74, 241, 127,
     88, 218, 238, 8, 155, 161, 253, 68, 227, 219, 217, 138, 0, 0, 0, 0]"

definition sysvar_recent_blockhashes_id :: pubkey where
  "sysvar_recent_blockhashes_id = [6, 167, 213, 23, 25, 44, 86, 142, 224, 138, 132, 95, 115, 210,
     151, 136, 207, 3, 92, 49, 69, 178, 26, 179, 68, 216, 6, 46, 169, 64, 0, 0]"

definition sysvar_slot_hashes_id :: pubkey where
  "sysvar_slot_hashes_id = [6, 167, 213, 23, 25, 47, 10, 175, 198, 242, 101, 227, 251, 119, 204,
     122, 218, 130, 197, 41, 208, 190, 59, 19, 110, 45, 0, 85, 32, 0, 0, 0]"

definition sysvar_instructions_id :: pubkey where
  "sysvar_instructions_id = [6, 167, 213, 23, 24, 123, 209, 102, 53, 218, 212, 4, 85, 253, 194,
     192, 193, 36, 198, 143, 33, 86, 117, 165, 219, 186, 203, 95, 8, 0, 0, 0]"

definition incinerator_id :: pubkey where
  "incinerator_id = [0, 51, 144, 114, 141, 52, 17, 96, 121, 189, 201, 17, 191, 255, 0, 219,
     212, 77, 46, 205, 204, 247, 156, 166, 225, 0, 56, 225, 0, 0, 0, 0]"

lemmas id_defs = system_program_id_def native_loader_id_def sysvar_clock_id_def sysvar_rent_id_def
  sysvar_recent_blockhashes_id_def sysvar_slot_hashes_id_def sysvar_instructions_id_def
  incinerator_id_def

lemma wf_ids [simp]:
  "wf_key system_program_id" "wf_key native_loader_id" "wf_key sysvar_clock_id"
  "wf_key sysvar_rent_id" "wf_key sysvar_recent_blockhashes_id" "wf_key sysvar_slot_hashes_id"
  "wf_key sysvar_instructions_id" "wf_key incinerator_id"
  by (simp_all add: id_defs wf_key_def PUBKEY_BYTES_def)

subsection \<open>Errors\<close>

datatype pubkey_error = MaxSeedLengthExceeded | InvalidSeeds | IllegalOwner

datatype system_error =
    AccountAlreadyInUse
  | ResultWithNegativeLamports
  | InvalidProgramId
  | InvalidAccountDataLength
  | MaxSeedLengthExceeded
  | AddressWithSeedMismatch
  | NonceNoRecentBlockhashes
  | NonceBlockhashNotExpired
  | NonceUnexpectedBlockhashValue

datatype (plugins only: code) instruction_error =
    GenericError | InvalidArgument | InvalidInstructionData | InvalidAccountData
  | AccountDataTooSmall | InsufficientFunds | IncorrectProgramId | MissingRequiredSignature
  | AccountAlreadyInitialized | UninitializedAccount | UnbalancedInstruction | ModifiedProgramId
  | ExternalAccountLamportSpend | ExternalAccountDataModified | ReadonlyLamportChange
  | ReadonlyDataModified | DuplicateAccountIndex | ExecutableModified | RentEpochModified
  | NotEnoughAccountKeys | AccountDataSizeChanged | AccountNotExecutable | AccountBorrowFailed
  | AccountBorrowOutstanding | DuplicateAccountOutOfSync | Custom u32 | InvalidError
  | ExecutableDataModified | ExecutableLamportChange | ExecutableAccountNotRentExempt
  | UnsupportedProgramId | CallDepth | MissingAccount | ReentrancyNotAllowed
  | MaxSeedLengthExceeded | InvalidSeeds | InvalidRealloc | ComputationalBudgetExceeded
  | PrivilegeEscalation | ProgramEnvironmentSetupFailure | ProgramFailedToComplete
  | ProgramFailedToCompile | Immutable | IncorrectAuthority | BorshIoError string
  | AccountNotRentExempt | InvalidAccountOwner | ArithmeticOverflow | UnsupportedSysvar
  | IllegalOwner | MaxAccountsDataAllocationsExceeded | MaxAccountsExceeded
  | MaxInstructionTraceLengthExceeded | BuiltinProgramsMustConsumeComputeUnits

text \<open>The discriminants that \<open>num_derive::ToPrimitive\<close> gives.\<close>

fun pubkey_error_to_u64 :: "pubkey_error \<Rightarrow> u64" where
  "pubkey_error_to_u64 pubkey_error.MaxSeedLengthExceeded = 0"
| "pubkey_error_to_u64 pubkey_error.InvalidSeeds = 1"
| "pubkey_error_to_u64 pubkey_error.IllegalOwner = 2"

fun system_error_to_u64 :: "system_error \<Rightarrow> u64" where
  "system_error_to_u64 AccountAlreadyInUse = 0"
| "system_error_to_u64 ResultWithNegativeLamports = 1"
| "system_error_to_u64 InvalidProgramId = 2"
| "system_error_to_u64 InvalidAccountDataLength = 3"
| "system_error_to_u64 system_error.MaxSeedLengthExceeded = 4"
| "system_error_to_u64 AddressWithSeedMismatch = 5"
| "system_error_to_u64 NonceNoRecentBlockhashes = 6"
| "system_error_to_u64 NonceBlockhashNotExpired = 7"
| "system_error_to_u64 NonceUnexpectedBlockhashValue = 8"

definition BUILTIN_BIT_SHIFT :: nat where "BUILTIN_BIT_SHIFT = 32"

definition to_builtin :: "u64 \<Rightarrow> u64" where
  "to_builtin e = push_bit BUILTIN_BIT_SHIFT e"

text \<open>\<open>impl<T: ToPrimitive> From<T> for InstructionError\<close>, after \<open>to_u64\<close>.\<close>

definition instruction_error_from :: "u64 \<Rightarrow> instruction_error" where
  "instruction_error_from e =
    (if e = to_builtin 1 then Custom 0
     else if e = to_builtin 2 then InvalidArgument
     else if e = to_builtin 3 then InvalidInstructionData
     else if e = to_builtin 4 then InvalidAccountData
     else if e = to_builtin 5 then AccountDataTooSmall
     else if e = to_builtin 6 then InsufficientFunds
     else if e = to_builtin 7 then IncorrectProgramId
     else if e = to_builtin 8 then MissingRequiredSignature
     else if e = to_builtin 9 then AccountAlreadyInitialized
     else if e = to_builtin 10 then UninitializedAccount
     else if e = to_builtin 11 then NotEnoughAccountKeys
     else if e = to_builtin 12 then AccountBorrowFailed
     else if e = to_builtin 13 then MaxSeedLengthExceeded
     else if e = to_builtin 14 then InvalidSeeds
     else if e = to_builtin 15 then BorshIoError ''Unknown''
     else if e = to_builtin 16 then AccountNotRentExempt
     else if e = to_builtin 17 then UnsupportedSysvar
     else if e = to_builtin 18 then IllegalOwner
     else if e = to_builtin 19 then MaxAccountsDataAllocationsExceeded
     else if e = to_builtin 20 then InvalidRealloc
     else if e = to_builtin 21 then MaxInstructionTraceLengthExceeded
     else if e = to_builtin 22 then BuiltinProgramsMustConsumeComputeUnits
     else if e = to_builtin 23 then InvalidAccountOwner
     else if e = to_builtin 24 then ArithmeticOverflow
     else if e = to_builtin 25 then Immutable
     else if e = to_builtin 26 then IncorrectAuthority
     else if drop_bit BUILTIN_BIT_SHIFT e = 0 then Custom (ucast e)
     else InvalidError)"

definition system_error_into :: "system_error \<Rightarrow> instruction_error" where
  "system_error_into e = instruction_error_from (system_error_to_u64 e)"

definition pubkey_error_into :: "pubkey_error \<Rightarrow> instruction_error" where
  "pubkey_error_into e = instruction_error_from (pubkey_error_to_u64 e)"

lemma instruction_error_from_small:
  "e < 2 ^ 32 \<Longrightarrow> instruction_error_from e = Custom (ucast e)"
proof -
  assume e: "e < 2 ^ 32"
  have no: "e \<noteq> to_builtin k" if "k \<in> {1..26}" for k
  proof -
    from that have "2 ^ 32 \<le> to_builtin k"
      by (auto simp: to_builtin_def BUILTIN_BIT_SHIFT_def push_bit_eq_mult unat_arith_simps
            unat_word_ariths)
    with e show ?thesis by auto
  qed
  have "drop_bit BUILTIN_BIT_SHIFT e = 0"
    using e by (simp add: BUILTIN_BIT_SHIFT_def drop_bit_eq_div word_less_nat_alt word_unat_eq_iff
        unat_div)
  then show ?thesis by (simp add: instruction_error_from_def no)
qed

lemma system_error_into_simps [simp]:
  "system_error_into AccountAlreadyInUse = Custom 0"
  "system_error_into ResultWithNegativeLamports = Custom 1"
  "system_error_into InvalidProgramId = Custom 2"
  "system_error_into InvalidAccountDataLength = Custom 3"
  "system_error_into system_error.MaxSeedLengthExceeded = Custom 4"
  "system_error_into AddressWithSeedMismatch = Custom 5"
  "system_error_into NonceNoRecentBlockhashes = Custom 6"
  "system_error_into NonceBlockhashNotExpired = Custom 7"
  "system_error_into NonceUnexpectedBlockhashValue = Custom 8"
  by (simp_all add: system_error_into_def instruction_error_from_small)

lemma pubkey_error_into_simps [simp]:
  "pubkey_error_into pubkey_error.MaxSeedLengthExceeded = Custom 0"
  "pubkey_error_into pubkey_error.InvalidSeeds = Custom 1"
  "pubkey_error_into pubkey_error.IllegalOwner = Custom 2"
  by (simp_all add: pubkey_error_into_def instruction_error_from_small)

subsection \<open>Derived addresses\<close>

text \<open>\<open>hashv\<close> feeds the slices to one SHA-256 state: the digest of their concatenation.\<close>

definition hashv :: "(bytes \<Rightarrow> hash) \<Rightarrow> bytes list \<Rightarrow> hash" where
  "hashv sha256 vals = sha256 (concat vals)"

text \<open>A \<open>&str\<close> is its UTF-8 bytes; \<open>seed.len()\<close> counts bytes.\<close>

definition create_with_seed ::
  "(bytes \<Rightarrow> hash) \<Rightarrow> pubkey \<Rightarrow> bytes \<Rightarrow> pubkey \<Rightarrow> pubkey_error + pubkey" where
  "create_with_seed sha256 base seed owner =
     (if MAX_SEED_LEN < length seed then Inl pubkey_error.MaxSeedLengthExceeded
      else if length PDA_MARKER \<le> length owner \<and>
              drop (length owner - length PDA_MARKER) owner = PDA_MARKER
      then Inl pubkey_error.IllegalOwner
      else Inr (hashv sha256 [base, seed, owner]))"

definition create_program_address ::
  "(bytes \<Rightarrow> hash) \<Rightarrow> (bytes \<Rightarrow> bool) \<Rightarrow> bytes list \<Rightarrow> pubkey \<Rightarrow> pubkey_error + pubkey" where
  "create_program_address sha256 bytes_are_curve_point seeds program_id =
     (if MAX_SEEDS < length seeds then Inl pubkey_error.MaxSeedLengthExceeded
      else if \<exists>seed\<in>set seeds. MAX_SEED_LEN < length seed
      then Inl pubkey_error.MaxSeedLengthExceeded
      else let h = hashv sha256 (seeds @ [program_id, PDA_MARKER])
           in if bytes_are_curve_point h then Inl pubkey_error.InvalidSeeds else Inr h)"

lemma create_with_seed_ok:
  "create_with_seed sha256 base seed owner = Inr k \<longleftrightarrow>
     length seed \<le> MAX_SEED_LEN \<and>
     \<not> (length PDA_MARKER \<le> length owner \<and>
        drop (length owner - length PDA_MARKER) owner = PDA_MARKER) \<and>
     k = sha256 (base @ seed @ owner)"
  by (auto simp: create_with_seed_def hashv_def)

subsection \<open>Accounts\<close>

record account =
  acc_lamports :: u64
  acc_data :: bytes
  acc_owner :: pubkey
  acc_executable :: bool
  acc_rent_epoch :: u64

text \<open>\<open>AccountSharedData::default()\<close> and \<open>AccountSharedData::new\<close>.\<close>

definition account_default :: account where
  "account_default = \<lparr>acc_lamports = 0, acc_data = [], acc_owner = replicate 32 0,
     acc_executable = False, acc_rent_epoch = 0\<rparr>"

definition account_new :: "u64 \<Rightarrow> nat \<Rightarrow> pubkey \<Rightarrow> account" where
  "account_new lamports space owner = \<lparr>acc_lamports = lamports, acc_data = replicate space 0,
     acc_owner = owner, acc_executable = False, acc_rent_epoch = 0\<rparr>"

text \<open>\<open>Vec::resize(new_len, value)\<close>: truncate, or extend with \<open>value\<close>.\<close>

definition vec_resize :: "'a list \<Rightarrow> nat \<Rightarrow> 'a \<Rightarrow> 'a list" where
  "vec_resize xs n x = take n xs @ replicate (n - length xs) x"

lemma length_vec_resize [simp]: "length (vec_resize xs n x) = n"
  by (simp add: vec_resize_def)

lemma vec_resize_prefix: "take (min n (length xs)) (vec_resize xs n x) = take n xs"
  by (simp add: vec_resize_def min_def)

lemma vec_resize_Nil [simp]: "vec_resize [] n x = replicate n x"
  by (simp add: vec_resize_def)

subsection \<open>bincode\<close>

text \<open>
  The four entry points of bincode that the sources call, at one type. \<open>bincode_laws B X\<close>
  is the documented behaviour on the values \<open>X\<close>: the reported size is the length of the
  encoding, \<open>serialize_into\<close> a long enough slice writes exactly the encoding at its
  start and fails on a shorter one, and \<open>deserialize\<close> of an encoding followed by anything gives the value back
  (\<open>allow_trailing_bytes\<close> is the default of \<open>bincode::deserialize\<close>).
\<close>

record 'a bincode =
  bc_serialize :: "'a \<Rightarrow> bytes option"
  bc_serialized_size :: "'a \<Rightarrow> u64 option"
  bc_serialize_into :: "'a \<Rightarrow> bytes \<Rightarrow> bytes option"
  bc_deserialize :: "bytes \<Rightarrow> 'a option"

definition bincode_laws :: "'a bincode \<Rightarrow> 'a set \<Rightarrow> bool" where
  "bincode_laws B X \<longleftrightarrow> (\<forall>x\<in>X. \<exists>bs. bc_serialize B x = Some bs \<and> length bs < 2 ^ 64 \<and>
     bc_serialized_size B x = Some (of_nat (length bs)) \<and>
     (\<forall>d. bc_serialize_into B x d =
        (if length bs \<le> length d then Some (bs @ drop (length bs) d) else None)) \<and>
     (\<forall>rest. bc_deserialize B (bs @ rest) = Some x))"

lemma bincode_lawsE:
  assumes "bincode_laws B X" "x \<in> X"
  obtains bs where "bc_serialize B x = Some bs" "length bs < 2 ^ 64"
    "bc_serialized_size B x = Some (of_nat (length bs))"
    "\<And>d. bc_serialize_into B x d =
       (if length bs \<le> length d then Some (bs @ drop (length bs) d) else None)"
    "\<And>rest. bc_deserialize B (bs @ rest) = Some x"
  using assms unfolding bincode_laws_def by blast

text \<open>
  A codec given by an encoder and a decoder that satisfies the laws, in the shape of bincode's
  fixed-width configuration. It shows that the laws can hold and instantiates the parameter in
  the witnesses.
\<close>

definition fixint_codec :: "('a \<Rightarrow> bytes) \<Rightarrow> (bytes \<Rightarrow> ('a \<times> bytes) option) \<Rightarrow> 'a bincode" where
  "fixint_codec enc dec =
     \<lparr>bc_serialize = (\<lambda>x. Some (enc x)),
      bc_serialized_size = (\<lambda>x. Some (of_nat (length (enc x)))),
      bc_serialize_into = (\<lambda>x d. if length (enc x) \<le> length d
                                 then Some (enc x @ drop (length (enc x)) d) else None),
      bc_deserialize = (\<lambda>d. map_option fst (dec d))\<rparr>"

lemma fixint_codec_laws:
  assumes "\<And>x rest. x \<in> X \<Longrightarrow> dec (enc x @ rest) = Some (x, rest)"
    and "\<And>x. x \<in> X \<Longrightarrow> length (enc x) < 2 ^ 64"
  shows "bincode_laws (fixint_codec enc dec) X"
  using assms by (auto simp: bincode_laws_def fixint_codec_def)

text \<open>Little-endian integers, as the fixed-width configuration writes them.\<close>

fun le_bytes :: "nat \<Rightarrow> nat \<Rightarrow> bytes" where
  "le_bytes 0 v = []"
| "le_bytes (Suc n) v = of_nat (v mod 256) # le_bytes n (v div 256)"

fun le_value :: "bytes \<Rightarrow> nat" where
  "le_value [] = 0"
| "le_value (b # bs) = unat b + 256 * le_value bs"

lemma length_le_bytes [simp]: "length (le_bytes n v) = n"
  by (induction n arbitrary: v) auto

lemma le_value_le_bytes: "v < 256 ^ n \<Longrightarrow> le_value (le_bytes n v) = v"
proof (induction n arbitrary: v)
  case 0
  then show ?case by simp
next
  case (Suc n)
  then have "v div 256 < 256 ^ n" by (simp add: less_mult_imp_div_less mult.commute)
  with Suc.IH have "le_value (le_bytes n (v div 256)) = v div 256" by blast
  moreover have "unat (of_nat (v mod 256) :: u8) = v mod 256"
    by (simp add: unat_of_nat)
  ultimately show ?case by simp
qed

end
