(* ===== verification/Rent.thy ===== *)
theory Rent
  imports F64 Sdk_Types
begin

section \<open>Rent\<close>

text \<open>
  \<open>sdk/program/src/rent.rs\<close>: the parameters of rent and the formulas over them. Integer
  arithmetic that the source writes with plain operators wraps, as in a release build; the
  floating-point part is the model of \<open>f64\<close> in theory \<open>F64\<close>.
\<close>

record rent =
  lamports_per_byte_year :: u64
  exemption_threshold :: f64
  burn_percent :: u8

datatype rent_due = Exempt | Paying u64

definition DEFAULT_LAMPORTS_PER_BYTE_YEAR :: u64 where
  "DEFAULT_LAMPORTS_PER_BYTE_YEAR = 1000000000 div 100 * 365 div (1024 * 1024)"

definition DEFAULT_EXEMPTION_THRESHOLD :: f64 where
  "DEFAULT_EXEMPTION_THRESHOLD = Finite False (2 ^ 52) (- 51)"

definition DEFAULT_BURN_PERCENT :: u8 where
  "DEFAULT_BURN_PERCENT = 50"

definition ACCOUNT_STORAGE_OVERHEAD :: u64 where
  "ACCOUNT_STORAGE_OVERHEAD = 128"

definition rent_default :: rent where
  "rent_default = \<lparr>lamports_per_byte_year = DEFAULT_LAMPORTS_PER_BYTE_YEAR,
     exemption_threshold = DEFAULT_EXEMPTION_THRESHOLD, burn_percent = DEFAULT_BURN_PERCENT\<rparr>"

definition rent_free :: rent where
  "rent_free = rent_default\<lparr>lamports_per_byte_year := 0\<rparr>"

definition calculate_burn :: "rent \<Rightarrow> u64 \<Rightarrow> u64 \<times> u64" where
  "calculate_burn r rent_collected =
     (let burned_portion = (rent_collected * ucast (burn_percent r)) div 100
      in (burned_portion, rent_collected - burned_portion))"

definition minimum_balance :: "rent \<Rightarrow> nat \<Rightarrow> u64" where
  "minimum_balance r data_len =
     (let bytes = of_nat data_len
      in f64_to_u64 (f64_mul
           (f64_of_u64 ((ACCOUNT_STORAGE_OVERHEAD + bytes) * lamports_per_byte_year r))
           (exemption_threshold r)))"

definition is_exempt :: "rent \<Rightarrow> u64 \<Rightarrow> nat \<Rightarrow> bool" where
  "is_exempt r balance data_len \<longleftrightarrow> minimum_balance r data_len \<le> balance"

definition due_amount :: "rent \<Rightarrow> nat \<Rightarrow> f64 \<Rightarrow> u64" where
  "due_amount r data_len years_elapsed =
     (let actual_data_len = of_nat data_len + ACCOUNT_STORAGE_OVERHEAD;
          lamports_per_year = lamports_per_byte_year r * actual_data_len
      in f64_to_u64 (f64_mul (f64_of_u64 lamports_per_year) years_elapsed))"

definition due :: "rent \<Rightarrow> u64 \<Rightarrow> nat \<Rightarrow> f64 \<Rightarrow> rent_due" where
  "due r balance data_len years_elapsed =
     (if is_exempt r balance data_len then Exempt
      else Paying (due_amount r data_len years_elapsed))"

fun rent_due_lamports :: "rent_due \<Rightarrow> u64" where
  "rent_due_lamports Exempt = 0"
| "rent_due_lamports (Paying x) = x"

fun rent_due_is_exempt :: "rent_due \<Rightarrow> bool" where
  "rent_due_is_exempt Exempt = True"
| "rent_due_is_exempt (Paying _) = False"

lemma default_lamports_per_byte_year: "DEFAULT_LAMPORTS_PER_BYTE_YEAR = 3480"
  by (simp add: DEFAULT_LAMPORTS_PER_BYTE_YEAR_def)

lemma default_exemption_value: "f64_value (2 ^ 52) (- 51) = 2"
  by (simp add: f64_value_def power_int_def power_divide)

text \<open>
  For every data length an account may have, the default parameters lose nothing to floating
  point: the exempt minimum is exactly two years of rent for the data and the overhead.
\<close>

lemma unat_minimum_balance_default:
  assumes "data_len \<le> 10 * 1024 * 1024"
  shows "unat (minimum_balance rent_default data_len) = (128 + data_len) * 3480 * 2"
proof -
  define w :: u64 where "w = (ACCOUNT_STORAGE_OVERHEAD + of_nat data_len) * 3480"
  have len: "unat (of_nat data_len :: u64) = data_len"
    using assms by (simp add: unat_of_nat)
  have w: "unat w = (128 + data_len) * 3480"
    using assms by (simp add: w_def ACCOUNT_STORAGE_OVERHEAD_def unat_word_ariths len)
  have "0 < w" using w by (simp add: word_less_nat_alt)
  moreover have w53: "unat w < 2 ^ 53" using w assms by simp
  ultimately obtain m e where f: "f64_of_u64 w = Finite False m e" "f64_value m e = real (unat w)"
    by (rule f64_of_u64_exact)
  have "0 < f64_value m e" using f(2) w by simp
  then have "0 < m" by (cases m) (auto simp: f64_value_def)
  moreover have "f64_value m e * f64_value (2 ^ 52) (- 51) = real (unat w) * 2 powi 1"
    using f(2) default_exemption_value by simp
  ultimately obtain m' e' where g: "f64_mul (Finite False m e) (Finite False (2 ^ 52) (- 51)) = Finite False m' e'"
    "f64_value m' e' = real (unat w) * 2 powi 1"
    using f64_mul_exact [of m "2 ^ 52" "unat w" 1 e "- 51"] w53 by auto
  have "f64_value m' e' = real ((128 + data_len) * 3480 * 2)" using g(2) w by simp
  then have "f64_to_u64 (Finite False m' e') = of_nat ((128 + data_len) * 3480 * 2)"
    by (rule f64_to_u64_exact) (use assms in simp)
  moreover have "minimum_balance rent_default data_len = f64_to_u64 (Finite False m' e')"
    unfolding minimum_balance_def
    using f(1) g(1) by (simp add: w_def rent_default_def DEFAULT_EXEMPTION_THRESHOLD_def
        default_lamports_per_byte_year Let_def del: f64_mul.simps f64_to_u64.simps)
  ultimately have "minimum_balance rent_default data_len = of_nat ((128 + data_len) * 3480 * 2)"
    by (simp only:)
  then show ?thesis
    by (simp only: unat_of_nat) (rule mod_less, use assms in simp)
qed

lemma minimum_balance_default_mono:
  assumes "a \<le> b" "b \<le> 10 * 1024 * 1024"
  shows "minimum_balance rent_default a \<le> minimum_balance rent_default b"
  using assms by (simp add: word_le_nat_alt unat_minimum_balance_default)

text \<open>The two parts of burned rent add up to what was collected.\<close>

lemma calculate_burn_sum: "fst (calculate_burn r x) + snd (calculate_burn r x) = x"
  by (simp add: calculate_burn_def Let_def)

text \<open>
  C29: with the default rent parameters the exempt minimum that \<open>Rent::minimum_balance\<close> computes
  through 64-bit floating point is exact for every data length an account may have: two years of
  3480 lamports per byte for the data and the 128 bytes of overhead. It therefore grows strictly
  with the data length.
\<close>

theorem minimum_balance_exact:
  assumes "data_len \<le> 10 * 1024 * 1024"
  shows "unat (minimum_balance rent_default data_len) = (128 + data_len) * 3480 * 2"
  using assms by (rule unat_minimum_balance_default)

theorem minimum_balance_exact_witness:
  "unat (minimum_balance rent_default 80) = 1447680"
  using minimum_balance_exact [of 80] by simp

end
