(* ===== verification/Transaction_Context.thy ===== *)
theory Transaction_Context
  imports Rent
begin

section \<open>The transaction context\<close>

text \<open>
  \<open>sdk/src/transaction_context.rs\<close>, the types \<open>TransactionAccounts\<close>,
  \<open>TransactionContext\<close> and \<open>InstructionContext\<close>. Accounts live in \<open>RefCell\<close>s: the
  model keeps the borrow flag next to the value, so that a second borrow fails as it does in
  the source. The \<open>RefCell\<close>s around the touched flags and the resize delta are only borrowed
  inside single expressions and are plain fields here; \<open>Rc\<close>, \<open>Pin\<close> and the debugging
  signature are left out. \<open>debug_assert!\<close> does nothing, as in a release build.
\<close>

type_synonym index_of_account = u16

record instruction_account =
  ia_index_in_transaction :: index_of_account
  ia_index_in_caller :: index_of_account
  ia_index_in_callee :: index_of_account
  ia_is_signer :: bool
  ia_is_writable :: bool

subsection \<open>RefCell and the loaded accounts\<close>

datatype borrow_flag = UNUSED | READING nat | WRITING

record 'a refcell =
  rc_value :: 'a
  rc_borrow :: borrow_flag

definition refcell_new :: "'a \<Rightarrow> 'a refcell" where
  "refcell_new v = \<lparr>rc_value = v, rc_borrow = UNUSED\<rparr>"

record transaction_accounts =
  ta_accounts :: "account refcell list"
  ta_touched_flags :: "bool list"

definition ta_new :: "account refcell list \<Rightarrow> transaction_accounts" where
  "ta_new accounts = \<lparr>ta_accounts = accounts, ta_touched_flags = replicate (length accounts) False\<rparr>"

definition ta_len :: "transaction_accounts \<Rightarrow> nat" where
  "ta_len ta = length (ta_accounts ta)"

definition ta_get :: "transaction_accounts \<Rightarrow> index_of_account \<Rightarrow> account refcell option" where
  "ta_get ta index = vec_get (ta_accounts ta) (unat index)"

definition ta_touch :: "transaction_accounts \<Rightarrow> index_of_account \<Rightarrow> instruction_error + transaction_accounts" where
  "ta_touch ta index =
     (if unat index < length (ta_touched_flags ta)
      then Inr (ta\<lparr>ta_touched_flags := (ta_touched_flags ta)[unat index := True]\<rparr>)
      else Inl NotEnoughAccountKeys)"

definition ta_touched_count :: "transaction_accounts \<Rightarrow> nat" where
  "ta_touched_count ta =
     fold (\<lambda>was_touched accumulator. usize_saturating_add accumulator (if was_touched then 1 else 0))
       (ta_touched_flags ta) 0"

text \<open>
  \<open>try_borrow\<close> and \<open>try_borrow_mut\<close>: the value, and the accounts with the flag of the
  borrowed cell raised until the guard is dropped.
\<close>

definition ta_try_borrow ::
  "transaction_accounts \<Rightarrow> index_of_account \<Rightarrow> instruction_error + account \<times> transaction_accounts" where
  "ta_try_borrow ta index =
     and_then (ok_or (vec_get (ta_accounts ta) (unat index)) MissingAccount) (\<lambda>c.
       case rc_borrow c of
         WRITING \<Rightarrow> Inl AccountBorrowFailed
       | UNUSED \<Rightarrow> Inr (rc_value c, ta\<lparr>ta_accounts := (ta_accounts ta)[unat index := c\<lparr>rc_borrow := READING 1\<rparr>]\<rparr>)
       | READING n \<Rightarrow> Inr (rc_value c, ta\<lparr>ta_accounts := (ta_accounts ta)[unat index := c\<lparr>rc_borrow := READING (Suc n)\<rparr>]\<rparr>))"

definition ta_try_borrow_mut ::
  "transaction_accounts \<Rightarrow> index_of_account \<Rightarrow> instruction_error + account \<times> transaction_accounts" where
  "ta_try_borrow_mut ta index =
     and_then (ok_or (vec_get (ta_accounts ta) (unat index)) MissingAccount) (\<lambda>c.
       if rc_borrow c = UNUSED
       then Inr (rc_value c, ta\<lparr>ta_accounts := (ta_accounts ta)[unat index := c\<lparr>rc_borrow := WRITING\<rparr>]\<rparr>)
       else Inl AccountBorrowFailed)"

definition ta_into_accounts :: "transaction_accounts \<Rightarrow> account list" where
  "ta_into_accounts ta = map rc_value (ta_accounts ta)"

subsection \<open>Contexts\<close>

record instruction_context =
  ic_nesting_level :: nat
  ic_instruction_accounts_lamport_sum :: u128
  ic_program_accounts :: "index_of_account list"
  ic_instruction_accounts :: "instruction_account list"
  ic_instruction_data :: bytes

definition ic_default :: instruction_context where
  "ic_default = \<lparr>ic_nesting_level = 0, ic_instruction_accounts_lamport_sum = 0,
     ic_program_accounts = [], ic_instruction_accounts = [], ic_instruction_data = []\<rparr>"

record transaction_return_data =
  rd_program_id :: pubkey
  rd_data :: bytes

record transaction_context =
  tc_account_keys :: "pubkey list"
  tc_accounts :: transaction_accounts
  tc_instruction_stack_capacity :: nat
  tc_instruction_trace_capacity :: nat
  tc_instruction_stack :: "nat list"
  tc_instruction_trace :: "instruction_context list"
  tc_return_data :: transaction_return_data
  tc_accounts_resize_delta :: int
  tc_rent :: rent

definition tc_new ::
  "(pubkey \<times> account) list \<Rightarrow> rent \<Rightarrow> nat \<Rightarrow> nat \<Rightarrow> transaction_context" where
  "tc_new transaction_accounts r instruction_stack_capacity instruction_trace_capacity =
     \<lparr>tc_account_keys = map fst transaction_accounts,
      tc_accounts = ta_new (map (\<lambda>(_, account). refcell_new account) transaction_accounts),
      tc_instruction_stack_capacity = instruction_stack_capacity,
      tc_instruction_trace_capacity = instruction_trace_capacity,
      tc_instruction_stack = [],
      tc_instruction_trace = [ic_default],
      tc_return_data = \<lparr>rd_program_id = replicate 32 0, rd_data = []\<rparr>,
      tc_accounts_resize_delta = 0,
      tc_rent = r\<rparr>"

definition deconstruct_without_keys :: "transaction_context \<Rightarrow> instruction_error + account list" where
  "deconstruct_without_keys tc =
     (if tc_instruction_stack tc \<noteq> [] then Inl CallDepth
      else Inr (ta_into_accounts (tc_accounts tc)))"

definition get_number_of_accounts :: "transaction_context \<Rightarrow> index_of_account" where
  "get_number_of_accounts tc = of_nat (ta_len (tc_accounts tc))"

definition get_key_of_account_at_index ::
  "transaction_context \<Rightarrow> index_of_account \<Rightarrow> instruction_error + pubkey" where
  "get_key_of_account_at_index tc index_in_transaction =
     ok_or (vec_get (tc_account_keys tc) (unat index_in_transaction)) NotEnoughAccountKeys"

definition get_account_at_index ::
  "transaction_context \<Rightarrow> index_of_account \<Rightarrow> instruction_error + account refcell" where
  "get_account_at_index tc index_in_transaction =
     ok_or (ta_get (tc_accounts tc) index_in_transaction) NotEnoughAccountKeys"

definition find_index_of_account :: "transaction_context \<Rightarrow> pubkey \<Rightarrow> index_of_account option" where
  "find_index_of_account tc pubkey =
     map_option of_nat (vec_position (\<lambda>key. key = pubkey) (tc_account_keys tc))"

definition find_index_of_program_account :: "transaction_context \<Rightarrow> pubkey \<Rightarrow> index_of_account option" where
  "find_index_of_program_account tc pubkey =
     map_option of_nat (vec_rposition (\<lambda>key. key = pubkey) (tc_account_keys tc))"

definition get_instruction_trace_length :: "transaction_context \<Rightarrow> nat" where
  "get_instruction_trace_length tc = length (tc_instruction_trace tc) - 1"

definition get_instruction_context_at_index_in_trace ::
  "transaction_context \<Rightarrow> nat \<Rightarrow> instruction_error + instruction_context" where
  "get_instruction_context_at_index_in_trace tc index_in_trace =
     ok_or (vec_get (tc_instruction_trace tc) index_in_trace) CallDepth"

definition get_instruction_context_at_nesting_level ::
  "transaction_context \<Rightarrow> nat \<Rightarrow> instruction_error + instruction_context" where
  "get_instruction_context_at_nesting_level tc nesting_level =
     and_then (ok_or (vec_get (tc_instruction_stack tc) nesting_level) CallDepth)
       (\<lambda>index_in_trace. get_instruction_context_at_index_in_trace tc index_in_trace)"

definition get_instruction_context_stack_height :: "transaction_context \<Rightarrow> nat" where
  "get_instruction_context_stack_height tc = length (tc_instruction_stack tc)"

definition get_current_instruction_context ::
  "transaction_context \<Rightarrow> instruction_error + instruction_context" where
  "get_current_instruction_context tc =
     (case get_instruction_context_stack_height tc of
        0 \<Rightarrow> Inl CallDepth
      | Suc level \<Rightarrow> get_instruction_context_at_nesting_level tc level)"

text \<open>
  \<open>get_next_instruction_context\<close> hands out a mutable reference to the last element of the
  trace; its user's update is the argument here.
\<close>

definition update_next_instruction_context ::
  "(instruction_context \<Rightarrow> instruction_context) \<Rightarrow> (transaction_context, instruction_error, unit) effect" where
  "update_next_instruction_context f = (\<lambda>tc.
     if tc_instruction_trace tc = [] then (Inl CallDepth, tc)
     else (Inr (), tc\<lparr>tc_instruction_trace :=
       butlast (tc_instruction_trace tc) @ [f (last (tc_instruction_trace tc))]\<rparr>))"

subsection \<open>Instruction contexts\<close>

definition ic_configure ::
  "index_of_account list \<Rightarrow> instruction_account list \<Rightarrow> bytes \<Rightarrow> instruction_context \<Rightarrow> instruction_context" where
  "ic_configure program_accounts instruction_accounts instruction_data ic =
     ic\<lparr>ic_program_accounts := program_accounts,
        ic_instruction_accounts := instruction_accounts,
        ic_instruction_data := instruction_data\<rparr>"

definition ic_get_stack_height :: "instruction_context \<Rightarrow> nat" where
  "ic_get_stack_height ic = usize_saturating_add (ic_nesting_level ic) 1"

definition get_number_of_program_accounts :: "instruction_context \<Rightarrow> index_of_account" where
  "get_number_of_program_accounts ic = of_nat (length (ic_program_accounts ic))"

definition get_number_of_instruction_accounts :: "instruction_context \<Rightarrow> index_of_account" where
  "get_number_of_instruction_accounts ic = of_nat (length (ic_instruction_accounts ic))"

definition check_number_of_instruction_accounts ::
  "instruction_context \<Rightarrow> index_of_account \<Rightarrow> instruction_error + unit" where
  "check_number_of_instruction_accounts ic expected_at_least =
     (if get_number_of_instruction_accounts ic < expected_at_least
      then Inl NotEnoughAccountKeys else Inr ())"

definition ic_find_index_of_program_account ::
  "instruction_context \<Rightarrow> transaction_context \<Rightarrow> pubkey \<Rightarrow> index_of_account option" where
  "ic_find_index_of_program_account ic tc pubkey =
     map_option of_nat (vec_position
       (\<lambda>index_in_transaction. vec_get (tc_account_keys tc) (unat index_in_transaction) = Some pubkey)
       (ic_program_accounts ic))"

definition find_index_of_instruction_account ::
  "instruction_context \<Rightarrow> transaction_context \<Rightarrow> pubkey \<Rightarrow> index_of_account option" where
  "find_index_of_instruction_account ic tc pubkey =
     map_option of_nat (vec_position
       (\<lambda>ia. vec_get (tc_account_keys tc) (unat (ia_index_in_transaction ia)) = Some pubkey)
       (ic_instruction_accounts ic))"

definition get_index_of_program_account_in_transaction ::
  "instruction_context \<Rightarrow> index_of_account \<Rightarrow> instruction_error + index_of_account" where
  "get_index_of_program_account_in_transaction ic program_account_index =
     ok_or (vec_get (ic_program_accounts ic) (unat program_account_index)) NotEnoughAccountKeys"

definition get_index_of_instruction_account_in_transaction ::
  "instruction_context \<Rightarrow> index_of_account \<Rightarrow> instruction_error + index_of_account" where
  "get_index_of_instruction_account_in_transaction ic instruction_account_index =
     and_then (ok_or (vec_get (ic_instruction_accounts ic) (unat instruction_account_index))
                 NotEnoughAccountKeys)
       (\<lambda>ia. Inr (ia_index_in_transaction ia))"

definition is_instruction_account_duplicate ::
  "instruction_context \<Rightarrow> index_of_account \<Rightarrow> instruction_error + index_of_account option" where
  "is_instruction_account_duplicate ic instruction_account_index =
     and_then (ok_or (vec_get (ic_instruction_accounts ic) (unat instruction_account_index))
                 NotEnoughAccountKeys)
       (\<lambda>ia. let index_in_callee = ia_index_in_callee ia
             in Inr (if index_in_callee = instruction_account_index then None
                     else Some index_in_callee))"

definition get_last_program_key ::
  "instruction_context \<Rightarrow> transaction_context \<Rightarrow> instruction_error + pubkey" where
  "get_last_program_key ic tc =
     and_then (get_index_of_program_account_in_transaction ic
                 (saturating_sub (get_number_of_program_accounts ic) 1))
       (\<lambda>index_in_transaction. get_key_of_account_at_index tc index_in_transaction)"

definition is_instruction_account_signer ::
  "instruction_context \<Rightarrow> index_of_account \<Rightarrow> instruction_error + bool" where
  "is_instruction_account_signer ic instruction_account_index =
     and_then (ok_or (vec_get (ic_instruction_accounts ic) (unat instruction_account_index))
                 MissingAccount)
       (\<lambda>ia. Inr (ia_is_signer ia))"

definition is_instruction_account_writable ::
  "instruction_context \<Rightarrow> index_of_account \<Rightarrow> instruction_error + bool" where
  "is_instruction_account_writable ic instruction_account_index =
     and_then (ok_or (vec_get (ic_instruction_accounts ic) (unat instruction_account_index))
                 MissingAccount)
       (\<lambda>ia. Inr (ia_is_writable ia))"

fun collect_signers ::
  "transaction_context \<Rightarrow> instruction_account list \<Rightarrow> pubkey list \<Rightarrow> instruction_error + pubkey list" where
  "collect_signers tc [] result = Inr result"
| "collect_signers tc (ia # ias) result =
     (if ia_is_signer ia
      then and_then (get_key_of_account_at_index tc (ia_index_in_transaction ia))
             (\<lambda>key. collect_signers tc ias (List.insert key result))
      else collect_signers tc ias result)"

text \<open>The \<open>HashSet\<close> of signers is a list without repetition.\<close>

definition get_signers ::
  "instruction_context \<Rightarrow> transaction_context \<Rightarrow> instruction_error + pubkey list" where
  "get_signers ic tc = collect_signers tc (ic_instruction_accounts ic) []"

subsection \<open>Lamport sums, push and pop\<close>

fun lamport_sum_loop ::
  "transaction_context \<Rightarrow> instruction_context \<Rightarrow> index_of_account list \<Rightarrow> u128 \<Rightarrow> instruction_error + u128" where
  "lamport_sum_loop tc ic [] acc = Inr acc"
| "lamport_sum_loop tc ic (i # rest) acc =
     and_then (is_instruction_account_duplicate ic i) (\<lambda>duplicate.
       if duplicate \<noteq> None then lamport_sum_loop tc ic rest acc
       else
         and_then (get_index_of_instruction_account_in_transaction ic i) (\<lambda>index_in_transaction.
         and_then (get_account_at_index tc index_in_transaction) (\<lambda>cell.
           if rc_borrow cell = WRITING then Inl AccountBorrowOutstanding
           else and_then (ok_or (checked_add (ucast (acc_lamports (rc_value cell))) acc) ArithmeticOverflow)
                  (\<lambda>acc'. lamport_sum_loop tc ic rest acc'))))"

definition instruction_accounts_lamport_sum ::
  "transaction_context \<Rightarrow> instruction_context \<Rightarrow> instruction_error + u128" where
  "instruction_accounts_lamport_sum tc ic =
     lamport_sum_loop tc ic (map of_nat [0..<unat (get_number_of_instruction_accounts ic)]) 0"

definition tc_push :: "(transaction_context, instruction_error, unit) effect" where
  "tc_push =
     bind (gets get_instruction_context_stack_height) (\<lambda>nesting_level.
     bind (reads (\<lambda>tc. if tc_instruction_trace tc = [] then Inl CallDepth
                       else Inr (last (tc_instruction_trace tc)))) (\<lambda>caller_instruction_context.
     bind (reads (\<lambda>tc. instruction_accounts_lamport_sum tc caller_instruction_context))
       (\<lambda>callee_instruction_accounts_lamport_sum.
     bind (gets (\<lambda>tc. tc_instruction_stack tc \<noteq> [])) (\<lambda>nested.
     bind (if nested
           then
             bind (reads get_current_instruction_context) (\<lambda>caller.
             bind (reads (\<lambda>tc. instruction_accounts_lamport_sum tc caller)) (\<lambda>current_sum.
             fail_if (ic_instruction_accounts_lamport_sum caller \<noteq> current_sum) UnbalancedInstruction))
           else return ()) (\<lambda>_.
     bind (update_next_instruction_context (\<lambda>ic.
             ic\<lparr>ic_nesting_level := nesting_level,
                ic_instruction_accounts_lamport_sum := callee_instruction_accounts_lamport_sum\<rparr>)) (\<lambda>_.
     bind (gets get_instruction_trace_length) (\<lambda>index_in_trace.
     bind (reads (\<lambda>tc. if tc_instruction_trace_capacity tc \<le> index_in_trace
                       then Inl MaxInstructionTraceLengthExceeded else Inr ())) (\<lambda>_.
     bind (modify (\<lambda>tc. tc\<lparr>tc_instruction_trace := tc_instruction_trace tc @ [ic_default]\<rparr>)) (\<lambda>_.
     bind (reads (\<lambda>tc. if tc_instruction_stack_capacity tc \<le> nesting_level
                       then Inl CallDepth else Inr ())) (\<lambda>_.
     modify (\<lambda>tc. tc\<lparr>tc_instruction_stack := tc_instruction_stack tc @ [index_in_trace]\<rparr>)))))))))))"

fun check_program_accounts_unborrowed ::
  "transaction_context \<Rightarrow> index_of_account list \<Rightarrow> instruction_error + unit" where
  "check_program_accounts_unborrowed tc [] = Inr ()"
| "check_program_accounts_unborrowed tc (i # rest) =
     and_then (get_account_at_index tc i) (\<lambda>cell.
       if rc_borrow cell = UNUSED then check_program_accounts_unborrowed tc rest
       else Inl AccountBorrowOutstanding)"

text \<open>Whether the lamport sum of the current instruction differs from the one taken at its push.\<close>

definition detect_unbalanced :: "transaction_context \<Rightarrow> instruction_error + bool" where
  "detect_unbalanced tc =
     and_then (get_current_instruction_context tc) (\<lambda>ic.
     and_then (check_program_accounts_unborrowed tc (ic_program_accounts ic)) (\<lambda>_.
     and_then (instruction_accounts_lamport_sum tc ic) (\<lambda>acc.
     Inr (ic_instruction_accounts_lamport_sum ic \<noteq> acc))))"

definition tc_pop :: "(transaction_context, instruction_error, unit) effect" where
  "tc_pop =
     bind (reads (\<lambda>tc. if tc_instruction_stack tc = [] then Inl CallDepth else Inr ())) (\<lambda>_.
     bind (gets detect_unbalanced) (\<lambda>detected_an_unbalanced_instruction.
     bind (modify (\<lambda>tc. tc\<lparr>tc_instruction_stack := butlast (tc_instruction_stack tc)\<rparr>)) (\<lambda>_.
     bind (lift detected_an_unbalanced_instruction) (\<lambda>unbalanced.
     fail_if unbalanced UnbalancedInstruction))))"

definition get_return_data :: "transaction_context \<Rightarrow> pubkey \<times> bytes" where
  "get_return_data tc = (rd_program_id (tc_return_data tc), rd_data (tc_return_data tc))"

definition set_return_data ::
  "pubkey \<Rightarrow> bytes \<Rightarrow> (transaction_context, instruction_error, unit) effect" where
  "set_return_data program_id data =
     modify (\<lambda>tc. tc\<lparr>tc_return_data := \<lparr>rd_program_id = program_id, rd_data = data\<rparr>\<rparr>)"

subsection \<open>The record of an execution\<close>

record execution_record =
  er_accounts :: "(pubkey \<times> account) list"
  er_return_data :: transaction_return_data
  er_touched_account_count :: u64
  er_accounts_resize_delta :: int

definition execution_record_from :: "transaction_context \<Rightarrow> execution_record" where
  "execution_record_from context =
     \<lparr>er_accounts = zip (tc_account_keys context) (ta_into_accounts (tc_accounts context)),
      er_return_data = tc_return_data context,
      er_touched_account_count = of_nat (ta_touched_count (tc_accounts context)),
      er_accounts_resize_delta = tc_accounts_resize_delta context\<rparr>"

end
