(* ===== verification/Sysvar_Cache.thy ===== *)
theory Sysvar_Cache
  imports Epoch_Schedule Transaction_Context
begin

section \<open>The sysvar cache\<close>

text \<open>
  \<open>program-runtime/src/sysvar_cache.rs\<close>: the cache of cluster state that built-in programs read,
  with the account check that guards the reads, and the types of the cached sysvars. A sysvar
  that is not cached is an \<open>UnsupportedSysvar\<close> error.
\<close>

definition sysvar_epoch_schedule_id :: pubkey where
  "sysvar_epoch_schedule_id = [6, 167, 213, 23, 24, 220, 63, 238, 2, 211, 228, 127, 1, 0, 248, 176,
     84, 247, 148, 46, 96, 89, 30, 63, 80, 135, 25, 168, 5, 0, 0, 0]"

definition sysvar_epoch_rewards_id :: pubkey where
  "sysvar_epoch_rewards_id = [6, 167, 213, 23, 24, 220, 63, 238, 2, 165, 88, 191, 131, 206, 102, 225,
     68, 66, 42, 28, 52, 149, 11, 39, 193, 134, 155, 90, 156, 0, 0, 0]"

definition sysvar_fees_id :: pubkey where
  "sysvar_fees_id = [6, 167, 213, 23, 24, 226, 90, 141, 131, 80, 60, 37, 26, 122, 240, 113,
     38, 253, 114, 0, 223, 111, 196, 237, 82, 106, 156, 144, 0, 0, 0, 0]"

definition sysvar_stake_history_id :: pubkey where
  "sysvar_stake_history_id = [6, 167, 213, 23, 25, 53, 132, 208, 254, 237, 155, 179, 67, 29, 19, 32,
     107, 229, 68, 40, 27, 87, 184, 86, 108, 197, 55, 95, 244, 0, 0, 0]"

definition sysvar_last_restart_slot_id :: pubkey where
  "sysvar_last_restart_slot_id = [6, 167, 213, 23, 25, 6, 221, 225, 205, 63, 148, 125, 202, 180, 200,
     244, 244, 245, 27, 173, 15, 152, 19, 184, 0, 210, 137, 71, 31, 192, 0, 0]"

record clock =
  ck_slot :: u64
  ck_epoch_start_timestamp :: int
  ck_epoch :: u64
  ck_leader_schedule_epoch :: u64
  ck_unix_timestamp :: int

record epoch_rewards =
  ew_total_rewards :: u64
  ew_distributed_rewards :: u64
  ew_distribution_complete_block_height :: u64

text \<open>\<open>distribute\<close> asserts that no more than the total is handed out; \<open>None\<close> is the panic.\<close>

definition epoch_rewards_distribute :: "epoch_rewards \<Rightarrow> u64 \<Rightarrow> epoch_rewards option" where
  "epoch_rewards_distribute r amount =
     (if saturating_add (ew_distributed_rewards r) amount \<le> ew_total_rewards r
      then Some (r\<lparr>ew_distributed_rewards := ew_distributed_rewards r + amount\<rparr>) else None)"

record stake_history_entry =
  sh_effective :: u64
  sh_activating :: u64
  sh_deactivating :: u64

type_synonym slot_hashes = "(u64 \<times> hash) list"
type_synonym stake_history = "(u64 \<times> stake_history_entry) list"

text \<open>A recent block hash with its lamports-per-signature fee.\<close>

type_synonym recent_blockhashes = "(hash \<times> u64) list"

record sysvar_cache =
  sc_clock :: "clock option"
  sc_epoch_schedule :: "epoch_schedule option"
  sc_epoch_rewards :: "epoch_rewards option"
  sc_fees :: "u64 option"
  sc_rent :: "rent option"
  sc_slot_hashes :: "slot_hashes option"
  sc_recent_blockhashes :: "recent_blockhashes option"
  sc_stake_history :: "stake_history option"
  sc_last_restart_slot :: "u64 option"

definition sysvar_cache_default :: sysvar_cache where
  "sysvar_cache_default = \<lparr>sc_clock = None, sc_epoch_schedule = None, sc_epoch_rewards = None,
     sc_fees = None, sc_rent = None, sc_slot_hashes = None, sc_recent_blockhashes = None,
     sc_stake_history = None, sc_last_restart_slot = None\<rparr>"

definition get_clock :: "sysvar_cache \<Rightarrow> instruction_error + clock" where
  "get_clock c = ok_or (sc_clock c) UnsupportedSysvar"

definition get_rent :: "sysvar_cache \<Rightarrow> instruction_error + rent" where
  "get_rent c = ok_or (sc_rent c) UnsupportedSysvar"

definition get_slot_hashes :: "sysvar_cache \<Rightarrow> instruction_error + slot_hashes" where
  "get_slot_hashes c = ok_or (sc_slot_hashes c) UnsupportedSysvar"

definition get_recent_blockhashes :: "sysvar_cache \<Rightarrow> instruction_error + recent_blockhashes" where
  "get_recent_blockhashes c = ok_or (sc_recent_blockhashes c) UnsupportedSysvar"

definition get_stake_history :: "sysvar_cache \<Rightarrow> instruction_error + stake_history" where
  "get_stake_history c = ok_or (sc_stake_history c) UnsupportedSysvar"

definition get_last_restart_slot :: "sysvar_cache \<Rightarrow> instruction_error + u64" where
  "get_last_restart_slot c = ok_or (sc_last_restart_slot c) UnsupportedSysvar"

subsection \<open>Filling the cache\<close>

text \<open>
  The callback gives the data of an account if it exists, and a sysvar whose data does not
  deserialize stays missing. The decoders are those of \<open>bincode\<close>.
\<close>

record sysvar_decoders =
  dec_clock :: "bytes \<Rightarrow> clock option"
  dec_epoch_schedule :: "bytes \<Rightarrow> epoch_schedule option"
  dec_epoch_rewards :: "bytes \<Rightarrow> epoch_rewards option"
  dec_fees :: "bytes \<Rightarrow> u64 option"
  dec_rent :: "bytes \<Rightarrow> rent option"
  dec_slot_hashes :: "bytes \<Rightarrow> slot_hashes option"
  dec_recent_blockhashes :: "bytes \<Rightarrow> recent_blockhashes option"
  dec_stake_history :: "bytes \<Rightarrow> stake_history option"
  dec_last_restart_slot :: "bytes \<Rightarrow> u64 option"

definition fill_entry ::
  "(pubkey \<Rightarrow> bytes option) \<Rightarrow> (bytes \<Rightarrow> 'a option) \<Rightarrow> pubkey \<Rightarrow> 'a option \<Rightarrow> 'a option" where
  "fill_entry get_account_data dec sysvar_id entry =
     (case entry of Some v \<Rightarrow> Some v | None \<Rightarrow> Option.bind (get_account_data sysvar_id) dec)"

definition fill_missing_entries ::
  "sysvar_decoders \<Rightarrow> (pubkey \<Rightarrow> bytes option) \<Rightarrow> sysvar_cache \<Rightarrow> sysvar_cache" where
  "fill_missing_entries D get_account_data c =
     \<lparr>sc_clock = fill_entry get_account_data (dec_clock D) sysvar_clock_id (sc_clock c),
      sc_epoch_schedule = fill_entry get_account_data (dec_epoch_schedule D) sysvar_epoch_schedule_id (sc_epoch_schedule c),
      sc_epoch_rewards = fill_entry get_account_data (dec_epoch_rewards D) sysvar_epoch_rewards_id (sc_epoch_rewards c),
      sc_fees = fill_entry get_account_data (dec_fees D) sysvar_fees_id (sc_fees c),
      sc_rent = fill_entry get_account_data (dec_rent D) sysvar_rent_id (sc_rent c),
      sc_slot_hashes = fill_entry get_account_data (dec_slot_hashes D) sysvar_slot_hashes_id (sc_slot_hashes c),
      sc_recent_blockhashes =
        fill_entry get_account_data (dec_recent_blockhashes D) sysvar_recent_blockhashes_id (sc_recent_blockhashes c),
      sc_stake_history = fill_entry get_account_data (dec_stake_history D) sysvar_stake_history_id (sc_stake_history c),
      sc_last_restart_slot =
        fill_entry get_account_data (dec_last_restart_slot D) sysvar_last_restart_slot_id (sc_last_restart_slot c)\<rparr>"

definition sysvar_cache_reset :: "sysvar_cache \<Rightarrow> sysvar_cache" where
  "sysvar_cache_reset c = sysvar_cache_default"

subsection \<open>Reads with an account check\<close>

definition check_sysvar_account ::
  "pubkey \<Rightarrow> instruction_context \<Rightarrow> index_of_account \<Rightarrow> transaction_context \<Rightarrow> instruction_error + unit" where
  "check_sysvar_account sysvar_id ic i tc =
     and_then (get_index_of_instruction_account_in_transaction ic i) (\<lambda>k.
     and_then (get_key_of_account_at_index tc k) (\<lambda>key.
       if key \<noteq> sysvar_id then Inl InvalidArgument else Inr ()))"

definition checked_clock ::
  "sysvar_cache \<Rightarrow> instruction_context \<Rightarrow> index_of_account \<Rightarrow> transaction_context \<Rightarrow> instruction_error + clock" where
  "checked_clock c ic i tc = and_then (check_sysvar_account sysvar_clock_id ic i tc) (\<lambda>_. get_clock c)"

definition checked_rent ::
  "sysvar_cache \<Rightarrow> instruction_context \<Rightarrow> index_of_account \<Rightarrow> transaction_context \<Rightarrow> instruction_error + rent" where
  "checked_rent c ic i tc = and_then (check_sysvar_account sysvar_rent_id ic i tc) (\<lambda>_. get_rent c)"

definition checked_slot_hashes ::
  "sysvar_cache \<Rightarrow> instruction_context \<Rightarrow> index_of_account \<Rightarrow> transaction_context \<Rightarrow> instruction_error + slot_hashes" where
  "checked_slot_hashes c ic i tc =
     and_then (check_sysvar_account sysvar_slot_hashes_id ic i tc) (\<lambda>_. get_slot_hashes c)"

definition checked_recent_blockhashes ::
  "sysvar_cache \<Rightarrow> instruction_context \<Rightarrow> index_of_account \<Rightarrow> transaction_context \<Rightarrow>
     instruction_error + recent_blockhashes" where
  "checked_recent_blockhashes c ic i tc =
     and_then (check_sysvar_account sysvar_recent_blockhashes_id ic i tc) (\<lambda>_. get_recent_blockhashes c)"

definition checked_stake_history ::
  "sysvar_cache \<Rightarrow> instruction_context \<Rightarrow> index_of_account \<Rightarrow> transaction_context \<Rightarrow>
     instruction_error + stake_history" where
  "checked_stake_history c ic i tc =
     and_then (check_sysvar_account sysvar_stake_history_id ic i tc) (\<lambda>_. get_stake_history c)"

definition checked_last_restart_slot ::
  "sysvar_cache \<Rightarrow> instruction_context \<Rightarrow> index_of_account \<Rightarrow> transaction_context \<Rightarrow> instruction_error + u64" where
  "checked_last_restart_slot c ic i tc =
     and_then (check_sysvar_account sysvar_last_restart_slot_id ic i tc) (\<lambda>_. get_last_restart_slot c)"

text \<open>Filling keeps what is cached and is idempotent, so it may run once per slot or more often.\<close>

lemma fill_entry_idem: "fill_entry g d i (fill_entry g d i e) = fill_entry g d i e"
  by (auto simp: fill_entry_def split: option.splits)

lemma fill_missing_entries_idem:
  "fill_missing_entries D g (fill_missing_entries D g c) = fill_missing_entries D g c"
  by (simp add: fill_missing_entries_def fill_entry_idem)

end
