(* ===== verification/Slot_Sysvars.thy ===== *)
theory Slot_Sysvars
  imports Sysvar_Cache
begin

section \<open>Slot hashes, stake history and slot history\<close>

text \<open>
  \<open>sdk/program/src/slot_hashes.rs\<close>, \<open>stake_history.rs\<close> and \<open>slot_history.rs\<close>. The first two are vectors
  sorted by descending key, searched by bisection and cut to their newest entries; they share one
  implementation here and one contract, a locale of maps that forget their oldest keys. Slot
  history is a ring of bits.
\<close>

subsection \<open>Binary search\<close>

datatype ordering = Less | Equal | Greater

definition cmp :: "'a::linorder \<Rightarrow> 'a \<Rightarrow> ordering" where
  "cmp a b = (if a < b then Less else if a = b then Equal else Greater)"

lemma cmp_simps [simp]:
  "a < b \<Longrightarrow> cmp a b = Less"
  "cmp a a = Equal"
  "b < a \<Longrightarrow> cmp a b = Greater"
  by (auto simp: cmp_def)

text \<open>The loop of \<open>slice::binary_search_by\<close>: \<open>Inr\<close> is \<open>Ok\<close>, \<open>Inl\<close> the place to insert.\<close>

function binary_search_loop :: "(nat \<Rightarrow> ordering) \<Rightarrow> nat \<Rightarrow> nat \<Rightarrow> nat + nat" where
  "binary_search_loop f left right =
     (if left < right
      then (let mid = left + (right - left) div 2
            in case f mid of
                 Less \<Rightarrow> binary_search_loop f (mid + 1) right
               | Greater \<Rightarrow> binary_search_loop f left mid
               | Equal \<Rightarrow> Inr mid)
      else Inl left)"
  by pat_completeness auto
termination
  by (relation "measure (\<lambda>(f, left, right). right - left)") auto

declare binary_search_loop.simps [simp del]

definition binary_search_by :: "'a list \<Rightarrow> ('a \<Rightarrow> ordering) \<Rightarrow> nat + nat" where
  "binary_search_by xs f = binary_search_loop (\<lambda>i. f (xs ! i)) 0 (length xs)"

definition desc :: "('k::linorder \<times> 'v) list \<Rightarrow> bool" where
  "desc xs \<longleftrightarrow> sorted_wrt (>) (map fst xs)"

lemma desc_nth: "desc xs \<Longrightarrow> i < j \<Longrightarrow> j < length xs \<Longrightarrow> fst (xs ! j) < fst (xs ! i)"
  by (simp add: desc_def sorted_wrt_iff_nth_less)

lemma binary_search_loop_spec:
  assumes "desc xs" "left \<le> right" "right \<le> length xs"
    and "\<forall>j<left. k < fst (xs ! j)" "\<forall>j. right \<le> j \<and> j < length xs \<longrightarrow> fst (xs ! j) < k"
  shows "case binary_search_loop (\<lambda>i. cmp k (fst (xs ! i))) left right of
      Inr i \<Rightarrow> i < length xs \<and> fst (xs ! i) = k
    | Inl i \<Rightarrow> i \<le> length xs \<and> (\<forall>j<i. k < fst (xs ! j)) \<and> (\<forall>j. i \<le> j \<and> j < length xs \<longrightarrow> fst (xs ! j) < k)"
  using assms(2-)
proof (induction "\<lambda>i. cmp k (fst (xs ! i))" left right rule: binary_search_loop.induct)
  case (1 left right)
  show ?case
  proof (cases "left < right")
    case False
    then show ?thesis using 1 by (simp add: binary_search_loop.simps)
  next
    case True
    let ?mid = "left + (right - left) div 2"
    have mid: "left \<le> ?mid" "?mid < right" using True by auto
    consider "k < fst (xs ! ?mid)" | "k = fst (xs ! ?mid)" | "fst (xs ! ?mid) < k" by (rule linorder_cases)
    then show ?thesis
    proof cases
      case 1
      have up: "\<forall>j<?mid + 1. k < fst (xs ! j)"
      proof (intro allI impI)
        fix j
        assume "j < ?mid + 1"
        then have "j < ?mid \<or> j = ?mid" by linarith
        then show "k < fst (xs ! j)"
          using desc_nth [OF assms(1), of j ?mid] 1 mid(2) "1.prems"(2) by (elim disjE) simp_all
      qed
      have "binary_search_loop (\<lambda>i. cmp k (fst (xs ! i))) left right =
          binary_search_loop (\<lambda>i. cmp k (fst (xs ! i))) (?mid + 1) right"
        using True 1 by (subst binary_search_loop.simps) (simp add: Let_def)
      moreover note "1.hyps"(1) [OF True refl _ _ "1.prems"(2) up "1.prems"(4)]
      ultimately show ?thesis using 1 mid by simp
    next
      case 2
      then have "binary_search_loop (\<lambda>i. cmp k (fst (xs ! i))) left right = Inr ?mid"
        using True by (subst binary_search_loop.simps) (simp add: Let_def)
      then show ?thesis using 2 mid "1.prems"(2) by simp
    next
      case 3
      have down: "\<forall>j. ?mid \<le> j \<and> j < length xs \<longrightarrow> fst (xs ! j) < k"
      proof (intro allI impI)
        fix j
        assume j: "?mid \<le> j \<and> j < length xs"
        then have "?mid < j \<or> j = ?mid" by linarith
        then show "fst (xs ! j) < k"
          using desc_nth [OF assms(1), of ?mid j] 3 j by (elim disjE) simp_all
      qed
      have "binary_search_loop (\<lambda>i. cmp k (fst (xs ! i))) left right =
          binary_search_loop (\<lambda>i. cmp k (fst (xs ! i))) left ?mid"
        using True 3 by (subst binary_search_loop.simps) (simp add: Let_def)
      moreover have "?mid \<le> length xs" using mid "1.prems"(2) by simp
      note "1.hyps"(2) [OF True refl _ mid(1) this "1.prems"(3) down]
      ultimately show ?thesis using 3 by simp
    qed
  qed
qed

subsection \<open>Sorted vectors\<close>

definition desc_search :: "('k::linorder \<times> 'v) list \<Rightarrow> 'k \<Rightarrow> nat + nat" where
  "desc_search xs k = binary_search_by xs (\<lambda>(probe, _). cmp k probe)"

definition desc_get :: "('k::linorder \<times> 'v) list \<Rightarrow> 'k \<Rightarrow> 'v option" where
  "desc_get xs k = (case desc_search xs k of Inr i \<Rightarrow> Some (snd (xs ! i)) | Inl _ \<Rightarrow> None)"

definition desc_position :: "('k::linorder \<times> 'v) list \<Rightarrow> 'k \<Rightarrow> nat option" where
  "desc_position xs k = (case desc_search xs k of Inr i \<Rightarrow> Some i | Inl _ \<Rightarrow> None)"

definition desc_add :: "nat \<Rightarrow> 'k::linorder \<Rightarrow> 'v \<Rightarrow> ('k \<times> 'v) list \<Rightarrow> ('k \<times> 'v) list" where
  "desc_add cap k v xs =
     take cap (case desc_search xs k of
                 Inr i \<Rightarrow> xs[i := (k, v)]
               | Inl i \<Rightarrow> take i xs @ (k, v) # drop i xs)"

lemma desc_search_spec:
  assumes "desc xs"
  shows "case desc_search xs k of
      Inr i \<Rightarrow> i < length xs \<and> fst (xs ! i) = k
    | Inl i \<Rightarrow> i \<le> length xs \<and> (\<forall>j<i. k < fst (xs ! j)) \<and> (\<forall>j. i \<le> j \<and> j < length xs \<longrightarrow> fst (xs ! j) < k)"
proof -
  have "\<forall>j. length xs \<le> j \<and> j < length xs \<longrightarrow> fst (xs ! j) < k" by auto
  from binary_search_loop_spec [OF assms le0 order_refl _ this] show ?thesis
    by (simp add: desc_search_def binary_search_by_def case_prod_beta)
qed

lemma desc_distinct: "desc xs \<Longrightarrow> distinct (map fst xs)"
  unfolding desc_def by (induction xs) auto

lemma desc_map_of: "desc xs \<Longrightarrow> i < length xs \<Longrightarrow> map_of xs (fst (xs ! i)) = Some (snd (xs ! i))"
proof -
  assume d: "desc xs" and i: "i < length xs"
  then show ?thesis using desc_distinct [OF d] by simp
qed

lemma desc_get_map_of: "desc xs \<Longrightarrow> desc_get xs k = map_of xs k"
proof (cases "desc_search xs k")
  case (Inl i)
  assume d: "desc xs"
  have "k \<noteq> fst (xs ! j)" if "j < length xs" for j
    using desc_search_spec [OF d, of k] Inl that by (cases "j < i") (auto simp: not_less)
  then have "map_of xs k = None" by (fastforce simp: map_of_eq_None_iff in_set_conv_nth)
  then show ?thesis using Inl by (simp add: desc_get_def)
next
  case (Inr i)
  assume d: "desc xs"
  show ?thesis using desc_search_spec [OF d, of k] desc_map_of [OF d, of i] Inr by (auto simp: desc_get_def)
qed

definition desc_put :: "'k::linorder \<Rightarrow> 'v \<Rightarrow> ('k \<times> 'v) list \<Rightarrow> ('k \<times> 'v) list" where
  "desc_put k v xs = (case desc_search xs k of
                        Inr i \<Rightarrow> xs[i := (k, v)]
                      | Inl i \<Rightarrow> take i xs @ (k, v) # drop i xs)"

lemma desc_add_put: "desc_add cap k v xs = take cap (desc_put k v xs)"
  by (simp add: desc_add_def desc_put_def)

lemma desc_append:
  "desc (xs @ ys) \<longleftrightarrow> desc xs \<and> desc ys \<and> (\<forall>x\<in>fst ` set xs. \<forall>y\<in>fst ` set ys. y < x)"
  by (auto simp: desc_def sorted_wrt_append)

lemma desc_appendD:
  "desc (xs @ (k, v) # ys) \<longleftrightarrow> desc xs \<and> desc ys \<and> (\<forall>x\<in>fst ` set xs. k < x) \<and> (\<forall>y\<in>fst ` set ys. y < k)
     \<and> (\<forall>x\<in>fst ` set xs. \<forall>y\<in>fst ` set ys. y < x)"
  by (auto simp: desc_def sorted_wrt_append)

lemma desc_put_split:
  assumes "desc xs"
  shows "\<exists>a b w. (xs = a @ b \<or> xs = a @ (k, w) # b) \<and> desc_put k v xs = a @ (k, v) # b
      \<and> (\<forall>x\<in>fst ` set a. k < x) \<and> (\<forall>y\<in>fst ` set b. y < k)"
proof (cases "desc_search xs k")
  case (Inr i)
  then have i: "i < length xs" and k: "fst (xs ! i) = k" using desc_search_spec [OF assms, of k] by auto
  have "xs = take i xs @ (k, snd (xs ! i)) # drop (Suc i) xs"
    using i k by (metis id_take_nth_drop prod.collapse)
  moreover have "desc_put k v xs = take i xs @ (k, v) # drop (Suc i) xs"
    using Inr i by (simp add: desc_put_def upd_conv_take_nth_drop)
  ultimately show ?thesis using assms desc_appendD by metis
next
  case (Inl i)
  note sp = desc_search_spec [OF assms, of k, unfolded Inl, simplified]
  have "\<forall>x\<in>fst ` set (take i xs). k < x" using sp by (auto simp: in_set_conv_nth) (metis fst_conv)
  moreover have "\<forall>y\<in>fst ` set (drop i xs). y < k"
    using sp by (auto simp: in_set_conv_nth) (metis add.commute fst_conv le_add1 less_diff_conv)
  moreover have "desc_put k v xs = take i xs @ (k, v) # drop i xs" using Inl by (simp add: desc_put_def)
  ultimately show ?thesis by (metis append_take_drop_id)
qed

lemma desc_put_desc: "desc xs \<Longrightarrow> desc (desc_put k v xs)"
proof -
  assume d: "desc xs"
  from desc_put_split [OF this, of k v] obtain a b w
    where xs: "xs = a @ b \<or> xs = a @ (k, w) # b" and put: "desc_put k v xs = a @ (k, v) # b"
      and ab: "\<forall>x\<in>fst ` set a. k < x" "\<forall>y\<in>fst ` set b. y < k" by blast
  have "desc a \<and> desc b \<and> (\<forall>x\<in>fst ` set a. \<forall>y\<in>fst ` set b. y < x)"
    using xs d desc_append desc_appendD by metis
  then show ?thesis using ab by (simp add: put desc_appendD)
qed

lemma desc_put_map_of: "desc xs \<Longrightarrow> map_of (desc_put k v xs) = (map_of xs)(k \<mapsto> v)"
proof -
  assume "desc xs"
  from desc_put_split [OF this, of k v] obtain a b w
    where xs: "xs = a @ b \<or> xs = a @ (k, w) # b" and put: "desc_put k v xs = a @ (k, v) # b"
      and a: "\<forall>x\<in>fst ` set a. k < x" by blast
  have "k \<notin> fst ` set a" using a by blast
  then have "map_of a k = None" by (simp add: map_of_eq_None_iff)
  then show ?thesis using xs by (auto simp: put fun_eq_iff map_add_def split: option.split)
qed

lemma desc_take: "desc xs \<Longrightarrow> desc (take n xs)"
  by (metis desc_def sorted_wrt_take take_map)

lemma dom_map_of_where: "dom (\<lambda>i. if P i then map_of (rev xs) i else None) = {i \<in> fst ` set xs. P i}"
proof -
  have "dom (map_of (rev xs)) = fst ` set xs" by (simp add: dom_map_of_conv_image_fst)
  then show ?thesis by (auto simp: dom_def split: if_splits)
qed

text \<open>The keys above \<open>j\<close>. In a sorted vector they are the ones in front of \<open>j\<close>.\<close>

definition newer :: "'k::linorder set \<Rightarrow> 'k \<Rightarrow> 'k set" where
  "newer K j = {i \<in> K. j < i}"

lemma newer_mono: "K \<subseteq> L \<Longrightarrow> newer K j \<subseteq> newer L j"
  by (auto simp: newer_def)

lemma newer_finite [simp]: "finite K \<Longrightarrow> finite (newer K j)"
  by (simp add: newer_def)

lemma desc_take_mem:
  "desc xs \<Longrightarrow> j \<in> fst ` set (take n xs) \<longleftrightarrow> j \<in> fst ` set xs \<and> card (newer (fst ` set xs) j) < n"
proof (induction xs arbitrary: n)
  case (Cons x xs)
  have xs: "desc xs" and above: "\<forall>i\<in>fst ` set xs. i < fst x" using Cons.prems by (auto simp: desc_def)
  show ?case
  proof (cases n)
    case (Suc m)
    have "newer (fst ` set (x # xs)) (fst x) = {}" using above by (auto simp: newer_def)
    moreover have "newer (fst ` set (x # xs)) j = insert (fst x) (newer (fst ` set xs) j)" if "j \<in> fst ` set xs" for j
      using above that by (auto simp: newer_def)
    moreover have "fst x \<notin> newer (fst ` set xs) j" for j using above by (auto simp: newer_def)
    ultimately show ?thesis using Cons.IH [OF xs, of m] Suc
      by (cases "j = fst x"; cases "j \<in> fst ` set xs") simp_all
  qed simp
qed simp

lemma desc_take_map_of:
  assumes "desc xs"
  shows "map_of (take n xs) j = (if card (newer (fst ` set xs) j) < n then map_of xs j else None)"
proof -
  have "map_of (take n xs) j = (if j \<in> fst ` set (take n xs) then map_of xs j else None)"
    using map_of_append [of "take n xs" "drop n xs"]
    by (auto simp: map_add_def map_of_eq_None_iff split: option.split)
  moreover have "map_of xs j = None" if "j \<notin> fst ` set xs" using that by (simp add: map_of_eq_None_iff)
  ultimately show ?thesis using desc_take_mem [OF assms, of j n] by auto
qed

subsection \<open>Maps that forget their oldest keys\<close>

text \<open>
  What the clients of slot hashes and of the stake history rely on: an addition is found, and of the
  keys that were there and the new one exactly the \<open>cap\<close> newest are kept. So after any number of additions, in
  any order, the map has the last value for each of the \<open>cap\<close> newest keys that were ever added.
\<close>

lemma card_newest:
  assumes "finite K"
  shows "card {i \<in> K. card (newer K i) < n} = min n (card K)"
  using assms
proof (induction K rule: finite_linorder_min_induct)
  case (insert b A)
  have "newer (insert b A) b = A" "\<And>i. i \<in> A \<Longrightarrow> newer (insert b A) i = newer A i"
    using insert.hyps by (auto simp: newer_def)
  then have "{i \<in> insert b A. card (newer (insert b A) i) < n} =
      (if card A < n then insert b else id) {i \<in> A. card (newer A i) < n}"
    by auto
  moreover have "b \<notin> A" using insert.hyps by blast
  ultimately show ?case using insert by auto
qed simp

locale recent_map =
  fixes inv :: "'m \<Rightarrow> bool"
    and get :: "'m \<Rightarrow> 'k::linorder \<Rightarrow> 'v option"
    and add :: "'k \<Rightarrow> 'v \<Rightarrow> 'm \<Rightarrow> 'm"
    and cap :: nat
  assumes inv_add: "inv m \<Longrightarrow> inv (add k v m)"
    and get_add: "inv m \<Longrightarrow> get (add k v m) j =
        (if card (newer (insert k (dom (get m))) j) < cap then ((get m)(k \<mapsto> v)) j else None)"
begin

definition adds :: "('k \<times> 'v) list \<Rightarrow> 'm \<Rightarrow> 'm" where
  "adds kvs m = fold (\<lambda>(k, v). add k v) kvs m"

lemma inv_adds: "inv m \<Longrightarrow> inv (adds kvs m)"
  by (induction kvs arbitrary: m) (auto simp: adds_def inv_add)

text \<open>Forgetting all but the newest keys before an addition does not matter for what is kept after it.\<close>

lemma newest_again:
  assumes "finite K" "j = k \<or> card (newer K j) < cap"
  shows "card (newer (insert k {i \<in> K. card (newer K i) < cap}) j) < cap \<longleftrightarrow> card (newer (insert k K) j) < cap"
proof (cases "card (newer K j) < cap")
  case True
  have "newer K i \<subseteq> newer K j" if "j < i" for i using that by (auto simp: newer_def)
  then have "card (newer K i) < cap" if "j < i" for i
    using True that card_mono [OF newer_finite [OF assms(1)]] by (meson le_less_trans)
  then have "newer (insert k {i \<in> K. card (newer K i) < cap}) j = newer (insert k K) j" by (auto simp: newer_def)
  then show ?thesis by simp
next
  case False
  then have j: "j = k" using assms(2) by simp
  let ?N = "newer K k"
  have "newer ?N i = newer K i" if "k < i" for i using that by (auto simp: newer_def)
  then have "newer (insert k {i \<in> K. card (newer K i) < cap}) k = {i \<in> ?N. card (newer ?N i) < cap}" by (auto simp: newer_def)
  moreover have "newer (insert k K) k = ?N" by (auto simp: newer_def)
  ultimately show ?thesis using card_newest [of ?N cap] assms(1) False j by simp
qed

lemma get_adds:
  assumes "inv m" "\<And>i. get m i = None"
  shows "get (adds kvs m) j = (if card (newer (fst ` set kvs) j) < cap then map_of (rev kvs) j else None)"
proof (induction kvs arbitrary: j rule: rev_induct)
  case (snoc kv kvs)
  obtain k v where kv: "kv = (k, v)" by (cases kv)
  let ?K = "fst ` set kvs"
  have IH: "get (adds kvs m) = (\<lambda>i. if card (newer ?K i) < cap then map_of (rev kvs) i else None)"
    by (rule ext) (rule snoc.IH)
  have dom: "dom (get (adds kvs m)) = {i \<in> ?K. card (newer ?K i) < cap}"
    by (simp only: IH) (rule dom_map_of_where)
  have "get (adds (kvs @ [kv]) m) j = get (add k v (adds kvs m)) j" by (simp add: adds_def kv)
  also have "\<dots> = (if card (newer (insert k {i \<in> ?K. card (newer ?K i) < cap}) j) < cap
      then ((get (adds kvs m))(k \<mapsto> v)) j else None)"
    unfolding dom [symmetric] by (rule get_add) (rule inv_adds [OF assms(1)])
  also have "\<dots> = (if card (newer (insert k ?K) j) < cap then ((map_of (rev kvs))(k \<mapsto> v)) j else None)"
  proof (cases "j = k \<or> card (newer ?K j) < cap")
    case True
    then show ?thesis using newest_again [of ?K j k] by (auto simp: snoc.IH)
  next
    case False
    have "card (newer ?K j) \<le> card (newer (insert k ?K) j)" by (intro card_mono newer_mono newer_finite) auto
    then show ?thesis using False by (simp add: snoc.IH)
  qed
  finally show ?case by (simp add: kv)
qed (simp add: adds_def assms(2))

end

interpretation desc_map: recent_map desc desc_get "desc_add cap" cap for cap
proof
  fix m :: "('a \<times> 'b) list" and k j v
  assume d: "desc m"
  note put = desc_put_desc [OF d, of k v]
  show d': "desc (desc_add cap k v m)" by (simp add: desc_add_put desc_take put)
  have "fst ` set (desc_put k v m) = insert k (dom (map_of m))"
    using desc_put_map_of [OF d, of k v] by (metis dom_fun_upd dom_map_of_conv_image_fst option.distinct(1))
  then show "desc_get (desc_add cap k v m) j =
      (if card (newer (insert k (dom (desc_get m))) j) < cap then ((desc_get m)(k \<mapsto> v)) j else None)"
    using desc_take_map_of [OF put, of cap j] d' d
    by (simp add: desc_get_map_of desc_add_put desc_put_map_of [OF d] desc_get_map_of [OF d, abs_def])
qed

subsection \<open>Slot hashes and stake history\<close>

definition slot_hashes_MAX_ENTRIES :: nat where "slot_hashes_MAX_ENTRIES = 512"

definition slot_hashes_add :: "u64 \<Rightarrow> hash \<Rightarrow> slot_hashes \<Rightarrow> slot_hashes" where
  "slot_hashes_add slot h sh = desc_add slot_hashes_MAX_ENTRIES slot h sh"

definition slot_hashes_position :: "slot_hashes \<Rightarrow> u64 \<Rightarrow> nat option" where
  "slot_hashes_position sh slot = desc_position sh slot"

definition slot_hashes_get :: "slot_hashes \<Rightarrow> u64 \<Rightarrow> hash option" where
  "slot_hashes_get sh slot = desc_get sh slot"

text \<open>\<open>sort_by\<close> with the keys compared in reverse: the stable sort by the negated slot.\<close>

definition slot_hashes_new :: "(u64 \<times> hash) list \<Rightarrow> slot_hashes" where
  "slot_hashes_new xs = sort_key (\<lambda>(slot, _). - uint slot) xs"

definition stake_history_MAX_ENTRIES :: nat where "stake_history_MAX_ENTRIES = 512"

definition stake_history_get :: "stake_history \<Rightarrow> u64 \<Rightarrow> stake_history_entry option" where
  "stake_history_get sh epoch = desc_get sh epoch"

definition stake_history_add :: "u64 \<Rightarrow> stake_history_entry \<Rightarrow> stake_history \<Rightarrow> stake_history" where
  "stake_history_add epoch entry sh = desc_add stake_history_MAX_ENTRIES epoch entry sh"

definition with_effective :: "u64 \<Rightarrow> stake_history_entry" where
  "with_effective e = \<lparr>sh_effective = e, sh_activating = 0, sh_deactivating = 0\<rparr>"

definition with_effective_and_activating :: "u64 \<Rightarrow> u64 \<Rightarrow> stake_history_entry" where
  "with_effective_and_activating e a = \<lparr>sh_effective = e, sh_activating = a, sh_deactivating = 0\<rparr>"

definition with_deactivating :: "u64 \<Rightarrow> stake_history_entry" where
  "with_deactivating d = \<lparr>sh_effective = d, sh_activating = 0, sh_deactivating = d\<rparr>"

definition stake_history_entry_add :: "stake_history_entry \<Rightarrow> stake_history_entry \<Rightarrow> stake_history_entry" where
  "stake_history_entry_add a b =
     \<lparr>sh_effective = saturating_add (sh_effective a) (sh_effective b),
      sh_activating = saturating_add (sh_activating a) (sh_activating b),
      sh_deactivating = saturating_add (sh_deactivating a) (sh_deactivating b)\<rparr>"

interpretation slot_hashes_map: recent_map desc slot_hashes_get slot_hashes_add slot_hashes_MAX_ENTRIES
  unfolding slot_hashes_get_def slot_hashes_add_def by (rule desc_map.recent_map_axioms)

interpretation stake_history_map: recent_map desc stake_history_get stake_history_add stake_history_MAX_ENTRIES
  unfolding stake_history_get_def stake_history_add_def by (rule desc_map.recent_map_axioms)

lemma desc_empty [simp]: "desc []" by (simp add: desc_def)

lemma slot_hashes_get_nil [simp]: "slot_hashes_get [] s = None"
  by (simp add: slot_hashes_get_def desc_get_map_of)

lemma desc_position_get: "desc_position sh k = None \<longleftrightarrow> desc_get sh k = None"
  by (simp add: desc_position_def desc_get_def split: sum.split)

text \<open>
  C35: the slot hashes kept by the cluster. Whatever slots were recorded, in whatever order, the
  vector is in descending order, and it holds exactly the 512 newest of them: a slot is found when it was
  recorded and fewer than 512 recorded slots are newer, with the hash that was recorded for it last.
\<close>
theorem slot_hashes_recent:
  "let sh = fold (\<lambda>(s, h). slot_hashes_add s h) kvs [] in
     desc sh \<and> length sh = min 512 (card (fst ` set kvs)) \<and>
     slot_hashes_get sh s = (if card {i \<in> fst ` set kvs. s < i} < 512 then map_of (rev kvs) s else None)"
proof -
  define sh where "sh = slot_hashes_map.adds kvs []"
  have d: "desc sh" unfolding sh_def by (rule slot_hashes_map.inv_adds) simp
  have get: "slot_hashes_get sh i = (if card (newer (fst ` set kvs) i) < 512 then map_of (rev kvs) i else None)" for i
    unfolding sh_def using slot_hashes_map.get_adds [of "[]" kvs i] by (simp add: slot_hashes_MAX_ENTRIES_def)
  have "dom (slot_hashes_get sh) = {i \<in> fst ` set kvs. card (newer (fst ` set kvs) i) < 512}"
    unfolding ext [OF get] by (rule dom_map_of_where)
  moreover have "dom (slot_hashes_get sh) = fst ` set sh"
    by (simp add: slot_hashes_get_def [abs_def] desc_get_map_of [OF d, abs_def] dom_map_of_conv_image_fst)
  moreover have "card (fst ` set sh) = length sh" using d desc_distinct distinct_card by fastforce
  ultimately have "length sh = min 512 (card (fst ` set kvs))" using card_newest [of "fst ` set kvs" 512] by simp
  moreover have "fold (\<lambda>(s, h). slot_hashes_add s h) kvs [] = sh" by (simp add: sh_def slot_hashes_map.adds_def)
  ultimately show ?thesis using d get [of s] by (simp add: newer_def)
qed

subsection \<open>Slot history\<close>

text \<open>The bit vector of the \<open>bv\<close> crate is a list of bits; its \<open>set\<close> and \<open>set_block\<close> are list updates.\<close>

definition slot_history_MAX_ENTRIES :: nat where "slot_history_MAX_ENTRIES = 1024 * 1024"

record slot_history =
  shi_bits :: "bool list"
  shi_next_slot :: u64

definition slot_history_default :: slot_history where
  "slot_history_default =
     \<lparr>shi_bits = (replicate slot_history_MAX_ENTRIES False)[0 := True], shi_next_slot = 1\<rparr>"

datatype check = Future | TooOld | Found | NotFound

definition set_block_zero :: "nat \<Rightarrow> bool list \<Rightarrow> bool list" where
  "set_block_zero i bits = take (64 * i) bits @ replicate 64 False @ drop (64 * i + 64) bits"

definition slot_history_add :: "u64 \<Rightarrow> slot_history \<Rightarrow> slot_history" where
  "slot_history_add slot h =
     (let bits =
        (if slot > shi_next_slot h \<and> unat (slot - shi_next_slot h) \<ge> slot_history_MAX_ENTRIES
         then fold set_block_zero [0 ..< slot_history_MAX_ENTRIES div 64] (shi_bits h)
         else fold (\<lambda>skipped bits. bits[skipped mod slot_history_MAX_ENTRIES := False])
                [unat (shi_next_slot h) ..< unat slot] (shi_bits h))
      in \<lparr>shi_bits = bits[unat slot mod slot_history_MAX_ENTRIES := True], shi_next_slot = slot + 1\<rparr>)"

definition slot_history_oldest :: "slot_history \<Rightarrow> u64" where
  "slot_history_oldest h = saturating_sub (shi_next_slot h) (of_nat slot_history_MAX_ENTRIES)"

definition slot_history_newest :: "slot_history \<Rightarrow> u64" where
  "slot_history_newest h = shi_next_slot h - 1"

definition slot_history_check :: "slot_history \<Rightarrow> u64 \<Rightarrow> check" where
  "slot_history_check h slot =
     (if slot > slot_history_newest h then Future
      else if slot < slot_history_oldest h then TooOld
      else if shi_bits h ! (unat slot mod slot_history_MAX_ENTRIES) then Found
      else NotFound)"

text \<open>
  The abstract history is the set of all slots ever added; the ring answers for the window of the
  last \<open>MAX_ENTRIES\<close> slots.
\<close>

definition history_of :: "nat set \<Rightarrow> slot_history \<Rightarrow> bool" where
  "history_of A h \<longleftrightarrow> length (shi_bits h) = slot_history_MAX_ENTRIES \<and> 0 < shi_next_slot h
     \<and> (\<forall>a\<in>A. a < unat (shi_next_slot h))
     \<and> (\<forall>s<unat (shi_next_slot h). unat (shi_next_slot h) \<le> s + slot_history_MAX_ENTRIES \<longrightarrow>
           shi_bits h ! (s mod slot_history_MAX_ENTRIES) = (s \<in> A))"

lemma set_block_zero_fold:
  "64 * n \<le> length bits \<Longrightarrow>
   fold set_block_zero [0 ..< n] bits = replicate (64 * n) False @ drop (64 * n) bits"
proof (induction n)
  case (Suc n)
  then have "fold set_block_zero [0 ..< Suc n] bits = set_block_zero n (replicate (64 * n) False @ drop (64 * n) bits)"
    by simp
  also have "\<dots> = (replicate (64 * n) False @ replicate 64 False) @ drop (64 * n + 64) bits"
    using Suc.prems by (simp add: set_block_zero_def add.commute)
  also have "\<dots> = replicate (64 * Suc n) False @ drop (64 * Suc n) bits"
    by (simp add: replicate_add [symmetric] add.commute)
  finally show ?case .
qed simp

lemma clear_skipped_length [simp]:
  "length (fold (\<lambda>s bits. bits[s mod m := False]) ss bits) = length bits"
  by (induction ss arbitrary: bits) auto

lemma clear_skipped_nth:
  "i < length bits \<Longrightarrow> fold (\<lambda>s bits. bits[s mod m := False]) ss bits ! i \<longleftrightarrow> i \<notin> (\<lambda>s. s mod m) ` set ss \<and> bits ! i"
proof (induction ss arbitrary: bits)
  case (Cons a ss)
  have "bits[a mod m := False] ! i \<longleftrightarrow> a mod m \<noteq> i \<and> bits ! i" using Cons.prems by (cases "a mod m = i") simp_all
  then show ?case using Cons by auto
qed simp

lemma mod_window: "s < t \<Longrightarrow> t < s + m \<Longrightarrow> s mod m \<noteq> t mod (m::nat)"
  by (metis add_diff_cancel_left' dvd_imp_le less_add_eq_less less_imp_le_nat linorder_not_less mod_eq_dvd_iff_nat
      nat_less_le ordered_cancel_comm_monoid_diff_class.le_diff_conv2 zero_less_diff add.commute less_diff_conv2)

lemma history_ring:
  assumes "length bits = m" "\<forall>a\<in>A. a < n" "n \<le> t" "0 < m"
    and "\<forall>s<n. n \<le> s + m \<longrightarrow> bits ! (s mod m) = (s \<in> A)"
    and cleared: "bits' = (if n < t \<and> m \<le> t - n then replicate m False
        else fold (\<lambda>s bits. bits[s mod m := False]) [n ..< t] bits)"
    and s: "s < Suc t" "Suc t \<le> s + m"
  shows "bits'[t mod m := True] ! (s mod m) \<longleftrightarrow> s = t \<or> s \<in> A"
proof (cases "s = t")
  case True
  have "length bits' = m" using assms(1) by (simp add: cleared)
  then show ?thesis using True assms(4) by simp
next
  case False
  then have st: "s < t" "t < s + m" using s by auto
  have i: "s mod m < length bits" using assms(1,4) by simp
  have "bits' ! (s mod m) \<longleftrightarrow> s \<in> A"
  proof (cases "n < t \<and> m \<le> t - n")
    case True
    then have "n \<le> s" using st by linarith
    then have "s \<notin> A" using assms(2) by auto
    then show ?thesis using True assms(4) by (simp add: cleared)
  next
    case kept: False
    show ?thesis
    proof (cases "n \<le> s")
      case True
      then have "s \<notin> A" "s mod m \<in> (\<lambda>s. s mod m) ` set [n ..< t]" using assms(2) st by auto
      then show ?thesis using kept i by (auto simp: cleared clear_skipped_nth)
    next
      case False
      then have "s mod m \<notin> (\<lambda>s. s mod m) ` set [n ..< t]"
      proof -
        have "s mod m \<noteq> u mod m" if "n \<le> u" "u < t" for u
          using mod_window [of s u m] that False st by linarith
        then show ?thesis by (simp add: image_iff)
      qed
      then show ?thesis using kept i False assms(3,5) st by (auto simp: cleared clear_skipped_nth)
    qed
  qed
  then show ?thesis using mod_window [OF st] False by simp
qed

lemma history_add:
  assumes "history_of A h" "shi_next_slot h \<le> slot" "slot \<noteq> - 1"
  shows "history_of (insert (unat slot) A) (slot_history_add slot h)"
proof -
  let ?m = slot_history_MAX_ENTRIES and ?n = "unat (shi_next_slot h)"
  have m: "0 < ?m" "?m div 64 * 64 = ?m" by (simp_all add: slot_history_MAX_ENTRIES_def)
  have n: "?n \<le> unat slot" using assms(2) by (simp add: word_le_nat_alt)
  have next_slot: "unat (slot + 1) = Suc (unat slot)"
    using assms(3) by (metis add.commute add_diff_cancel_right' diff_0 unatSuc)
  have len: "length (shi_bits h) = ?m" using assms(1) by (simp add: history_of_def)
  define bits where "bits = (if ?n < unat slot \<and> ?m \<le> unat slot - ?n then replicate ?m False
        else fold (\<lambda>s bits. bits[s mod ?m := False]) [?n ..< unat slot] (shi_bits h))"
  have "fold set_block_zero [0 ..< ?m div 64] (shi_bits h) = replicate ?m False"
    using set_block_zero_fold [of "?m div 64" "shi_bits h"] m len by (simp add: mult.commute)
  then have add: "slot_history_add slot h = \<lparr>shi_bits = bits[unat slot mod ?m := True], shi_next_slot = slot + 1\<rparr>"
    using assms(2) by (simp add: slot_history_add_def bits_def unat_sub word_less_nat_alt Let_def)
  have "length bits = ?m" using len by (simp add: bits_def)
  moreover have "\<forall>a\<in>A. a < ?n" "\<forall>s<?n. ?n \<le> s + ?m \<longrightarrow> shi_bits h ! (s mod ?m) = (s \<in> A)"
    using assms(1) by (simp_all add: history_of_def)
  ultimately show ?thesis
    using history_ring [OF len _ n m(1) _ bits_def, of A] next_slot n
    by (fastforce simp: history_of_def add word_less_nat_alt)
qed

lemma history_default: "history_of {0} slot_history_default"
  by (simp add: history_of_def slot_history_default_def slot_history_MAX_ENTRIES_def)

lemma history_check:
  assumes "history_of A h"
  shows "slot_history_check h s =
    (if unat (shi_next_slot h) \<le> unat s then Future
     else if unat s + slot_history_MAX_ENTRIES < unat (shi_next_slot h) then TooOld
     else if unat s \<in> A then Found else NotFound)"
proof -
  let ?m = slot_history_MAX_ENTRIES
  have pos: "0 < unat (shi_next_slot h)" using assms by (simp add: history_of_def word_less_nat_alt)
  then have newest: "unat (slot_history_newest h) = unat (shi_next_slot h) - 1"
    by (simp add: slot_history_newest_def unat_minus_one unat_gt_0)
  have oldest: "unat (slot_history_oldest h) = unat (shi_next_slot h) - ?m"
    by (simp add: slot_history_oldest_def unat_saturating_sub slot_history_MAX_ENTRIES_def)
  have "slot_history_newest h < s \<longleftrightarrow> unat (shi_next_slot h) \<le> unat s"
    using newest pos by (simp add: word_less_nat_alt) linarith
  moreover have "s < slot_history_oldest h \<longleftrightarrow> unat s + ?m < unat (shi_next_slot h)"
    using oldest by (simp add: word_less_nat_alt) linarith
  ultimately show ?thesis using assms by (auto simp: slot_history_check_def history_of_def)
qed

lemma history_adds:
  "history_of A h \<Longrightarrow> sorted_wrt (<) slots \<Longrightarrow> \<forall>s\<in>set slots. shi_next_slot h \<le> s \<and> s \<noteq> - 1 \<Longrightarrow>
   history_of (A \<union> unat ` set slots) (fold slot_history_add slots h)"
proof (induction slots arbitrary: A h)
  case (Cons s slots)
  have "shi_next_slot (slot_history_add s h) \<le> t" if "t \<in> set slots" for t
    using that Cons.prems(2) by (auto simp: slot_history_add_def Let_def inc_le)
  then show ?case
    using Cons.IH [OF history_add [OF Cons.prems(1), of s]] Cons.prems by simp
qed simp

text \<open>
  C36: the slot history remembers exactly the added slots of its window. Starting from the default
  history and adding slots in increasing order, as the bank does when it is frozen, a check
  answers that a slot is in the future when it is above every slot added, too old when it is more
  than 1048576 slots behind, and otherwise whether it was added.
\<close>
theorem slot_history_check_exact:
  assumes "sorted_wrt (<) (0 # slots)" "- 1 \<notin> set slots"
  shows "let h = fold slot_history_add slots slot_history_default; top = unat (last (0 # slots)) in
    slot_history_check h s =
      (if top < unat s then Future
       else if unat s + 1048576 \<le> top then TooOld
       else if s \<in> set (0 # slots) then Found else NotFound)"
proof -
  let ?h = "fold slot_history_add slots slot_history_default"
  have "shi_next_slot slot_history_default \<le> s \<and> s \<noteq> - 1" if "s \<in> set slots" for s
    using that assms by (auto simp: slot_history_default_def word_neq_0_conv simp flip: word_gt_0 intro: inc_le [of 0, simplified])
  then have h: "history_of ({0} \<union> unat ` set slots) ?h"
    using history_adds [OF history_default, of slots] assms(1) by simp
  have "shi_next_slot ?h = last (0 # slots) + 1"
    by (cases slots rule: rev_cases) (simp_all add: slot_history_default_def slot_history_add_def Let_def)
  moreover have "last (0 # slots) \<noteq> - 1" using assms(2) last_in_set [of "0 # slots"] by auto
  ultimately have n: "unat (shi_next_slot ?h) = Suc (unat (last (0 # slots)))"
    by (metis add.commute add_diff_cancel_right' diff_0 unatSuc)
  have "unat s \<in> {0} \<union> unat ` set slots \<longleftrightarrow> s \<in> set (0 # slots)"
    by (auto simp: unat_eq_zero dest: word_unat_eq_iff [THEN iffD2])
  then show ?thesis
    using history_check [OF h, of s] n by (simp add: Let_def slot_history_MAX_ENTRIES_def less_Suc_eq_le Suc_le_eq)
qed

theorem slot_history_check_exact_witness:
  "slot_history_check (fold slot_history_add [2, 20, 1048576] slot_history_default) 0 = TooOld
   \<and> slot_history_check (fold slot_history_add [2, 20, 1048576] slot_history_default) 20 = Found
   \<and> slot_history_check (fold slot_history_add [2, 20, 1048576] slot_history_default) 21 = NotFound
   \<and> slot_history_check (fold slot_history_add [2, 20, 1048576] slot_history_default) 1048577 = Future"
  using slot_history_check_exact [of "[2, 20, 1048576]" 0] slot_history_check_exact [of "[2, 20, 1048576]" 20]
    slot_history_check_exact [of "[2, 20, 1048576]" 21] slot_history_check_exact [of "[2, 20, 1048576]" 1048577]
  by (simp add: Let_def del: fold_simps)

end
