(* ===== verification/Btree_Map.thy ===== *)
theory Btree_Map
  imports Main
begin

section \<open>Ordered maps\<close>

text \<open>
  A \<open>BTreeMap\<close> is a sorted association list, so that iteration is in key order. Inserting an entry,
  and \<open>entry(..).or_default()\<close> followed by an update of the entry, is \<open>btree_entry\<close>.
\<close>

fun btree_entry :: "'k::linorder \<Rightarrow> 'v \<Rightarrow> ('v \<Rightarrow> 'v) \<Rightarrow> ('k \<times> 'v) list \<Rightarrow> ('k \<times> 'v) list" where
  "btree_entry k d f [] = [(k, f d)]"
| "btree_entry k d f ((k', v) # rest) =
     (if k < k' then (k, f d) # (k', v) # rest
      else if k = k' then (k, f v) # rest
      else (k', v) # btree_entry k d f rest)"

definition btree_remove :: "'k \<Rightarrow> ('k \<times> 'v) list \<Rightarrow> ('k \<times> 'v) list" where
  "btree_remove k m = filter (\<lambda>(k', _). k' \<noteq> k) m"

abbreviation btree_inv :: "('k::linorder \<times> 'v) list \<Rightarrow> bool" where
  "btree_inv m \<equiv> sorted_wrt (<) (map fst m)"

lemma btree_entry_keys: "set (map fst (btree_entry k d f m)) = insert k (set (map fst m))"
  by (induction m rule: btree_entry.induct [of _ k d f]) auto

lemma btree_entry_inv: "btree_inv m \<Longrightarrow> btree_inv (btree_entry k d f m)"
proof (induction m)
  case (Cons kv m)
  obtain k' v where kv: "kv = (k', v)" by (cases kv)
  have keys: "fst ` set (btree_entry k d f m) = insert k (fst ` set m)"
    using btree_entry_keys [of k d f m] by simp
  from Cons kv show ?case by (auto simp: keys dest: order.strict_trans)
qed simp

lemma map_of_btree_entry:
  "btree_inv m \<Longrightarrow> map_of (btree_entry k d f m) = (map_of m)(k \<mapsto> f (case map_of m k of None \<Rightarrow> d | Some v \<Rightarrow> v))"
proof (induction m)
  case (Cons kv m)
  obtain k' v where kv: "kv = (k', v)" by (cases kv)
  have "map_of m k = None" if "k < k'"
    using Cons.prems that kv by (auto simp: map_of_eq_None_iff dest: order.strict_trans)
  then show ?case using Cons kv by (auto simp: fun_eq_iff)
qed auto

lemma map_of_btree_remove: "map_of (btree_remove k m) = (map_of m)(k := None)"
  by (induction m) (auto simp: btree_remove_def fun_eq_iff)

lemma btree_remove_inv: "btree_inv m \<Longrightarrow> btree_inv (btree_remove k m)"
  by (induction m) (auto simp: btree_remove_def)

lemma btree_distinct: "btree_inv m \<Longrightarrow> distinct (map fst m)"
  by (induction m) auto

definition btree_insert :: "'k::linorder \<Rightarrow> 'v \<Rightarrow> ('k \<times> 'v) list \<Rightarrow> ('k \<times> 'v) list" where
  "btree_insert k v = btree_entry k v (\<lambda>_. v)"

text \<open>\<open>range(..k).next_back()\<close>: the last entry with a smaller key.\<close>

definition btree_before :: "'k::linorder \<Rightarrow> ('k \<times> 'v) list \<Rightarrow> ('k \<times> 'v) option" where
  "btree_before k m =
     (let smaller = filter (\<lambda>(k', _). k' < k) m in if smaller = [] then None else Some (last smaller))"

lemma btree_insert_inv: "btree_inv m \<Longrightarrow> btree_inv (btree_insert k v m)"
  by (simp add: btree_insert_def btree_entry_inv)

lemma map_of_btree_insert: "btree_inv m \<Longrightarrow> map_of (btree_insert k v m) = (map_of m)(k \<mapsto> v)"
  by (simp add: btree_insert_def map_of_btree_entry)

lemma btree_filter_inv: "btree_inv m \<Longrightarrow> btree_inv (filter P m)"
  by (induction m) auto

lemma btree_mem: "btree_inv m \<Longrightarrow> map_of m k = Some v \<longleftrightarrow> (k, v) \<in> set m"
  using btree_distinct [of m] by (simp add: map_of_eq_Some_iff)

lemma btree_before_Some:
  assumes "btree_inv m"
  shows "btree_before k m = Some (k', v) \<longleftrightarrow> map_of m k' = Some v \<and> k' < k \<and> (\<forall>j. k' < j \<longrightarrow> j < k \<longrightarrow> map_of m j = None)"
    (is "_ \<longleftrightarrow> ?spec k' v")
proof -
  let ?s = "filter (\<lambda>(k', _). k' < k) m"
  have inv: "btree_inv ?s" using assms by (rule btree_filter_inv)
  have uniq: "k' = j \<and> v = w" if "?spec k' v" "?spec j w" for k' v j w
    using that by (metis linorder_neqE option.distinct(1) option.inject)
  show ?thesis
  proof (cases "?s = []")
    case True
    then have "\<not> ?spec k' v" using assms by (auto simp: btree_mem filter_empty_conv)
    then show ?thesis using True by (simp add: btree_before_def)
  next
    case False
    obtain j w where l: "last ?s = (j, w)" by (cases "last ?s")
    have "(j, w) \<in> set ?s" using False l by (metis last_in_set)
    then have mem: "map_of m j = Some w" "j < k" using assms by (auto simp: btree_mem)
    have "map_of m i = None" if gt: "j < i" and lt: "i < k" for i
    proof (rule ccontr)
      assume "map_of m i \<noteq> None"
      then obtain u where "(i, u) \<in> set ?s" using lt assms by (auto simp: btree_mem)
      then have i: "(i, u) \<in> set (butlast ?s) \<or> (i, u) = (j, w)"
        using False l by (metis append_butlast_last_id in_set_conv_decomp insert_iff list.set(2) rotate1.simps(2) set_rotate1)
      have "btree_inv (butlast ?s @ [(j, w)])" using inv False l by (metis append_butlast_last_id)
      then have "\<forall>x\<in>set (butlast ?s). fst x < j" by (auto simp: sorted_wrt_append)
      then have "i \<le> j" using i by fastforce
      then show False using gt by simp
    qed
    then have "?spec j w" using mem by blast
    then show ?thesis using False l uniq by (auto simp: btree_before_def)
  qed
qed

lemma btree_before_None:
  assumes "btree_inv m"
  shows "btree_before k m = None \<longleftrightarrow> (\<forall>j<k. map_of m j = None)"
  using assms by (auto simp: btree_before_def Let_def filter_empty_conv map_of_eq_None_iff) (metis fst_conv image_eqI)

end
