(* ===== verification/Vote_State.thy ===== *)
theory Vote_State
  imports Slot_Sysvars Btree_Map
begin

section \<open>Vote states\<close>

text \<open>
  \<open>sdk/program/src/vote/state/mod.rs\<close>, \<open>vote/authorized_voters.rs\<close> and the versions of the stored state:
  the tower of votes with their lockouts, the root, the credits, the authorized voters and the commission.
  A \<open>VecDeque\<close> is a list with its front first. A panic (a failed \<open>assert!\<close>, an \<open>unwrap\<close> or \<open>expect\<close>
  without a value, an index out of range) is the fault \<open>Panic\<close> of an operation, or \<open>None\<close> of a pure function. The
  power in \<open>lockout\<close> wraps, as in a release build. The deque of votes is contiguous after decoding, so
  its binary search is the one of a slice.
\<close>

definition MAX_LOCKOUT_HISTORY :: nat where "MAX_LOCKOUT_HISTORY = 31"
definition INITIAL_LOCKOUT :: u64 where "INITIAL_LOCKOUT = 2"
definition MAX_EPOCH_CREDITS_HISTORY :: nat where "MAX_EPOCH_CREDITS_HISTORY = 64"
definition VOTE_CREDITS_GRACE_SLOTS :: u8 where "VOTE_CREDITS_GRACE_SLOTS = 2"
definition VOTE_CREDITS_MAXIMUM_PER_SLOT :: u8 where "VOTE_CREDITS_MAXIMUM_PER_SLOT = 16"
definition VOTE_CREDITS_MAXIMUM_PER_SLOT_OLD :: u8 where "VOTE_CREDITS_MAXIMUM_PER_SLOT_OLD = 8"

datatype (plugins only: code) vote_error =
    VoteTooOld | SlotsMismatch | SlotHashMismatch | EmptySlots | TimestampTooOld | TooSoonToReauthorize
  | LockoutConflict | NewVoteStateLockoutMismatch | SlotsNotOrdered | ConfirmationsNotOrdered
  | ZeroConfirmations | ConfirmationTooLarge | RootRollBack | ConfirmationRollBack | SlotSmallerThanRoot
  | TooManyVotes | VotesTooOldAllFiltered | RootOnDifferentFork | ActiveVoteAccountClose
  | CommissionUpdateTooLate

datatype 'e fault = Fails 'e | Panic

subsection \<open>Lockouts\<close>

record lockout =
  lk_slot :: u64
  lk_confirmation_count :: u32

definition lockout_new :: "u64 \<Rightarrow> lockout" where
  "lockout_new slot = \<lparr>lk_slot = slot, lk_confirmation_count = 1\<rparr>"

definition lockout_period :: "lockout \<Rightarrow> u64" where
  "lockout_period l = INITIAL_LOCKOUT ^ unat (lk_confirmation_count l)"

definition last_locked_out_slot :: "lockout \<Rightarrow> u64" where
  "last_locked_out_slot l = saturating_add (lk_slot l) (lockout_period l)"

definition is_locked_out_at_slot :: "lockout \<Rightarrow> u64 \<Rightarrow> bool" where
  "is_locked_out_at_slot l slot \<longleftrightarrow> slot \<le> last_locked_out_slot l"

definition increase_confirmation_count :: "u32 \<Rightarrow> lockout \<Rightarrow> lockout" where
  "increase_confirmation_count n l = l\<lparr>lk_confirmation_count := saturating_add (lk_confirmation_count l) n\<rparr>"

record landed_vote =
  lv_latency :: u8
  lv_lockout :: lockout

abbreviation lv_slot :: "landed_vote \<Rightarrow> u64" where "lv_slot v \<equiv> lk_slot (lv_lockout v)"
abbreviation lv_conf :: "landed_vote \<Rightarrow> u32" where "lv_conf v \<equiv> lk_confirmation_count (lv_lockout v)"

definition landed_vote_from :: "lockout \<Rightarrow> landed_vote" where
  "landed_vote_from l = \<lparr>lv_latency = 0, lv_lockout = l\<rparr>"

subsection \<open>Votes and their updates\<close>

record vote =
  vt_slots :: "u64 list"
  vt_hash :: hash
  vt_timestamp :: "int option"

record vote_state_update =
  vu_lockouts :: "lockout list"
  vu_root :: "u64 option"
  vu_hash :: hash
  vu_timestamp :: "int option"

record vote_init =
  vi_node_pubkey :: pubkey
  vi_authorized_voter :: pubkey
  vi_authorized_withdrawer :: pubkey
  vi_commission :: u8

datatype vote_authorize = Voter | Withdrawer

record block_timestamp =
  bt_slot :: u64
  bt_timestamp :: int

subsection \<open>The circular buffer of prior voters\<close>

definition MAX_ITEMS :: nat where "MAX_ITEMS = 32"

record 'a circ_buf =
  cb_buf :: "'a list"
  cb_idx :: nat
  cb_is_empty :: bool

definition circ_buf_default :: "'a \<Rightarrow> 'a circ_buf" where
  "circ_buf_default x = \<lparr>cb_buf = replicate MAX_ITEMS x, cb_idx = MAX_ITEMS - 1, cb_is_empty = True\<rparr>"

definition circ_buf_append :: "'a \<Rightarrow> 'a circ_buf \<Rightarrow> 'a circ_buf option" where
  "circ_buf_append item b =
     (if cb_idx b = usize_max then None
      else let idx = (cb_idx b + 1) mod MAX_ITEMS
           in Some \<lparr>cb_buf = (cb_buf b)[idx := item], cb_idx = idx, cb_is_empty = False\<rparr>)"

definition circ_buf_last :: "'a circ_buf \<Rightarrow> 'a option option" where
  "circ_buf_last b =
     (if \<not> cb_is_empty b then map_option Some (vec_get (cb_buf b) (cb_idx b)) else Some None)"

subsection \<open>Authorized voters\<close>

type_synonym authorized_voters = "(u64 \<times> pubkey) list"

definition authorized_voters_new :: "u64 \<Rightarrow> pubkey \<Rightarrow> authorized_voters" where
  "authorized_voters_new epoch pubkey = [(epoch, pubkey)]"

definition get_or_calculate_authorized_voter_for_epoch :: "authorized_voters \<Rightarrow> u64 \<Rightarrow> (pubkey \<times> bool) option" where
  "get_or_calculate_authorized_voter_for_epoch voters epoch =
     (case map_of voters epoch of
        None \<Rightarrow> map_option (\<lambda>(_, pubkey). (pubkey, False)) (btree_before epoch voters)
      | Some pubkey \<Rightarrow> Some (pubkey, True))"

definition get_authorized_voter :: "authorized_voters \<Rightarrow> u64 \<Rightarrow> pubkey option" where
  "get_authorized_voter voters epoch = map_option fst (get_or_calculate_authorized_voter_for_epoch voters epoch)"

definition get_and_cache_authorized_voter_for_epoch ::
  "authorized_voters \<Rightarrow> u64 \<Rightarrow> pubkey option \<times> authorized_voters" where
  "get_and_cache_authorized_voter_for_epoch voters epoch =
     (case get_or_calculate_authorized_voter_for_epoch voters epoch of
        None \<Rightarrow> (None, voters)
      | Some (pubkey, existed) \<Rightarrow> (Some pubkey, if existed then voters else btree_insert epoch pubkey voters))"

definition purge_authorized_voters :: "u64 \<Rightarrow> authorized_voters \<Rightarrow> authorized_voters option" where
  "purge_authorized_voters current_epoch voters =
     (let expired_keys = map fst (filter (\<lambda>(e, _). e < current_epoch) voters);
          kept = fold btree_remove expired_keys voters
      in if kept = [] then None else Some kept)"

definition voters_last :: "authorized_voters \<Rightarrow> (u64 \<times> pubkey) option" where
  "voters_last voters = (if voters = [] then None else Some (last voters))"

definition voters_contains :: "authorized_voters \<Rightarrow> u64 \<Rightarrow> bool" where
  "voters_contains voters epoch \<longleftrightarrow> map_of voters epoch \<noteq> None"

subsection \<open>The vote state\<close>

record vote_state =
  vs_node_pubkey :: pubkey
  vs_authorized_withdrawer :: pubkey
  vs_commission :: u8
  vs_votes :: "landed_vote list"
  vs_root_slot :: "u64 option"
  vs_authorized_voters :: authorized_voters
  vs_prior_voters :: "(pubkey \<times> u64 \<times> u64) circ_buf"
  vs_epoch_credits :: "(u64 \<times> u64 \<times> u64) list"
  vs_last_timestamp :: block_timestamp

type_synonym 'a vs_effect = "(vote_state, vote_error fault, 'a) effect"

abbreviation pubkey_default :: pubkey where "pubkey_default \<equiv> replicate 32 0"

definition vote_state_default :: vote_state where
  "vote_state_default =
     \<lparr>vs_node_pubkey = pubkey_default, vs_authorized_withdrawer = pubkey_default, vs_commission = 0,
      vs_votes = [], vs_root_slot = None, vs_authorized_voters = [],
      vs_prior_voters = circ_buf_default (pubkey_default, 0, 0), vs_epoch_credits = [],
      vs_last_timestamp = \<lparr>bt_slot = 0, bt_timestamp = 0\<rparr>\<rparr>"

definition vote_state_new :: "vote_init \<Rightarrow> clock \<Rightarrow> vote_state" where
  "vote_state_new vote_init clock =
     vote_state_default\<lparr>vs_node_pubkey := vi_node_pubkey vote_init,
       vs_authorized_voters := authorized_voters_new (ck_epoch clock) (vi_authorized_voter vote_init),
       vs_authorized_withdrawer := vi_authorized_withdrawer vote_init,
       vs_commission := vi_commission vote_init\<rparr>"

definition VOTE_STATE_SIZE :: nat where "VOTE_STATE_SIZE = 3762"
definition VOTE_STATE_1_14_11_SIZE :: nat where "VOTE_STATE_1_14_11_SIZE = 3731"

text \<open>The voter's part, the stakers' part, and whether there was a split.\<close>

definition commission_split :: "u8 \<Rightarrow> u64 \<Rightarrow> (u64 \<times> u64 \<times> bool) option" where
  "commission_split commission on =
     (let split = min commission 100 in
      if split = 0 then Some (0, on, False)
      else if split = 100 then Some (on, 0, False)
      else if 2 ^ 128 \<le> unat on * unat split \<or> 2 ^ 128 \<le> unat on * unat (100 - split) then None
      else let on' = ucast on :: u128;
               mine = (on' * ucast split) div 100;
               theirs = (on' * ucast (100 - split)) div 100
           in Some (ucast mine, ucast theirs, True))"

definition contains_slot :: "landed_vote list \<Rightarrow> u64 \<Rightarrow> bool" where
  "contains_slot votes candidate_slot = is_ok (binary_search_by votes (\<lambda>v. cmp (lv_slot v) candidate_slot))"

definition last_voted_slot :: "landed_vote list \<Rightarrow> u64 option" where
  "last_voted_slot votes = (if votes = [] then None else Some (lv_slot (last votes)))"

definition compute_vote_latency :: "u64 \<Rightarrow> u64 \<Rightarrow> u8" where
  "compute_vote_latency voted_for_slot current_slot =
     ucast (min (saturating_sub current_slot voted_for_slot) 255)"

definition credits_for_vote_at_index :: "landed_vote list \<Rightarrow> nat \<Rightarrow> bool \<Rightarrow> bool \<Rightarrow> u64" where
  "credits_for_vote_at_index votes index timely_vote_credits deprecate_unused_legacy_vote_plumbing =
     (let latency = (case vec_get votes index of None \<Rightarrow> 0 | Some v \<Rightarrow> lv_latency v);
          max_credits = (if deprecate_unused_legacy_vote_plumbing then VOTE_CREDITS_MAXIMUM_PER_SLOT
                         else VOTE_CREDITS_MAXIMUM_PER_SLOT_OLD)
      in if latency = 0 \<or> deprecate_unused_legacy_vote_plumbing \<and> \<not> timely_vote_credits then 1
         else (case checked_sub latency VOTE_CREDITS_GRACE_SLOTS of
                 None \<Rightarrow> ucast max_credits
               | Some diff \<Rightarrow>
                   if diff = 0 then ucast max_credits
                   else (case checked_sub max_credits diff of
                           None \<Rightarrow> 1
                         | Some credits \<Rightarrow> if credits = 0 then 1 else ucast credits)))"

definition increment_credits :: "u64 \<Rightarrow> u64 \<Rightarrow> (u64 \<times> u64 \<times> u64) list \<Rightarrow> (u64 \<times> u64 \<times> u64) list" where
  "increment_credits epoch credits ec =
     (let ec1 =
        (if ec = [] then [(epoch, 0, 0)]
         else if epoch \<noteq> fst (last ec)
         then (case last ec of (last_epoch, last_credits, prev_credits) \<Rightarrow>
                 let ec2 = (if last_credits \<noteq> prev_credits then ec @ [(epoch, last_credits, last_credits)]
                            else butlast ec @ [(epoch, last_credits, prev_credits)])
                 in if MAX_EPOCH_CREDITS_HISTORY < length ec2 then tl ec2 else ec2)
         else ec)
      in case last ec1 of (e, c, p) \<Rightarrow> butlast ec1 @ [(e, saturating_add c credits, p)])"

definition pop_expired_votes :: "u64 \<Rightarrow> landed_vote list \<Rightarrow> landed_vote list" where
  "pop_expired_votes next_vote_slot votes =
     rev (dropWhile (\<lambda>v. \<not> is_locked_out_at_slot (lv_lockout v) next_vote_slot) (rev votes))"

definition double_lockouts :: "landed_vote list \<Rightarrow> landed_vote list" where
  "double_lockouts votes =
     map (\<lambda>(i, v). if length votes > i + unat (lv_conf v)
                   then v\<lparr>lv_lockout := increase_confirmation_count 1 (lv_lockout v)\<rparr> else v)
       (enumerate 0 votes)"

definition process_next_vote_slot :: "u64 \<Rightarrow> u64 \<Rightarrow> u64 \<Rightarrow> bool \<Rightarrow> bool \<Rightarrow> vote_state \<Rightarrow> vote_state" where
  "process_next_vote_slot next_vote_slot epoch current_slot timely_vote_credits deprecate_unused_legacy_vote_plumbing vs =
     (if (case last_voted_slot (vs_votes vs) of None \<Rightarrow> False | Some s \<Rightarrow> next_vote_slot \<le> s) then vs
      else
        let votes = pop_expired_votes next_vote_slot (vs_votes vs);
            landed_vote = \<lparr>lv_latency = (if timely_vote_credits \<or> \<not> deprecate_unused_legacy_vote_plumbing
                                        then compute_vote_latency next_vote_slot current_slot else 0),
                           lv_lockout = lockout_new next_vote_slot\<rparr>;
            vs1 = (if length votes = MAX_LOCKOUT_HISTORY
                   then vs\<lparr>vs_votes := tl votes, vs_root_slot := Some (lv_slot (hd votes)),
                           vs_epoch_credits := increment_credits epoch
                             (credits_for_vote_at_index votes 0 timely_vote_credits deprecate_unused_legacy_vote_plumbing)
                             (vs_epoch_credits vs)\<rparr>
                   else vs\<lparr>vs_votes := votes\<rparr>)
        in vs1\<lparr>vs_votes := double_lockouts (vs_votes vs1 @ [landed_vote])\<rparr>)"

definition process_timestamp :: "u64 \<Rightarrow> int \<Rightarrow> unit vs_effect" where
  "process_timestamp slot timestamp =
     bind (gets vs_last_timestamp) (\<lambda>l.
     bind (fail_if ((slot < bt_slot l \<or> timestamp < bt_timestamp l) \<or>
              (slot = bt_slot l \<and> \<lparr>bt_slot = slot, bt_timestamp = timestamp\<rparr> \<noteq> l \<and> bt_slot l \<noteq> 0))
            (Fails TimestampTooOld)) (\<lambda>_.
       modify (\<lambda>vs. vs\<lparr>vs_last_timestamp := \<lparr>bt_slot = slot, bt_timestamp = timestamp\<rparr>\<rparr>)))"

text \<open>\<open>VoteError\<close> as an instruction error: the discriminants of \<open>num_derive::ToPrimitive\<close>.\<close>

fun vote_error_to_u32 :: "vote_error \<Rightarrow> u32" where
  "vote_error_to_u32 VoteTooOld = 0"
| "vote_error_to_u32 SlotsMismatch = 1"
| "vote_error_to_u32 SlotHashMismatch = 2"
| "vote_error_to_u32 EmptySlots = 3"
| "vote_error_to_u32 TimestampTooOld = 4"
| "vote_error_to_u32 TooSoonToReauthorize = 5"
| "vote_error_to_u32 LockoutConflict = 6"
| "vote_error_to_u32 NewVoteStateLockoutMismatch = 7"
| "vote_error_to_u32 SlotsNotOrdered = 8"
| "vote_error_to_u32 ConfirmationsNotOrdered = 9"
| "vote_error_to_u32 ZeroConfirmations = 10"
| "vote_error_to_u32 ConfirmationTooLarge = 11"
| "vote_error_to_u32 RootRollBack = 12"
| "vote_error_to_u32 ConfirmationRollBack = 13"
| "vote_error_to_u32 SlotSmallerThanRoot = 14"
| "vote_error_to_u32 TooManyVotes = 15"
| "vote_error_to_u32 VotesTooOldAllFiltered = 16"
| "vote_error_to_u32 RootOnDifferentFork = 17"
| "vote_error_to_u32 ActiveVoteAccountClose = 18"
| "vote_error_to_u32 CommissionUpdateTooLate = 19"

abbreviation vote_error_into :: "vote_error \<Rightarrow> instruction_error" where
  "vote_error_into e \<equiv> Custom (vote_error_to_u32 e)"

subsection \<open>Changing the authorized voter\<close>

definition get_and_update_authorized_voter :: "u64 \<Rightarrow> (vote_state, instruction_error fault, pubkey) effect" where
  "get_and_update_authorized_voter current_epoch vs =
     (case get_and_cache_authorized_voter_for_epoch (vs_authorized_voters vs) current_epoch of
        (None, _) \<Rightarrow> (Inl (Fails InvalidAccountData), vs)
      | (Some pubkey, voters) \<Rightarrow>
          (case purge_authorized_voters current_epoch voters of
             None \<Rightarrow> (Inl Panic, vs\<lparr>vs_authorized_voters := []\<rparr>)
           | Some kept \<Rightarrow> (Inr pubkey, vs\<lparr>vs_authorized_voters := kept\<rparr>)))"

definition expire_prior_voter :: "pubkey \<Rightarrow> u64 \<Rightarrow> u64 \<Rightarrow> (vote_state, instruction_error fault, unit) effect" where
  "expire_prior_voter latest_authorized_pubkey latest_epoch target_epoch =
     bind (reads (\<lambda>vs. ok_or (circ_buf_last (vs_prior_voters vs)) Panic)) (\<lambda>prior.
     let epoch_of_last_authorized_switch = (case prior of None \<Rightarrow> 0 | Some (_, _, epoch) \<Rightarrow> epoch) in
     bind (fail_if (\<not> latest_epoch < target_epoch) Panic) (\<lambda>_.
     bind (reads (\<lambda>vs. ok_or (circ_buf_append (latest_authorized_pubkey, epoch_of_last_authorized_switch, target_epoch)
                              (vs_prior_voters vs)) Panic)) (\<lambda>buf.
       modify (\<lambda>vs. vs\<lparr>vs_prior_voters := buf\<rparr>))))"

definition set_new_authorized_voter ::
  "pubkey \<Rightarrow> u64 \<Rightarrow> u64 \<Rightarrow> (pubkey \<Rightarrow> instruction_error + unit) \<Rightarrow> (vote_state, instruction_error fault, unit) effect" where
  "set_new_authorized_voter authorized_pubkey current_epoch target_epoch verify =
     bind (get_and_update_authorized_voter current_epoch) (\<lambda>epoch_authorized_voter.
     bind (lift (map_err Fails (verify epoch_authorized_voter))) (\<lambda>_.
     bind (gets vs_authorized_voters) (\<lambda>voters.
     bind (fail_if (voters_contains voters target_epoch) (Fails (vote_error_into TooSoonToReauthorize))) (\<lambda>_.
     bind (lift (ok_or (voters_last voters) (Fails InvalidAccountData))) (\<lambda>(latest_epoch, latest_authorized_pubkey).
     bind (if latest_authorized_pubkey \<noteq> authorized_pubkey
           then expire_prior_voter latest_authorized_pubkey latest_epoch target_epoch else return ()) (\<lambda>_.
       modify (\<lambda>vs. vs\<lparr>vs_authorized_voters := btree_insert target_epoch authorized_pubkey (vs_authorized_voters vs)\<rparr>)))))))"

subsection \<open>Versions of the stored state\<close>

text \<open>The prior voters of the oldest version are dropped by the conversion.\<close>

record vote_state_0_23_5 =
  v0_node_pubkey :: pubkey
  v0_authorized_voter :: pubkey
  v0_authorized_voter_epoch :: u64
  v0_prior_voters :: "(pubkey \<times> u64 \<times> u64 \<times> u64) list \<times> nat"
  v0_authorized_withdrawer :: pubkey
  v0_commission :: u8
  v0_votes :: "lockout list"
  v0_root_slot :: "u64 option"
  v0_epoch_credits :: "(u64 \<times> u64 \<times> u64) list"
  v0_last_timestamp :: block_timestamp

record vote_state_1_14_11 =
  v1_node_pubkey :: pubkey
  v1_authorized_withdrawer :: pubkey
  v1_commission :: u8
  v1_votes :: "lockout list"
  v1_root_slot :: "u64 option"
  v1_authorized_voters :: authorized_voters
  v1_prior_voters :: "(pubkey \<times> u64 \<times> u64) circ_buf"
  v1_epoch_credits :: "(u64 \<times> u64 \<times> u64) list"
  v1_last_timestamp :: block_timestamp

datatype (plugins only: code) vote_state_versions =
    V0_23_5 vote_state_0_23_5 | V1_14_11 vote_state_1_14_11 | CurrentState vote_state

definition vote_state_1_14_11_from :: "vote_state \<Rightarrow> vote_state_1_14_11" where
  "vote_state_1_14_11_from vs =
     \<lparr>v1_node_pubkey = vs_node_pubkey vs, v1_authorized_withdrawer = vs_authorized_withdrawer vs,
      v1_commission = vs_commission vs, v1_votes = map lv_lockout (vs_votes vs), v1_root_slot = vs_root_slot vs,
      v1_authorized_voters = vs_authorized_voters vs, v1_prior_voters = vs_prior_voters vs,
      v1_epoch_credits = vs_epoch_credits vs, v1_last_timestamp = vs_last_timestamp vs\<rparr>"

fun convert_to_current :: "vote_state_versions \<Rightarrow> vote_state" where
  "convert_to_current (V0_23_5 s) =
     \<lparr>vs_node_pubkey = v0_node_pubkey s, vs_authorized_withdrawer = v0_authorized_withdrawer s,
      vs_commission = v0_commission s, vs_votes = map landed_vote_from (v0_votes s), vs_root_slot = v0_root_slot s,
      vs_authorized_voters = authorized_voters_new (v0_authorized_voter_epoch s) (v0_authorized_voter s),
      vs_prior_voters = circ_buf_default (pubkey_default, 0, 0), vs_epoch_credits = v0_epoch_credits s,
      vs_last_timestamp = v0_last_timestamp s\<rparr>"
| "convert_to_current (V1_14_11 s) =
     \<lparr>vs_node_pubkey = v1_node_pubkey s, vs_authorized_withdrawer = v1_authorized_withdrawer s,
      vs_commission = v1_commission s, vs_votes = map landed_vote_from (v1_votes s), vs_root_slot = v1_root_slot s,
      vs_authorized_voters = v1_authorized_voters s, vs_prior_voters = v1_prior_voters s,
      vs_epoch_credits = v1_epoch_credits s, vs_last_timestamp = v1_last_timestamp s\<rparr>"
| "convert_to_current (CurrentState s) = s"

fun is_uninitialized :: "vote_state_versions \<Rightarrow> bool" where
  "is_uninitialized (V0_23_5 s) \<longleftrightarrow> v0_authorized_voter s = pubkey_default"
| "is_uninitialized (V1_14_11 s) \<longleftrightarrow> v1_authorized_voters s = []"
| "is_uninitialized (CurrentState s) \<longleftrightarrow> vs_authorized_voters s = []"

definition vote_state_size_of :: "bool \<Rightarrow> nat" where
  "vote_state_size_of is_current = (if is_current then VOTE_STATE_SIZE else VOTE_STATE_1_14_11_SIZE)"

end
