(* ===== verification/Vote_Authority.thy ===== *)
theory Vote_Authority
  imports Vote_State
begin

section \<open>Authorized voters and commission\<close>

text \<open>
  The authorized voter of an epoch is the entry of the last epoch at or before it. Setting a new voter for
  a later epoch leaves the epochs before it alone, and no assertion on the way can fail when no entry
  lies beyond the target epoch. The commission splits an amount without creating lamports and
  loses at most one.
\<close>

subsection \<open>Commission\<close>

lemma percent_small: "unat (on :: u64) * k < 2 ^ 128" if "k \<le> 100"
proof -
  have "unat on * k \<le> 2 ^ 64 * 100"
    using unsigned_less [of on, where ?'a = nat] that by (intro mult_le_mono) simp_all
  then show ?thesis by simp
qed

lemma percent_word:
  fixes on :: u64 and w :: u8
  assumes "unat w \<le> 100"
  shows "unat (ucast ((ucast on * ucast w :: u128) div 100) :: u64) = unat on * unat w div 100"
proof -
  have on: "unat on < 2 ^ 64" using unsigned_less [of on, where ?'a = nat] by simp
  have u: "unat (ucast on :: u128) = unat on" "unat (ucast w :: u128) = unat w"
    using on assms by (simp_all add: unsigned_ucast_eq take_bit_nat_eq_self)
  have "unat (ucast on * ucast w :: u128) = unat on * unat w"
    using percent_small [OF assms, of on] by (simp add: unat_word_ariths u)
  then have d: "unat ((ucast on * ucast w :: u128) div 100) = unat on * unat w div 100" by (simp add: unat_div)
  have "unat on * unat w div 100 \<le> unat on"
    using assms div_le_mono [of "unat on * unat w" "unat on * 100" 100] by simp
  then have "unat on * unat w div 100 < 2 ^ 64" using on by linarith
  then show ?thesis using d by (simp add: unsigned_ucast_eq take_bit_nat_eq_self)
qed

lemma percent_sum:
  fixes n k :: nat
  assumes "k \<le> 100"
  shows "n * k div 100 + n * (100 - k) div 100 \<le> n" "n \<le> n * k div 100 + n * (100 - k) div 100 + 1"
proof -
  have "n * k + n * (100 - k) = n * 100" using assms by (metis add_mult_distrib2 le_add_diff_inverse)
  moreover have "a div 100 + b div 100 \<le> n \<and> n \<le> a div 100 + b div 100 + 1" if "a + b = n * 100" for a b :: nat
    using that div_mult_mod_eq [of a 100] div_mult_mod_eq [of b 100] mod_less_divisor [of 100 a] mod_less_divisor [of 100 b]
    by linarith
  ultimately show "n * k div 100 + n * (100 - k) div 100 \<le> n" "n \<le> n * k div 100 + n * (100 - k) div 100 + 1"
    by blast+
qed

text \<open>
  Commission. The split of an amount never panics. The voter's part is the commission, capped at 100, as a
  percentage of the amount rounded down, the stakers' part the rest of the percentage rounded down;
  together they are at most the amount and fall short of it by at most one lamport.
\<close>

lemma commission_split_exact:
  "\<exists>mine theirs split. commission_split commission on = Some (mine, theirs, split) \<and>
     unat mine = unat on * min (unat commission) 100 div 100 \<and>
     unat theirs = unat on * (100 - min (unat commission) 100) div 100 \<and>
     unat mine + unat theirs \<le> unat on \<and> unat on \<le> unat mine + unat theirs + 1"
proof -
  define w where "w = min commission 100"
  have w: "unat w = min (unat commission) 100" by (simp add: w_def min_def word_le_nat_alt)
  then have le: "unat w \<le> 100" by simp
  then have rest: "unat (100 - w) = 100 - unat w" by (simp add: unat_sub word_le_nat_alt)
  have small: "\<not> 2 ^ 128 \<le> unat on * unat w" "\<not> 2 ^ 128 \<le> unat on * unat (100 - w)"
    using percent_small [OF le, of on] percent_small [of "unat (100 - w)" on] rest by (simp_all add: not_le)
  note sum = percent_sum [OF le, of "unat on"]
  consider "w = 0" | "w = 100" | "w \<noteq> 0" "w \<noteq> 100" by blast
  then show ?thesis unfolding w [symmetric]
  proof cases
    case 3
    then have "commission_split commission on = Some (ucast ((ucast on * ucast w :: u128) div 100),
        ucast ((ucast on * ucast (100 - w) :: u128) div 100), True)"
      using small by (simp add: commission_split_def Let_def flip: w_def)
    then show "\<exists>mine theirs split. commission_split commission on = Some (mine, theirs, split) \<and>
        unat mine = unat on * unat w div 100 \<and> unat theirs = unat on * (100 - unat w) div 100 \<and>
        unat mine + unat theirs \<le> unat on \<and> unat on \<le> unat mine + unat theirs + 1"
      using sum percent_word [OF le, of on] percent_word [of "100 - w" on] rest by (simp, blast)
  qed (simp add: commission_split_def flip: w_def, blast)+
qed

subsection \<open>The voter of an epoch\<close>

text \<open>The entries have distinct epochs in order, none beyond \<open>limit\<close>, and there is one.\<close>

definition voters_ok :: "u64 \<Rightarrow> authorized_voters \<Rightarrow> bool" where
  "voters_ok limit voters \<longleftrightarrow> btree_inv voters \<and> voters \<noteq> [] \<and> (\<forall>epoch\<in>set (map fst voters). epoch \<le> limit)"

lemma option_eqI: "(\<And>x. a = Some x \<longleftrightarrow> b = Some x) \<Longrightarrow> a = b"
  by (cases a; cases b) auto

lemma get_authorized_voter_iff:
  assumes "btree_inv voters"
  shows "get_authorized_voter voters epoch = Some p \<longleftrightarrow>
    (\<exists>e\<le>epoch. map_of voters e = Some p \<and> (\<forall>j. e < j \<longrightarrow> j \<le> epoch \<longrightarrow> map_of voters j = None))"
proof (cases "map_of voters epoch")
  case None
  then have "get_authorized_voter voters epoch = Some p \<longleftrightarrow> (\<exists>e. btree_before epoch voters = Some (e, p))"
    by (auto simp: get_authorized_voter_def get_or_calculate_authorized_voter_for_epoch_def)
  also have "\<dots> \<longleftrightarrow> (\<exists>e\<le>epoch. map_of voters e = Some p \<and> (\<forall>j. e < j \<longrightarrow> j \<le> epoch \<longrightarrow> map_of voters j = None))"
    unfolding btree_before_Some [OF assms] using None by (metis order_le_less option.distinct(1))
  finally show ?thesis .
next
  case (Some q)
  then have "get_authorized_voter voters epoch = Some q"
    by (simp add: get_authorized_voter_def get_or_calculate_authorized_voter_for_epoch_def)
  moreover have "e = epoch" if "e \<le> epoch" "\<forall>j. e < j \<longrightarrow> j \<le> epoch \<longrightarrow> map_of voters j = None" for e
    using that Some by (metis antisym_conv1 option.distinct(1) order_refl)
  ultimately show ?thesis using Some by fastforce
qed

lemma get_authorized_voter_insert_later:
  assumes "btree_inv voters" "epoch < target"
  shows "get_authorized_voter (btree_insert target q voters) epoch = get_authorized_voter voters epoch"
proof -
  have "get_authorized_voter (btree_insert target q voters) epoch = Some p \<longleftrightarrow> get_authorized_voter voters epoch = Some p" for p
    unfolding get_authorized_voter_iff [OF assms(1)] get_authorized_voter_iff [OF btree_insert_inv [OF assms(1)]]
      map_of_btree_insert [OF assms(1)] using assms(2) by (auto simp: fun_upd_apply)
  then show ?thesis by (rule option_eqI)
qed

lemma get_authorized_voter_insert_last:
  assumes "btree_inv voters" "\<forall>e\<in>set (map fst voters). e \<le> target" "target \<le> epoch"
  shows "get_authorized_voter (btree_insert target q voters) epoch = Some q"
proof -
  have "map_of voters j = None" if "target < j" for j
    using assms(2) that by (force simp: map_of_eq_None_iff)
  then show ?thesis
    unfolding get_authorized_voter_iff [OF btree_insert_inv [OF assms(1)]] map_of_btree_insert [OF assms(1)]
    using assms(3) by (intro exI [of _ target]) auto
qed

lemma map_of_filter_keys: "map_of (filter (\<lambda>(k, _). P k) m) k = (if P k then map_of m k else None)"
  by (induction m) auto

lemma fold_btree_remove: "fold btree_remove ks m = filter (\<lambda>(k, _). k \<notin> set ks) m"
  by (induction ks arbitrary: m) (auto simp: btree_remove_def intro: filter_cong)

lemma purge_eq:
  "purge_authorized_voters current voters =
     (let kept = filter (\<lambda>(e, _). current \<le> e) voters in if kept = [] then None else Some kept)"
proof -
  have "fold btree_remove (map fst (filter (\<lambda>(e, _). e < current) voters)) voters = filter (\<lambda>(e, _). current \<le> e) voters"
    unfolding fold_btree_remove by (intro filter_cong) (force simp: not_le)+
  then show ?thesis by (simp add: purge_authorized_voters_def Let_def)
qed

lemma get_authorized_voter_purge:
  assumes "btree_inv voters" "map_of voters current \<noteq> None" "current \<le> epoch"
  shows "get_authorized_voter (filter (\<lambda>(e, _). current \<le> e) voters) epoch = get_authorized_voter voters epoch"
proof -
  have "get_authorized_voter (filter (\<lambda>(e, _). current \<le> e) voters) epoch = Some p \<longleftrightarrow>
      get_authorized_voter voters epoch = Some p" for p
    unfolding get_authorized_voter_iff [OF assms(1)] get_authorized_voter_iff [OF btree_filter_inv [OF assms(1)]]
      map_of_filter_keys
  proof (rule iff_exI)
    fix e
    have "\<not> current \<le> e \<Longrightarrow> \<not> (\<forall>j. e < j \<longrightarrow> j \<le> epoch \<longrightarrow> map_of voters j = None)"
      using assms(2,3) by (meson not_le)
    then show "(e \<le> epoch \<and> (if current \<le> e then map_of voters e else None) = Some p \<and>
        (\<forall>j. e < j \<longrightarrow> j \<le> epoch \<longrightarrow> (if current \<le> j then map_of voters j else None) = None)) =
      (e \<le> epoch \<and> map_of voters e = Some p \<and> (\<forall>j. e < j \<longrightarrow> j \<le> epoch \<longrightarrow> map_of voters j = None))"
      by (cases "current \<le> e") auto
  qed
  then show ?thesis by (rule option_eqI)
qed

text \<open>Writing down the voter of an epoch changes nothing from that epoch on.\<close>

lemma get_authorized_voter_cache:
  assumes inv: "btree_inv voters" and p: "get_authorized_voter voters current = Some p" and later: "current \<le> epoch"
  shows "get_authorized_voter (btree_insert current p voters) epoch = get_authorized_voter voters epoch"
proof (cases "\<exists>e>current. e \<le> epoch \<and> map_of voters e \<noteq> None")
  case True
  then obtain e where e: "current < e" "e \<le> epoch" "map_of voters e \<noteq> None" by blast
  have "(k \<le> epoch \<and> ((map_of voters)(current \<mapsto> p)) k = Some q \<and>
        (\<forall>j. k < j \<longrightarrow> j \<le> epoch \<longrightarrow> ((map_of voters)(current \<mapsto> p)) j = None)) =
      (k \<le> epoch \<and> map_of voters k = Some q \<and> (\<forall>j. k < j \<longrightarrow> j \<le> epoch \<longrightarrow> map_of voters j = None))" for k q
  proof (cases "current < k")
    case False
    then have "k < e" "e \<noteq> current" using e(1) by auto
    then show ?thesis using e by (metis fun_upd_other)
  qed auto
  then show ?thesis
    by (intro option_eqI) (simp only: get_authorized_voter_iff [OF inv]
        get_authorized_voter_iff [OF btree_insert_inv [OF inv]] map_of_btree_insert [OF inv])
next
  case False
  obtain e0 where e0: "e0 \<le> current" "map_of voters e0 = Some p" "\<forall>j. e0 < j \<longrightarrow> j \<le> current \<longrightarrow> map_of voters j = None"
    using p get_authorized_voter_iff [OF inv] by blast
  have "map_of voters j = None" if "e0 < j" "j \<le> epoch" for j
    using that e0(3) False by (meson not_le)
  then have "get_authorized_voter voters epoch = Some p"
    unfolding get_authorized_voter_iff [OF inv] using e0(1,2) later by (meson order_trans)
  moreover have "get_authorized_voter (btree_insert current p voters) epoch = Some p"
    unfolding get_authorized_voter_iff [OF btree_insert_inv [OF inv]] map_of_btree_insert [OF inv]
    using False later by (intro exI [of _ current]) auto
  ultimately show ?thesis by simp
qed

lemma cache_voter:
  assumes "btree_inv voters" "get_and_cache_authorized_voter_for_epoch voters current = (Some p, voters')"
  shows "get_authorized_voter voters current = Some p" "btree_inv voters'" "map_of voters' current = Some p"
    "voters' = voters \<or> voters' = btree_insert current p voters"
    "\<And>epoch. current \<le> epoch \<Longrightarrow> get_authorized_voter voters' epoch = get_authorized_voter voters epoch"
proof -
  show p: "get_authorized_voter voters current = Some p"
    using assms(2) by (auto simp: get_and_cache_authorized_voter_for_epoch_def get_authorized_voter_def split: option.splits)
  show v: "voters' = voters \<or> voters' = btree_insert current p voters"
    using assms(2) by (auto simp: get_and_cache_authorized_voter_for_epoch_def split: option.splits)
  then show "btree_inv voters'" using assms(1) by (auto simp: btree_insert_inv)
  show "map_of voters' current = Some p"
    using assms
    by (auto simp: get_and_cache_authorized_voter_for_epoch_def get_or_calculate_authorized_voter_for_epoch_def
        map_of_btree_insert split: option.splits)
  show "get_authorized_voter voters' epoch = get_authorized_voter voters epoch" if "current \<le> epoch" for epoch
    using v get_authorized_voter_cache [OF assms(1) p that] by auto
qed

lemma btree_insert_keys: "set (map fst (btree_insert k p voters)) = insert k (set (map fst voters))"
  unfolding btree_insert_def by (rule btree_entry_keys)

text \<open>The state after the voter of the current epoch has been looked up.\<close>

lemma update_voters:
  assumes ok: "voters_ok limit (vs_authorized_voters vs)" and current: "current \<le> limit"
  shows "case get_and_update_authorized_voter current vs of
     (Inl e, _) \<Rightarrow> e = Fails InvalidAccountData \<and> get_authorized_voter (vs_authorized_voters vs) current = None
   | (Inr p, vs') \<Rightarrow> get_authorized_voter (vs_authorized_voters vs) current = Some p \<and>
       voters_ok limit (vs_authorized_voters vs') \<and> vs' = vs\<lparr>vs_authorized_voters := vs_authorized_voters vs'\<rparr> \<and>
       (\<forall>epoch\<ge>current. get_authorized_voter (vs_authorized_voters vs') epoch = get_authorized_voter (vs_authorized_voters vs) epoch)"
proof -
  have inv: "btree_inv (vs_authorized_voters vs)" using ok by (simp add: voters_ok_def)
  obtain r voters where c: "get_and_cache_authorized_voter_for_epoch (vs_authorized_voters vs) current = (r, voters)"
    by (cases "get_and_cache_authorized_voter_for_epoch (vs_authorized_voters vs) current")
  show ?thesis
  proof (cases r)
    case None
    then show ?thesis using c
      by (auto simp: get_and_update_authorized_voter_def get_and_cache_authorized_voter_for_epoch_def
          get_authorized_voter_def split: option.splits)
  next
    case (Some p)
    note cache = cache_voter [OF inv c [unfolded Some]]
    let ?kept = "filter (\<lambda>(e, _). current \<le> e) voters"
    have "(current, p) \<in> set voters" using cache(3) by (rule map_of_SomeD)
    then have ne: "?kept \<noteq> []" by (auto simp: filter_empty_conv)
    have "set (map fst voters) \<subseteq> insert current (set (map fst (vs_authorized_voters vs)))"
      using cache(4) btree_insert_keys [of current p "vs_authorized_voters vs"] by auto
    then have "\<forall>e\<in>set (map fst voters). e \<le> limit" using ok current unfolding voters_ok_def by blast
    then have "voters_ok limit ?kept" using ne btree_filter_inv [OF cache(2)] by (auto simp: voters_ok_def)
    moreover have "get_authorized_voter ?kept epoch = get_authorized_voter (vs_authorized_voters vs) epoch"
      if "current \<le> epoch" for epoch
      using get_authorized_voter_purge [OF cache(2) _ that] cache(3,5) that by simp
    ultimately show ?thesis using c Some ne cache(1)
      by (simp add: get_and_update_authorized_voter_def purge_eq Let_def)
  qed
qed

subsection \<open>A new voter\<close>

definition circ_buf_ok :: "'a circ_buf \<Rightarrow> bool" where
  "circ_buf_ok b \<longleftrightarrow> length (cb_buf b) = MAX_ITEMS \<and> cb_idx b < MAX_ITEMS"

lemma circ_buf_ok_ops:
  assumes "circ_buf_ok b"
  shows "\<exists>x. circ_buf_last b = Some x" "\<exists>b'. circ_buf_append item b = Some b' \<and> circ_buf_ok b'"
  using assms by (auto simp: circ_buf_ok_def circ_buf_last_def circ_buf_append_def MAX_ITEMS_def usize_max_def Let_def vec_get_def)

lemma expire_prior_voter_run:
  assumes "circ_buf_ok (vs_prior_voters vs)" "latest_epoch < target"
  shows "\<exists>b. expire_prior_voter p latest_epoch target vs = (Inr (), vs\<lparr>vs_prior_voters := b\<rparr>) \<and> circ_buf_ok b"
proof -
  obtain x where x: "circ_buf_last (vs_prior_voters vs) = Some x" using circ_buf_ok_ops(1) [OF assms(1)] by blast
  obtain b where "circ_buf_append (p, case x of None \<Rightarrow> 0 | Some (_, _, epoch) \<Rightarrow> epoch, target) (vs_prior_voters vs) = Some b"
    "circ_buf_ok b" using circ_buf_ok_ops(2) [OF assms(1)] by blast
  then show ?thesis using x assms(2) by (intro exI [of _ b]) (simp add: expire_prior_voter_def effect_simps)
qed

text \<open>The part of the operation after the check of the current voter.\<close>

lemma insert_voter_ok:
  assumes ok: "voters_ok target voters" and new: "\<not> voters_contains voters target"
  shows "voters_ok target (btree_insert target q voters)" "fst (last voters) < target"
    and "get_authorized_voter (btree_insert target q voters) epoch =
      (if target \<le> epoch then Some q else get_authorized_voter voters epoch)"
proof -
  have inv: "btree_inv voters" "voters \<noteq> []" "\<forall>e\<in>set (map fst voters). e \<le> target" using ok by (simp_all add: voters_ok_def)
  have "fst (last voters) \<in> set (map fst voters)" using inv(2) by simp
  moreover have "target \<notin> set (map fst voters)" using new by (simp add: voters_contains_def map_of_eq_None_iff)
  ultimately show "fst (last voters) < target" using inv(3) by (metis order_le_less)
  have "set (map fst (btree_insert target q voters)) \<noteq> {}" by (simp only: btree_insert_keys) simp
  then show "voters_ok target (btree_insert target q voters)"
    using btree_insert_inv [OF inv(1)] inv(3) btree_insert_keys [of target q voters] unfolding voters_ok_def by fastforce
  show "get_authorized_voter (btree_insert target q voters) epoch =
      (if target \<le> epoch then Some q else get_authorized_voter voters epoch)"
    using get_authorized_voter_insert_last [OF inv(1,3)] get_authorized_voter_insert_later [OF inv(1)] by (simp add: not_le)
qed

lemma set_new_authorized_voter_split:
  assumes "voters_ok target (vs_authorized_voters vs)" "circ_buf_ok (vs_prior_voters vs)"
    and "get_and_update_authorized_voter current vs0 = (Inr p, vs)" "verify p = Inr ()"
  shows "if voters_contains (vs_authorized_voters vs) target
    then set_new_authorized_voter q current target verify vs0 = (Inl (Fails (vote_error_into TooSoonToReauthorize)), vs)
    else \<exists>b. circ_buf_ok b \<and> set_new_authorized_voter q current target verify vs0 =
      (Inr (), vs\<lparr>vs_prior_voters := b, vs_authorized_voters := btree_insert target q (vs_authorized_voters vs)\<rparr>)"
proof (cases "voters_contains (vs_authorized_voters vs) target")
  case True
  then show ?thesis using assms(3,4) by (simp add: set_new_authorized_voter_def effect_simps)
next
  case False
  obtain e r where l: "last (vs_authorized_voters vs) = (e, r)" by (cases "last (vs_authorized_voters vs)")
  have "e < target" using insert_voter_ok(2) [OF assms(1) False] l by simp
  from expire_prior_voter_run [OF assms(2) this, of r] obtain b where
    b: "expire_prior_voter r e target vs = (Inr (), vs\<lparr>vs_prior_voters := b\<rparr>)" "circ_buf_ok b" by blast
  have ne: "voters_last (vs_authorized_voters vs) = Some (e, r)"
    using assms(1) l by (simp add: voters_last_def voters_ok_def)
  show ?thesis
  proof (cases "r = q")
    case True
    then show ?thesis using False assms(2-) ne
      by (intro if_not_P [THEN iffD2] exI [of _ "vs_prior_voters vs"]) (simp_all add: set_new_authorized_voter_def effect_simps)
  next
    case neq: False
    then show ?thesis using False assms(3,4) ne b
      by (simp add: set_new_authorized_voter_def effect_simps) blast
  qed
qed

lemma authorized_voter_change_lemma:
  assumes "voters_ok target (vs_authorized_voters vs)" "circ_buf_ok (vs_prior_voters vs)" "current \<le> target"
  shows "case set_new_authorized_voter q current target verify vs of
      (Inl e, _) \<Rightarrow> e \<noteq> Panic
    | (Inr _, vs') \<Rightarrow>
        (\<exists>p. get_authorized_voter (vs_authorized_voters vs) current = Some p \<and> verify p = Inr ()) \<and>
        (\<forall>epoch\<ge>current. get_authorized_voter (vs_authorized_voters vs') epoch =
          (if target \<le> epoch then Some q else get_authorized_voter (vs_authorized_voters vs) epoch)) \<and>
        voters_ok target (vs_authorized_voters vs') \<and> circ_buf_ok (vs_prior_voters vs') \<and>
        voters_contains (vs_authorized_voters vs') target"
proof -
  obtain r vs1 where g: "get_and_update_authorized_voter current vs = (r, vs1)"
    by (cases "get_and_update_authorized_voter current vs")
  note update = update_voters [OF assms(1,3), unfolded g]
  show ?thesis
  proof (cases r)
    case (Inl e)
    then show ?thesis using g update by (simp add: set_new_authorized_voter_def effect_simps)
  next
    case (Inr p)
    then have ok: "voters_ok target (vs_authorized_voters vs1)" "get_authorized_voter (vs_authorized_voters vs) current = Some p"
      and later: "\<And>epoch. current \<le> epoch \<Longrightarrow>
        get_authorized_voter (vs_authorized_voters vs1) epoch = get_authorized_voter (vs_authorized_voters vs) epoch"
      and same: "vs1 = vs\<lparr>vs_authorized_voters := vs_authorized_voters vs1\<rparr>" using update by auto
    have prior: "circ_buf_ok (vs_prior_voters vs1)" using assms(2) by (subst same) simp
    show ?thesis
    proof (cases "verify p")
      case (Inl e)
      then show ?thesis using g Inr by (simp add: set_new_authorized_voter_def effect_simps)
    next
      case verified: (Inr u)
      note split = set_new_authorized_voter_split [OF ok(1) prior g [unfolded Inr], of verify q]
      show ?thesis
      proof (cases "voters_contains (vs_authorized_voters vs1) target")
        case True
        then show ?thesis using split verified by simp
      next
        case False
        let ?voters = "btree_insert target q (vs_authorized_voters vs1)"
        obtain b where b: "circ_buf_ok b" "set_new_authorized_voter q current target verify vs =
            (Inr (), vs1\<lparr>vs_prior_voters := b, vs_authorized_voters := ?voters\<rparr>)"
          using split verified False by auto
        have "voters_contains ?voters target"
          using ok(1) by (simp add: voters_contains_def voters_ok_def map_of_btree_insert)
        then show ?thesis using b ok(2) later verified insert_voter_ok(1,3) [OF ok(1) False] by simp
      qed
    qed
  qed
qed

text \<open>
  C26: changing the voter. Let no authorized voter be recorded beyond the target epoch, as when the target is one past the
  leader schedule epoch. Then setting a new voter never panics, and when it succeeds the
  voter of the current epoch, who had to be known, passed the caller's check; from the target epoch on the voter is
  the new one, in the epochs before it the voter is as before, and the state is again of this
  shape, with the target epoch taken.
\<close>

theorem authorized_voter_change:
  assumes "voters_ok target (vs_authorized_voters vs)" "circ_buf_ok (vs_prior_voters vs)" "current \<le> target"
  shows "case set_new_authorized_voter q current target verify vs of
      (Inl e, _) \<Rightarrow> e \<noteq> Panic
    | (Inr _, vs') \<Rightarrow>
        (\<exists>p. get_authorized_voter (vs_authorized_voters vs) current = Some p \<and> verify p = Inr ()) \<and>
        (\<forall>epoch\<ge>current. get_authorized_voter (vs_authorized_voters vs') epoch =
          (if target \<le> epoch then Some q else get_authorized_voter (vs_authorized_voters vs) epoch)) \<and>
        voters_ok target (vs_authorized_voters vs') \<and> circ_buf_ok (vs_prior_voters vs') \<and>
        voters_contains (vs_authorized_voters vs') target"
  using assms by (rule authorized_voter_change_lemma)

definition example_vote_init :: vote_init where
  "example_vote_init = \<lparr>vi_node_pubkey = replicate 32 1, vi_authorized_voter = replicate 32 2,
     vi_authorized_withdrawer = replicate 32 3, vi_commission = 10\<rparr>"

definition example_clock :: clock where
  "example_clock = \<lparr>ck_slot = 100, ck_epoch_start_timestamp = 0, ck_epoch = 4, ck_leader_schedule_epoch = 5, ck_unix_timestamp = 0\<rparr>"

lemmas voter_eval = set_new_authorized_voter_def get_and_update_authorized_voter_def
  get_and_cache_authorized_voter_for_epoch_def get_or_calculate_authorized_voter_for_epoch_def purge_authorized_voters_def
  btree_remove_def voters_contains_def voters_last_def expire_prior_voter_def circ_buf_last_def circ_buf_append_def
  circ_buf_default_def vote_state_new_def vote_state_default_def authorized_voters_new_def MAX_ITEMS_def usize_max_def
  effect_simps Let_def

theorem authorized_voter_change_witness:
  "voters_ok 6 (vs_authorized_voters (vote_state_new example_vote_init example_clock)) \<and>
   (case set_new_authorized_voter (replicate 32 7) 4 6 (\<lambda>_. Inr ()) (vote_state_new example_vote_init example_clock) of
      (Inl _, _) \<Rightarrow> False
    | (Inr _, vs') \<Rightarrow> get_authorized_voter (vs_authorized_voters vs') 5 = Some (replicate 32 2) \<and>
        get_authorized_voter (vs_authorized_voters vs') 6 = Some (replicate 32 7))"
proof -
  let ?vs = "vote_state_new example_vote_init example_clock"
  have ok: "voters_ok 6 (vs_authorized_voters ?vs)" "circ_buf_ok (vs_prior_voters ?vs)"
    by (simp_all add: voters_ok_def circ_buf_ok_def vote_state_new_def vote_state_default_def authorized_voters_new_def
        example_clock_def circ_buf_default_def MAX_ITEMS_def)
  have "get_authorized_voter (vs_authorized_voters ?vs) 5 = Some (replicate 32 2)"
    by (simp add: get_authorized_voter_def get_or_calculate_authorized_voter_for_epoch_def vote_state_new_def
        authorized_voters_new_def example_clock_def example_vote_init_def btree_before_def)
  moreover have "is_ok (fst (set_new_authorized_voter (replicate 32 7) 4 6 (\<lambda>_. Inr ()) ?vs))"
    by (simp add: voter_eval example_clock_def example_vote_init_def)
  ultimately show ?thesis
    using ok authorized_voter_change [OF ok, where current = 4 and q = "replicate 32 7" and verify = "\<lambda>_. Inr ()"]
    by (auto simp: is_ok_def split: prod.splits sum.splits)
qed

end
