(* ===== verification/Vote_Updates.thy ===== *)
theory Vote_Updates
  imports Vote_State
begin

section \<open>Processing votes\<close>

text \<open>
  The part of \<open>programs/vote/src/vote_state/mod.rs\<close> that works on vote states: the checks of votes and of
  proposed towers against the slot hashes, and the replacement of the tower. An index that the code
  increments with \<open>checked_add(1).expect(..)\<close> stays below the length of a vector, so the addition cannot
  fail; every other \<open>assert!\<close>, \<open>expect\<close> and index is a branch to \<open>Panic\<close>.
\<close>

subsection \<open>Proposed towers against the slot hashes\<close>

text \<open>
  The root proposed by an update is replaced when it is older than the history. \<open>vote_state.votes\<close>
  is scanned from its back for a vote at or below the proposed root.
\<close>

definition overwrite_old_root :: "vote_state \<Rightarrow> u64 \<Rightarrow> u64 option \<Rightarrow> u64 option" where
  "overwrite_old_root vs earliest new_root =
     (case new_root of
        None \<Rightarrow> None
      | Some proposed_root \<Rightarrow>
          if proposed_root < earliest
          then (case find (\<lambda>v. lv_slot v \<le> proposed_root) (rev (vs_votes vs)) of
                  Some v \<Rightarrow> Some (lv_slot v)
                | None \<Rightarrow> vs_root_slot vs)
          else Some proposed_root)"

text \<open>The loop over the proposed slots \<open>i\<close> and the slot hashes below \<open>j\<close>, from the oldest.\<close>

function check_update_loop ::
  "landed_vote list \<Rightarrow> lockout list \<Rightarrow> slot_hashes \<Rightarrow> u64 \<Rightarrow> u64 option \<Rightarrow> nat \<Rightarrow> nat \<Rightarrow> nat list
     \<Rightarrow> vote_error fault + nat \<times> nat \<times> nat list" where
  "check_update_loop votes lockouts slot_hashes earliest root_to_check i j to_filter =
     (if i < length lockouts \<and> 0 < j then
        let proposed_vote_slot = (case root_to_check of Some r \<Rightarrow> r | None \<Rightarrow> lk_slot (lockouts ! i));
            ancestor_slot = fst (slot_hashes ! (j - 1))
        in if root_to_check = None \<and> 0 < i \<and> proposed_vote_slot \<le> lk_slot (lockouts ! (i - 1))
           then Inl (Fails SlotsNotOrdered)
           else (case cmp proposed_vote_slot ancestor_slot of
             Less \<Rightarrow>
               if j = length slot_hashes then
                 if \<not> proposed_vote_slot < earliest then Inl Panic
                 else (case root_to_check of
                   Some new_proposed_root \<Rightarrow>
                     if new_proposed_root \<noteq> proposed_vote_slot \<or> \<not> new_proposed_root < earliest then Inl Panic
                     else check_update_loop votes lockouts slot_hashes earliest None i j to_filter
                 | None \<Rightarrow>
                     check_update_loop votes lockouts slot_hashes earliest None (i + 1) j
                       (if \<not> contains_slot votes proposed_vote_slot then to_filter @ [i] else to_filter))
               else Inl (Fails (if root_to_check \<noteq> None then RootOnDifferentFork else SlotsMismatch))
           | Greater \<Rightarrow> check_update_loop votes lockouts slot_hashes earliest root_to_check i (j - 1) to_filter
           | Equal \<Rightarrow>
               if root_to_check \<noteq> None
               then check_update_loop votes lockouts slot_hashes earliest None i j to_filter
               else check_update_loop votes lockouts slot_hashes earliest None (i + 1) (j - 1) to_filter)
      else Inr (i, j, to_filter))"
  by pat_completeness auto
termination
  by (relation "measure (\<lambda>(_, lockouts, _, _, r, i, j, _). (length lockouts - i) + j + (if r = None then 0 else 1))")
    auto

declare check_update_loop.simps [simp del]

text \<open>\<open>VecDeque::retain\<close> with the indices to filter.\<close>

fun retain_unfiltered :: "nat list \<Rightarrow> nat \<Rightarrow> nat \<Rightarrow> 'a list \<Rightarrow> 'a list" where
  "retain_unfiltered to_filter index filter_index [] = []"
| "retain_unfiltered to_filter index filter_index (x # xs) =
     (if filter_index = length to_filter then x # retain_unfiltered to_filter (index + 1) filter_index xs
      else if index = to_filter ! filter_index then retain_unfiltered to_filter (index + 1) (filter_index + 1) xs
      else x # retain_unfiltered to_filter (index + 1) filter_index xs)"

definition check_update_vote_state_slots_are_valid ::
  "vote_state \<Rightarrow> vote_state_update \<Rightarrow> slot_hashes \<Rightarrow> vote_error fault + vote_state_update" where
  "check_update_vote_state_slots_are_valid vs update slot_hashes =
     (if vu_lockouts update = [] then Inl (Fails EmptySlots)
      else
        let last_slot = lk_slot (last (vu_lockouts update)) in
        if (case last_voted_slot (vs_votes vs) of None \<Rightarrow> False | Some s \<Rightarrow> last_slot \<le> s) then Inl (Fails VoteTooOld)
        else if slot_hashes = [] then Inl (Fails SlotsMismatch)
        else
          let earliest = fst (last slot_hashes) in
          if last_slot < earliest then Inl (Fails VoteTooOld)
          else
            let new_root = overwrite_old_root vs earliest (vu_root update) in
            and_then (check_update_loop (vs_votes vs) (vu_lockouts update) slot_hashes earliest new_root 0 (length slot_hashes) [])
              (\<lambda>(i, j, to_filter).
                if i \<noteq> length (vu_lockouts update) then Inl (Fails SlotsMismatch)
                else (case vec_get slot_hashes j of
                        None \<Rightarrow> Inl Panic
                      | Some (slot, hash) \<Rightarrow>
                          if last_slot \<noteq> slot then Inl Panic
                          else if hash \<noteq> vu_hash update then Inl (Fails SlotHashMismatch)
                          else Inr (update\<lparr>vu_root := new_root,
                                 vu_lockouts := retain_unfiltered to_filter 0 0 (vu_lockouts update)\<rparr>))))"

subsection \<open>Votes against the slot hashes\<close>

function check_slots_loop :: "u64 option \<Rightarrow> u64 list \<Rightarrow> slot_hashes \<Rightarrow> nat \<Rightarrow> nat \<Rightarrow> nat \<times> nat" where
  "check_slots_loop last_voted vote_slots slot_hashes i j =
     (if i < length vote_slots \<and> 0 < j then
        if (case last_voted of None \<Rightarrow> False | Some s \<Rightarrow> vote_slots ! i \<le> s)
        then check_slots_loop last_voted vote_slots slot_hashes (i + 1) j
        else if vote_slots ! i \<noteq> fst (slot_hashes ! (j - 1))
        then check_slots_loop last_voted vote_slots slot_hashes i (j - 1)
        else check_slots_loop last_voted vote_slots slot_hashes (i + 1) (j - 1)
      else (i, j))"
  by pat_completeness auto
termination
  by (relation "measure (\<lambda>(_, vote_slots, _, i, j). (length vote_slots - i) + j)") auto

declare check_slots_loop.simps [simp del]

definition check_slots_are_valid ::
  "vote_state \<Rightarrow> u64 list \<Rightarrow> hash \<Rightarrow> slot_hashes \<Rightarrow> vote_error fault + unit" where
  "check_slots_are_valid vs vote_slots vote_hash slot_hashes =
     (case check_slots_loop (last_voted_slot (vs_votes vs)) vote_slots slot_hashes 0 (length slot_hashes) of
        (i, j) \<Rightarrow>
          if j = length slot_hashes then Inl (Fails VoteTooOld)
          else if i \<noteq> length vote_slots then Inl (Fails SlotsMismatch)
          else (case vec_get slot_hashes j of
                  None \<Rightarrow> Inl Panic
                | Some (_, hash) \<Rightarrow> if hash \<noteq> vote_hash then Inl (Fails SlotHashMismatch) else Inr ()))"

definition process_vote_unfiltered ::
  "u64 list \<Rightarrow> vote \<Rightarrow> slot_hashes \<Rightarrow> u64 \<Rightarrow> u64 \<Rightarrow> bool \<Rightarrow> bool \<Rightarrow> unit vs_effect" where
  "process_vote_unfiltered vote_slots vote slot_hashes epoch current_slot timely_vote_credits deprecate =
     bind (reads (\<lambda>vs. check_slots_are_valid vs vote_slots (vt_hash vote) slot_hashes)) (\<lambda>_.
       modify (fold (\<lambda>s. process_next_vote_slot s epoch current_slot timely_vote_credits deprecate) vote_slots))"

definition process_vote ::
  "vote \<Rightarrow> slot_hashes \<Rightarrow> u64 \<Rightarrow> u64 \<Rightarrow> bool \<Rightarrow> bool \<Rightarrow> unit vs_effect" where
  "process_vote vote slot_hashes epoch current_slot timely_vote_credits deprecate =
     bind (fail_if (vt_slots vote = []) (Fails EmptySlots)) (\<lambda>_.
     let earliest_slot_in_history = (if slot_hashes = [] then 0 else fst (last slot_hashes));
         vote_slots = filter (\<lambda>slot. earliest_slot_in_history \<le> slot) (vt_slots vote) in
     bind (fail_if (vote_slots = []) (Fails VotesTooOldAllFiltered)) (\<lambda>_.
       process_vote_unfiltered vote_slots vote slot_hashes epoch current_slot timely_vote_credits deprecate))"

subsection \<open>Replacing the tower\<close>

text \<open>The checks of the proposed votes, with the previous vote.\<close>

fun check_new_votes :: "u64 option \<Rightarrow> landed_vote option \<Rightarrow> landed_vote list \<Rightarrow> vote_error fault + unit" where
  "check_new_votes new_root previous_vote [] = Inr ()"
| "check_new_votes new_root previous_vote (vote # votes) =
     (if lv_conf vote = 0 then Inl (Fails ZeroConfirmations)
      else if of_nat MAX_LOCKOUT_HISTORY < lv_conf vote then Inl (Fails ConfirmationTooLarge)
      else if (case new_root of Some r \<Rightarrow> lv_slot vote \<le> r \<and> r \<noteq> 0 | None \<Rightarrow> False) then Inl (Fails SlotSmallerThanRoot)
      else (case previous_vote of
              None \<Rightarrow> check_new_votes new_root (Some vote) votes
            | Some previous_vote \<Rightarrow>
                if lv_slot vote \<le> lv_slot previous_vote then Inl (Fails SlotsNotOrdered)
                else if lv_conf previous_vote \<le> lv_conf vote then Inl (Fails ConfirmationsNotOrdered)
                else if last_locked_out_slot (lv_lockout previous_vote) < lv_slot vote
                then Inl (Fails NewVoteStateLockoutMismatch)
                else check_new_votes new_root (Some vote) votes))"

text \<open>The prefix of the current votes that the new root roots, and the credits it earns.\<close>

fun count_rooted ::
  "landed_vote list \<Rightarrow> bool \<Rightarrow> bool \<Rightarrow> u64 \<Rightarrow> landed_vote list \<Rightarrow> nat \<Rightarrow> u64 \<Rightarrow> vote_error fault + nat \<times> u64" where
  "count_rooted votes timely deprecate new_root [] index earned = Inr (index, earned)"
| "count_rooted votes timely deprecate new_root (current_vote # rest) index earned =
     (if lv_slot current_vote \<le> new_root
      then if timely \<or> lv_slot current_vote \<noteq> new_root
           then (case checked_add earned (credits_for_vote_at_index votes index timely deprecate) of
                   None \<Rightarrow> Inl Panic
                 | Some earned' \<Rightarrow> count_rooted votes timely deprecate new_root rest (index + 1) earned')
           else count_rooted votes timely deprecate new_root rest (index + 1) earned
      else Inr (index, earned))"

text \<open>
  The walk along the current votes from \<open>current_vote_state_index\<close> on and the new votes. The result is the
  list of new votes, with the latencies of the votes that were already there.
\<close>

fun merge_votes :: "landed_vote list \<Rightarrow> landed_vote list \<Rightarrow> vote_error fault + landed_vote list" where
  "merge_votes [] new_votes = Inr new_votes"
| "merge_votes (current_vote # currents) [] = Inr []"
| "merge_votes (current_vote # currents) (new_vote # news) =
     (case cmp (lv_slot current_vote) (lv_slot new_vote) of
        Less \<Rightarrow>
          if lv_slot new_vote \<le> last_locked_out_slot (lv_lockout current_vote) then Inl (Fails LockoutConflict)
          else merge_votes currents (new_vote # news)
      | Equal \<Rightarrow>
          if lv_conf new_vote < lv_conf current_vote then Inl (Fails ConfirmationRollBack)
          else and_then (merge_votes currents news)
                 (\<lambda>merged. Inr (new_vote\<lparr>lv_latency := lv_latency current_vote\<rparr> # merged))
      | Greater \<Rightarrow> and_then (merge_votes (current_vote # currents) news) (\<lambda>merged. Inr (new_vote # merged)))"

definition set_new_latencies :: "u64 \<Rightarrow> landed_vote list \<Rightarrow> landed_vote list" where
  "set_new_latencies current_slot votes =
     map (\<lambda>v. if lv_latency v = 0 then v\<lparr>lv_latency := compute_vote_latency (lv_slot v) current_slot\<rparr> else v) votes"

definition root_rolls_back :: "u64 option \<Rightarrow> u64 option \<Rightarrow> bool" where
  "root_rolls_back new_root root_slot =
     (case (new_root, root_slot) of
        (Some n, Some c) \<Rightarrow> n < c
      | (None, Some _) \<Rightarrow> True
      | _ \<Rightarrow> False)"

text \<open>The feature set of the code is given by the two features it is asked for; without one both are off.\<close>

definition process_new_vote_state ::
  "landed_vote list \<Rightarrow> u64 option \<Rightarrow> int option \<Rightarrow> u64 \<Rightarrow> u64 \<Rightarrow> bool \<Rightarrow> bool \<Rightarrow> unit vs_effect" where
  "process_new_vote_state new_state new_root timestamp epoch current_slot timely_vote_credits deprecate =
     bind (fail_if (new_state = []) Panic) (\<lambda>_.
     bind (fail_if (MAX_LOCKOUT_HISTORY < length new_state) (Fails TooManyVotes)) (\<lambda>_.
     bind (gets vs_root_slot) (\<lambda>root_slot.
     bind (fail_if (root_rolls_back new_root root_slot) (Fails RootRollBack)) (\<lambda>_.
     bind (lift (check_new_votes new_root None new_state)) (\<lambda>_.
     bind (gets vs_votes) (\<lambda>votes.
     let earned = (if timely_vote_credits then 0 else 1) in
     bind (lift (case new_root of
                   None \<Rightarrow> Inr (0, earned)
                 | Some r \<Rightarrow> count_rooted votes timely_vote_credits deprecate r votes 0 earned)) (\<lambda>(index, earned_credits).
     bind (lift (merge_votes (drop index votes) new_state)) (\<lambda>merged.
     let final_votes = (if timely_vote_credits then set_new_latencies current_slot merged else merged) in
     bind (if root_slot \<noteq> new_root
           then modify (\<lambda>vs. vs\<lparr>vs_epoch_credits := increment_credits epoch earned_credits (vs_epoch_credits vs)\<rparr>)
           else return ()) (\<lambda>_.
     bind (case timestamp of None \<Rightarrow> return () | Some t \<Rightarrow> process_timestamp (lv_slot (last final_votes)) t) (\<lambda>_.
       modify (\<lambda>vs. vs\<lparr>vs_root_slot := new_root, vs_votes := final_votes\<rparr>)))))))))))"

definition do_process_vote_state_update ::
  "slot_hashes \<Rightarrow> u64 \<Rightarrow> u64 \<Rightarrow> vote_state_update \<Rightarrow> bool \<Rightarrow> bool \<Rightarrow> unit vs_effect" where
  "do_process_vote_state_update slot_hashes epoch slot update timely_vote_credits deprecate =
     bind (reads (\<lambda>vs. check_update_vote_state_slots_are_valid vs update slot_hashes)) (\<lambda>update.
       process_new_vote_state (map landed_vote_from (vu_lockouts update)) (vu_root update) (vu_timestamp update)
         epoch slot timely_vote_credits deprecate)"

end
