(* ===== verification/Nonce_State.thy ===== *)
theory Nonce_State
  imports Sdk_Types
begin

section \<open>Durable nonce state\<close>

text \<open>
  \<open>sdk/program/src/nonce/state\<close>: the state of a nonce account and its two versions. A
  durable nonce is the hash of a prefix and a block hash; legacy nonces stored the block hash
  itself and are not accepted for durable transactions until upgraded.
\<close>

text \<open>\<open>b"DURABLE_NONCE"\<close>\<close>

definition DURABLE_NONCE_HASH_PREFIX :: bytes where
  "DURABLE_NONCE_HASH_PREFIX = [68, 85, 82, 65, 66, 76, 69, 95, 78, 79, 78, 67, 69]"

record nonce_data =
  nd_authority :: pubkey
  nd_durable_nonce :: hash
  nd_lamports_per_signature :: u64

datatype nonce_state = Uninitialized | Initialized nonce_data

datatype nonce_versions = Legacy nonce_state | Current nonce_state

datatype authorize_nonce_error = NonceMissingRequiredSignature pubkey | NonceUninitialized

definition nonce_data_new :: "pubkey \<Rightarrow> hash \<Rightarrow> u64 \<Rightarrow> nonce_data" where
  "nonce_data_new authority durable_nonce lamports_per_signature =
     \<lparr>nd_authority = authority, nd_durable_nonce = durable_nonce,
      nd_lamports_per_signature = lamports_per_signature\<rparr>"

definition nonce_data_blockhash :: "nonce_data \<Rightarrow> hash" where
  "nonce_data_blockhash d = nd_durable_nonce d"

definition durable_nonce_from_blockhash :: "(bytes \<Rightarrow> hash) \<Rightarrow> hash \<Rightarrow> hash" where
  "durable_nonce_from_blockhash sha256 blockhash = hashv sha256 [DURABLE_NONCE_HASH_PREFIX, blockhash]"

definition nonce_state_size :: nat where
  "nonce_state_size = 80"

definition versions_new :: "nonce_state \<Rightarrow> nonce_versions" where
  "versions_new state = Current state"

fun versions_state :: "nonce_versions \<Rightarrow> nonce_state" where
  "versions_state (Legacy state) = state"
| "versions_state (Current state) = state"

fun verify_recent_blockhash :: "nonce_versions \<Rightarrow> hash \<Rightarrow> nonce_data option" where
  "verify_recent_blockhash (Legacy _) recent_blockhash = None"
| "verify_recent_blockhash (Current Uninitialized) recent_blockhash = None"
| "verify_recent_blockhash (Current (Initialized d)) recent_blockhash =
     (if recent_blockhash = nonce_data_blockhash d then Some d else None)"

fun versions_upgrade :: "(bytes \<Rightarrow> hash) \<Rightarrow> nonce_versions \<Rightarrow> nonce_versions option" where
  "versions_upgrade sha256 (Legacy Uninitialized) = None"
| "versions_upgrade sha256 (Legacy (Initialized d)) =
     Some (Current (Initialized
       (d\<lparr>nd_durable_nonce := durable_nonce_from_blockhash sha256 (nonce_data_blockhash d)\<rparr>)))"
| "versions_upgrade sha256 (Current _) = None"

definition versions_authorize ::
  "nonce_versions \<Rightarrow> pubkey list \<Rightarrow> pubkey \<Rightarrow> authorize_nonce_error + nonce_versions" where
  "versions_authorize v signers authority =
     (case versions_state v of
        Uninitialized \<Rightarrow> Inl NonceUninitialized
      | Initialized d \<Rightarrow>
          if nd_authority d \<notin> set signers then Inl (NonceMissingRequiredSignature (nd_authority d))
          else
            (let d' = nonce_data_new authority (nd_durable_nonce d) (nd_lamports_per_signature d)
             in Inr (case v of Legacy _ \<Rightarrow> Legacy (Initialized d') | Current _ \<Rightarrow> Current (Initialized d'))))"

subsection \<open>Well-formed states and a codec for them\<close>

fun wf_nonce_state :: "nonce_state \<Rightarrow> bool" where
  "wf_nonce_state Uninitialized = True"
| "wf_nonce_state (Initialized d) = (wf_key (nd_authority d) \<and> wf_key (nd_durable_nonce d))"

definition wf_nonce_versions :: "nonce_versions set" where
  "wf_nonce_versions = {v. wf_nonce_state (versions_state v)}"

text \<open>
  An encoding in bincode's fixed-width layout: a 32-bit variant index for each enum, the two
  32-byte arrays, and the 64-bit fee. Its length on an initialized state is the constant 80 of
  \<open>State::size\<close>.
\<close>

fun enc_nonce_state :: "nonce_state \<Rightarrow> bytes" where
  "enc_nonce_state Uninitialized = le_bytes 4 0"
| "enc_nonce_state (Initialized d) =
     le_bytes 4 1 @ nd_authority d @ nd_durable_nonce d @ le_bytes 8 (unat (nd_lamports_per_signature d))"

fun enc_versions :: "nonce_versions \<Rightarrow> bytes" where
  "enc_versions (Legacy s) = le_bytes 4 0 @ enc_nonce_state s"
| "enc_versions (Current s) = le_bytes 4 1 @ enc_nonce_state s"

definition dec_nonce_state :: "bytes \<Rightarrow> (nonce_state \<times> bytes) option" where
  "dec_nonce_state bs =
     (if length bs < 4 then None
      else if le_value (take 4 bs) = 0 then Some (Uninitialized, drop 4 bs)
      else if le_value (take 4 bs) = 1 \<and> 76 \<le> length bs
      then Some (Initialized \<lparr>nd_authority = take 32 (drop 4 bs), nd_durable_nonce = take 32 (drop 36 bs),
                   nd_lamports_per_signature = of_nat (le_value (take 8 (drop 68 bs)))\<rparr>, drop 76 bs)
      else None)"

definition dec_versions :: "bytes \<Rightarrow> (nonce_versions \<times> bytes) option" where
  "dec_versions bs =
     (if length bs < 4 then None
      else if le_value (take 4 bs) = 0 then map_option (map_prod Legacy id) (dec_nonce_state (drop 4 bs))
      else if le_value (take 4 bs) = 1 then map_option (map_prod Current id) (dec_nonce_state (drop 4 bs))
      else None)"

definition nonce_codec :: "nonce_versions bincode" where
  "nonce_codec = fixint_codec enc_versions dec_versions"

lemma dec_enc_nonce_state:
  assumes "wf_nonce_state s"
  shows "dec_nonce_state (enc_nonce_state s @ rest) = Some (s, rest)"
proof (cases s)
  case Uninitialized
  then show ?thesis by (simp add: dec_nonce_state_def le_value_le_bytes)
next
  case (Initialized d)
  have "le_value (le_bytes 8 (unat (nd_lamports_per_signature d))) = unat (nd_lamports_per_signature d)"
    using unsigned_less [of "nd_lamports_per_signature d"] by (intro le_value_le_bytes) simp
  with Initialized assms show ?thesis
    by (simp add: dec_nonce_state_def le_value_le_bytes wf_key_def PUBKEY_BYTES_def)
qed

lemma dec_enc_versions:
  "v \<in> wf_nonce_versions \<Longrightarrow> dec_versions (enc_versions v @ rest) = Some (v, rest)"
  by (cases v) (simp_all add: wf_nonce_versions_def dec_versions_def le_value_le_bytes dec_enc_nonce_state)

lemma length_enc_versions_initialized:
  "Initialized d = versions_state v \<Longrightarrow> v \<in> wf_nonce_versions \<Longrightarrow> length (enc_versions v) = nonce_state_size"
  by (cases v) (auto simp: wf_nonce_versions_def wf_key_def PUBKEY_BYTES_def nonce_state_size_def
      dest: sym)

lemma length_enc_versions_le: "v \<in> wf_nonce_versions \<Longrightarrow> length (enc_versions v) \<le> nonce_state_size"
  by (cases v; cases "versions_state v")
    (auto simp: wf_nonce_versions_def wf_key_def PUBKEY_BYTES_def nonce_state_size_def)

lemma nonce_codec_laws: "bincode_laws nonce_codec wf_nonce_versions"
  unfolding nonce_codec_def
proof (rule fixint_codec_laws)
  fix v
  assume "v \<in> wf_nonce_versions"
  then have "length (enc_versions v) \<le> nonce_state_size" by (rule length_enc_versions_le)
  then show "length (enc_versions v) < 2 ^ 64" by (simp add: nonce_state_size_def)
qed (rule dec_enc_versions)

lemma dec_nonce_state_wf: "dec_nonce_state bs = Some (s, r) \<Longrightarrow> wf_nonce_state s"
  by (auto simp: dec_nonce_state_def wf_key_def PUBKEY_BYTES_def split: if_splits)

lemma nonce_codec_wf: "bc_deserialize nonce_codec bs = Some v \<Longrightarrow> v \<in> wf_nonce_versions"
  by (auto simp: nonce_codec_def fixint_codec_def dec_versions_def wf_nonce_versions_def
      dest: dec_nonce_state_wf split: if_splits)

subsection \<open>Versions\<close>

lemma authorize_keeps_version_and_nonce:
  assumes "versions_authorize v signers authority = Inr v'"
  obtains d where "versions_state v = Initialized d" "nd_authority d \<in> set signers"
    "versions_state v' = Initialized (d\<lparr>nd_authority := authority\<rparr>)"
    "(\<exists>s. v = Legacy s) = (\<exists>s. v' = Legacy s)"
  using assms
  by (cases v)
    (auto simp: versions_authorize_def nonce_data_new_def Let_def split: nonce_state.splits if_splits)

lemma verify_recent_blockhash_Some:
  "verify_recent_blockhash v h = Some d \<longleftrightarrow> v = Current (Initialized d) \<and> h = nd_durable_nonce d"
  by (cases "(v, h)" rule: verify_recent_blockhash.cases) (auto simp: nonce_data_blockhash_def)

end
