(* ===== verification/System_Instruction.thy ===== *)
theory System_Instruction
  imports Nonce_State
begin

section \<open>The instructions of the system program\<close>

text \<open>
  \<open>sdk/program/src/system_instruction.rs\<close> and the parts of \<open>instruction.rs\<close> it uses: the
  instruction enum, and the client functions that build instructions with their account lists.
  A seed is a Rust string and is represented by its UTF-8 bytes.
\<close>

datatype system_instruction =
    CreateAccount u64 u64 pubkey
  | Assign pubkey
  | Transfer u64
  | CreateAccountWithSeed pubkey bytes u64 u64 pubkey
  | AdvanceNonceAccount
  | WithdrawNonceAccount u64
  | InitializeNonceAccount pubkey
  | AuthorizeNonceAccount pubkey
  | Allocate u64
  | AllocateWithSeed pubkey bytes u64 pubkey
  | AssignWithSeed pubkey bytes pubkey
  | TransferWithSeed u64 bytes pubkey
  | UpgradeNonceAccount

record account_meta =
  am_pubkey :: pubkey
  am_is_signer :: bool
  am_is_writable :: bool

definition account_meta_new :: "pubkey \<Rightarrow> bool \<Rightarrow> account_meta" where
  "account_meta_new pubkey is_signer = \<lparr>am_pubkey = pubkey, am_is_signer = is_signer, am_is_writable = True\<rparr>"

definition account_meta_new_readonly :: "pubkey \<Rightarrow> bool \<Rightarrow> account_meta" where
  "account_meta_new_readonly pubkey is_signer =
     \<lparr>am_pubkey = pubkey, am_is_signer = is_signer, am_is_writable = False\<rparr>"

record instruction =
  ix_program_id :: pubkey
  ix_accounts :: "account_meta list"
  ix_data :: bytes

text \<open>\<open>bincode::serialize(data).unwrap()\<close>: \<open>None\<close> is the panic.\<close>

definition new_with_bincode ::
  "'a bincode \<Rightarrow> pubkey \<Rightarrow> 'a \<Rightarrow> account_meta list \<Rightarrow> instruction option" where
  "new_with_bincode B program_id data accounts =
     map_option (\<lambda>d. \<lparr>ix_program_id = program_id, ix_accounts = accounts, ix_data = d\<rparr>)
       (bc_serialize B data)"

subsection \<open>Builders\<close>

definition create_account_instruction ::
  "system_instruction bincode \<Rightarrow> pubkey \<Rightarrow> pubkey \<Rightarrow> u64 \<Rightarrow> u64 \<Rightarrow> pubkey \<Rightarrow> instruction option" where
  "create_account_instruction B from to lamports space owner =
     new_with_bincode B system_program_id (CreateAccount lamports space owner)
       [account_meta_new from True, account_meta_new to True]"

definition create_account_with_seed_instruction ::
  "system_instruction bincode \<Rightarrow> pubkey \<Rightarrow> pubkey \<Rightarrow> pubkey \<Rightarrow> bytes \<Rightarrow> u64 \<Rightarrow> u64 \<Rightarrow> pubkey \<Rightarrow>
     instruction option" where
  "create_account_with_seed_instruction B from to base seed lamports space owner =
     new_with_bincode B system_program_id (CreateAccountWithSeed base seed lamports space owner)
       [account_meta_new from True, account_meta_new to False, account_meta_new_readonly base True]"

definition assign_instruction :: "system_instruction bincode \<Rightarrow> pubkey \<Rightarrow> pubkey \<Rightarrow> instruction option" where
  "assign_instruction B pubkey owner =
     new_with_bincode B system_program_id (Assign owner) [account_meta_new pubkey True]"

definition assign_with_seed_instruction ::
  "system_instruction bincode \<Rightarrow> pubkey \<Rightarrow> pubkey \<Rightarrow> bytes \<Rightarrow> pubkey \<Rightarrow> instruction option" where
  "assign_with_seed_instruction B address base seed owner =
     new_with_bincode B system_program_id (AssignWithSeed base seed owner)
       [account_meta_new address False, account_meta_new_readonly base True]"

definition transfer_instruction ::
  "system_instruction bincode \<Rightarrow> pubkey \<Rightarrow> pubkey \<Rightarrow> u64 \<Rightarrow> instruction option" where
  "transfer_instruction B from to lamports =
     new_with_bincode B system_program_id (Transfer lamports)
       [account_meta_new from True, account_meta_new to False]"

definition transfer_with_seed_instruction ::
  "system_instruction bincode \<Rightarrow> pubkey \<Rightarrow> pubkey \<Rightarrow> bytes \<Rightarrow> pubkey \<Rightarrow> pubkey \<Rightarrow> u64 \<Rightarrow> instruction option" where
  "transfer_with_seed_instruction B from from_base from_seed from_owner to lamports =
     new_with_bincode B system_program_id (TransferWithSeed lamports from_seed from_owner)
       [account_meta_new from False, account_meta_new_readonly from_base True, account_meta_new to False]"

definition allocate_instruction :: "system_instruction bincode \<Rightarrow> pubkey \<Rightarrow> u64 \<Rightarrow> instruction option" where
  "allocate_instruction B pubkey space =
     new_with_bincode B system_program_id (Allocate space) [account_meta_new pubkey True]"

definition allocate_with_seed_instruction ::
  "system_instruction bincode \<Rightarrow> pubkey \<Rightarrow> pubkey \<Rightarrow> bytes \<Rightarrow> u64 \<Rightarrow> pubkey \<Rightarrow> instruction option" where
  "allocate_with_seed_instruction B address base seed space owner =
     new_with_bincode B system_program_id (AllocateWithSeed base seed space owner)
       [account_meta_new address False, account_meta_new_readonly base True]"

text \<open>The builders that return several instructions; a panic in one is a panic of the whole.\<close>

definition transfer_many ::
  "system_instruction bincode \<Rightarrow> pubkey \<Rightarrow> (pubkey \<times> u64) list \<Rightarrow> instruction list option" where
  "transfer_many B from to_lamports =
     those (map (\<lambda>(to, lamports). transfer_instruction B from to lamports) to_lamports)"

definition initialize_nonce_instruction ::
  "system_instruction bincode \<Rightarrow> pubkey \<Rightarrow> pubkey \<Rightarrow> instruction option" where
  "initialize_nonce_instruction B nonce authority =
     new_with_bincode B system_program_id (InitializeNonceAccount authority)
       [account_meta_new nonce False, account_meta_new_readonly sysvar_recent_blockhashes_id False,
        account_meta_new_readonly sysvar_rent_id False]"

definition create_nonce_account_with_seed ::
  "system_instruction bincode \<Rightarrow> pubkey \<Rightarrow> pubkey \<Rightarrow> pubkey \<Rightarrow> bytes \<Rightarrow> pubkey \<Rightarrow> u64 \<Rightarrow>
     instruction list option" where
  "create_nonce_account_with_seed B from nonce base seed authority lamports =
     those [create_account_with_seed_instruction B from nonce base seed lamports
              (of_nat nonce_state_size) system_program_id,
            initialize_nonce_instruction B nonce authority]"

definition create_nonce_account ::
  "system_instruction bincode \<Rightarrow> pubkey \<Rightarrow> pubkey \<Rightarrow> pubkey \<Rightarrow> u64 \<Rightarrow> instruction list option" where
  "create_nonce_account B from nonce authority lamports =
     those [create_account_instruction B from nonce lamports (of_nat nonce_state_size) system_program_id,
            initialize_nonce_instruction B nonce authority]"

definition advance_nonce_account_instruction ::
  "system_instruction bincode \<Rightarrow> pubkey \<Rightarrow> pubkey \<Rightarrow> instruction option" where
  "advance_nonce_account_instruction B nonce authorized =
     new_with_bincode B system_program_id AdvanceNonceAccount
       [account_meta_new nonce False, account_meta_new_readonly sysvar_recent_blockhashes_id False,
        account_meta_new_readonly authorized True]"

definition withdraw_nonce_account_instruction ::
  "system_instruction bincode \<Rightarrow> pubkey \<Rightarrow> pubkey \<Rightarrow> pubkey \<Rightarrow> u64 \<Rightarrow> instruction option" where
  "withdraw_nonce_account_instruction B nonce authorized to lamports =
     new_with_bincode B system_program_id (WithdrawNonceAccount lamports)
       [account_meta_new nonce False, account_meta_new to False,
        account_meta_new_readonly sysvar_recent_blockhashes_id False,
        account_meta_new_readonly sysvar_rent_id False, account_meta_new_readonly authorized True]"

definition authorize_nonce_account_instruction ::
  "system_instruction bincode \<Rightarrow> pubkey \<Rightarrow> pubkey \<Rightarrow> pubkey \<Rightarrow> instruction option" where
  "authorize_nonce_account_instruction B nonce authorized new_authority =
     new_with_bincode B system_program_id (AuthorizeNonceAccount new_authority)
       [account_meta_new nonce False, account_meta_new_readonly authorized True]"

definition upgrade_nonce_account_instruction ::
  "system_instruction bincode \<Rightarrow> pubkey \<Rightarrow> instruction option" where
  "upgrade_nonce_account_instruction B nonce =
     new_with_bincode B system_program_id UpgradeNonceAccount [account_meta_new nonce False]"

lemmas builder_defs = create_account_instruction_def create_account_with_seed_instruction_def
  assign_instruction_def assign_with_seed_instruction_def transfer_instruction_def
  transfer_with_seed_instruction_def allocate_instruction_def allocate_with_seed_instruction_def
  initialize_nonce_instruction_def advance_nonce_account_instruction_def
  withdraw_nonce_account_instruction_def authorize_nonce_account_instruction_def
  upgrade_nonce_account_instruction_def

subsection \<open>A codec in the layout of bincode\<close>

text \<open>
  Fixed-width little-endian integers, a 32-bit variant index, 32-byte keys and length-prefixed
  strings. The size-limited decoder rejects what needs more than the limit.
\<close>

definition put_u64 :: "u64 \<Rightarrow> bytes" where
  "put_u64 v = le_bytes 8 (unat v)"

definition put_string :: "bytes \<Rightarrow> bytes" where
  "put_string s = le_bytes 8 (length s) @ s"

definition get_nat :: "nat \<Rightarrow> bytes \<Rightarrow> (nat \<times> bytes) option" where
  "get_nat n bs = (if length bs < n then None else Some (le_value (take n bs), drop n bs))"

definition get_bytes :: "nat \<Rightarrow> bytes \<Rightarrow> (bytes \<times> bytes) option" where
  "get_bytes n bs = (if length bs < n then None else Some (take n bs, drop n bs))"

definition get_u64 :: "(u64 \<Rightarrow> bytes \<Rightarrow> 'a option) \<Rightarrow> bytes \<Rightarrow> 'a option" where
  "get_u64 k bs = (case get_nat 8 bs of None \<Rightarrow> None | Some (v, r) \<Rightarrow> k (of_nat v) r)"

definition get_pubkey :: "(pubkey \<Rightarrow> bytes \<Rightarrow> 'a option) \<Rightarrow> bytes \<Rightarrow> 'a option" where
  "get_pubkey k bs = (case get_bytes 32 bs of None \<Rightarrow> None | Some (v, r) \<Rightarrow> k v r)"

definition get_string :: "(bytes \<Rightarrow> bytes \<Rightarrow> 'a option) \<Rightarrow> bytes \<Rightarrow> 'a option" where
  "get_string k bs = (case get_nat 8 bs of None \<Rightarrow> None
     | Some (n, r) \<Rightarrow> (case get_bytes n r of None \<Rightarrow> None | Some (v, r') \<Rightarrow> k v r'))"

fun enc_system_instruction :: "system_instruction \<Rightarrow> bytes" where
  "enc_system_instruction (CreateAccount l sp o1) = le_bytes 4 0 @ put_u64 l @ put_u64 sp @ o1"
| "enc_system_instruction (Assign o1) = le_bytes 4 1 @ o1"
| "enc_system_instruction (Transfer l) = le_bytes 4 2 @ put_u64 l"
| "enc_system_instruction (CreateAccountWithSeed b s l sp o1) =
     le_bytes 4 3 @ b @ put_string s @ put_u64 l @ put_u64 sp @ o1"
| "enc_system_instruction AdvanceNonceAccount = le_bytes 4 4"
| "enc_system_instruction (WithdrawNonceAccount l) = le_bytes 4 5 @ put_u64 l"
| "enc_system_instruction (InitializeNonceAccount a) = le_bytes 4 6 @ a"
| "enc_system_instruction (AuthorizeNonceAccount a) = le_bytes 4 7 @ a"
| "enc_system_instruction (Allocate sp) = le_bytes 4 8 @ put_u64 sp"
| "enc_system_instruction (AllocateWithSeed b s sp o1) =
     le_bytes 4 9 @ b @ put_string s @ put_u64 sp @ o1"
| "enc_system_instruction (AssignWithSeed b s o1) = le_bytes 4 10 @ b @ put_string s @ o1"
| "enc_system_instruction (TransferWithSeed l s o1) = le_bytes 4 11 @ put_u64 l @ put_string s @ o1"
| "enc_system_instruction UpgradeNonceAccount = le_bytes 4 12"

definition dec_variant :: "nat \<Rightarrow> bytes \<Rightarrow> (system_instruction \<times> bytes) option" where
  "dec_variant tag =
     (if tag = 0 then get_u64 (\<lambda>l. get_u64 (\<lambda>sp. get_pubkey (\<lambda>k r. Some (CreateAccount l sp k, r))))
      else if tag = 1 then get_pubkey (\<lambda>k r. Some (Assign k, r))
      else if tag = 2 then get_u64 (\<lambda>l r. Some (Transfer l, r))
      else if tag = 3 then get_pubkey (\<lambda>b. get_string (\<lambda>s. get_u64 (\<lambda>l. get_u64 (\<lambda>sp.
             get_pubkey (\<lambda>k r. Some (CreateAccountWithSeed b s l sp k, r))))))
      else if tag = 4 then (\<lambda>r. Some (AdvanceNonceAccount, r))
      else if tag = 5 then get_u64 (\<lambda>l r. Some (WithdrawNonceAccount l, r))
      else if tag = 6 then get_pubkey (\<lambda>k r. Some (InitializeNonceAccount k, r))
      else if tag = 7 then get_pubkey (\<lambda>k r. Some (AuthorizeNonceAccount k, r))
      else if tag = 8 then get_u64 (\<lambda>sp r. Some (Allocate sp, r))
      else if tag = 9 then get_pubkey (\<lambda>b. get_string (\<lambda>s. get_u64 (\<lambda>sp.
             get_pubkey (\<lambda>k r. Some (AllocateWithSeed b s sp k, r)))))
      else if tag = 10 then get_pubkey (\<lambda>b. get_string (\<lambda>s. get_pubkey (\<lambda>k r. Some (AssignWithSeed b s k, r))))
      else if tag = 11 then get_u64 (\<lambda>l. get_string (\<lambda>s. get_pubkey (\<lambda>k r. Some (TransferWithSeed l s k, r))))
      else if tag = 12 then (\<lambda>r. Some (UpgradeNonceAccount, r))
      else (\<lambda>_. None))"

definition dec_system_instruction :: "bytes \<Rightarrow> (system_instruction \<times> bytes) option" where
  "dec_system_instruction bs =
     (case get_nat 4 bs of None \<Rightarrow> None | Some (tag, r) \<Rightarrow> dec_variant tag r)"

definition system_instruction_codec :: "system_instruction bincode" where
  "system_instruction_codec = fixint_codec enc_system_instruction dec_system_instruction"

definition limited_decode :: "u64 \<Rightarrow> bytes \<Rightarrow> system_instruction option" where
  "limited_decode limit bs =
     (case dec_system_instruction bs of
        None \<Rightarrow> None
      | Some (x, rest) \<Rightarrow> if length bs - length rest \<le> unat limit then Some x else None)"

fun wf_system_instruction :: "system_instruction \<Rightarrow> bool" where
  "wf_system_instruction (CreateAccount l sp o1) = wf_key o1"
| "wf_system_instruction (Assign o1) = wf_key o1"
| "wf_system_instruction (CreateAccountWithSeed b s l sp o1) = (wf_key b \<and> length s < 2 ^ 32 \<and> wf_key o1)"
| "wf_system_instruction (InitializeNonceAccount a) = wf_key a"
| "wf_system_instruction (AuthorizeNonceAccount a) = wf_key a"
| "wf_system_instruction (AllocateWithSeed b s sp o1) = (wf_key b \<and> length s < 2 ^ 32 \<and> wf_key o1)"
| "wf_system_instruction (AssignWithSeed b s o1) = (wf_key b \<and> length s < 2 ^ 32 \<and> wf_key o1)"
| "wf_system_instruction (TransferWithSeed l s o1) = (length s < 2 ^ 32 \<and> wf_key o1)"
| "wf_system_instruction _ = True"

lemma get_u64_put [simp]: "get_u64 k (put_u64 v @ r) = k v r"
proof -
  have "le_value (le_bytes 8 (unat v)) = unat v"
    using unsigned_less [of v] by (intro le_value_le_bytes) simp
  then show ?thesis by (simp add: get_u64_def get_nat_def put_u64_def)
qed

lemma get_pubkey_put [simp]: "wf_key v \<Longrightarrow> get_pubkey k (v @ r) = k v r"
  by (simp add: get_pubkey_def get_bytes_def wf_key_def PUBKEY_BYTES_def)

lemma get_string_put [simp]: "length v < 2 ^ 32 \<Longrightarrow> get_string k (put_string v @ r) = k v r"
  by (simp add: get_string_def get_nat_def get_bytes_def put_string_def le_value_le_bytes)

lemma get_tag [simp]: "n < 256 \<Longrightarrow> get_nat 4 (le_bytes 4 n @ r) = Some (n, r)"
  by (simp add: get_nat_def le_value_le_bytes)

lemma dec_enc_system_instruction:
  "wf_system_instruction x \<Longrightarrow> dec_system_instruction (enc_system_instruction x @ r) = Some (x, r)"
  by (cases x) (simp_all add: dec_system_instruction_def dec_variant_def)

lemma limited_decode_enc:
  "wf_system_instruction x \<Longrightarrow> length (enc_system_instruction x) \<le> unat limit \<Longrightarrow>
     limited_decode limit (enc_system_instruction x @ r) = Some x"
  by (simp add: limited_decode_def dec_enc_system_instruction)

lemma length_enc_system_instruction:
  "wf_system_instruction x \<Longrightarrow> length (enc_system_instruction x) < 2 ^ 64"
  by (cases x) (simp_all add: put_u64_def put_string_def wf_key_def PUBKEY_BYTES_def)

lemma system_instruction_codec_laws:
  "bincode_laws system_instruction_codec {x. wf_system_instruction x}"
  unfolding system_instruction_codec_def
  by (rule fixint_codec_laws) (use length_enc_system_instruction in \<open>auto simp: dec_enc_system_instruction\<close>)

text \<open>The keys an instruction carries; a decoded instruction has keys of 32 bytes.\<close>

fun instruction_keys :: "system_instruction \<Rightarrow> pubkey list" where
  "instruction_keys (CreateAccount l sp o1) = [o1]"
| "instruction_keys (Assign o1) = [o1]"
| "instruction_keys (CreateAccountWithSeed b s l sp o1) = [b, o1]"
| "instruction_keys (InitializeNonceAccount a) = [a]"
| "instruction_keys (AuthorizeNonceAccount a) = [a]"
| "instruction_keys (AllocateWithSeed b s sp o1) = [b, o1]"
| "instruction_keys (AssignWithSeed b s o1) = [b, o1]"
| "instruction_keys (TransferWithSeed l s o1) = [o1]"
| "instruction_keys _ = []"

lemma get_u64_SomeE: "get_u64 k bs = Some y \<Longrightarrow> (\<And>v r. k v r = Some y \<Longrightarrow> P) \<Longrightarrow> P"
  by (auto simp: get_u64_def split: option.splits prod.splits)

lemma get_string_SomeE: "get_string k bs = Some y \<Longrightarrow> (\<And>v r. k v r = Some y \<Longrightarrow> P) \<Longrightarrow> P"
  by (auto simp: get_string_def split: option.splits prod.splits)

lemma get_pubkey_SomeE:
  assumes "get_pubkey k bs = Some y" and P: "\<And>v r. wf_key v \<Longrightarrow> k v r = Some y \<Longrightarrow> P"
  shows P
proof (rule P)
  show "wf_key (take 32 bs)" "k (take 32 bs) (drop 32 bs) = Some y"
    using assms(1) by (auto simp: get_pubkey_def get_bytes_def wf_key_def PUBKEY_BYTES_def split: if_splits)
qed

lemma limited_decode_keys:
  assumes "limited_decode limit bs = Some x" "k \<in> set (instruction_keys x)"
  shows "wf_key k"
proof -
  from assms(1) obtain tag r rest where "dec_variant tag r = Some (x, rest)"
    by (auto simp: limited_decode_def dec_system_instruction_def split: option.splits prod.splits if_splits)
  then show ?thesis using assms(2)
    by (auto simp: dec_variant_def split: if_splits elim!: get_u64_SomeE get_string_SomeE get_pubkey_SomeE)
qed

end
