(* ===== verification/Borrowed_Account.thy ===== *)
theory Borrowed_Account
  imports Transaction_Context
begin

section \<open>Borrowed accounts\<close>

text \<open>
  \<open>BorrowedAccount\<close> of \<open>sdk/src/transaction_context.rs\<close>: the only handle through
  which a program reads and writes an account, with the access rules in its setters. The handle
  names the instruction context and the two indices; the account itself stays in the transaction
  context, which every setter threads. The capacity of the data buffer and copy-on-write sharing
  (\<open>make_data_mut\<close>, \<open>reserve\<close>, \<open>is_shared\<close>) have no counterpart: they do not
  change contents or length.
\<close>

type_synonym 'a tc_effect = "(transaction_context, instruction_error, 'a) effect"

definition MAX_PERMITTED_DATA_LENGTH :: u64 where
  "MAX_PERMITTED_DATA_LENGTH = 10 * 1024 * 1024"

definition MAX_PERMITTED_ACCOUNTS_DATA_ALLOCATIONS_PER_TRANSACTION :: int where
  "MAX_PERMITTED_ACCOUNTS_DATA_ALLOCATIONS_PER_TRANSACTION = uint MAX_PERMITTED_DATA_LENGTH * 2"

record borrowed_account =
  ba_instruction_context :: instruction_context
  ba_index_in_transaction :: index_of_account
  ba_index_in_instruction :: index_of_account

definition account_at :: "transaction_context \<Rightarrow> nat \<Rightarrow> account" where
  "account_at tc i = rc_value (ta_accounts (tc_accounts tc) ! i)"

definition update_account_at :: "nat \<Rightarrow> (account \<Rightarrow> account) \<Rightarrow> transaction_context \<Rightarrow> transaction_context" where
  "update_account_at i f tc = tc\<lparr>tc_accounts := (tc_accounts tc)\<lparr>ta_accounts :=
     (ta_accounts (tc_accounts tc))[i := (ta_accounts (tc_accounts tc) ! i)
        \<lparr>rc_value := f (account_at tc i)\<rparr>]\<rparr>\<rparr>"

definition set_borrow_at :: "nat \<Rightarrow> borrow_flag \<Rightarrow> transaction_context \<Rightarrow> transaction_context" where
  "set_borrow_at i b tc = tc\<lparr>tc_accounts := (tc_accounts tc)\<lparr>ta_accounts :=
     (ta_accounts (tc_accounts tc))[i := (ta_accounts (tc_accounts tc) ! i)\<lparr>rc_borrow := b\<rparr>]\<rparr>\<rparr>"

subsection \<open>Borrowing and dropping\<close>

definition try_borrow_account ::
  "instruction_context \<Rightarrow> index_of_account \<Rightarrow> index_of_account \<Rightarrow> borrowed_account tc_effect" where
  "try_borrow_account ic index_in_transaction index_in_instruction =
     bind (reads (\<lambda>tc. ok_or (ta_get (tc_accounts tc) index_in_transaction) MissingAccount)) (\<lambda>cell.
     bind (fail_if (rc_borrow cell \<noteq> UNUSED) AccountBorrowFailed) (\<lambda>_.
     bind (modify (set_borrow_at (unat index_in_transaction) WRITING)) (\<lambda>_.
     return \<lparr>ba_instruction_context = ic, ba_index_in_transaction = index_in_transaction,
       ba_index_in_instruction = index_in_instruction\<rparr>)))"

text \<open>The destructor of the \<open>RefMut\<close> inside the handle.\<close>

definition drop_account :: "borrowed_account \<Rightarrow> transaction_context \<Rightarrow> transaction_context" where
  "drop_account b = set_borrow_at (unat (ba_index_in_transaction b)) UNUSED"

definition try_borrow_program_account ::
  "instruction_context \<Rightarrow> index_of_account \<Rightarrow> borrowed_account tc_effect" where
  "try_borrow_program_account ic program_account_index =
     bind (lift (get_index_of_program_account_in_transaction ic program_account_index))
       (\<lambda>index_in_transaction. try_borrow_account ic index_in_transaction program_account_index)"

definition try_borrow_last_program_account :: "instruction_context \<Rightarrow> borrowed_account tc_effect" where
  "try_borrow_last_program_account ic =
     try_borrow_program_account ic (saturating_sub (get_number_of_program_accounts ic) 1)"

definition try_borrow_instruction_account ::
  "instruction_context \<Rightarrow> index_of_account \<Rightarrow> borrowed_account tc_effect" where
  "try_borrow_instruction_account ic instruction_account_index =
     bind (lift (get_index_of_instruction_account_in_transaction ic instruction_account_index))
       (\<lambda>index_in_transaction. try_borrow_account ic index_in_transaction
          (saturating_add (get_number_of_program_accounts ic) instruction_account_index))"

text \<open>A borrow whose handle lives to the end of a scope, however the scope is left.\<close>

definition with_instruction_account ::
  "instruction_context \<Rightarrow> index_of_account \<Rightarrow> (borrowed_account \<Rightarrow> 'a tc_effect) \<Rightarrow> 'a tc_effect" where
  "with_instruction_account ic instruction_account_index body =
     bind (try_borrow_instruction_account ic instruction_account_index)
       (\<lambda>b. finally_do (body b) (drop_account b))"

subsection \<open>Reading\<close>

definition ba_account :: "borrowed_account \<Rightarrow> transaction_context \<Rightarrow> account" where
  "ba_account b tc = account_at tc (unat (ba_index_in_transaction b))"

definition get_key :: "borrowed_account \<Rightarrow> transaction_context \<Rightarrow> pubkey" where
  "get_key b tc = tc_account_keys tc ! unat (ba_index_in_transaction b)"

definition get_owner :: "borrowed_account \<Rightarrow> transaction_context \<Rightarrow> pubkey" where
  "get_owner b tc = acc_owner (ba_account b tc)"

definition get_lamports :: "borrowed_account \<Rightarrow> transaction_context \<Rightarrow> u64" where
  "get_lamports b tc = acc_lamports (ba_account b tc)"

definition get_data :: "borrowed_account \<Rightarrow> transaction_context \<Rightarrow> bytes" where
  "get_data b tc = acc_data (ba_account b tc)"

definition is_executable :: "borrowed_account \<Rightarrow> transaction_context \<Rightarrow> bool" where
  "is_executable b tc = acc_executable (ba_account b tc)"

definition get_rent_epoch :: "borrowed_account \<Rightarrow> transaction_context \<Rightarrow> u64" where
  "get_rent_epoch b tc = acc_rent_epoch (ba_account b tc)"

definition is_signer :: "borrowed_account \<Rightarrow> bool" where
  "is_signer b =
     (let ic = ba_instruction_context b
      in if ba_index_in_instruction b < get_number_of_program_accounts ic then False
         else unwrap_or (is_instruction_account_signer ic
                (saturating_sub (ba_index_in_instruction b) (get_number_of_program_accounts ic))) False)"

definition is_writable :: "borrowed_account \<Rightarrow> bool" where
  "is_writable b =
     (let ic = ba_instruction_context b
      in if ba_index_in_instruction b < get_number_of_program_accounts ic then False
         else unwrap_or (is_instruction_account_writable ic
                (saturating_sub (ba_index_in_instruction b) (get_number_of_program_accounts ic))) False)"

definition is_owned_by_current_program :: "borrowed_account \<Rightarrow> transaction_context \<Rightarrow> bool" where
  "is_owned_by_current_program b tc =
     (case get_last_program_key (ba_instruction_context b) tc of
        Inl _ \<Rightarrow> False
      | Inr key \<Rightarrow> key = get_owner b tc)"

definition is_rent_exempt_at_data_length :: "borrowed_account \<Rightarrow> nat \<Rightarrow> transaction_context \<Rightarrow> bool" where
  "is_rent_exempt_at_data_length b data_length tc =
     is_exempt (tc_rent tc) (get_lamports b tc) data_length"

definition can_data_be_changed :: "borrowed_account \<Rightarrow> transaction_context \<Rightarrow> instruction_error + unit" where
  "can_data_be_changed b tc =
     (if is_executable b tc then Inl ExecutableDataModified
      else if \<not> is_writable b then Inl ReadonlyDataModified
      else if \<not> is_owned_by_current_program b tc then Inl ExternalAccountDataModified
      else Inr ())"

definition can_data_be_resized ::
  "borrowed_account \<Rightarrow> nat \<Rightarrow> transaction_context \<Rightarrow> instruction_error + unit" where
  "can_data_be_resized b new_length tc =
     (let old_length = length (get_data b tc);
          length_delta = i64_clamp (int new_length - int old_length)
      in if new_length \<noteq> old_length \<and> \<not> is_owned_by_current_program b tc
         then Inl AccountDataSizeChanged
         else if unat MAX_PERMITTED_DATA_LENGTH < new_length then Inl InvalidRealloc
         else if MAX_PERMITTED_ACCOUNTS_DATA_ALLOCATIONS_PER_TRANSACTION
                   < i64_clamp (tc_accounts_resize_delta tc + length_delta)
         then Inl MaxAccountsDataAllocationsExceeded
         else Inr ())"

text \<open>
  \<open>is_zeroed\<close> compares 1024-byte chunks with a constant block of zeros, then the remainder.
\<close>

function is_zeroed :: "bytes \<Rightarrow> bool" where
  "is_zeroed buf =
     (if 1024 \<le> length buf
      then take 1024 buf = replicate 1024 0 \<and> is_zeroed (drop 1024 buf)
      else buf = replicate (length buf) 0)"
  by pat_completeness auto
termination
  by (relation "measure length") auto

declare is_zeroed.simps [simp del]

subsection \<open>Writing\<close>

definition touch :: "borrowed_account \<Rightarrow> unit tc_effect" where
  "touch b =
     bind (reads (\<lambda>tc. ta_touch (tc_accounts tc) (ba_index_in_transaction b))) (\<lambda>ta.
     modify (\<lambda>tc. tc\<lparr>tc_accounts := ta\<rparr>))"

definition update_account :: "borrowed_account \<Rightarrow> (account \<Rightarrow> account) \<Rightarrow> unit tc_effect" where
  "update_account b f = modify (update_account_at (unat (ba_index_in_transaction b)) f)"

definition update_accounts_resize_delta :: "borrowed_account \<Rightarrow> nat \<Rightarrow> unit tc_effect" where
  "update_accounts_resize_delta b new_len =
     modify (\<lambda>tc. tc\<lparr>tc_accounts_resize_delta := i64_clamp (tc_accounts_resize_delta tc
       + i64_clamp (int new_len - int (length (get_data b tc))))\<rparr>)"

definition set_owner :: "borrowed_account \<Rightarrow> pubkey \<Rightarrow> unit tc_effect" where
  "set_owner b pubkey =
     bind (reads (\<lambda>tc. if \<not> is_owned_by_current_program b tc then Inl ModifiedProgramId else Inr ())) (\<lambda>_.
     bind (fail_if (\<not> is_writable b) ModifiedProgramId) (\<lambda>_.
     bind (reads (\<lambda>tc. if is_executable b tc then Inl ModifiedProgramId else Inr ())) (\<lambda>_.
     bind (reads (\<lambda>tc. if \<not> is_zeroed (get_data b tc) then Inl ModifiedProgramId else Inr ())) (\<lambda>_.
     bind (gets (get_owner b)) (\<lambda>owner.
     if owner = pubkey then return ()
     else bind (touch b) (\<lambda>_. update_account b (\<lambda>a. a\<lparr>acc_owner := pubkey\<rparr>)))))))"

definition set_lamports :: "borrowed_account \<Rightarrow> u64 \<Rightarrow> unit tc_effect" where
  "set_lamports b lamports =
     bind (reads (\<lambda>tc. if \<not> is_owned_by_current_program b tc \<and> lamports < get_lamports b tc
                       then Inl ExternalAccountLamportSpend else Inr ())) (\<lambda>_.
     bind (fail_if (\<not> is_writable b) ReadonlyLamportChange) (\<lambda>_.
     bind (reads (\<lambda>tc. if is_executable b tc then Inl ExecutableLamportChange else Inr ())) (\<lambda>_.
     bind (gets (get_lamports b)) (\<lambda>old.
     if old = lamports then return ()
     else bind (touch b) (\<lambda>_. update_account b (\<lambda>a. a\<lparr>acc_lamports := lamports\<rparr>))))))"

definition checked_add_lamports :: "borrowed_account \<Rightarrow> u64 \<Rightarrow> unit tc_effect" where
  "checked_add_lamports b lamports =
     bind (reads (\<lambda>tc. ok_or (checked_add (get_lamports b tc) lamports) ArithmeticOverflow))
       (\<lambda>v. set_lamports b v)"

definition checked_sub_lamports :: "borrowed_account \<Rightarrow> u64 \<Rightarrow> unit tc_effect" where
  "checked_sub_lamports b lamports =
     bind (reads (\<lambda>tc. ok_or (checked_sub (get_lamports b tc) lamports) ArithmeticOverflow))
       (\<lambda>v. set_lamports b v)"

text \<open>
  \<open>get_data_mut\<close> checks and touches, then hands out the slice; what the caller writes through
  the slice is \<open>write_data\<close>, which cannot change the length.
\<close>

definition get_data_mut :: "borrowed_account \<Rightarrow> unit tc_effect" where
  "get_data_mut b = bind (reads (can_data_be_changed b)) (\<lambda>_. touch b)"

definition slice_write :: "bytes \<Rightarrow> bytes \<Rightarrow> bytes" where
  "slice_write old bs = take (length old) bs @ drop (length bs) old"

definition write_data :: "borrowed_account \<Rightarrow> bytes \<Rightarrow> unit tc_effect" where
  "write_data b bs = update_account b (\<lambda>a. a\<lparr>acc_data := slice_write (acc_data a) bs\<rparr>)"

definition set_data :: "borrowed_account \<Rightarrow> bytes \<Rightarrow> unit tc_effect" where
  "set_data b data =
     bind (reads (can_data_be_resized b (length data))) (\<lambda>_.
     bind (reads (can_data_be_changed b)) (\<lambda>_.
     bind (touch b) (\<lambda>_.
     bind (update_accounts_resize_delta b (length data)) (\<lambda>_.
     update_account b (\<lambda>a. a\<lparr>acc_data := data\<rparr>)))))"

definition set_data_from_slice :: "borrowed_account \<Rightarrow> bytes \<Rightarrow> unit tc_effect" where
  "set_data_from_slice b data =
     bind (reads (can_data_be_resized b (length data))) (\<lambda>_.
     bind (reads (can_data_be_changed b)) (\<lambda>_.
     bind (touch b) (\<lambda>_.
     bind (update_accounts_resize_delta b (length data)) (\<lambda>_.
     update_account b (\<lambda>a. a\<lparr>acc_data := data\<rparr>)))))"

definition set_data_length :: "borrowed_account \<Rightarrow> nat \<Rightarrow> unit tc_effect" where
  "set_data_length b new_length =
     bind (reads (can_data_be_resized b new_length)) (\<lambda>_.
     bind (reads (can_data_be_changed b)) (\<lambda>_.
     bind (gets (get_data b)) (\<lambda>data.
     if length data = new_length then return ()
     else bind (touch b) (\<lambda>_.
          bind (update_accounts_resize_delta b new_length) (\<lambda>_.
          update_account b (\<lambda>a. a\<lparr>acc_data := vec_resize (acc_data a) new_length 0\<rparr>))))))"

definition extend_from_slice :: "borrowed_account \<Rightarrow> bytes \<Rightarrow> unit tc_effect" where
  "extend_from_slice b data =
     bind (gets (\<lambda>tc. usize_saturating_add (length (get_data b tc)) (length data))) (\<lambda>new_len.
     bind (reads (can_data_be_resized b new_len)) (\<lambda>_.
     bind (reads (can_data_be_changed b)) (\<lambda>_.
     if data = [] then return ()
     else bind (touch b) (\<lambda>_.
          bind (update_accounts_resize_delta b new_len) (\<lambda>_.
          update_account b (\<lambda>a. a\<lparr>acc_data := acc_data a @ data\<rparr>))))))"

definition get_state :: "'a bincode \<Rightarrow> borrowed_account \<Rightarrow> transaction_context \<Rightarrow> instruction_error + 'a" where
  "get_state B b tc = ok_or (bc_deserialize B (get_data b tc)) InvalidAccountData"

definition set_state :: "'a bincode \<Rightarrow> borrowed_account \<Rightarrow> 'a \<Rightarrow> unit tc_effect" where
  "set_state B b state =
     bind (get_data_mut b) (\<lambda>_.
     bind (gets (get_data b)) (\<lambda>data.
     bind (lift (ok_or (bc_serialized_size B state) GenericError)) (\<lambda>serialized_size.
     bind (fail_if (of_nat (length data) < serialized_size) AccountDataTooSmall) (\<lambda>_.
     bind (lift (ok_or (bc_serialize_into B state data) GenericError)) (\<lambda>bs.
     write_data b bs)))))"

definition set_executable :: "borrowed_account \<Rightarrow> bool \<Rightarrow> unit tc_effect" where
  "set_executable b executable =
     bind (reads (\<lambda>tc. if \<not> is_exempt (tc_rent tc) (get_lamports b tc) (length (get_data b tc))
                       then Inl ExecutableAccountNotRentExempt else Inr ())) (\<lambda>_.
     bind (reads (\<lambda>tc. if \<not> is_owned_by_current_program b tc then Inl ExecutableModified else Inr ())) (\<lambda>_.
     bind (fail_if (\<not> is_writable b) ExecutableModified) (\<lambda>_.
     bind (reads (\<lambda>tc. if is_executable b tc \<and> \<not> executable then Inl ExecutableModified else Inr ())) (\<lambda>_.
     bind (gets (is_executable b)) (\<lambda>old.
     if old = executable then return ()
     else bind (touch b) (\<lambda>_. update_account b (\<lambda>a. a\<lparr>acc_executable := executable\<rparr>)))))))"

subsection \<open>Basic facts\<close>

abbreviation num_accounts :: "transaction_context \<Rightarrow> nat" where
  "num_accounts tc \<equiv> length (ta_accounts (tc_accounts tc))"

abbreviation touched :: "transaction_context \<Rightarrow> bool list" where
  "touched tc \<equiv> ta_touched_flags (tc_accounts tc)"

definition borrow_flags :: "transaction_context \<Rightarrow> borrow_flag list" where
  "borrow_flags tc = map rc_borrow (ta_accounts (tc_accounts tc))"

text \<open>What a program cannot reach through a borrowed account.\<close>

definition tc_frame :: "transaction_context \<Rightarrow>
    pubkey list \<times> nat \<times> nat \<times> nat list \<times> instruction_context list \<times> transaction_return_data \<times> rent" where
  "tc_frame tc = (tc_account_keys tc, tc_instruction_stack_capacity tc,
     tc_instruction_trace_capacity tc, tc_instruction_stack tc, tc_instruction_trace tc,
     tc_return_data tc, tc_rent tc)"

lemma is_zeroed_iff: "is_zeroed buf \<longleftrightarrow> (\<forall>b\<in>set buf. b = 0)"
proof (induction buf rule: is_zeroed.induct)
  case (1 buf)
  have rep: "xs = replicate (length xs) 0 \<longleftrightarrow> (\<forall>b\<in>set xs. b = 0)" for xs :: bytes
    by (metis replicate_length_same in_set_replicate)
  show ?case
  proof (cases "1024 \<le> length buf")
    case True
    have "set buf = set (take 1024 buf) \<union> set (drop 1024 buf)"
      by (metis append_take_drop_id set_append)
    moreover have "take 1024 buf = replicate 1024 0 \<longleftrightarrow> (\<forall>b\<in>set (take 1024 buf). b = 0)"
      using rep [of "take 1024 buf"] True by simp
    ultimately show ?thesis using True "1.IH" by (auto simp: is_zeroed.simps [of buf])
  next
    case False
    then show ?thesis using rep [of buf] by (simp add: is_zeroed.simps [of buf])
  qed
qed

lemma length_slice_write [simp]: "length (slice_write old bs) = length old"
  by (simp add: slice_write_def)

lemma slice_write_same_length: "length bs = length old \<Longrightarrow> slice_write old bs = bs"
  by (simp add: slice_write_def)

lemma num_accounts_update [simp]:
  "num_accounts (update_account_at i f tc) = num_accounts tc"
  "num_accounts (set_borrow_at i b tc) = num_accounts tc"
  by (simp_all add: update_account_at_def set_borrow_at_def)

lemma touched_update [simp]:
  "touched (update_account_at i f tc) = touched tc"
  "touched (set_borrow_at i b tc) = touched tc"
  by (simp_all add: update_account_at_def set_borrow_at_def)

lemma tc_frame_update [simp]:
  "tc_frame (update_account_at i f tc) = tc_frame tc"
  "tc_frame (set_borrow_at i b tc) = tc_frame tc"
  "tc_frame (tc\<lparr>tc_accounts := ta\<rparr>) = tc_frame tc"
  "tc_frame (tc\<lparr>tc_accounts_resize_delta := d\<rparr>) = tc_frame tc"
  by (simp_all add: tc_frame_def update_account_at_def set_borrow_at_def)

lemma resize_delta_update [simp]:
  "tc_accounts_resize_delta (update_account_at i f tc) = tc_accounts_resize_delta tc"
  "tc_accounts_resize_delta (set_borrow_at i b tc) = tc_accounts_resize_delta tc"
  by (simp_all add: update_account_at_def set_borrow_at_def)

lemma account_at_update:
  "account_at (update_account_at i f tc) j =
     (if i = j \<and> i < num_accounts tc then f (account_at tc j) else account_at tc j)"
  by (cases "i = j"; cases "i < num_accounts tc")
    (auto simp: account_at_def update_account_at_def list_update_beyond)

lemma account_at_set_borrow [simp]: "account_at (set_borrow_at i b tc) j = account_at tc j"
  by (cases "i = j"; cases "i < num_accounts tc")
    (auto simp: account_at_def set_borrow_at_def list_update_beyond)

lemma account_at_delta [simp]:
  "account_at (tc\<lparr>tc_accounts_resize_delta := d\<rparr>) j = account_at tc j"
  by (simp add: account_at_def)

lemma borrow_flags_update [simp]: "borrow_flags (update_account_at i f tc) = borrow_flags tc"
  by (cases "i < num_accounts tc")
    (auto simp: borrow_flags_def update_account_at_def list_eq_iff_nth_eq nth_list_update)

lemma borrow_flags_set_borrow [simp]:
  "borrow_flags (set_borrow_at i b tc) = (borrow_flags tc)[i := b]"
  by (cases "i < num_accounts tc")
    (auto simp: borrow_flags_def set_borrow_at_def list_eq_iff_nth_eq nth_list_update)

lemma borrow_flags_delta [simp]:
  "borrow_flags (tc\<lparr>tc_accounts_resize_delta := d\<rparr>) = borrow_flags tc"
  by (simp add: borrow_flags_def)

lemma touch_apply:
  "touch b tc =
     (if unat (ba_index_in_transaction b) < length (touched tc)
      then (Inr (), tc\<lparr>tc_accounts := (tc_accounts tc)\<lparr>ta_touched_flags :=
              (touched tc)[unat (ba_index_in_transaction b) := True]\<rparr>\<rparr>)
      else (Inl NotEnoughAccountKeys, tc))"
  by (simp add: touch_def ta_touch_def effect_simps)

end
