(* ===== verification/Access_Control.thy ===== *)
theory Access_Control
  imports Borrowed_Account
begin

section \<open>What a program can do through borrowed accounts\<close>

text \<open>
  The contract of the \<open>BorrowedAccount\<close> interface, as one relation between the transaction
  context before and after any sequence of calls made on behalf of one instruction, whether the
  sequence ended with a result or with an error:
  \<^item> keys, rent, capacities, the instruction stack and trace and the return data are untouched;
  \<^item> an account that is not writable in the instruction, or that is executable, is unchanged;
  \<^item> an account not owned by the running program keeps its owner, data and executable flag
    and its balance does not fall;
  \<^item> every account that changed is marked as touched, and no mark is lost;
  \<^item> the resize delta stays equal to the growth of the total data and below the
    per-transaction limit, and no account exceeds the length limit;
  \<^item> no borrow is left outstanding.
  The relation is a preorder, so the effect rules of the prelude apply to it; each setter stays
  inside it, and a handler composed of setters does too.
\<close>

definition writable_at :: "instruction_context \<Rightarrow> nat \<Rightarrow> bool" where
  "writable_at ic k \<longleftrightarrow> (\<exists>ia\<in>set (ic_instruction_accounts ic).
     ia_is_writable ia \<and> unat (ia_index_in_transaction ia) = k)"

definition owned_at :: "instruction_context \<Rightarrow> transaction_context \<Rightarrow> nat \<Rightarrow> bool" where
  "owned_at ic tc k \<longleftrightarrow> get_last_program_key ic tc = Inr (acc_owner (account_at tc k))"

definition account_step :: "bool \<Rightarrow> bool \<Rightarrow> account \<Rightarrow> account \<Rightarrow> bool" where
  "account_step w own a a' \<longleftrightarrow>
     (\<not> w \<longrightarrow> a' = a) \<and> (acc_executable a \<longrightarrow> a' = a) \<and>
     (\<not> own \<longrightarrow> acc_owner a' = acc_owner a \<and> acc_data a' = acc_data a \<and>
        acc_executable a' = acc_executable a \<and> acc_lamports a \<le> acc_lamports a') \<and>
     acc_rent_epoch a' = acc_rent_epoch a"

definition access_rel :: "instruction_context \<Rightarrow> transaction_context \<Rightarrow> transaction_context \<Rightarrow> bool" where
  "access_rel ic tc tc' \<longleftrightarrow>
     tc_frame tc' = tc_frame tc \<and> num_accounts tc' = num_accounts tc \<and>
     length (touched tc') = length (touched tc) \<and>
     (\<forall>k. account_step (writable_at ic k) (owned_at ic tc k) (account_at tc k) (account_at tc' k)) \<and>
     (\<forall>k<length (touched tc). touched tc ! k \<longrightarrow> touched tc' ! k) \<and>
     (\<forall>k. account_at tc' k \<noteq> account_at tc k \<longrightarrow> k < length (touched tc') \<and> touched tc' ! k)"

definition data_total :: "transaction_context \<Rightarrow> nat" where
  "data_total tc = (\<Sum>k<num_accounts tc. length (acc_data (account_at tc k)))"

definition resize_inv :: "nat \<Rightarrow> transaction_context \<Rightarrow> bool" where
  "resize_inv initial tc \<longleftrightarrow>
     num_accounts tc \<le> 2 ^ 16 \<and> length (touched tc) = num_accounts tc \<and> initial \<le> 2 ^ 16 * unat MAX_PERMITTED_DATA_LENGTH \<and>
     (\<forall>k<num_accounts tc. length (acc_data (account_at tc k)) \<le> unat MAX_PERMITTED_DATA_LENGTH) \<and>
     tc_accounts_resize_delta tc = int (data_total tc) - int initial \<and>
     tc_accounts_resize_delta tc \<le> MAX_PERMITTED_ACCOUNTS_DATA_ALLOCATIONS_PER_TRANSACTION"

definition resize_rel :: "transaction_context \<Rightarrow> transaction_context \<Rightarrow> bool" where
  "resize_rel tc tc' \<longleftrightarrow> (\<forall>initial. resize_inv initial tc \<longrightarrow> resize_inv initial tc')"

definition safe_rel :: "instruction_context \<Rightarrow> transaction_context \<Rightarrow> transaction_context \<Rightarrow> bool" where
  "safe_rel ic tc tc' \<longleftrightarrow>
     access_rel ic tc tc' \<and> resize_rel tc tc' \<and> borrow_flags tc' = borrow_flags tc"

lemma unat_MAX_PERMITTED: "unat MAX_PERMITTED_DATA_LENGTH = 10485760"
  by (simp add: MAX_PERMITTED_DATA_LENGTH_def)

lemma MAX_ALLOCATIONS: "MAX_PERMITTED_ACCOUNTS_DATA_ALLOCATIONS_PER_TRANSACTION = 20971520"
  by (simp add: MAX_PERMITTED_ACCOUNTS_DATA_ALLOCATIONS_PER_TRANSACTION_def
      MAX_PERMITTED_DATA_LENGTH_def)

lemma get_last_program_key_frame:
  "tc_frame tc' = tc_frame tc \<Longrightarrow> get_last_program_key ic tc' = get_last_program_key ic tc"
  by (simp add: get_last_program_key_def get_key_of_account_at_index_def tc_frame_def)

lemma account_step_refl: "account_step w own a a"
  by (simp add: account_step_def)

lemma account_step_trans:
  assumes "account_step w own a a'" "account_step w own' a' a''"
    and "\<not> own \<Longrightarrow> acc_owner a' = acc_owner a \<Longrightarrow> \<not> own'"
  shows "account_step w own a a''"
  using assms by (auto simp: account_step_def)

lemma access_rel_refl: "access_rel ic tc tc"
  by (simp add: access_rel_def account_step_refl)

lemma access_rel_trans:
  assumes "access_rel ic s t" "access_rel ic t u"
  shows "access_rel ic s u"
proof -
  have key: "get_last_program_key ic t = get_last_program_key ic s"
    using assms(1) by (intro get_last_program_key_frame) (simp add: access_rel_def)
  have "account_step (writable_at ic k) (owned_at ic s k) (account_at s k) (account_at u k)" for k
  proof (rule account_step_trans)
    show "account_step (writable_at ic k) (owned_at ic s k) (account_at s k) (account_at t k)"
      using assms(1) by (simp add: access_rel_def)
    show "account_step (writable_at ic k) (owned_at ic t k) (account_at t k) (account_at u k)"
      using assms(2) by (simp add: access_rel_def)
  qed (simp add: owned_at_def key)
  moreover have "account_at u k \<noteq> account_at s k \<longrightarrow> k < length (touched u) \<and> touched u ! k" for k
  proof (cases "account_at t k = account_at s k")
    case True
    then show ?thesis using assms(2) unfolding access_rel_def by metis
  next
    case False
    then have "k < length (touched t)" "touched t ! k" using assms(1) by (auto simp: access_rel_def)
    then show ?thesis using assms(2) by (simp add: access_rel_def)
  qed
  ultimately show ?thesis using assms by (simp add: access_rel_def)
qed

lemma safe_rel_refl: "safe_rel ic tc tc"
  by (simp add: safe_rel_def access_rel_refl resize_rel_def)

lemma safe_rel_trans: "safe_rel ic s t \<Longrightarrow> safe_rel ic t u \<Longrightarrow> safe_rel ic s u"
  by (auto simp: safe_rel_def resize_rel_def intro: access_rel_trans)

interpretation safe: effect_preorder "safe_rel ic" for ic
  by unfold_locales (fact safe_rel_refl, fact safe_rel_trans)

subsection \<open>Handles\<close>

text \<open>
  The two index spaces of a handle must not overflow 16 bits together: program accounts are
  numbered before instruction accounts. Transactions are far below that.
\<close>

definition wf_ic :: "instruction_context \<Rightarrow> bool" where
  "wf_ic ic \<longleftrightarrow> length (ic_program_accounts ic) + length (ic_instruction_accounts ic) < 2 ^ 16"

definition handle_of :: "instruction_context \<Rightarrow> borrowed_account \<Rightarrow> bool" where
  "handle_of ic b \<longleftrightarrow> ba_instruction_context b = ic \<and>
     (is_writable b \<longrightarrow> writable_at ic (unat (ba_index_in_transaction b)))"

lemma instruction_index_roundtrip:
  assumes "wf_ic ic" "unat i < length (ic_instruction_accounts ic)"
  shows "\<not> saturating_add (get_number_of_program_accounts ic) i < get_number_of_program_accounts ic"
    and "saturating_sub (saturating_add (get_number_of_program_accounts ic) i)
           (get_number_of_program_accounts ic) = i"
proof -
  let ?n = "get_number_of_program_accounts ic"
  have n: "unat ?n = length (ic_program_accounts ic)"
    using assms(1) by (simp add: get_number_of_program_accounts_def wf_ic_def unat_of_nat)
  have plus: "unat (saturating_add ?n i) = unat ?n + unat i"
    using assms n by (simp add: unat_saturating_add wf_ic_def)
  then show "\<not> saturating_add ?n i < ?n" by (simp add: word_less_nat_alt)
  show "saturating_sub (saturating_add ?n i) ?n = i"
    by (rule word_unat_eq_iff [THEN iffD2]) (simp add: unat_saturating_sub plus)
qed

lemma is_writable_instruction_handle:
  assumes "wf_ic ic" "unat i < length (ic_instruction_accounts ic)"
    and "ba_instruction_context b = ic"
    and "ba_index_in_instruction b = saturating_add (get_number_of_program_accounts ic) i"
  shows "is_writable b = ia_is_writable (ic_instruction_accounts ic ! unat i)"
    and "is_signer b = ia_is_signer (ic_instruction_accounts ic ! unat i)"
  using assms instruction_index_roundtrip [OF assms(1,2)]
  by (simp_all add: is_writable_def is_signer_def Let_def is_instruction_account_writable_def
      is_instruction_account_signer_def vec_get_def)

text \<open>The result of a borrow: the cell was free, and the handle names it.\<close>

lemma try_borrow_instruction_account_okE:
  assumes "try_borrow_instruction_account ic i tc = (Inr b, tc')"
  obtains k where "unat i < length (ic_instruction_accounts ic)"
    "k = ia_index_in_transaction (ic_instruction_accounts ic ! unat i)"
    "b = \<lparr>ba_instruction_context = ic, ba_index_in_transaction = k,
      ba_index_in_instruction = saturating_add (get_number_of_program_accounts ic) i\<rparr>"
    "unat k < num_accounts tc" "borrow_flags tc ! unat k = UNUSED"
    "tc' = set_borrow_at (unat k) WRITING tc"
  using assms
  by (auto simp: try_borrow_instruction_account_def try_borrow_account_def effect_simps
      get_index_of_instruction_account_in_transaction_def ta_get_def borrow_flags_def vec_get_def
      split: if_splits option.splits sum.splits prod.splits)

lemma try_borrow_instruction_account_err:
  assumes "try_borrow_instruction_account ic i tc = (Inl e, tc')"
  shows "tc' = tc"
  using assms
  by (auto simp: try_borrow_instruction_account_def try_borrow_account_def effect_simps
      get_index_of_instruction_account_in_transaction_def ta_get_def vec_get_def
      split: if_splits option.splits sum.splits prod.splits)

lemma handle_of_instruction_account:
  assumes "wf_ic ic" "try_borrow_instruction_account ic i tc = (Inr b, tc')"
  shows "handle_of ic b"
proof -
  from assms(2) obtain k where k: "unat i < length (ic_instruction_accounts ic)"
    "k = ia_index_in_transaction (ic_instruction_accounts ic ! unat i)"
    "b = \<lparr>ba_instruction_context = ic, ba_index_in_transaction = k,
      ba_index_in_instruction = saturating_add (get_number_of_program_accounts ic) i\<rparr>"
    by (rule try_borrow_instruction_account_okE)
  then have "is_writable b = ia_is_writable (ic_instruction_accounts ic ! unat i)"
    using assms(1) by (intro is_writable_instruction_handle) auto
  then show ?thesis using k by (auto simp: handle_of_def writable_at_def)
qed

text \<open>A scoped borrow adds nothing to what its body does.\<close>

lemma resize_rel_set_borrow: "resize_rel tc (set_borrow_at i f tc)"
  by (simp add: resize_rel_def resize_inv_def data_total_def)

lemma access_rel_set_borrow: "access_rel ic tc (set_borrow_at i f tc)"
  by (simp add: access_rel_def account_step_refl)

lemma keeps_with_instruction_account:
  assumes "wf_ic ic" and body: "\<And>b. handle_of ic b \<Longrightarrow> keeps (safe_rel ic) (body b)"
  shows "keeps (safe_rel ic) (with_instruction_account ic i body)"
proof (rule keepsI)
  fix tc
  obtain r t where bor: "try_borrow_instruction_account ic i tc = (r, t)"
    by (cases "try_borrow_instruction_account ic i tc")
  show "safe_rel ic tc (snd (with_instruction_account ic i body tc))"
  proof (cases r)
    case (Inl e)
    with bor have "t = tc" by (simp add: try_borrow_instruction_account_err)
    then show ?thesis using bor Inl by (simp add: with_instruction_account_def effect_simps safe_rel_refl)
  next
    case (Inr b)
    with bor have b: "try_borrow_instruction_account ic i tc = (Inr b, t)" by simp
    then obtain k where k: "b = \<lparr>ba_instruction_context = ic, ba_index_in_transaction = k,
        ba_index_in_instruction = saturating_add (get_number_of_program_accounts ic) i\<rparr>"
      "unat k < num_accounts tc" "borrow_flags tc ! unat k = UNUSED"
      "t = set_borrow_at (unat k) WRITING tc"
      by (rule try_borrow_instruction_account_okE)
    define u where "u = snd (body b t)"
    have tu: "safe_rel ic t u"
      using body [OF handle_of_instruction_account [OF assms(1) b]] by (simp add: keeps_def u_def)
    have res: "snd (with_instruction_account ic i body tc) = set_borrow_at (unat k) UNUSED u"
      using b k(1) by (simp add: with_instruction_account_def effect_simps drop_account_def u_def)
    have "access_rel ic tc (set_borrow_at (unat k) UNUSED u)"
      using access_rel_set_borrow [of ic tc] access_rel_set_borrow [of ic u] tu k(4)
      by (meson access_rel_trans safe_rel_def)
    moreover have "resize_rel tc (set_borrow_at (unat k) UNUSED u)"
      using resize_rel_set_borrow [of tc] resize_rel_set_borrow [of u] tu k(4)
      unfolding resize_rel_def safe_rel_def by blast
    moreover have "borrow_flags (set_borrow_at (unat k) UNUSED u) = borrow_flags tc"
    proof -
      have "borrow_flags u = (borrow_flags tc)[unat k := WRITING]"
        using tu k(4) by (simp add: safe_rel_def)
      then show ?thesis using k(3) by (metis borrow_flags_set_borrow list_update_id list_update_overwrite)
    qed
    ultimately show ?thesis using res by (simp add: safe_rel_def)
  qed
qed

subsection \<open>The setters\<close>

definition mark_touched :: "nat \<Rightarrow> transaction_context \<Rightarrow> transaction_context" where
  "mark_touched i tc = tc\<lparr>tc_accounts := (tc_accounts tc)\<lparr>ta_touched_flags := (touched tc)[i := True]\<rparr>\<rparr>"

lemma mark_touched_simps [simp]:
  "tc_frame (mark_touched i tc) = tc_frame tc"
  "num_accounts (mark_touched i tc) = num_accounts tc"
  "touched (mark_touched i tc) = (touched tc)[i := True]"
  "account_at (mark_touched i tc) k = account_at tc k"
  "borrow_flags (mark_touched i tc) = borrow_flags tc"
  "tc_accounts_resize_delta (mark_touched i tc) = tc_accounts_resize_delta tc"
  by (simp_all add: mark_touched_def account_at_def borrow_flags_def)

lemma touch_eval:
  "touch b tc =
     (if unat (ba_index_in_transaction b) < length (touched tc)
      then (Inr (), mark_touched (unat (ba_index_in_transaction b)) tc)
      else (Inl NotEnoughAccountKeys, tc))"
  by (simp add: touch_apply mark_touched_def)

lemma safe_rel_intro:
  assumes h: "handle_of ic b" "is_writable b" and i: "i = unat (ba_index_in_transaction b)"
    and frame: "tc_frame tc' = tc_frame tc" "num_accounts tc' = num_accounts tc"
      "borrow_flags tc' = borrow_flags tc" "i < length (touched tc)"
      "touched tc' = (touched tc)[i := True]"
    and upd: "\<And>k. account_at tc' k = (if k = i \<and> i < num_accounts tc then a' else account_at tc k)"
    and step: "account_step True (owned_at ic tc i) (account_at tc i) a'"
    and size: "resize_rel tc tc'"
  shows "safe_rel ic tc tc'"
proof -
  have "writable_at ic i" using h i by (simp add: handle_of_def)
  then have "account_step (writable_at ic k) (owned_at ic tc k) (account_at tc k) (account_at tc' k)" for k
    using upd [of k] step by (auto simp: account_step_refl)
  moreover have "account_at tc' k \<noteq> account_at tc k \<Longrightarrow> k < length (touched tc') \<and> touched tc' ! k" for k
    using upd [of k] frame by (auto split: if_splits)
  moreover have "touched tc ! k \<Longrightarrow> k < length (touched tc) \<Longrightarrow> touched tc' ! k" for k
    using frame by (cases "k = i") auto
  ultimately show ?thesis using frame size by (simp add: safe_rel_def access_rel_def)
qed

lemma resize_rel_same_lengths:
  assumes "num_accounts tc' = num_accounts tc" and "length (touched tc') = length (touched tc)"
    and "tc_accounts_resize_delta tc' = tc_accounts_resize_delta tc"
    and "\<And>k. length (acc_data (account_at tc' k)) = length (acc_data (account_at tc k))"
  shows "resize_rel tc tc'"
  using assms by (simp add: resize_rel_def resize_inv_def data_total_def)

lemma safe_rel_touch:
  assumes "unat (ba_index_in_transaction b) < length (touched tc)"
  shows "safe_rel ic tc (mark_touched (unat (ba_index_in_transaction b)) tc)"
  using assms
  by (auto simp: safe_rel_def access_rel_def account_step_refl nth_list_update
      intro: resize_rel_same_lengths)

lemma is_owned_owned_at:
  "handle_of ic b \<Longrightarrow>
     is_owned_by_current_program b tc \<longleftrightarrow> owned_at ic tc (unat (ba_index_in_transaction b))"
  by (auto simp: is_owned_by_current_program_def owned_at_def handle_of_def get_owner_def
      ba_account_def split: sum.splits)

lemmas ba_reads = get_lamports_def get_data_def get_owner_def is_executable_def ba_account_def

text \<open>An update of one account that leaves the length of its data alone.\<close>

lemma safe_rel_update:
  assumes "handle_of ic b" "is_writable b" "unat (ba_index_in_transaction b) < length (touched tc)"
    and "account_step True (owned_at ic tc (unat (ba_index_in_transaction b))) (ba_account b tc)
           (f (ba_account b tc))"
    and "length (acc_data (f (ba_account b tc))) = length (acc_data (ba_account b tc))"
  shows "safe_rel ic tc (update_account_at (unat (ba_index_in_transaction b)) f
           (mark_touched (unat (ba_index_in_transaction b)) tc))" (is "safe_rel ic tc ?tc'")
proof (rule safe_rel_intro [OF assms(1,2) refl])
  show "resize_rel tc ?tc'"
    using assms(5) by (intro resize_rel_same_lengths) (auto simp: account_at_update ba_account_def)
  show "account_at ?tc' k = (if k = unat (ba_index_in_transaction b) \<and>
      unat (ba_index_in_transaction b) < num_accounts tc then f (ba_account b tc) else account_at tc k)" for k
    by (auto simp: account_at_update ba_account_def)
qed (use assms in \<open>simp_all add: ba_account_def\<close>)

lemma keeps_set_lamports: "handle_of ic b \<Longrightarrow> keeps (safe_rel ic) (set_lamports b v)"
  by (rule keepsI)
    (auto simp: set_lamports_def effect_simps touch_eval update_account_def safe_rel_refl
      is_owned_owned_at ba_reads account_step_def intro!: safe_rel_update split: if_splits)

lemma keeps_set_owner: "handle_of ic b \<Longrightarrow> keeps (safe_rel ic) (set_owner b k)"
  by (rule keepsI)
    (auto simp: set_owner_def effect_simps touch_eval update_account_def safe_rel_refl
      is_owned_owned_at ba_reads account_step_def intro!: safe_rel_update split: if_splits)

lemma keeps_set_executable: "handle_of ic b \<Longrightarrow> keeps (safe_rel ic) (set_executable b e)"
  by (rule keepsI)
    (auto simp: set_executable_def effect_simps touch_eval update_account_def safe_rel_refl
      is_owned_owned_at ba_reads account_step_def intro!: safe_rel_update split: if_splits)

lemma keeps_checked_add_lamports: "handle_of ic b \<Longrightarrow> keeps (safe_rel ic) (checked_add_lamports b v)"
  unfolding checked_add_lamports_def
  by (intro safe.keeps_bind safe.keeps_reads keeps_set_lamports)

lemma keeps_checked_sub_lamports: "handle_of ic b \<Longrightarrow> keeps (safe_rel ic) (checked_sub_lamports b v)"
  unfolding checked_sub_lamports_def
  by (intro safe.keeps_bind safe.keeps_reads keeps_set_lamports)

text \<open>
  Writing through the slice that \<open>get_data_mut\<close> returned: the account is already marked, so
  only the pair of calls stays in the relation.
\<close>

lemma keeps_set_state: "handle_of ic b \<Longrightarrow> keeps (safe_rel ic) (set_state B b st)"
  by (rule keepsI)
    (auto simp: set_state_def get_data_mut_def can_data_be_changed_def write_data_def effect_simps
      touch_eval update_account_def safe_rel_refl is_owned_owned_at ba_reads account_step_def ok_or_def
      intro!: safe_rel_update safe_rel_touch split: if_splits option.splits)

lemma data_total_bound:
  assumes "resize_inv initial tc"
  shows "data_total tc \<le> 2 ^ 16 * unat MAX_PERMITTED_DATA_LENGTH"
proof -
  have "data_total tc \<le> (\<Sum>k<num_accounts tc. unat MAX_PERMITTED_DATA_LENGTH)"
    unfolding data_total_def using assms by (intro sum_mono) (simp add: resize_inv_def)
  also have "\<dots> \<le> 2 ^ 16 * unat MAX_PERMITTED_DATA_LENGTH"
    using assms by (simp add: resize_inv_def)
  finally show ?thesis .
qed

lemma data_total_update:
  assumes "i < num_accounts tc" "num_accounts tc' = num_accounts tc"
    and "\<And>k. account_at tc' k = (if k = i then a' else account_at tc k)"
  shows "data_total tc' + length (acc_data (account_at tc i)) = data_total tc + length (acc_data a')"
proof -
  have split: "(\<Sum>k<num_accounts tc. g k) = g i + (\<Sum>k\<in>{..<num_accounts tc} - {i}. g k)"
    for g :: "nat \<Rightarrow> nat"
    using assms(1) by (simp add: sum.remove)
  have "(\<Sum>k\<in>{..<num_accounts tc} - {i}. length (acc_data (account_at tc' k))) =
        (\<Sum>k\<in>{..<num_accounts tc} - {i}. length (acc_data (account_at tc k)))"
    by (rule sum.cong) (auto simp: assms(3))
  then show ?thesis
    unfolding data_total_def assms(2) by (simp only: split) (simp add: assms(3))
qed

lemma resize_rel_resize:
  assumes can: "can_data_be_resized b n tc = Inr ()" and n: "length (acc_data a') = n"
    and i: "i = unat (ba_index_in_transaction b)" "i < length (touched tc)"
    and same: "num_accounts tc' = num_accounts tc" "length (touched tc') = length (touched tc)"
    and upd: "\<And>k. account_at tc' k = (if k = i \<and> i < num_accounts tc then a' else account_at tc k)"
    and delta: "tc_accounts_resize_delta tc' = i64_clamp (tc_accounts_resize_delta tc
      + i64_clamp (int n - int (length (get_data b tc))))"
  shows "resize_rel tc tc'"
  unfolding resize_rel_def
proof (intro allI impI)
  fix initial
  assume inv: "resize_inv initial tc"
  then have num: "i < num_accounts tc" using i by (simp add: resize_inv_def)
  let ?old = "length (acc_data (account_at tc i))"
  have old: "?old \<le> unat MAX_PERMITTED_DATA_LENGTH" using inv num by (simp add: resize_inv_def)
  have nmax: "n \<le> unat MAX_PERMITTED_DATA_LENGTH"
    and dmax: "i64_clamp (tc_accounts_resize_delta tc + i64_clamp (int n - int ?old))
      \<le> MAX_PERMITTED_ACCOUNTS_DATA_ALLOCATIONS_PER_TRANSACTION"
    using can i by (auto simp: can_data_be_resized_def Let_def ba_reads split: if_splits)
  have tot: "data_total tc' + ?old = data_total tc + n"
    using data_total_update [OF num same(1)] upd num n by simp
  have d: "tc_accounts_resize_delta tc = int (data_total tc) - int initial"
    "initial \<le> 2 ^ 16 * unat MAX_PERMITTED_DATA_LENGTH" using inv by (auto simp: resize_inv_def)
  have c1: "i64_clamp (int n - int ?old) = int n - int ?old"
    using old nmax by (intro i64_clamp_id) (simp_all add: unat_MAX_PERMITTED)
  have c2: "i64_clamp (tc_accounts_resize_delta tc + (int n - int ?old))
      = tc_accounts_resize_delta tc + (int n - int ?old)"
    using d old nmax data_total_bound [OF inv]
    by (intro i64_clamp_id) (simp_all add: unat_MAX_PERMITTED)
  have "tc_accounts_resize_delta tc' = int (data_total tc') - int initial"
    using delta i(1) c1 c2 d(1) tot by (simp add: ba_reads)
  moreover have "tc_accounts_resize_delta tc' \<le> MAX_PERMITTED_ACCOUNTS_DATA_ALLOCATIONS_PER_TRANSACTION"
    using delta dmax i(1) by (simp add: ba_reads)
  ultimately show "resize_inv initial tc'"
    using inv same nmax n upd by (auto simp: resize_inv_def)
qed

text \<open>The shape all resizing setters share after their checks.\<close>

lemma safe_rel_resize:
  assumes h: "handle_of ic b" and can: "can_data_be_resized b n tc = Inr ()" "can_data_be_changed b tc = Inr ()"
    and t: "unat (ba_index_in_transaction b) < length (touched tc)"
    and f: "f (ba_account b tc) = (ba_account b tc)\<lparr>acc_data := d\<rparr>" "length d = n"
  shows "safe_rel ic tc (update_account_at (unat (ba_index_in_transaction b)) f
     (snd (update_accounts_resize_delta b n (mark_touched (unat (ba_index_in_transaction b)) tc))))"
    (is "safe_rel ic tc ?tc'")
proof -
  have w: "is_writable b" and own: "owned_at ic tc (unat (ba_index_in_transaction b))"
    and ex: "\<not> is_executable b tc"
    using can(2) h by (auto simp: can_data_be_changed_def is_owned_owned_at split: if_splits)
  have upd: "account_at ?tc' k = (if k = unat (ba_index_in_transaction b) \<and>
      unat (ba_index_in_transaction b) < num_accounts tc then f (ba_account b tc) else account_at tc k)" for k
    by (auto simp: account_at_update ba_account_def update_accounts_resize_delta_def effect_simps)
  show ?thesis
  proof (rule safe_rel_intro [OF h w refl _ _ _ t _ upd])
    show "resize_rel tc ?tc'"
      by (rule resize_rel_resize [OF can(1) _ refl t _ _ upd])
        (use f in \<open>simp_all add: update_accounts_resize_delta_def effect_simps ba_reads\<close>)
  qed (use own ex f in \<open>simp_all add: update_accounts_resize_delta_def effect_simps account_step_def
      ba_reads\<close>)
qed

lemma keeps_set_data_length: "handle_of ic b \<Longrightarrow> keeps (safe_rel ic) (set_data_length b n)"
proof (rule keepsI)
  fix tc
  assume h: "handle_of ic b"
  show "safe_rel ic tc (snd (set_data_length b n tc))"
  proof (cases "can_data_be_resized b n tc = Inr () \<and> can_data_be_changed b tc = Inr ()")
    case True
    then show ?thesis
      using safe_rel_resize [OF h, of n tc "\<lambda>a. a\<lparr>acc_data := vec_resize (acc_data a) n 0\<rparr>"]
      by (auto simp: set_data_length_def effect_simps touch_eval update_account_def
          update_accounts_resize_delta_def safe_rel_refl ba_reads)
  next
    case False
    then show ?thesis by (auto simp: set_data_length_def effect_simps safe_rel_refl split: sum.splits)
  qed
qed

lemma keeps_set_data_from_slice: "handle_of ic b \<Longrightarrow> keeps (safe_rel ic) (set_data_from_slice b d)"
proof (rule keepsI)
  fix tc
  assume h: "handle_of ic b"
  show "safe_rel ic tc (snd (set_data_from_slice b d tc))"
  proof (cases "can_data_be_resized b (length d) tc = Inr () \<and> can_data_be_changed b tc = Inr ()")
    case True
    then show ?thesis
      using safe_rel_resize [OF h, of "length d" tc "\<lambda>a. a\<lparr>acc_data := d\<rparr>"]
      by (auto simp: set_data_from_slice_def effect_simps touch_eval update_account_def
          update_accounts_resize_delta_def safe_rel_refl ba_reads)
  next
    case False
    then show ?thesis by (auto simp: set_data_from_slice_def effect_simps safe_rel_refl split: sum.splits)
  qed
qed

lemma set_data_eq: "set_data = set_data_from_slice"
  by (simp add: fun_eq_iff set_data_def set_data_from_slice_def)

lemma keeps_extend_from_slice: "handle_of ic b \<Longrightarrow> keeps (safe_rel ic) (extend_from_slice b d)"
proof (rule keepsI)
  fix tc
  assume h: "handle_of ic b"
  let ?n = "usize_saturating_add (length (get_data b tc)) (length d)"
  show "safe_rel ic tc (snd (extend_from_slice b d tc))"
  proof (cases "can_data_be_resized b ?n tc = Inr () \<and> can_data_be_changed b tc = Inr ()")
    case True
    then have "?n \<le> 10485760"
      by (auto simp: can_data_be_resized_def Let_def unat_MAX_PERMITTED split: if_splits)
    then have "?n = length (get_data b tc @ d)"
      by (auto simp: usize_saturating_add_def usize_max_def min_def split: if_splits)
    with True show ?thesis
      using safe_rel_resize [OF h, of ?n tc "\<lambda>a. a\<lparr>acc_data := acc_data a @ d\<rparr>" "get_data b tc @ d"]
      by (auto simp: extend_from_slice_def effect_simps touch_eval update_account_def
          update_accounts_resize_delta_def safe_rel_refl ba_reads)
  next
    case False
    then show ?thesis by (auto simp: extend_from_slice_def effect_simps safe_rel_refl split: sum.splits)
  qed
qed

text \<open>The rules with which a handler is taken apart.\<close>

lemmas safe_handler_rules = safe.keeps_rules keeps_set_lamports keeps_set_owner keeps_set_executable
  keeps_checked_add_lamports keeps_checked_sub_lamports keeps_set_state keeps_set_data_length
  keeps_set_data_from_slice keeps_extend_from_slice keeps_with_instruction_account

end
