(* ===== verification/System_Program.thy ===== *)
theory System_Program
  imports System_Instruction Sysvar_Cache Access_Control
begin

section \<open>The system program\<close>

text \<open>
  \<open>programs/system/src/system_processor.rs\<close> and \<open>system_instruction.rs\<close>: the handlers of the
  thirteen system instructions, as effects on the transaction context. What a handler reads of
  the invoke context is the record below; the hash function, the codec of nonce states and the
  size-limited decoder of instructions are the third-party functions the code calls. A borrow of
  an account is scoped: it is released when its scope ends, with a result or with an error.
\<close>

record invoke_env =
  env_sha256 :: "bytes \<Rightarrow> hash"
  env_nonce :: "nonce_versions bincode"
  env_decode :: "u64 \<Rightarrow> bytes \<Rightarrow> system_instruction option"
  env_blockhash :: hash
  env_lamports_per_signature :: u64
  env_sysvar_cache :: sysvar_cache
  env_logging :: bool

definition PACKET_DATA_SIZE :: u64 where
  "PACKET_DATA_SIZE = 1280 - 40 - 8"

definition limited_deserialize :: "(u64 \<Rightarrow> bytes \<Rightarrow> 'a option) \<Rightarrow> bytes \<Rightarrow> instruction_error + 'a" where
  "limited_deserialize decode instruction_data =
     ok_or (decode PACKET_DATA_SIZE instruction_data) InvalidInstructionData"

definition key_of_instruction_account ::
  "instruction_context \<Rightarrow> index_of_account \<Rightarrow> transaction_context \<Rightarrow> instruction_error + pubkey" where
  "key_of_instruction_account ic i tc =
     and_then (get_index_of_instruction_account_in_transaction ic i) (get_key_of_account_at_index tc)"

text \<open>
  A log message evaluates its arguments only when a log collector is installed; an argument that
  fails with \<open>?\<close> makes the handler return that error.
\<close>

definition log_key :: "invoke_env \<Rightarrow> instruction_context \<Rightarrow> index_of_account \<Rightarrow> unit tc_effect" where
  "log_key env ic i =
     (if env_logging env then bind (reads (key_of_instruction_account ic i)) (\<lambda>_. return ()) else return ())"

subsection \<open>Addresses\<close>

record address =
  adr_address :: pubkey
  adr_base :: "pubkey option"

definition address_is_signer :: "address \<Rightarrow> pubkey list \<Rightarrow> bool" where
  "address_is_signer a signers =
     (case adr_base a of Some base \<Rightarrow> base \<in> set signers | None \<Rightarrow> adr_address a \<in> set signers)"

definition address_create ::
  "invoke_env \<Rightarrow> pubkey \<Rightarrow> (pubkey \<times> bytes \<times> pubkey) option \<Rightarrow> instruction_error + address" where
  "address_create env addr with_seed =
     (case with_seed of
        None \<Rightarrow> Inr \<lparr>adr_address = addr, adr_base = None\<rparr>
      | Some (base, seed, owner) \<Rightarrow>
          and_then (map_err pubkey_error_into (create_with_seed (env_sha256 env) base seed owner))
            (\<lambda>address_with_seed.
               if addr \<noteq> address_with_seed then Inl (system_error_into system_error.AddressWithSeedMismatch)
               else Inr \<lparr>adr_address = addr, adr_base = Some base\<rparr>))"

subsection \<open>Accounts\<close>

definition allocate :: "borrowed_account \<Rightarrow> address \<Rightarrow> u64 \<Rightarrow> pubkey list \<Rightarrow> unit tc_effect" where
  "allocate b addr space signers =
     bind (fail_if (\<not> address_is_signer addr signers) MissingRequiredSignature) (\<lambda>_.
     bind (gets (\<lambda>tc. get_data b tc \<noteq> [] \<or> get_owner b tc \<noteq> system_program_id)) (\<lambda>in_use.
     bind (fail_if in_use (system_error_into system_error.AccountAlreadyInUse)) (\<lambda>_.
     bind (fail_if (MAX_PERMITTED_DATA_LENGTH < space)
            (system_error_into system_error.InvalidAccountDataLength)) (\<lambda>_.
       set_data_length b (unat space)))))"

definition assign :: "borrowed_account \<Rightarrow> address \<Rightarrow> pubkey \<Rightarrow> pubkey list \<Rightarrow> unit tc_effect" where
  "assign b addr owner signers =
     bind (gets (\<lambda>tc. get_owner b tc = owner)) (\<lambda>same.
       if same then return ()
       else
         bind (fail_if (\<not> address_is_signer addr signers) MissingRequiredSignature) (\<lambda>_.
           set_owner b owner))"

definition allocate_and_assign ::
  "borrowed_account \<Rightarrow> address \<Rightarrow> u64 \<Rightarrow> pubkey \<Rightarrow> pubkey list \<Rightarrow> unit tc_effect" where
  "allocate_and_assign b addr space owner signers =
     bind (allocate b addr space signers) (\<lambda>_. assign b addr owner signers)"

subsection \<open>Transfers\<close>

definition transfer_verified ::
  "index_of_account \<Rightarrow> index_of_account \<Rightarrow> u64 \<Rightarrow> instruction_context \<Rightarrow> unit tc_effect" where
  "transfer_verified from_index to_index lamports ic =
     bind (with_instruction_account ic from_index (\<lambda>from.
             bind (gets (get_data from)) (\<lambda>data.
             bind (fail_if (data \<noteq> []) InvalidArgument) (\<lambda>_.
             bind (gets (get_lamports from)) (\<lambda>balance.
             bind (fail_if (balance < lamports)
                    (system_error_into system_error.ResultWithNegativeLamports)) (\<lambda>_.
               checked_sub_lamports from lamports)))))) (\<lambda>_.
       with_instruction_account ic to_index (\<lambda>to. checked_add_lamports to lamports))"

definition transfer ::
  "invoke_env \<Rightarrow> index_of_account \<Rightarrow> index_of_account \<Rightarrow> u64 \<Rightarrow> instruction_context \<Rightarrow> unit tc_effect" where
  "transfer env from_index to_index lamports ic =
     bind (lift (is_instruction_account_signer ic from_index)) (\<lambda>signed.
       if \<not> signed then bind (log_key env ic from_index) (\<lambda>_. throw MissingRequiredSignature)
       else transfer_verified from_index to_index lamports ic)"

definition transfer_with_seed ::
  "invoke_env \<Rightarrow> index_of_account \<Rightarrow> index_of_account \<Rightarrow> bytes \<Rightarrow> pubkey \<Rightarrow> index_of_account \<Rightarrow> u64 \<Rightarrow>
     instruction_context \<Rightarrow> unit tc_effect" where
  "transfer_with_seed env from_index from_base_index from_seed from_owner to_index lamports ic =
     bind (lift (is_instruction_account_signer ic from_base_index)) (\<lambda>signed.
       if \<not> signed then bind (log_key env ic from_base_index) (\<lambda>_. throw MissingRequiredSignature)
       else
         bind (reads (key_of_instruction_account ic from_base_index)) (\<lambda>base.
         bind (lift (map_err pubkey_error_into
                 (create_with_seed (env_sha256 env) base from_seed from_owner))) (\<lambda>address_from_seed.
         bind (reads (key_of_instruction_account ic from_index)) (\<lambda>from_key.
         bind (fail_if (from_key \<noteq> address_from_seed)
                (system_error_into system_error.AddressWithSeedMismatch)) (\<lambda>_.
           transfer_verified from_index to_index lamports ic)))))"

definition create_account ::
  "invoke_env \<Rightarrow> index_of_account \<Rightarrow> index_of_account \<Rightarrow> address \<Rightarrow> u64 \<Rightarrow> u64 \<Rightarrow> pubkey \<Rightarrow> pubkey list \<Rightarrow>
     instruction_context \<Rightarrow> unit tc_effect" where
  "create_account env from_index to_index to_address lamports space owner signers ic =
     bind (with_instruction_account ic to_index (\<lambda>to.
             bind (gets (get_lamports to)) (\<lambda>balance.
             bind (fail_if (0 < balance) (system_error_into system_error.AccountAlreadyInUse)) (\<lambda>_.
               allocate_and_assign to to_address space owner signers)))) (\<lambda>_.
       transfer env from_index to_index lamports ic)"

subsection \<open>Nonce accounts\<close>

definition advance_nonce_account :: "invoke_env \<Rightarrow> borrowed_account \<Rightarrow> pubkey list \<Rightarrow> unit tc_effect" where
  "advance_nonce_account env b signers =
     bind (fail_if (\<not> is_writable b) InvalidArgument) (\<lambda>_.
     bind (reads (get_state (env_nonce env) b)) (\<lambda>state.
       case versions_state state of
         Initialized d \<Rightarrow>
           bind (fail_if (nd_authority d \<notin> set signers) MissingRequiredSignature) (\<lambda>_.
           let next_durable_nonce = durable_nonce_from_blockhash (env_sha256 env) (env_blockhash env) in
           bind (fail_if (nd_durable_nonce d = next_durable_nonce)
                  (system_error_into system_error.NonceBlockhashNotExpired)) (\<lambda>_.
             set_state (env_nonce env) b (versions_new (Initialized
               (nonce_data_new (nd_authority d) next_durable_nonce (env_lamports_per_signature env))))))
       | Uninitialized \<Rightarrow> throw InvalidAccountData))"

text \<open>
  \<open>withdraw_nonce_account\<close> first decides who has to sign; closing an initialized account resets
  its state before the signature is checked.
\<close>

definition withdraw_signer ::
  "invoke_env \<Rightarrow> borrowed_account \<Rightarrow> u64 \<Rightarrow> rent \<Rightarrow> nonce_versions \<Rightarrow> pubkey tc_effect" where
  "withdraw_signer env from lamports rent state =
     bind (gets (get_lamports from)) (\<lambda>balance.
       case versions_state state of
         Uninitialized \<Rightarrow>
           bind (fail_if (balance < lamports) InsufficientFunds) (\<lambda>_. gets (get_key from))
       | Initialized d \<Rightarrow>
           if lamports = balance
           then
             bind (fail_if (nd_durable_nonce d =
                     durable_nonce_from_blockhash (env_sha256 env) (env_blockhash env))
                    (system_error_into system_error.NonceBlockhashNotExpired)) (\<lambda>_.
             bind (set_state (env_nonce env) from (versions_new Uninitialized)) (\<lambda>_.
               return (nd_authority d)))
           else
             bind (gets (get_data from)) (\<lambda>data.
             bind (lift (ok_or (checked_add lamports (minimum_balance rent (length data)))
                    InsufficientFunds)) (\<lambda>amount.
             bind (fail_if (balance < amount) InsufficientFunds) (\<lambda>_.
               return (nd_authority d)))))"

definition withdraw_nonce_account ::
  "invoke_env \<Rightarrow> index_of_account \<Rightarrow> u64 \<Rightarrow> index_of_account \<Rightarrow> rent \<Rightarrow> pubkey list \<Rightarrow>
     instruction_context \<Rightarrow> unit tc_effect" where
  "withdraw_nonce_account env from_index lamports to_index rent signers ic =
     bind (with_instruction_account ic from_index (\<lambda>from.
             bind (fail_if (\<not> is_writable from) InvalidArgument) (\<lambda>_.
             bind (reads (get_state (env_nonce env) from)) (\<lambda>state.
             bind (withdraw_signer env from lamports rent state) (\<lambda>signer.
             bind (fail_if (signer \<notin> set signers) MissingRequiredSignature) (\<lambda>_.
               checked_sub_lamports from lamports)))))) (\<lambda>_.
       with_instruction_account ic to_index (\<lambda>to. checked_add_lamports to lamports))"

definition initialize_nonce_account ::
  "invoke_env \<Rightarrow> borrowed_account \<Rightarrow> pubkey \<Rightarrow> rent \<Rightarrow> unit tc_effect" where
  "initialize_nonce_account env b nonce_authority rent =
     bind (fail_if (\<not> is_writable b) InvalidArgument) (\<lambda>_.
     bind (reads (get_state (env_nonce env) b)) (\<lambda>state.
       case versions_state state of
         Uninitialized \<Rightarrow>
           bind (gets (get_data b)) (\<lambda>data.
           bind (gets (get_lamports b)) (\<lambda>balance.
           bind (fail_if (balance < minimum_balance rent (length data)) InsufficientFunds) (\<lambda>_.
             set_state (env_nonce env) b (versions_new (Initialized
               (nonce_data_new nonce_authority
                  (durable_nonce_from_blockhash (env_sha256 env) (env_blockhash env))
                  (env_lamports_per_signature env)))))))
       | Initialized _ \<Rightarrow> throw InvalidAccountData))"

definition authorize_nonce_account ::
  "invoke_env \<Rightarrow> borrowed_account \<Rightarrow> pubkey \<Rightarrow> pubkey list \<Rightarrow> unit tc_effect" where
  "authorize_nonce_account env b nonce_authority signers =
     bind (fail_if (\<not> is_writable b) InvalidArgument) (\<lambda>_.
     bind (reads (get_state (env_nonce env) b)) (\<lambda>state.
       case versions_authorize state signers nonce_authority of
         Inr versions \<Rightarrow> set_state (env_nonce env) b versions
       | Inl NonceUninitialized \<Rightarrow> throw InvalidAccountData
       | Inl (NonceMissingRequiredSignature _) \<Rightarrow> throw MissingRequiredSignature))"

definition upgrade_nonce_account :: "invoke_env \<Rightarrow> borrowed_account \<Rightarrow> unit tc_effect" where
  "upgrade_nonce_account env b =
     bind (gets (get_owner b)) (\<lambda>owner.
     bind (fail_if (owner \<noteq> system_program_id) InvalidAccountOwner) (\<lambda>_.
     bind (fail_if (\<not> is_writable b) InvalidArgument) (\<lambda>_.
     bind (reads (get_state (env_nonce env) b)) (\<lambda>nonce_versions.
       case versions_upgrade (env_sha256 env) nonce_versions of
         None \<Rightarrow> throw InvalidArgument
       | Some versions \<Rightarrow> set_state (env_nonce env) b versions))))"

subsection \<open>The entry point\<close>

text \<open>The address of an instruction account, re-derived from a seed where one is given.\<close>

definition instruction_account_address ::
  "invoke_env \<Rightarrow> instruction_context \<Rightarrow> index_of_account \<Rightarrow> (pubkey \<times> bytes \<times> pubkey) option \<Rightarrow>
     address tc_effect" where
  "instruction_account_address env ic i with_seed =
     bind (reads (key_of_instruction_account ic i)) (\<lambda>key. lift (address_create env key with_seed))"

fun execute_instruction ::
  "invoke_env \<Rightarrow> instruction_context \<Rightarrow> pubkey list \<Rightarrow> system_instruction \<Rightarrow> unit tc_effect" where
  "execute_instruction env ic signers (CreateAccount lamports space owner) =
     bind (lift (check_number_of_instruction_accounts ic 2)) (\<lambda>_.
     bind (instruction_account_address env ic 1 None) (\<lambda>to_address.
       create_account env 0 1 to_address lamports space owner signers ic))"
| "execute_instruction env ic signers (CreateAccountWithSeed base seed lamports space owner) =
     bind (lift (check_number_of_instruction_accounts ic 2)) (\<lambda>_.
     bind (instruction_account_address env ic 1 (Some (base, seed, owner))) (\<lambda>to_address.
       create_account env 0 1 to_address lamports space owner signers ic))"
| "execute_instruction env ic signers (Assign owner) =
     bind (lift (check_number_of_instruction_accounts ic 1)) (\<lambda>_.
       with_instruction_account ic 0 (\<lambda>b.
         bind (instruction_account_address env ic 0 None) (\<lambda>addr. assign b addr owner signers)))"
| "execute_instruction env ic signers (Transfer lamports) =
     bind (lift (check_number_of_instruction_accounts ic 2)) (\<lambda>_. transfer env 0 1 lamports ic)"
| "execute_instruction env ic signers (TransferWithSeed lamports from_seed from_owner) =
     bind (lift (check_number_of_instruction_accounts ic 3)) (\<lambda>_.
       transfer_with_seed env 0 1 from_seed from_owner 2 lamports ic)"
| "execute_instruction env ic signers AdvanceNonceAccount =
     bind (lift (check_number_of_instruction_accounts ic 1)) (\<lambda>_.
       with_instruction_account ic 0 (\<lambda>me.
         bind (reads (checked_recent_blockhashes (env_sysvar_cache env) ic 1)) (\<lambda>recent_blockhashes.
         bind (fail_if (recent_blockhashes = [])
                (system_error_into system_error.NonceNoRecentBlockhashes)) (\<lambda>_.
           advance_nonce_account env me signers))))"
| "execute_instruction env ic signers (WithdrawNonceAccount lamports) =
     bind (lift (check_number_of_instruction_accounts ic 2)) (\<lambda>_.
     bind (reads (checked_recent_blockhashes (env_sysvar_cache env) ic 2)) (\<lambda>_.
     bind (reads (checked_rent (env_sysvar_cache env) ic 3)) (\<lambda>rent.
       withdraw_nonce_account env 0 lamports 1 rent signers ic)))"
| "execute_instruction env ic signers (InitializeNonceAccount authorized) =
     bind (lift (check_number_of_instruction_accounts ic 1)) (\<lambda>_.
       with_instruction_account ic 0 (\<lambda>me.
         bind (reads (checked_recent_blockhashes (env_sysvar_cache env) ic 1)) (\<lambda>recent_blockhashes.
         bind (fail_if (recent_blockhashes = [])
                (system_error_into system_error.NonceNoRecentBlockhashes)) (\<lambda>_.
         bind (reads (checked_rent (env_sysvar_cache env) ic 2)) (\<lambda>rent.
           initialize_nonce_account env me authorized rent)))))"
| "execute_instruction env ic signers (AuthorizeNonceAccount nonce_authority) =
     bind (lift (check_number_of_instruction_accounts ic 1)) (\<lambda>_.
       with_instruction_account ic 0 (\<lambda>me. authorize_nonce_account env me nonce_authority signers))"
| "execute_instruction env ic signers UpgradeNonceAccount =
     bind (lift (check_number_of_instruction_accounts ic 1)) (\<lambda>_.
       with_instruction_account ic 0 (\<lambda>nonce_account. upgrade_nonce_account env nonce_account))"
| "execute_instruction env ic signers (Allocate space) =
     bind (lift (check_number_of_instruction_accounts ic 1)) (\<lambda>_.
       with_instruction_account ic 0 (\<lambda>b.
         bind (instruction_account_address env ic 0 None) (\<lambda>addr. allocate b addr space signers)))"
| "execute_instruction env ic signers (AllocateWithSeed base seed space owner) =
     bind (lift (check_number_of_instruction_accounts ic 1)) (\<lambda>_.
       with_instruction_account ic 0 (\<lambda>b.
         bind (instruction_account_address env ic 0 (Some (base, seed, owner))) (\<lambda>addr.
           allocate_and_assign b addr space owner signers)))"
| "execute_instruction env ic signers (AssignWithSeed base seed owner) =
     bind (lift (check_number_of_instruction_accounts ic 1)) (\<lambda>_.
       with_instruction_account ic 0 (\<lambda>b.
         bind (instruction_account_address env ic 0 (Some (base, seed, owner))) (\<lambda>addr.
           assign b addr owner signers)))"

definition system_process_instruction :: "invoke_env \<Rightarrow> unit tc_effect" where
  "system_process_instruction env =
     bind (reads get_current_instruction_context) (\<lambda>ic.
     bind (lift (limited_deserialize (env_decode env) (ic_instruction_data ic))) (\<lambda>instruction.
     bind (reads (get_signers ic)) (\<lambda>signers.
       execute_instruction env ic signers instruction)))"

subsection \<open>The handlers stay inside the access contract\<close>

lemma keeps_nonce_state:
  "keeps R n \<Longrightarrow> (\<And>d. keeps R (f d)) \<Longrightarrow> keeps R (case v of Uninitialized \<Rightarrow> n | Initialized d \<Rightarrow> f d)"
  by (cases v) auto

lemma keeps_authorize_error:
  "(\<And>k. keeps R (f k)) \<Longrightarrow> keeps R n \<Longrightarrow>
     keeps R (case v of NonceMissingRequiredSignature k \<Rightarrow> f k | NonceUninitialized \<Rightarrow> n)"
  by (cases v) auto

lemmas system_rules = safe_handler_rules keeps_nonce_state keeps_authorize_error

lemma keeps_log_key: "keeps (safe_rel ic) (log_key env ic' i)"
  unfolding log_key_def by (intro system_rules)

lemma keeps_allocate: "handle_of ic b \<Longrightarrow> keeps (safe_rel ic) (allocate b addr space signers)"
  unfolding allocate_def by (intro system_rules)

lemma keeps_assign: "handle_of ic b \<Longrightarrow> keeps (safe_rel ic) (assign b addr owner signers)"
  unfolding assign_def by (intro system_rules)

lemma keeps_allocate_and_assign:
  "handle_of ic b \<Longrightarrow> keeps (safe_rel ic) (allocate_and_assign b addr space owner signers)"
  unfolding allocate_and_assign_def by (intro system_rules keeps_allocate keeps_assign)

lemma keeps_transfer_verified: "wf_ic ic \<Longrightarrow> keeps (safe_rel ic) (transfer_verified i j lamports ic)"
  unfolding transfer_verified_def by (intro system_rules) auto

lemma keeps_transfer: "wf_ic ic \<Longrightarrow> keeps (safe_rel ic) (transfer env i j lamports ic)"
  unfolding transfer_def by (intro system_rules keeps_log_key keeps_transfer_verified)

lemma keeps_transfer_with_seed:
  "wf_ic ic \<Longrightarrow> keeps (safe_rel ic) (transfer_with_seed env i b seed owner j lamports ic)"
  unfolding transfer_with_seed_def by (intro system_rules keeps_log_key keeps_transfer_verified)

lemma keeps_create_account:
  "wf_ic ic \<Longrightarrow> keeps (safe_rel ic) (create_account env i j addr lamports space owner signers ic)"
  unfolding create_account_def by (intro system_rules keeps_allocate_and_assign keeps_transfer) auto

lemma keeps_advance: "handle_of ic b \<Longrightarrow> keeps (safe_rel ic) (advance_nonce_account env b signers)"
  unfolding advance_nonce_account_def Let_def by (intro system_rules)

lemma keeps_withdraw_signer:
  "handle_of ic b \<Longrightarrow> keeps (safe_rel ic) (withdraw_signer env b lamports rent state)"
  unfolding withdraw_signer_def by (intro system_rules)

lemma keeps_withdraw:
  "wf_ic ic \<Longrightarrow> keeps (safe_rel ic) (withdraw_nonce_account env i lamports j rent signers ic)"
  unfolding withdraw_nonce_account_def by (intro system_rules keeps_withdraw_signer) auto

lemma keeps_initialize:
  "handle_of ic b \<Longrightarrow> keeps (safe_rel ic) (initialize_nonce_account env b authority rent)"
  unfolding initialize_nonce_account_def by (intro system_rules)

lemma keeps_authorize:
  "handle_of ic b \<Longrightarrow> keeps (safe_rel ic) (authorize_nonce_account env b authority signers)"
  unfolding authorize_nonce_account_def by (intro system_rules)

lemma keeps_upgrade: "handle_of ic b \<Longrightarrow> keeps (safe_rel ic) (upgrade_nonce_account env b)"
  unfolding upgrade_nonce_account_def by (intro system_rules)

lemma keeps_instruction_account_address:
  "keeps (safe_rel ic) (instruction_account_address env ic' i with_seed)"
  unfolding instruction_account_address_def by (intro system_rules)

lemma keeps_execute_instruction:
  "wf_ic ic \<Longrightarrow> keeps (safe_rel ic) (execute_instruction env ic signers instruction)"
  by (cases instruction)
    (simp_all only: execute_instruction.simps,
     (intro system_rules keeps_instruction_account_address keeps_allocate keeps_assign
       keeps_allocate_and_assign keeps_transfer keeps_transfer_with_seed keeps_create_account
       keeps_advance keeps_withdraw keeps_initialize keeps_authorize keeps_upgrade; assumption)+)

end
