(* ===== verification/Invoke_Context.thy ===== *)
theory Invoke_Context
  imports System_Program
begin

section \<open>The invoke context\<close>

text \<open>
  \<open>program-runtime/src/invoke_context.rs\<close>: frames of the invocation stack, preparation of a
  cross-program invocation, and the execution of one instruction. A built-in program is an effect
  on the invoke context; the table of loaded programs is a parameter, so that a program may itself
  invoke others. Timings, the usage counters of programs and the virtual machine that wraps the
  call of a built-in are left out. The out-parameter for the consumed compute units is a field.
\<close>

record compute_budget =
  cb_compute_unit_limit :: u64
  cb_max_invoke_stack_height :: nat
  cb_max_instruction_trace_length :: nat

record bpf_allocator =
  al_len :: u64
  al_pos :: u64

record syscall_context =
  sy_allocator :: bpf_allocator
  sy_trace_log :: "u64 list list"

record invoke_context =
  iv_transaction_context :: transaction_context
  iv_compute_budget :: compute_budget
  iv_current_compute_budget :: compute_budget
  iv_compute_meter :: u64
  iv_syscall_context :: "syscall_context option list"
  iv_traces :: "u64 list list list"
  iv_compute_units_consumed :: u64

type_synonym 'a iv_effect = "(invoke_context, instruction_error, 'a) effect"

datatype loaded_program = Builtin "unit iv_effect option" | NotBuiltin

type_synonym program_table = "pubkey \<Rightarrow> loaded_program option"

definition invoke_context_new :: "transaction_context \<Rightarrow> compute_budget \<Rightarrow> invoke_context" where
  "invoke_context_new tc budget =
     \<lparr>iv_transaction_context = tc, iv_compute_budget = budget, iv_current_compute_budget = budget,
      iv_compute_meter = cb_compute_unit_limit budget, iv_syscall_context = [], iv_traces = [],
      iv_compute_units_consumed = 0\<rparr>"

definition find_program_in_cache :: "program_table \<Rightarrow> program_table \<Rightarrow> pubkey \<Rightarrow> loaded_program option" where
  "find_program_in_cache programs_modified_by_tx programs_loaded_for_tx_batch pubkey =
     (case programs_modified_by_tx pubkey of
        Some p \<Rightarrow> Some p
      | None \<Rightarrow> programs_loaded_for_tx_batch pubkey)"

text \<open>An operation of the transaction context, on the invoke context that holds it.\<close>

definition on_tc :: "'a tc_effect \<Rightarrow> 'a iv_effect" where
  "on_tc m = (\<lambda>iv. case m (iv_transaction_context iv) of
     (r, tc) \<Rightarrow> (r, iv\<lparr>iv_transaction_context := tc\<rparr>))"

definition get_remaining :: "invoke_context \<Rightarrow> u64" where
  "get_remaining iv = iv_compute_meter iv"

definition consume :: "u64 \<Rightarrow> invoke_context \<Rightarrow> invoke_context" where
  "consume amount iv = iv\<lparr>iv_compute_meter := saturating_sub (iv_compute_meter iv) amount\<rparr>"

definition consume_checked :: "u64 \<Rightarrow> unit iv_effect" where
  "consume_checked amount =
     bind (gets (\<lambda>iv. iv_compute_meter iv < amount)) (\<lambda>exceeded.
     bind (modify (\<lambda>iv. iv\<lparr>iv_compute_meter := saturating_sub (iv_compute_meter iv) amount\<rparr>)) (\<lambda>_.
       fail_if exceeded ComputationalBudgetExceeded))"

text \<open>The wrapper that \<open>declare_process_instruction!\<close> puts around a built-in.\<close>

definition declare_process_instruction :: "u64 \<Rightarrow> unit iv_effect \<Rightarrow> unit iv_effect" where
  "declare_process_instruction cu_to_consume inner =
     bind (if 0 < cu_to_consume then consume_checked cu_to_consume else return ()) (\<lambda>_. inner)"

subsection \<open>The allocator of a program's heap\<close>

definition bpf_allocator_new :: "u64 \<Rightarrow> bpf_allocator" where
  "bpf_allocator_new len = \<lparr>al_len = len, al_pos = 0\<rparr>"

text \<open>The start of the heap region is a constant of the virtual machine and a parameter.
  The number of bytes from a position to the next multiple of the alignment.\<close>

definition align_offset :: "u64 \<Rightarrow> u64 \<Rightarrow> u64" where
  "align_offset pos align = (if pos mod align = 0 then 0 else align - pos mod align)"

definition bpf_alloc :: "u64 \<Rightarrow> u64 \<Rightarrow> u64 \<Rightarrow> bpf_allocator \<Rightarrow> u64 option \<times> bpf_allocator" where
  "bpf_alloc heap_start layout_size layout_align a =
     (let bytes_to_align = align_offset (al_pos a) layout_align
      in if saturating_add (saturating_add (al_pos a) bytes_to_align) layout_size \<le> al_len a
         then (let pos = saturating_add (al_pos a) bytes_to_align
               in (Some (saturating_add heap_start pos), a\<lparr>al_pos := saturating_add pos layout_size\<rparr>))
         else (None, a))"

subsection \<open>Stack frames\<close>

definition borrowed_program_key :: "instruction_context \<Rightarrow> transaction_context \<Rightarrow> instruction_error + pubkey" where
  "borrowed_program_key ic tc =
     (case try_borrow_last_program_account ic tc of
        (Inl e, _) \<Rightarrow> Inl e
      | (Inr b, tc') \<Rightarrow> Inr (get_key b tc'))"

definition program_at_level :: "transaction_context \<Rightarrow> pubkey \<Rightarrow> nat \<Rightarrow> bool" where
  "program_at_level tc program_id level =
     unwrap_or (and_then (get_instruction_context_at_nesting_level tc level)
       (\<lambda>ic. and_then (borrowed_program_key ic tc) (\<lambda>key. Inr (key = program_id)))) False"

definition program_is_current :: "transaction_context \<Rightarrow> pubkey \<Rightarrow> bool" where
  "program_is_current tc program_id =
     unwrap_or (and_then (get_current_instruction_context tc)
       (\<lambda>ic. and_then (borrowed_program_key ic tc) (\<lambda>key. Inr (key = program_id)))) False"

definition invoke_push :: "unit iv_effect" where
  "invoke_push =
     bind (reads (\<lambda>iv. let tc = iv_transaction_context iv in
             get_instruction_context_at_index_in_trace tc (get_instruction_trace_length tc))) (\<lambda>ic.
     bind (reads (\<lambda>iv. map_err (\<lambda>_. UnsupportedProgramId)
             (get_last_program_key ic (iv_transaction_context iv)))) (\<lambda>program_id.
     bind (gets (\<lambda>iv. get_instruction_context_stack_height (iv_transaction_context iv))) (\<lambda>height.
     bind (if height = 0
           then modify (\<lambda>iv. iv\<lparr>iv_current_compute_budget := iv_compute_budget iv\<rparr>)
           else
             bind (gets (\<lambda>iv. list_ex (program_at_level (iv_transaction_context iv) program_id) [0..<height])) (\<lambda>contains.
             bind (gets (\<lambda>iv. program_is_current (iv_transaction_context iv) program_id)) (\<lambda>is_last.
               fail_if (contains \<and> \<not> is_last) ReentrancyNotAllowed))) (\<lambda>_.
     bind (modify (\<lambda>iv. iv\<lparr>iv_syscall_context := iv_syscall_context iv @ [None]\<rparr>)) (\<lambda>_.
       on_tc tc_push)))))"

definition invoke_pop :: "unit iv_effect" where
  "invoke_pop =
     bind (modify (\<lambda>iv.
       if iv_syscall_context iv = [] then iv
       else
         (case last (iv_syscall_context iv) of
            None \<Rightarrow> iv\<lparr>iv_syscall_context := butlast (iv_syscall_context iv)\<rparr>
          | Some sc \<Rightarrow> iv\<lparr>iv_syscall_context := butlast (iv_syscall_context iv),
              iv_traces := iv_traces iv @ [sy_trace_log sc]\<rparr>))) (\<lambda>_.
       on_tc tc_pop)"

definition invoke_get_stack_height :: "invoke_context \<Rightarrow> nat" where
  "invoke_get_stack_height iv = get_instruction_context_stack_height (iv_transaction_context iv)"

definition set_syscall_context :: "syscall_context \<Rightarrow> unit iv_effect" where
  "set_syscall_context sc = (\<lambda>iv.
     if iv_syscall_context iv = [] then (Inl CallDepth, iv)
     else (Inr (), iv\<lparr>iv_syscall_context := butlast (iv_syscall_context iv) @ [Some sc]\<rparr>))"

definition get_syscall_context :: "invoke_context \<Rightarrow> instruction_error + syscall_context" where
  "get_syscall_context iv =
     (if iv_syscall_context iv = [] then Inl CallDepth else ok_or (last (iv_syscall_context iv)) CallDepth)"

subsection \<open>Cross-program invocation\<close>

text \<open>
  \<open>prepare_instruction\<close>: the accounts of the instruction are looked up in the transaction and in
  the caller, duplicates are merged with the union of their privileges, and each merged account is
  compared with the caller's.
\<close>

fun dedup_accounts ::
  "transaction_context \<Rightarrow> instruction_context \<Rightarrow> account_meta list \<Rightarrow> nat \<Rightarrow>
     instruction_account list \<Rightarrow> nat list \<Rightarrow> instruction_error + (instruction_account list \<times> nat list)" where
  "dedup_accounts tc caller [] i dedup dups = Inr (dedup, dups)"
| "dedup_accounts tc caller (am # metas) i dedup dups =
     and_then (ok_or (find_index_of_account tc (am_pubkey am)) MissingAccount) (\<lambda>index_in_transaction.
       (case vec_position (\<lambda>ia. ia_index_in_transaction ia = index_in_transaction) dedup of
          Some d \<Rightarrow>
            (let ia = dedup ! d;
                 ia' = ia\<lparr>ia_is_signer := ia_is_signer ia \<or> am_is_signer am,
                          ia_is_writable := ia_is_writable ia \<or> am_is_writable am\<rparr>
             in dedup_accounts tc caller metas (Suc i) (dedup[d := ia']) (dups @ [d]))
        | None \<Rightarrow>
            and_then (ok_or (find_index_of_instruction_account caller tc (am_pubkey am)) MissingAccount)
              (\<lambda>index_in_caller.
                 dedup_accounts tc caller metas (Suc i)
                   (dedup @ [\<lparr>ia_index_in_transaction = index_in_transaction,
                              ia_index_in_caller = index_in_caller, ia_index_in_callee = of_nat i,
                              ia_is_signer = am_is_signer am, ia_is_writable = am_is_writable am\<rparr>])
                   (dups @ [length dedup]))))"

fun check_privileges :: "instruction_context \<Rightarrow> pubkey list \<Rightarrow> instruction_account list \<Rightarrow> unit tc_effect" where
  "check_privileges caller signers [] = return ()"
| "check_privileges caller signers (ia # ias) =
     bind (with_instruction_account caller (ia_index_in_caller ia) (\<lambda>b.
             bind (fail_if (ia_is_writable ia \<and> \<not> is_writable b) PrivilegeEscalation) (\<lambda>_.
             bind (gets (get_key b)) (\<lambda>key.
               fail_if (ia_is_signer ia \<and> \<not> (is_signer b \<or> key \<in> set signers)) PrivilegeEscalation)))) (\<lambda>_.
       check_privileges caller signers ias)"

fun expand_accounts ::
  "instruction_account list \<Rightarrow> nat list \<Rightarrow> instruction_error + instruction_account list" where
  "expand_accounts dedup [] = Inr []"
| "expand_accounts dedup (d # ds) =
     and_then (ok_or (vec_get dedup d) NotEnoughAccountKeys) (\<lambda>ia.
     and_then (expand_accounts dedup ds) (\<lambda>ias. Inr (ia # ias)))"

definition prepare_instruction ::
  "instruction \<Rightarrow> pubkey list \<Rightarrow> (instruction_account list \<times> index_of_account list) tc_effect" where
  "prepare_instruction ix signers =
     bind (reads get_current_instruction_context) (\<lambda>caller.
     bind (reads (\<lambda>tc. dedup_accounts tc caller (ix_accounts ix) 0 [] [])) (\<lambda>(dedup, dups).
     bind (check_privileges caller signers dedup) (\<lambda>_.
     bind (lift (expand_accounts dedup dups)) (\<lambda>instruction_accounts.
     bind (reads (\<lambda>tc. ok_or (find_index_of_instruction_account caller tc (ix_program_id ix)) MissingAccount))
       (\<lambda>program_account_index.
     bind (with_instruction_account caller program_account_index (\<lambda>b.
             bind (gets (is_executable b)) (\<lambda>executable.
             bind (fail_if (\<not> executable) AccountNotExecutable) (\<lambda>_.
               return (ba_index_in_transaction b))))) (\<lambda>program_index.
       return (instruction_accounts, [program_index])))))))"

subsection \<open>Executing an instruction\<close>

text \<open>The program that runs: the root program itself if the native loader owns it, or its loader.\<close>

definition builtin_id_of :: "instruction_context \<Rightarrow> pubkey tc_effect" where
  "builtin_id_of ic = (\<lambda>tc.
     case try_borrow_program_account ic 0 tc of
       (Inl _, tc') \<Rightarrow> (Inl UnsupportedProgramId, tc')
     | (Inr b, tc') \<Rightarrow>
         (Inr (if get_owner b tc' = native_loader_id then get_key b tc' else get_owner b tc'),
          drop_account b tc'))"

definition lookup_entrypoint :: "program_table \<Rightarrow> pubkey \<Rightarrow> instruction_error + unit iv_effect" where
  "lookup_entrypoint programs builtin_id =
     (case programs builtin_id of
        Some (Builtin (Some function)) \<Rightarrow> Inr function
      | _ \<Rightarrow> Inl UnsupportedProgramId)"

definition run_entrypoint :: "pubkey \<Rightarrow> pubkey \<Rightarrow> unit iv_effect \<Rightarrow> unit iv_effect" where
  "run_entrypoint builtin_id program_id function = (\<lambda>iv.
     let (result, iv') = function iv;
         consumed = saturating_sub (get_remaining iv) (get_remaining iv');
         iv'' = iv'\<lparr>iv_compute_units_consumed := consumed\<rparr>
     in if builtin_id = program_id \<and> is_ok result \<and> consumed = 0
        then (Inl BuiltinProgramsMustConsumeComputeUnits, iv'') else (result, iv''))"

definition process_executable_chain :: "program_table \<Rightarrow> unit iv_effect" where
  "process_executable_chain programs =
     bind (on_tc (reads get_current_instruction_context)) (\<lambda>ic.
     bind (on_tc (builtin_id_of ic)) (\<lambda>builtin_id.
     bind (lift (lookup_entrypoint programs builtin_id)) (\<lambda>function.
     bind (on_tc (reads (get_last_program_key ic))) (\<lambda>program_id.
     bind (on_tc (set_return_data program_id [])) (\<lambda>_.
       run_entrypoint builtin_id program_id function)))))"

text \<open>\<open>result.and(self.pop())\<close>: the frame is popped on every outcome.\<close>

definition run_then_pop :: "unit iv_effect \<Rightarrow> unit iv_effect" where
  "run_then_pop body = (\<lambda>iv.
     case body iv of (result, iv') \<Rightarrow>
       (case invoke_pop iv' of (popped, iv'') \<Rightarrow>
          (case result of Inl e \<Rightarrow> Inl e | Inr _ \<Rightarrow> popped, iv'')))"

definition process_instruction ::
  "program_table \<Rightarrow> bytes \<Rightarrow> instruction_account list \<Rightarrow> index_of_account list \<Rightarrow> unit iv_effect" where
  "process_instruction programs instruction_data instruction_accounts program_indices =
     bind (modify (\<lambda>iv. iv\<lparr>iv_compute_units_consumed := 0\<rparr>)) (\<lambda>_.
     bind (on_tc (update_next_instruction_context
             (ic_configure program_indices instruction_accounts instruction_data))) (\<lambda>_.
     bind invoke_push (\<lambda>_.
       run_then_pop (process_executable_chain programs))))"

definition native_invoke :: "program_table \<Rightarrow> instruction \<Rightarrow> pubkey list \<Rightarrow> unit iv_effect" where
  "native_invoke programs ix signers = (\<lambda>iv.
     bind (on_tc (prepare_instruction ix signers)) (\<lambda>(instruction_accounts, program_indices).
       process_instruction programs (ix_data ix) instruction_accounts program_indices) iv)"

end
