(* ===== verification/Account_Specs.thy ===== *)
theory Account_Specs
  imports Access_Control
begin

section \<open>What the account setters do when they succeed\<close>

text \<open>
  Specifications of the \<open>BorrowedAccount\<close> setters over the function from account indices to
  accounts, with the rest of the context framed away: a successful call is an update of that
  function at the index of the handle. They carry the functional properties of the programs.
\<close>

definition accounts_to :: "transaction_context \<Rightarrow> (nat \<Rightarrow> account) \<Rightarrow> transaction_context \<Rightarrow> bool" where
  "accounts_to tc m tc' \<longleftrightarrow>
     tc_frame tc' = tc_frame tc \<and> num_accounts tc' = num_accounts tc \<and> account_at tc' = m"

abbreviation ba_index :: "borrowed_account \<Rightarrow> nat" where
  "ba_index b \<equiv> unat (ba_index_in_transaction b)"

lemma accounts_to_refl: "accounts_to tc (account_at tc) tc"
  by (simp add: accounts_to_def)

lemma accounts_to_trans:
  "accounts_to tc m t \<Longrightarrow> accounts_to t m' u \<Longrightarrow> accounts_to tc m' u"
  by (simp add: accounts_to_def)

lemma account_at_fun [simp]:
  "account_at (set_borrow_at i f tc) = account_at tc" "account_at (mark_touched i tc) = account_at tc"
  by (simp_all add: fun_eq_iff)

lemma accounts_to_set_borrow [simp]:
  "accounts_to tc m (set_borrow_at i f t) \<longleftrightarrow> accounts_to tc m t"
  "accounts_to (set_borrow_at i f tc) m t \<longleftrightarrow> accounts_to tc m t"
  by (auto simp: accounts_to_def fun_eq_iff)

lemma accounts_to_mark_touched [simp]:
  "accounts_to tc m (mark_touched i t) \<longleftrightarrow> accounts_to tc m t"
  by (auto simp: accounts_to_def fun_eq_iff)

lemma accounts_to_update:
  "i < num_accounts tc \<Longrightarrow>
     accounts_to tc ((account_at tc)(i := f (account_at tc i))) (update_account_at i f (mark_touched j tc))"
  by (auto simp: accounts_to_def account_at_update fun_eq_iff)

subsection \<open>Setters\<close>

lemma set_lamports_okE:
  assumes "set_lamports b v tc = (Inr (), tc')" "ba_index b < num_accounts tc"
  shows "accounts_to tc ((account_at tc)(ba_index b := (ba_account b tc)\<lparr>acc_lamports := v\<rparr>)) tc'"
proof (cases "get_lamports b tc = v")
  case True
  then have "(ba_account b tc)\<lparr>acc_lamports := v\<rparr> = account_at tc (ba_index b)"
    by (simp add: get_lamports_def ba_account_def)
  moreover have "tc' = tc" using assms(1) True
    by (auto simp: set_lamports_def effect_simps touch_eval split: if_splits sum.splits)
  ultimately show ?thesis by (simp add: accounts_to_refl)
next
  case False
  then have "tc' = update_account_at (ba_index b) (\<lambda>a. a\<lparr>acc_lamports := v\<rparr>) (mark_touched (ba_index b) tc)"
    using assms(1)
    by (auto simp: set_lamports_def effect_simps touch_eval update_account_def split: if_splits sum.splits)
  then show ?thesis using accounts_to_update [OF assms(2)] by (simp add: ba_account_def)
qed

lemma checked_sub_lamports_okE:
  assumes "checked_sub_lamports b v tc = (Inr (), tc')" "ba_index b < num_accounts tc"
  shows "v \<le> get_lamports b tc"
    and "accounts_to tc ((account_at tc)(ba_index b :=
           (ba_account b tc)\<lparr>acc_lamports := get_lamports b tc - v\<rparr>)) tc'"
proof -
  from assms(1) obtain w where w: "checked_sub (get_lamports b tc) v = Some w"
    "set_lamports b w tc = (Inr (), tc')"
    by (auto simp: checked_sub_lamports_def effect_simps ok_or_def split: option.splits)
  from w(1) show "v \<le> get_lamports b tc" by (simp add: checked_sub_Some)
  from w(1) have "w = get_lamports b tc - v" by (simp add: checked_sub_Some)
  with set_lamports_okE [OF w(2) assms(2)]
  show "accounts_to tc ((account_at tc)(ba_index b :=
     (ba_account b tc)\<lparr>acc_lamports := get_lamports b tc - v\<rparr>)) tc'" by simp
qed

lemma checked_add_lamports_okE:
  assumes "checked_add_lamports b v tc = (Inr (), tc')" "ba_index b < num_accounts tc"
  shows "unat (get_lamports b tc) + unat v < 2 ^ 64"
    and "accounts_to tc ((account_at tc)(ba_index b :=
           (ba_account b tc)\<lparr>acc_lamports := get_lamports b tc + v\<rparr>)) tc'"
proof -
  from assms(1) obtain w where w: "checked_add (get_lamports b tc) v = Some w"
    "set_lamports b w tc = (Inr (), tc')"
    by (auto simp: checked_add_lamports_def effect_simps ok_or_def split: option.splits)
  from w(1) show "unat (get_lamports b tc) + unat v < 2 ^ 64"
    by (simp add: checked_add_def split: if_splits)
  from w(1) have "w = get_lamports b tc + v" by (simp add: checked_add_def split: if_splits)
  with set_lamports_okE [OF w(2) assms(2)]
  show "accounts_to tc ((account_at tc)(ba_index b :=
     (ba_account b tc)\<lparr>acc_lamports := get_lamports b tc + v\<rparr>)) tc'" by simp
qed

lemma set_owner_okE:
  assumes "set_owner b k tc = (Inr (), tc')" "ba_index b < num_accounts tc"
  shows "accounts_to tc ((account_at tc)(ba_index b := (ba_account b tc)\<lparr>acc_owner := k\<rparr>)) tc'"
proof (cases "get_owner b tc = k")
  case True
  then have "(ba_account b tc)\<lparr>acc_owner := k\<rparr> = account_at tc (ba_index b)"
    by (simp add: get_owner_def ba_account_def)
  moreover have "tc' = tc" using assms(1) True
    by (auto simp: set_owner_def effect_simps touch_eval split: if_splits sum.splits)
  ultimately show ?thesis by (simp add: accounts_to_refl)
next
  case False
  then have "tc' = update_account_at (ba_index b) (\<lambda>a. a\<lparr>acc_owner := k\<rparr>) (mark_touched (ba_index b) tc)"
    using assms(1)
    by (auto simp: set_owner_def effect_simps touch_eval update_account_def split: if_splits sum.splits)
  then show ?thesis using accounts_to_update [OF assms(2)] by (simp add: ba_account_def)
qed

lemma set_data_length_okE:
  assumes "set_data_length b n tc = (Inr (), tc')" "ba_index b < num_accounts tc"
  shows "accounts_to tc ((account_at tc)(ba_index b :=
     (ba_account b tc)\<lparr>acc_data := vec_resize (get_data b tc) n 0\<rparr>)) tc'"
proof (cases "length (get_data b tc) = n")
  case True
  then have "(ba_account b tc)\<lparr>acc_data := vec_resize (get_data b tc) n 0\<rparr> = account_at tc (ba_index b)"
    by (simp add: get_data_def ba_account_def vec_resize_def)
  moreover have "tc' = tc" using assms(1) True
    by (auto simp: set_data_length_def effect_simps touch_eval split: if_splits sum.splits)
  ultimately show ?thesis by (simp add: accounts_to_refl)
next
  case False
  obtain d where "tc' = update_account_at (ba_index b) (\<lambda>a. a\<lparr>acc_data := vec_resize (acc_data a) n 0\<rparr>)
      ((mark_touched (ba_index b) tc)\<lparr>tc_accounts_resize_delta := d\<rparr>)"
    using assms(1) False
    by (auto simp: set_data_length_def effect_simps touch_eval update_account_def
        update_accounts_resize_delta_def split: if_splits sum.splits)
  then show ?thesis
    using assms(2)
    by (auto simp: accounts_to_def account_at_update fun_eq_iff ba_account_def get_data_def)
qed

lemma set_state_okE:
  assumes "set_state B b st tc = (Inr (), tc')" "ba_index b < num_accounts tc"
  obtains bs where "bc_serialize_into B st (get_data b tc) = Some bs"
    "accounts_to tc ((account_at tc)(ba_index b :=
       (ba_account b tc)\<lparr>acc_data := slice_write (get_data b tc) bs\<rparr>)) tc'"
    "is_writable b" "is_owned_by_current_program b tc"
proof -
  let ?t = "mark_touched (ba_index b) tc"
  have data: "get_data b ?t = get_data b tc" by (simp add: get_data_def ba_account_def)
  obtain bs where bs: "bc_serialize_into B st (get_data b tc) = Some bs"
    "tc' = update_account_at (ba_index b) (\<lambda>a. a\<lparr>acc_data := slice_write (acc_data a) bs\<rparr>) ?t"
    "can_data_be_changed b tc = Inr ()"
    using assms(1)
    by (auto simp: set_state_def get_data_mut_def write_data_def update_account_def effect_simps touch_eval
        data split: if_splits sum.splits)
  show thesis
    using bs accounts_to_update [OF assms(2)]
    by (intro that [OF bs(1)])
      (auto simp: ba_account_def get_data_def can_data_be_changed_def split: if_splits)
qed

text \<open>With the laws of the codec, a stored state is the one read back.\<close>

lemma set_state_stored:
  assumes "set_state B b st tc = (Inr (), tc')" "ba_index b < num_accounts tc"
    and laws: "bincode_laws B X" "st \<in> X"
  obtains d where "accounts_to tc ((account_at tc)(ba_index b := (ba_account b tc)\<lparr>acc_data := d\<rparr>)) tc'"
    "bc_deserialize B d = Some st" "length d = length (get_data b tc)"
proof -
  from laws obtain enc where enc: "length enc < 2 ^ 64"
    "bc_serialized_size B st = Some (of_nat (length enc))"
    "\<And>d. bc_serialize_into B st d =
       (if length enc \<le> length d then Some (enc @ drop (length enc) d) else None)"
    "\<And>rest. bc_deserialize B (enc @ rest) = Some st"
    by (rule bincode_lawsE) blast
  let ?data = "get_data b tc"
  obtain bs where bs: "bc_serialize_into B st ?data = Some bs"
    "accounts_to tc ((account_at tc)(ba_index b := (ba_account b tc)\<lparr>acc_data := slice_write ?data bs\<rparr>)) tc'"
    by (rule set_state_okE [OF assms(1,2)])
  from bs(1) have le: "length enc \<le> length ?data" and "bs = enc @ drop (length enc) ?data"
    by (simp_all add: enc(3) split: if_splits)
  moreover from this have "slice_write ?data bs = bs" by (intro slice_write_same_length) simp
  ultimately show thesis using bs(2) enc(4) le by (intro that [of bs]) auto
qed

subsection \<open>Scoped borrows\<close>

abbreviation tx_index :: "instruction_context \<Rightarrow> index_of_account \<Rightarrow> nat" where
  "tx_index ic i \<equiv> unat (ia_index_in_transaction (ic_instruction_accounts ic ! unat i))"

lemma with_instruction_account_okE:
  assumes "with_instruction_account ic i body tc = (Inr x, tc')"
  obtains b u where "unat i < length (ic_instruction_accounts ic)"
    "ba_instruction_context b = ic" "ba_index b = tx_index ic i"
    "ba_index_in_instruction b = saturating_add (get_number_of_program_accounts ic) i"
    "tx_index ic i < num_accounts tc"
    "body b (set_borrow_at (tx_index ic i) WRITING tc) = (Inr x, u)"
    "tc' = set_borrow_at (tx_index ic i) UNUSED u"
proof -
  from assms obtain b t u where b: "try_borrow_instruction_account ic i tc = (Inr b, t)"
    "body b t = (Inr x, u)" "tc' = drop_account b u"
    unfolding with_instruction_account_def by (auto elim!: bind_okE finally_do_okE)
  from b(1) obtain k where k: "unat i < length (ic_instruction_accounts ic)"
    "k = ia_index_in_transaction (ic_instruction_accounts ic ! unat i)"
    "b = \<lparr>ba_instruction_context = ic, ba_index_in_transaction = k,
      ba_index_in_instruction = saturating_add (get_number_of_program_accounts ic) i\<rparr>"
    "unat k < num_accounts tc" "t = set_borrow_at (unat k) WRITING tc"
    by (rule try_borrow_instruction_account_okE)
  with b show thesis by (intro that [of b u]) (auto simp: drop_account_def)
qed

lemma borrowed_reads [simp]:
  "ba_account b (set_borrow_at j f tc) = ba_account b tc"
  "get_lamports b (set_borrow_at j f tc) = get_lamports b tc"
  "get_data b (set_borrow_at j f tc) = get_data b tc"
  "get_owner b (set_borrow_at j f tc) = get_owner b tc"
  by (simp_all add: ba_reads)

lemma num_accounts_set_borrow [simp]: "num_accounts (set_borrow_at i f tc) = num_accounts tc"
  by (simp add: set_borrow_at_def)

end
