(* ===== verification/System_Ledger.thy ===== *)
theory System_Ledger
  imports System_Program Account_Specs
begin

section \<open>The system program as operations on a ledger\<close>

text \<open>
  An abstract account of what the system instructions do: a ledger is a function from account
  indices to accounts, and each handler, when it succeeds, is one update of it. Conservation of
  lamports and the authority needed for a debit are proved on the ledger and carried to the
  handlers.
\<close>

type_synonym ledger = "nat \<Rightarrow> account"

definition debit :: "nat \<Rightarrow> u64 \<Rightarrow> ledger \<Rightarrow> ledger" where
  "debit i v m = m(i := (m i)\<lparr>acc_lamports := acc_lamports (m i) - v\<rparr>)"

definition credit :: "nat \<Rightarrow> u64 \<Rightarrow> ledger \<Rightarrow> ledger" where
  "credit i v m = m(i := (m i)\<lparr>acc_lamports := acc_lamports (m i) + v\<rparr>)"

definition total_lamports :: "nat \<Rightarrow> ledger \<Rightarrow> nat" where
  "total_lamports n m = (\<Sum>k<n. unat (acc_lamports (m k)))"

lemma total_lamports_update:
  assumes "i < n"
  shows "total_lamports n (m(i := a)) + unat (acc_lamports (m i)) = total_lamports n m + unat (acc_lamports a)"
proof -
  have split: "(\<Sum>k<n. g k) = g i + (\<Sum>k\<in>{..<n} - {i}. g k)" for g :: "nat \<Rightarrow> nat"
    using assms by (simp add: sum.remove)
  have "(\<Sum>k\<in>{..<n} - {i}. unat (acc_lamports ((m(i := a)) k))) =
        (\<Sum>k\<in>{..<n} - {i}. unat (acc_lamports (m k)))"
    by (rule sum.cong) auto
  then show ?thesis unfolding total_lamports_def by (simp only: split) simp
qed

lemma total_lamports_debit:
  assumes "i < n" "v \<le> acc_lamports (m i)"
  shows "total_lamports n (debit i v m) + unat v = total_lamports n m"
proof -
  have "unat (acc_lamports (m i) - v) = unat (acc_lamports (m i)) - unat v"
    using assms(2) by (rule unat_minus_le)
  moreover have "unat v \<le> unat (acc_lamports (m i))" using assms(2) by (simp add: word_le_nat_alt)
  ultimately show ?thesis
    using total_lamports_update [OF assms(1), of m "(m i)\<lparr>acc_lamports := acc_lamports (m i) - v\<rparr>"]
    by (simp add: debit_def)
qed

lemma total_lamports_credit:
  assumes "i < n" "unat (acc_lamports (m i)) + unat v < 2 ^ 64"
  shows "total_lamports n (credit i v m) = total_lamports n m + unat v"
proof -
  have "unat (acc_lamports (m i) + v) = unat (acc_lamports (m i)) + unat v"
    using assms(2) by (simp add: unat_word_ariths)
  then show ?thesis
    using total_lamports_update [OF assms(1), of m "(m i)\<lparr>acc_lamports := acc_lamports (m i) + v\<rparr>"]
    by (simp add: credit_def)
qed

text \<open>A ledger operation that leaves every balance alone.\<close>

definition same_balances :: "ledger \<Rightarrow> ledger \<Rightarrow> bool" where
  "same_balances m m' \<longleftrightarrow> (\<forall>k. acc_lamports (m' k) = acc_lamports (m k))"

lemma total_lamports_same: "same_balances m m' \<Longrightarrow> total_lamports n m' = total_lamports n m"
  by (simp add: same_balances_def total_lamports_def)

subsection \<open>Transfers\<close>

lemma transfer_verified_ledger:
  assumes "transfer_verified i j v ic tc = (Inr (), tc')"
  shows "tx_index ic i < num_accounts tc" "tx_index ic j < num_accounts tc"
    and "acc_data (account_at tc (tx_index ic i)) = []"
    and "v \<le> acc_lamports (account_at tc (tx_index ic i))"
    and "unat (acc_lamports (debit (tx_index ic i) v (account_at tc) (tx_index ic j))) + unat v < 2 ^ 64"
    and "accounts_to tc (credit (tx_index ic j) v (debit (tx_index ic i) v (account_at tc))) tc'"
    and "unat i < length (ic_instruction_accounts ic)" "unat j < length (ic_instruction_accounts ic)"
proof -
  let ?f = "tx_index ic i" and ?t = "tx_index ic j"
  from assms obtain t where
    src: "with_instruction_account ic i (\<lambda>from. bind (gets (get_data from)) (\<lambda>data.
             bind (fail_if (data \<noteq> []) InvalidArgument) (\<lambda>_.
             bind (gets (get_lamports from)) (\<lambda>balance.
             bind (fail_if (balance < v) (system_error_into system_error.ResultWithNegativeLamports)) (\<lambda>_.
               checked_sub_lamports from v))))) tc = (Inr (), t)"
    and dst: "with_instruction_account ic j (\<lambda>to. checked_add_lamports to v) t = (Inr (), tc')"
    unfolding transfer_verified_def by (auto elim!: bind_okE)
  from src obtain b u where b: "unat i < length (ic_instruction_accounts ic)" "ba_index b = ?f"
    "?f < num_accounts tc" "get_data b tc = []"
    "checked_sub_lamports b v (set_borrow_at ?f WRITING tc) = (Inr (), u)"
    "t = set_borrow_at ?f UNUSED u"
    by (rule with_instruction_account_okE)
      (auto simp: effect_simps split: if_splits)
  note sub = checked_sub_lamports_okE [OF b(5)]
  have t: "accounts_to tc (debit ?f v (account_at tc)) t"
    using sub(2) b by (simp add: debit_def ba_account_def get_lamports_def)
  from dst obtain c w where c: "unat j < length (ic_instruction_accounts ic)" "ba_index c = ?t" "?t < num_accounts t"
    "checked_add_lamports c v (set_borrow_at ?t WRITING t) = (Inr (), w)" "tc' = set_borrow_at ?t UNUSED w"
    by (rule with_instruction_account_okE)
  note add = checked_add_lamports_okE [OF c(4)]
  have m: "account_at t = debit ?f v (account_at tc)" "num_accounts t = num_accounts tc"
    using t by (simp_all add: accounts_to_def)
  have t': "accounts_to t (credit ?t v (account_at t)) tc'"
    using add(2) c by (simp add: credit_def ba_account_def get_lamports_def)
  show "?f < num_accounts tc" "unat i < length (ic_instruction_accounts ic)"
    "unat j < length (ic_instruction_accounts ic)" by (fact b c)+
  show "?t < num_accounts tc" using c m by simp
  show "acc_data (account_at tc ?f) = []" using b by (simp add: get_data_def ba_account_def)
  show "v \<le> acc_lamports (account_at tc ?f)" using sub(1) b by (simp add: get_lamports_def ba_account_def)
  show "unat (acc_lamports (debit ?f v (account_at tc) ?t)) + unat v < 2 ^ 64"
    using add(1) c m by (simp add: get_lamports_def ba_account_def)
  show "accounts_to tc (credit ?t v (debit ?f v (account_at tc))) tc'"
    using accounts_to_trans [OF t t'] m by simp
qed

lemma transfer_verified_conserves:
  assumes "transfer_verified i j v ic tc = (Inr (), tc')"
  shows "total_lamports (num_accounts tc) (account_at tc') = total_lamports (num_accounts tc) (account_at tc)"
proof -
  note t = transfer_verified_ledger [OF assms]
  have "total_lamports (num_accounts tc) (account_at tc') =
        total_lamports (num_accounts tc) (debit (tx_index ic i) v (account_at tc)) + unat v"
    using t(6) total_lamports_credit [of _ _ "debit (tx_index ic i) v (account_at tc)", OF t(2,5)] by (simp add: accounts_to_def)
  also have "\<dots> = total_lamports (num_accounts tc) (account_at tc)"
    using total_lamports_debit [of _ _ v "account_at tc", OF t(1,4)] .
  finally show ?thesis .
qed

lemma transfer_okE:
  assumes "transfer env i j v ic tc = (Inr (), tc')"
  shows "is_instruction_account_signer ic i = Inr True" "transfer_verified i j v ic tc = (Inr (), tc')"
  using assms
  by (auto simp: transfer_def effect_simps split: sum.splits if_splits prod.splits)

lemma transfer_with_seed_okE:
  assumes "transfer_with_seed env i b seed owner j v ic tc = (Inr (), tc')"
  obtains base derived where "is_instruction_account_signer ic b = Inr True"
    "key_of_instruction_account ic b tc = Inr base"
    "create_with_seed (env_sha256 env) base seed owner = Inr derived"
    "key_of_instruction_account ic i tc = Inr derived"
    "transfer_verified i j v ic tc = (Inr (), tc')"
  using assms
  by (auto simp: transfer_with_seed_def effect_simps map_err_def
      split: sum.splits if_splits prod.splits)

subsection \<open>Allocation and assignment\<close>

lemma allocate_ledger:
  assumes "allocate b addr space signers tc = (Inr (), tc')" "ba_index b < num_accounts tc"
  shows "address_is_signer addr signers" "get_data b tc = []" "get_owner b tc = system_program_id"
    "space \<le> MAX_PERMITTED_DATA_LENGTH"
    "accounts_to tc ((account_at tc)(ba_index b :=
       (ba_account b tc)\<lparr>acc_data := replicate (unat space) 0\<rparr>)) tc'"
proof -
  have ok: "address_is_signer addr signers" "get_data b tc = []" "get_owner b tc = system_program_id"
    "\<not> MAX_PERMITTED_DATA_LENGTH < space" "set_data_length b (unat space) tc = (Inr (), tc')"
    using assms(1) by (auto simp: allocate_def effect_simps split: if_splits)
  then show "address_is_signer addr signers" "get_data b tc = []" "get_owner b tc = system_program_id"
    "space \<le> MAX_PERMITTED_DATA_LENGTH" by auto
  show "accounts_to tc ((account_at tc)(ba_index b :=
     (ba_account b tc)\<lparr>acc_data := replicate (unat space) 0\<rparr>)) tc'"
    using set_data_length_okE [OF ok(5) assms(2)] ok(2) by simp
qed

lemma assign_ledger:
  assumes "assign b addr owner signers tc = (Inr (), tc')" "ba_index b < num_accounts tc"
  shows "get_owner b tc = owner \<or> address_is_signer addr signers"
    "accounts_to tc ((account_at tc)(ba_index b := (ba_account b tc)\<lparr>acc_owner := owner\<rparr>)) tc'"
proof -
  show "get_owner b tc = owner \<or> address_is_signer addr signers"
    using assms(1) by (auto simp: assign_def effect_simps split: if_splits)
  show "accounts_to tc ((account_at tc)(ba_index b := (ba_account b tc)\<lparr>acc_owner := owner\<rparr>)) tc'"
  proof (cases "get_owner b tc = owner")
    case True
    moreover from this have "(ba_account b tc)\<lparr>acc_owner := owner\<rparr> = account_at tc (ba_index b)"
      by (simp add: get_owner_def ba_account_def)
    ultimately show ?thesis
      using assms(1) by (simp add: assign_def effect_simps accounts_to_refl)
  next
    case False
    with assms(1) have "set_owner b owner tc = (Inr (), tc')"
      by (auto simp: assign_def effect_simps split: if_splits)
    then show ?thesis using assms(2) by (rule set_owner_okE)
  qed
qed

lemma accounts_to_account:
  "accounts_to tc m t \<Longrightarrow> ba_account b t = m (ba_index b)"
  by (simp add: accounts_to_def ba_account_def)

lemma allocate_and_assign_ledger:
  assumes "allocate_and_assign b addr space owner signers tc = (Inr (), tc')" "ba_index b < num_accounts tc"
  shows "address_is_signer addr signers" "get_data b tc = []" "get_owner b tc = system_program_id"
    "space \<le> MAX_PERMITTED_DATA_LENGTH"
    "accounts_to tc ((account_at tc)(ba_index b :=
       (ba_account b tc)\<lparr>acc_data := replicate (unat space) 0, acc_owner := owner\<rparr>)) tc'"
proof -
  from assms(1) obtain t where t: "allocate b addr space signers tc = (Inr (), t)"
    "assign b addr owner signers t = (Inr (), tc')"
    unfolding allocate_and_assign_def by (auto elim!: bind_okE)
  note al = allocate_ledger [OF t(1) assms(2)]
  then have num: "ba_index b < num_accounts t" using assms(2) by (simp add: accounts_to_def)
  note as = assign_ledger [OF t(2) num]
  from al show "address_is_signer addr signers" "get_data b tc = []" "get_owner b tc = system_program_id"
    "space \<le> MAX_PERMITTED_DATA_LENGTH" by auto
  have "account_at t = (account_at tc)(ba_index b := (ba_account b tc)\<lparr>acc_data := replicate (unat space) 0\<rparr>)"
    using al(5) by (simp add: accounts_to_def)
  with accounts_to_trans [OF al(5) as(2)]
  show "accounts_to tc ((account_at tc)(ba_index b :=
     (ba_account b tc)\<lparr>acc_data := replicate (unat space) 0, acc_owner := owner\<rparr>)) tc'"
    by (simp add: ba_account_def)
qed

text \<open>What a created account looks like before it is funded.\<close>

definition create_at :: "nat \<Rightarrow> u64 \<Rightarrow> pubkey \<Rightarrow> ledger \<Rightarrow> ledger" where
  "create_at i space owner m =
     m(i := (m i)\<lparr>acc_data := replicate (unat space) 0, acc_owner := owner\<rparr>)"

lemma create_account_ledger:
  assumes "create_account env i j addr v space owner signers ic tc = (Inr (), tc')"
  defines "f \<equiv> tx_index ic i" and "t \<equiv> tx_index ic j"
  defines "m \<equiv> create_at (tx_index ic j) space owner (account_at tc)"
  shows "address_is_signer addr signers" "account_at tc t = \<lparr>acc_lamports = 0, acc_data = [],
      acc_owner = system_program_id, acc_executable = acc_executable (account_at tc t),
      acc_rent_epoch = acc_rent_epoch (account_at tc t)\<rparr>"
    and "space \<le> MAX_PERMITTED_DATA_LENGTH" "is_instruction_account_signer ic i = Inr True"
    and "f < num_accounts tc" "t < num_accounts tc" "acc_data (m f) = []" "v \<le> acc_lamports (m f)"
    and "unat (acc_lamports (debit f v m t)) + unat v < 2 ^ 64"
    and "accounts_to tc (credit t v (debit f v m)) tc'"
proof -
  from assms(1) obtain s where
    new: "with_instruction_account ic j (\<lambda>to. bind (gets (get_lamports to)) (\<lambda>balance.
             bind (fail_if (0 < balance) (system_error_into system_error.AccountAlreadyInUse)) (\<lambda>_.
               allocate_and_assign to addr space owner signers))) tc = (Inr (), s)"
    and fund: "transfer env i j v ic s = (Inr (), tc')"
    unfolding create_account_def by (auto elim!: bind_okE)
  from new obtain b u where b: "ba_index b = t" "t < num_accounts tc" "get_lamports b tc = 0"
    "allocate_and_assign b addr space owner signers (set_borrow_at t WRITING tc) = (Inr (), u)"
    "s = set_borrow_at t UNUSED u"
    unfolding t_def
    by (rule with_instruction_account_okE) (auto simp: effect_simps word_gt_0 split: if_splits)
  note al = allocate_and_assign_ledger [OF b(4)]
  have s: "accounts_to tc m s"
    using al(5) b by (simp add: m_def create_at_def t_def ba_account_def)
  then have m: "account_at s = m" "num_accounts s = num_accounts tc" by (simp_all add: accounts_to_def)
  note tr = transfer_okE [OF fund]
  note v = transfer_verified_ledger [OF tr(2), unfolded m, folded f_def t_def]
  show "address_is_signer addr signers" "space \<le> MAX_PERMITTED_DATA_LENGTH" using al b by simp_all
  show "account_at tc t = \<lparr>acc_lamports = 0, acc_data = [],
      acc_owner = system_program_id, acc_executable = acc_executable (account_at tc t),
      acc_rent_epoch = acc_rent_epoch (account_at tc t)\<rparr>"
    using al(2,3) b by (intro account.equality) (simp_all add: ba_reads)
  show "is_instruction_account_signer ic i = Inr True" by (fact tr(1))
  show "f < num_accounts tc" "t < num_accounts tc" "acc_data (m f) = []" "v \<le> acc_lamports (m f)"
    "unat (acc_lamports (debit f v m t)) + unat v < 2 ^ 64" by (fact v)+
  show "accounts_to tc (credit t v (debit f v m)) tc'" using accounts_to_trans [OF s v(6)] .
qed

subsection \<open>The abstract instructions\<close>

text \<open>
  \<open>system_step env ic signers keys n m instruction m'\<close>: on a ledger of \<open>n\<close> accounts with the given
  keys, the instruction may turn \<open>m\<close> into \<open>m'\<close>. Each rule has the authority the instruction
  needs and the condition of the accounts as premises. Instruction accounts are numbered as in
  the account list of the instruction.
\<close>

definition authorized ::
  "invoke_env \<Rightarrow> pubkey list \<Rightarrow> pubkey \<Rightarrow> (pubkey \<times> bytes \<times> pubkey) option \<Rightarrow> bool" where
  "authorized env signers key with_seed =
     (case with_seed of
        None \<Rightarrow> key \<in> set signers
      | Some (base, seed, owner) \<Rightarrow>
          base \<in> set signers \<and> create_with_seed (env_sha256 env) base seed owner = Inr key)"

definition derived_address ::
  "invoke_env \<Rightarrow> pubkey \<Rightarrow> (pubkey \<times> bytes \<times> pubkey) option \<Rightarrow> bool" where
  "derived_address env key with_seed =
     (case with_seed of
        None \<Rightarrow> True
      | Some (base, seed, owner) \<Rightarrow> create_with_seed (env_sha256 env) base seed owner = Inr key)"

definition fresh_account :: "account \<Rightarrow> bool" where
  "fresh_account a \<longleftrightarrow> acc_lamports a = 0 \<and> acc_data a = [] \<and> acc_owner a = system_program_id"

definition movable :: "nat \<Rightarrow> nat \<Rightarrow> nat \<Rightarrow> u64 \<Rightarrow> ledger \<Rightarrow> bool" where
  "movable n f t v m \<longleftrightarrow> f < n \<and> t < n \<and> v \<le> acc_lamports (m f) \<and>
     unat (acc_lamports (debit f v m t)) + unat v < 2 ^ 64"

definition move :: "nat \<Rightarrow> nat \<Rightarrow> u64 \<Rightarrow> ledger \<Rightarrow> ledger" where
  "move f t v m = credit t v (debit f v m)"

definition nonce_of :: "invoke_env \<Rightarrow> account \<Rightarrow> nonce_versions option" where
  "nonce_of env a = bc_deserialize (env_nonce env) (acc_data a)"

definition stores :: "invoke_env \<Rightarrow> nat \<Rightarrow> nonce_versions \<Rightarrow> ledger \<Rightarrow> ledger \<Rightarrow> bool" where
  "stores env i st m m' \<longleftrightarrow> (\<exists>bs. bc_serialize_into (env_nonce env) st (acc_data (m i)) = Some bs \<and>
     m' = m(i := (m i)\<lparr>acc_data := slice_write (acc_data (m i)) bs\<rparr>))"

definition signer_flag :: "instruction_context \<Rightarrow> index_of_account \<Rightarrow> bool" where
  "signer_flag ic i \<longleftrightarrow> unat i < length (ic_instruction_accounts ic) \<and>
     ia_is_signer (ic_instruction_accounts ic ! unat i)"

abbreviation next_nonce :: "invoke_env \<Rightarrow> hash" where
  "next_nonce env \<equiv> durable_nonce_from_blockhash (env_sha256 env) (env_blockhash env)"

inductive create_step ::
  "invoke_env \<Rightarrow> instruction_context \<Rightarrow> pubkey list \<Rightarrow> pubkey list \<Rightarrow> nat \<Rightarrow>
     u64 \<Rightarrow> u64 \<Rightarrow> pubkey \<Rightarrow> (pubkey \<times> bytes \<times> pubkey) option \<Rightarrow> ledger \<Rightarrow> ledger \<Rightarrow> bool"
  for env ic signers keys n where
  create: "f = tx_index ic 0 \<Longrightarrow> t = tx_index ic 1 \<Longrightarrow> signer_flag ic 0 \<Longrightarrow>
     authorized env signers (keys ! t) ws \<Longrightarrow> fresh_account (m t) \<Longrightarrow>
     space \<le> MAX_PERMITTED_DATA_LENGTH \<Longrightarrow> acc_data (create_at t space owner m f) = [] \<Longrightarrow>
     movable n f t v (create_at t space owner m) \<Longrightarrow>
     create_step env ic signers keys n v space owner ws m (move f t v (create_at t space owner m))"

inductive system_step ::
  "invoke_env \<Rightarrow> instruction_context \<Rightarrow> pubkey list \<Rightarrow> pubkey list \<Rightarrow> nat \<Rightarrow>
     ledger \<Rightarrow> system_instruction \<Rightarrow> ledger \<Rightarrow> bool"
  for env ic signers keys n where
  create: "create_step env ic signers keys n v space owner None m m' \<Longrightarrow>
     system_step env ic signers keys n m (CreateAccount v space owner) m'"
| create_seed: "create_step env ic signers keys n v space owner (Some (base, seed, owner)) m m' \<Longrightarrow>
     system_step env ic signers keys n m (CreateAccountWithSeed base seed v space owner) m'"
| assign: "f = tx_index ic 0 \<Longrightarrow> f < n \<Longrightarrow> acc_owner (m f) = owner \<or> authorized env signers (keys ! f) None \<Longrightarrow>
     system_step env ic signers keys n m (Assign owner) (m(f := (m f)\<lparr>acc_owner := owner\<rparr>))"
| assign_seed: "f = tx_index ic 0 \<Longrightarrow> f < n \<Longrightarrow> derived_address env (keys ! f) (Some (base, seed, owner)) \<Longrightarrow>
     acc_owner (m f) = owner \<or> authorized env signers (keys ! f) (Some (base, seed, owner)) \<Longrightarrow>
     system_step env ic signers keys n m (AssignWithSeed base seed owner) (m(f := (m f)\<lparr>acc_owner := owner\<rparr>))"
| allocate: "f = tx_index ic 0 \<Longrightarrow> f < n \<Longrightarrow> authorized env signers (keys ! f) None \<Longrightarrow>
     acc_data (m f) = [] \<Longrightarrow> acc_owner (m f) = system_program_id \<Longrightarrow> space \<le> MAX_PERMITTED_DATA_LENGTH \<Longrightarrow>
     system_step env ic signers keys n m (Allocate space)
       (m(f := (m f)\<lparr>acc_data := replicate (unat space) 0\<rparr>))"
| allocate_seed: "f = tx_index ic 0 \<Longrightarrow> f < n \<Longrightarrow> authorized env signers (keys ! f) (Some (base, seed, owner)) \<Longrightarrow>
     acc_data (m f) = [] \<Longrightarrow> acc_owner (m f) = system_program_id \<Longrightarrow> space \<le> MAX_PERMITTED_DATA_LENGTH \<Longrightarrow>
     system_step env ic signers keys n m (AllocateWithSeed base seed space owner)
       (create_at f space owner m)"
| transfer: "f = tx_index ic 0 \<Longrightarrow> t = tx_index ic 1 \<Longrightarrow> signer_flag ic 0 \<Longrightarrow> acc_data (m f) = [] \<Longrightarrow>
     movable n f t v m \<Longrightarrow> system_step env ic signers keys n m (Transfer v) (move f t v m)"
| transfer_seed: "f = tx_index ic 0 \<Longrightarrow> t = tx_index ic 2 \<Longrightarrow> signer_flag ic 1 \<Longrightarrow>
     derived_address env (keys ! f) (Some (keys ! tx_index ic 1, seed, owner)) \<Longrightarrow> acc_data (m f) = [] \<Longrightarrow>
     movable n f t v m \<Longrightarrow> system_step env ic signers keys n m (TransferWithSeed v seed owner) (move f t v m)"
| advance: "f = tx_index ic 0 \<Longrightarrow> f < n \<Longrightarrow> nonce_of env (m f) = Some st \<Longrightarrow>
     versions_state st = Initialized d \<Longrightarrow> nd_authority d \<in> set signers \<Longrightarrow> nd_durable_nonce d \<noteq> next_nonce env \<Longrightarrow>
     stores env f (Current (Initialized
       (nonce_data_new (nd_authority d) (next_nonce env) (env_lamports_per_signature env)))) m m' \<Longrightarrow>
     system_step env ic signers keys n m AdvanceNonceAccount m'"
| initialize: "f = tx_index ic 0 \<Longrightarrow> f < n \<Longrightarrow> nonce_of env (m f) = Some st \<Longrightarrow>
     versions_state st = Uninitialized \<Longrightarrow> sc_rent (env_sysvar_cache env) = Some rent \<Longrightarrow>
     minimum_balance rent (length (acc_data (m f))) \<le> acc_lamports (m f) \<Longrightarrow>
     stores env f (Current (Initialized
       (nonce_data_new authority (next_nonce env) (env_lamports_per_signature env)))) m m' \<Longrightarrow>
     system_step env ic signers keys n m (InitializeNonceAccount authority) m'"
| authorize: "f = tx_index ic 0 \<Longrightarrow> f < n \<Longrightarrow> nonce_of env (m f) = Some st \<Longrightarrow>
     versions_authorize st signers authority = Inr st' \<Longrightarrow> stores env f st' m m' \<Longrightarrow>
     system_step env ic signers keys n m (AuthorizeNonceAccount authority) m'"
| upgrade: "f = tx_index ic 0 \<Longrightarrow> f < n \<Longrightarrow> nonce_of env (m f) = Some st \<Longrightarrow>
     versions_upgrade (env_sha256 env) st = Some st' \<Longrightarrow> acc_owner (m f) = system_program_id \<Longrightarrow>
     stores env f st' m m' \<Longrightarrow> system_step env ic signers keys n m UpgradeNonceAccount m'"
| withdraw_uninitialized: "f = tx_index ic 0 \<Longrightarrow> t = tx_index ic 1 \<Longrightarrow> nonce_of env (m f) = Some st \<Longrightarrow>
     versions_state st = Uninitialized \<Longrightarrow> keys ! f \<in> set signers \<Longrightarrow> movable n f t v m \<Longrightarrow>
     system_step env ic signers keys n m (WithdrawNonceAccount v) (move f t v m)"
| withdraw_part: "f = tx_index ic 0 \<Longrightarrow> t = tx_index ic 1 \<Longrightarrow> nonce_of env (m f) = Some st \<Longrightarrow>
     versions_state st = Initialized d \<Longrightarrow> nd_authority d \<in> set signers \<Longrightarrow>
     sc_rent (env_sysvar_cache env) = Some rent \<Longrightarrow>
     unat v + unat (minimum_balance rent (length (acc_data (m f)))) \<le> unat (acc_lamports (m f)) \<Longrightarrow>
     movable n f t v m \<Longrightarrow> system_step env ic signers keys n m (WithdrawNonceAccount v) (move f t v m)"
| withdraw_close: "f = tx_index ic 0 \<Longrightarrow> t = tx_index ic 1 \<Longrightarrow> nonce_of env (m f) = Some st \<Longrightarrow>
     versions_state st = Initialized d \<Longrightarrow> nd_authority d \<in> set signers \<Longrightarrow>
     nd_durable_nonce d \<noteq> next_nonce env \<Longrightarrow> v = acc_lamports (m f) \<Longrightarrow>
     stores env f (Current Uninitialized) m m' \<Longrightarrow>
     movable n f t v m' \<Longrightarrow> system_step env ic signers keys n m (WithdrawNonceAccount v) (move f t v m')"

end
