(* ===== verification/Lamport_Sums.thy ===== *)
theory Lamport_Sums
  imports System_Ledger
begin

section \<open>What the lamport sum of an instruction counts\<close>

text \<open>
  \<open>TransactionContext::instruction_accounts_lamport_sum\<close> adds up the balances of the accounts of an
  instruction and skips repeated accounts by their \<open>index_in_callee\<close>. When that index is the first
  position of the account in the list, as the message processor and \<open>prepare_instruction\<close> set it,
  the result is the sum over the set of accounts, without overflow.
\<close>

definition wf_callee :: "instruction_account list \<Rightarrow> bool" where
  "wf_callee ias \<longleftrightarrow> (\<forall>i<length ias.
     vec_position (\<lambda>ia. ia_index_in_transaction ia = ia_index_in_transaction (ias ! i)) ias =
       Some (unat (ia_index_in_callee (ias ! i))))"

definition ia_indices :: "instruction_account list \<Rightarrow> nat set" where
  "ia_indices ias = (\<lambda>ia. unat (ia_index_in_transaction ia)) ` set ias"

lemma lamport_sum_loop_value:
  assumes "lamport_sum_loop tc ic is acc = Inr S"
  shows "unat S = unat acc + (\<Sum>i\<leftarrow>filter (\<lambda>i. ia_index_in_callee (ic_instruction_accounts ic ! unat i) = i) is.
    unat (acc_lamports (account_at tc (tx_index ic i))))"
  using assms
proof (induction "is" arbitrary: acc)
  case Nil
  then show ?case by simp
next
  case (Cons i "is")
  then have i: "unat i < length (ic_instruction_accounts ic)"
    by (auto simp: and_then_Inr is_instruction_account_duplicate_def)
  then have dup: "is_instruction_account_duplicate ic i =
      Inr (if ia_index_in_callee (ic_instruction_accounts ic ! unat i) = i then None
           else Some (ia_index_in_callee (ic_instruction_accounts ic ! unat i)))"
    and idx: "get_index_of_instruction_account_in_transaction ic i =
      Inr (ia_index_in_transaction (ic_instruction_accounts ic ! unat i))"
    by (simp_all add: is_instruction_account_duplicate_def Let_def vec_get_def
        get_index_of_instruction_account_in_transaction_def)
  show ?case
  proof (cases "ia_index_in_callee (ic_instruction_accounts ic ! unat i) = i")
    case False
    with Cons dup show ?thesis by simp
  next
    case True
    with Cons.prems dup idx obtain acc' where
      acc': "checked_add (ucast (acc_lamports (account_at tc (tx_index ic i)))) acc = Some acc'"
      "lamport_sum_loop tc ic is acc' = Inr S"
      by (auto simp: and_then_Inr get_account_at_index_def ta_get_def account_at_def split: if_splits)
    have "unat (ucast (acc_lamports (account_at tc (tx_index ic i))) :: u128) =
        unat (acc_lamports (account_at tc (tx_index ic i)))"
      by (simp add: unsigned_ucast_eq take_bit_nat_eq_self_iff)
        (rule less_le_trans [OF unsigned_less], simp)
    then have "unat acc' = unat (acc_lamports (account_at tc (tx_index ic i))) + unat acc"
      using checked_add_Some [OF acc'(1)] by simp
    with Cons.IH [OF acc'(2)] True show ?thesis by simp
  qed
qed

lemma instruction_accounts_lamport_sum_value:
  assumes "instruction_accounts_lamport_sum tc ic = Inr S"
    and wf: "wf_callee (ic_instruction_accounts ic)" and len: "length (ic_instruction_accounts ic) < 2 ^ 16"
  shows "unat S = (\<Sum>k\<in>ia_indices (ic_instruction_accounts ic). unat (acc_lamports (account_at tc k)))"
proof -
  let ?ias = "ic_instruction_accounts ic"
  let ?n = "length ?ias" and ?f = "\<lambda>k. unat (acc_lamports (account_at tc k))"
  let ?first = "{i. i < ?n \<and> unat (ia_index_in_callee (?ias ! i)) = i}"
  let ?g = "\<lambda>i. unat (ia_index_in_transaction (?ias ! i))"
  have n: "unat (of_nat ?n :: u16) = ?n" using len by (simp add: unat_of_nat)
  have small: "unat (of_nat i :: u16) = i" if "i < ?n" for i
    using that len by (simp add: unat_of_nat)
  have callee: "ia_index_in_callee (?ias ! i) = of_nat i \<longleftrightarrow> unat (ia_index_in_callee (?ias ! i)) = i"
    if "i < ?n" for i
    using small [OF that] by (simp add: word_unat_eq_iff)
  have "unat S = (\<Sum>i\<leftarrow>filter (\<lambda>i. ia_index_in_callee (?ias ! unat i) = i) (map of_nat [0..<?n]). ?f (tx_index ic i))"
    using lamport_sum_loop_value [OF assms(1) [unfolded instruction_accounts_lamport_sum_def]] n
    by (simp add: get_number_of_instruction_accounts_def)
  also have "\<dots> = (\<Sum>i\<leftarrow>filter (\<lambda>i. unat (ia_index_in_callee (?ias ! i)) = i) [0..<?n]. ?f (?g i))"
  proof -
    have "filter (\<lambda>i. ia_index_in_callee (?ias ! unat i) = i) (map of_nat [0..<?n]) =
        map of_nat (filter (\<lambda>i. unat (ia_index_in_callee (?ias ! i)) = i) [0..<?n])"
      unfolding filter_map
    proof (rule arg_cong [of _ _ "map of_nat"], rule filter_cong [OF refl])
      fix i
      assume "i \<in> set [0..<?n]"
      then have "i < ?n" by simp
      then show "((\<lambda>i. ia_index_in_callee (?ias ! unat i) = i) \<circ> of_nat) i =
          (unat (ia_index_in_callee (?ias ! i)) = i)"
        using small [of i] callee [of i] by simp
    qed
    moreover have "map (\<lambda>i. ?f (tx_index ic i)) (map of_nat (filter (\<lambda>i. unat (ia_index_in_callee (?ias ! i)) = i) [0..<?n])) =
        map (\<lambda>i. ?f (?g i)) (filter (\<lambda>i. unat (ia_index_in_callee (?ias ! i)) = i) [0..<?n])"
      unfolding map_map o_def by (rule map_cong [OF refl]) (simp add: small)
    ultimately show ?thesis by (simp only:)
  qed
  also have "\<dots> = (\<Sum>i\<in>set (filter (\<lambda>i. unat (ia_index_in_callee (?ias ! i)) = i) [0..<?n]). ?f (?g i))"
    by (rule sum_list_distinct_conv_sum_set) simp
  also have "set (filter (\<lambda>i. unat (ia_index_in_callee (?ias ! i)) = i) [0..<?n]) = ?first"
    by (simp add: set_eq_iff conj_commute)
  also have "(\<Sum>i\<in>?first. ?f (?g i)) = (\<Sum>k\<in>?g ` ?first. ?f k)"
  proof -
    have "inj_on ?g ?first"
    proof (rule inj_onI)
      fix i j
      assume i: "i \<in> ?first" and j: "j \<in> ?first" and "?g i = ?g j"
      then have same: "ia_index_in_transaction (?ias ! i) = ia_index_in_transaction (?ias ! j)"
        by (simp only: word_unat_eq_iff)
      have "vec_position (\<lambda>ia. ia_index_in_transaction ia = ia_index_in_transaction (?ias ! i)) ?ias = Some i"
        "vec_position (\<lambda>ia. ia_index_in_transaction ia = ia_index_in_transaction (?ias ! j)) ?ias = Some j"
        using i j wf by (simp_all add: wf_callee_def)
      then show "i = j" unfolding same by simp
    qed
    from sum.reindex [OF this, of ?f] show ?thesis by (simp only: o_def)
  qed
  also have "?g ` ?first = ia_indices ?ias"
  proof
    show "ia_indices ?ias \<subseteq> ?g ` ?first"
    proof
      fix k
      assume "k \<in> ia_indices ?ias"
      then obtain i where i: "i < ?n" "k = ?g i" by (auto simp: ia_indices_def in_set_conv_nth)
      let ?j = "unat (ia_index_in_callee (?ias ! i))"
      have j: "vec_position (\<lambda>ia. ia_index_in_transaction ia = ia_index_in_transaction (?ias ! i)) ?ias = Some ?j"
        using wf i by (simp add: wf_callee_def)
      then have "?j < ?n" "ia_index_in_transaction (?ias ! ?j) = ia_index_in_transaction (?ias ! i)"
        by (simp_all add: vec_position_Some)
      moreover from this(1) wf have "vec_position (\<lambda>ia. ia_index_in_transaction ia =
          ia_index_in_transaction (?ias ! ?j)) ?ias = Some (unat (ia_index_in_callee (?ias ! ?j)))"
        unfolding wf_callee_def by blast
      ultimately have "?j \<in> ?first" "?g ?j = ?g i" using j by simp_all
      then show "k \<in> ?g ` ?first" using i(2) by (intro image_eqI [of _ _ ?j]) simp_all
    qed
  qed (auto simp: ia_indices_def)
  finally show ?thesis .
qed

lemma lamport_sum_loop_bounded:
  assumes "lamport_sum_loop tc ic is acc = Inr S" "i \<in> set is"
    and "ia_index_in_callee (ic_instruction_accounts ic ! unat i) = i"
  shows "tx_index ic i < num_accounts tc"
  using assms(1,2)
proof (induction "is" arbitrary: acc)
  case (Cons j "is")
  show ?case
  proof (cases "i = j")
    case True
    then show ?thesis using Cons.prems(1) assms(3)
      by (auto simp: and_then_Inr is_instruction_account_duplicate_def Let_def
          get_index_of_instruction_account_in_transaction_def get_account_at_index_def ta_get_def split: if_splits)
  next
    case False
    with Cons show ?thesis by (auto simp: and_then_Inr split: if_splits)
  qed
qed simp

lemma ia_indices_bounded:
  assumes "instruction_accounts_lamport_sum tc ic = Inr S"
    and wf: "wf_callee (ic_instruction_accounts ic)" and len: "length (ic_instruction_accounts ic) < 2 ^ 16"
  shows "ia_indices (ic_instruction_accounts ic) \<subseteq> {..<num_accounts tc}"
proof
  let ?ias = "ic_instruction_accounts ic"
  fix k
  assume "k \<in> ia_indices ?ias"
  then obtain i where i: "i < length ?ias" "k = unat (ia_index_in_transaction (?ias ! i))"
    by (auto simp: ia_indices_def in_set_conv_nth)
  let ?j = "ia_index_in_callee (?ias ! i)"
  have j: "vec_position (\<lambda>ia. ia_index_in_transaction ia = ia_index_in_transaction (?ias ! i)) ?ias = Some (unat ?j)"
    using wf i by (simp add: wf_callee_def)
  then have lt: "unat ?j < length ?ias" and same: "ia_index_in_transaction (?ias ! unat ?j) = ia_index_in_transaction (?ias ! i)"
    by (simp_all add: vec_position_Some)
  have "Some (unat (ia_index_in_callee (?ias ! unat ?j))) = Some (unat ?j)"
    using wf lt j same by (auto simp: wf_callee_def)
  then have self: "ia_index_in_callee (?ias ! unat ?j) = ?j" by (simp only: option.inject word_unat_eq_iff)
  have "unat (of_nat (length ?ias) :: u16) = length ?ias" using len by (simp add: unat_of_nat)
  moreover have "?j \<in> of_nat ` {..<length ?ias}"
    using lt by (intro image_eqI [of _ _ "unat ?j"]) simp_all
  ultimately have "?j \<in> set (map of_nat [0..<unat (get_number_of_instruction_accounts ic)])"
    by (simp add: get_number_of_instruction_accounts_def atLeast_upt)
  then have "tx_index ic ?j < num_accounts tc"
    using assms(1) self unfolding instruction_accounts_lamport_sum_def by (intro lamport_sum_loop_bounded)
  then show "k \<in> {..<num_accounts tc}" using i same by simp
qed

text \<open>
  Two contexts with the same lamport sum for an instruction, that agree on the balances of all
  other accounts, have the same total.
\<close>

lemma total_lamports_by_sum:
  assumes s: "instruction_accounts_lamport_sum s ic = Inr S" and t: "instruction_accounts_lamport_sum t ic' = Inr S"
    and ias: "ic_instruction_accounts ic' = ic_instruction_accounts ic"
    and wf: "wf_callee (ic_instruction_accounts ic)" "length (ic_instruction_accounts ic) < 2 ^ 16"
    and same: "num_accounts t = num_accounts s"
      "\<And>k. k \<notin> ia_indices (ic_instruction_accounts ic) \<Longrightarrow> acc_lamports (account_at t k) = acc_lamports (account_at s k)"
  shows "total_lamports (num_accounts t) (account_at t) = total_lamports (num_accounts s) (account_at s)"
proof -
  let ?I = "ia_indices (ic_instruction_accounts ic)" and ?n = "num_accounts s"
  have I: "?I \<subseteq> {..<?n}" using ia_indices_bounded [OF s wf] .
  have split: "total_lamports ?n m = (\<Sum>k\<in>?I. unat (acc_lamports (m k))) + (\<Sum>k\<in>{..<?n} - ?I. unat (acc_lamports (m k)))" for m
    unfolding total_lamports_def using I by (simp add: sum.subset_diff add.commute)
  have "(\<Sum>k\<in>?I. unat (acc_lamports (account_at t k))) = (\<Sum>k\<in>?I. unat (acc_lamports (account_at s k)))"
    using instruction_accounts_lamport_sum_value [OF s wf]
      instruction_accounts_lamport_sum_value [OF t, unfolded ias, OF wf] by simp
  moreover have "(\<Sum>k\<in>{..<?n} - ?I. unat (acc_lamports (account_at t k))) =
      (\<Sum>k\<in>{..<?n} - ?I. unat (acc_lamports (account_at s k)))"
    by (rule sum.cong) (auto simp: same)
  ultimately show ?thesis by (simp add: split same)
qed

end
