(* ===== verification/Runtime_Safety.thy ===== *)
theory Runtime_Safety
  imports Invoke_Context Lamport_Sums
begin

section \<open>Frames, programs and what survives them\<close>

text \<open>
  The invariant of the instruction stack and trace, and the relation between the transaction
  context before and after any part of the execution of an instruction whose writable accounts are
  the set \<open>W\<close>: account keys, capacities and rent stay, the trace only grows behind its
  completed entries, accounts outside \<open>W\<close> and executable accounts are unchanged, changed accounts
  are touched, resizing stays within its limits and no borrow is left. The relation is closed under
  cross-program invocation, because a callee gets no more writable accounts than its caller has.
\<close>

definition stack_inv :: "transaction_context \<Rightarrow> bool" where
  "stack_inv tc \<longleftrightarrow> tc_instruction_trace tc \<noteq> [] \<and> sorted_wrt (<) (tc_instruction_stack tc) \<and>
     (\<forall>i\<in>set (tc_instruction_stack tc). Suc i < length (tc_instruction_trace tc)) \<and>
     (\<forall>j<length (tc_instruction_stack tc).
        ic_nesting_level (tc_instruction_trace tc ! (tc_instruction_stack tc ! j)) = j) \<and>
     length (tc_instruction_stack tc) \<le> tc_instruction_stack_capacity tc \<and>
     length (tc_instruction_trace tc) \<le> Suc (tc_instruction_trace_capacity tc)"

definition base_rel :: "(nat \<Rightarrow> bool) \<Rightarrow> transaction_context \<Rightarrow> transaction_context \<Rightarrow> bool" where
  "base_rel W s t \<longleftrightarrow>
     tc_account_keys t = tc_account_keys s \<and> tc_rent t = tc_rent s \<and>
     tc_instruction_stack_capacity t = tc_instruction_stack_capacity s \<and>
     tc_instruction_trace_capacity t = tc_instruction_trace_capacity s \<and>
     length (tc_instruction_trace s) \<le> length (tc_instruction_trace t) \<and>
     (\<forall>i. Suc i < length (tc_instruction_trace s) \<longrightarrow> tc_instruction_trace t ! i = tc_instruction_trace s ! i) \<and>
     num_accounts t = num_accounts s \<and> length (touched t) = length (touched s) \<and>
     borrow_flags t = borrow_flags s \<and>
     (\<forall>k. \<not> W k \<or> acc_executable (account_at s k) \<longrightarrow> account_at t k = account_at s k) \<and>
     (\<forall>k<length (touched s). touched s ! k \<longrightarrow> touched t ! k) \<and>
     (\<forall>k. account_at t k \<noteq> account_at s k \<longrightarrow> k < length (touched t) \<and> touched t ! k) \<and>
     resize_rel s t"

lemma base_rel_refl: "base_rel W s s"
  by (simp add: base_rel_def resize_rel_def)

lemma base_rel_trans:
  assumes "base_rel W s t" "base_rel W t u"
  shows "base_rel W s u"
proof -
  have accounts: "\<not> W k \<or> acc_executable (account_at s k) \<Longrightarrow> account_at u k = account_at s k" for k
    using assms unfolding base_rel_def by metis
  have touched: "account_at u k \<noteq> account_at s k \<longrightarrow> k < length (touched u) \<and> touched u ! k" for k
  proof (cases "account_at t k = account_at s k")
    case True
    then show ?thesis using assms(2) unfolding base_rel_def by metis
  next
    case False
    then have "k < length (touched t)" "touched t ! k" using assms(1) by (auto simp: base_rel_def)
    then show ?thesis using assms(2) by (simp add: base_rel_def)
  qed
  have trace: "Suc i < length (tc_instruction_trace s) \<Longrightarrow> tc_instruction_trace u ! i = tc_instruction_trace s ! i" for i
    using assms unfolding base_rel_def by (metis order_less_le_trans)
  have "resize_rel s u" using assms by (simp add: base_rel_def resize_rel_def)
  then show ?thesis using accounts touched trace assms unfolding base_rel_def by auto
qed

lemma base_rel_mono: "base_rel W s t \<Longrightarrow> (\<And>k. W k \<Longrightarrow> W' k) \<Longrightarrow> base_rel W' s t"
  unfolding base_rel_def by blast

lemma base_rel_safe: "safe_rel ic s t \<Longrightarrow> base_rel (writable_at ic) s t"
  unfolding safe_rel_def access_rel_def base_rel_def account_step_def tc_frame_def by auto

interpretation base: effect_preorder "base_rel W" for W
  by unfold_locales (fact base_rel_refl, fact base_rel_trans)

text \<open>Changes of trace and stack alone.\<close>

lemma base_rel_trace:
  assumes "length (tc_instruction_trace s) \<le> length tr"
    and "\<And>i. Suc i < length (tc_instruction_trace s) \<Longrightarrow> tr ! i = tc_instruction_trace s ! i"
  shows "base_rel W s (s\<lparr>tc_instruction_trace := tr\<rparr>)"
  using assms
  by (simp add: base_rel_def resize_rel_def resize_inv_def data_total_def account_at_def borrow_flags_def)

lemma base_rel_stack: "base_rel W s (s\<lparr>tc_instruction_stack := st\<rparr>)"
  by (simp add: base_rel_def resize_rel_def resize_inv_def data_total_def account_at_def borrow_flags_def)

lemma base_rel_return_data: "base_rel W s (s\<lparr>tc_return_data := d\<rparr>)"
  by (simp add: base_rel_def resize_rel_def resize_inv_def data_total_def account_at_def borrow_flags_def)

lemma keeps_update_next: "keeps (base_rel W) (update_next_instruction_context f)"
  by (rule keepsI)
    (auto simp: update_next_instruction_context_def base_rel_refl nth_append nth_butlast intro!: base_rel_trace)

lemma keeps_tc_push: "keeps (base_rel W) tc_push"
  unfolding tc_push_def
  by (intro base.keeps_rules base.keeps_modify keeps_update_next base_rel_stack base_rel_trace)
    (auto simp: nth_append)

lemma keeps_tc_pop: "keeps (base_rel W) tc_pop"
  unfolding tc_pop_def by (intro base.keeps_rules base.keeps_modify base_rel_stack)

subsection \<open>Push and pop\<close>

definition pushed_context :: "transaction_context \<Rightarrow> u128 \<Rightarrow> instruction_context" where
  "pushed_context s S = (last (tc_instruction_trace s))\<lparr>ic_nesting_level := length (tc_instruction_stack s),
     ic_instruction_accounts_lamport_sum := S\<rparr>"

lemma tc_push_okE:
  assumes "tc_push s = (Inr (), t)"
  obtains S where "tc_instruction_trace s \<noteq> []"
    "instruction_accounts_lamport_sum s (last (tc_instruction_trace s)) = Inr S"
    "length (tc_instruction_trace s) - 1 < tc_instruction_trace_capacity s"
    "length (tc_instruction_stack s) < tc_instruction_stack_capacity s"
    "t = s\<lparr>tc_instruction_trace := butlast (tc_instruction_trace s) @ [pushed_context s S, ic_default],
           tc_instruction_stack := tc_instruction_stack s @ [length (tc_instruction_trace s) - 1]\<rparr>"
  using assms unfolding tc_push_def
  by (auto simp: effect_simps update_next_instruction_context_def get_instruction_trace_length_def
      get_instruction_context_stack_height_def pushed_context_def split: if_splits sum.splits prod.splits)

lemma tc_push_err:
  assumes "tc_push s = (Inl e, t)"
  shows "t = s \<or> (tc_instruction_trace s \<noteq> [] \<and>
    (\<exists>S. t = s\<lparr>tc_instruction_trace := butlast (tc_instruction_trace s) @ [pushed_context s S]\<rparr> \<or>
         (length (tc_instruction_trace s) - 1 < tc_instruction_trace_capacity s \<and>
          t = s\<lparr>tc_instruction_trace := butlast (tc_instruction_trace s) @ [pushed_context s S, ic_default]\<rparr>)))"
proof (cases "tc_instruction_trace s = []")
  case True
  then show ?thesis using assms by (simp add: tc_push_def effect_simps)
next
  case False
  show ?thesis
  proof (cases "instruction_accounts_lamport_sum s (last (tc_instruction_trace s))")
    case (Inl e')
    then show ?thesis using assms False by (simp add: tc_push_def effect_simps)
  next
    case (Inr S)
    let ?m = "bind (gets (\<lambda>tc. tc_instruction_stack tc \<noteq> [])) (\<lambda>nested. if nested
           then
             bind (reads get_current_instruction_context) (\<lambda>caller.
             bind (reads (\<lambda>tc. instruction_accounts_lamport_sum tc caller)) (\<lambda>current_sum.
             fail_if (ic_instruction_accounts_lamport_sum caller \<noteq> current_sum) UnbalancedInstruction))
           else return ())"
    have m: "snd (?m s) = s" by (simp add: effect_simps split: sum.splits)
    show ?thesis
      using assms False Inr m
      by (cases "fst (?m s)")
        (auto simp: tc_push_def effect_simps update_next_instruction_context_def get_instruction_trace_length_def
          get_instruction_context_stack_height_def pushed_context_def split: if_splits sum.splits)
  qed
qed

lemma tc_pop_state:
  "tc_instruction_stack s \<noteq> [] \<Longrightarrow>
     snd (tc_pop s) = s\<lparr>tc_instruction_stack := butlast (tc_instruction_stack s)\<rparr>"
  unfolding tc_pop_def by (auto simp: effect_simps split: sum.splits)

lemma tc_pop_ok: "tc_pop s = (Inr (), t) \<Longrightarrow> tc_instruction_stack s \<noteq> [] \<and> detect_unbalanced s = Inr False"
  unfolding tc_pop_def by (auto simp: effect_simps split: sum.splits if_splits)

text \<open>The invariant survives a change of the trace behind the completed entries.\<close>

lemma stack_inv_trace:
  assumes "stack_inv s" "length (tc_instruction_trace s) \<le> length tr"
    and "\<And>i. Suc i < length (tc_instruction_trace s) \<Longrightarrow> tr ! i = tc_instruction_trace s ! i"
    and "length tr \<le> Suc (tc_instruction_trace_capacity s)"
  shows "stack_inv (s\<lparr>tc_instruction_trace := tr\<rparr>)"
proof -
  have "tr ! (tc_instruction_stack s ! j) = tc_instruction_trace s ! (tc_instruction_stack s ! j)"
    if "j < length (tc_instruction_stack s)" for j
    using assms(1) that by (intro assms(3)) (simp add: stack_inv_def)
  then show ?thesis using assms by (fastforce simp: stack_inv_def)
qed

lemma stack_inv_update_next: "stack_inv s \<Longrightarrow> stack_inv (snd (update_next_instruction_context f s))"
  by (auto simp: update_next_instruction_context_def nth_append nth_butlast
      intro!: stack_inv_trace) (simp add: stack_inv_def)

lemma stack_inv_push: "stack_inv s \<Longrightarrow> stack_inv (snd (tc_push s))"
proof -
  assume inv: "stack_inv s"
  obtain r t where rt: "tc_push s = (r, t)" by (cases "tc_push s")
  show ?thesis
  proof (cases r)
    case (Inl e)
    with rt have "tc_push s = (Inl e, t)" by simp
    from tc_push_err [OF this] consider "t = s"
      | S where "tc_instruction_trace s \<noteq> []"
          "t = s\<lparr>tc_instruction_trace := butlast (tc_instruction_trace s) @ [pushed_context s S]\<rparr>"
      | S where "tc_instruction_trace s \<noteq> []" "length (tc_instruction_trace s) - 1 < tc_instruction_trace_capacity s"
          "t = s\<lparr>tc_instruction_trace := butlast (tc_instruction_trace s) @ [pushed_context s S, ic_default]\<rparr>"
      by blast
    then have "stack_inv t"
    proof cases
      case 1
      then show ?thesis using inv by simp
    next
      case (2 S)
      then show ?thesis using inv
        by (auto intro!: stack_inv_trace simp: nth_append nth_butlast) (simp add: stack_inv_def)
    next
      case (3 S)
      then show ?thesis using inv by (auto intro!: stack_inv_trace simp: nth_append nth_butlast)
    qed
    then show ?thesis using rt by simp
  next
    case (Inr u)
    with rt have "tc_push s = (Inr (), t)" by simp
    then obtain S where t: "tc_instruction_trace s \<noteq> []"
      "length (tc_instruction_trace s) - 1 < tc_instruction_trace_capacity s"
      "length (tc_instruction_stack s) < tc_instruction_stack_capacity s"
      "t = s\<lparr>tc_instruction_trace := butlast (tc_instruction_trace s) @ [pushed_context s S, ic_default],
             tc_instruction_stack := tc_instruction_stack s @ [length (tc_instruction_trace s) - 1]\<rparr>"
      by (rule tc_push_okE)
    let ?u = "s\<lparr>tc_instruction_trace := butlast (tc_instruction_trace s) @ [pushed_context s S, ic_default]\<rparr>"
    have "stack_inv ?u" using inv t
      by (auto intro!: stack_inv_trace simp: nth_append nth_butlast)
    moreover have "\<forall>i\<in>set (tc_instruction_stack s). i < length (tc_instruction_trace s) - 1"
      using inv by (auto simp: stack_inv_def)
    moreover have "ic_nesting_level (tc_instruction_trace ?u ! (length (tc_instruction_trace s) - 1)) =
        length (tc_instruction_stack s)"
      by (simp add: nth_append pushed_context_def)
    ultimately have "stack_inv t" using t
      by (auto simp: stack_inv_def sorted_wrt_append nth_append less_Suc_eq)
    then show ?thesis using rt by simp
  qed
qed

lemma stack_inv_pop: "stack_inv s \<Longrightarrow> stack_inv (snd (tc_pop s))"
proof (cases "tc_instruction_stack s = []")
  case True
  then have "snd (tc_pop s) = s" by (simp add: tc_pop_def effect_simps)
  then show "stack_inv s \<Longrightarrow> ?thesis" by simp
next
  case False
  assume "stack_inv s"
  moreover have "sorted_wrt (<) (butlast (tc_instruction_stack s))" if "sorted_wrt (<) (tc_instruction_stack s)"
    using that by (metis False append_butlast_last_id sorted_wrt_append)
  ultimately show ?thesis using False
    by (auto simp: stack_inv_def tc_pop_state nth_butlast dest: in_set_butlastD)
qed

subsection \<open>The invoke context\<close>

abbreviation iv_tc :: "invoke_context \<Rightarrow> transaction_context" where
  "iv_tc \<equiv> iv_transaction_context"

definition iv_rel :: "(nat \<Rightarrow> bool) \<Rightarrow> invoke_context \<Rightarrow> invoke_context \<Rightarrow> bool" where
  "iv_rel W iv iv' \<longleftrightarrow> base_rel W (iv_tc iv) (iv_tc iv') \<and>
     iv_compute_meter iv' \<le> iv_compute_meter iv \<and> iv_compute_budget iv' = iv_compute_budget iv"

interpretation ivr: effect_preorder "iv_rel W" for W
  by unfold_locales (auto simp: iv_rel_def intro: base_rel_refl base_rel_trans)

lemma on_tc_simps:
  "fst (on_tc m iv) = fst (m (iv_tc iv))" "iv_tc (snd (on_tc m iv)) = snd (m (iv_tc iv))"
  "iv_compute_meter (snd (on_tc m iv)) = iv_compute_meter iv"
  "iv_compute_budget (snd (on_tc m iv)) = iv_compute_budget iv"
  by (simp_all add: on_tc_def split: prod.splits)

lemma keeps_on_tc: "keeps (base_rel W) m \<Longrightarrow> keeps (iv_rel W) (on_tc m)"
  by (simp add: keeps_def iv_rel_def on_tc_simps)

lemma keeps_iv_modify:
  assumes "\<And>iv. iv_tc (f iv) = iv_tc iv" "\<And>iv. iv_compute_meter (f iv) \<le> iv_compute_meter iv"
    "\<And>iv. iv_compute_budget (f iv) = iv_compute_budget iv"
  shows "keeps (iv_rel W) (modify f)"
  using assms by (intro ivr.keeps_modify) (simp add: iv_rel_def base_rel_refl)

lemma keeps_invoke_push: "keeps (iv_rel W) invoke_push"
  unfolding invoke_push_def
  by (intro ivr.keeps_rules keeps_iv_modify keeps_on_tc keeps_tc_push) simp_all

lemma keeps_invoke_pop: "keeps (iv_rel W) invoke_pop"
  unfolding invoke_pop_def
  by (intro ivr.keeps_rules keeps_iv_modify keeps_on_tc keeps_tc_pop) (simp_all split: option.splits)

lemma keeps_consume_checked: "keeps (iv_rel W) (consume_checked amount)"
  unfolding consume_checked_def
  by (intro ivr.keeps_rules keeps_iv_modify) (simp_all add: word_le_nat_alt unat_saturating_sub)

text \<open>What a push and a pop of a frame do to the transaction context.\<close>

lemma invoke_push_ok:
  assumes "invoke_push iv = (Inr (), iv')"
  shows "tc_push (iv_tc iv) = (Inr (), iv_tc iv')"
proof -
  from assms obtain v where "on_tc tc_push v = (Inr (), iv')" "iv_tc v = iv_tc iv"
    unfolding invoke_push_def
    by (auto simp: effect_simps split: sum.splits prod.splits if_splits)
  then show ?thesis by (auto simp: on_tc_def split: prod.splits)
qed

lemma invoke_push_err:
  assumes "invoke_push iv = (Inl e, iv')"
  shows "iv_tc iv' = iv_tc iv \<or> tc_push (iv_tc iv) = (Inl e, iv_tc iv')"
  using assms unfolding invoke_push_def
  by (auto simp: effect_simps on_tc_def split: sum.splits prod.splits if_splits)

lemma invoke_pop_tc:
  "iv_tc (snd (invoke_pop iv)) = snd (tc_pop (iv_tc iv))" "fst (invoke_pop iv) = fst (tc_pop (iv_tc iv))"
  unfolding invoke_pop_def by (simp_all add: effect_simps on_tc_simps split: option.splits)

lemma invoke_push_stack:
  assumes "invoke_push iv = (r, iv')" "stack_inv (iv_tc iv)"
  shows "stack_inv (iv_tc iv')" and "r = Inl e \<Longrightarrow> tc_instruction_stack (iv_tc iv') = tc_instruction_stack (iv_tc iv)"
proof -
  show "stack_inv (iv_tc iv')"
  proof (cases r)
    case (Inl e)
    then show ?thesis using assms invoke_push_err [of iv e iv'] stack_inv_push [of "iv_tc iv"] by auto
  next
    case (Inr u)
    then show ?thesis using assms invoke_push_ok [of iv iv'] stack_inv_push [of "iv_tc iv"] by auto
  qed
  assume "r = Inl e"
  then consider "iv_tc iv' = iv_tc iv" | "tc_push (iv_tc iv) = (Inl e, iv_tc iv')"
    using assms invoke_push_err by blast
  then show "tc_instruction_stack (iv_tc iv') = tc_instruction_stack (iv_tc iv)"
    by cases (auto dest: tc_push_err)
qed

text \<open>The current instruction after a push is the one that was configured.\<close>

lemma current_after_push:
  assumes "tc_push s = (Inr (), t)"
  obtains S where "get_current_instruction_context t = Inr (pushed_context s S)"
    "instruction_accounts_lamport_sum s (last (tc_instruction_trace s)) = Inr S"
    "tc_instruction_stack t = tc_instruction_stack s @ [length (tc_instruction_trace s) - 1]"
    "length (tc_instruction_trace t) = Suc (length (tc_instruction_trace s))"
    "tc_instruction_trace t ! (length (tc_instruction_trace s) - 1) = pushed_context s S" "tc_accounts t = tc_accounts s"
    "tc_instruction_trace s \<noteq> []"
  using assms
proof (rule tc_push_okE)
  fix S
  assume t: "tc_instruction_trace s \<noteq> []"
    "instruction_accounts_lamport_sum s (last (tc_instruction_trace s)) = Inr S"
    "t = s\<lparr>tc_instruction_trace := butlast (tc_instruction_trace s) @ [pushed_context s S, ic_default],
           tc_instruction_stack := tc_instruction_stack s @ [length (tc_instruction_trace s) - 1]\<rparr>"
  then show thesis
    by (intro that [of S])
      (auto simp: get_current_instruction_context_def get_instruction_context_stack_height_def
        get_instruction_context_at_nesting_level_def get_instruction_context_at_index_in_trace_def
        vec_get_def nth_append)
qed

lemma current_of_stack:
  "tc_instruction_stack t = st @ [i] \<Longrightarrow> i < length (tc_instruction_trace t) \<Longrightarrow>
     get_current_instruction_context t = Inr (tc_instruction_trace t ! i)"
  by (simp add: get_current_instruction_context_def get_instruction_context_stack_height_def
      get_instruction_context_at_nesting_level_def get_instruction_context_at_index_in_trace_def vec_get_def)

end
