(* ===== verification/Program_Contract.thy ===== *)
theory Program_Contract
  imports Runtime_Safety
begin

section \<open>The contract of a program and the execution of an instruction\<close>

text \<open>
  What the runtime needs of a program, as a locale over the table of loaded programs: run in the
  frame of an instruction, a program changes only the accounts writable there, leaves the
  invocation stack as it found it and spends no negative compute units. From the contract follow,
  for every outcome of \<open>process_instruction\<close>, that the stack is restored and only writable
  accounts of the instruction changed; and when it succeeds, that the total of lamports in the
  transaction is the same. A program that invokes another program keeps the contract.
\<close>

subsection \<open>Effects that change nothing\<close>

interpretation same: effect_preorder "(=)"
  by unfold_locales simp_all

lemma keeps_sameD: "keeps (=) m \<Longrightarrow> snd (m s) = s"
  by (simp add: keeps_def)

lemma set_borrow_at_undo:
  assumes "k < num_accounts tc" "rc_borrow (ta_accounts (tc_accounts tc) ! k) = UNUSED"
  shows "set_borrow_at k UNUSED (set_borrow_at k f tc) = tc"
proof -
  have "(ta_accounts (tc_accounts tc) ! k)\<lparr>rc_borrow := UNUSED\<rparr> = ta_accounts (tc_accounts tc) ! k"
    using assms(2) by (cases "ta_accounts (tc_accounts tc) ! k") simp
  then show ?thesis using assms(1) by (simp add: set_borrow_at_def)
qed

lemma keeps_same_with_instruction_account:
  assumes "\<And>b. keeps (=) (body b)"
  shows "keeps (=) (with_instruction_account ic i body)"
proof (rule keepsI)
  fix tc
  obtain r t where bor: "try_borrow_instruction_account ic i tc = (r, t)"
    by (cases "try_borrow_instruction_account ic i tc")
  show "tc = snd (with_instruction_account ic i body tc)"
  proof (cases r)
    case (Inl e)
    with bor have "t = tc" by (simp add: try_borrow_instruction_account_err)
    then show ?thesis using bor Inl by (simp add: with_instruction_account_def effect_simps)
  next
    case (Inr b)
    with bor have b: "try_borrow_instruction_account ic i tc = (Inr b, t)" by simp
    then obtain k where k: "b = \<lparr>ba_instruction_context = ic, ba_index_in_transaction = k,
        ba_index_in_instruction = saturating_add (get_number_of_program_accounts ic) i\<rparr>"
      "unat k < num_accounts tc" "borrow_flags tc ! unat k = UNUSED"
      "t = set_borrow_at (unat k) WRITING tc"
      by (rule try_borrow_instruction_account_okE)
    have "snd (with_instruction_account ic i body tc) = set_borrow_at (unat k) UNUSED (snd (body b t))"
      using b k(1) by (simp add: with_instruction_account_def effect_simps drop_account_def)
    also have "\<dots> = tc"
      using keeps_sameD [OF assms] k by (simp add: set_borrow_at_undo borrow_flags_def)
    finally show ?thesis by simp
  qed
qed

lemma keeps_same_builtin_id: "keeps (=) (builtin_id_of ic)"
proof (rule keepsI)
  fix tc
  show "tc = snd (builtin_id_of ic tc)"
    by (auto simp: set_borrow_at_undo builtin_id_of_def try_borrow_program_account_def try_borrow_account_def effect_simps
        drop_account_def ta_get_def vec_get_def
        split: sum.splits prod.splits if_splits option.splits)
qed

lemma keeps_same_check_privileges: "keeps (=) (check_privileges caller signers ias)"
  by (induction ias)
    (simp_all only: check_privileges.simps, (intro same.keeps_rules keeps_same_with_instruction_account; assumption)+)

lemma keeps_same_prepare: "keeps (=) (prepare_instruction ix signers)"
  unfolding prepare_instruction_def
  by (intro same.keeps_rules keeps_same_with_instruction_account keeps_same_check_privileges)

subsection \<open>Frames\<close>

text \<open>The state an instruction runs in; account keys of a transaction are unique.\<close>

definition tx_inv :: "transaction_context \<Rightarrow> bool" where
  "tx_inv tc \<longleftrightarrow> stack_inv tc \<and> distinct (tc_account_keys tc) \<and> length (tc_account_keys tc) \<le> 2 ^ 16"

definition frame_rel :: "instruction_context \<Rightarrow> invoke_context \<Rightarrow> invoke_context \<Rightarrow> bool" where
  "frame_rel ic iv iv' \<longleftrightarrow>
     (tx_inv (iv_tc iv) \<and> get_current_instruction_context (iv_tc iv) = Inr ic \<longrightarrow>
      iv_rel (writable_at ic) iv iv' \<and> tx_inv (iv_tc iv') \<and>
      tc_instruction_stack (iv_tc iv') = tc_instruction_stack (iv_tc iv) \<and>
      get_current_instruction_context (iv_tc iv') = Inr ic)"

interpretation fr: effect_preorder "frame_rel ic" for ic
proof
  show "frame_rel ic s s" for s by (simp add: frame_rel_def ivr.R_refl)
  show "frame_rel ic s u" if "frame_rel ic s t" "frame_rel ic t u" for s t u
    using that by (auto simp: frame_rel_def intro: ivr.R_trans)
qed

lemma current_index:
  assumes "stack_inv tc" "get_current_instruction_context tc = Inr ic"
  obtains st i where "tc_instruction_stack tc = st @ [i]" "Suc i < length (tc_instruction_trace tc)"
    "ic = tc_instruction_trace tc ! i"
proof (cases "tc_instruction_stack tc" rule: rev_cases)
  case Nil
  then show thesis using assms(2)
    by (simp add: get_current_instruction_context_def get_instruction_context_stack_height_def)
next
  case (snoc st i)
  moreover from this have i: "Suc i < length (tc_instruction_trace tc)" using assms(1) by (simp add: stack_inv_def)
  ultimately have "ic = tc_instruction_trace tc ! i" using assms(2) current_of_stack by simp
  then show thesis using that snoc i by blast
qed

lemma frame_relI:
  assumes "\<lbrakk>tx_inv (iv_tc iv); get_current_instruction_context (iv_tc iv) = Inr ic\<rbrakk> \<Longrightarrow>
    iv_rel (writable_at ic) iv iv' \<and> stack_inv (iv_tc iv') \<and>
    tc_instruction_stack (iv_tc iv') = tc_instruction_stack (iv_tc iv)"
  shows "frame_rel ic iv iv'"
proof -
  have "tx_inv (iv_tc iv') \<and> get_current_instruction_context (iv_tc iv') = Inr ic"
    if inv: "tx_inv (iv_tc iv)" and current: "get_current_instruction_context (iv_tc iv) = Inr ic"
  proof -
    have rel: "base_rel (writable_at ic) (iv_tc iv) (iv_tc iv')"
      and "stack_inv (iv_tc iv')" and stack: "tc_instruction_stack (iv_tc iv') = tc_instruction_stack (iv_tc iv)"
      using assms that by (simp_all add: iv_rel_def)
    then have "tx_inv (iv_tc iv')" using inv by (simp add: tx_inv_def base_rel_def)
    moreover obtain st i where i: "tc_instruction_stack (iv_tc iv) = st @ [i]"
      "Suc i < length (tc_instruction_trace (iv_tc iv))" "ic = tc_instruction_trace (iv_tc iv) ! i"
      using inv current by (auto simp: tx_inv_def elim: current_index)
    ultimately show ?thesis
      using rel stack current_of_stack [of "iv_tc iv'" st i] by (auto simp: base_rel_def)
  qed
  then show ?thesis using assms by (auto simp: frame_rel_def)
qed

lemma keeps_frame_tc:
  assumes "keeps R m" and "\<And>s t. R s t \<Longrightarrow> base_rel (writable_at ic) s t \<and>
      tc_instruction_stack t = tc_instruction_stack s \<and> tc_instruction_trace t = tc_instruction_trace s"
  shows "keeps (frame_rel ic) (on_tc m)"
proof (rule keepsI, rule frame_relI)
  fix iv
  assume inv: "tx_inv (iv_tc iv)"
  have "R (iv_tc iv) (snd (m (iv_tc iv)))" using assms(1) by (simp add: keeps_def)
  with assms(2) have t: "base_rel (writable_at ic) (iv_tc iv) (snd (m (iv_tc iv)))"
    "tc_instruction_stack (snd (m (iv_tc iv))) = tc_instruction_stack (iv_tc iv)"
    "tc_instruction_trace (snd (m (iv_tc iv))) = tc_instruction_trace (iv_tc iv)" by blast+
  moreover from this(1) have "tc_instruction_stack_capacity (snd (m (iv_tc iv))) = tc_instruction_stack_capacity (iv_tc iv)"
    "tc_instruction_trace_capacity (snd (m (iv_tc iv))) = tc_instruction_trace_capacity (iv_tc iv)"
    by (simp_all add: base_rel_def)
  ultimately show "iv_rel (writable_at ic) iv (snd (on_tc m iv)) \<and> stack_inv (iv_tc (snd (on_tc m iv))) \<and>
      tc_instruction_stack (iv_tc (snd (on_tc m iv))) = tc_instruction_stack (iv_tc iv)"
    using inv by (simp add: on_tc_simps iv_rel_def tx_inv_def stack_inv_def)
qed

lemma keeps_frame_same: "keeps (=) m \<Longrightarrow> keeps (frame_rel ic) (on_tc m)"
  by (rule keeps_frame_tc [where R = "(=)"]) (auto simp: base_rel_refl)

lemma keeps_frame_safe: "keeps (safe_rel ic) m \<Longrightarrow> keeps (frame_rel ic) (on_tc m)"
  by (rule keeps_frame_tc [where R = "safe_rel ic"]) (auto simp: safe_rel_def access_rel_def tc_frame_def base_rel_safe)

lemma keeps_frame_return_data: "keeps (frame_rel ic) (on_tc (set_return_data p d))"
  by (rule keeps_frame_tc [where R = "\<lambda>s t. \<exists>d. t = s\<lparr>tc_return_data := d\<rparr>"])
    (auto simp: keeps_def set_return_data_def modify_apply base_rel_return_data)

lemma keeps_frame_iv:
  assumes "keeps (\<lambda>iv iv'. iv_tc iv' = iv_tc iv \<and> iv_compute_meter iv' \<le> iv_compute_meter iv \<and>
    iv_compute_budget iv' = iv_compute_budget iv) m"
  shows "keeps (frame_rel ic) m"
  using assms by (auto simp: keeps_def iv_rel_def base_rel_refl tx_inv_def intro!: frame_relI)

lemma keeps_bind_lift:
  "(\<And>s. R s s) \<Longrightarrow> (\<And>x. r = Inr x \<Longrightarrow> keeps R (f x)) \<Longrightarrow> keeps R (bind (lift r) f)"
  by (cases r) (simp_all add: keeps_def effect_simps)

subsection \<open>The contract\<close>

definition program_ok :: "unit iv_effect \<Rightarrow> bool" where
  "program_ok f \<longleftrightarrow> (\<forall>ic. wf_ic ic \<longrightarrow> keeps (frame_rel ic) f)"

definition writable_in :: "instruction_account list \<Rightarrow> nat \<Rightarrow> bool" where
  "writable_in ias k \<longleftrightarrow> (\<exists>ia\<in>set ias. ia_is_writable ia \<and> unat (ia_index_in_transaction ia) = k)"

lemma keeps_frame_consume_checked: "keeps (frame_rel ic) (consume_checked amount)"
  by (rule keeps_frame_iv, rule keepsI)
    (simp add: consume_checked_def effect_simps word_le_nat_alt unat_saturating_sub)

lemma program_ok_builtin:
  assumes "\<And>ic. wf_ic ic \<Longrightarrow> keeps (frame_rel ic) m"
  shows "program_ok (declare_process_instruction cu m)"
  using assms unfolding program_ok_def declare_process_instruction_def
  by (intro allI impI fr.keeps_rules keeps_frame_consume_checked) auto

lemma tx_inv_rel: "tx_inv (iv_tc iv) \<Longrightarrow> iv_rel W iv iv' \<Longrightarrow> stack_inv (iv_tc iv') \<Longrightarrow> tx_inv (iv_tc iv')"
  by (simp add: tx_inv_def iv_rel_def base_rel_def)

text \<open>The stages of \<open>process_instruction\<close>: configuration, push, and the program between push and pop.\<close>

definition configured ::
  "index_of_account list \<Rightarrow> instruction_account list \<Rightarrow> bytes \<Rightarrow> transaction_context \<Rightarrow> transaction_context" where
  "configured ps ias data tc = tc\<lparr>tc_instruction_trace :=
     butlast (tc_instruction_trace tc) @ [ic_configure ps ias data (last (tc_instruction_trace tc))]\<rparr>"

lemma configured_facts:
  assumes "tx_inv tc"
  shows "tx_inv (configured ps ias data tc)" "base_rel W tc (configured ps ias data tc)"
    "tc_instruction_stack (configured ps ias data tc) = tc_instruction_stack tc"
    "last (tc_instruction_trace (configured ps ias data tc)) = ic_configure ps ias data (last (tc_instruction_trace tc))"
    "tc_instruction_trace (configured ps ias data tc) \<noteq> []"
    "account_at (configured ps ias data tc) = account_at tc" "num_accounts (configured ps ias data tc) = num_accounts tc"
proof -
  have ne: "tc_instruction_trace tc \<noteq> []" using assms by (simp add: tx_inv_def stack_inv_def)
  have upd: "update_next_instruction_context (ic_configure ps ias data) tc = (Inr (), configured ps ias data tc)"
    using ne by (simp add: update_next_instruction_context_def configured_def)
  show "base_rel W tc (configured ps ias data tc)"
    using keeps_update_next [THEN keepsD, OF upd] .
  show "tx_inv (configured ps ias data tc)"
    using assms stack_inv_update_next [of tc "ic_configure ps ias data"] upd
    by (simp add: tx_inv_def configured_def)
qed (simp_all add: configured_def account_at_def fun_eq_iff)

lemma process_instruction_cases:
  assumes "process_instruction programs data ias ps iv = (r, iv')" "tx_inv (iv_tc iv)"
  obtains (push_failed) v e where "iv_tc v = configured ps ias data (iv_tc iv)"
      "iv_compute_meter v = iv_compute_meter iv" "iv_compute_budget v = iv_compute_budget iv"
      "invoke_push v = (Inl e, iv')" "r = Inl e"
  | (ran) v u result w where "iv_tc v = configured ps ias data (iv_tc iv)"
      "iv_compute_meter v = iv_compute_meter iv" "iv_compute_budget v = iv_compute_budget iv"
      "invoke_push v = (Inr (), u)" "process_executable_chain programs u = (result, w)"
      "iv' = snd (invoke_pop w)" "r = (case result of Inl e \<Rightarrow> Inl e | Inr _ \<Rightarrow> fst (invoke_pop w))"
proof -
  let ?v = "iv\<lparr>iv_compute_units_consumed := 0, iv_transaction_context := configured ps ias data (iv_tc iv)\<rparr>"
  have "tc_instruction_trace (iv_tc iv) \<noteq> []" using assms(2) by (simp add: tx_inv_def stack_inv_def)
  then have "on_tc (update_next_instruction_context (ic_configure ps ias data))
      (iv\<lparr>iv_compute_units_consumed := 0\<rparr>) = (Inr (), ?v)"
    by (simp add: on_tc_def update_next_instruction_context_def configured_def)
  then have run: "bind invoke_push (\<lambda>_. run_then_pop (process_executable_chain programs)) ?v = (r, iv')"
    using assms(1)
    by (simp add: process_instruction_def bind_apply [of "modify _"] bind_apply [of "on_tc _"] modify_apply)
  show thesis
  proof (cases "invoke_push ?v")
    case (Pair p u)
    show ?thesis
    proof (cases p)
      case (Inl e)
      then show ?thesis using run Pair by (intro push_failed [of ?v e]) (simp_all add: bind_apply)
    next
      case (Inr x)
      obtain result w where chain: "process_executable_chain programs u = (result, w)"
        by (cases "process_executable_chain programs u")
      obtain popped iv'' where "invoke_pop w = (popped, iv'')" by (cases "invoke_pop w")
      then show ?thesis using run Pair Inr chain
        by (intro ran [of ?v u result w]) (auto simp: bind_apply run_then_pop_def split: sum.splits)
    qed
  qed
qed

locale program_contract =
  fixes programs :: program_table
  assumes programs_ok: "lookup_entrypoint programs builtin_id = Inr f \<Longrightarrow> program_ok f"
begin

lemma chain_ok: "program_ok (process_executable_chain programs)"
  unfolding program_ok_def
proof (intro allI impI)
  fix ic
  assume wf: "wf_ic ic"
  have run: "keeps (frame_rel ic) (run_entrypoint builtin_id program_id f)"
    if "lookup_entrypoint programs builtin_id = Inr f" for builtin_id program_id f
  proof (rule keepsI)
    fix iv
    have "frame_rel ic iv (snd (f iv))" using programs_ok [OF that] wf by (simp add: program_ok_def keeps_def)
    then show "frame_rel ic iv (snd (run_entrypoint builtin_id program_id f iv))"
      by (auto simp: run_entrypoint_def Let_def frame_rel_def iv_rel_def split: prod.splits)
  qed
  show "keeps (frame_rel ic) (process_executable_chain programs)"
    unfolding process_executable_chain_def
    by (intro fr.keeps_bind keeps_bind_lift fr.R_refl keeps_frame_same same.keeps_rules
        keeps_same_builtin_id keeps_frame_return_data run)
qed

lemma process_instruction_ran:
  assumes inv: "tx_inv (iv_tc iv)" and len: "length ps + length ias < 2 ^ 16"
    and v: "iv_tc v = configured ps ias data (iv_tc iv)" "invoke_push v = (Inr (), u)"
    and run: "process_executable_chain programs u = (result, w)"
  obtains S ic where "iv_rel (writable_in ias) u w" "tx_inv (iv_tc w)"
    "tc_instruction_stack (iv_tc w) = tc_instruction_stack (iv_tc u)"
    "get_current_instruction_context (iv_tc w) = Inr ic"
    "ic_instruction_accounts ic = ias" "ic_instruction_accounts_lamport_sum ic = S"
    "instruction_accounts_lamport_sum (iv_tc v) (last (tc_instruction_trace (iv_tc v))) = Inr S"
    "ic_instruction_accounts (last (tc_instruction_trace (iv_tc v))) = ias"
    "\<exists>i. tc_instruction_stack (iv_tc u) = tc_instruction_stack (iv_tc iv) @ [i]"
proof -
  have push: "tc_push (iv_tc v) = (Inr (), iv_tc u)" using invoke_push_ok [OF v(2)] .
  then obtain S where S: "get_current_instruction_context (iv_tc u) = Inr (pushed_context (iv_tc v) S)"
    "instruction_accounts_lamport_sum (iv_tc v) (last (tc_instruction_trace (iv_tc v))) = Inr S"
    "tc_instruction_stack (iv_tc u) =
       tc_instruction_stack (iv_tc v) @ [length (tc_instruction_trace (iv_tc v)) - 1]"
    by (rule current_after_push)
  let ?ic = "pushed_context (iv_tc v) S"
  have conf: "tx_inv (iv_tc v)" "tc_instruction_stack (iv_tc v) = tc_instruction_stack (iv_tc iv)"
    "ic_instruction_accounts (last (tc_instruction_trace (iv_tc v))) = ias"
    "ic_program_accounts (last (tc_instruction_trace (iv_tc v))) = ps"
    using configured_facts [OF inv] v(1) by (simp_all add: ic_configure_def)
  have ic: "ic_instruction_accounts ?ic = ias" "ic_program_accounts ?ic = ps"
    "ic_instruction_accounts_lamport_sum ?ic = S"
    using conf by (simp_all add: pushed_context_def)
  have "tc_account_keys (iv_tc u) = tc_account_keys (iv_tc v)"
    using keeps_tc_push [THEN keepsD, OF push] by (simp add: base_rel_def)
  then have "tx_inv (iv_tc u)"
    using conf(1) stack_inv_push [of "iv_tc v"] push by (simp add: tx_inv_def)
  moreover have "keeps (frame_rel ?ic) (process_executable_chain programs)"
    using chain_ok len ic by (simp add: program_ok_def wf_ic_def)
  then have "frame_rel ?ic u w" using run by (rule keepsD)
  moreover have "writable_at ?ic = writable_in ias"
    using ic by (simp add: fun_eq_iff writable_at_def writable_in_def)
  ultimately show thesis using S ic conf by (intro that [of ?ic S]) (simp_all add: frame_rel_def)
qed

lemma process_instruction_frame:
  assumes inv: "tx_inv (iv_tc iv)" and len: "length ps + length ias < 2 ^ 16"
    and run: "process_instruction programs data ias ps iv = (r, iv')"
  shows "iv_rel (writable_in ias) iv iv' \<and> tx_inv (iv_tc iv') \<and>
    tc_instruction_stack (iv_tc iv') = tc_instruction_stack (iv_tc iv)"
  using run inv
proof (cases rule: process_instruction_cases)
  case (push_failed v e)
  have "iv_rel (writable_in ias) iv v" using push_failed configured_facts [OF inv] by (simp add: iv_rel_def)
  moreover have rel: "iv_rel (writable_in ias) v iv'" using keeps_invoke_push push_failed(4) by (rule keepsD)
  moreover have "stack_inv (iv_tc v)" using push_failed configured_facts(1) [OF inv] by (simp add: tx_inv_def)
  then have "stack_inv (iv_tc iv')" "tc_instruction_stack (iv_tc iv') = tc_instruction_stack (iv_tc v)"
    using invoke_push_stack [OF push_failed(4)] by auto
  ultimately show ?thesis
    using push_failed(1) configured_facts(3) [OF inv] tx_inv_rel [OF inv] by (auto dest: ivr.R_trans)
next
  case (ran v u result w)
  obtain S ic where w:
    "iv_rel (writable_in ias) u w" "tx_inv (iv_tc w)"
    "tc_instruction_stack (iv_tc w) = tc_instruction_stack (iv_tc u)"
    "get_current_instruction_context (iv_tc w) = Inr ic"
    "ic_instruction_accounts ic = ias" "ic_instruction_accounts_lamport_sum ic = S"
    "instruction_accounts_lamport_sum (iv_tc v) (last (tc_instruction_trace (iv_tc v))) = Inr S"
    "ic_instruction_accounts (last (tc_instruction_trace (iv_tc v))) = ias"
    "\<exists>i. tc_instruction_stack (iv_tc u) = tc_instruction_stack (iv_tc iv) @ [i]"
    by (rule process_instruction_ran [OF inv len ran(1,4,5)])
  have pop: "iv_tc iv' = snd (tc_pop (iv_tc w))" using ran(6) invoke_pop_tc by simp
  have "iv_rel (writable_in ias) iv v" using ran configured_facts [OF inv] by (simp add: iv_rel_def)
  moreover have "iv_rel (writable_in ias) v u" using keeps_invoke_push ran(4) by (rule keepsD)
  moreover note w(1)
  moreover have "iv_rel (writable_in ias) w iv'"
    using keeps_invoke_pop [THEN keepsD, OF surjective_pairing] ran(6) by simp
  ultimately have "iv_rel (writable_in ias) iv iv'" by (blast intro: ivr.R_trans)
  moreover have "stack_inv (iv_tc iv')" using pop stack_inv_pop w(2) by (simp add: tx_inv_def)
  moreover have "tc_instruction_stack (iv_tc iv') = tc_instruction_stack (iv_tc iv)"
    using pop w(3,9) by (auto simp: tc_pop_state)
  ultimately show ?thesis using tx_inv_rel [OF inv] by blast
qed

text \<open>A successful instruction neither creates nor destroys lamports.\<close>

lemma process_instruction_conserves:
  assumes inv: "tx_inv (iv_tc iv)" and len: "length ps + length ias < 2 ^ 16" and wf: "wf_callee ias"
    and run: "process_instruction programs data ias ps iv = (Inr (), iv')"
  shows "total_lamports (num_accounts (iv_tc iv')) (account_at (iv_tc iv')) =
    total_lamports (num_accounts (iv_tc iv)) (account_at (iv_tc iv))"
  using run inv
proof (cases rule: process_instruction_cases)
  case (ran v u result w)
  obtain S ic where w:
    "iv_rel (writable_in ias) u w" "tx_inv (iv_tc w)"
    "tc_instruction_stack (iv_tc w) = tc_instruction_stack (iv_tc u)"
    "get_current_instruction_context (iv_tc w) = Inr ic"
    "ic_instruction_accounts ic = ias" "ic_instruction_accounts_lamport_sum ic = S"
    "instruction_accounts_lamport_sum (iv_tc v) (last (tc_instruction_trace (iv_tc v))) = Inr S"
    "ic_instruction_accounts (last (tc_instruction_trace (iv_tc v))) = ias"
    "\<exists>i. tc_instruction_stack (iv_tc u) = tc_instruction_stack (iv_tc iv) @ [i]"
    by (rule process_instruction_ran [OF inv len ran(1,4,5)])
  have "fst (tc_pop (iv_tc w)) = Inr ()" using ran(7) invoke_pop_tc(2) by (simp split: sum.splits)
  then have pop: "tc_pop (iv_tc w) = (Inr (), iv_tc iv')"
    using ran(6) invoke_pop_tc(1) by (metis prod.collapse)
  then have sum: "instruction_accounts_lamport_sum (iv_tc w) ic = Inr S"
    using tc_pop_ok [OF pop] w(4,6) by (auto simp: detect_unbalanced_def and_then_Inr)
  have accounts: "account_at (iv_tc iv') = account_at (iv_tc w)" "num_accounts (iv_tc iv') = num_accounts (iv_tc w)"
    using pop tc_pop_ok [OF pop] tc_pop_state [of "iv_tc w"] by (simp_all add: account_at_def fun_eq_iff)
  have vw: "iv_rel (writable_in ias) v w"
    using ivr.R_trans [OF keepsD [OF keeps_invoke_push ran(4)] w(1)] .
  have "total_lamports (num_accounts (iv_tc w)) (account_at (iv_tc w)) =
      total_lamports (num_accounts (iv_tc v)) (account_at (iv_tc v))"
  proof (rule total_lamports_by_sum [OF w(7) sum])
    fix k
    assume "k \<notin> ia_indices (ic_instruction_accounts (last (tc_instruction_trace (iv_tc v))))"
    then have "\<not> writable_in ias k" using w(8) by (auto simp: ia_indices_def writable_in_def)
    then show "acc_lamports (account_at (iv_tc w) k) = acc_lamports (account_at (iv_tc v) k)"
      using vw by (simp add: iv_rel_def base_rel_def)
  qed (use w wf len vw in \<open>simp_all add: iv_rel_def base_rel_def\<close>)
  then show ?thesis using accounts ran(1) configured_facts(6,7) [OF inv] by simp
qed simp

end

end
