(* ===== verification/Message.thy ===== *)
theory Message
  imports System_Instruction Sysvar_Cache
begin

section \<open>Messages\<close>

text \<open>
  \<open>sdk/program/src/message\<close>: legacy and version 0 messages, their sanitization, the account keys
  a message loads, and which of them sign, are writable or are invoked. A \<open>None\<close> of
  \<^term>\<open>legacy_is_writable\<close> is the panic of an index past the account keys, which a sanitized
  message does not meet. Subtraction on \<open>u8\<close> and \<open>usize\<close> wraps, as in a release build.
\<close>

subsection \<open>Keys that are never writable\<close>

definition config_program_id :: pubkey where
  "config_program_id = [3, 6, 74, 163, 0, 47, 116, 220, 200, 110, 67, 49, 15, 12, 5, 42, 248, 197, 218, 39,
     246, 16, 64, 25, 163, 35, 239, 160, 0, 0, 0, 0]"

definition feature_id :: pubkey where
  "feature_id = [3, 192, 160, 205, 203, 6, 210, 218, 239, 174, 130, 209, 111, 238, 122, 207, 97,
     236, 115, 123, 35, 72, 27, 33, 148, 106, 118, 112, 0, 0, 0, 0]"

definition stake_program_id :: pubkey where
  "stake_program_id = [6, 161, 216, 23, 145, 55, 84, 42, 152, 52, 55, 189, 254, 42, 122, 178, 85, 127, 83,
     92, 138, 120, 114, 43, 104, 164, 157, 192, 0, 0, 0, 0]"

definition stake_config_id :: pubkey where
  "stake_config_id = [6, 161, 216, 23, 165, 2, 5, 11, 104, 7, 145, 230, 206, 109, 184, 142, 30, 91, 113,
     80, 246, 31, 198, 121, 10, 78, 180, 209, 0, 0, 0, 0]"

definition vote_program_id :: pubkey where
  "vote_program_id = [7, 97, 72, 29, 53, 116, 116, 187, 124, 77, 118, 36, 235, 211, 189, 179, 216, 53,
     94, 115, 209, 16, 67, 252, 13, 163, 83, 128, 0, 0, 0, 0]"

definition bpf_loader_id :: pubkey where
  "bpf_loader_id = [2, 168, 246, 145, 78, 136, 161, 110, 57, 90, 225, 40, 148, 143, 250, 105, 86, 147,
     55, 104, 24, 221, 71, 67, 82, 33, 243, 198, 0, 0, 0, 0]"

definition bpf_loader_deprecated_id :: pubkey where
  "bpf_loader_deprecated_id = [2, 168, 246, 145, 78, 136, 161, 107, 189, 35, 149, 133, 95, 100, 4, 217, 180, 244,
     86, 183, 130, 27, 176, 20, 87, 73, 66, 140, 0, 0, 0, 0]"

definition bpf_loader_upgradeable_id :: pubkey where
  "bpf_loader_upgradeable_id = [2, 168, 246, 145, 78, 136, 161, 176, 226, 16, 21, 62, 247, 99, 174, 43, 0, 194,
     185, 61, 22, 193, 36, 210, 192, 83, 122, 16, 4, 128, 0, 0]"

definition sysvar_rewards_id :: pubkey where
  "sysvar_rewards_id = [6, 167, 213, 23, 25, 44, 97, 55, 206, 224, 146, 217, 182, 146, 62, 225, 204, 214,
     25, 3, 250, 130, 184, 161, 97, 145, 87, 141, 128, 0, 0, 0]"

definition sysvar_slot_history_id :: pubkey where
  "sysvar_slot_history_id = [6, 167, 213, 23, 25, 47, 10, 175, 200, 117, 226, 225, 132, 87, 124, 80, 105, 207,
     200, 70, 73, 227, 235, 146, 120, 47, 149, 141, 72, 0, 0, 0]"

definition secp256k1_program_id :: pubkey where
  "secp256k1_program_id = [4, 198, 252, 32, 240, 80, 204, 240, 85, 132, 215, 33, 28, 159, 140, 245, 158, 193,
     71, 133, 187, 22, 106, 30, 40, 48, 232, 18, 32, 0, 0, 0]"

definition ed25519_program_id :: pubkey where
  "ed25519_program_id = [3, 125, 70, 214, 124, 147, 251, 190, 18, 249, 66, 143, 131, 141, 64, 255, 5, 112,
     116, 73, 39, 244, 138, 100, 252, 202, 112, 68, 128, 0, 0, 0]"

definition sysvar_all_ids :: "pubkey list" where
  "sysvar_all_ids = [sysvar_clock_id, sysvar_epoch_schedule_id, sysvar_fees_id, sysvar_recent_blockhashes_id,
     sysvar_rent_id, sysvar_rewards_id, sysvar_slot_hashes_id, sysvar_slot_history_id,
     sysvar_stake_history_id, sysvar_instructions_id]"

definition is_sysvar_id :: "pubkey \<Rightarrow> bool" where
  "is_sysvar_id pk = list_ex (\<lambda>key. key = pk) sysvar_all_ids"

definition BUILTIN_PROGRAMS_KEYS :: "pubkey list" where
  "BUILTIN_PROGRAMS_KEYS = [config_program_id, feature_id, native_loader_id, stake_program_id, stake_config_id,
     vote_program_id, system_program_id, bpf_loader_id, bpf_loader_deprecated_id, bpf_loader_upgradeable_id]"

text \<open>The table indexed by the first byte of a key; a key is 32 bytes long.\<close>

definition MAYBE_BUILTIN_KEY_OR_SYSVAR :: "bool list" where
  "MAYBE_BUILTIN_KEY_OR_SYSVAR =
     fold (\<lambda>key table. table[unat (hd key) := True]) (BUILTIN_PROGRAMS_KEYS @ sysvar_all_ids) (replicate 256 False)"

definition is_builtin_key_or_sysvar :: "pubkey \<Rightarrow> bool" where
  "is_builtin_key_or_sysvar key =
     (if MAYBE_BUILTIN_KEY_OR_SYSVAR ! unat (hd key)
      then is_sysvar_id key \<or> key \<in> set BUILTIN_PROGRAMS_KEYS
      else False)"

subsection \<open>Legacy messages\<close>

datatype sanitize_error = IndexOutOfBounds | ValueOutOfBounds | InvalidValue

record message_header =
  mh_num_required_signatures :: u8
  mh_num_readonly_signed_accounts :: u8
  mh_num_readonly_unsigned_accounts :: u8

record compiled_instruction =
  ci_program_id_index :: u8
  ci_accounts :: "u8 list"
  ci_data :: bytes

record legacy_message =
  lm_header :: message_header
  lm_account_keys :: "pubkey list"
  lm_recent_blockhash :: hash
  lm_instructions :: "compiled_instruction list"

fun sanitize_indices :: "nat \<Rightarrow> u8 list \<Rightarrow> sanitize_error + unit" where
  "sanitize_indices n [] = Inr ()"
| "sanitize_indices n (ai # ais) = (if n \<le> unat ai then Inl IndexOutOfBounds else sanitize_indices n ais)"

fun legacy_sanitize_instructions :: "nat \<Rightarrow> compiled_instruction list \<Rightarrow> sanitize_error + unit" where
  "legacy_sanitize_instructions n [] = Inr ()"
| "legacy_sanitize_instructions n (ci # rest) =
     (if n \<le> unat (ci_program_id_index ci) then Inl IndexOutOfBounds
      else if ci_program_id_index ci = 0 then Inl IndexOutOfBounds
      else and_then (sanitize_indices n (ci_accounts ci)) (\<lambda>_. legacy_sanitize_instructions n rest))"

text \<open>The recursive calls on keys, hash and instructions use the default body and do nothing.\<close>

definition legacy_sanitize :: "legacy_message \<Rightarrow> sanitize_error + unit" where
  "legacy_sanitize m =
     (if length (lm_account_keys m) <
           unat (mh_num_required_signatures (lm_header m)) + unat (mh_num_readonly_unsigned_accounts (lm_header m))
      then Inl IndexOutOfBounds
      else if mh_num_required_signatures (lm_header m) \<le> mh_num_readonly_signed_accounts (lm_header m)
      then Inl IndexOutOfBounds
      else legacy_sanitize_instructions (length (lm_account_keys m)) (lm_instructions m))"

definition index_called_as_program :: "compiled_instruction list \<Rightarrow> nat \<Rightarrow> bool" where
  "index_called_as_program ixs key_index =
     (if key_index < 256 then list_ex (\<lambda>ix. ci_program_id_index ix = of_nat key_index) ixs else False)"

definition index_passed_to_program :: "compiled_instruction list \<Rightarrow> nat \<Rightarrow> bool" where
  "index_passed_to_program ixs key_index =
     (if key_index < 256 then list_ex (\<lambda>ix. of_nat key_index \<in> set (ci_accounts ix)) ixs else False)"

definition legacy_is_key_called_as_program :: "legacy_message \<Rightarrow> nat \<Rightarrow> bool" where
  "legacy_is_key_called_as_program m key_index = index_called_as_program (lm_instructions m) key_index"

definition legacy_is_upgradeable_loader_present :: "legacy_message \<Rightarrow> bool" where
  "legacy_is_upgradeable_loader_present m = list_ex (\<lambda>key. key = bpf_loader_upgradeable_id) (lm_account_keys m)"

definition legacy_demote_program_id :: "legacy_message \<Rightarrow> nat \<Rightarrow> bool" where
  "legacy_demote_program_id m i \<longleftrightarrow>
     legacy_is_key_called_as_program m i \<and> \<not> legacy_is_upgradeable_loader_present m"

definition usize_wrapping_sub :: "nat \<Rightarrow> nat \<Rightarrow> nat" where
  "usize_wrapping_sub a b = (a + 2 ^ 64 - b) mod 2 ^ 64"

definition legacy_is_writable_index :: "legacy_message \<Rightarrow> nat \<Rightarrow> bool" where
  "legacy_is_writable_index m i \<longleftrightarrow>
     i < unat (mh_num_required_signatures (lm_header m) - mh_num_readonly_signed_accounts (lm_header m)) \<or>
     (unat (mh_num_required_signatures (lm_header m)) \<le> i \<and>
      i < usize_wrapping_sub (length (lm_account_keys m)) (unat (mh_num_readonly_unsigned_accounts (lm_header m))))"

definition legacy_is_writable :: "legacy_message \<Rightarrow> nat \<Rightarrow> bool option" where
  "legacy_is_writable m i =
     (if legacy_is_writable_index m i
      then map_option (\<lambda>key. \<not> is_builtin_key_or_sysvar key \<and> \<not> legacy_demote_program_id m i)
             (vec_get (lm_account_keys m) i)
      else Some False)"

definition legacy_is_signer :: "legacy_message \<Rightarrow> nat \<Rightarrow> bool" where
  "legacy_is_signer m i \<longleftrightarrow> i < unat (mh_num_required_signatures (lm_header m))"

definition legacy_has_duplicates :: "legacy_message \<Rightarrow> bool" where
  "legacy_has_duplicates m =
     list_ex (\<lambda>i. lm_account_keys m ! (i - 1) \<in> set (drop i (lm_account_keys m))) [1..<length (lm_account_keys m)]"

definition legacy_signer_keys :: "legacy_message \<Rightarrow> pubkey list" where
  "legacy_signer_keys m =
     take (min (length (lm_account_keys m)) (unat (mh_num_required_signatures (lm_header m)))) (lm_account_keys m)"

subsection \<open>Account keys\<close>

record loaded_addresses =
  la_writable :: "pubkey list"
  la_readonly :: "pubkey list"

record account_keys =
  ak_static_keys :: "pubkey list"
  ak_dynamic_keys :: "loaded_addresses option"

definition key_segment_iter :: "account_keys \<Rightarrow> pubkey list list" where
  "key_segment_iter ak =
     (case ak_dynamic_keys ak of
        Some dynamic_keys \<Rightarrow> [ak_static_keys ak, la_writable dynamic_keys, la_readonly dynamic_keys]
      | None \<Rightarrow> [ak_static_keys ak, [], []])"

fun segments_get :: "pubkey list list \<Rightarrow> nat \<Rightarrow> pubkey option" where
  "segments_get [] index = None"
| "segments_get (segment # segments) index =
     (if index < length segment then Some (segment ! index) else segments_get segments (index - length segment))"

definition account_keys_get :: "account_keys \<Rightarrow> nat \<Rightarrow> pubkey option" where
  "account_keys_get ak index = segments_get (key_segment_iter ak) index"

definition account_keys_len :: "account_keys \<Rightarrow> nat" where
  "account_keys_len ak = fold (\<lambda>segment len. usize_saturating_add len (length segment)) (key_segment_iter ak) 0"

definition account_keys_iter :: "account_keys \<Rightarrow> pubkey list" where
  "account_keys_iter ak = concat (key_segment_iter ak)"

subsection \<open>Version 0 messages\<close>

record message_address_table_lookup =
  tl_account_key :: pubkey
  tl_writable_indexes :: "u8 list"
  tl_readonly_indexes :: "u8 list"

record v0_message =
  v0_header :: message_header
  v0_account_keys :: "pubkey list"
  v0_recent_blockhash :: hash
  v0_instructions :: "compiled_instruction list"
  v0_address_table_lookups :: "message_address_table_lookup list"

fun v0_num_dynamic_keys :: "message_address_table_lookup list \<Rightarrow> nat \<Rightarrow> sanitize_error + nat" where
  "v0_num_dynamic_keys [] total_lookup_keys = Inr total_lookup_keys"
| "v0_num_dynamic_keys (lookup # lookups) total_lookup_keys =
     (let num_lookup_indexes =
            usize_saturating_add (length (tl_writable_indexes lookup)) (length (tl_readonly_indexes lookup))
      in if num_lookup_indexes = 0 then Inl InvalidValue
         else v0_num_dynamic_keys lookups (usize_saturating_add total_lookup_keys num_lookup_indexes))"

fun v0_sanitize_instructions :: "nat \<Rightarrow> nat \<Rightarrow> compiled_instruction list \<Rightarrow> sanitize_error + unit" where
  "v0_sanitize_instructions max_program_id_ix max_account_ix [] = Inr ()"
| "v0_sanitize_instructions max_program_id_ix max_account_ix (ci # rest) =
     (if max_program_id_ix < unat (ci_program_id_index ci) then Inl IndexOutOfBounds
      else if ci_program_id_index ci = 0 then Inl IndexOutOfBounds
      else if list_ex (\<lambda>ai. max_account_ix < unat ai) (ci_accounts ci) then Inl IndexOutOfBounds
      else v0_sanitize_instructions max_program_id_ix max_account_ix rest)"

definition v0_sanitize :: "v0_message \<Rightarrow> sanitize_error + unit" where
  "v0_sanitize m =
     (let num_static_account_keys = length (v0_account_keys m) in
      if num_static_account_keys <
           usize_saturating_add (unat (mh_num_required_signatures (v0_header m)))
             (unat (mh_num_readonly_unsigned_accounts (v0_header m)))
      then Inl IndexOutOfBounds
      else if mh_num_required_signatures (v0_header m) \<le> mh_num_readonly_signed_accounts (v0_header m)
      then Inl InvalidValue
      else and_then (v0_num_dynamic_keys (v0_address_table_lookups m) 0) (\<lambda>num_dynamic_account_keys.
        if num_static_account_keys = 0 then Inl InvalidValue
        else (let total_account_keys = usize_saturating_add num_static_account_keys num_dynamic_account_keys in
          if 256 < total_account_keys then Inl IndexOutOfBounds
          else v0_sanitize_instructions (num_static_account_keys - 1) (total_account_keys - 1) (v0_instructions m))))"

record loaded_message =
  ld_message :: v0_message
  ld_loaded_addresses :: loaded_addresses
  ld_is_writable_account_cache :: "bool list"

definition loaded_account_keys :: "loaded_message \<Rightarrow> account_keys" where
  "loaded_account_keys lm =
     \<lparr>ak_static_keys = v0_account_keys (ld_message lm), ak_dynamic_keys = Some (ld_loaded_addresses lm)\<rparr>"

text \<open>The \<open>HashSet\<close> of keys seen so far is a list.\<close>

fun any_duplicate :: "pubkey list \<Rightarrow> pubkey list \<Rightarrow> bool" where
  "any_duplicate uniq [] = False"
| "any_duplicate uniq (x # xs) = (if x \<in> set uniq then True else any_duplicate (x # uniq) xs)"

definition loaded_has_duplicates :: "loaded_message \<Rightarrow> bool" where
  "loaded_has_duplicates lm = any_duplicate [] (account_keys_iter (loaded_account_keys lm))"

definition loaded_is_writable_index :: "loaded_message \<Rightarrow> nat \<Rightarrow> bool" where
  "loaded_is_writable_index lm key_index =
     (let header = v0_header (ld_message lm);
          num_account_keys = length (v0_account_keys (ld_message lm));
          num_signed_accounts = unat (mh_num_required_signatures header)
      in if num_account_keys \<le> key_index
         then key_index - num_account_keys < length (la_writable (ld_loaded_addresses lm))
         else if num_signed_accounts \<le> key_index
         then (let num_unsigned_accounts = num_account_keys - num_signed_accounts;
                   num_writable_unsigned_accounts =
                     num_unsigned_accounts - unat (mh_num_readonly_unsigned_accounts header)
               in key_index - num_signed_accounts < num_writable_unsigned_accounts)
         else key_index < num_signed_accounts - unat (mh_num_readonly_signed_accounts header))"

definition loaded_is_key_called_as_program :: "loaded_message \<Rightarrow> nat \<Rightarrow> bool" where
  "loaded_is_key_called_as_program lm key_index = index_called_as_program (v0_instructions (ld_message lm)) key_index"

definition loaded_is_upgradeable_loader_present :: "loaded_message \<Rightarrow> bool" where
  "loaded_is_upgradeable_loader_present lm =
     list_ex (\<lambda>key. key = bpf_loader_upgradeable_id) (account_keys_iter (loaded_account_keys lm))"

definition loaded_demote_program_id :: "loaded_message \<Rightarrow> nat \<Rightarrow> bool" where
  "loaded_demote_program_id lm i \<longleftrightarrow>
     loaded_is_key_called_as_program lm i \<and> \<not> loaded_is_upgradeable_loader_present lm"

definition loaded_is_writable_internal :: "loaded_message \<Rightarrow> nat \<Rightarrow> bool" where
  "loaded_is_writable_internal lm key_index =
     (if loaded_is_writable_index lm key_index
      then (case account_keys_get (loaded_account_keys lm) key_index of
              Some key \<Rightarrow> \<not> (is_builtin_key_or_sysvar key \<or> loaded_demote_program_id lm key_index)
            | None \<Rightarrow> False)
      else False)"

definition loaded_message_new :: "v0_message \<Rightarrow> loaded_addresses \<Rightarrow> loaded_message" where
  "loaded_message_new message addresses =
     (let lm = \<lparr>ld_message = message, ld_loaded_addresses = addresses, ld_is_writable_account_cache = []\<rparr>
      in lm\<lparr>ld_is_writable_account_cache :=
        map (loaded_is_writable_internal lm) [0..<length (account_keys_iter (loaded_account_keys lm))]\<rparr>)"

definition loaded_is_writable :: "loaded_message \<Rightarrow> nat \<Rightarrow> bool" where
  "loaded_is_writable lm key_index =
     (case vec_get (ld_is_writable_account_cache lm) key_index of Some w \<Rightarrow> w | None \<Rightarrow> False)"

subsection \<open>Sanitized messages\<close>

record legacy_sanitized =
  ls_message :: legacy_message
  ls_is_writable_account_cache :: "bool list"

text \<open>Every index of the cache is below the number of keys, so no entry panics.\<close>

definition legacy_sanitized_new :: "legacy_message \<Rightarrow> legacy_sanitized" where
  "legacy_sanitized_new m =
     \<lparr>ls_message = m,
      ls_is_writable_account_cache =
        map (\<lambda>i. legacy_is_writable m i = Some True) [0..<length (lm_account_keys m)]\<rparr>"

datatype sanitized_message = Legacy legacy_sanitized | V0 loaded_message

datatype versioned_message = VLegacy legacy_message | VV0 v0_message

datatype 'e sanitize_message_error = SanitizeErr sanitize_error | AddressLoaderError 'e

definition versioned_sanitize :: "versioned_message \<Rightarrow> sanitize_error + unit" where
  "versioned_sanitize m = (case m of VLegacy l \<Rightarrow> legacy_sanitize l | VV0 v \<Rightarrow> v0_sanitize v)"

text \<open>The address loader, which reads the lookup tables of a bank, is an argument.\<close>

definition sanitized_message_try_new ::
  "(message_address_table_lookup list \<Rightarrow> 'e + loaded_addresses) \<Rightarrow> versioned_message \<Rightarrow>
     'e sanitize_message_error + sanitized_message" where
  "sanitized_message_try_new load_addresses m =
     (case m of
        VLegacy message \<Rightarrow> Inr (Legacy (legacy_sanitized_new message))
      | VV0 message \<Rightarrow>
          and_then (map_err AddressLoaderError (load_addresses (v0_address_table_lookups message))) (\<lambda>addresses.
            Inr (V0 (loaded_message_new message addresses))))"

definition try_from_legacy_message :: "legacy_message \<Rightarrow> 'e sanitize_message_error + sanitized_message" where
  "try_from_legacy_message m =
     and_then (map_err SanitizeErr (legacy_sanitize m)) (\<lambda>_. Inr (Legacy (legacy_sanitized_new m)))"

definition msg_header :: "sanitized_message \<Rightarrow> message_header" where
  "msg_header m = (case m of Legacy l \<Rightarrow> lm_header (ls_message l) | V0 l \<Rightarrow> v0_header (ld_message l))"

definition msg_has_duplicates :: "sanitized_message \<Rightarrow> bool" where
  "msg_has_duplicates m =
     (case m of Legacy l \<Rightarrow> legacy_has_duplicates (ls_message l) | V0 l \<Rightarrow> loaded_has_duplicates l)"

definition msg_recent_blockhash :: "sanitized_message \<Rightarrow> hash" where
  "msg_recent_blockhash m =
     (case m of Legacy l \<Rightarrow> lm_recent_blockhash (ls_message l) | V0 l \<Rightarrow> v0_recent_blockhash (ld_message l))"

definition msg_instructions :: "sanitized_message \<Rightarrow> compiled_instruction list" where
  "msg_instructions m =
     (case m of Legacy l \<Rightarrow> lm_instructions (ls_message l) | V0 l \<Rightarrow> v0_instructions (ld_message l))"

definition msg_account_keys :: "sanitized_message \<Rightarrow> account_keys" where
  "msg_account_keys m =
     (case m of
        Legacy l \<Rightarrow> \<lparr>ak_static_keys = lm_account_keys (ls_message l), ak_dynamic_keys = None\<rparr>
      | V0 l \<Rightarrow> loaded_account_keys l)"

text \<open>\<open>None\<close> is the panic of \<open>expect\<close>.\<close>

definition msg_fee_payer :: "sanitized_message \<Rightarrow> pubkey option" where
  "msg_fee_payer m = account_keys_get (msg_account_keys m) 0"

definition program_instructions_iter :: "sanitized_message \<Rightarrow> (pubkey option \<times> compiled_instruction) list" where
  "program_instructions_iter m =
     map (\<lambda>ix. (account_keys_get (msg_account_keys m) (unat (ci_program_id_index ix)), ix)) (msg_instructions m)"

definition msg_is_invoked :: "sanitized_message \<Rightarrow> nat \<Rightarrow> bool" where
  "msg_is_invoked m key_index =
     (case m of
        Legacy l \<Rightarrow> legacy_is_key_called_as_program (ls_message l) key_index
      | V0 l \<Rightarrow> loaded_is_key_called_as_program l key_index)"

definition msg_is_key_passed_to_program :: "sanitized_message \<Rightarrow> nat \<Rightarrow> bool" where
  "msg_is_key_passed_to_program m key_index = index_passed_to_program (msg_instructions m) key_index"

definition msg_is_non_loader_key :: "sanitized_message \<Rightarrow> nat \<Rightarrow> bool" where
  "msg_is_non_loader_key m key_index \<longleftrightarrow> \<not> msg_is_invoked m key_index \<or> msg_is_key_passed_to_program m key_index"

definition msg_is_writable :: "sanitized_message \<Rightarrow> nat \<Rightarrow> bool" where
  "msg_is_writable m index =
     (case m of
        Legacy l \<Rightarrow> (case vec_get (ls_is_writable_account_cache l) index of Some w \<Rightarrow> w | None \<Rightarrow> False)
      | V0 l \<Rightarrow> loaded_is_writable l index)"

definition msg_is_signer :: "sanitized_message \<Rightarrow> nat \<Rightarrow> bool" where
  "msg_is_signer m index \<longleftrightarrow> index < unat (mh_num_required_signatures (msg_header m))"

definition msg_num_readonly_accounts :: "sanitized_message \<Rightarrow> nat" where
  "msg_num_readonly_accounts m =
     (let loaded_readonly_addresses =
            (case m of V0 l \<Rightarrow> length (la_readonly (ld_loaded_addresses l)) | Legacy _ \<Rightarrow> 0)
      in usize_saturating_add
           (usize_saturating_add loaded_readonly_addresses (unat (mh_num_readonly_signed_accounts (msg_header m))))
           (unat (mh_num_readonly_unsigned_accounts (msg_header m))))"

definition msg_num_write_locks :: "sanitized_message \<Rightarrow> nat" where
  "msg_num_write_locks m = account_keys_len (msg_account_keys m) - msg_num_readonly_accounts m"

definition get_ix_signers :: "sanitized_message \<Rightarrow> nat \<Rightarrow> pubkey list" where
  "get_ix_signers m ix_index =
     (case vec_get (msg_instructions m) ix_index of
        None \<Rightarrow> []
      | Some ix \<Rightarrow> List.map_filter (\<lambda>i. account_keys_get (msg_account_keys m) i)
          (filter (msg_is_signer m) (map unat (ci_accounts ix))))"

definition NONCED_TX_MARKER_IX_INDEX :: nat where
  "NONCED_TX_MARKER_IX_INDEX = 0"

text \<open>The decoder of system instructions with a limit on the bytes read is an argument.\<close>

definition get_durable_nonce ::
  "(nat \<Rightarrow> bytes \<Rightarrow> system_instruction option) \<Rightarrow> sanitized_message \<Rightarrow> pubkey option" where
  "get_durable_nonce decode m =
     (case vec_get (msg_instructions m) NONCED_TX_MARKER_IX_INDEX of
        None \<Rightarrow> None
      | Some ix \<Rightarrow>
          if account_keys_get (msg_account_keys m) (unat (ci_program_id_index ix)) \<noteq> Some system_program_id then None
          else if decode 4 (ci_data ix) \<noteq> Some AdvanceNonceAccount then None
          else (case ci_accounts ix of
                  [] \<Rightarrow> None
                | idx # _ \<Rightarrow>
                    if \<not> msg_is_writable m (unat idx) then None
                    else account_keys_get (msg_account_keys m) (unat idx)))"

record transaction_signature_details =
  sd_num_transaction_signatures :: u64
  sd_num_secp256k1_instruction_signatures :: u64
  sd_num_ed25519_instruction_signatures :: u64

fun count_precompile_signatures ::
  "(pubkey option \<times> compiled_instruction) list \<Rightarrow> transaction_signature_details \<Rightarrow> transaction_signature_details" where
  "count_precompile_signatures [] details = details"
| "count_precompile_signatures ((program_id, instruction) # rest) details =
     count_precompile_signatures rest
       (case ci_data instruction of
          [] \<Rightarrow> details
        | num_verifies # _ \<Rightarrow>
            if program_id = Some secp256k1_program_id
            then details\<lparr>sd_num_secp256k1_instruction_signatures :=
                   saturating_add (sd_num_secp256k1_instruction_signatures details) (ucast num_verifies)\<rparr>
            else if program_id = Some ed25519_program_id
            then details\<lparr>sd_num_ed25519_instruction_signatures :=
                   saturating_add (sd_num_ed25519_instruction_signatures details) (ucast num_verifies)\<rparr>
            else details)"

definition get_signature_details :: "sanitized_message \<Rightarrow> transaction_signature_details" where
  "get_signature_details m =
     count_precompile_signatures (program_instructions_iter m)
       \<lparr>sd_num_transaction_signatures = ucast (mh_num_required_signatures (msg_header m)),
        sd_num_secp256k1_instruction_signatures = 0, sd_num_ed25519_instruction_signatures = 0\<rparr>"

definition total_signatures :: "transaction_signature_details \<Rightarrow> u64" where
  "total_signatures d =
     saturating_add (saturating_add (sd_num_transaction_signatures d) (sd_num_secp256k1_instruction_signatures d))
       (sd_num_ed25519_instruction_signatures d)"

definition msg_num_signatures :: "sanitized_message \<Rightarrow> u64" where
  "msg_num_signatures m = total_signatures (get_signature_details m)"

record borrowed_account_meta =
  bam_pubkey :: pubkey
  bam_is_signer :: bool
  bam_is_writable :: bool

record borrowed_instruction =
  bi_program_id :: pubkey
  bi_accounts :: "borrowed_account_meta list"
  bi_data :: bytes

text \<open>\<open>None\<close> is the panic of an \<open>unwrap\<close> or \<open>expect\<close>.\<close>

fun decompile_accounts :: "sanitized_message \<Rightarrow> u8 list \<Rightarrow> borrowed_account_meta list option" where
  "decompile_accounts m [] = Some []"
| "decompile_accounts m (ai # ais) =
     (case account_keys_get (msg_account_keys m) (unat ai) of
        None \<Rightarrow> None
      | Some key \<Rightarrow> map_option (\<lambda>metas.
          \<lparr>bam_pubkey = key, bam_is_signer = msg_is_signer m (unat ai), bam_is_writable = msg_is_writable m (unat ai)\<rparr> # metas)
          (decompile_accounts m ais))"

fun decompile_list :: "sanitized_message \<Rightarrow> (pubkey option \<times> compiled_instruction) list \<Rightarrow> borrowed_instruction list option" where
  "decompile_list m [] = Some []"
| "decompile_list m ((program_id, ix) # rest) =
     (case (program_id, decompile_accounts m (ci_accounts ix)) of
        (Some p, Some metas) \<Rightarrow>
          map_option (\<lambda>is. \<lparr>bi_program_id = p, bi_accounts = metas, bi_data = ci_data ix\<rparr> # is) (decompile_list m rest)
      | _ \<Rightarrow> None)"

definition decompile_instructions :: "sanitized_message \<Rightarrow> borrowed_instruction list option" where
  "decompile_instructions m = decompile_list m (program_instructions_iter m)"

end
