(* ===== verification/Vote_Program.thy ===== *)
theory Vote_Program
  imports Vote_Authority Vote_Updates Program_Contract System_Program Account_Specs Message
begin

section \<open>The vote program\<close>

text \<open>
  The account level of \<open>programs/vote/src/vote_state/mod.rs\<close> and the entry point in
  \<open>programs/vote/src/vote_processor.rs\<close>. The environment holds the sysvar cache and the features that the
  program asks for; the codec of the stored states, the decoder of instructions and the hash function are
  third-party functions. A panic is represented by the error \<open>ProgramFailedToComplete\<close>. The set of
  signers is a list of keys.
\<close>

datatype (plugins only: code) vote_instruction =
    InitializeAccount vote_init
  | Authorize pubkey vote_authorize
  | Vote vote
  | Withdraw u64
  | UpdateValidatorIdentity
  | UpdateCommission u8
  | VoteSwitch vote hash
  | AuthorizeChecked vote_authorize
  | UpdateVoteState vote_state_update
  | UpdateVoteStateSwitch vote_state_update hash
  | AuthorizeWithSeed vote_authorize pubkey bytes pubkey
  | AuthorizeCheckedWithSeed vote_authorize pubkey bytes
  | CompactUpdateVoteState vote_state_update
  | CompactUpdateVoteStateSwitch vote_state_update hash

record vote_env =
  ve_sysvar_cache :: sysvar_cache
  ve_sha256 :: "bytes \<Rightarrow> hash"
  ve_state :: "vote_state_versions bincode"
  ve_decode :: "u64 \<Rightarrow> bytes \<Rightarrow> vote_instruction option"
  ve_add_vote_latency :: bool
  ve_timely_vote_credits :: bool
  ve_deprecate_legacy_vote :: bool
  ve_allow_commission_decrease :: bool
  ve_commission_first_half :: bool

definition vote_DEFAULT_COMPUTE_UNITS :: u64 where "vote_DEFAULT_COMPUTE_UNITS = 2100"

definition get_epoch_schedule :: "sysvar_cache \<Rightarrow> instruction_error + epoch_schedule" where
  "get_epoch_schedule c = ok_or (sc_epoch_schedule c) UnsupportedSysvar"

text \<open>An operation on a local copy of the state: the copy is dropped when the operation fails.\<close>

definition on_copy ::
  "('e \<Rightarrow> instruction_error) \<Rightarrow> (vote_state, 'e fault, 'a) effect \<Rightarrow> vote_state \<Rightarrow> instruction_error + vote_state" where
  "on_copy into m vs =
     (case m vs of
        (Inl (Fails e), _) \<Rightarrow> Inl (into e)
      | (Inl Panic, _) \<Rightarrow> Inl ProgramFailedToComplete
      | (Inr _, vs') \<Rightarrow> Inr vs')"

text \<open>\<open>m.is_err()\<close>: the result of the call decides, its effect stays.\<close>

definition succeeds :: "('s, 'e, 'a) effect \<Rightarrow> ('s, 'e, bool) effect" where
  "succeeds m = (\<lambda>s. case m s of (r, s') \<Rightarrow> (Inr (is_ok r), s'))"

subsection \<open>Reading and storing the state\<close>

definition make_room_for_current :: "vote_env \<Rightarrow> borrowed_account \<Rightarrow> bool tc_effect" where
  "make_room_for_current env b =
     (if ve_add_vote_latency env
      then bind (gets (get_data b)) (\<lambda>data.
           if length data < vote_state_size_of True
           then bind (gets (is_rent_exempt_at_data_length b (vote_state_size_of True))) (\<lambda>exempt.
                if \<not> exempt then return False else succeeds (set_data_length b (vote_state_size_of True)))
           else return True)
      else return False)"

definition set_vote_account_state :: "vote_env \<Rightarrow> borrowed_account \<Rightarrow> vote_state \<Rightarrow> unit tc_effect" where
  "set_vote_account_state env b vs =
     bind (make_room_for_current env b) (\<lambda>current.
       set_state (ve_state env) b (if current then CurrentState vs else V1_14_11 (vote_state_1_14_11_from vs)))"

definition get_vote_state :: "vote_env \<Rightarrow> borrowed_account \<Rightarrow> transaction_context \<Rightarrow> instruction_error + vote_state" where
  "get_vote_state env b tc = and_then (get_state (ve_state env) b tc) (\<lambda>versioned. Inr (convert_to_current versioned))"

definition verify_authorized_signer :: "pubkey \<Rightarrow> pubkey list \<Rightarrow> instruction_error + unit" where
  "verify_authorized_signer authorized_key signers =
     (if authorized_key \<in> set signers then Inr () else Inl MissingRequiredSignature)"

subsection \<open>The handlers\<close>

definition authorize ::
  "vote_env \<Rightarrow> borrowed_account \<Rightarrow> pubkey \<Rightarrow> vote_authorize \<Rightarrow> pubkey list \<Rightarrow> clock \<Rightarrow> unit tc_effect" where
  "authorize env b authorized_key kind signers clock =
     bind (reads (get_vote_state env b)) (\<lambda>vs.
     bind (lift (case kind of
         Voter \<Rightarrow>
           let authorized_withdrawer_signer = is_ok (verify_authorized_signer (vs_authorized_withdrawer vs) signers) in
           and_then (ok_or (checked_add (ck_leader_schedule_epoch clock) 1) ProgramFailedToComplete) (\<lambda>target_epoch.
             on_copy (\<lambda>e. e) (set_new_authorized_voter authorized_key (ck_epoch clock) target_epoch
               (\<lambda>epoch_authorized_voter.
                  if authorized_withdrawer_signer then Inr ()
                  else verify_authorized_signer epoch_authorized_voter signers)) vs)
       | Withdrawer \<Rightarrow>
           and_then (verify_authorized_signer (vs_authorized_withdrawer vs) signers) (\<lambda>_.
             Inr (vs\<lparr>vs_authorized_withdrawer := authorized_key\<rparr>)))) (\<lambda>vs.
       set_vote_account_state env b vs))"

definition update_validator_identity ::
  "vote_env \<Rightarrow> borrowed_account \<Rightarrow> pubkey \<Rightarrow> pubkey list \<Rightarrow> unit tc_effect" where
  "update_validator_identity env b node_pubkey signers =
     bind (reads (get_vote_state env b)) (\<lambda>vs.
     bind (lift (verify_authorized_signer (vs_authorized_withdrawer vs) signers)) (\<lambda>_.
     bind (lift (verify_authorized_signer node_pubkey signers)) (\<lambda>_.
       set_vote_account_state env b (vs\<lparr>vs_node_pubkey := node_pubkey\<rparr>))))"

definition is_commission_increase :: "vote_state \<Rightarrow> u8 \<Rightarrow> bool" where
  "is_commission_increase vs commission \<longleftrightarrow> vs_commission vs < commission"

definition is_commission_update_allowed :: "u64 \<Rightarrow> epoch_schedule \<Rightarrow> bool" where
  "is_commission_update_allowed slot es =
     (if es_slots_per_epoch es = 0 then True
      else saturating_mul (saturating_sub slot (es_first_normal_slot es) mod es_slots_per_epoch es) 2
             \<le> es_slots_per_epoch es)"

definition update_commission ::
  "vote_env \<Rightarrow> borrowed_account \<Rightarrow> u8 \<Rightarrow> pubkey list \<Rightarrow> epoch_schedule \<Rightarrow> clock \<Rightarrow> unit tc_effect" where
  "update_commission env b commission signers es clock =
     bind (gets (get_vote_state env b)) (\<lambda>decoded.
     let enforce_commission_update_rule =
           (if ve_allow_commission_decrease env
            then (case decoded of Inr vs \<Rightarrow> is_commission_increase vs commission | Inl _ \<Rightarrow> True)
            else True) in
     bind (fail_if (enforce_commission_update_rule \<and> ve_commission_first_half env \<and>
              \<not> is_commission_update_allowed (ck_slot clock) es) (vote_error_into CommissionUpdateTooLate)) (\<lambda>_.
     bind (lift decoded) (\<lambda>vs.
     bind (lift (verify_authorized_signer (vs_authorized_withdrawer vs) signers)) (\<lambda>_.
       set_vote_account_state env b (vs\<lparr>vs_commission := commission\<rparr>)))))"

definition initialize_account ::
  "vote_env \<Rightarrow> borrowed_account \<Rightarrow> vote_init \<Rightarrow> pubkey list \<Rightarrow> clock \<Rightarrow> unit tc_effect" where
  "initialize_account env b init signers clock =
     bind (gets (get_data b)) (\<lambda>data.
     bind (fail_if (length data \<noteq> vote_state_size_of (ve_add_vote_latency env)) InvalidAccountData) (\<lambda>_.
     bind (reads (get_state (ve_state env) b)) (\<lambda>versioned.
     bind (fail_if (\<not> is_uninitialized versioned) AccountAlreadyInitialized) (\<lambda>_.
     bind (lift (verify_authorized_signer (vi_node_pubkey init) signers)) (\<lambda>_.
       set_vote_account_state env b (vote_state_new init clock))))))"

definition verify_and_get_vote_state ::
  "vote_env \<Rightarrow> borrowed_account \<Rightarrow> clock \<Rightarrow> pubkey list \<Rightarrow> transaction_context \<Rightarrow> instruction_error + vote_state" where
  "verify_and_get_vote_state env b clock signers tc =
     and_then (get_state (ve_state env) b tc) (\<lambda>versioned.
       if is_uninitialized versioned then Inl UninitializedAccount
       else on_copy (\<lambda>e. e)
              (bind (get_and_update_authorized_voter (ck_epoch clock)) (\<lambda>authorized_voter.
                 lift (map_err Fails (verify_authorized_signer authorized_voter signers))))
              (convert_to_current versioned))"

definition process_vote_with_account ::
  "vote_env \<Rightarrow> borrowed_account \<Rightarrow> slot_hashes \<Rightarrow> clock \<Rightarrow> vote \<Rightarrow> pubkey list \<Rightarrow> unit tc_effect" where
  "process_vote_with_account env b slot_hashes clock vote signers =
     bind (reads (verify_and_get_vote_state env b clock signers)) (\<lambda>vs.
     bind (lift (on_copy vote_error_into
             (bind (process_vote vote slot_hashes (ck_epoch clock) (ck_slot clock)
                      (ve_timely_vote_credits env) (ve_deprecate_legacy_vote env)) (\<lambda>_.
              case vt_timestamp vote of
                None \<Rightarrow> return ()
              | Some timestamp \<Rightarrow>
                  bind (fail_if (vt_slots vote = []) (Fails EmptySlots)) (\<lambda>_.
                    process_timestamp (Max (set (vt_slots vote))) timestamp))) vs)) (\<lambda>vs.
       set_vote_account_state env b vs))"

definition process_vote_state_update ::
  "vote_env \<Rightarrow> borrowed_account \<Rightarrow> slot_hashes \<Rightarrow> clock \<Rightarrow> vote_state_update \<Rightarrow> pubkey list \<Rightarrow> unit tc_effect" where
  "process_vote_state_update env b slot_hashes clock update signers =
     bind (reads (verify_and_get_vote_state env b clock signers)) (\<lambda>vs.
     bind (lift (on_copy vote_error_into
             (do_process_vote_state_update slot_hashes (ck_epoch clock) (ck_slot clock) update
                (ve_timely_vote_credits env) (ve_deprecate_legacy_vote env)) vs)) (\<lambda>vs.
       set_vote_account_state env b vs))"

definition withdraw ::
  "vote_env \<Rightarrow> instruction_context \<Rightarrow> index_of_account \<Rightarrow> u64 \<Rightarrow> index_of_account \<Rightarrow> pubkey list \<Rightarrow> rent \<Rightarrow> clock
     \<Rightarrow> unit tc_effect" where
  "withdraw env ic vote_account_index lamports to_account_index signers rent_sysvar clock =
     bind (with_instruction_account ic vote_account_index (\<lambda>vote_account.
       bind (reads (get_vote_state env vote_account)) (\<lambda>vs.
       bind (lift (verify_authorized_signer (vs_authorized_withdrawer vs) signers)) (\<lambda>_.
       bind (reads (\<lambda>tc. ok_or (checked_sub (get_lamports vote_account tc) lamports) InsufficientFunds)) (\<lambda>remaining_balance.
       bind (if remaining_balance = 0
             then let reject_active_vote_account_close =
                        (vs_epoch_credits vs \<noteq> [] \<and>
                         saturating_sub (ck_epoch clock) (fst (last (vs_epoch_credits vs))) < 2)
                  in if reject_active_vote_account_close then throw (vote_error_into ActiveVoteAccountClose)
                     else set_vote_account_state env vote_account vote_state_default
             else bind (gets (get_data vote_account)) (\<lambda>data.
                    fail_if (remaining_balance < minimum_balance rent_sysvar (length data)) InsufficientFunds)) (\<lambda>_.
         checked_sub_lamports vote_account lamports)))))) (\<lambda>_.
     with_instruction_account ic to_account_index (\<lambda>to_account. checked_add_lamports to_account lamports))"

subsection \<open>The entry point\<close>

definition process_authorize_with_seed_instruction ::
  "vote_env \<Rightarrow> instruction_context \<Rightarrow> borrowed_account \<Rightarrow> pubkey \<Rightarrow> vote_authorize \<Rightarrow> pubkey \<Rightarrow> bytes \<Rightarrow> unit tc_effect" where
  "process_authorize_with_seed_instruction env ic b new_authority kind key_owner key_seed =
     bind (reads (checked_clock (ve_sysvar_cache env) ic 1)) (\<lambda>clock.
     bind (lift (is_instruction_account_signer ic 2)) (\<lambda>signed.
     bind (if signed
           then bind (reads (key_of_instruction_account ic 2)) (\<lambda>base_pubkey.
                bind (lift (map_err pubkey_error_into (create_with_seed (ve_sha256 env) base_pubkey key_seed key_owner))) (\<lambda>key.
                  return [key]))
           else return []) (\<lambda>expected_authority_keys.
       authorize env b new_authority kind expected_authority_keys clock)))"

text \<open>A new authority that is an account of the instruction and has to sign.\<close>

definition signing_authority :: "instruction_context \<Rightarrow> index_of_account \<Rightarrow> pubkey tc_effect" where
  "signing_authority ic i =
     bind (reads (key_of_instruction_account ic i)) (\<lambda>key.
     bind (lift (is_instruction_account_signer ic i)) (\<lambda>signed.
     bind (fail_if (\<not> signed) MissingRequiredSignature) (\<lambda>_.
       return key)))"

definition vote_with_sysvar_accounts ::
  "vote_env \<Rightarrow> instruction_context \<Rightarrow> borrowed_account \<Rightarrow> pubkey list \<Rightarrow> vote \<Rightarrow> unit tc_effect" where
  "vote_with_sysvar_accounts env ic me signers vote =
     bind (reads (checked_slot_hashes (ve_sysvar_cache env) ic 1)) (\<lambda>slot_hashes.
     bind (reads (checked_clock (ve_sysvar_cache env) ic 2)) (\<lambda>clock.
       process_vote_with_account env me slot_hashes clock vote signers))"

definition update_with_sysvar_cache ::
  "vote_env \<Rightarrow> borrowed_account \<Rightarrow> pubkey list \<Rightarrow> vote_state_update \<Rightarrow> unit tc_effect" where
  "update_with_sysvar_cache env me signers update =
     bind (lift (get_slot_hashes (ve_sysvar_cache env))) (\<lambda>slot_hashes.
     bind (lift (get_clock (ve_sysvar_cache env))) (\<lambda>clock.
       process_vote_state_update env me slot_hashes clock update signers))"

text \<open>
  The arms of the match while the vote account is borrowed. \<open>Withdraw\<close> only reads its sysvars here and
  returns its arguments: it runs after the borrow has been dropped.
\<close>

fun vote_instruction_on_account ::
  "vote_env \<Rightarrow> instruction_context \<Rightarrow> borrowed_account \<Rightarrow> pubkey list \<Rightarrow> vote_instruction \<Rightarrow>
     (u64 \<times> rent \<times> clock) option tc_effect" where
  "vote_instruction_on_account env ic me signers (InitializeAccount init) =
     bind (reads (checked_rent (ve_sysvar_cache env) ic 1)) (\<lambda>rent.
     bind (gets (\<lambda>tc. is_exempt rent (get_lamports me tc) (length (get_data me tc)))) (\<lambda>exempt.
     bind (fail_if (\<not> exempt) InsufficientFunds) (\<lambda>_.
     bind (reads (checked_clock (ve_sysvar_cache env) ic 2)) (\<lambda>clock.
     bind (initialize_account env me init signers clock) (\<lambda>_. return None)))))"
| "vote_instruction_on_account env ic me signers (Authorize voter_pubkey kind) =
     bind (reads (checked_clock (ve_sysvar_cache env) ic 1)) (\<lambda>clock.
     bind (authorize env me voter_pubkey kind signers clock) (\<lambda>_. return None))"
| "vote_instruction_on_account env ic me signers (AuthorizeWithSeed kind key_owner key_seed new_authority) =
     bind (lift (check_number_of_instruction_accounts ic 3)) (\<lambda>_.
     bind (process_authorize_with_seed_instruction env ic me new_authority kind key_owner key_seed) (\<lambda>_. return None))"
| "vote_instruction_on_account env ic me signers (AuthorizeCheckedWithSeed kind key_owner key_seed) =
     bind (lift (check_number_of_instruction_accounts ic 4)) (\<lambda>_.
     bind (signing_authority ic 3) (\<lambda>new_authority.
     bind (process_authorize_with_seed_instruction env ic me new_authority kind key_owner key_seed) (\<lambda>_. return None)))"
| "vote_instruction_on_account env ic me signers UpdateValidatorIdentity =
     bind (lift (check_number_of_instruction_accounts ic 2)) (\<lambda>_.
     bind (reads (key_of_instruction_account ic 1)) (\<lambda>node_pubkey.
     bind (update_validator_identity env me node_pubkey signers) (\<lambda>_. return None)))"
| "vote_instruction_on_account env ic me signers (UpdateCommission commission) =
     bind (lift (get_epoch_schedule (ve_sysvar_cache env))) (\<lambda>epoch_schedule.
     bind (lift (get_clock (ve_sysvar_cache env))) (\<lambda>clock.
     bind (update_commission env me commission signers epoch_schedule clock) (\<lambda>_. return None)))"
| "vote_instruction_on_account env ic me signers (Vote vote) =
     bind (vote_with_sysvar_accounts env ic me signers vote) (\<lambda>_. return None)"
| "vote_instruction_on_account env ic me signers (VoteSwitch vote _) =
     bind (vote_with_sysvar_accounts env ic me signers vote) (\<lambda>_. return None)"
| "vote_instruction_on_account env ic me signers (UpdateVoteState update) =
     bind (update_with_sysvar_cache env me signers update) (\<lambda>_. return None)"
| "vote_instruction_on_account env ic me signers (UpdateVoteStateSwitch update _) =
     bind (update_with_sysvar_cache env me signers update) (\<lambda>_. return None)"
| "vote_instruction_on_account env ic me signers (CompactUpdateVoteState update) =
     bind (update_with_sysvar_cache env me signers update) (\<lambda>_. return None)"
| "vote_instruction_on_account env ic me signers (CompactUpdateVoteStateSwitch update _) =
     bind (update_with_sysvar_cache env me signers update) (\<lambda>_. return None)"
| "vote_instruction_on_account env ic me signers (Withdraw lamports) =
     bind (lift (check_number_of_instruction_accounts ic 2)) (\<lambda>_.
     bind (lift (get_rent (ve_sysvar_cache env))) (\<lambda>rent_sysvar.
     bind (lift (get_clock (ve_sysvar_cache env))) (\<lambda>clock_sysvar.
       return (Some (lamports, rent_sysvar, clock_sysvar)))))"
| "vote_instruction_on_account env ic me signers (AuthorizeChecked kind) =
     bind (lift (check_number_of_instruction_accounts ic 4)) (\<lambda>_.
     bind (signing_authority ic 3) (\<lambda>voter_pubkey.
     bind (reads (checked_clock (ve_sysvar_cache env) ic 1)) (\<lambda>clock.
     bind (authorize env me voter_pubkey kind signers clock) (\<lambda>_. return None))))"

definition vote_on_account ::
  "vote_env \<Rightarrow> instruction_context \<Rightarrow> borrowed_account \<Rightarrow> (pubkey list \<times> (u64 \<times> rent \<times> clock) option) tc_effect" where
  "vote_on_account env ic me =
     bind (gets (get_owner me)) (\<lambda>owner.
     bind (fail_if (owner \<noteq> vote_program_id) InvalidAccountOwner) (\<lambda>_.
     bind (reads (get_signers ic)) (\<lambda>signers.
     bind (lift (limited_deserialize (ve_decode env) (ic_instruction_data ic))) (\<lambda>instruction.
     bind (vote_instruction_on_account env ic me signers instruction) (\<lambda>pending.
       return (signers, pending))))))"

definition vote_in_frame :: "vote_env \<Rightarrow> instruction_context \<Rightarrow> unit tc_effect" where
  "vote_in_frame env ic =
     bind (with_instruction_account ic 0 (vote_on_account env ic)) (\<lambda>(signers, pending).
     case pending of
       None \<Rightarrow> return ()
     | Some (lamports, rent_sysvar, clock_sysvar) \<Rightarrow> withdraw env ic 0 lamports 1 signers rent_sysvar clock_sysvar)"

definition vote_process_instruction :: "vote_env \<Rightarrow> unit tc_effect" where
  "vote_process_instruction env = bind (reads get_current_instruction_context) (vote_in_frame env)"

subsection \<open>The handlers stay inside the access contract\<close>

lemma keeps_succeeds: "keeps R m \<Longrightarrow> keeps R (succeeds m)"
  by (simp add: keeps_def succeeds_def case_prod_beta)

lemma keeps_set_vote_account_state: "handle_of ic b \<Longrightarrow> keeps (safe_rel ic) (set_vote_account_state env b vs)"
  unfolding set_vote_account_state_def make_room_for_current_def by (intro safe_handler_rules keeps_succeeds)

lemma keeps_vote_authorize: "handle_of ic b \<Longrightarrow> keeps (safe_rel ic) (authorize env b k kind signers clock)"
  unfolding authorize_def by (intro safe_handler_rules keeps_set_vote_account_state)

lemma keeps_signing_authority: "keeps (safe_rel ic) (signing_authority ic' i)"
  unfolding signing_authority_def by (intro safe_handler_rules)

lemma keeps_vote_instruction_on_account:
  assumes "handle_of ic b"
  shows "keeps (safe_rel ic) (vote_instruction_on_account env ic b signers instruction)"
  using assms
  by (cases instruction)
    (simp_all only: vote_instruction_on_account.simps process_authorize_with_seed_instruction_def vote_with_sysvar_accounts_def
        update_with_sysvar_cache_def initialize_account_def update_validator_identity_def update_commission_def Let_def
        process_vote_with_account_def process_vote_state_update_def,
      (intro safe_handler_rules keeps_set_vote_account_state keeps_vote_authorize keeps_signing_authority; assumption)+)

lemma keeps_vote_withdraw: "wf_ic ic \<Longrightarrow> keeps (safe_rel ic) (withdraw env ic i lamports j signers rent clock)"
  unfolding withdraw_def Let_def by (intro safe_handler_rules keeps_set_vote_account_state)

lemma vote_safe:
  assumes "wf_ic ic" "get_current_instruction_context tc = Inr ic"
  shows "safe_rel ic tc (snd (vote_process_instruction env tc))"
proof -
  have "keeps (safe_rel ic) (vote_in_frame env ic)"
    unfolding vote_in_frame_def vote_on_account_def
    by (intro safe_handler_rules keeps_vote_instruction_on_account keeps_vote_withdraw assms(1))
  moreover have "vote_process_instruction env tc = vote_in_frame env ic tc"
    using assms(2) by (simp add: vote_process_instruction_def bind_apply reads_apply)
  ultimately show ?thesis by (simp add: keeps_def)
qed

end
