(* ===== verification/Stake_State.thy ===== *)
theory Stake_State
  imports Vote_State F64
begin

unbundle bit_operations_syntax

section \<open>Stake states\<close>

text \<open>
  \<open>sdk/program/src/stake/state.rs\<close>, \<open>stake_flags.rs\<close>, \<open>tools.rs\<close> and the errors and arguments of
  \<open>stake/instruction.rs\<close>: the authorities and the lockup of a stake account, and the delegation with the
  warm-up and cool-down of its stake over the epochs. The sums in the warm-up loop wrap around, as in a
  release build.
\<close>

definition option_unwrap_or :: "'a option \<Rightarrow> 'a \<Rightarrow> 'a" where
  "option_unwrap_or x d = (case x of None \<Rightarrow> d | Some y \<Rightarrow> y)"

datatype (plugins only: code) stake_error =
    NoCreditsToRedeem | LockupInForce | AlreadyDeactivated | TooSoonToRedelegate | InsufficientStake
  | MergeTransientStake | MergeMismatch | CustodianMissing | CustodianSignatureMissing
  | InsufficientReferenceVotes | VoteAddressMismatch | MinimumDelinquentEpochsForDeactivationNotMet
  | InsufficientDelegation | RedelegateTransientOrInactiveStake | RedelegateToSameVoteAccount
  | RedelegatedStakeMustFullyActivateBeforeDeactivationIsPermitted

fun stake_error_to_u32 :: "stake_error \<Rightarrow> u32" where
  "stake_error_to_u32 NoCreditsToRedeem = 0"
| "stake_error_to_u32 LockupInForce = 1"
| "stake_error_to_u32 AlreadyDeactivated = 2"
| "stake_error_to_u32 TooSoonToRedelegate = 3"
| "stake_error_to_u32 InsufficientStake = 4"
| "stake_error_to_u32 MergeTransientStake = 5"
| "stake_error_to_u32 MergeMismatch = 6"
| "stake_error_to_u32 CustodianMissing = 7"
| "stake_error_to_u32 CustodianSignatureMissing = 8"
| "stake_error_to_u32 InsufficientReferenceVotes = 9"
| "stake_error_to_u32 VoteAddressMismatch = 10"
| "stake_error_to_u32 MinimumDelinquentEpochsForDeactivationNotMet = 11"
| "stake_error_to_u32 InsufficientDelegation = 12"
| "stake_error_to_u32 RedelegateTransientOrInactiveStake = 13"
| "stake_error_to_u32 RedelegateToSameVoteAccount = 14"
| "stake_error_to_u32 RedelegatedStakeMustFullyActivateBeforeDeactivationIsPermitted = 15"

abbreviation stake_error_into :: "stake_error \<Rightarrow> instruction_error" where
  "stake_error_into e \<equiv> Custom (stake_error_to_u32 e)"

subsection \<open>Authorities and lockups\<close>

datatype stake_authorize = Staker | StakeWithdrawer

record stake_lockup =
  lu_unix_timestamp :: int
  lu_epoch :: u64
  lu_custodian :: pubkey

definition lockup_default :: stake_lockup where
  "lockup_default = \<lparr>lu_unix_timestamp = 0, lu_epoch = 0, lu_custodian = pubkey_default\<rparr>"

definition is_in_force :: "stake_lockup \<Rightarrow> clock \<Rightarrow> pubkey option \<Rightarrow> bool" where
  "is_in_force lockup clock custodian =
     (if custodian = Some (lu_custodian lockup) then False
      else ck_unix_timestamp clock < lu_unix_timestamp lockup \<or> ck_epoch clock < lu_epoch lockup)"

record stake_authorized =
  sa_staker :: pubkey
  sa_withdrawer :: pubkey

definition authorized_check :: "stake_authorized \<Rightarrow> pubkey list \<Rightarrow> stake_authorize \<Rightarrow> instruction_error + unit" where
  "authorized_check a signers stake_authorize =
     (case stake_authorize of
        Staker \<Rightarrow> if sa_staker a \<in> set signers then Inr () else Inl MissingRequiredSignature
      | StakeWithdrawer \<Rightarrow> if sa_withdrawer a \<in> set signers then Inr () else Inl MissingRequiredSignature)"

text \<open>The check of the lockup before the withdrawer changes.\<close>

definition check_custodian ::
  "(stake_lockup \<times> clock \<times> pubkey option) option \<Rightarrow> pubkey list \<Rightarrow> instruction_error + unit" where
  "check_custodian lockup_custodian_args signers =
     (case lockup_custodian_args of
        None \<Rightarrow> Inr ()
      | Some (lockup, clock, custodian) \<Rightarrow>
          if is_in_force lockup clock None then
            (case custodian of
               None \<Rightarrow> Inl (stake_error_into CustodianMissing)
             | Some c \<Rightarrow>
                 if c \<notin> set signers then Inl (stake_error_into CustodianSignatureMissing)
                 else if is_in_force lockup clock (Some c) then Inl (stake_error_into LockupInForce)
                 else Inr ())
          else Inr ())"

definition authorized_authorize ::
  "stake_authorized \<Rightarrow> pubkey list \<Rightarrow> pubkey \<Rightarrow> stake_authorize \<Rightarrow> (stake_lockup \<times> clock \<times> pubkey option) option
     \<Rightarrow> instruction_error + stake_authorized" where
  "authorized_authorize a signers new_authorized stake_authorize lockup_custodian_args =
     (case stake_authorize of
        Staker \<Rightarrow>
          if sa_staker a \<notin> set signers \<and> sa_withdrawer a \<notin> set signers then Inl MissingRequiredSignature
          else Inr (a\<lparr>sa_staker := new_authorized\<rparr>)
      | StakeWithdrawer \<Rightarrow>
          and_then (check_custodian lockup_custodian_args signers) (\<lambda>_.
          and_then (authorized_check a signers StakeWithdrawer) (\<lambda>_.
            Inr (a\<lparr>sa_withdrawer := new_authorized\<rparr>))))"

record stake_meta =
  sm_rent_exempt_reserve :: u64
  sm_authorized :: stake_authorized
  sm_lockup :: stake_lockup

record lockup_args =
  la_unix_timestamp :: "int option"
  la_epoch :: "u64 option"
  la_custodian :: "pubkey option"

definition meta_set_lockup :: "stake_meta \<Rightarrow> lockup_args \<Rightarrow> pubkey list \<Rightarrow> clock \<Rightarrow> instruction_error + stake_meta" where
  "meta_set_lockup meta lockup signers clock =
     (if (if is_in_force (sm_lockup meta) clock None then lu_custodian (sm_lockup meta) \<notin> set signers
          else sa_withdrawer (sm_authorized meta) \<notin> set signers)
      then Inl MissingRequiredSignature
      else Inr (meta\<lparr>sm_lockup :=
        \<lparr>lu_unix_timestamp = option_unwrap_or (la_unix_timestamp lockup) (lu_unix_timestamp (sm_lockup meta)),
         lu_epoch = option_unwrap_or (la_epoch lockup) (lu_epoch (sm_lockup meta)),
         lu_custodian = option_unwrap_or (la_custodian lockup) (lu_custodian (sm_lockup meta))\<rparr>\<rparr>))"

subsection \<open>Delegations\<close>

definition DEFAULT_WARMUP_COOLDOWN_RATE :: f64 where "DEFAULT_WARMUP_COOLDOWN_RATE = round_ratio False 25 100"
definition NEW_WARMUP_COOLDOWN_RATE :: f64 where "NEW_WARMUP_COOLDOWN_RATE = round_ratio False 9 100"

definition warmup_cooldown_rate :: "u64 \<Rightarrow> u64 option \<Rightarrow> f64" where
  "warmup_cooldown_rate current_epoch new_rate_activation_epoch =
     (if current_epoch < option_unwrap_or new_rate_activation_epoch (- 1)
      then DEFAULT_WARMUP_COOLDOWN_RATE else NEW_WARMUP_COOLDOWN_RATE)"

record delegation =
  dg_voter_pubkey :: pubkey
  dg_stake :: u64
  dg_activation_epoch :: u64
  dg_deactivation_epoch :: u64
  dg_warmup_cooldown_rate :: f64

definition delegation_new :: "pubkey \<Rightarrow> u64 \<Rightarrow> u64 \<Rightarrow> delegation" where
  "delegation_new voter_pubkey stake activation_epoch =
     \<lparr>dg_voter_pubkey = voter_pubkey, dg_stake = stake, dg_activation_epoch = activation_epoch,
      dg_deactivation_epoch = - 1, dg_warmup_cooldown_rate = DEFAULT_WARMUP_COOLDOWN_RATE\<rparr>"

definition is_bootstrap :: "delegation \<Rightarrow> bool" where
  "is_bootstrap d \<longleftrightarrow> dg_activation_epoch d = - 1"

text \<open>
  The stake that changes in an epoch: the share \<open>part / whole\<close> of the effective stake of the cluster times
  the rate, but at least one lamport.
\<close>

definition newly_changed :: "u64 \<Rightarrow> u64 \<Rightarrow> u64 \<Rightarrow> f64 \<Rightarrow> u64" where
  "newly_changed part whole cluster_effective rate =
     max (f64_to_u64 (f64_mul (f64_div (f64_of_u64 part) (f64_of_u64 whole)) (f64_mul (f64_of_u64 cluster_effective) rate))) 1"

lemma epoch_measure:
  assumes "a + 1 < (b :: u64)"
  shows "unat (b - (2 + a)) < unat (b - (a + 1))"
proof -
  define c where "c = b - (a + 1)"
  have "c \<noteq> 0" using assms by (auto simp: c_def)
  then have "0 < unat c" by (simp add: unat_gt_0)
  moreover have "1 \<le> c" using \<open>0 < unat c\<close> by (simp add: word_le_nat_alt)
  ultimately have "unat (c - 1) < unat c" by (simp add: unat_sub)
  moreover have "b - (2 + a) = c - 1" by (simp add: c_def)
  ultimately show ?thesis by (simp only: c_def)
qed

text \<open>The two loops, from an epoch and the stake of the cluster in it. The target epoch bounds them.\<close>

function activating_loop ::
  "delegation \<Rightarrow> stake_history \<Rightarrow> u64 option \<Rightarrow> u64 \<Rightarrow> u64 \<Rightarrow> stake_history_entry \<Rightarrow> u64 \<Rightarrow> u64" where
  "activating_loop d history new_rate target_epoch prev_epoch prev_cluster_stake current_effective_stake =
     (let current_epoch = prev_epoch + 1 in
      if sh_activating prev_cluster_stake = 0 then current_effective_stake
      else
        let remaining_activating_stake = dg_stake d - current_effective_stake;
            newly_effective_stake = newly_changed remaining_activating_stake (sh_activating prev_cluster_stake)
              (sh_effective prev_cluster_stake) (warmup_cooldown_rate current_epoch new_rate);
            effective = current_effective_stake + newly_effective_stake in
        if dg_stake d \<le> effective then dg_stake d
        else if target_epoch \<le> current_epoch \<or> dg_deactivation_epoch d \<le> current_epoch then effective
        else (case stake_history_get history current_epoch of
                None \<Rightarrow> effective
              | Some current_cluster_stake \<Rightarrow>
                  activating_loop d history new_rate target_epoch current_epoch current_cluster_stake effective))"
  by pat_completeness auto
termination
  by (relation "measure (\<lambda>(_, _, _, target_epoch, prev_epoch, _, _). unat (target_epoch - (prev_epoch + 1)))")
    (auto intro!: epoch_measure simp: not_le)

function deactivating_loop ::
  "stake_history \<Rightarrow> u64 option \<Rightarrow> u64 \<Rightarrow> u64 \<Rightarrow> stake_history_entry \<Rightarrow> u64 \<Rightarrow> u64" where
  "deactivating_loop history new_rate target_epoch prev_epoch prev_cluster_stake current_effective_stake =
     (let current_epoch = prev_epoch + 1 in
      if sh_deactivating prev_cluster_stake = 0 then current_effective_stake
      else
        let newly_not_effective_stake = newly_changed current_effective_stake (sh_deactivating prev_cluster_stake)
              (sh_effective prev_cluster_stake) (warmup_cooldown_rate current_epoch new_rate);
            effective = saturating_sub current_effective_stake newly_not_effective_stake in
        if effective = 0 then effective
        else if target_epoch \<le> current_epoch then effective
        else (case stake_history_get history current_epoch of
                None \<Rightarrow> effective
              | Some current_cluster_stake \<Rightarrow>
                  deactivating_loop history new_rate target_epoch current_epoch current_cluster_stake effective))"
  by pat_completeness auto
termination
  by (relation "measure (\<lambda>(_, _, target_epoch, prev_epoch, _, _). unat (target_epoch - (prev_epoch + 1)))")
    (auto intro!: epoch_measure simp: not_le)

declare activating_loop.simps [simp del] deactivating_loop.simps [simp del]

definition stake_and_activating :: "delegation \<Rightarrow> u64 \<Rightarrow> stake_history \<Rightarrow> u64 option \<Rightarrow> u64 \<times> u64" where
  "stake_and_activating d target_epoch history new_rate =
     (if is_bootstrap d then (dg_stake d, 0)
      else if dg_activation_epoch d = dg_deactivation_epoch d then (0, 0)
      else if target_epoch = dg_activation_epoch d then (0, dg_stake d)
      else if target_epoch < dg_activation_epoch d then (0, 0)
      else (case stake_history_get history (dg_activation_epoch d) of
              Some cluster_stake \<Rightarrow>
                let effective = activating_loop d history new_rate target_epoch (dg_activation_epoch d) cluster_stake 0
                in (effective, dg_stake d - effective)
            | None \<Rightarrow> (dg_stake d, 0)))"

definition stake_activating_and_deactivating ::
  "delegation \<Rightarrow> u64 \<Rightarrow> stake_history \<Rightarrow> u64 option \<Rightarrow> stake_history_entry" where
  "stake_activating_and_deactivating d target_epoch history new_rate =
     (case stake_and_activating d target_epoch history new_rate of
        (effective_stake, activating_stake) \<Rightarrow>
          if target_epoch < dg_deactivation_epoch d
          then (if activating_stake = 0 then with_effective effective_stake
                else with_effective_and_activating effective_stake activating_stake)
          else if target_epoch = dg_deactivation_epoch d then with_deactivating effective_stake
          else (case stake_history_get history (dg_deactivation_epoch d) of
                  Some cluster_stake \<Rightarrow>
                    with_deactivating (deactivating_loop history new_rate target_epoch (dg_deactivation_epoch d)
                      cluster_stake effective_stake)
                | None \<Rightarrow> with_effective 0))"

definition delegation_stake :: "delegation \<Rightarrow> u64 \<Rightarrow> stake_history \<Rightarrow> u64 option \<Rightarrow> u64" where
  "delegation_stake d epoch history new_rate = sh_effective (stake_activating_and_deactivating d epoch history new_rate)"

record stake =
  sk_delegation :: delegation
  sk_credits_observed :: u64

abbreviation sk_stake :: "stake \<Rightarrow> u64" where "sk_stake s \<equiv> dg_stake (sk_delegation s)"
abbreviation set_sk_stake :: "u64 \<Rightarrow> stake \<Rightarrow> stake" where
  "set_sk_stake v s \<equiv> s\<lparr>sk_delegation := (sk_delegation s)\<lparr>dg_stake := v\<rparr>\<rparr>"

text \<open>\<open>Stake::split\<close>: the stake that stays and the stake that is split off.\<close>

definition stake_split :: "stake \<Rightarrow> u64 \<Rightarrow> u64 \<Rightarrow> stake_error + stake \<times> stake" where
  "stake_split s remaining_stake_delta split_stake_amount =
     (if sk_stake s < remaining_stake_delta then Inl InsufficientStake
      else let rest = set_sk_stake (sk_stake s - remaining_stake_delta) s
           in Inr (rest, set_sk_stake split_stake_amount rest))"

definition stake_deactivate :: "stake \<Rightarrow> u64 \<Rightarrow> stake_error + stake" where
  "stake_deactivate s epoch =
     (if dg_deactivation_epoch (sk_delegation s) \<noteq> - 1 then Inl AlreadyDeactivated
      else Inr (s\<lparr>sk_delegation := (sk_delegation s)\<lparr>dg_deactivation_epoch := epoch\<rparr>\<rparr>))"

subsection \<open>Flags and states\<close>

type_synonym stake_flags = u8

definition MUST_FULLY_ACTIVATE_BEFORE_DEACTIVATION_IS_PERMITTED :: stake_flags where
  "MUST_FULLY_ACTIVATE_BEFORE_DEACTIVATION_IS_PERMITTED = 1"

definition flags_empty :: stake_flags where "flags_empty = 0"

definition flags_contains :: "stake_flags \<Rightarrow> stake_flags \<Rightarrow> bool" where
  "flags_contains bits other \<longleftrightarrow> bits AND other = other"

definition flags_remove :: "stake_flags \<Rightarrow> stake_flags \<Rightarrow> stake_flags" where
  "flags_remove bits other = bits AND NOT other"

definition flags_set :: "stake_flags \<Rightarrow> stake_flags \<Rightarrow> stake_flags" where
  "flags_set bits other = bits OR other"

definition flags_union :: "stake_flags \<Rightarrow> stake_flags \<Rightarrow> stake_flags" where
  "flags_union bits other = bits OR other"

datatype stake_state =
    StakeUninitialized
  | StakeInitialized stake_meta
  | Staked stake_meta stake stake_flags
  | RewardsPool

definition STAKE_STATE_SIZE :: nat where "STAKE_STATE_SIZE = 200"

fun stake_state_meta :: "stake_state \<Rightarrow> stake_meta option" where
  "stake_state_meta (Staked meta _ _) = Some meta"
| "stake_state_meta (StakeInitialized meta) = Some meta"
| "stake_state_meta _ = None"

fun stake_state_stake :: "stake_state \<Rightarrow> stake option" where
  "stake_state_stake (Staked _ s _) = Some s"
| "stake_state_stake _ = None"

subsection \<open>Delinquency\<close>

definition MINIMUM_DELINQUENT_EPOCHS_FOR_DEACTIVATION :: nat where "MINIMUM_DELINQUENT_EPOCHS_FOR_DEACTIVATION = 5"

fun consecutive_epochs :: "u64 \<Rightarrow> (u64 \<times> u64 \<times> u64) list \<Rightarrow> bool" where
  "consecutive_epochs epoch [] = True"
| "consecutive_epochs epoch ((vote_epoch, _) # rest) =
     (if vote_epoch \<noteq> epoch then False else consecutive_epochs (saturating_sub epoch 1) rest)"

definition acceptable_reference_epoch_credits :: "(u64 \<times> u64 \<times> u64) list \<Rightarrow> u64 \<Rightarrow> bool" where
  "acceptable_reference_epoch_credits epoch_credits current_epoch =
     (if MINIMUM_DELINQUENT_EPOCHS_FOR_DEACTIVATION \<le> length epoch_credits
      then consecutive_epochs current_epoch
             (rev (drop (length epoch_credits - MINIMUM_DELINQUENT_EPOCHS_FOR_DEACTIVATION) epoch_credits))
      else False)"

definition eligible_for_deactivate_delinquent :: "(u64 \<times> u64 \<times> u64) list \<Rightarrow> u64 \<Rightarrow> bool" where
  "eligible_for_deactivate_delinquent epoch_credits current_epoch =
     (if epoch_credits = [] then True
      else (case checked_sub current_epoch (of_nat MINIMUM_DELINQUENT_EPOCHS_FOR_DEACTIVATION) of
              Some minimum_epoch \<Rightarrow> fst (last epoch_credits) \<le> minimum_epoch
            | None \<Rightarrow> False))"

text \<open>\<open>VoteState::credits\<close>.\<close>

definition vote_credits :: "vote_state \<Rightarrow> u64" where
  "vote_credits vs = (if vs_epoch_credits vs = [] then 0 else fst (snd (last (vs_epoch_credits vs))))"

end
