(* ===== verification/Config_Program.thy ===== *)
theory Config_Program
  imports Program_Contract System_Program Account_Specs Message
begin

section \<open>The config program\<close>

text \<open>
  \<open>programs/config/src/config_processor.rs\<close>: a config account starts with a list of keys, some of them
  marked as signers, followed by data. An instruction carries the new list and data; the handler
  decides from the stored and the new list who has to sign, and overwrites the account. The decoder
  with its size limit and bincode are third-party functions.
\<close>

type_synonym config_keys = "(pubkey \<times> bool) list"

record config_env =
  ce_limited_decode :: "u64 \<Rightarrow> bytes \<Rightarrow> config_keys option"
  ce_deserialize :: "bytes \<Rightarrow> config_keys option"

definition config_DEFAULT_COMPUTE_UNITS :: u64 where "config_DEFAULT_COMPUTE_UNITS = 450"

definition signer_keys :: "config_keys \<Rightarrow> pubkey list" where
  "signer_keys keys = map fst (filter snd keys)"

text \<open>A borrow whose failure is reported as another error.\<close>

definition with_account_or ::
  "instruction_context \<Rightarrow> index_of_account \<Rightarrow> instruction_error \<Rightarrow> (borrowed_account \<Rightarrow> 'a tc_effect) \<Rightarrow> 'a tc_effect" where
  "with_account_or ic i e body =
     bind (\<lambda>tc. case try_borrow_instruction_account ic i tc of
             (Inl _, t) \<Rightarrow> (Inl e, t)
           | (Inr b, t) \<Rightarrow> (Inr b, t)) (\<lambda>b. finally_do (body b) (drop_account b))"

text \<open>The loop over the new signers; it returns the counter.\<close>

fun check_new_signers ::
  "instruction_context \<Rightarrow> pubkey \<Rightarrow> bool \<Rightarrow> config_keys \<Rightarrow> pubkey list \<Rightarrow> nat \<Rightarrow> nat tc_effect" where
  "check_new_signers ic config_key config_signs current_data [] counter = return counter"
| "check_new_signers ic config_key config_signs current_data (signer # signers) counter =
     (let counter = counter + 1 in
      bind (if signer \<noteq> config_key
            then with_account_or ic (of_nat counter) MissingRequiredSignature (\<lambda>signer_account.
                   bind (fail_if (\<not> is_signer signer_account) MissingRequiredSignature) (\<lambda>_.
                   bind (gets (get_key signer_account)) (\<lambda>key.
                   bind (fail_if (key \<noteq> signer) MissingRequiredSignature) (\<lambda>_.
                     fail_if (current_data \<noteq> [] \<and> signer \<notin> set (signer_keys current_data))
                       MissingRequiredSignature))))
            else fail_if (\<not> config_signs) MissingRequiredSignature) (\<lambda>_.
        check_new_signers ic config_key config_signs current_data signers counter))"

text \<open>The handler in the frame \<open>ic\<close>, with its two borrows of the config account.\<close>

definition read_config :: "config_env \<Rightarrow> instruction_context \<Rightarrow> (bool \<times> config_keys) tc_effect" where
  "read_config env ic =
     with_instruction_account ic 0 (\<lambda>config_account.
       bind (gets (get_owner config_account)) (\<lambda>owner.
       bind (fail_if (owner \<noteq> config_program_id) InvalidAccountOwner) (\<lambda>_.
       bind (reads (\<lambda>tc. ok_or (ce_deserialize env (get_data config_account tc)) InvalidAccountData)) (\<lambda>current_data.
         return (is_signer config_account, current_data)))))"

definition store_config :: "instruction_context \<Rightarrow> bytes \<Rightarrow> unit tc_effect" where
  "store_config ic data =
     with_instruction_account ic 0 (\<lambda>config_account.
       bind (gets (get_data config_account)) (\<lambda>old.
       bind (fail_if (length old < length data) InvalidInstructionData) (\<lambda>_.
       bind (get_data_mut config_account) (\<lambda>_.
         write_data config_account data))))"

definition update_config :: "config_env \<Rightarrow> instruction_context \<Rightarrow> unit tc_effect" where
  "update_config env ic =
     bind (lift (limited_deserialize (ce_limited_decode env) (ic_instruction_data ic))) (\<lambda>key_list.
     bind (reads (key_of_instruction_account ic 0)) (\<lambda>config_account_key.
     bind (read_config env ic) (\<lambda>(is_config_account_signer, current_data).
     bind (fail_if (signer_keys current_data = [] \<and> \<not> is_config_account_signer) MissingRequiredSignature) (\<lambda>_.
     bind (check_new_signers ic config_account_key is_config_account_signer current_data (signer_keys key_list) 0) (\<lambda>counter.
     bind (fail_if (card (set key_list) \<noteq> length key_list) InvalidArgument) (\<lambda>_.
     bind (fail_if (counter < length (signer_keys current_data)) MissingRequiredSignature) (\<lambda>_.
       store_config ic (ic_instruction_data ic))))))))"

definition config_process_instruction :: "config_env \<Rightarrow> unit tc_effect" where
  "config_process_instruction env = bind (reads get_current_instruction_context) (update_config env)"

subsection \<open>The handler stays inside the access contract\<close>

lemma keeps_with_account_or:
  assumes "wf_ic ic" and body: "\<And>b. handle_of ic b \<Longrightarrow> keeps (safe_rel ic) (body b)"
  shows "keeps (safe_rel ic) (with_account_or ic i e body)"
proof (rule keepsI)
  fix tc
  have w: "safe_rel ic tc (snd (with_instruction_account ic i body tc))"
    using keeps_with_instruction_account [OF assms] by (simp add: keeps_def)
  obtain r t where bor: "try_borrow_instruction_account ic i tc = (r, t)"
    by (cases "try_borrow_instruction_account ic i tc")
  show "safe_rel ic tc (snd (with_account_or ic i e body tc))"
  proof (cases r)
    case (Inl e')
    then have "t = tc" using bor try_borrow_instruction_account_err by blast
    then show ?thesis using Inl bor by (simp add: with_account_or_def bind_apply safe_rel_refl)
  next
    case (Inr b)
    then have "snd (with_account_or ic i e body tc) = snd (with_instruction_account ic i body tc)"
      using bor by (simp add: with_account_or_def with_instruction_account_def bind_apply)
    then show ?thesis using w by simp
  qed
qed

lemma keeps_check_new_signers:
  "wf_ic ic \<Longrightarrow> keeps (safe_rel ic) (check_new_signers ic key signs current ks n)"
proof (induction ks arbitrary: n)
  case (Cons k ks)
  then show ?case unfolding check_new_signers.simps Let_def
    by (intro safe_handler_rules keeps_with_account_or) auto
qed (simp add: safe.keeps_return)

lemma keeps_overwrite_prefix:
  assumes "handle_of ic b"
  shows "keeps (safe_rel ic) (bind (get_data_mut b) (\<lambda>_. write_data b data))"
  using assms
  by (intro keepsI)
    (auto simp: get_data_mut_def can_data_be_changed_def write_data_def effect_simps
      touch_eval update_account_def safe_rel_refl is_owned_owned_at ba_reads account_step_def
      intro!: safe_rel_update split: if_splits sum.splits)

lemma config_safe:
  assumes "wf_ic ic" "get_current_instruction_context tc = Inr ic"
  shows "safe_rel ic tc (snd (config_process_instruction env tc))"
proof -
  have "keeps (safe_rel ic) (update_config env ic)"
    unfolding update_config_def read_config_def store_config_def
    by (intro safe_handler_rules assms(1) keeps_check_new_signers keeps_overwrite_prefix)
  moreover have "config_process_instruction env tc = update_config env ic tc"
    using assms(2) by (simp add: config_process_instruction_def bind_apply reads_apply)
  ultimately show ?thesis by (simp add: keeps_def)
qed

end
