(* ===== verification/Stake_Program.thy ===== *)
theory Stake_Program
  imports Stake_State Vote_Program Config_Program
begin

section \<open>The stake program\<close>

text \<open>
  \<open>programs/stake/src/stake_state.rs\<close> and the entry point in \<open>programs/stake/src/stake_instruction.rs\<close>. The
  environment holds the sysvar cache and the features that the program asks for: \<open>se_redelegate\<close> is
  \<open>stake_redelegate_instruction\<close>, \<open>se_raise_minimum\<close> is \<open>stake_raise_minimum_delegation_to_1_sol\<close>, and
  \<open>se_reduce_warmup\<close> the slot in which \<open>reduce_stake_warmup_cooldown\<close> was activated. The codecs of the stored states, the
  decoder of instructions and the hash function are third-party functions. A panic is represented by the
  error \<open>ProgramFailedToComplete\<close>. The set of signers is a list of keys.
\<close>

datatype (plugins only: code) stake_instruction =
    StakeInitialize stake_authorized stake_lockup
  | StakeAuthorizeKey pubkey stake_authorize
  | DelegateStake
  | SplitStake u64
  | WithdrawStake u64
  | DeactivateStake
  | SetLockup lockup_args
  | MergeStake
  | StakeAuthorizeWithSeed pubkey stake_authorize bytes pubkey
  | StakeInitializeChecked
  | StakeAuthorizeChecked stake_authorize
  | StakeAuthorizeCheckedWithSeed stake_authorize bytes pubkey
  | SetLockupChecked "int option" "u64 option"
  | GetMinimumDelegation
  | DeactivateDelinquent
  | RedelegateStake

record stake_env =
  se_sysvar_cache :: sysvar_cache
  se_sha256 :: "bytes \<Rightarrow> hash"
  se_state :: "stake_state bincode"
  se_vote_state :: "vote_state_versions bincode"
  se_decode :: "u64 \<Rightarrow> bytes \<Rightarrow> stake_instruction option"
  se_config_keys :: "config_keys bincode"
  se_config_decodes :: "bytes \<Rightarrow> bool"
  se_redelegate :: bool
  se_raise_minimum :: bool
  se_reduce_warmup :: "u64 option"

definition stake_DEFAULT_COMPUTE_UNITS :: u64 where "stake_DEFAULT_COMPUTE_UNITS = 750"

definition get_minimum_delegation :: "stake_env \<Rightarrow> u64" where
  "get_minimum_delegation env = (if se_raise_minimum env then 1 * 1000000000 else 1)"

definition new_warmup_cooldown_rate_epoch :: "stake_env \<Rightarrow> instruction_error + u64 option" where
  "new_warmup_cooldown_rate_epoch env =
     (case sc_epoch_schedule (se_sysvar_cache env) of
        None \<Rightarrow> Inl ProgramFailedToComplete
      | Some epoch_schedule \<Rightarrow> Inr (map_option (get_epoch epoch_schedule) (se_reduce_warmup env)))"

definition get_stake_status :: "stake_env \<Rightarrow> stake \<Rightarrow> clock \<Rightarrow> instruction_error + stake_history_entry" where
  "get_stake_status env s clock =
     and_then (get_stake_history (se_sysvar_cache env)) (\<lambda>stake_history.
     and_then (new_warmup_cooldown_rate_epoch env) (\<lambda>new_rate.
       Inr (stake_activating_and_deactivating (sk_delegation s) (ck_epoch clock) stake_history new_rate)))"

text \<open>The check of the stake config account, before the warm-up rate moved into the program.\<close>

definition stake_config_from :: "stake_env \<Rightarrow> bytes \<Rightarrow> instruction_error + unit" where
  "stake_config_from env data =
     (case bc_deserialize (se_config_keys env) data of
        None \<Rightarrow> Inl InvalidArgument
      | Some keys \<Rightarrow>
          (case bc_serialized_size (se_config_keys env) keys of
             None \<Rightarrow> Inl InvalidArgument
           | Some offset \<Rightarrow>
               if length data < unat offset then Inl ProgramFailedToComplete
               else if se_config_decodes env (drop (unat offset) data) then Inr () else Inl InvalidArgument))"

definition check_stake_config :: "stake_env \<Rightarrow> instruction_context \<Rightarrow> index_of_account \<Rightarrow> unit tc_effect" where
  "check_stake_config env ic i =
     (if se_reduce_warmup env \<noteq> None then return ()
      else with_instruction_account ic i (\<lambda>config_account.
        bind (gets (get_key config_account)) (\<lambda>key.
        bind (fail_if (key \<noteq> stake_config_id) InvalidArgument) (\<lambda>_.
          reads (\<lambda>tc. stake_config_from env (get_data config_account tc))))))"

subsection \<open>Changing a stake\<close>

definition new_stake :: "u64 \<Rightarrow> pubkey \<Rightarrow> vote_state \<Rightarrow> u64 \<Rightarrow> stake" where
  "new_stake amount voter_pubkey vs activation_epoch =
     \<lparr>sk_delegation = delegation_new voter_pubkey amount activation_epoch, sk_credits_observed = vote_credits vs\<rparr>"

definition redelegate_stake ::
  "stake_env \<Rightarrow> stake \<Rightarrow> u64 \<Rightarrow> pubkey \<Rightarrow> vote_state \<Rightarrow> clock \<Rightarrow> stake_history \<Rightarrow> instruction_error + stake" where
  "redelegate_stake env s stake_lamports voter_pubkey vs clock stake_history =
     and_then (new_warmup_cooldown_rate_epoch env) (\<lambda>new_rate.
       let d = sk_delegation s in
       if delegation_stake d (ck_epoch clock) stake_history new_rate \<noteq> 0 then
         let stake_lamports_ok = (if se_redelegate env then dg_stake d \<le> stake_lamports else True) in
         if dg_voter_pubkey d = voter_pubkey \<and> ck_epoch clock = dg_deactivation_epoch d \<and> stake_lamports_ok
         then Inr (s\<lparr>sk_delegation := d\<lparr>dg_deactivation_epoch := - 1\<rparr>\<rparr>)
         else Inl (stake_error_into TooSoonToRedelegate)
       else Inr (s\<lparr>sk_delegation := d\<lparr>dg_stake := stake_lamports, dg_activation_epoch := ck_epoch clock,
                     dg_deactivation_epoch := - 1, dg_voter_pubkey := voter_pubkey\<rparr>,
                   sk_credits_observed := vote_credits vs\<rparr>))"

definition deactivate_stake :: "stake_env \<Rightarrow> stake \<Rightarrow> stake_flags \<Rightarrow> u64 \<Rightarrow> instruction_error + stake \<times> stake_flags" where
  "deactivate_stake env s flags epoch =
     (if se_redelegate env \<and> flags_contains flags MUST_FULLY_ACTIVATE_BEFORE_DEACTIVATION_IS_PERMITTED then
        and_then (get_stake_history (se_sysvar_cache env)) (\<lambda>stake_history.
        and_then (new_warmup_cooldown_rate_epoch env) (\<lambda>new_rate.
          let status = stake_activating_and_deactivating (sk_delegation s) epoch stake_history new_rate in
          if sh_activating status \<noteq> 0
          then Inl (stake_error_into RedelegatedStakeMustFullyActivateBeforeDeactivationIsPermitted)
          else and_then (map_err stake_error_into (stake_deactivate s epoch)) (\<lambda>s.
            Inr (s, flags_remove flags MUST_FULLY_ACTIVATE_BEFORE_DEACTIVATION_IS_PERMITTED))))
      else and_then (map_err stake_error_into (stake_deactivate s epoch)) (\<lambda>s. Inr (s, flags)))"

subsection \<open>Handlers on one account\<close>

definition initialize ::
  "stake_env \<Rightarrow> borrowed_account \<Rightarrow> stake_authorized \<Rightarrow> stake_lockup \<Rightarrow> rent \<Rightarrow> unit tc_effect" where
  "initialize env b authorities lockup rent =
     bind (gets (get_data b)) (\<lambda>data.
     bind (fail_if (length data \<noteq> STAKE_STATE_SIZE) InvalidAccountData) (\<lambda>_.
     bind (reads (get_state (se_state env) b)) (\<lambda>st.
       if st = StakeUninitialized then
         bind (gets (get_lamports b)) (\<lambda>lamports.
           let rent_exempt_reserve = minimum_balance rent (length data) in
           if rent_exempt_reserve \<le> lamports
           then set_state (se_state env) b (StakeInitialized
                  \<lparr>sm_rent_exempt_reserve = rent_exempt_reserve, sm_authorized = authorities, sm_lockup = lockup\<rparr>)
           else throw InsufficientFunds)
       else throw InvalidAccountData)))"

definition stake_account_authorize ::
  "stake_env \<Rightarrow> borrowed_account \<Rightarrow> pubkey list \<Rightarrow> pubkey \<Rightarrow> stake_authorize \<Rightarrow> clock \<Rightarrow> pubkey option \<Rightarrow> unit tc_effect" where
  "stake_account_authorize env b signers new_authority stake_authorize clock custodian =
     (let change = (\<lambda>meta. and_then (authorized_authorize (sm_authorized meta) signers new_authority stake_authorize
                              (Some (sm_lockup meta, clock, custodian))) (\<lambda>a. Inr (meta\<lparr>sm_authorized := a\<rparr>))) in
      bind (reads (get_state (se_state env) b)) (\<lambda>st.
        case st of
          Staked meta s flags \<Rightarrow> bind (lift (change meta)) (\<lambda>meta. set_state (se_state env) b (Staked meta s flags))
        | StakeInitialized meta \<Rightarrow> bind (lift (change meta)) (\<lambda>meta. set_state (se_state env) b (StakeInitialized meta))
        | _ \<Rightarrow> throw InvalidAccountData))"

definition authorize_with_seed ::
  "stake_env \<Rightarrow> instruction_context \<Rightarrow> borrowed_account \<Rightarrow> index_of_account \<Rightarrow> bytes \<Rightarrow> pubkey \<Rightarrow> pubkey \<Rightarrow> stake_authorize
     \<Rightarrow> clock \<Rightarrow> pubkey option \<Rightarrow> unit tc_effect" where
  "authorize_with_seed env ic b authority_base_index authority_seed authority_owner new_authority stake_authorize clock custodian =
     bind (lift (is_instruction_account_signer ic authority_base_index)) (\<lambda>signed.
     bind (if signed
           then bind (reads (key_of_instruction_account ic authority_base_index)) (\<lambda>base_pubkey.
                bind (lift (map_err pubkey_error_into (create_with_seed (se_sha256 env) base_pubkey authority_seed authority_owner))) (\<lambda>key.
                  return [key]))
           else return []) (\<lambda>signers.
       stake_account_authorize env b signers new_authority stake_authorize clock custodian))"

definition deactivate :: "stake_env \<Rightarrow> borrowed_account \<Rightarrow> clock \<Rightarrow> pubkey list \<Rightarrow> unit tc_effect" where
  "deactivate env b clock signers =
     bind (reads (get_state (se_state env) b)) (\<lambda>st.
       case st of
         Staked meta s flags \<Rightarrow>
           bind (lift (authorized_check (sm_authorized meta) signers Staker)) (\<lambda>_.
           bind (lift (deactivate_stake env s flags (ck_epoch clock))) (\<lambda>(s, flags).
             set_state (se_state env) b (Staked meta s flags)))
       | _ \<Rightarrow> throw InvalidAccountData)"

definition set_lockup :: "stake_env \<Rightarrow> borrowed_account \<Rightarrow> lockup_args \<Rightarrow> pubkey list \<Rightarrow> clock \<Rightarrow> unit tc_effect" where
  "set_lockup env b lockup signers clock =
     bind (reads (get_state (se_state env) b)) (\<lambda>st.
       case st of
         StakeInitialized meta \<Rightarrow>
           bind (lift (meta_set_lockup meta lockup signers clock)) (\<lambda>meta. set_state (se_state env) b (StakeInitialized meta))
       | Staked meta s flags \<Rightarrow>
           bind (lift (meta_set_lockup meta lockup signers clock)) (\<lambda>meta. set_state (se_state env) b (Staked meta s flags))
       | _ \<Rightarrow> throw InvalidAccountData)"

definition validate_delegated_amount ::
  "stake_env \<Rightarrow> borrowed_account \<Rightarrow> stake_meta \<Rightarrow> transaction_context \<Rightarrow> instruction_error + u64" where
  "validate_delegated_amount env b meta tc =
     (let stake_amount = saturating_sub (get_lamports b tc) (sm_rent_exempt_reserve meta) in
      if stake_amount < get_minimum_delegation env then Inl (stake_error_into InsufficientDelegation)
      else Inr stake_amount)"

text \<open>The vote account of a delegation: its key and, when it decodes, its state.\<close>

definition read_vote_account ::
  "stake_env \<Rightarrow> borrowed_account \<Rightarrow> (pubkey \<times> (instruction_error + vote_state_versions)) tc_effect" where
  "read_vote_account env vote_account =
     bind (gets (get_owner vote_account)) (\<lambda>owner.
     bind (fail_if (owner \<noteq> vote_program_id) IncorrectProgramId) (\<lambda>_.
     bind (gets (get_key vote_account)) (\<lambda>vote_pubkey.
     bind (gets (get_state (se_vote_state env) vote_account)) (\<lambda>vote_state.
       return (vote_pubkey, vote_state)))))"

definition delegate ::
  "stake_env \<Rightarrow> instruction_context \<Rightarrow> index_of_account \<Rightarrow> index_of_account \<Rightarrow> clock \<Rightarrow> stake_history \<Rightarrow> pubkey list
     \<Rightarrow> unit tc_effect" where
  "delegate env ic stake_account_index vote_account_index clock stake_history signers =
     bind (with_instruction_account ic vote_account_index (read_vote_account env)) (\<lambda>(vote_pubkey, vote_state).
     with_instruction_account ic stake_account_index (\<lambda>b.
       bind (reads (get_state (se_state env) b)) (\<lambda>st.
         case st of
           StakeInitialized meta \<Rightarrow>
             bind (lift (authorized_check (sm_authorized meta) signers Staker)) (\<lambda>_.
             bind (reads (validate_delegated_amount env b meta)) (\<lambda>stake_amount.
             bind (lift vote_state) (\<lambda>versioned.
               set_state (se_state env) b (Staked meta
                 (new_stake stake_amount vote_pubkey (convert_to_current versioned) (ck_epoch clock)) flags_empty))))
         | Staked meta s flags \<Rightarrow>
             bind (lift (authorized_check (sm_authorized meta) signers Staker)) (\<lambda>_.
             bind (reads (validate_delegated_amount env b meta)) (\<lambda>stake_amount.
             bind (lift vote_state) (\<lambda>versioned.
             bind (lift (redelegate_stake env s stake_amount vote_pubkey (convert_to_current versioned) clock stake_history)) (\<lambda>s.
               set_state (se_state env) b (Staked meta s flags)))))
         | _ \<Rightarrow> throw InvalidAccountData)))"

subsection \<open>Splitting\<close>

text \<open>
  The checks of the amounts: the balances and the data length of both accounts are known. The result is the balance
  that stays and the rent-exempt reserve of the destination.
\<close>

definition check_split_amounts ::
  "stake_env \<Rightarrow> u64 \<Rightarrow> stake_meta \<Rightarrow> u64 \<Rightarrow> bool \<Rightarrow> u64 \<Rightarrow> u64 \<Rightarrow> nat \<Rightarrow> instruction_error + u64 \<times> u64" where
  "check_split_amounts env lamports source_meta additional_required_lamports source_is_active source_lamports
       destination_lamports destination_data_len =
     (if lamports = 0 then Inl InsufficientFunds
      else if source_lamports < lamports then Inl InsufficientFunds
      else
        let source_minimum_balance = saturating_add (sm_rent_exempt_reserve source_meta) additional_required_lamports;
            source_remaining_balance = saturating_sub source_lamports lamports in
        if source_remaining_balance \<noteq> 0 \<and> source_remaining_balance < source_minimum_balance then Inl InsufficientFunds
        else and_then (get_rent (se_sysvar_cache env)) (\<lambda>rent.
          let destination_rent_exempt_reserve = minimum_balance rent destination_data_len in
          if source_is_active \<and> source_remaining_balance \<noteq> 0 \<and> destination_lamports < destination_rent_exempt_reserve
          then Inl InsufficientFunds
          else
            let destination_minimum_balance = saturating_add destination_rent_exempt_reserve additional_required_lamports;
                destination_balance_deficit = saturating_sub destination_minimum_balance destination_lamports in
            if lamports < destination_balance_deficit then Inl InsufficientFunds
            else Inr (source_remaining_balance, destination_rent_exempt_reserve)))"

definition validate_split_amount ::
  "stake_env \<Rightarrow> instruction_context \<Rightarrow> index_of_account \<Rightarrow> index_of_account \<Rightarrow> u64 \<Rightarrow> stake_meta \<Rightarrow> u64 \<Rightarrow> bool
     \<Rightarrow> (u64 \<times> u64) tc_effect" where
  "validate_split_amount env ic source_account_index destination_account_index lamports source_meta
       additional_required_lamports source_is_active =
     bind (with_instruction_account ic source_account_index (\<lambda>b. gets (get_lamports b))) (\<lambda>source_lamports.
     bind (with_instruction_account ic destination_account_index
             (\<lambda>b. gets (\<lambda>tc. (get_lamports b tc, length (get_data b tc))))) (\<lambda>(destination_lamports, destination_data_len).
       lift (check_split_amounts env lamports source_meta additional_required_lamports source_is_active source_lamports
               destination_lamports destination_data_len)))"

text \<open>By how much the stake of the source shrinks, and the stake of the destination.\<close>

definition split_stake_amounts ::
  "stake_meta \<Rightarrow> stake \<Rightarrow> u64 \<Rightarrow> u64 \<Rightarrow> u64 \<Rightarrow> u64 \<Rightarrow> u64 \<Rightarrow> instruction_error + u64 \<times> u64" where
  "split_stake_amounts meta s lamports minimum_delegation source_remaining_balance destination_rent_exempt_reserve split_lamport_balance =
     and_then
       (if source_remaining_balance = 0 then
          let remaining_stake_delta = saturating_sub lamports (sm_rent_exempt_reserve meta)
          in Inr (remaining_stake_delta, remaining_stake_delta)
        else if saturating_sub (sk_stake s) lamports < minimum_delegation
        then Inl (stake_error_into InsufficientDelegation)
        else Inr (lamports, saturating_sub lamports (saturating_sub destination_rent_exempt_reserve split_lamport_balance)))
       (\<lambda>(remaining_stake_delta, split_stake_amount).
          if split_stake_amount < minimum_delegation then Inl (stake_error_into InsufficientDelegation)
          else Inr (remaining_stake_delta, split_stake_amount))"

definition split_staked ::
  "stake_env \<Rightarrow> instruction_context \<Rightarrow> index_of_account \<Rightarrow> u64 \<Rightarrow> index_of_account \<Rightarrow> pubkey list \<Rightarrow> u64 \<Rightarrow> stake_meta \<Rightarrow> stake
     \<Rightarrow> stake_flags \<Rightarrow> unit tc_effect" where
  "split_staked env ic stake_account_index lamports split_index signers split_lamport_balance meta s flags =
     bind (lift (authorized_check (sm_authorized meta) signers Staker)) (\<lambda>_.
     bind (lift (and_then (get_clock (se_sysvar_cache env)) (\<lambda>clock.
                 and_then (get_stake_status env s clock) (\<lambda>status. Inr (0 < sh_effective status))))) (\<lambda>is_active.
     bind (validate_split_amount env ic stake_account_index split_index lamports meta (get_minimum_delegation env) is_active)
       (\<lambda>(source_remaining_balance, destination_rent_exempt_reserve).
     bind (lift (split_stake_amounts meta s lamports (get_minimum_delegation env) source_remaining_balance
             destination_rent_exempt_reserve split_lamport_balance)) (\<lambda>(remaining_stake_delta, split_stake_amount).
     bind (lift (map_err stake_error_into (stake_split s remaining_stake_delta split_stake_amount))) (\<lambda>(s, split_stake).
     bind (with_instruction_account ic stake_account_index (\<lambda>b. set_state (se_state env) b (Staked meta s flags))) (\<lambda>_.
       with_instruction_account ic split_index (\<lambda>b. set_state (se_state env) b
         (Staked (meta\<lparr>sm_rent_exempt_reserve := destination_rent_exempt_reserve\<rparr>) split_stake flags))))))))"

definition split_initialized ::
  "stake_env \<Rightarrow> instruction_context \<Rightarrow> index_of_account \<Rightarrow> u64 \<Rightarrow> index_of_account \<Rightarrow> pubkey list \<Rightarrow> stake_meta \<Rightarrow> unit tc_effect" where
  "split_initialized env ic stake_account_index lamports split_index signers meta =
     bind (lift (authorized_check (sm_authorized meta) signers Staker)) (\<lambda>_.
     bind (validate_split_amount env ic stake_account_index split_index lamports meta 0 False)
       (\<lambda>(_, destination_rent_exempt_reserve).
       with_instruction_account ic split_index (\<lambda>b. set_state (se_state env) b
         (StakeInitialized (meta\<lparr>sm_rent_exempt_reserve := destination_rent_exempt_reserve\<rparr>)))))"

text \<open>The account that a split or a redelegation fills.\<close>

definition check_uninitialized :: "stake_env \<Rightarrow> borrowed_account \<Rightarrow> instruction_error \<Rightarrow> unit tc_effect" where
  "check_uninitialized env b already_initialized =
     bind (gets (get_owner b)) (\<lambda>owner.
     bind (fail_if (owner \<noteq> stake_program_id) IncorrectProgramId) (\<lambda>_.
     bind (gets (get_data b)) (\<lambda>data.
     bind (fail_if (length data \<noteq> STAKE_STATE_SIZE) InvalidAccountData) (\<lambda>_.
     bind (reads (get_state (se_state env) b)) (\<lambda>st.
       fail_if (st \<noteq> StakeUninitialized) already_initialized)))))"

definition split_stake_account ::
  "stake_env \<Rightarrow> instruction_context \<Rightarrow> index_of_account \<Rightarrow> u64 \<Rightarrow> index_of_account \<Rightarrow> pubkey list \<Rightarrow> unit tc_effect" where
  "split_stake_account env ic stake_account_index lamports split_index signers =
     bind (with_instruction_account ic split_index (\<lambda>b.
             bind (check_uninitialized env b InvalidAccountData) (\<lambda>_. gets (get_lamports b)))) (\<lambda>split_lamport_balance.
     bind (with_instruction_account ic stake_account_index (\<lambda>b.
             bind (gets (get_lamports b)) (\<lambda>balance.
             bind (fail_if (balance < lamports) InsufficientFunds) (\<lambda>_. reads (get_state (se_state env) b))))) (\<lambda>stake_state.
     bind (case stake_state of
             Staked meta s flags \<Rightarrow>
               split_staked env ic stake_account_index lamports split_index signers split_lamport_balance meta s flags
           | StakeInitialized meta \<Rightarrow> split_initialized env ic stake_account_index lamports split_index signers meta
           | StakeUninitialized \<Rightarrow>
               bind (reads (key_of_instruction_account ic stake_account_index)) (\<lambda>stake_pubkey.
                 fail_if (stake_pubkey \<notin> set signers) MissingRequiredSignature)
           | RewardsPool \<Rightarrow> throw InvalidAccountData) (\<lambda>_.
     bind (with_instruction_account ic stake_account_index (\<lambda>b.
             bind (gets (get_lamports b)) (\<lambda>balance.
               if lamports = balance then set_state (se_state env) b StakeUninitialized else return ()))) (\<lambda>_.
     bind (with_instruction_account ic split_index (\<lambda>b. checked_add_lamports b lamports)) (\<lambda>_.
       with_instruction_account ic stake_account_index (\<lambda>b. checked_sub_lamports b lamports))))))"

subsection \<open>Merging\<close>

datatype merge_kind =
    Inactive stake_meta u64 stake_flags
  | ActivationEpoch stake_meta stake stake_flags
  | FullyActive stake_meta stake

fun merge_kind_meta :: "merge_kind \<Rightarrow> stake_meta" where
  "merge_kind_meta (Inactive meta _ _) = meta"
| "merge_kind_meta (ActivationEpoch meta _ _) = meta"
| "merge_kind_meta (FullyActive meta _) = meta"

fun active_stake :: "merge_kind \<Rightarrow> stake option" where
  "active_stake (Inactive _ _ _) = None"
| "active_stake (ActivationEpoch _ s _) = Some s"
| "active_stake (FullyActive _ s) = Some s"

definition get_if_mergeable ::
  "stake_env \<Rightarrow> stake_state \<Rightarrow> u64 \<Rightarrow> clock \<Rightarrow> stake_history \<Rightarrow> instruction_error + merge_kind" where
  "get_if_mergeable env st stake_lamports clock stake_history =
     (case st of
        Staked meta s flags \<Rightarrow>
          and_then (new_warmup_cooldown_rate_epoch env) (\<lambda>new_rate.
            let status = stake_activating_and_deactivating (sk_delegation s) (ck_epoch clock) stake_history new_rate in
            if sh_effective status = 0 \<and> sh_activating status = 0 \<and> sh_deactivating status = 0
            then Inr (Inactive meta stake_lamports flags)
            else if sh_effective status = 0 then Inr (ActivationEpoch meta s flags)
            else if sh_activating status = 0 \<and> sh_deactivating status = 0 then Inr (FullyActive meta s)
            else Inl (stake_error_into MergeTransientStake))
      | StakeInitialized meta \<Rightarrow> Inr (Inactive meta stake_lamports flags_empty)
      | _ \<Rightarrow> Inl InvalidAccountData)"

definition metas_can_merge :: "stake_meta \<Rightarrow> stake_meta \<Rightarrow> clock \<Rightarrow> instruction_error + unit" where
  "metas_can_merge stake source clock =
     (let can_merge_lockups = (sm_lockup stake = sm_lockup source \<or>
            \<not> is_in_force (sm_lockup stake) clock None \<and> \<not> is_in_force (sm_lockup source) clock None) in
      if sm_authorized stake = sm_authorized source \<and> can_merge_lockups then Inr ()
      else Inl (stake_error_into MergeMismatch))"

definition active_delegations_can_merge :: "delegation \<Rightarrow> delegation \<Rightarrow> instruction_error + unit" where
  "active_delegations_can_merge stake source =
     (if dg_voter_pubkey stake \<noteq> dg_voter_pubkey source then Inl (stake_error_into MergeMismatch)
      else if dg_deactivation_epoch stake = - 1 \<and> dg_deactivation_epoch source = - 1 then Inr ()
      else Inl (stake_error_into MergeMismatch))"

definition checked_mul :: "'a::len word \<Rightarrow> 'a word \<Rightarrow> 'a word option" where
  "checked_mul a b = (if unat a * unat b < 2 ^ LENGTH('a) then Some (a * b) else None)"

text \<open>The weighted mean of the credits, rounded up, in 128-bit arithmetic.\<close>

definition stake_weighted_credits_observed :: "stake \<Rightarrow> u64 \<Rightarrow> u64 \<Rightarrow> u64 option" where
  "stake_weighted_credits_observed s absorbed_lamports absorbed_credits_observed =
     (if sk_credits_observed s = absorbed_credits_observed then Some (sk_credits_observed s)
      else Option.bind (checked_add (sk_stake s) absorbed_lamports) (\<lambda>total.
        let total_stake = (ucast total :: u128) in
        Option.bind (checked_mul (ucast (sk_credits_observed s)) (ucast (sk_stake s))) (\<lambda>stake_weighted_credits.
        Option.bind (checked_mul (ucast absorbed_credits_observed) (ucast absorbed_lamports)) (\<lambda>absorbed_weighted_credits.
        Option.bind (checked_add stake_weighted_credits absorbed_weighted_credits) (\<lambda>x.
        Option.bind (checked_add x total_stake) (\<lambda>y.
        Option.bind (checked_sub y 1) (\<lambda>total_weighted_credits.
          if total_stake = 0 then None
          else let q = total_weighted_credits div total_stake
               in if unat q < 2 ^ 64 then Some (ucast q) else None)))))))"

definition merge_delegation_stake_and_credits_observed :: "stake \<Rightarrow> u64 \<Rightarrow> u64 \<Rightarrow> instruction_error + stake" where
  "merge_delegation_stake_and_credits_observed s absorbed_lamports absorbed_credits_observed =
     and_then (ok_or (stake_weighted_credits_observed s absorbed_lamports absorbed_credits_observed) ArithmeticOverflow) (\<lambda>credits.
     and_then (ok_or (checked_add (sk_stake s) absorbed_lamports) InsufficientFunds) (\<lambda>total.
       Inr (set_sk_stake total (s\<lparr>sk_credits_observed := credits\<rparr>))))"

definition merge_kind_merge :: "merge_kind \<Rightarrow> merge_kind \<Rightarrow> clock \<Rightarrow> instruction_error + stake_state option" where
  "merge_kind_merge stake source clock =
     and_then (metas_can_merge (merge_kind_meta stake) (merge_kind_meta source) clock) (\<lambda>_.
     and_then (case (active_stake stake, active_stake source) of
                 (Some s, Some t) \<Rightarrow> active_delegations_can_merge (sk_delegation s) (sk_delegation t)
               | _ \<Rightarrow> Inr ()) (\<lambda>_.
       case (stake, source) of
         (Inactive _ _ _, Inactive _ _ _) \<Rightarrow> Inr None
       | (Inactive _ _ _, ActivationEpoch _ _ _) \<Rightarrow> Inr None
       | (ActivationEpoch meta s flags, Inactive _ source_lamports source_flags) \<Rightarrow>
           and_then (ok_or (checked_add (sk_stake s) source_lamports) InsufficientFunds) (\<lambda>total.
             Inr (Some (Staked meta (set_sk_stake total s) (flags_union flags source_flags))))
       | (ActivationEpoch meta s flags, ActivationEpoch source_meta source_stake source_flags) \<Rightarrow>
           and_then (ok_or (checked_add (sm_rent_exempt_reserve source_meta) (sk_stake source_stake)) InsufficientFunds) (\<lambda>source_lamports.
           and_then (merge_delegation_stake_and_credits_observed s source_lamports (sk_credits_observed source_stake)) (\<lambda>s.
             Inr (Some (Staked meta s (flags_union flags source_flags)))))
       | (FullyActive meta s, FullyActive _ source_stake) \<Rightarrow>
           and_then (merge_delegation_stake_and_credits_observed s (sk_stake source_stake) (sk_credits_observed source_stake)) (\<lambda>s.
             Inr (Some (Staked meta s flags_empty)))
       | _ \<Rightarrow> Inl (stake_error_into MergeMismatch)))"

definition merge_stake_accounts ::
  "stake_env \<Rightarrow> instruction_context \<Rightarrow> index_of_account \<Rightarrow> index_of_account \<Rightarrow> clock \<Rightarrow> stake_history \<Rightarrow> pubkey list
     \<Rightarrow> unit tc_effect" where
  "merge_stake_accounts env ic stake_account_index source_account_index clock stake_history signers =
     with_instruction_account ic source_account_index (\<lambda>source.
     bind (gets (get_owner source)) (\<lambda>owner.
     bind (fail_if (owner \<noteq> stake_program_id) IncorrectProgramId) (\<lambda>_.
     bind (lift (get_index_of_instruction_account_in_transaction ic stake_account_index)) (\<lambda>stake_index.
     bind (lift (get_index_of_instruction_account_in_transaction ic source_account_index)) (\<lambda>source_index.
     bind (fail_if (stake_index = source_index) InvalidArgument) (\<lambda>_.
     with_instruction_account ic stake_account_index (\<lambda>b.
     bind (reads (get_state (se_state env) b)) (\<lambda>st.
     bind (reads (\<lambda>tc. get_if_mergeable env st (get_lamports b tc) clock stake_history)) (\<lambda>stake_merge_kind.
     bind (lift (authorized_check (sm_authorized (merge_kind_meta stake_merge_kind)) signers Staker)) (\<lambda>_.
     bind (reads (get_state (se_state env) source)) (\<lambda>source_state.
     bind (reads (\<lambda>tc. get_if_mergeable env source_state (get_lamports source tc) clock stake_history)) (\<lambda>source_merge_kind.
     bind (lift (merge_kind_merge stake_merge_kind source_merge_kind clock)) (\<lambda>merged_state.
     bind (case merged_state of None \<Rightarrow> return () | Some merged \<Rightarrow> set_state (se_state env) b merged) (\<lambda>_.
     bind (set_state (se_state env) source StakeUninitialized) (\<lambda>_.
     bind (gets (get_lamports source)) (\<lambda>lamports.
     bind (checked_sub_lamports source lamports) (\<lambda>_.
       checked_add_lamports b lamports)))))))))))))))))"

subsection \<open>Redelegating, withdrawing and deactivating\<close>

definition redelegate ::
  "stake_env \<Rightarrow> instruction_context \<Rightarrow> borrowed_account \<Rightarrow> index_of_account \<Rightarrow> index_of_account \<Rightarrow> pubkey list \<Rightarrow> unit tc_effect" where
  "redelegate env ic b uninitialized_stake_account_index vote_account_index signers =
     bind (lift (get_clock (se_sysvar_cache env))) (\<lambda>clock.
     with_instruction_account ic uninitialized_stake_account_index (\<lambda>uninitialized.
     bind (check_uninitialized env uninitialized AccountAlreadyInitialized) (\<lambda>_.
     with_instruction_account ic vote_account_index (\<lambda>vote_account.
     bind (read_vote_account env vote_account) (\<lambda>(vote_pubkey, vote_state).
     bind (lift vote_state) (\<lambda>versioned.
     bind (reads (get_state (se_state env) b)) (\<lambda>st.
     case st of
       Staked stake_meta s _ \<Rightarrow>
         bind (lift (get_stake_status env s clock)) (\<lambda>status.
         bind (fail_if (sh_effective status = 0 \<or> sh_activating status \<noteq> 0 \<or> sh_deactivating status \<noteq> 0)
                (stake_error_into RedelegateTransientOrInactiveStake)) (\<lambda>_.
         bind (fail_if (dg_voter_pubkey (sk_delegation s) = vote_pubkey) (stake_error_into RedelegateToSameVoteAccount)) (\<lambda>_.
         bind (deactivate env b clock signers) (\<lambda>_.
         bind (checked_sub_lamports b (sh_effective status)) (\<lambda>_.
         bind (checked_add_lamports uninitialized (sh_effective status)) (\<lambda>_.
         bind (lift (get_rent (se_sysvar_cache env))) (\<lambda>rent.
         bind (gets (get_data uninitialized)) (\<lambda>data.
         let meta = stake_meta\<lparr>sm_rent_exempt_reserve := minimum_balance rent (length data)\<rparr> in
         bind (reads (validate_delegated_amount env uninitialized meta)) (\<lambda>stake_amount.
           set_state (se_state env) uninitialized (Staked meta
             (new_stake stake_amount vote_pubkey (convert_to_current versioned) (ck_epoch clock))
             MUST_FULLY_ACTIVATE_BEFORE_DEACTIVATION_IS_PERMITTED))))))))))
     | _ \<Rightarrow> throw InvalidAccountData)))))))"

text \<open>What a withdrawal has to leave: the lockup, the lamports that stay, and whether stake is active.\<close>

definition withdraw_limits ::
  "stake_state \<Rightarrow> pubkey \<Rightarrow> pubkey list \<Rightarrow> clock \<Rightarrow> stake_history \<Rightarrow> u64 option \<Rightarrow> instruction_error + stake_lockup \<times> u64 \<times> bool" where
  "withdraw_limits st stake_pubkey signers clock stake_history new_rate =
     (case st of
        Staked meta s _ \<Rightarrow>
          and_then (authorized_check (sm_authorized meta) signers StakeWithdrawer) (\<lambda>_.
          let staked = (if dg_deactivation_epoch (sk_delegation s) \<le> ck_epoch clock
                        then delegation_stake (sk_delegation s) (ck_epoch clock) stake_history new_rate
                        else sk_stake s) in
          and_then (ok_or (checked_add staked (sm_rent_exempt_reserve meta)) InsufficientFunds) (\<lambda>staked_and_reserve.
            Inr (sm_lockup meta, staked_and_reserve, staked \<noteq> 0)))
      | StakeInitialized meta \<Rightarrow>
          and_then (authorized_check (sm_authorized meta) signers StakeWithdrawer) (\<lambda>_.
            Inr (sm_lockup meta, sm_rent_exempt_reserve meta, False))
      | StakeUninitialized \<Rightarrow>
          if stake_pubkey \<notin> set signers then Inl MissingRequiredSignature else Inr (lockup_default, 0, False)
      | RewardsPool \<Rightarrow> Inl InvalidAccountData)"

definition withdraw_custodian :: "instruction_context \<Rightarrow> index_of_account option \<Rightarrow> pubkey option tc_effect" where
  "withdraw_custodian ic custodian_index =
     (case custodian_index of
        None \<Rightarrow> return None
      | Some i \<Rightarrow>
          bind (lift (is_instruction_account_signer ic i)) (\<lambda>signed.
            if signed then bind (reads (key_of_instruction_account ic i)) (\<lambda>key. return (Some key)) else return None))"

definition withdraw_from ::
  "stake_env \<Rightarrow> instruction_context \<Rightarrow> borrowed_account \<Rightarrow> u64 \<Rightarrow> clock \<Rightarrow> stake_history \<Rightarrow> pubkey list \<Rightarrow> index_of_account option
     \<Rightarrow> u64 option \<Rightarrow> unit tc_effect" where
  "withdraw_from env ic b lamports clock stake_history signers custodian_index new_rate =
     bind (reads (get_state (se_state env) b)) (\<lambda>st.
     bind (reads (\<lambda>tc. withdraw_limits st (get_key b tc) signers clock stake_history new_rate)) (\<lambda>(lockup, reserve, is_staked).
     bind (withdraw_custodian ic custodian_index) (\<lambda>custodian_pubkey.
     bind (fail_if (is_in_force lockup clock custodian_pubkey) (stake_error_into LockupInForce)) (\<lambda>_.
     bind (lift (ok_or (checked_add lamports reserve) InsufficientFunds)) (\<lambda>lamports_and_reserve.
     bind (gets (get_lamports b)) (\<lambda>balance.
     bind (fail_if (is_staked \<and> balance < lamports_and_reserve) InsufficientFunds) (\<lambda>_.
     bind (fail_if (lamports \<noteq> balance \<and> balance < lamports_and_reserve)
            (if is_staked then ProgramFailedToComplete else InsufficientFunds)) (\<lambda>_.
     bind (if lamports = balance then set_state (se_state env) b StakeUninitialized else return ()) (\<lambda>_.
       checked_sub_lamports b lamports)))))))))"

definition withdraw_stake ::
  "stake_env \<Rightarrow> instruction_context \<Rightarrow> index_of_account \<Rightarrow> u64 \<Rightarrow> index_of_account \<Rightarrow> clock \<Rightarrow> stake_history \<Rightarrow> index_of_account
     \<Rightarrow> index_of_account option \<Rightarrow> u64 option \<Rightarrow> unit tc_effect" where
  "withdraw_stake env ic stake_account_index lamports to_index clock stake_history withdraw_authority_index custodian_index new_rate =
     bind (reads (key_of_instruction_account ic withdraw_authority_index)) (\<lambda>withdraw_authority_pubkey.
     bind (lift (is_instruction_account_signer ic withdraw_authority_index)) (\<lambda>signed.
     bind (fail_if (\<not> signed) MissingRequiredSignature) (\<lambda>_.
     bind (with_instruction_account ic stake_account_index (\<lambda>b.
             withdraw_from env ic b lamports clock stake_history [withdraw_authority_pubkey] custodian_index new_rate)) (\<lambda>_.
       with_instruction_account ic to_index (\<lambda>to_account. checked_add_lamports to_account lamports)))))"

text \<open>The current state of a vote account, with its owner checked.\<close>

definition read_vote_state :: "stake_env \<Rightarrow> borrowed_account \<Rightarrow> vote_state tc_effect" where
  "read_vote_state env vote_account =
     bind (read_vote_account env vote_account) (\<lambda>(_, vote_state).
     bind (lift vote_state) (\<lambda>versioned. return (convert_to_current versioned)))"

definition deactivate_delinquent ::
  "stake_env \<Rightarrow> instruction_context \<Rightarrow> borrowed_account \<Rightarrow> index_of_account \<Rightarrow> index_of_account \<Rightarrow> u64 \<Rightarrow> unit tc_effect" where
  "deactivate_delinquent env ic b delinquent_vote_account_index reference_vote_account_index current_epoch =
     bind (reads (key_of_instruction_account ic delinquent_vote_account_index)) (\<lambda>delinquent_vote_account_pubkey.
     with_instruction_account ic delinquent_vote_account_index (\<lambda>delinquent.
     bind (read_vote_state env delinquent) (\<lambda>delinquent_vote_state.
     with_instruction_account ic reference_vote_account_index (\<lambda>reference.
     bind (read_vote_state env reference) (\<lambda>reference_vote_state.
     bind (fail_if (\<not> acceptable_reference_epoch_credits (vs_epoch_credits reference_vote_state) current_epoch)
            (stake_error_into InsufficientReferenceVotes)) (\<lambda>_.
     bind (reads (get_state (se_state env) b)) (\<lambda>st.
     case st of
       Staked meta s flags \<Rightarrow>
         bind (fail_if (dg_voter_pubkey (sk_delegation s) \<noteq> delinquent_vote_account_pubkey) (stake_error_into VoteAddressMismatch)) (\<lambda>_.
         if eligible_for_deactivate_delinquent (vs_epoch_credits delinquent_vote_state) current_epoch
         then bind (lift (deactivate_stake env s flags current_epoch)) (\<lambda>(s, flags).
                set_state (se_state env) b (Staked meta s flags))
         else throw (stake_error_into MinimumDelinquentEpochsForDeactivationNotMet))
     | _ \<Rightarrow> throw InvalidAccountData)))))))"

subsection \<open>The entry point\<close>

definition get_optional_pubkey :: "instruction_context \<Rightarrow> index_of_account \<Rightarrow> bool \<Rightarrow> pubkey option tc_effect" where
  "get_optional_pubkey ic instruction_account_index should_be_signer =
     (if instruction_account_index < get_number_of_instruction_accounts ic then
        bind (if should_be_signer
              then bind (lift (is_instruction_account_signer ic instruction_account_index)) (\<lambda>signed.
                     fail_if (\<not> signed) MissingRequiredSignature)
              else return ()) (\<lambda>_.
        bind (reads (key_of_instruction_account ic instruction_account_index)) (\<lambda>key. return (Some key)))
      else return None)"

text \<open>\<open>get_stake_account\<close>: the first account, with its owner checked, for the rest of a scope.\<close>

definition with_stake_account :: "instruction_context \<Rightarrow> (borrowed_account \<Rightarrow> 'a tc_effect) \<Rightarrow> 'a tc_effect" where
  "with_stake_account ic body =
     with_instruction_account ic 0 (\<lambda>me.
       bind (gets (get_owner me)) (\<lambda>owner.
       bind (fail_if (owner \<noteq> stake_program_id) InvalidAccountOwner) (\<lambda>_.
         body me)))"

definition check_accounts :: "instruction_context \<Rightarrow> index_of_account \<Rightarrow> unit tc_effect" where
  "check_accounts ic expected = lift (check_number_of_instruction_accounts ic expected)"

text \<open>The sysvars of the instructions that give their stake account back before they act.\<close>

definition stake_sysvars ::
  "stake_env \<Rightarrow> instruction_context \<Rightarrow> index_of_account \<Rightarrow> (clock \<times> stake_history) tc_effect" where
  "stake_sysvars env ic expected =
     with_stake_account ic (\<lambda>_.
       bind (check_accounts ic 2) (\<lambda>_.
       bind (reads (checked_clock (se_sysvar_cache env) ic 2)) (\<lambda>clock.
       bind (reads (checked_stake_history (se_sysvar_cache env) ic 3)) (\<lambda>stake_history.
       bind (check_accounts ic expected) (\<lambda>_.
         return (clock, stake_history))))))"

fun stake_execute :: "stake_env \<Rightarrow> instruction_context \<Rightarrow> pubkey list \<Rightarrow> stake_instruction \<Rightarrow> unit tc_effect" where
  "stake_execute env ic signers (StakeInitialize authorities lockup) =
     with_stake_account ic (\<lambda>me.
       bind (reads (checked_rent (se_sysvar_cache env) ic 1)) (\<lambda>rent. initialize env me authorities lockup rent))"
| "stake_execute env ic signers (StakeAuthorizeKey authorized_pubkey kind) =
     with_stake_account ic (\<lambda>me.
       bind (reads (checked_clock (se_sysvar_cache env) ic 1)) (\<lambda>clock.
       bind (check_accounts ic 3) (\<lambda>_.
       bind (get_optional_pubkey ic 3 False) (\<lambda>custodian.
         stake_account_authorize env me signers authorized_pubkey kind clock custodian))))"
| "stake_execute env ic signers (StakeAuthorizeWithSeed new_authorized_pubkey kind authority_seed authority_owner) =
     with_stake_account ic (\<lambda>me.
       bind (check_accounts ic 2) (\<lambda>_.
       bind (reads (checked_clock (se_sysvar_cache env) ic 2)) (\<lambda>clock.
       bind (get_optional_pubkey ic 3 False) (\<lambda>custodian.
         authorize_with_seed env ic me 1 authority_seed authority_owner new_authorized_pubkey kind clock custodian))))"
| "stake_execute env ic signers DelegateStake =
     bind (stake_sysvars env ic 5) (\<lambda>(clock, stake_history).
     bind (check_stake_config env ic 4) (\<lambda>_.
       delegate env ic 0 1 clock stake_history signers))"
| "stake_execute env ic signers (SplitStake lamports) =
     bind (with_stake_account ic (\<lambda>_. check_accounts ic 2)) (\<lambda>_.
       split_stake_account env ic 0 lamports 1 signers)"
| "stake_execute env ic signers MergeStake =
     bind (stake_sysvars env ic 2) (\<lambda>(clock, stake_history).
       merge_stake_accounts env ic 0 1 clock stake_history signers)"
| "stake_execute env ic signers (WithdrawStake lamports) =
     bind (stake_sysvars env ic 5) (\<lambda>(clock, stake_history).
     bind (lift (new_warmup_cooldown_rate_epoch env)) (\<lambda>new_rate.
       withdraw_stake env ic 0 lamports 1 clock stake_history 4
         (if 6 \<le> get_number_of_instruction_accounts ic then Some 5 else None) new_rate))"
| "stake_execute env ic signers DeactivateStake =
     with_stake_account ic (\<lambda>me.
       bind (reads (checked_clock (se_sysvar_cache env) ic 1)) (\<lambda>clock. deactivate env me clock signers))"
| "stake_execute env ic signers (SetLockup lockup) =
     with_stake_account ic (\<lambda>me.
       bind (lift (get_clock (se_sysvar_cache env))) (\<lambda>clock. set_lockup env me lockup signers clock))"
| "stake_execute env ic signers StakeInitializeChecked =
     with_stake_account ic (\<lambda>me.
       bind (check_accounts ic 4) (\<lambda>_.
       bind (reads (key_of_instruction_account ic 2)) (\<lambda>staker_pubkey.
       bind (signing_authority ic 3) (\<lambda>withdrawer_pubkey.
       bind (reads (checked_rent (se_sysvar_cache env) ic 1)) (\<lambda>rent.
         initialize env me \<lparr>sa_staker = staker_pubkey, sa_withdrawer = withdrawer_pubkey\<rparr> lockup_default rent)))))"
| "stake_execute env ic signers (StakeAuthorizeChecked kind) =
     with_stake_account ic (\<lambda>me.
       bind (reads (checked_clock (se_sysvar_cache env) ic 1)) (\<lambda>clock.
       bind (check_accounts ic 4) (\<lambda>_.
       bind (signing_authority ic 3) (\<lambda>authorized_pubkey.
       bind (get_optional_pubkey ic 4 False) (\<lambda>custodian.
         stake_account_authorize env me signers authorized_pubkey kind clock custodian)))))"
| "stake_execute env ic signers (StakeAuthorizeCheckedWithSeed kind authority_seed authority_owner) =
     with_stake_account ic (\<lambda>me.
       bind (check_accounts ic 2) (\<lambda>_.
       bind (reads (checked_clock (se_sysvar_cache env) ic 2)) (\<lambda>clock.
       bind (check_accounts ic 4) (\<lambda>_.
       bind (signing_authority ic 3) (\<lambda>authorized_pubkey.
       bind (get_optional_pubkey ic 4 False) (\<lambda>custodian.
         authorize_with_seed env ic me 1 authority_seed authority_owner authorized_pubkey kind clock custodian))))))"
| "stake_execute env ic signers (SetLockupChecked unix_timestamp epoch) =
     with_stake_account ic (\<lambda>me.
       bind (get_optional_pubkey ic 2 True) (\<lambda>custodian.
       bind (lift (get_clock (se_sysvar_cache env))) (\<lambda>clock.
         set_lockup env me \<lparr>la_unix_timestamp = unix_timestamp, la_epoch = epoch, la_custodian = custodian\<rparr> signers clock)))"
| "stake_execute env ic signers GetMinimumDelegation =
     set_return_data stake_program_id (put_u64 (get_minimum_delegation env))"
| "stake_execute env ic signers DeactivateDelinquent =
     with_stake_account ic (\<lambda>me.
       bind (check_accounts ic 3) (\<lambda>_.
       bind (lift (get_clock (se_sysvar_cache env))) (\<lambda>clock.
         deactivate_delinquent env ic me 1 2 (ck_epoch clock))))"
| "stake_execute env ic signers RedelegateStake =
     with_stake_account ic (\<lambda>me.
       if se_redelegate env
       then bind (check_accounts ic 3) (\<lambda>_.
            bind (check_stake_config env ic 3) (\<lambda>_.
              redelegate env ic me 1 2 signers))
       else throw InvalidInstructionData)"

definition stake_process_instruction :: "stake_env \<Rightarrow> unit tc_effect" where
  "stake_process_instruction env =
     bind (reads get_current_instruction_context) (\<lambda>ic.
     bind (reads (get_signers ic)) (\<lambda>signers.
     bind (lift (limited_deserialize (se_decode env) (ic_instruction_data ic))) (\<lambda>instruction.
       stake_execute env ic signers instruction)))"

end
