(* ===== verification/Stake_Safety.thy ===== *)
theory Stake_Safety
  imports Stake_Program
begin

section \<open>The handlers stay inside the access contract\<close>

text \<open>
  Every handler of the stake program changes accounts only through the interface of borrowed accounts
  and releases its borrows.
\<close>

lemma keeps_case_stake_state:
  "keeps R u \<Longrightarrow> (\<And>meta. keeps R (i meta)) \<Longrightarrow> (\<And>meta s flags. keeps R (d meta s flags)) \<Longrightarrow> keeps R p \<Longrightarrow>
   keeps R (case st of StakeUninitialized \<Rightarrow> u | StakeInitialized meta \<Rightarrow> i meta | Staked meta s flags \<Rightarrow> d meta s flags | RewardsPool \<Rightarrow> p)"
  by (cases st) simp_all

lemma keeps_get_optional_pubkey: "keeps (safe_rel ic) (get_optional_pubkey ic' i signer)"
  unfolding get_optional_pubkey_def by (intro safe_handler_rules)

lemma keeps_withdraw_custodian: "keeps (safe_rel ic) (withdraw_custodian ic' i)"
  unfolding withdraw_custodian_def by (intro safe_handler_rules)

lemma keeps_check_accounts: "keeps (safe_rel ic) (check_accounts ic' n)"
  unfolding check_accounts_def by (intro safe_handler_rules)

lemma keeps_read_vote:
  "keeps (safe_rel ic) (read_vote_account env b)" "keeps (safe_rel ic) (read_vote_state env b)"
  unfolding read_vote_account_def read_vote_state_def by (intro safe_handler_rules)+

lemma keeps_check_uninitialized: "keeps (safe_rel ic) (check_uninitialized env b e)"
  unfolding check_uninitialized_def by (intro safe_handler_rules)

lemma keeps_check_stake_config: "wf_ic ic \<Longrightarrow> keeps (safe_rel ic) (check_stake_config env ic i)"
  unfolding check_stake_config_def by (intro safe_handler_rules)

lemma keeps_with_stake_account:
  "wf_ic ic \<Longrightarrow> (\<And>b. handle_of ic b \<Longrightarrow> keeps (safe_rel ic) (body b)) \<Longrightarrow> keeps (safe_rel ic) (with_stake_account ic body)"
  unfolding with_stake_account_def by (intro safe_handler_rules)

lemmas stake_rules = safe_handler_rules keeps_case_stake_state keeps_get_optional_pubkey keeps_withdraw_custodian keeps_check_accounts keeps_read_vote
  keeps_check_uninitialized keeps_check_stake_config keeps_with_stake_account keeps_signing_authority

lemma keeps_stake_account_authorize:
  "handle_of ic b \<Longrightarrow> keeps (safe_rel ic) (stake_account_authorize env b signers k kind clock custodian)"
  unfolding stake_account_authorize_def Let_def by (intro stake_rules)

lemma keeps_authorize_with_seed:
  "handle_of ic b \<Longrightarrow> keeps (safe_rel ic) (authorize_with_seed env ic' b i seed own k kind clock custodian)"
  unfolding authorize_with_seed_def by (intro stake_rules keeps_stake_account_authorize)

lemma keeps_stake_deactivate: "handle_of ic b \<Longrightarrow> keeps (safe_rel ic) (deactivate env b clock signers)"
  unfolding deactivate_def by (intro stake_rules)

lemma keeps_set_lockup: "handle_of ic b \<Longrightarrow> keeps (safe_rel ic) (set_lockup env b lockup signers clock)"
  unfolding set_lockup_def by (intro stake_rules)

lemma keeps_stake_initialize: "handle_of ic b \<Longrightarrow> keeps (safe_rel ic) (initialize env b a l r)"
  unfolding initialize_def Let_def by (intro stake_rules)

lemma keeps_delegate: "wf_ic ic \<Longrightarrow> keeps (safe_rel ic) (delegate env ic i j clock history signers)"
  unfolding delegate_def by (intro stake_rules)

lemma keeps_split_stake_account: "wf_ic ic \<Longrightarrow> keeps (safe_rel ic) (split_stake_account env ic i lamports j signers)"
  unfolding split_stake_account_def split_staked_def split_initialized_def validate_split_amount_def by (intro stake_rules)

lemma keeps_merge_stake_accounts: "wf_ic ic \<Longrightarrow> keeps (safe_rel ic) (merge_stake_accounts env ic i j clock history signers)"
  unfolding merge_stake_accounts_def by (intro stake_rules)

lemma keeps_redelegate: "wf_ic ic \<Longrightarrow> handle_of ic b \<Longrightarrow> keeps (safe_rel ic) (redelegate env ic b i j signers)"
  unfolding redelegate_def Let_def by (intro stake_rules keeps_stake_deactivate)

lemma keeps_withdraw_stake: "wf_ic ic \<Longrightarrow> keeps (safe_rel ic) (withdraw_stake env ic i l j clock history k c r)"
  unfolding withdraw_stake_def withdraw_from_def by (intro stake_rules)

lemma keeps_deactivate_delinquent:
  "wf_ic ic \<Longrightarrow> handle_of ic b \<Longrightarrow> keeps (safe_rel ic) (deactivate_delinquent env ic b i j epoch)"
  unfolding deactivate_delinquent_def by (intro stake_rules)

lemmas stake_handler_rules = stake_rules keeps_stake_account_authorize keeps_authorize_with_seed keeps_stake_deactivate keeps_set_lockup keeps_stake_initialize
  keeps_delegate keeps_split_stake_account keeps_merge_stake_accounts keeps_redelegate keeps_withdraw_stake
  keeps_deactivate_delinquent

lemma keeps_stake_execute:
  assumes "wf_ic ic" "instruction \<noteq> GetMinimumDelegation"
  shows "keeps (safe_rel ic) (stake_execute env ic signers instruction)"
  using assms
  by (cases instruction)
    (simp_all only: stake_execute.simps stake_sysvars_def simp_thms,
      (intro stake_handler_rules; assumption)+)

text \<open>The query for the minimum delegation sets the return data and nothing else.\<close>

lemma stake_safe:
  assumes "wf_ic ic" "get_current_instruction_context tc = Inr ic"
  shows "safe_rel ic tc (snd (stake_process_instruction env tc)) \<or>
    stake_process_instruction env tc = set_return_data stake_program_id (put_u64 (get_minimum_delegation env)) tc"
proof (cases "\<exists>signers instruction. get_signers ic tc = Inr signers \<and>
    limited_deserialize (se_decode env) (ic_instruction_data ic) = Inr instruction")
  case True
  then obtain signers instruction where
    "stake_process_instruction env tc = stake_execute env ic signers instruction tc"
    using assms(2) by (auto simp: stake_process_instruction_def effect_simps)
  then show ?thesis
    using keeps_stake_execute [OF assms(1), of instruction env signers]
    by (cases "instruction = GetMinimumDelegation") (simp_all add: keeps_def)
next
  case False
  then have "snd (stake_process_instruction env tc) = tc"
    using assms(2) by (auto simp: stake_process_instruction_def effect_simps split: sum.splits)
  then show ?thesis by (simp add: safe_rel_refl)
qed

end
