(* ===== verification/Cross_Program.thy ===== *)
theory Cross_Program
  imports Program_Contract
begin

section \<open>Preparing a cross-program invocation\<close>

text \<open>
  What \<open>InvokeContext::prepare_instruction\<close> hands to the callee. The list of accounts has one
  entry for each account meta of the instruction, in order; entries of the same account are
  merged, with the union of the privileges the metas ask for; and no privilege exceeds what the
  caller holds, signers named by the caller apart. Hence a program that invokes another keeps the
  contract of a program.
\<close>

subsection \<open>Merging duplicates\<close>

definition asked :: "(account_meta \<Rightarrow> bool) \<Rightarrow> account_meta list \<Rightarrow> nat list \<Rightarrow> nat \<Rightarrow> bool" where
  "asked P metas dups d \<longleftrightarrow> (\<exists>i<length metas. dups ! i = d \<and> P (metas ! i))"

definition caller_position ::
  "transaction_context \<Rightarrow> instruction_context \<Rightarrow> index_of_account \<Rightarrow> account_meta \<Rightarrow> bool" where
  "caller_position tc caller c am \<longleftrightarrow> find_index_of_instruction_account caller tc (am_pubkey am) = Some c"

definition dedup_inv ::
  "transaction_context \<Rightarrow> instruction_context \<Rightarrow> account_meta list \<Rightarrow> instruction_account list \<Rightarrow> nat list \<Rightarrow> bool" where
  "dedup_inv tc caller metas dedup dups \<longleftrightarrow>
     length dups = length metas \<and> distinct (map ia_index_in_transaction dedup) \<and>
     (\<forall>i<length metas. dups ! i < length dedup \<and>
        find_index_of_account tc (am_pubkey (metas ! i)) = Some (ia_index_in_transaction (dedup ! (dups ! i)))) \<and>
     (\<forall>d<length dedup.
        vec_position (\<lambda>x. x = d) dups = Some (unat (ia_index_in_callee (dedup ! d))) \<and>
        ia_is_writable (dedup ! d) = asked am_is_writable metas dups d \<and>
        ia_is_signer (dedup ! d) = asked am_is_signer metas dups d \<and>
        asked (caller_position tc caller (ia_index_in_caller (dedup ! d))) metas dups d)"

lemma vec_position_snoc:
  "vec_position p (xs @ [x]) =
     (case vec_position p xs of Some i \<Rightarrow> Some i | None \<Rightarrow> if p x then Some (length xs) else None)"
  by (induction xs) (auto split: option.splits)

lemma asked_snoc:
  assumes "length dups = length metas"
  shows "asked P (metas @ [am]) (dups @ [d]) k \<longleftrightarrow> asked P metas dups k \<or> (d = k \<and> P am)"
proof -
  have split: "(\<exists>i<Suc n. Q i) \<longleftrightarrow> (\<exists>i<n. Q i) \<or> Q n" for n :: nat and Q
    using less_Suc_eq by blast
  have same: "((dups @ [d]) ! i = k \<and> P ((metas @ [am]) ! i)) = (dups ! i = k \<and> P (metas ! i))"
    if "i < length metas" for i
    using assms that by (simp add: nth_append)
  have "(\<exists>i<length metas. (dups @ [d]) ! i = k \<and> P ((metas @ [am]) ! i)) = asked P metas dups k"
    unfolding asked_def using same by blast
  then show ?thesis unfolding asked_def [of P "metas @ [am]"] using assms
    by (simp add: split nth_append del: ex_simps)
qed

lemma dedup_inv_merge:
  assumes inv: "dedup_inv tc caller metas dedup dups"
    and am: "find_index_of_account tc (am_pubkey am) = Some (ia_index_in_transaction (dedup ! d))" "d < length dedup"
    and ia': "ia' = (dedup ! d)\<lparr>ia_is_signer := ia_is_signer (dedup ! d) \<or> am_is_signer am,
      ia_is_writable := ia_is_writable (dedup ! d) \<or> am_is_writable am\<rparr>"
  shows "dedup_inv tc caller (metas @ [am]) (dedup[d := ia']) (dups @ [d])"
proof -
  let ?dd = "dedup[d := ia']"
  have len: "length dups = length metas" using inv by (simp add: dedup_inv_def)
  have idx: "ia_index_in_transaction (?dd ! k) = ia_index_in_transaction (dedup ! k)"
    "ia_index_in_callee (?dd ! k) = ia_index_in_callee (dedup ! k)"
    "ia_index_in_caller (?dd ! k) = ia_index_in_caller (dedup ! k)" for k
    using ia' by (cases "k = d"; simp add: am(2))+
  have "map ia_index_in_transaction ?dd = map ia_index_in_transaction dedup"
    using idx(1) by (intro nth_equalityI) simp_all
  then have "distinct (map ia_index_in_transaction ?dd)" using inv by (simp add: dedup_inv_def)
  moreover have "\<forall>i<length (metas @ [am]). (dups @ [d]) ! i < length ?dd \<and>
      find_index_of_account tc (am_pubkey ((metas @ [am]) ! i)) = Some (ia_index_in_transaction (?dd ! ((dups @ [d]) ! i)))"
    using inv am len by (simp add: dedup_inv_def idx nth_append less_Suc_eq)
  moreover have "vec_position (\<lambda>x. x = k) (dups @ [d]) = Some (unat (ia_index_in_callee (?dd ! k))) \<and>
      ia_is_writable (?dd ! k) = asked am_is_writable (metas @ [am]) (dups @ [d]) k \<and>
      ia_is_signer (?dd ! k) = asked am_is_signer (metas @ [am]) (dups @ [d]) k \<and>
      asked (caller_position tc caller (ia_index_in_caller (?dd ! k))) (metas @ [am]) (dups @ [d]) k"
    if "k < length dedup" for k
    using inv that ia' am(2) by (cases "k = d") (simp_all add: dedup_inv_def idx vec_position_snoc asked_snoc [OF len])
  ultimately show ?thesis using len by (simp add: dedup_inv_def)
qed

lemma dedup_inv_new:
  assumes inv: "dedup_inv tc caller metas dedup dups"
    and am: "find_index_of_account tc (am_pubkey am) = Some j"
      "find_index_of_instruction_account caller tc (am_pubkey am) = Some c"
    and new: "\<forall>ia\<in>set dedup. ia_index_in_transaction ia \<noteq> j"
    and small: "length metas < 2 ^ 16"
    and ia: "ia = \<lparr>ia_index_in_transaction = j, ia_index_in_caller = c, ia_index_in_callee = of_nat (length metas),
      ia_is_signer = am_is_signer am, ia_is_writable = am_is_writable am\<rparr>"
  shows "dedup_inv tc caller (metas @ [am]) (dedup @ [ia]) (dups @ [length dedup])"
proof -
  let ?dd = "dedup @ [ia]" and ?ds = "dups @ [length dedup]" and ?ms = "metas @ [am]"
  have len: "length dups = length metas" and lt: "\<And>i. i < length metas \<Longrightarrow> dups ! i < length dedup"
    using inv by (simp_all add: dedup_inv_def)
  then have fresh: "\<forall>x\<in>set dups. x \<noteq> length dedup" by (metis in_set_conv_nth less_irrefl)
  have unasked: "\<not> asked P metas dups (length dedup)" for P using lt by (fastforce simp: asked_def)
  have callee: "unat (of_nat (length metas) :: u16) = length metas" using small by (simp add: unat_of_nat)
  have "distinct (map ia_index_in_transaction ?dd)" using inv new ia by (auto simp: dedup_inv_def)
  moreover have "\<forall>i<length ?ms. ?ds ! i < length ?dd \<and>
      find_index_of_account tc (am_pubkey (?ms ! i)) = Some (ia_index_in_transaction (?dd ! (?ds ! i)))"
  proof (intro allI impI)
    fix i
    assume "i < length ?ms"
    then consider "i < length metas" | "i = length metas" by fastforce
    then show "?ds ! i < length ?dd \<and>
      find_index_of_account tc (am_pubkey (?ms ! i)) = Some (ia_index_in_transaction (?dd ! (?ds ! i)))"
      using inv am len ia by cases (simp_all add: dedup_inv_def nth_append less_Suc_eq)
  qed
  moreover have "vec_position (\<lambda>x. x = k) ?ds = Some (unat (ia_index_in_callee (?dd ! k))) \<and>
      ia_is_writable (?dd ! k) = asked am_is_writable ?ms ?ds k \<and>
      ia_is_signer (?dd ! k) = asked am_is_signer ?ms ?ds k \<and>
      asked (caller_position tc caller (ia_index_in_caller (?dd ! k))) ?ms ?ds k"
    if "k < length ?dd" for k
  proof (cases "k = length dedup")
    case True
    moreover have "vec_position (\<lambda>x. x = length dedup) dups = None" using fresh by (simp add: vec_position_None)
    ultimately show ?thesis using len ia callee am(2)
      by (simp add: vec_position_snoc asked_snoc [OF len] unasked caller_position_def)
  next
    case False
    with that have "k < length dedup" by simp
    then show ?thesis using inv False
      by (simp add: dedup_inv_def vec_position_snoc nth_append asked_snoc [OF len])
  qed
  ultimately show ?thesis using len by (simp add: dedup_inv_def)
qed

lemma dedup_accounts_inv:
  assumes "dedup_accounts tc caller ms (length metas) dedup dups = Inr (dedup', dups')"
    and "dedup_inv tc caller metas dedup dups" "length metas + length ms \<le> 2 ^ 16"
  shows "dedup_inv tc caller (metas @ ms) dedup' dups'"
  using assms
proof (induction ms arbitrary: metas dedup dups)
  case Nil
  then show ?case by simp
next
  case (Cons am ms)
  from Cons.prems(1) obtain j where j: "find_index_of_account tc (am_pubkey am) = Some j"
    by (auto simp: and_then_Inr)
  show ?case
  proof (cases "vec_position (\<lambda>ia. ia_index_in_transaction ia = j) dedup")
    case (Some d)
    then have d: "d < length dedup" "ia_index_in_transaction (dedup ! d) = j" by (simp_all add: vec_position_Some)
    define ia' where "ia' = (dedup ! d)\<lparr>ia_is_signer := ia_is_signer (dedup ! d) \<or> am_is_signer am,
      ia_is_writable := ia_is_writable (dedup ! d) \<or> am_is_writable am\<rparr>"
    have "dedup_inv tc caller (metas @ [am]) (dedup[d := ia']) (dups @ [d])"
      using Cons.prems(2) j d ia'_def by (intro dedup_inv_merge) simp_all
    moreover have "dedup_accounts tc caller ms (length (metas @ [am])) (dedup[d := ia']) (dups @ [d]) = Inr (dedup', dups')"
      using Cons.prems(1) j Some by (simp add: Let_def ia'_def)
    ultimately show ?thesis
      using Cons.IH [of "metas @ [am]" "dedup[d := ia']" "dups @ [d]"] Cons.prems(3) by simp
  next
    case None
    from Cons.prems(1) j None obtain c where c: "find_index_of_instruction_account caller tc (am_pubkey am) = Some c"
      by (auto simp: and_then_Inr)
    define ia where "ia = \<lparr>ia_index_in_transaction = j, ia_index_in_caller = c, ia_index_in_callee = of_nat (length metas),
      ia_is_signer = am_is_signer am, ia_is_writable = am_is_writable am\<rparr>"
    have "dedup_inv tc caller (metas @ [am]) (dedup @ [ia]) (dups @ [length dedup])"
      using Cons.prems(2,3) j c None ia_def by (intro dedup_inv_new) (auto simp: vec_position_None)
    moreover have "dedup_accounts tc caller ms (length (metas @ [am])) (dedup @ [ia]) (dups @ [length dedup]) = Inr (dedup', dups')"
      using Cons.prems(1) j None c by (simp add: ia_def)
    ultimately show ?thesis
      using Cons.IH [of "metas @ [am]" "dedup @ [ia]" "dups @ [length dedup]"] Cons.prems(3) by simp
  qed
qed

lemma expand_accounts_map:
  "expand_accounts dedup ds = Inr ias \<Longrightarrow> ias = map ((!) dedup) ds"
proof (induction ds arbitrary: ias)
  case (Cons d ds)
  then obtain rest where "ias = dedup ! d # rest" "expand_accounts dedup ds = Inr rest"
    by (auto simp: and_then_Inr vec_get_def split: if_splits)
  with Cons.IH show ?case by simp
qed simp

subsection \<open>Privileges\<close>

definition caller_account :: "instruction_context \<Rightarrow> instruction_account \<Rightarrow> instruction_account" where
  "caller_account caller ia = ic_instruction_accounts caller ! unat (ia_index_in_caller ia)"

definition covered :: "instruction_context \<Rightarrow> pubkey list \<Rightarrow> transaction_context \<Rightarrow> instruction_account \<Rightarrow> bool" where
  "covered caller signers tc ia \<longleftrightarrow>
     unat (ia_index_in_caller ia) < length (ic_instruction_accounts caller) \<and>
     (ia_is_writable ia \<longrightarrow> ia_is_writable (caller_account caller ia)) \<and>
     (ia_is_signer ia \<longrightarrow> ia_is_signer (caller_account caller ia) \<or>
        tc_account_keys tc ! unat (ia_index_in_transaction (caller_account caller ia)) \<in> set signers)"

lemma check_privileges_covered:
  assumes "check_privileges caller signers ias tc = (Inr (), tc')" "wf_ic caller"
  shows "\<forall>ia\<in>set ias. covered caller signers tc ia"
  using assms(1)
proof (induction ias)
  case (Cons ia ias)
  let ?check = "with_instruction_account caller (ia_index_in_caller ia) (\<lambda>b.
             bind (fail_if (ia_is_writable ia \<and> \<not> is_writable b) PrivilegeEscalation) (\<lambda>_.
             bind (gets (get_key b)) (\<lambda>key.
               fail_if (ia_is_signer ia \<and> \<not> (is_signer b \<or> key \<in> set signers)) PrivilegeEscalation)))"
  have "keeps (=) ?check" by (intro same.keeps_rules keeps_same_with_instruction_account)
  then have "snd (?check tc) = tc" by (rule keeps_sameD)
  with Cons.prems have first: "?check tc = (Inr (), tc)" and rest: "check_privileges caller signers ias tc = (Inr (), tc')"
    by (auto elim!: bind_okE)
  from first have "covered caller signers tc ia"
  proof (rule with_instruction_account_okE)
    fix b u
    let ?i = "ia_index_in_caller ia"
    assume b: "unat ?i < length (ic_instruction_accounts caller)"
      "ba_instruction_context b = caller" "ba_index b = tx_index caller ?i"
      "ba_index_in_instruction b = saturating_add (get_number_of_program_accounts caller) ?i"
      "bind (fail_if (ia_is_writable ia \<and> \<not> is_writable b) PrivilegeEscalation) (\<lambda>_.
         bind (gets (get_key b)) (\<lambda>key.
           fail_if (ia_is_signer ia \<and> \<not> (is_signer b \<or> key \<in> set signers)) PrivilegeEscalation))
         (set_borrow_at (tx_index caller ?i) WRITING tc) = (Inr (), u)"
    have "ia_is_writable ia \<longrightarrow> is_writable b" "ia_is_signer ia \<longrightarrow> is_signer b \<or> get_key b tc \<in> set signers"
      using b(5) by (auto simp: effect_simps get_key_def set_borrow_at_def split: if_splits)
    then show "covered caller signers tc ia"
      using is_writable_instruction_handle [OF assms(2) b(1,2,4)] b(1,3)
      by (auto simp: covered_def caller_account_def get_key_def)
  qed
  then show ?case using Cons.IH [OF rest] by simp
qed simp

text \<open>With unique keys the caller's entry is the same account.\<close>

lemma caller_account_same:
  assumes "tx_inv tc" "wf_ic caller" "find_index_of_account tc key = Some j"
    and "find_index_of_instruction_account caller tc key = Some c"
  shows "unat c < length (ic_instruction_accounts caller)"
    "ia_index_in_transaction (ic_instruction_accounts caller ! unat c) = j"
    "vec_get (tc_account_keys tc) (unat j) = Some key"
proof -
  from assms(3) obtain n where n: "n < length (tc_account_keys tc)" "tc_account_keys tc ! n = key" "j = of_nat n"
    by (auto simp: find_index_of_account_def vec_position_Some)
  have "n < 2 ^ 16" using n(1) assms(1) by (simp add: tx_inv_def)
  then have un: "unat j = n" using n(3) by (simp add: unat_of_nat)
  from assms(4) obtain m where m: "m < length (ic_instruction_accounts caller)" "c = of_nat m"
    "vec_get (tc_account_keys tc) (unat (ia_index_in_transaction (ic_instruction_accounts caller ! m))) = Some key"
    by (auto simp: find_index_of_instruction_account_def vec_position_Some)
  have "m < 2 ^ 16" using m(1) assms(2) by (simp add: wf_ic_def)
  then have um: "unat c = m" using m(2) by (simp add: unat_of_nat)
  show "unat c < length (ic_instruction_accounts caller)" using um m by simp
  show "vec_get (tc_account_keys tc) (unat j) = Some key" using un n by (simp add: vec_get_def)
  let ?k = "unat (ia_index_in_transaction (ic_instruction_accounts caller ! m))"
  have "?k < length (tc_account_keys tc)" "tc_account_keys tc ! ?k = key"
    using m(3) by (auto simp: vec_get_def split: if_splits)
  then have "?k = unat j" using n un assms(1) by (auto simp: tx_inv_def nth_eq_iff_index_eq)
  then show "ia_index_in_transaction (ic_instruction_accounts caller ! unat c) = j"
    unfolding um by (simp only: word_unat_eq_iff)
qed

lemma vec_position_map: "vec_position p (map f xs) = vec_position (\<lambda>x. p (f x)) xs"
  by (induction xs) auto

lemma vec_position_cong: "xs = ys \<Longrightarrow> (\<And>x. x \<in> set ys \<Longrightarrow> p x = q x) \<Longrightarrow> vec_position p xs = vec_position q ys"
  by (induction xs arbitrary: ys) auto

subsection \<open>The prepared accounts\<close>

text \<open>
  The accounts a callee gets for the metas of an instruction: the same accounts in the same order,
  each with the union of the privileges asked for it.
\<close>

definition prepared ::
  "transaction_context \<Rightarrow> account_meta list \<Rightarrow> instruction_account list \<Rightarrow> bool" where
  "prepared tc metas ias \<longleftrightarrow> length ias = length metas \<and> (\<forall>i<length metas.
     vec_get (tc_account_keys tc) (unat (ia_index_in_transaction (ias ! i))) = Some (am_pubkey (metas ! i)) \<and>
     ia_is_writable (ias ! i) = (\<exists>am\<in>set metas. am_pubkey am = am_pubkey (metas ! i) \<and> am_is_writable am) \<and>
     ia_is_signer (ias ! i) = (\<exists>am\<in>set metas. am_pubkey am = am_pubkey (metas ! i) \<and> am_is_signer am))"

lemma dedup_inv_same_account:
  assumes "dedup_inv tc caller metas dedup dups" "tx_inv tc" "wf_ic caller" "d < length dedup"
  obtains i where "i < length metas" "dups ! i = d" "caller_position tc caller (ia_index_in_caller (dedup ! d)) (metas ! i)"
    "find_index_of_account tc (am_pubkey (metas ! i)) = Some (ia_index_in_transaction (dedup ! d))"
    "unat (ia_index_in_caller (dedup ! d)) < length (ic_instruction_accounts caller)"
    "ia_index_in_transaction (caller_account caller (dedup ! d)) = ia_index_in_transaction (dedup ! d)"
    "vec_get (tc_account_keys tc) (unat (ia_index_in_transaction (dedup ! d))) = Some (am_pubkey (metas ! i))"
proof -
  from assms(1,4) obtain i where i: "i < length metas" "dups ! i = d"
    "caller_position tc caller (ia_index_in_caller (dedup ! d)) (metas ! i)"
    by (auto simp: dedup_inv_def asked_def)
  then have j: "find_index_of_account tc (am_pubkey (metas ! i)) = Some (ia_index_in_transaction (dedup ! d))"
    using assms(1) by (auto simp: dedup_inv_def)
  from caller_account_same [OF assms(2,3) j i(3) [unfolded caller_position_def]] show thesis
    using i j by (intro that) (simp_all add: caller_account_def)
qed

lemma dedup_inv_dups:
  assumes inv: "dedup_inv tc caller metas dedup dups" and "i < length metas" "j < length metas"
    and tx: "tx_inv tc"
  shows "dups ! i = dups ! j \<longleftrightarrow> am_pubkey (metas ! i) = am_pubkey (metas ! j)"
proof -
  have find: "dups ! i < length dedup \<and> find_index_of_account tc (am_pubkey (metas ! i)) = Some (ia_index_in_transaction (dedup ! (dups ! i)))"
    if "i < length metas" for i
    using inv that by (simp add: dedup_inv_def)
  have key: "vec_get (tc_account_keys tc) (unat k) = Some key" if "find_index_of_account tc key = Some k" for k key
  proof -
    from that obtain n where n: "n < length (tc_account_keys tc)" "tc_account_keys tc ! n = key" "k = of_nat n"
      by (auto simp: find_index_of_account_def vec_position_Some)
    then have "unat k = n" using tx by (simp add: tx_inv_def unat_of_nat)
    then show ?thesis using n by (simp add: vec_get_def)
  qed
  show ?thesis
  proof
    assume "dups ! i = dups ! j"
    then show "am_pubkey (metas ! i) = am_pubkey (metas ! j)"
      using find [OF assms(2)] find [OF assms(3)] key by (metis option.inject)
  next
    assume "am_pubkey (metas ! i) = am_pubkey (metas ! j)"
    then have "ia_index_in_transaction (dedup ! (dups ! i)) = ia_index_in_transaction (dedup ! (dups ! j))"
      using find [OF assms(2)] find [OF assms(3)] by simp
    then show "dups ! i = dups ! j"
      using find [OF assms(2)] find [OF assms(3)] inv by (simp add: dedup_inv_def distinct_conv_nth) metis
  qed
qed

lemma dedup_inv_prepared:
  assumes inv: "dedup_inv tc caller metas dedup dups" and tx: "tx_inv tc" "wf_ic caller"
    and ias: "ias = map ((!) dedup) dups"
  shows "prepared tc metas ias" "wf_callee ias"
proof -
  have len: "length dups = length metas" and lt: "\<And>i. i < length metas \<Longrightarrow> dups ! i < length dedup"
    using inv by (simp_all add: dedup_inv_def)
  have asked: "asked P metas dups (dups ! i) \<longleftrightarrow> (\<exists>am\<in>set metas. am_pubkey am = am_pubkey (metas ! i) \<and> P am)"
    if "i < length metas" for i P
    unfolding asked_def using dedup_inv_dups [OF inv _ that tx(1)] by (metis in_set_conv_nth)
  have "vec_get (tc_account_keys tc) (unat (ia_index_in_transaction (dedup ! (dups ! i)))) = Some (am_pubkey (metas ! i))"
    if i: "i < length metas" for i
  proof -
    obtain j where j: "j < length metas" "dups ! j = dups ! i"
      "vec_get (tc_account_keys tc) (unat (ia_index_in_transaction (dedup ! (dups ! i)))) = Some (am_pubkey (metas ! j))"
      using dedup_inv_same_account [OF inv tx lt [OF i]] by metis
    then show ?thesis using dedup_inv_dups [OF inv j(1) i tx(1)] by simp
  qed
  then show "prepared tc metas ias"
    using inv lt asked len by (simp add: prepared_def ias dedup_inv_def)
  show "wf_callee ias"
    unfolding wf_callee_def
  proof (intro allI impI)
    fix i
    assume "i < length ias"
    then have i: "i < length metas" by (simp add: ias len)
    have "ia_index_in_transaction (dedup ! x) = ia_index_in_transaction (dedup ! (dups ! i)) \<longleftrightarrow> x = dups ! i"
      if "x < length dedup" for x
      using inv that lt [OF i] by (auto simp: dedup_inv_def distinct_conv_nth)
    moreover have "x < length dedup" if "x \<in> set dups" for x using that lt len by (metis in_set_conv_nth)
    ultimately have "vec_position (\<lambda>ia. ia_index_in_transaction ia = ia_index_in_transaction (ias ! i)) ias =
        vec_position (\<lambda>x. x = dups ! i) dups"
      using i len by (simp add: ias vec_position_map cong: vec_position_cong)
    also have "\<dots> = Some (unat (ia_index_in_callee (ias ! i)))"
      using inv lt [OF i] i len by (simp add: dedup_inv_def ias)
    finally show "vec_position (\<lambda>ia. ia_index_in_transaction ia = ia_index_in_transaction (ias ! i)) ias =
      Some (unat (ia_index_in_callee (ias ! i)))" .
  qed
qed

definition signer_at :: "instruction_context \<Rightarrow> nat \<Rightarrow> bool" where
  "signer_at ic k \<longleftrightarrow> (\<exists>ia\<in>set (ic_instruction_accounts ic). ia_is_signer ia \<and> unat (ia_index_in_transaction ia) = k)"

lemma covered_privileges:
  assumes "covered caller signers tc ia"
    and same: "ia_index_in_transaction (caller_account caller ia) = ia_index_in_transaction ia"
  shows "ia_is_writable ia \<longrightarrow> writable_at caller (unat (ia_index_in_transaction ia))"
    and "ia_is_signer ia \<longrightarrow> signer_at caller (unat (ia_index_in_transaction ia)) \<or>
      tc_account_keys tc ! unat (ia_index_in_transaction ia) \<in> set signers"
proof -
  have "caller_account caller ia \<in> set (ic_instruction_accounts caller)"
    using assms(1) by (simp add: covered_def caller_account_def)
  then show "ia_is_writable ia \<longrightarrow> writable_at caller (unat (ia_index_in_transaction ia))"
    and "ia_is_signer ia \<longrightarrow> signer_at caller (unat (ia_index_in_transaction ia)) \<or>
      tc_account_keys tc ! unat (ia_index_in_transaction ia) \<in> set signers"
    using assms by (auto simp: covered_def writable_at_def signer_at_def intro!: bexI [of _ "caller_account caller ia"])
qed

lemma prepare_instruction_ok:
  assumes run: "prepare_instruction ix signers tc = (Inr (ias, ps), tc')"
    and tx: "tx_inv tc" "get_current_instruction_context tc = Inr caller" "wf_ic caller"
    and len: "length (ix_accounts ix) \<le> 2 ^ 16"
  shows "prepared tc (ix_accounts ix) ias" "wf_callee ias"
    "\<forall>ia\<in>set ias. (ia_is_writable ia \<longrightarrow> writable_at caller (unat (ia_index_in_transaction ia))) \<and>
       (ia_is_signer ia \<longrightarrow> signer_at caller (unat (ia_index_in_transaction ia)) \<or>
          tc_account_keys tc ! unat (ia_index_in_transaction ia) \<in> set signers)"
    "\<exists>p. ps = [p] \<and> acc_executable (account_at tc (unat p)) \<and>
       vec_get (tc_account_keys tc) (unat p) = Some (ix_program_id ix)"
proof -
  let ?prog = "\<lambda>program_account_index. with_instruction_account caller program_account_index (\<lambda>b.
             bind (gets (is_executable b)) (\<lambda>executable.
             bind (fail_if (\<not> executable) AccountNotExecutable) (\<lambda>_.
               return (ba_index_in_transaction b))))"
  from run tx(2) obtain dedup dups t1 t2 i p where *:
    "dedup_accounts tc caller (ix_accounts ix) 0 [] [] = Inr (dedup, dups)"
    "check_privileges caller signers dedup tc = (Inr (), t1)"
    "expand_accounts dedup dups = Inr ias"
    "find_index_of_instruction_account caller t1 (ix_program_id ix) = Some i"
    "?prog i t1 = (Inr p, t2)" "ps = [p]"
    unfolding prepare_instruction_def by (auto elim!: effect_elims simp: return_apply)
  have t1: "t1 = tc" using keeps_sameD [OF keeps_same_check_privileges, of caller signers dedup tc] *(2) by simp
  have inv: "dedup_inv tc caller (ix_accounts ix) dedup dups"
    using dedup_accounts_inv [of tc caller "ix_accounts ix" "[]" "[]" "[]" dedup dups] *(1) len
    by (simp add: dedup_inv_def)
  have ias: "ias = map ((!) dedup) dups" using *(3) by (rule expand_accounts_map)
  show "prepared tc (ix_accounts ix) ias" "wf_callee ias"
    using dedup_inv_prepared [OF inv tx(1,3) ias] .
  show "\<forall>ia\<in>set ias. (ia_is_writable ia \<longrightarrow> writable_at caller (unat (ia_index_in_transaction ia))) \<and>
       (ia_is_signer ia \<longrightarrow> signer_at caller (unat (ia_index_in_transaction ia)) \<or>
          tc_account_keys tc ! unat (ia_index_in_transaction ia) \<in> set signers)"
  proof
    fix ia
    assume "ia \<in> set ias"
    then obtain j where j: "j < length (ix_accounts ix)" "ia = dedup ! (dups ! j)"
      using ias inv by (auto simp: in_set_conv_nth dedup_inv_def)
    then have d: "dups ! j < length dedup" using inv by (simp add: dedup_inv_def)
    have "covered caller signers tc ia"
      using check_privileges_covered [OF *(2) tx(3)] d j(2) by simp
    moreover have "ia_index_in_transaction (caller_account caller ia) = ia_index_in_transaction ia"
      using dedup_inv_same_account [OF inv tx(1,3) d] j(2) by metis
    ultimately show "(ia_is_writable ia \<longrightarrow> writable_at caller (unat (ia_index_in_transaction ia))) \<and>
       (ia_is_signer ia \<longrightarrow> signer_at caller (unat (ia_index_in_transaction ia)) \<or>
          tc_account_keys tc ! unat (ia_index_in_transaction ia) \<in> set signers)"
      using covered_privileges by blast
  qed
  from *(5) have "acc_executable (account_at tc (tx_index caller i)) \<and> unat p = tx_index caller i"
    unfolding t1
    by (rule with_instruction_account_okE)
      (auto simp: effect_simps is_executable_def ba_account_def split: if_splits)
  moreover have "vec_get (tc_account_keys tc) (tx_index caller i) = Some (ix_program_id ix)"
  proof -
    from *(4) t1 obtain m where m: "m < length (ic_instruction_accounts caller)" "i = of_nat m"
      "vec_get (tc_account_keys tc) (unat (ia_index_in_transaction (ic_instruction_accounts caller ! m))) = Some (ix_program_id ix)"
      by (auto simp: find_index_of_instruction_account_def vec_position_Some)
    then have "unat i = m" using tx(3) by (simp add: unat_of_nat wf_ic_def)
    then show ?thesis using m(3) by simp
  qed
  ultimately show "\<exists>p. ps = [p] \<and> acc_executable (account_at tc (unat p)) \<and>
       vec_get (tc_account_keys tc) (unat p) = Some (ix_program_id ix)"
    using *(6) by (intro exI [of _ p]) simp
qed

subsection \<open>Programs that invoke programs\<close>

context program_contract
begin

lemma native_invoke_frame:
  assumes wf: "wf_ic caller" and len: "length (ix_accounts ix) < 2 ^ 16 - 1"
  shows "keeps (frame_rel caller) (native_invoke programs ix signers)"
proof (rule keepsI, rule frame_relI)
  fix iv
  let ?tc = "iv_tc iv" and ?iv' = "snd (native_invoke programs ix signers iv)"
  assume tx: "tx_inv ?tc" and current: "get_current_instruction_context ?tc = Inr caller"
  obtain r t where prep: "prepare_instruction ix signers ?tc = (r, t)" by (cases "prepare_instruction ix signers ?tc")
  have t: "t = ?tc" using keeps_sameD [OF keeps_same_prepare, of ix signers ?tc] prep by simp
  then have on: "on_tc (prepare_instruction ix signers) iv = (r, iv)" using prep by (simp add: on_tc_def)
  show "iv_rel (writable_at caller) iv ?iv' \<and> stack_inv (iv_tc ?iv') \<and>
      tc_instruction_stack (iv_tc ?iv') = tc_instruction_stack ?tc"
  proof (cases r)
    case (Inl e)
    then have "?iv' = iv" using on by (simp add: native_invoke_def bind_apply)
    then show ?thesis using tx by (simp add: ivr.R_refl tx_inv_def)
  next
    case (Inr p)
    obtain ias ps where p: "p = (ias, ps)" by (cases p)
    with Inr prep have ok: "prepare_instruction ix signers ?tc = (Inr (ias, ps), t)" by simp
    note facts = prepare_instruction_ok [OF ok tx current wf]
    obtain q iv' where run: "process_instruction programs (ix_data ix) ias ps iv = (q, iv')"
      by (cases "process_instruction programs (ix_data ix) ias ps iv")
    have iv': "?iv' = iv'" using on Inr p run by (simp add: native_invoke_def bind_apply)
    have "length ps + length ias < 2 ^ 16" using facts(1,4) len by (auto simp: prepared_def)
    then have "iv_rel (writable_in ias) iv iv' \<and> tx_inv (iv_tc iv') \<and>
        tc_instruction_stack (iv_tc iv') = tc_instruction_stack ?tc"
      using process_instruction_frame [OF tx _ run] by blast
    moreover have "writable_at caller k" if "writable_in ias k" for k
      using that facts(3) len by (auto simp: writable_in_def)
    ultimately show ?thesis unfolding iv' by (auto simp: iv_rel_def tx_inv_def elim: base_rel_mono)
  qed
qed

end

end
