(* ===== verification/Lookup_Table_State.thy ===== *)
theory Lookup_Table_State
  imports Slot_Sysvars Nonce_State "HOL-Library.Sublist"
begin

section \<open>Address lookup tables\<close>

text \<open>
  \<open>sdk/program/src/address_lookup_table/state.rs\<close>: the metadata of a table, its activation status,
  and the lookup of addresses. A table's account holds 56 bytes of serialized metadata followed by
  the raw addresses. The slice \<open>addresses[0..n]\<close> of a lookup panics when \<open>n\<close> exceeds the table;
  the panic is \<open>None\<close>.
\<close>

definition LOOKUP_TABLE_MAX_ADDRESSES :: nat where "LOOKUP_TABLE_MAX_ADDRESSES = 256"

definition LOOKUP_TABLE_META_SIZE :: nat where "LOOKUP_TABLE_META_SIZE = 56"

datatype lookup_table_status = Activated | Deactivating nat | Deactivated

record lookup_table_meta =
  lt_deactivation_slot :: u64
  lt_last_extended_slot :: u64
  lt_last_extended_slot_start_index :: u8
  lt_authority :: "pubkey option"
  lt_padding :: u16

definition lookup_table_meta_default :: lookup_table_meta where
  "lookup_table_meta_default =
     \<lparr>lt_deactivation_slot = - 1, lt_last_extended_slot = 0, lt_last_extended_slot_start_index = 0,
      lt_authority = None, lt_padding = 0\<rparr>"

definition lookup_table_meta_new :: "pubkey \<Rightarrow> lookup_table_meta" where
  "lookup_table_meta_new authority = lookup_table_meta_default\<lparr>lt_authority := Some authority\<rparr>"

definition table_status :: "lookup_table_meta \<Rightarrow> u64 \<Rightarrow> slot_hashes \<Rightarrow> lookup_table_status" where
  "table_status meta current_slot slot_hashes =
     (if lt_deactivation_slot meta = - 1 then Activated
      else if lt_deactivation_slot meta = current_slot
      then Deactivating (slot_hashes_MAX_ENTRIES + 1)
      else (case slot_hashes_position slot_hashes (lt_deactivation_slot meta) of
              Some position \<Rightarrow> Deactivating (slot_hashes_MAX_ENTRIES - position)
            | None \<Rightarrow> Deactivated))"

definition table_is_active :: "lookup_table_meta \<Rightarrow> u64 \<Rightarrow> slot_hashes \<Rightarrow> bool" where
  "table_is_active meta current_slot slot_hashes =
     (case table_status meta current_slot slot_hashes of
        Activated \<Rightarrow> True
      | Deactivating _ \<Rightarrow> True
      | Deactivated \<Rightarrow> False)"

datatype program_state = TableUninitialized | LookupTable lookup_table_meta

record address_lookup_table =
  alt_meta :: lookup_table_meta
  alt_addresses :: "pubkey list"

datatype address_lookup_error =
    LookupTableAccountNotFound | LookupInvalidAccountOwner | LookupInvalidAccountData | InvalidLookupIndex

text \<open>
  \<open>overwrite_meta_data\<close>: the first 56 bytes are zeroed and the metadata serialized into them. The
  result is the whole buffer after the write.
\<close>

definition overwrite_meta_data ::
  "program_state bincode \<Rightarrow> bytes \<Rightarrow> lookup_table_meta \<Rightarrow> instruction_error + bytes" where
  "overwrite_meta_data B data meta =
     (if length data < LOOKUP_TABLE_META_SIZE then Inl InvalidAccountData
      else and_then (ok_or (bc_serialize_into B (LookupTable meta) (replicate LOOKUP_TABLE_META_SIZE 0)) GenericError)
             (\<lambda>meta_data. Inr (meta_data @ drop LOOKUP_TABLE_META_SIZE data)))"

definition get_active_addresses_len ::
  "address_lookup_table \<Rightarrow> u64 \<Rightarrow> slot_hashes \<Rightarrow> address_lookup_error + nat" where
  "get_active_addresses_len table current_slot slot_hashes =
     (if \<not> table_is_active (alt_meta table) current_slot slot_hashes then Inl LookupTableAccountNotFound
      else if lt_last_extended_slot (alt_meta table) < current_slot then Inr (length (alt_addresses table))
      else Inr (unat (lt_last_extended_slot_start_index (alt_meta table))))"

fun lookup_indexes :: "pubkey list \<Rightarrow> u8 list \<Rightarrow> pubkey list option" where
  "lookup_indexes active [] = Some []"
| "lookup_indexes active (i # indexes) =
     (case vec_get active (unat i) of
        None \<Rightarrow> None
      | Some address \<Rightarrow> map_option ((#) address) (lookup_indexes active indexes))"

definition table_lookup ::
  "address_lookup_table \<Rightarrow> u64 \<Rightarrow> u8 list \<Rightarrow> slot_hashes \<Rightarrow> (address_lookup_error + pubkey list) option" where
  "table_lookup table current_slot indexes slot_hashes =
     (case get_active_addresses_len table current_slot slot_hashes of
        Inl e \<Rightarrow> Some (Inl e)
      | Inr n \<Rightarrow>
          if length (alt_addresses table) < n then None
          else Some (ok_or (lookup_indexes (take n (alt_addresses table)) indexes) InvalidLookupIndex))"

text \<open>
  \<open>bytemuck::try_cast_slice\<close> to 32-byte keys: it fails when the length is not a multiple of 32; keys
  have no alignment.
\<close>

function pubkey_chunks :: "bytes \<Rightarrow> pubkey list" where
  "pubkey_chunks bs = (if length bs < 32 then [] else take 32 bs # pubkey_chunks (drop 32 bs))"
  by pat_completeness auto
termination
  by (relation "measure length") auto

declare pubkey_chunks.simps [simp del]

definition try_cast_pubkeys :: "bytes \<Rightarrow> pubkey list option" where
  "try_cast_pubkeys bs = (if length bs mod 32 = 0 then Some (pubkey_chunks bs) else None)"

definition table_deserialize :: "program_state bincode \<Rightarrow> bytes \<Rightarrow> instruction_error + address_lookup_table" where
  "table_deserialize B data =
     and_then (ok_or (bc_deserialize B data) InvalidAccountData) (\<lambda>program_state.
     and_then (case program_state of
                 LookupTable meta \<Rightarrow> Inr meta
               | TableUninitialized \<Rightarrow> Inl UninitializedAccount) (\<lambda>meta.
     and_then (if length data < LOOKUP_TABLE_META_SIZE then Inl InvalidAccountData
               else Inr (drop LOOKUP_TABLE_META_SIZE data)) (\<lambda>raw_addresses_data.
     and_then (ok_or (try_cast_pubkeys raw_addresses_data) InvalidAccountData) (\<lambda>addresses.
       Inr \<lparr>alt_meta = meta, alt_addresses = addresses\<rparr>))))"

subsection \<open>A codec for table states\<close>

definition wf_program_state :: "program_state set" where
  "wf_program_state = {LookupTable meta | meta. \<forall>k. lt_authority meta = Some k \<longrightarrow> wf_key k} \<union> {TableUninitialized}"

fun enc_program_state :: "program_state \<Rightarrow> bytes" where
  "enc_program_state TableUninitialized = le_bytes 4 0"
| "enc_program_state (LookupTable m) =
     le_bytes 4 1 @ le_bytes 8 (unat (lt_deactivation_slot m)) @ le_bytes 8 (unat (lt_last_extended_slot m)) @
     [lt_last_extended_slot_start_index m] @
     (case lt_authority m of None \<Rightarrow> [0] | Some k \<Rightarrow> 1 # k) @ le_bytes 2 (unat (lt_padding m))"

definition dec_program_state :: "bytes \<Rightarrow> (program_state \<times> bytes) option" where
  "dec_program_state bs =
     (if length bs < 4 then None
      else if le_value (take 4 bs) = 0 then Some (TableUninitialized, drop 4 bs)
      else if le_value (take 4 bs) = 1 \<and> 24 \<le> length bs
      then (let m = (\<lambda>authority rest. Some (LookupTable
                 \<lparr>lt_deactivation_slot = of_nat (le_value (take 8 (drop 4 bs))),
                  lt_last_extended_slot = of_nat (le_value (take 8 (drop 12 bs))),
                  lt_last_extended_slot_start_index = bs ! 20, lt_authority = authority,
                  lt_padding = of_nat (le_value (take 2 rest))\<rparr>, drop 2 rest))
            in if bs ! 21 = 0 then m None (drop 22 bs)
               else if bs ! 21 = 1 \<and> 56 \<le> length bs then m (Some (take 32 (drop 22 bs))) (drop 54 bs)
               else None)
      else None)"

definition table_codec :: "program_state bincode" where
  "table_codec = fixint_codec enc_program_state dec_program_state"

lemma le_value_word:
  "le_value (le_bytes 8 (unat (x::u64))) = unat x" "le_value (le_bytes 2 (unat (y::u16))) = unat y"
proof -
  have "unat x < 2 ^ 64" "unat y < 2 ^ 16" by (rule less_le_trans [OF unsigned_less]; simp)+
  then show "le_value (le_bytes 8 (unat x)) = unat x" "le_value (le_bytes 2 (unat y)) = unat y"
    by (simp_all add: le_value_le_bytes)
qed

lemma dec_enc_program_state:
  assumes "s \<in> wf_program_state"
  shows "dec_program_state (enc_program_state s @ rest) = Some (s, rest)"
proof (cases s)
  case TableUninitialized
  then show ?thesis by (simp add: dec_program_state_def le_value_le_bytes)
next
  case (LookupTable m)
  show ?thesis
  proof (cases "lt_authority m")
    case None
    then show ?thesis using LookupTable
      by (cases m) (simp add: dec_program_state_def le_value_le_bytes le_value_word nth_append Let_def)
  next
    case (Some k)
    then have "length k = 32" using assms LookupTable by (auto simp: wf_program_state_def wf_key_def PUBKEY_BYTES_def)
    then show ?thesis using LookupTable Some
      by (cases m) (simp add: dec_program_state_def le_value_le_bytes le_value_word nth_append Let_def)
  qed
qed

lemma length_enc_program_state: "s \<in> wf_program_state \<Longrightarrow> length (enc_program_state s) \<le> LOOKUP_TABLE_META_SIZE"
  by (cases s) (auto simp: wf_program_state_def wf_key_def PUBKEY_BYTES_def LOOKUP_TABLE_META_SIZE_def split: option.split)

lemma table_codec_laws: "bincode_laws table_codec wf_program_state"
  unfolding table_codec_def
proof (rule fixint_codec_laws)
  fix s
  assume "s \<in> wf_program_state"
  then have "length (enc_program_state s) \<le> 56" using length_enc_program_state by (simp add: LOOKUP_TABLE_META_SIZE_def)
  then show "length (enc_program_state s) < 2 ^ 64" by simp
qed (rule dec_enc_program_state)

text \<open>
  What the program relies on of the codec: the laws of bincode, that the metadata fits its 56 bytes,
  and that a decoded authority is a 32-byte key.
\<close>

definition table_laws :: "program_state bincode \<Rightarrow> bool" where
  "table_laws B \<longleftrightarrow> bincode_laws B wf_program_state \<and>
     (\<forall>s\<in>wf_program_state. \<forall>bs. bc_serialize B s = Some bs \<longrightarrow> length bs \<le> LOOKUP_TABLE_META_SIZE) \<and>
     (\<forall>d s. bc_deserialize B d = Some s \<longrightarrow> s \<in> wf_program_state)"

lemma table_codec_table_laws: "table_laws table_codec"
proof -
  have "s \<in> wf_program_state" if "bc_deserialize table_codec d = Some s" for d s
    using that by (auto simp: table_codec_def fixint_codec_def dec_program_state_def wf_program_state_def
        wf_key_def PUBKEY_BYTES_def Let_def split: if_splits)
  moreover have "length bs \<le> LOOKUP_TABLE_META_SIZE"
    if "s \<in> wf_program_state" "bc_serialize table_codec s = Some bs" for s bs
    using that length_enc_program_state by (auto simp: table_codec_def fixint_codec_def)
  ultimately show ?thesis using table_codec_laws unfolding table_laws_def by blast
qed

subsection \<open>Reading back what was written\<close>

lemma pubkey_chunks_key: "length k = 32 \<Longrightarrow> pubkey_chunks (k @ bs) = k # pubkey_chunks bs"
  by (subst pubkey_chunks.simps) simp

lemma pubkey_chunks_append:
  "length a mod 32 = 0 \<Longrightarrow> pubkey_chunks (a @ b) = pubkey_chunks a @ pubkey_chunks b"
proof (induction a rule: pubkey_chunks.induct)
  case (1 a)
  show ?case
  proof (cases "length a < 32")
    case True
    then have "a = []" using "1.prems" by simp
    then show ?thesis by (simp add: pubkey_chunks.simps)
  next
    case False
    then have IH: "pubkey_chunks (drop 32 a @ b) = pubkey_chunks (drop 32 a) @ pubkey_chunks b"
      using 1 by (simp add: mod_if)
    have k: "length (take 32 a) = 32" using False by simp
    have "pubkey_chunks (a @ b) = pubkey_chunks (take 32 a @ (drop 32 a @ b))"
      by (metis append.assoc append_take_drop_id)
    also have "\<dots> = take 32 a # pubkey_chunks (drop 32 a @ b)" by (rule pubkey_chunks_key [OF k])
    also have "\<dots> = pubkey_chunks a @ pubkey_chunks b" using IH False by (simp add: pubkey_chunks.simps [of a])
    finally show ?thesis .
  qed
qed

lemma pubkey_chunks_concat: "\<forall>k\<in>set ks. wf_key k \<Longrightarrow> pubkey_chunks (concat ks) = ks"
proof (induction ks)
  case Nil
  then show ?case by (simp add: pubkey_chunks.simps)
next
  case (Cons k ks)
  then show ?case by (simp add: pubkey_chunks_key wf_key_def PUBKEY_BYTES_def)
qed

lemma length_concat_keys: "\<forall>k\<in>set ks. wf_key k \<Longrightarrow> length (concat ks) = 32 * length ks"
  by (induction ks) (simp_all add: wf_key_def PUBKEY_BYTES_def)

lemma length_pubkey_chunks: "length (pubkey_chunks bs) = length bs div 32"
proof (induction bs rule: pubkey_chunks.induct)
  case (1 bs)
  then show ?case by (subst pubkey_chunks.simps) (simp add: div_if)
qed

lemma table_deserialize_ok:
  assumes "table_deserialize B data = Inr t"
  shows "bc_deserialize B data = Some (LookupTable (alt_meta t))" "LOOKUP_TABLE_META_SIZE \<le> length data"
    "length (drop LOOKUP_TABLE_META_SIZE data) mod 32 = 0" "alt_addresses t = pubkey_chunks (drop LOOKUP_TABLE_META_SIZE data)"
    "length (alt_addresses t) = (length data - LOOKUP_TABLE_META_SIZE) div 32"
proof -
  obtain s where s: "bc_deserialize B data = Some s" using assms by (auto simp: table_deserialize_def and_then_Inr)
  with assms obtain m where m: "s = LookupTable m" by (cases s) (auto simp: table_deserialize_def)
  have t: "LOOKUP_TABLE_META_SIZE \<le> length data" "length (drop LOOKUP_TABLE_META_SIZE data) mod 32 = 0"
    "t = \<lparr>alt_meta = m, alt_addresses = pubkey_chunks (drop LOOKUP_TABLE_META_SIZE data)\<rparr>"
    using assms s m by (auto simp: table_deserialize_def and_then_Inr try_cast_pubkeys_def split: if_splits)
  show "bc_deserialize B data = Some (LookupTable (alt_meta t))" "LOOKUP_TABLE_META_SIZE \<le> length data"
    "length (drop LOOKUP_TABLE_META_SIZE data) mod 32 = 0" "alt_addresses t = pubkey_chunks (drop LOOKUP_TABLE_META_SIZE data)"
    "length (alt_addresses t) = (length data - LOOKUP_TABLE_META_SIZE) div 32"
    using s m t by (simp_all add: length_pubkey_chunks)
qed

lemma overwrite_extend_deserialize:
  assumes laws: "table_laws B" and m: "LookupTable m \<in> wf_program_state"
    and table: "table_deserialize B data = Inr t" and over: "overwrite_meta_data B data m = Inr d"
    and keys: "\<forall>k\<in>set ks. wf_key k"
  shows "table_deserialize B (d @ concat ks) = Inr \<lparr>alt_meta = m, alt_addresses = alt_addresses t @ ks\<rparr>"
    "length d = length data"
proof -
  obtain enc where enc: "bc_serialize B (LookupTable m) = Some enc"
    "\<And>d. bc_serialize_into B (LookupTable m) d = (if length enc \<le> length d then Some (enc @ drop (length enc) d) else None)"
    "\<And>rest. bc_deserialize B (enc @ rest) = Some (LookupTable m)"
    using laws m unfolding table_laws_def by (meson bincode_lawsE)
  have le: "length enc \<le> LOOKUP_TABLE_META_SIZE" using laws m enc(1) by (auto simp: table_laws_def)
  note t = table_deserialize_ok [OF table]
  define z where "z = replicate (LOOKUP_TABLE_META_SIZE - length enc) (0::u8)"
  have d: "d = (enc @ z) @ drop LOOKUP_TABLE_META_SIZE data"
    using over le t(2) by (simp add: overwrite_meta_data_def enc(2) z_def)
  have head: "length (enc @ z) = LOOKUP_TABLE_META_SIZE" using le by (simp add: z_def)
  have tail: "drop LOOKUP_TABLE_META_SIZE (d @ concat ks) = drop LOOKUP_TABLE_META_SIZE data @ concat ks"
    unfolding d using head by simp
  have "bc_deserialize B (d @ concat ks) = Some (LookupTable m)" unfolding d using enc(3) by simp
  moreover have "try_cast_pubkeys (drop LOOKUP_TABLE_META_SIZE data @ concat ks) = Some (alt_addresses t @ ks)"
    using t(3,4) length_concat_keys [OF keys]
    by (simp add: try_cast_pubkeys_def pubkey_chunks_append pubkey_chunks_concat [OF keys] mod_add_left_eq [symmetric])
  moreover show "length d = length data" unfolding d using head t(2) by simp
  ultimately show "table_deserialize B (d @ concat ks) = Inr \<lparr>alt_meta = m, alt_addresses = alt_addresses t @ ks\<rparr>"
    using tail t(2) by (simp add: table_deserialize_def)
qed

subsection \<open>The life of a table\<close>

text \<open>
  The steps a table may take, each at a slot and under the authority stored in the table: freezing,
  extension and deactivation.
\<close>

definition table_inv :: "address_lookup_table \<Rightarrow> bool" where
  "table_inv t \<longleftrightarrow> length (alt_addresses t) \<le> LOOKUP_TABLE_MAX_ADDRESSES \<and>
     unat (lt_last_extended_slot_start_index (alt_meta t)) \<le> length (alt_addresses t)"

definition extended_meta :: "u64 \<Rightarrow> address_lookup_table \<Rightarrow> lookup_table_meta" where
  "extended_meta slot t =
     (if slot \<noteq> lt_last_extended_slot (alt_meta t)
      then (alt_meta t)\<lparr>lt_last_extended_slot := slot,
             lt_last_extended_slot_start_index := of_nat (length (alt_addresses t))\<rparr>
      else alt_meta t)"

inductive table_step :: "pubkey \<Rightarrow> u64 \<Rightarrow> address_lookup_table \<Rightarrow> address_lookup_table \<Rightarrow> bool" where
  freeze: "lt_authority (alt_meta t) = Some authority \<Longrightarrow> lt_deactivation_slot (alt_meta t) = - 1 \<Longrightarrow>
     alt_addresses t \<noteq> [] \<Longrightarrow>
     table_step authority slot t (t\<lparr>alt_meta := (alt_meta t)\<lparr>lt_authority := None\<rparr>\<rparr>)"
| extend: "lt_authority (alt_meta t) = Some authority \<Longrightarrow> lt_deactivation_slot (alt_meta t) = - 1 \<Longrightarrow>
     length (alt_addresses t) < LOOKUP_TABLE_MAX_ADDRESSES \<Longrightarrow> ks \<noteq> [] \<Longrightarrow>
     length (alt_addresses t) + length ks \<le> LOOKUP_TABLE_MAX_ADDRESSES \<Longrightarrow>
     table_step authority slot t \<lparr>alt_meta = extended_meta slot t, alt_addresses = alt_addresses t @ ks\<rparr>"
| deactivate: "lt_authority (alt_meta t) = Some authority \<Longrightarrow> lt_deactivation_slot (alt_meta t) = - 1 \<Longrightarrow>
     table_step authority slot t (t\<lparr>alt_meta := (alt_meta t)\<lparr>lt_deactivation_slot := slot\<rparr>\<rparr>)"

inductive_cases table_stepE: "table_step authority slot t t'"

inductive table_run :: "u64 \<Rightarrow> address_lookup_table \<Rightarrow> u64 \<Rightarrow> address_lookup_table \<Rightarrow> bool" where
  refl: "table_run s t s t"
| wait: "table_run s t s1 t1 \<Longrightarrow> s1 \<le> s2 \<Longrightarrow> table_run s t s2 t1"
| step: "table_run s t s1 t1 \<Longrightarrow> s1 \<le> s2 \<Longrightarrow> table_step authority s2 t1 t2 \<Longrightarrow> table_run s t s2 t2"

text \<open>The addresses active at a slot, for a table that is not deactivated.\<close>

definition active_len :: "address_lookup_table \<Rightarrow> u64 \<Rightarrow> nat" where
  "active_len t slot =
     (if lt_last_extended_slot (alt_meta t) < slot then length (alt_addresses t)
      else unat (lt_last_extended_slot_start_index (alt_meta t)))"

lemma table_step_inv: "table_step authority slot t t' \<Longrightarrow> table_inv t \<Longrightarrow> table_inv t'"
proof (erule table_stepE, goal_cases)
  case (2 ks)
  then have "unat (of_nat (length (alt_addresses t)) :: u8) = length (alt_addresses t)"
    by (simp add: LOOKUP_TABLE_MAX_ADDRESSES_def unsigned_of_nat take_bit_eq_mod)
  then show ?case using 2 by (simp add: table_inv_def extended_meta_def)
qed (simp_all add: table_inv_def)

lemma table_step_active:
  assumes "table_step authority slot t t'" "table_inv t" "s \<le> slot"
  shows "prefix (alt_addresses t) (alt_addresses t') \<and> active_len t s \<le> active_len t' slot"
  using assms(1)
proof (rule table_stepE, goal_cases)
  case (2 ks)
  then have len: "unat (of_nat (length (alt_addresses t)) :: u8) = length (alt_addresses t)"
    by (simp add: LOOKUP_TABLE_MAX_ADDRESSES_def unsigned_of_nat take_bit_eq_mod)
  show ?case
    using 2 len assms(2,3) by (auto simp: active_len_def extended_meta_def table_inv_def)
qed (use assms in \<open>auto simp: active_len_def table_inv_def\<close>)

lemma active_len_mono: "table_inv t \<Longrightarrow> s \<le> s' \<Longrightarrow> active_len t s \<le> active_len t s'"
  by (auto simp: active_len_def table_inv_def)

lemma table_run_active:
  "table_run s t s' t' \<Longrightarrow> table_inv t \<Longrightarrow>
     table_inv t' \<and> prefix (alt_addresses t) (alt_addresses t') \<and> active_len t s \<le> active_len t' s'"
proof (induction rule: table_run.induct)
  case (refl s t)
  then show ?case by simp
next
  case (wait s t s1 t1 s2)
  then show ?case using active_len_mono order_trans by blast
next
  case (step s t s1 t1 s2 authority t2)
  then show ?case
    using table_step_inv [OF step.hyps(3)] table_step_active [OF step.hyps(3) _ step.hyps(2)]
    by (meson order_trans prefix_order.order_trans)
qed

lemma lookup_indexes_prefix:
  "lookup_indexes (take n xs) indexes = Some addresses \<Longrightarrow> prefix xs ys \<Longrightarrow> n \<le> m \<Longrightarrow>
     lookup_indexes (take m ys) indexes = Some addresses"
proof (induction indexes arbitrary: addresses)
  case (Cons i indexes)
  have "vec_get (take n xs) (unat i) = Some a \<Longrightarrow> vec_get (take m ys) (unat i) = Some a" for a
    using Cons.prems(2,3) by (auto simp: prefix_def nth_append)
  then show ?case using Cons by (auto split: option.splits)
qed simp

lemma active_addresses_len: 
  "get_active_addresses_len t slot slot_hashes =
     (if table_is_active (alt_meta t) slot slot_hashes then Inr (active_len t slot) else Inl LookupTableAccountNotFound)"
  by (simp add: get_active_addresses_len_def active_len_def)

lemma active_len_le: "table_inv t \<Longrightarrow> active_len t slot \<le> length (alt_addresses t)"
  by (simp add: active_len_def table_inv_def)

text \<open>
  C17: a table is resolved consistently. When a lookup succeeds at some slot, then after any sequence
  of freezing, extending and deactivating steps at that slot or later, the same lookup at the slot
  of the last step or later, on whatever slot hashes, gives the same addresses or reports that the
  table is not found; no step reorders or replaces an address that was active, and none makes the
  lookup panic.
\<close>
theorem table_lookup_stable:
  assumes "table_inv t" "table_run slot t slot' t'"
    and "table_lookup t slot indexes slot_hashes = Some (Inr addresses)"
  shows "table_lookup t' slot' indexes slot_hashes' \<in> {Some (Inr addresses), Some (Inl LookupTableAccountNotFound)}"
proof -
  have run: "table_inv t'" "prefix (alt_addresses t) (alt_addresses t')" "active_len t slot \<le> active_len t' slot'"
    using table_run_active [OF assms(2,1)] by blast+
  have "lookup_indexes (take (active_len t slot) (alt_addresses t)) indexes = Some addresses"
    using assms(3) by (auto simp: table_lookup_def active_addresses_len split: if_splits)
  from lookup_indexes_prefix [OF this run(2,3)] show ?thesis
    using active_len_le [OF run(1), of slot'] by (simp add: table_lookup_def active_addresses_len)
qed

definition example_table :: address_lookup_table where
  "example_table = \<lparr>alt_meta = lookup_table_meta_new (replicate 32 1), alt_addresses = [replicate 32 2]\<rparr>"

lemma example_table_run:
  "table_run 5 example_table 7
     \<lparr>alt_meta = extended_meta 7 example_table, alt_addresses = alt_addresses example_table @ [replicate 32 3]\<rparr>"
proof (rule table_run.step)
  show "table_run 5 example_table 5 example_table" by (rule table_run.refl)
  show "table_step (replicate 32 1) 7 example_table
     \<lparr>alt_meta = extended_meta 7 example_table, alt_addresses = alt_addresses example_table @ [replicate 32 3]\<rparr>"
    by (rule table_step.extend)
      (simp_all add: example_table_def lookup_table_meta_new_def lookup_table_meta_default_def LOOKUP_TABLE_MAX_ADDRESSES_def)
qed simp

theorem table_lookup_stable_witness:
  "table_lookup \<lparr>alt_meta = extended_meta 7 example_table, alt_addresses = alt_addresses example_table @ [replicate 32 3]\<rparr>
     7 [0] [] = Some (Inr [replicate 32 2])"
proof -
  have inv: "table_inv example_table"
    by (simp add: table_inv_def example_table_def lookup_table_meta_new_def lookup_table_meta_default_def
        LOOKUP_TABLE_MAX_ADDRESSES_def)
  have before: "table_lookup example_table 5 [0] [] = Some (Inr [replicate 32 2])"
    by (simp add: table_lookup_def active_addresses_len active_len_def table_is_active_def table_status_def
        example_table_def lookup_table_meta_new_def lookup_table_meta_default_def vec_get_def)
  have "table_is_active (extended_meta 7 example_table) 7 []"
    by (simp add: table_is_active_def table_status_def extended_meta_def example_table_def
        lookup_table_meta_new_def lookup_table_meta_default_def)
  then show ?thesis
    using table_lookup_stable [OF inv example_table_run before, of "[]"]
    by (auto simp: table_lookup_def active_addresses_len split: if_splits)
qed

end
