(* ===== verification/Lookup_Table_Program.thy ===== *)
theory Lookup_Table_Program
  imports Cross_Program Lookup_Table_State System_Program
begin

section \<open>The address lookup table program\<close>

text \<open>
  \<open>programs/address-lookup-table/src/processor.rs\<close>: the five handlers and the entry point. Creating and
  extending a table invoke the system program, so the handlers are effects on the invoke context and
  take the table of loaded programs. The environment holds what the program reads of the invoke
  context; the codecs, the hash function, the test for curve points and the decoder are third-party
  functions. A panic of \<open>Instruction::new_with_bincode\<close>, which cannot occur for the instructions
  built here, is represented by the error \<open>ProgramFailedToComplete\<close>.
\<close>

definition alt_program_id :: pubkey where
  "alt_program_id = [2, 119, 166, 175, 151, 51, 155, 122, 200, 141, 24, 146, 201, 4, 70, 245, 0, 2, 48,
     146, 102, 246, 46, 83, 193, 24, 36, 73, 130, 0, 0, 0]"


datatype program_instruction =
    CreateLookupTable u64 u8
  | FreezeLookupTable
  | ExtendLookupTable "pubkey list"
  | DeactivateLookupTable
  | CloseLookupTable

record lookup_env =
  le_sysvar_cache :: sysvar_cache
  le_sha256 :: "bytes \<Rightarrow> hash"
  le_bytes_are_curve_point :: "bytes \<Rightarrow> bool"
  le_table :: "program_state bincode"
  le_system :: "system_instruction bincode"
  le_decode :: "u64 \<Rightarrow> bytes \<Rightarrow> program_instruction option"
  le_relax_authority_signer_check :: bool

definition alt_DEFAULT_COMPUTE_UNITS :: u64 where "alt_DEFAULT_COMPUTE_UNITS = 750"

definition native_invoke_built ::
  "program_table \<Rightarrow> instruction option \<Rightarrow> pubkey list \<Rightarrow> unit iv_effect" where
  "native_invoke_built programs built signers =
     bind (lift (ok_or built ProgramFailedToComplete)) (\<lambda>ix. native_invoke programs ix signers)"

subsection \<open>Checks shared by the handlers\<close>

text \<open>The table account must belong to the program; the authority, the second account, must sign.\<close>

definition check_table_owner :: "instruction_context \<Rightarrow> pubkey tc_effect" where
  "check_table_owner ic =
     with_instruction_account ic 0 (\<lambda>lookup_table_account.
       bind (gets (get_key lookup_table_account)) (\<lambda>table_key.
       bind (gets (get_owner lookup_table_account)) (\<lambda>owner.
       bind (fail_if (owner \<noteq> alt_program_id) InvalidAccountOwner) (\<lambda>_.
         return table_key))))"

definition check_signing_account :: "instruction_context \<Rightarrow> index_of_account \<Rightarrow> bool \<Rightarrow> pubkey tc_effect" where
  "check_signing_account ic i required =
     with_instruction_account ic i (\<lambda>b.
       bind (gets (get_key b)) (\<lambda>key.
       bind (fail_if (required \<and> \<not> is_signer b) MissingRequiredSignature) (\<lambda>_.
         return key)))"

definition check_authority :: "address_lookup_table \<Rightarrow> pubkey \<Rightarrow> instruction_error + unit" where
  "check_authority lookup_table authority_key =
     (if lt_authority (alt_meta lookup_table) = None then Inl Immutable
      else if lt_authority (alt_meta lookup_table) \<noteq> Some authority_key then Inl IncorrectAuthority
      else Inr ())"

text \<open>
  \<open>overwrite_meta_data(account.get_data_mut()?, meta)?\<close>: the bytes are zeroed before the metadata is
  serialized, so an error of the serializer leaves them zeroed.
\<close>

definition overwrite_account_meta ::
  "program_state bincode \<Rightarrow> borrowed_account \<Rightarrow> lookup_table_meta \<Rightarrow> unit tc_effect" where
  "overwrite_account_meta B b meta =
     bind (get_data_mut b) (\<lambda>_.
     bind (gets (get_data b)) (\<lambda>data.
     bind (fail_if (length data < LOOKUP_TABLE_META_SIZE) InvalidAccountData) (\<lambda>_.
     bind (write_data b (replicate LOOKUP_TABLE_META_SIZE 0)) (\<lambda>_.
     bind (lift (overwrite_meta_data B data meta)) (\<lambda>bs.
       write_data b bs)))))"

subsection \<open>The handlers\<close>

text \<open>
  \<open>create_lookup_table\<close> in three parts: the checks, which return the balance, key and owner of the
  table account and the keys of authority and payer; the funding, allocation and assignment of the
  account through the system program; and the initial state.
\<close>

definition create_checks ::
  "lookup_env \<Rightarrow> instruction_context \<Rightarrow> u64 \<Rightarrow> u8 \<Rightarrow> (u64 \<times> pubkey \<times> pubkey \<times> pubkey \<times> pubkey) tc_effect" where
  "create_checks env ic untrusted_recent_slot bump_seed =
     bind (with_instruction_account ic 0 (\<lambda>lookup_table_account.
             bind (gets (get_lamports lookup_table_account)) (\<lambda>lamports.
             bind (gets (get_key lookup_table_account)) (\<lambda>table_key.
             bind (gets (get_owner lookup_table_account)) (\<lambda>owner.
             bind (gets (get_data lookup_table_account)) (\<lambda>data.
             bind (fail_if (\<not> le_relax_authority_signer_check env \<and> data \<noteq> []) AccountAlreadyInitialized) (\<lambda>_.
               return (lamports, table_key, owner)))))))) (\<lambda>(lookup_table_lamports, table_key, lookup_table_owner).
     bind (check_signing_account ic 1 (\<not> le_relax_authority_signer_check env)) (\<lambda>authority_key.
     bind (check_signing_account ic 2 True) (\<lambda>payer_key.
     bind (lift (get_slot_hashes (le_sysvar_cache env))) (\<lambda>slot_hashes.
     bind (fail_if (slot_hashes_get slot_hashes untrusted_recent_slot = None) InvalidInstructionData) (\<lambda>_.
     bind (lift (map_err pubkey_error_into
             (create_program_address (le_sha256 env) (le_bytes_are_curve_point env)
                [authority_key, le_bytes 8 (unat untrusted_recent_slot), [bump_seed]] alt_program_id))) (\<lambda>derived_table_key.
     bind (fail_if (table_key \<noteq> derived_table_key) InvalidArgument) (\<lambda>_.
       return (lookup_table_lamports, table_key, lookup_table_owner, authority_key, payer_key))))))))"

definition allocate_table ::
  "lookup_env \<Rightarrow> program_table \<Rightarrow> pubkey \<Rightarrow> pubkey \<Rightarrow> u64 \<Rightarrow> unit iv_effect" where
  "allocate_table env programs payer_key table_key lookup_table_lamports =
     bind (lift (get_rent (le_sysvar_cache env))) (\<lambda>rent.
     let required_lamports =
           saturating_sub (max (minimum_balance rent LOOKUP_TABLE_META_SIZE) 1) lookup_table_lamports in
     bind (if 0 < required_lamports
           then native_invoke_built programs
                  (transfer_instruction (le_system env) payer_key table_key required_lamports) [payer_key]
           else return ()) (\<lambda>_.
     bind (native_invoke_built programs
             (allocate_instruction (le_system env) table_key (of_nat LOOKUP_TABLE_META_SIZE)) [table_key]) (\<lambda>_.
       native_invoke_built programs
         (assign_instruction (le_system env) table_key alt_program_id) [table_key])))"

definition create_lookup_table ::
  "lookup_env \<Rightarrow> program_table \<Rightarrow> u64 \<Rightarrow> u8 \<Rightarrow> unit iv_effect" where
  "create_lookup_table env programs untrusted_recent_slot bump_seed =
     bind (on_tc (reads get_current_instruction_context)) (\<lambda>ic.
     bind (on_tc (create_checks env ic untrusted_recent_slot bump_seed))
       (\<lambda>(lookup_table_lamports, table_key, lookup_table_owner, authority_key, payer_key).
       if le_relax_authority_signer_check env \<and> lookup_table_owner = alt_program_id then return ()
       else
         bind (allocate_table env programs payer_key table_key lookup_table_lamports) (\<lambda>_.
         bind (on_tc (reads get_current_instruction_context)) (\<lambda>ic.
           on_tc (with_instruction_account ic 0 (\<lambda>lookup_table_account.
             set_state (le_table env) lookup_table_account (LookupTable (lookup_table_meta_new authority_key))))))))"

definition freeze_lookup_table :: "lookup_env \<Rightarrow> instruction_context \<Rightarrow> unit tc_effect" where
  "freeze_lookup_table env ic =
     bind (check_table_owner ic) (\<lambda>_.
     bind (check_signing_account ic 1 True) (\<lambda>authority_key.
       with_instruction_account ic 0 (\<lambda>lookup_table_account.
         bind (gets (get_data lookup_table_account)) (\<lambda>lookup_table_data.
         bind (lift (table_deserialize (le_table env) lookup_table_data)) (\<lambda>lookup_table.
         bind (lift (check_authority lookup_table authority_key)) (\<lambda>_.
         bind (fail_if (lt_deactivation_slot (alt_meta lookup_table) \<noteq> - 1) InvalidArgument) (\<lambda>_.
         bind (fail_if (alt_addresses lookup_table = []) InvalidInstructionData) (\<lambda>_.
           overwrite_account_meta (le_table env) lookup_table_account
             ((alt_meta lookup_table)\<lparr>lt_authority := None\<rparr>)))))))))"

fun extend_addresses :: "borrowed_account \<Rightarrow> pubkey list \<Rightarrow> unit tc_effect" where
  "extend_addresses b [] = return ()"
| "extend_addresses b (k # ks) = bind (extend_from_slice b k) (\<lambda>_. extend_addresses b ks)"

text \<open>
  The metadata is updated only in a slot other than that of the last extension. The start index is
  converted with \<open>u8::try_from\<close>; the length is below 256 here, since fuller tables are refused before.
\<close>

definition update_extended_slot :: "u64 \<Rightarrow> address_lookup_table \<Rightarrow> instruction_error + lookup_table_meta" where
  "update_extended_slot slot lookup_table =
     (if slot \<noteq> lt_last_extended_slot (alt_meta lookup_table)
      then if 255 < length (alt_addresses lookup_table) then Inl InvalidAccountData
           else Inr ((alt_meta lookup_table)\<lparr>lt_last_extended_slot := slot,
                  lt_last_extended_slot_start_index := of_nat (length (alt_addresses lookup_table))\<rparr>)
      else Inr (alt_meta lookup_table))"

text \<open>
  The part of \<open>extend_lookup_table\<close> that holds the table account. It returns the balance of the table
  and its new length.
\<close>

definition extend_table_account ::
  "lookup_env \<Rightarrow> instruction_context \<Rightarrow> pubkey list \<Rightarrow> pubkey \<Rightarrow> (u64 \<times> nat) tc_effect" where
  "extend_table_account env ic new_addresses authority_key =
     with_instruction_account ic 0 (\<lambda>lookup_table_account.
       bind (gets (get_data lookup_table_account)) (\<lambda>lookup_table_data.
       bind (gets (get_lamports lookup_table_account)) (\<lambda>lookup_table_lamports.
       bind (lift (table_deserialize (le_table env) lookup_table_data)) (\<lambda>lookup_table.
       bind (lift (check_authority lookup_table authority_key)) (\<lambda>_.
       bind (fail_if (lt_deactivation_slot (alt_meta lookup_table) \<noteq> - 1) InvalidArgument) (\<lambda>_.
       bind (fail_if (LOOKUP_TABLE_MAX_ADDRESSES \<le> length (alt_addresses lookup_table)) InvalidArgument) (\<lambda>_.
       bind (fail_if (new_addresses = []) InvalidInstructionData) (\<lambda>_.
       let new_table_addresses_len = usize_saturating_add (length (alt_addresses lookup_table)) (length new_addresses) in
       bind (fail_if (LOOKUP_TABLE_MAX_ADDRESSES < new_table_addresses_len) InvalidInstructionData) (\<lambda>_.
       bind (lift (get_clock (le_sysvar_cache env))) (\<lambda>clock.
       bind (lift (update_extended_slot (ck_slot clock) lookup_table)) (\<lambda>lookup_table_meta.
       bind (overwrite_account_meta (le_table env) lookup_table_account lookup_table_meta) (\<lambda>_.
       bind (extend_addresses lookup_table_account new_addresses) (\<lambda>_.
         return (lookup_table_lamports, LOOKUP_TABLE_META_SIZE + new_table_addresses_len * PUBKEY_BYTES))))))))))))))"

text \<open>The transfer of the lamports that the longer account needs.\<close>

definition fund_table ::
  "lookup_env \<Rightarrow> program_table \<Rightarrow> instruction_context \<Rightarrow> pubkey \<Rightarrow> u64 \<Rightarrow> nat \<Rightarrow> unit iv_effect" where
  "fund_table env programs ic table_key lookup_table_lamports new_table_data_len =
     bind (lift (get_rent (le_sysvar_cache env))) (\<lambda>rent.
     let required_lamports =
           saturating_sub (max (minimum_balance rent new_table_data_len) 1) lookup_table_lamports in
     if 0 < required_lamports
     then bind (on_tc (check_signing_account ic 2 True)) (\<lambda>payer_key.
            native_invoke_built programs
              (transfer_instruction (le_system env) payer_key table_key required_lamports) [payer_key])
     else return ())"

definition extend_lookup_table :: "lookup_env \<Rightarrow> program_table \<Rightarrow> pubkey list \<Rightarrow> unit iv_effect" where
  "extend_lookup_table env programs new_addresses =
     bind (on_tc (reads get_current_instruction_context)) (\<lambda>ic.
     bind (on_tc (check_table_owner ic)) (\<lambda>table_key.
     bind (on_tc (check_signing_account ic 1 True)) (\<lambda>authority_key.
     bind (on_tc (extend_table_account env ic new_addresses authority_key)) (\<lambda>(lookup_table_lamports, new_table_data_len).
       fund_table env programs ic table_key lookup_table_lamports new_table_data_len))))"

definition deactivate_lookup_table :: "lookup_env \<Rightarrow> instruction_context \<Rightarrow> unit tc_effect" where
  "deactivate_lookup_table env ic =
     bind (check_table_owner ic) (\<lambda>_.
     bind (check_signing_account ic 1 True) (\<lambda>authority_key.
       with_instruction_account ic 0 (\<lambda>lookup_table_account.
         bind (gets (get_data lookup_table_account)) (\<lambda>lookup_table_data.
         bind (lift (table_deserialize (le_table env) lookup_table_data)) (\<lambda>lookup_table.
         bind (lift (check_authority lookup_table authority_key)) (\<lambda>_.
         bind (fail_if (lt_deactivation_slot (alt_meta lookup_table) \<noteq> - 1) InvalidArgument) (\<lambda>_.
         bind (lift (get_clock (le_sysvar_cache env))) (\<lambda>clock.
           overwrite_account_meta (le_table env) lookup_table_account
             ((alt_meta lookup_table)\<lparr>lt_deactivation_slot := ck_slot clock\<rparr>)))))))))"

definition close_lookup_table :: "lookup_env \<Rightarrow> instruction_context \<Rightarrow> unit tc_effect" where
  "close_lookup_table env ic =
     bind (check_table_owner ic) (\<lambda>_.
     bind (check_signing_account ic 1 True) (\<lambda>authority_key.
     bind (lift (check_number_of_instruction_accounts ic 3)) (\<lambda>_.
     bind (lift (get_index_of_instruction_account_in_transaction ic 0)) (\<lambda>table_index.
     bind (lift (get_index_of_instruction_account_in_transaction ic 2)) (\<lambda>recipient_index.
     bind (fail_if (table_index = recipient_index) InvalidArgument) (\<lambda>_.
     bind (with_instruction_account ic 0 (\<lambda>lookup_table_account.
             bind (gets (get_lamports lookup_table_account)) (\<lambda>withdrawn_lamports.
             bind (gets (get_data lookup_table_account)) (\<lambda>lookup_table_data.
             bind (lift (table_deserialize (le_table env) lookup_table_data)) (\<lambda>lookup_table.
             bind (lift (check_authority lookup_table authority_key)) (\<lambda>_.
             bind (lift (get_clock (le_sysvar_cache env))) (\<lambda>clock.
             bind (lift (get_slot_hashes (le_sysvar_cache env))) (\<lambda>slot_hashes.
             bind (lift (case table_status (alt_meta lookup_table) (ck_slot clock) slot_hashes of
                           Activated \<Rightarrow> Inl InvalidArgument
                         | Deactivating _ \<Rightarrow> Inl InvalidArgument
                         | Deactivated \<Rightarrow> Inr ())) (\<lambda>_.
               return withdrawn_lamports))))))))) (\<lambda>withdrawn_lamports.
     bind (with_instruction_account ic 2 (\<lambda>recipient_account.
             checked_add_lamports recipient_account withdrawn_lamports)) (\<lambda>_.
       with_instruction_account ic 0 (\<lambda>lookup_table_account.
         bind (set_data_length lookup_table_account 0) (\<lambda>_.
           set_lamports lookup_table_account 0))))))))))"

definition alt_process_instruction :: "lookup_env \<Rightarrow> program_table \<Rightarrow> unit iv_effect" where
  "alt_process_instruction env programs =
     bind (on_tc (reads get_current_instruction_context)) (\<lambda>ic.
     bind (lift (limited_deserialize (le_decode env) (ic_instruction_data ic))) (\<lambda>instruction.
       case instruction of
         CreateLookupTable recent_slot bump_seed \<Rightarrow> create_lookup_table env programs recent_slot bump_seed
       | FreezeLookupTable \<Rightarrow> on_tc (freeze_lookup_table env ic)
       | ExtendLookupTable new_addresses \<Rightarrow> extend_lookup_table env programs new_addresses
       | DeactivateLookupTable \<Rightarrow> on_tc (deactivate_lookup_table env ic)
       | CloseLookupTable \<Rightarrow> on_tc (close_lookup_table env ic)))"

subsection \<open>The handlers stay inside the access contract\<close>

lemma update_account_at_twice:
  "update_account_at i f (update_account_at i g tc) = update_account_at i (f \<circ> g) tc"
  by (cases "i < num_accounts tc") (simp_all add: update_account_at_def account_at_def list_update_beyond)

lemma keeps_overwrite: "handle_of ic b \<Longrightarrow> keeps (safe_rel ic) (overwrite_account_meta B b meta)"
  by (rule keepsI)
    (auto simp: overwrite_account_meta_def get_data_mut_def can_data_be_changed_def write_data_def effect_simps
      touch_eval update_account_def update_account_at_twice safe_rel_refl is_owned_owned_at ba_reads account_step_def
      intro!: safe_rel_update safe_rel_touch split: if_splits sum.splits)

lemma keeps_extend_addresses: "handle_of ic b \<Longrightarrow> keeps (safe_rel ic) (extend_addresses b ks)"
  by (induction ks) (auto intro: safe_handler_rules)

lemmas table_rules = safe_handler_rules keeps_overwrite keeps_extend_addresses

lemma keeps_check_table_owner: "wf_ic ic \<Longrightarrow> keeps (safe_rel ic) (check_table_owner ic)"
  unfolding check_table_owner_def by (intro table_rules)

lemma keeps_check_signing_account: "wf_ic ic \<Longrightarrow> keeps (safe_rel ic) (check_signing_account ic i req)"
  unfolding check_signing_account_def by (intro table_rules)

lemmas table_handler_rules = table_rules keeps_check_table_owner keeps_check_signing_account

lemma keeps_freeze: "wf_ic ic \<Longrightarrow> keeps (safe_rel ic) (freeze_lookup_table env ic)"
  unfolding freeze_lookup_table_def by (intro table_handler_rules) auto

lemma keeps_extend_table_account: "wf_ic ic \<Longrightarrow> keeps (safe_rel ic) (extend_table_account env ic ks authority)"
  unfolding extend_table_account_def Let_def by (intro table_handler_rules) auto

lemma keeps_deactivate: "wf_ic ic \<Longrightarrow> keeps (safe_rel ic) (deactivate_lookup_table env ic)"
  unfolding deactivate_lookup_table_def by (intro table_handler_rules) auto

lemma keeps_close: "wf_ic ic \<Longrightarrow> keeps (safe_rel ic) (close_lookup_table env ic)"
  unfolding close_lookup_table_def by (intro table_handler_rules) auto

text \<open>A program reads the frame it runs in.\<close>

lemma keeps_frame_current:
  assumes "keeps (frame_rel ic) (f ic)"
  shows "keeps (frame_rel ic) (bind (on_tc (reads get_current_instruction_context)) f)"
proof (rule keepsI)
  fix iv
  show "frame_rel ic iv (snd (bind (on_tc (reads get_current_instruction_context)) f iv))"
  proof (cases "get_current_instruction_context (iv_tc iv) = Inr ic")
    case True
    then have "on_tc (reads get_current_instruction_context) iv = (Inr ic, iv)" by (simp add: on_tc_def reads_apply)
    then show ?thesis using assms by (simp add: bind_apply keeps_def)
  qed (simp add: frame_rel_def)
qed

context program_contract begin

lemma keeps_native_invoke_built:
  assumes "wf_ic ic" "\<And>ix. built = Some ix \<Longrightarrow> length (ix_accounts ix) < 2 ^ 16 - 1"
  shows "keeps (frame_rel ic) (native_invoke_built programs built signers)"
  unfolding native_invoke_built_def
  using assms by (intro keeps_bind_lift fr.R_refl native_invoke_frame) auto

lemma system_builders_short:
  "transfer_instruction B from to lamports = Some ix \<Longrightarrow> length (ix_accounts ix) < 2 ^ 16 - 1"
  "allocate_instruction B key space = Some ix \<Longrightarrow> length (ix_accounts ix) < 2 ^ 16 - 1"
  "assign_instruction B key owner = Some ix \<Longrightarrow> length (ix_accounts ix) < 2 ^ 16 - 1"
  by (auto simp: transfer_instruction_def allocate_instruction_def assign_instruction_def new_with_bincode_def
      split: option.splits)

lemma keeps_create: "wf_ic ic \<Longrightarrow> keeps (frame_rel ic) (create_lookup_table env programs slot bump)"
  unfolding create_lookup_table_def create_checks_def allocate_table_def Let_def
  by (intro keeps_frame_current fr.keeps_rules keeps_frame_safe table_handler_rules
      keeps_native_invoke_built system_builders_short)

lemma keeps_extend: "wf_ic ic \<Longrightarrow> keeps (frame_rel ic) (extend_lookup_table env programs ks)"
  unfolding extend_lookup_table_def fund_table_def Let_def
  by (intro keeps_frame_current fr.keeps_rules keeps_frame_safe table_handler_rules keeps_extend_table_account
      keeps_native_invoke_built system_builders_short)

lemma alt_program_ok: "program_ok (declare_process_instruction cu (alt_process_instruction env programs))"
proof (rule program_ok_builtin)
  fix ic
  assume wf: "wf_ic ic"
  have "keeps (frame_rel ic) (case instruction of
         CreateLookupTable recent_slot bump_seed \<Rightarrow> create_lookup_table env programs recent_slot bump_seed
       | FreezeLookupTable \<Rightarrow> on_tc (freeze_lookup_table env ic)
       | ExtendLookupTable new_addresses \<Rightarrow> extend_lookup_table env programs new_addresses
       | DeactivateLookupTable \<Rightarrow> on_tc (deactivate_lookup_table env ic)
       | CloseLookupTable \<Rightarrow> on_tc (close_lookup_table env ic))" for instruction
    by (cases instruction)
      (simp_all add: wf keeps_create keeps_extend keeps_frame_safe keeps_freeze keeps_deactivate keeps_close)
  then show "keeps (frame_rel ic) (alt_process_instruction env programs)"
    unfolding alt_process_instruction_def by (intro keeps_frame_current fr.keeps_bind fr.keeps_lift)
qed

end

end
