(* ===== verification/Leaf_Program.thy ===== *)
theory Leaf_Program
  imports Cross_Program
begin

section \<open>Invoking a program that invokes no other\<close>

text \<open>
  A built-in that only works on the transaction context, as the system program does, can be trusted
  further than the general contract: when another program invokes it, the accounts that it does not
  own keep their owner and data and lose no lamports, whoever called it.
\<close>

definition leaf_program :: "program_table \<Rightarrow> pubkey \<Rightarrow> bool" where
  "leaf_program programs p \<longleftrightarrow> (\<exists>cu m. programs p = Some (Builtin (Some (declare_process_instruction cu (on_tc m)))) \<and>
     (\<forall>ic tc. wf_ic ic \<longrightarrow> get_current_instruction_context tc = Inr ic \<longrightarrow> safe_rel ic tc (snd (m tc))))"

definition external_kept :: "pubkey \<Rightarrow> transaction_context \<Rightarrow> transaction_context \<Rightarrow> bool" where
  "external_kept p s t \<longleftrightarrow> (\<forall>k. acc_owner (account_at s k) \<noteq> p \<longrightarrow>
     acc_owner (account_at t k) = acc_owner (account_at s k) \<and> acc_data (account_at t k) = acc_data (account_at s k) \<and>
     acc_lamports (account_at s k) \<le> acc_lamports (account_at t k))"

text \<open>The account of a built-in program belongs to the native loader.\<close>

definition native_program :: "transaction_context \<Rightarrow> pubkey \<Rightarrow> bool" where
  "native_program tc p \<longleftrightarrow> (\<forall>k. vec_get (tc_account_keys tc) k = Some p \<longrightarrow>
     acc_owner (account_at tc k) = native_loader_id \<and> acc_executable (account_at tc k))"

lemma external_kept_refl: "external_kept p s s"
  by (simp add: external_kept_def)

lemma external_kept_trans:
  assumes "external_kept p s t" "external_kept p t u"
  shows "external_kept p s u"
  unfolding external_kept_def
proof (intro allI impI)
  fix k
  assume k: "acc_owner (account_at s k) \<noteq> p"
  note st = assms(1) [unfolded external_kept_def, rule_format, OF k]
  with k have "acc_owner (account_at t k) \<noteq> p" by simp
  note tu = assms(2) [unfolded external_kept_def, rule_format, OF this]
  show "acc_owner (account_at u k) = acc_owner (account_at s k) \<and> acc_data (account_at u k) = acc_data (account_at s k) \<and>
      acc_lamports (account_at s k) \<le> acc_lamports (account_at u k)"
    using st tu by (auto intro: order_trans)
qed

lemma external_kept_same: "account_at t = account_at s \<Longrightarrow> external_kept p s t"
  by (simp add: external_kept_def)

lemma external_kept_accounts:
  "account_at s' = account_at s \<Longrightarrow> account_at t' = account_at t \<Longrightarrow> external_kept p s' t' = external_kept p s t"
  by (simp add: external_kept_def)

lemma base_rel_no_change: "base_rel (\<lambda>_. False) s t \<Longrightarrow> account_at t = account_at s"
  by (simp add: base_rel_def fun_eq_iff)

lemma native_program_rel: "native_program s p \<Longrightarrow> base_rel W s t \<Longrightarrow> native_program t p"
  unfolding native_program_def base_rel_def by simp

lemma builtin_id_native:
  assumes "builtin_id_of ic tc = (Inr key, tc')" "ic_program_accounts ic = [q]"
    and "acc_owner (account_at tc (unat q)) = native_loader_id"
  shows "key = tc_account_keys tc ! unat q"
proof -
  let ?b = "\<lparr>ba_instruction_context = ic, ba_index_in_transaction = q, ba_index_in_instruction = 0\<rparr>"
  let ?t = "set_borrow_at (unat q) WRITING tc"
  have idx: "get_index_of_program_account_in_transaction ic 0 = Inr q"
    using assms(2) by (simp add: get_index_of_program_account_in_transaction_def)
  from assms(1) obtain b t where b: "try_borrow_program_account ic 0 tc = (Inr b, t)"
    by (auto simp: builtin_id_of_def split: sum.splits prod.splits)
  then have bt: "b = ?b" "t = ?t"
    by (auto simp: try_borrow_program_account_def try_borrow_account_def idx effect_simps split: sum.splits if_splits)
  have "get_owner b t = native_loader_id" using assms(3) by (simp add: bt get_owner_def ba_account_def)
  then have "key = get_key b t" using assms(1) b by (simp add: builtin_id_of_def)
  then show ?thesis by (simp add: bt get_key_def set_borrow_at_def)
qed

lemma current_return_data [simp]:
  "get_current_instruction_context (tc\<lparr>tc_return_data := d\<rparr>) = get_current_instruction_context tc"
proof -
  have "get_instruction_context_at_nesting_level (tc\<lparr>tc_return_data := d\<rparr>) level =
      get_instruction_context_at_nesting_level tc level" for level
    by (simp add: get_instruction_context_at_nesting_level_def get_instruction_context_at_index_in_trace_def)
  then show ?thesis by (simp add: get_current_instruction_context_def get_instruction_context_stack_height_def split: nat.split)
qed

lemma leaf_chain:
  assumes leaf: "leaf_program programs p" and wf: "wf_ic ic" "ic_program_accounts ic = [q]"
    and current: "get_current_instruction_context (iv_tc u) = Inr ic"
    and p: "vec_get (tc_account_keys (iv_tc u)) (unat q) = Some p" "acc_owner (account_at (iv_tc u) (unat q)) = native_loader_id"
    and run: "process_executable_chain programs u = (result, w)"
  shows "external_kept p (iv_tc u) (iv_tc w)"
proof -
  obtain cu m where m: "programs p = Some (Builtin (Some (declare_process_instruction cu (on_tc m))))"
    "\<And>tc. get_current_instruction_context tc = Inr ic \<Longrightarrow> safe_rel ic tc (snd (m tc))"
    using leaf wf(1) unfolding leaf_program_def by blast
  have key: "get_last_program_key ic tc = Inr p" if "tc_account_keys tc = tc_account_keys (iv_tc u)" for tc
    using p(1) wf(2) that by (simp add: get_last_program_key_def get_key_of_account_at_index_def
        get_index_of_program_account_in_transaction_def get_number_of_program_accounts_def saturating_sub_def ok_or_def vec_get_def)
  have body: "external_kept p (iv_tc v) (iv_tc (snd (declare_process_instruction cu (on_tc m) v)))"
    if v: "get_current_instruction_context (iv_tc v) = Inr ic" "tc_account_keys (iv_tc v) = tc_account_keys (iv_tc u)" for v
  proof -
    have "iv_tc (snd (declare_process_instruction cu (on_tc m) v)) \<in> {iv_tc v, snd (m (iv_tc v))}"
      by (auto simp: declare_process_instruction_def consume_checked_def effect_simps on_tc_simps split: prod.splits)
    moreover have "external_kept p (iv_tc v) (snd (m (iv_tc v)))"
      using m(2) [OF v(1)] key [OF v(2)]
      by (auto simp: safe_rel_def access_rel_def account_step_def owned_at_def external_kept_def)
    ultimately show ?thesis using external_kept_refl by auto
  qed
  have cur: "on_tc (reads get_current_instruction_context) u = (Inr ic, u)"
    using current by (simp add: on_tc_def reads_apply)
  obtain r t where id: "builtin_id_of ic (iv_tc u) = (r, t)" by (cases "builtin_id_of ic (iv_tc u)")
  have t: "t = iv_tc u" using keeps_sameD [OF keeps_same_builtin_id, of ic "iv_tc u"] id by simp
  then have id': "on_tc (builtin_id_of ic) u = (r, u)" using id by (simp add: on_tc_def)
  show ?thesis
  proof (cases r)
    case (Inl e)
    then have "w = u" using run cur id' by (simp add: process_executable_chain_def bind_apply)
    then show ?thesis by (simp add: external_kept_refl)
  next
    case (Inr b)
    then have "b = p" using builtin_id_native [of ic "iv_tc u" b t q] id wf(2) p by (auto simp: vec_get_def split: if_splits)
    let ?f = "declare_process_instruction cu (on_tc m)"
    define v where "v = u\<lparr>iv_transaction_context := (iv_tc u)\<lparr>tc_return_data := \<lparr>rd_program_id = p, rd_data = []\<rparr>\<rparr>\<rparr>"
    have set: "on_tc (set_return_data p []) u = (Inr (), v)"
      by (simp add: v_def on_tc_def set_return_data_def modify_apply)
    have v: "account_at (iv_tc v) = account_at (iv_tc u)" "get_current_instruction_context (iv_tc v) = Inr ic"
      "tc_account_keys (iv_tc v) = tc_account_keys (iv_tc u)"
      using current by (simp_all add: v_def account_at_def fun_eq_iff)
    have "on_tc (reads (get_last_program_key ic)) u = (Inr p, u)"
      using key [of "iv_tc u"] by (simp add: on_tc_def reads_apply)
    then have "run_entrypoint p p ?f v = (result, w)"
      using run cur id' Inr \<open>b = p\<close> m(1) set
      by (simp add: process_executable_chain_def bind_apply lookup_entrypoint_def lift_apply)
    then have w: "iv_tc w = iv_tc (snd (?f v))" by (auto simp: run_entrypoint_def Let_def split: prod.splits if_splits)
    show ?thesis using body [OF v(2,3)] unfolding w external_kept_def v(1) .
  qed
qed

context program_contract begin

lemma native_invoke_leaf:
  assumes leaf: "leaf_program programs (ix_program_id ix)" and native: "native_program (iv_tc iv) (ix_program_id ix)"
    and wf: "wf_ic caller" and len: "length (ix_accounts ix) < 2 ^ 16 - 1"
    and tx: "tx_inv (iv_tc iv)" and current: "get_current_instruction_context (iv_tc iv) = Inr caller"
    and run: "native_invoke programs ix signers iv = (r, iv')"
  shows "external_kept (ix_program_id ix) (iv_tc iv) (iv_tc iv')"
proof -
  let ?tc = "iv_tc iv" and ?p = "ix_program_id ix"
  obtain q t where prep: "prepare_instruction ix signers ?tc = (q, t)" by (cases "prepare_instruction ix signers ?tc")
  have t: "t = ?tc" using keeps_sameD [OF keeps_same_prepare, of ix signers ?tc] prep by simp
  then have on: "on_tc (prepare_instruction ix signers) iv = (q, iv)" using prep by (simp add: on_tc_def)
  show ?thesis
  proof (cases q)
    case (Inl e)
    then have "iv' = iv" using on run by (simp add: native_invoke_def bind_apply)
    then show ?thesis by (simp add: external_kept_refl)
  next
    case (Inr x)
    obtain ias ps where x: "x = (ias, ps)" by (cases x)
    with Inr prep have ok: "prepare_instruction ix signers ?tc = (Inr (ias, ps), t)" by simp
    note facts = prepare_instruction_ok [OF ok tx current wf]
    have pi: "process_instruction programs (ix_data ix) ias ps iv = (r, iv')"
      using on Inr x run by (simp add: native_invoke_def bind_apply)
    have short: "length ps + length ias < 2 ^ 16" using facts(1,4) len by (auto simp: prepared_def)
    obtain i where i: "ps = [i]" "vec_get (tc_account_keys ?tc) (unat i) = Some ?p" using facts(4) len by auto
    then have own: "acc_owner (account_at ?tc (unat i)) = native_loader_id" using native by (simp add: native_program_def)
    from pi tx show ?thesis
    proof (cases rule: process_instruction_cases)
      case (push_failed v e)
      have "keeps (iv_rel (\<lambda>_. False)) invoke_push" by (rule keeps_invoke_push)
      then have "iv_rel (\<lambda>_. False) v iv'" using push_failed(4) by (rule keepsD)
      then have "account_at (iv_tc iv') = account_at (iv_tc v)" by (intro base_rel_no_change) (simp add: iv_rel_def)
      then show ?thesis using push_failed(1) configured_facts(6) [OF tx] by (intro external_kept_same) simp
    next
      case (ran v u result w)
      have "keeps (iv_rel (\<lambda>_. False)) invoke_push" by (rule keeps_invoke_push)
      then have rel: "iv_rel (\<lambda>_. False) v u" using ran(4) by (rule keepsD)
      have v: "account_at (iv_tc v) = account_at ?tc" "tc_account_keys (iv_tc v) = tc_account_keys ?tc"
        using ran(1) configured_facts(6) [OF tx] by (simp_all add: configured_def)
      have u: "account_at (iv_tc u) = account_at ?tc" "tc_account_keys (iv_tc u) = tc_account_keys ?tc"
      proof -
        have b: "base_rel (\<lambda>_. False) (iv_tc v) (iv_tc u)" using rel by (simp add: iv_rel_def)
        show "account_at (iv_tc u) = account_at ?tc" using base_rel_no_change [OF b] v(1) by simp
        have "tc_account_keys (iv_tc u) = tc_account_keys (iv_tc v)" using b unfolding base_rel_def by blast
        then show "tc_account_keys (iv_tc u) = tc_account_keys ?tc" using v(2) by simp
      qed
      obtain S where S: "get_current_instruction_context (iv_tc u) = Inr (pushed_context (iv_tc v) S)"
        using invoke_push_ok [OF ran(4)] by (rule current_after_push)
      have ic: "ic_instruction_accounts (pushed_context (iv_tc v) S) = ias"
        "ic_program_accounts (pushed_context (iv_tc v) S) = [i]"
        using configured_facts(4) [OF tx] ran(1) i(1) by (simp_all add: pushed_context_def ic_configure_def)
      have "wf_ic (pushed_context (iv_tc v) S)" using short ic i(1) by (simp add: wf_ic_def)
      from leaf_chain [OF leaf this ic(2) S _ _ ran(5)] have "external_kept ?p (iv_tc u) (iv_tc w)"
        using u i(2) own by simp
      moreover have "keeps (iv_rel (\<lambda>_. False)) invoke_pop" by (rule keeps_invoke_pop)
      then have "iv_rel (\<lambda>_. False) w iv'" using ran(6) by (simp add: keeps_def)
      then have "account_at (iv_tc iv') = account_at (iv_tc w)" by (intro base_rel_no_change) (simp add: iv_rel_def)
      ultimately show ?thesis using external_kept_accounts u(1) by metis
    qed
  qed
qed

end

end
