(* ===== verification/Lookup_Table_Properties.thy ===== *)
theory Lookup_Table_Properties
  imports Lookup_Table_Program Leaf_Program Account_Specs
begin

section \<open>What the lookup table program does to tables\<close>

text \<open>
  Specifications of the handlers on the account of the table: a successful handler takes the table
  through one step of its life, under the authority that the table stores and that signed, or
  removes it after its deactivation. The system program, invoked for funding, leaves tables alone.
\<close>

definition table_at :: "lookup_env \<Rightarrow> transaction_context \<Rightarrow> nat \<Rightarrow> instruction_error + address_lookup_table" where
  "table_at env tc k = table_deserialize (le_table env) (acc_data (account_at tc k))"

definition signed_by :: "instruction_context \<Rightarrow> index_of_account \<Rightarrow> transaction_context \<Rightarrow> pubkey \<Rightarrow> bool" where
  "signed_by ic i tc key \<longleftrightarrow> unat i < length (ic_instruction_accounts ic) \<and>
     ia_is_signer (ic_instruction_accounts ic ! unat i) \<and> tc_account_keys tc ! tx_index ic i = key"

subsection \<open>The checks\<close>

lemma get_key_set_borrow [simp]: "get_key b (set_borrow_at i f tc) = get_key b tc"
  by (simp add: get_key_def set_borrow_at_def)

lemma check_table_owner_ok:
  assumes "check_table_owner ic tc = (Inr key, tc')"
  shows "tc' = tc" "acc_owner (account_at tc (tx_index ic 0)) = alt_program_id" "key = tc_account_keys tc ! tx_index ic 0"
proof -
  have "keeps (=) (check_table_owner ic)"
    unfolding check_table_owner_def by (intro same.keeps_rules keeps_same_with_instruction_account)
  from keeps_sameD [OF this, of tc] assms show "tc' = tc" by simp
  from assms show "acc_owner (account_at tc (tx_index ic 0)) = alt_program_id" "key = tc_account_keys tc ! tx_index ic 0"
    unfolding check_table_owner_def
    by (auto elim!: with_instruction_account_okE simp: effect_simps get_owner_def ba_account_def get_key_def [of _ tc]
        split: if_splits)
qed

lemma check_signing_account_ok:
  assumes "check_signing_account ic i True tc = (Inr key, tc')" "wf_ic ic"
  shows "tc' = tc" "signed_by ic i tc key"
proof -
  have "keeps (=) (check_signing_account ic i True)"
    unfolding check_signing_account_def by (intro same.keeps_rules keeps_same_with_instruction_account)
  from keeps_sameD [OF this, of tc] assms(1) show "tc' = tc" by simp
  from assms(1) show "signed_by ic i tc key"
    unfolding check_signing_account_def signed_by_def
    by (auto elim!: with_instruction_account_okE simp: effect_simps get_key_def [of _ tc]
        is_writable_instruction_handle [OF assms(2)] split: if_splits)
qed

lemma check_authority_ok: "check_authority t key = Inr () \<longleftrightarrow> lt_authority (alt_meta t) = Some key"
  by (auto simp: check_authority_def)

subsection \<open>Writing the table\<close>

lemma overwrite_account_meta_ok:
  assumes run: "overwrite_account_meta B b m tc = (Inr (), tc')" and b: "ba_index b < num_accounts tc"
    and laws: "table_laws B" "LookupTable m \<in> wf_program_state" and table: "table_deserialize B (get_data b tc) = Inr t"
  obtains d where "overwrite_meta_data B (get_data b tc) m = Inr d"
    "accounts_to tc ((account_at tc)(ba_index b := (ba_account b tc)\<lparr>acc_data := d\<rparr>)) tc'"
proof -
  let ?i = "ba_index b" and ?t = "mark_touched (ba_index b) tc" and ?data = "get_data b tc"
  have data: "get_data b ?t = ?data" by (simp add: get_data_def ba_account_def)
  obtain d where d: "overwrite_meta_data B ?data m = Inr d"
    "tc' = update_account_at ?i ((\<lambda>a. a\<lparr>acc_data := slice_write (acc_data a) d\<rparr>) \<circ>
       (\<lambda>a. a\<lparr>acc_data := slice_write (acc_data a) (replicate LOOKUP_TABLE_META_SIZE 0)\<rparr>)) ?t"
    using run
    by (auto simp: overwrite_account_meta_def get_data_mut_def write_data_def update_account_def effect_simps touch_eval
        data update_account_at_twice split: if_splits sum.splits)
  have "length d = length ?data" using overwrite_extend_deserialize(2) [OF laws table d(1), of "[]"] by simp
  then have "slice_write (slice_write ?data z) d = d" for z by (simp add: slice_write_same_length)
  then have "tc' = update_account_at ?i (\<lambda>a. (ba_account b tc)\<lparr>acc_data := d\<rparr>) ?t"
    using d(2) b by (simp add: update_account_at_def account_at_def mark_touched_def ba_account_def get_data_def)
  then show thesis using that [OF d(1)] accounts_to_update [OF b, of "\<lambda>_. (ba_account b tc)\<lparr>acc_data := d\<rparr>" ?i]
    by simp
qed

lemma extend_from_slice_ok:
  assumes "extend_from_slice b k tc = (Inr (), tc')" "ba_index b < num_accounts tc"
  shows "accounts_to tc ((account_at tc)(ba_index b := (ba_account b tc)\<lparr>acc_data := get_data b tc @ k\<rparr>)) tc'"
proof (cases "k = []")
  case True
  then have "tc' = tc" using assms(1) by (auto simp: extend_from_slice_def effect_simps split: sum.splits)
  then show ?thesis using True by (simp add: accounts_to_def get_data_def ba_account_def fun_upd_def fun_eq_iff)
next
  case False
  let ?t = "mark_touched (ba_index b) tc"
  obtain dl where "tc' = update_account_at (ba_index b) (\<lambda>a. a\<lparr>acc_data := acc_data a @ k\<rparr>)
      (?t\<lparr>tc_accounts_resize_delta := dl\<rparr>)"
    using assms(1) False
    by (auto simp: extend_from_slice_def effect_simps touch_eval update_account_def update_accounts_resize_delta_def
        split: if_splits sum.splits)
  then show ?thesis using assms(2)
    by (auto simp: accounts_to_def account_at_update fun_eq_iff get_data_def ba_account_def)
qed

lemma extend_addresses_ok:
  "extend_addresses b ks tc = (Inr (), tc') \<Longrightarrow> ba_index b < num_accounts tc \<Longrightarrow>
     accounts_to tc ((account_at tc)(ba_index b := (ba_account b tc)\<lparr>acc_data := get_data b tc @ concat ks\<rparr>)) tc'"
proof (induction ks arbitrary: tc)
  case Nil
  then show ?case by (simp add: return_apply accounts_to_def get_data_def ba_account_def fun_eq_iff)
next
  case (Cons k ks)
  then obtain u where u: "extend_from_slice b k tc = (Inr (), u)" "extend_addresses b ks u = (Inr (), tc')"
    by (auto elim: bind_okE)
  note 1 = extend_from_slice_ok [OF u(1) Cons.prems(2)]
  then have "ba_index b < num_accounts u" using Cons.prems(2) by (simp add: accounts_to_def)
  note 2 = Cons.IH [OF u(2) this]
  show ?case using 1 2 by (auto simp: accounts_to_def get_data_def ba_account_def fun_eq_iff)
qed

subsection \<open>The handlers\<close>

text \<open>A change of the table account by a step of the table's life, everything else untouched.\<close>

definition table_change ::
  "lookup_env \<Rightarrow> instruction_context \<Rightarrow> u64 \<Rightarrow> transaction_context \<Rightarrow> transaction_context \<Rightarrow> bool" where
  "table_change env ic slot tc tc' \<longleftrightarrow>
     (\<exists>authority t t' d. signed_by ic 1 tc authority \<and> acc_owner (account_at tc (tx_index ic 0)) = alt_program_id \<and>
        table_at env tc (tx_index ic 0) = Inr t \<and> table_step authority slot t t' \<and>
        table_deserialize (le_table env) d = Inr t' \<and>
        accounts_to tc ((account_at tc)(tx_index ic 0 := (account_at tc (tx_index ic 0))\<lparr>acc_data := d\<rparr>)) tc')"

lemma decoded_meta_wf:
  assumes "table_laws B" "table_deserialize B d = Inr t"
  shows "LookupTable (alt_meta t) \<in> wf_program_state"
  using assms table_deserialize_ok(1) [OF assms(2)] unfolding table_laws_def by blast

lemma wf_meta_updates:
  assumes "LookupTable m \<in> wf_program_state"
  shows "LookupTable (m\<lparr>lt_authority := None\<rparr>) \<in> wf_program_state"
    "LookupTable (m\<lparr>lt_deactivation_slot := s\<rparr>) \<in> wf_program_state"
    "LookupTable (m\<lparr>lt_last_extended_slot := s, lt_last_extended_slot_start_index := i\<rparr>) \<in> wf_program_state"
  using assms by (auto simp: wf_program_state_def)

text \<open>The common shape of the writing part of the handlers.\<close>

lemma table_changeI:
  assumes laws: "table_laws (le_table env)" and b: "ba_index b = tx_index ic 0" "tx_index ic 0 < num_accounts tc"
    and table: "table_deserialize (le_table env) (get_data b tc) = Inr t"
    and auth: "signed_by ic 1 tc authority" "acc_owner (account_at tc (tx_index ic 0)) = alt_program_id"
    and step: "table_step authority slot t \<lparr>alt_meta = m, alt_addresses = alt_addresses t @ ks\<rparr>"
    and m: "LookupTable m \<in> wf_program_state" and ks: "\<forall>k\<in>set ks. wf_key k"
    and wrote: "overwrite_account_meta (le_table env) b m (set_borrow_at (tx_index ic 0) WRITING tc) = (Inr (), u)"
    and extend: "extend_addresses b ks u = (Inr (), v)"
  shows "table_change env ic slot tc (set_borrow_at (tx_index ic 0) UNUSED v)"
proof -
  let ?k = "tx_index ic 0" and ?tc = "set_borrow_at (tx_index ic 0) WRITING tc"
  obtain d where d: "overwrite_meta_data (le_table env) (get_data b tc) m = Inr d"
    "accounts_to ?tc ((account_at ?tc)(ba_index b := (ba_account b ?tc)\<lparr>acc_data := d\<rparr>)) u"
    using wrote laws m table b by (auto elim!: overwrite_account_meta_ok [where t = t])
  then have u: "accounts_to tc ((account_at tc)(?k := (account_at tc ?k)\<lparr>acc_data := d\<rparr>)) u"
    by (simp add: b(1) ba_account_def)
  then have "get_data b u = d" "ba_index b < num_accounts u" using b by (simp_all add: accounts_to_def get_data_def ba_account_def)
  with extend_addresses_ok [OF extend] u have v:
    "accounts_to tc ((account_at tc)(?k := (account_at tc ?k)\<lparr>acc_data := d @ concat ks\<rparr>)) v"
    by (simp add: accounts_to_def b(1) ba_account_def fun_eq_iff)
  have "table_deserialize (le_table env) (d @ concat ks) = Inr \<lparr>alt_meta = m, alt_addresses = alt_addresses t @ ks\<rparr>"
    using overwrite_extend_deserialize(1) [OF laws m table d(1) ks] .
  moreover have "table_at env tc ?k = Inr t" using table by (simp add: table_at_def get_data_def ba_account_def b(1))
  ultimately show ?thesis using v auth step unfolding table_change_def
    by (intro exI [of _ authority] exI [of _ t] exI [of _ "\<lparr>alt_meta = m, alt_addresses = alt_addresses t @ ks\<rparr>"]
        exI [of _ "d @ concat ks"]) simp
qed

lemma prologue_ok:
  assumes "bind (check_table_owner ic) (\<lambda>_. bind (check_signing_account ic 1 True) f) tc = (Inr x, tc')" "wf_ic ic"
  obtains authority where "signed_by ic 1 tc authority" "acc_owner (account_at tc (tx_index ic 0)) = alt_program_id"
    "f authority tc = (Inr x, tc')"
proof -
  from assms(1) obtain key s authority s' where run: "check_table_owner ic tc = (Inr key, s)"
    "check_signing_account ic 1 True s = (Inr authority, s')" "f authority s' = (Inr x, tc')"
    by (auto elim!: bind_okE)
  note o = check_table_owner_ok [OF run(1)]
  note a = check_signing_account_ok [OF run(2) assms(2)]
  show thesis using that o a run(3) by simp
qed

lemma freeze_ok:
  assumes "freeze_lookup_table env ic tc = (Inr (), tc')" "wf_ic ic" "table_laws (le_table env)"
  shows "table_change env ic slot tc tc'"
  using assms(1) unfolding freeze_lookup_table_def
proof (rule prologue_ok [OF _ assms(2)], goal_cases)
  case (1 authority)
  from 1(3) show ?case
  proof (rule with_instruction_account_okE, goal_cases)
    case (1 b u)
    from 1(6) obtain t where t: "table_deserialize (le_table env) (get_data b tc) = Inr t"
      "lt_authority (alt_meta t) = Some authority" "lt_deactivation_slot (alt_meta t) = - 1" "alt_addresses t \<noteq> []"
      "overwrite_account_meta (le_table env) b ((alt_meta t)\<lparr>lt_authority := None\<rparr>)
         (set_borrow_at (tx_index ic 0) WRITING tc) = (Inr (), u)"
      by (auto elim!: effect_elims simp: gets_apply check_authority_ok)
    have "table_step authority slot t \<lparr>alt_meta = (alt_meta t)\<lparr>lt_authority := None\<rparr>, alt_addresses = alt_addresses t @ []\<rparr>"
      using table_step.freeze [OF t(2,3,4), of slot] by (cases t) simp
    from table_changeI [OF assms(3) 1(3,5) t(1) \<open>signed_by ic 1 tc authority\<close> \<open>acc_owner _ = _\<close> this _ _ t(5), of u]
    show ?case
      using wf_meta_updates(1) [OF decoded_meta_wf [OF assms(3) t(1)]] 1(7) by (simp add: return_apply)
  qed
qed

lemma deactivate_ok:
  assumes "deactivate_lookup_table env ic tc = (Inr (), tc')" "wf_ic ic" "table_laws (le_table env)"
    and "get_clock (le_sysvar_cache env) = Inr clock"
  shows "table_change env ic (ck_slot clock) tc tc'"
  using assms(1) unfolding deactivate_lookup_table_def
proof (rule prologue_ok [OF _ assms(2)], goal_cases)
  case (1 authority)
  from 1(3) show ?case
  proof (rule with_instruction_account_okE, goal_cases)
    case (1 b u)
    from 1(6) obtain t where t: "table_deserialize (le_table env) (get_data b tc) = Inr t"
      "lt_authority (alt_meta t) = Some authority" "lt_deactivation_slot (alt_meta t) = - 1"
      "overwrite_account_meta (le_table env) b ((alt_meta t)\<lparr>lt_deactivation_slot := ck_slot clock\<rparr>)
         (set_borrow_at (tx_index ic 0) WRITING tc) = (Inr (), u)"
      using assms(4) by (auto elim!: effect_elims simp: gets_apply check_authority_ok)
    have "table_step authority (ck_slot clock) t
        \<lparr>alt_meta = (alt_meta t)\<lparr>lt_deactivation_slot := ck_slot clock\<rparr>, alt_addresses = alt_addresses t @ []\<rparr>"
      using table_step.deactivate [OF t(2,3), of "ck_slot clock"] by (cases t) simp
    from table_changeI [OF assms(3) 1(3,5) t(1) \<open>signed_by ic 1 tc authority\<close> \<open>acc_owner _ = _\<close> this _ _ t(4), of u]
    show ?case
      using wf_meta_updates(2) [OF decoded_meta_wf [OF assms(3) t(1)]] 1(7) by (simp add: return_apply)
  qed
qed

lemma update_extended_slot_ok: "update_extended_slot slot t = Inr m \<Longrightarrow> m = extended_meta slot t"
  by (auto simp: update_extended_slot_def extended_meta_def split: if_splits)

lemma extend_table_account_ok:
  assumes "extend_table_account env ic ks authority tc = (Inr x, tc')" "table_laws (le_table env)"
    and auth: "signed_by ic 1 tc authority" "acc_owner (account_at tc (tx_index ic 0)) = alt_program_id"
    and "get_clock (le_sysvar_cache env) = Inr clock" "\<forall>k\<in>set ks. wf_key k" "length ks < 2 ^ 63"
  shows "table_change env ic (ck_slot clock) tc tc'"
  using assms(1) unfolding extend_table_account_def Let_def
proof (rule with_instruction_account_okE, goal_cases)
  case (1 b u)
  from 1(6) obtain t m v where t: "table_deserialize (le_table env) (get_data b tc) = Inr t"
    "lt_authority (alt_meta t) = Some authority" "lt_deactivation_slot (alt_meta t) = - 1"
    "length (alt_addresses t) < LOOKUP_TABLE_MAX_ADDRESSES" "ks \<noteq> []"
    "usize_saturating_add (length (alt_addresses t)) (length ks) \<le> LOOKUP_TABLE_MAX_ADDRESSES"
    "update_extended_slot (ck_slot clock) t = Inr m"
    "overwrite_account_meta (le_table env) b m (set_borrow_at (tx_index ic 0) WRITING tc) = (Inr (), v)"
    "extend_addresses b ks v = (Inr (), u)"
    using assms(5)
    by (auto elim!: effect_elims simp: gets_apply check_authority_ok not_le not_less return_apply) blast
  note m = update_extended_slot_ok [OF t(7)]
  have len: "length (alt_addresses t) + length ks \<le> LOOKUP_TABLE_MAX_ADDRESSES"
    using t(4,6) assms(7) by (simp add: usize_saturating_add_def usize_max_def LOOKUP_TABLE_MAX_ADDRESSES_def split: if_splits)
  have wf: "LookupTable m \<in> wf_program_state"
    using wf_meta_updates(3) decoded_meta_wf [OF assms(2) t(1)] by (simp add: m extended_meta_def)
  have "table_step authority (ck_slot clock) t \<lparr>alt_meta = m, alt_addresses = alt_addresses t @ ks\<rparr>"
    unfolding m by (rule table_step.extend [OF t(2,3,4,5) len])
  from table_changeI [OF assms(2) 1(3,5) t(1) auth this wf assms(6) t(8,9)] show ?case using 1(7) by simp
qed

definition table_closed ::
  "lookup_env \<Rightarrow> instruction_context \<Rightarrow> u64 \<Rightarrow> slot_hashes \<Rightarrow> transaction_context \<Rightarrow> transaction_context \<Rightarrow> bool" where
  "table_closed env ic slot slot_hashes tc tc' \<longleftrightarrow>
     (\<exists>authority t. signed_by ic 1 tc authority \<and> acc_owner (account_at tc (tx_index ic 0)) = alt_program_id \<and>
        table_at env tc (tx_index ic 0) = Inr t \<and> lt_authority (alt_meta t) = Some authority \<and>
        table_status (alt_meta t) slot slot_hashes = Deactivated \<and> tx_index ic 0 \<noteq> tx_index ic 2 \<and>
        unat (acc_lamports (account_at tc (tx_index ic 2))) + unat (acc_lamports (account_at tc (tx_index ic 0))) < 2 ^ 64 \<and>
        accounts_to tc ((account_at tc)
          (tx_index ic 2 := (account_at tc (tx_index ic 2))\<lparr>acc_lamports :=
             acc_lamports (account_at tc (tx_index ic 2)) + acc_lamports (account_at tc (tx_index ic 0))\<rparr>,
           tx_index ic 0 := (account_at tc (tx_index ic 0))\<lparr>acc_data := [], acc_lamports := 0\<rparr>)) tc')"

lemma close_ok:
  assumes "close_lookup_table env ic tc = (Inr (), tc')" "wf_ic ic"
    and "get_clock (le_sysvar_cache env) = Inr clock" "get_slot_hashes (le_sysvar_cache env) = Inr slot_hashes"
  shows "table_closed env ic (ck_slot clock) slot_hashes tc tc'"
  using assms(1) unfolding close_lookup_table_def
proof (rule prologue_ok [OF _ assms(2)], goal_cases)
  case (1 authority)
  let ?k = "tx_index ic 0" and ?r = "tx_index ic 2"
  let ?read = "with_instruction_account ic 0 (\<lambda>lookup_table_account.
             bind (gets (get_lamports lookup_table_account)) (\<lambda>withdrawn_lamports.
             bind (gets (get_data lookup_table_account)) (\<lambda>lookup_table_data.
             bind (lift (table_deserialize (le_table env) lookup_table_data)) (\<lambda>lookup_table.
             bind (lift (check_authority lookup_table authority)) (\<lambda>_.
             bind (lift (get_clock (le_sysvar_cache env))) (\<lambda>clock.
             bind (lift (get_slot_hashes (le_sysvar_cache env))) (\<lambda>slot_hashes.
             bind (lift (case table_status (alt_meta lookup_table) (ck_slot clock) slot_hashes of
                           Activated \<Rightarrow> Inl InvalidArgument
                         | Deactivating _ \<Rightarrow> Inl InvalidArgument
                         | Deactivated \<Rightarrow> Inr ())) (\<lambda>_.
               return withdrawn_lamports))))))))"
  from 1(3) obtain x u v where run: "get_index_of_instruction_account_in_transaction ic 0 \<noteq> get_index_of_instruction_account_in_transaction ic 2"
    "?read tc = (Inr x, u)"
    "with_instruction_account ic 2 (\<lambda>recipient_account. checked_add_lamports recipient_account x) u = (Inr (), v)"
    "with_instruction_account ic 0 (\<lambda>lookup_table_account.
         bind (set_data_length lookup_table_account 0) (\<lambda>_. set_lamports lookup_table_account 0)) v = (Inr (), tc')"
    by (auto elim!: effect_elims simp del: One_nat_def)
  have u: "u = tc"
  proof -
    have "keeps (=) ?read" by (intro same.keeps_rules keeps_same_with_instruction_account)
    from keeps_sameD [OF this, of tc] run(2) show ?thesis by simp
  qed
  from run(2) obtain t where t: "table_at env tc ?k = Inr t" "lt_authority (alt_meta t) = Some authority"
    "table_status (alt_meta t) (ck_slot clock) slot_hashes = Deactivated" "x = acc_lamports (account_at tc ?k)"
  proof (rule with_instruction_account_okE, goal_cases)
    case (1 b w)
    from 1(7) obtain t where "table_deserialize (le_table env) (get_data b tc) = Inr t" "lt_authority (alt_meta t) = Some authority"
      "table_status (alt_meta t) (ck_slot clock) slot_hashes = Deactivated" "x = get_lamports b tc"
      using assms(3,4) by (auto elim!: effect_elims simp: gets_apply check_authority_ok return_apply split: lookup_table_status.splits)
    then show ?case using 1(1) [of t] 1(4) by (simp add: table_at_def get_data_def get_lamports_def ba_account_def)
  qed
  from run(3) have "unat (2::index_of_account) < length (ic_instruction_accounts ic) \<and> ?r < num_accounts tc \<and>
    unat (acc_lamports (account_at tc ?r)) + unat x < 2 ^ 64 \<and>
    accounts_to tc ((account_at tc)(?r := (account_at tc ?r)\<lparr>acc_lamports := acc_lamports (account_at tc ?r) + x\<rparr>)) v"
    unfolding u
  proof (rule with_instruction_account_okE, goal_cases)
    case (1 b w)
    then show ?case using checked_add_lamports_okE [OF 1(6)] by (simp add: get_lamports_def ba_account_def)
  qed
  then have y: "unat (2::index_of_account) < length (ic_instruction_accounts ic)" "?r < num_accounts tc"
    "unat (acc_lamports (account_at tc ?r)) + unat x < 2 ^ 64"
    "accounts_to tc ((account_at tc)(?r := (account_at tc ?r)\<lparr>acc_lamports := acc_lamports (account_at tc ?r) + x\<rparr>)) v"
    by blast+
  from run(4) have z: "unat (0::index_of_account) < length (ic_instruction_accounts ic) \<and>
    accounts_to v ((account_at v)(?k := (account_at v ?k)\<lparr>acc_data := [], acc_lamports := 0\<rparr>)) tc'"
  proof (rule with_instruction_account_okE, goal_cases)
    case (1 b w)
    from 1(6) obtain s where s: "set_data_length b 0 (set_borrow_at ?k WRITING v) = (Inr (), s)" "set_lamports b 0 s = (Inr (), w)"
      by (auto elim!: bind_okE)
    have s': "accounts_to v ((account_at v)(?k := (account_at v ?k)\<lparr>acc_data := []\<rparr>)) s"
      using set_data_length_okE [OF s(1)] 1(3,5) by (simp add: ba_account_def vec_resize_def)
    then have "ba_index b < num_accounts s" using 1(3,5) by (simp add: accounts_to_def)
    from set_lamports_okE [OF s(2) this] s' 1(1) show ?case
      using 1(3,7) by (simp add: accounts_to_def ba_account_def fun_eq_iff)
  qed
  have "ia_index_in_transaction (ic_instruction_accounts ic ! 0) \<noteq> ia_index_in_transaction (ic_instruction_accounts ic ! 2)"
    using run(1) y(1) z by (auto simp: get_index_of_instruction_account_in_transaction_def vec_get_def split: if_splits)
  then have ne: "?k \<noteq> ?r" by (simp add: word_unat_eq_iff)
  have "accounts_to tc ((account_at tc)
      (?r := (account_at tc ?r)\<lparr>acc_lamports := acc_lamports (account_at tc ?r) + x\<rparr>,
       ?k := (account_at tc ?k)\<lparr>acc_data := [], acc_lamports := 0\<rparr>)) tc'"
    using y(4) z ne by (simp add: accounts_to_def fun_eq_iff)
  then show ?case
    using 1(1,2) t ne y(3) unfolding table_closed_def by blast
qed

subsection \<open>Invoking the system program\<close>

text \<open>The part of the state of a frame that an invocation of the leaf program \<open>p\<close> maintains.\<close>

definition cpi_rel :: "instruction_context \<Rightarrow> pubkey \<Rightarrow> invoke_context \<Rightarrow> invoke_context \<Rightarrow> bool" where
  "cpi_rel ic p iv iv' \<longleftrightarrow>
     (tx_inv (iv_tc iv) \<and> get_current_instruction_context (iv_tc iv) = Inr ic \<and> native_program (iv_tc iv) p \<longrightarrow>
      tx_inv (iv_tc iv') \<and> get_current_instruction_context (iv_tc iv') = Inr ic \<and> native_program (iv_tc iv') p \<and>
      external_kept p (iv_tc iv) (iv_tc iv'))"

interpretation cpi: effect_preorder "cpi_rel ic p" for ic p
  by unfold_locales (auto simp: cpi_rel_def external_kept_refl intro: external_kept_trans)

lemma on_tc_same: "keeps (=) m \<Longrightarrow> on_tc m iv = (r, iv') \<Longrightarrow> iv' = iv"
  using keeps_sameD [of m "iv_tc iv"] by (auto simp: on_tc_def split: prod.splits)

lemma alt_not_system: "alt_program_id \<noteq> system_program_id"
proof
  assume "alt_program_id = system_program_id"
  then have "alt_program_id ! 0 = system_program_id ! 0" by simp
  then show False by (simp add: alt_program_id_def system_program_id_def)
qed

lemma create_checks_owner:
  assumes "create_checks env ic slot bump tc = (Inr (lamports, key, owner, authority, payer), tc')"
  shows "owner = acc_owner (account_at tc (tx_index ic 0)) \<and>
    (le_relax_authority_signer_check env \<or> acc_data (account_at tc (tx_index ic 0)) = [])"
proof -
  from assms obtain s where "with_instruction_account ic 0 (\<lambda>lookup_table_account.
             bind (gets (get_lamports lookup_table_account)) (\<lambda>lamports.
             bind (gets (get_key lookup_table_account)) (\<lambda>table_key.
             bind (gets (get_owner lookup_table_account)) (\<lambda>owner.
             bind (gets (get_data lookup_table_account)) (\<lambda>data.
             bind (fail_if (\<not> le_relax_authority_signer_check env \<and> data \<noteq> []) AccountAlreadyInitialized) (\<lambda>_.
               return (lamports, table_key, owner))))))) tc = (Inr (lamports, key, owner), s)"
    unfolding create_checks_def by (auto elim!: effect_elims simp: return_apply)
  then show ?thesis
  proof (rule with_instruction_account_okE, goal_cases)
    case (1 b u)
    from 1(6) show ?case using 1(3)
      by (auto elim!: effect_elims simp: gets_apply return_apply get_owner_def get_data_def ba_account_def)
  qed
qed

context program_contract begin

lemma keeps_cpi_native_invoke_built:
  assumes "wf_ic ic" "leaf_program programs p"
    and "\<And>ix. built = Some ix \<Longrightarrow> length (ix_accounts ix) < 2 ^ 16 - 1 \<and> ix_program_id ix = p"
  shows "keeps (cpi_rel ic p) (native_invoke_built programs built signers)"
  unfolding native_invoke_built_def
proof (intro keeps_bind_lift cpi.R_refl keepsI)
  fix ix iv
  assume "ok_or built ProgramFailedToComplete = Inr ix"
  then have ix: "length (ix_accounts ix) < 2 ^ 16 - 1" "ix_program_id ix = p" using assms(3) by auto
  obtain r iv' where run: "native_invoke programs ix signers iv = (r, iv')" by (cases "native_invoke programs ix signers iv")
  have "frame_rel ic iv iv'" using native_invoke_frame [OF assms(1) ix(1)] run by (rule keepsD)
  then show "cpi_rel ic p iv (snd (native_invoke programs ix signers iv))"
    using native_invoke_leaf [OF _ _ assms(1) ix(1) _ _ run] assms(2) ix(2) run native_program_rel
    by (auto simp: cpi_rel_def frame_rel_def iv_rel_def)
qed

lemma system_builders:
  "transfer_instruction B from to lamports = Some ix \<Longrightarrow> length (ix_accounts ix) < 2 ^ 16 - 1 \<and> ix_program_id ix = system_program_id"
  "allocate_instruction B key space = Some ix \<Longrightarrow> length (ix_accounts ix) < 2 ^ 16 - 1 \<and> ix_program_id ix = system_program_id"
  "assign_instruction B key owner = Some ix \<Longrightarrow> length (ix_accounts ix) < 2 ^ 16 - 1 \<and> ix_program_id ix = system_program_id"
  by (auto simp: transfer_instruction_def allocate_instruction_def assign_instruction_def new_with_bincode_def
      split: option.splits)

lemma keeps_cpi_allocate:
  assumes "wf_ic ic" "leaf_program programs system_program_id"
  shows "keeps (cpi_rel ic system_program_id) (allocate_table env programs payer key lamports)"
  unfolding allocate_table_def Let_def
  by (intro cpi.keeps_rules keeps_cpi_native_invoke_built assms system_builders)

lemma create_ok:
  assumes run: "create_lookup_table env programs slot bump iv = (Inr (), iv')"
    and wf: "wf_ic ic" and leaf: "leaf_program programs system_program_id"
    and frame: "tx_inv (iv_tc iv)" "get_current_instruction_context (iv_tc iv) = Inr ic" "native_program (iv_tc iv) system_program_id"
    and k: "acc_owner (account_at (iv_tc iv) k) = alt_program_id" "acc_data (account_at (iv_tc iv) k) \<noteq> []"
  shows "acc_data (account_at (iv_tc iv') k) = acc_data (account_at (iv_tc iv) k)"
proof -
  have "keeps (=) (create_checks env ic slot bump)"
    unfolding create_checks_def check_signing_account_def by (intro same.keeps_rules keeps_same_with_instruction_account)
  note same = on_tc_same [OF this]
  have cur: "on_tc (reads get_current_instruction_context) iv = (Inr ic, iv)"
    using frame(2) by (simp add: on_tc_def reads_apply)
  from run cur obtain lamports key owner authority payer s where
    checks: "on_tc (create_checks env ic slot bump) iv = (Inr (lamports, key, owner, authority, payer), s)"
    and "(if le_relax_authority_signer_check env \<and> owner = alt_program_id then return ()
       else
         bind (allocate_table env programs payer key lamports) (\<lambda>_.
         bind (on_tc (reads get_current_instruction_context)) (\<lambda>ic.
           on_tc (with_instruction_account ic 0 (\<lambda>lookup_table_account.
             set_state (le_table env) lookup_table_account (LookupTable (lookup_table_meta_new authority))))))) s = (Inr (), iv')"
    unfolding create_lookup_table_def by (auto elim!: bind_okE)
  note rest = this(2) [unfolded same [OF checks]]
  have owner: "owner = acc_owner (account_at (iv_tc iv) (tx_index ic 0)) \<and>
    (le_relax_authority_signer_check env \<or> acc_data (account_at (iv_tc iv) (tx_index ic 0)) = [])"
    using checks by (auto simp: on_tc_def split: prod.splits dest: create_checks_owner)
  show ?thesis
  proof (cases "le_relax_authority_signer_check env \<and> owner = alt_program_id")
    case True
    then show ?thesis using rest by (simp add: return_apply)
  next
    case False
    then have ne: "k \<noteq> tx_index ic 0" using owner k by auto
    from False rest have "bind (allocate_table env programs payer key lamports) (\<lambda>_.
         bind (on_tc (reads get_current_instruction_context)) (\<lambda>ic.
           on_tc (with_instruction_account ic 0 (\<lambda>lookup_table_account.
             set_state (le_table env) lookup_table_account (LookupTable (lookup_table_meta_new authority)))))) iv = (Inr (), iv')"
      by (simp only: if_False)
    then obtain x u where u: "allocate_table env programs payer key lamports iv = (Inr x, u)"
      "bind (on_tc (reads get_current_instruction_context)) (\<lambda>ic.
           on_tc (with_instruction_account ic 0 (\<lambda>lookup_table_account.
             set_state (le_table env) lookup_table_account (LookupTable (lookup_table_meta_new authority))))) u = (Inr (), iv')"
      by (rule bind_okE)
    have "cpi_rel ic system_program_id iv u" using keeps_cpi_allocate [OF wf leaf] u(1) by (rule keepsD)
    then have kept: "external_kept system_program_id (iv_tc iv) (iv_tc u)"
      "get_current_instruction_context (iv_tc u) = Inr ic" using frame by (simp_all add: cpi_rel_def)
    have 1: "acc_data (account_at (iv_tc u) k) = acc_data (account_at (iv_tc iv) k)"
      using kept(1) k(1) alt_not_system by (simp add: external_kept_def)
    have "with_instruction_account ic 0 (\<lambda>b. set_state (le_table env) b (LookupTable (lookup_table_meta_new authority)))
        (iv_tc u) = (Inr (), iv_tc iv')"
      using u(2) kept(2) by (auto simp: bind_apply on_tc_def reads_apply split: prod.splits)
    then have "account_at (iv_tc iv') k = account_at (iv_tc u) k"
    proof (rule with_instruction_account_okE, goal_cases)
      case (1 b w)
      from set_state_okE [OF 1(6)] 1(3,5) obtain bs where
        "accounts_to (iv_tc u) ((account_at (iv_tc u))(tx_index ic 0 := (ba_account b (iv_tc u))\<lparr>acc_data := bs\<rparr>)) w"
        by auto
      then show ?case using ne 1(7) by (simp add: accounts_to_def)
    qed
    then show ?thesis using 1 by simp
  qed
qed

lemma extend_ok:
  assumes run: "extend_lookup_table env programs ks iv = (Inr (), iv')"
    and wf: "wf_ic ic" and leaf: "leaf_program programs system_program_id" and laws: "table_laws (le_table env)"
    and frame: "tx_inv (iv_tc iv)" "get_current_instruction_context (iv_tc iv) = Inr ic" "native_program (iv_tc iv) system_program_id"
    and clock: "get_clock (le_sysvar_cache env) = Inr clock" and ks: "\<forall>k\<in>set ks. wf_key k" "length ks < 2 ^ 63"
  obtains u where "table_change env ic (ck_slot clock) (iv_tc iv) u" "external_kept system_program_id u (iv_tc iv')"
proof -
  have cur: "on_tc (reads get_current_instruction_context) iv = (Inr ic, iv)"
    using frame(2) by (simp add: on_tc_def reads_apply)
  from run cur obtain key s authority s' lamports len v where 1: "on_tc (check_table_owner ic) iv = (Inr key, s)"
    "on_tc (check_signing_account ic 1 True) s = (Inr authority, s')"
    "on_tc (extend_table_account env ic ks authority) s' = (Inr (lamports, len), v)"
    and rest: "fund_table env programs ic key lamports len v = (Inr (), iv')"
    unfolding extend_lookup_table_def by (auto elim!: bind_okE)
  have sub: "\<exists>t. m (iv_tc w) = (r, t) \<and> w' = w\<lparr>iv_transaction_context := t\<rparr>" if "on_tc m w = (r, w')" for m w and r :: "instruction_error + 'x" and w'
    using that by (auto simp: on_tc_def split: prod.splits)
  obtain t where t: "check_table_owner ic (iv_tc iv) = (Inr key, t)" "s = iv\<lparr>iv_transaction_context := t\<rparr>" using sub [OF 1(1)] by blast
  note o = check_table_owner_ok [OF t(1)]
  have "s = iv" using t(2) o(1) by simp
  obtain t' where t': "check_signing_account ic 1 True (iv_tc iv) = (Inr authority, t')" "s' = iv\<lparr>iv_transaction_context := t'\<rparr>"
    using sub [OF 1(2)] \<open>s = iv\<close> by blast
  note a = check_signing_account_ok [OF t'(1) wf]
  have "s' = iv" using t'(2) a(1) by simp
  obtain u where u: "extend_table_account env ic ks authority (iv_tc iv) = (Inr (lamports, len), u)" "iv_tc v = u"
    using sub [OF 1(3)] \<open>s' = iv\<close> by auto
  have change: "table_change env ic (ck_slot clock) (iv_tc iv) u"
    using extend_table_account_ok [OF u(1) laws a(2) o(2) clock ks] .
  have "keeps (frame_rel ic) (on_tc (extend_table_account env ic ks authority))"
    using keeps_frame_safe [OF keeps_extend_table_account [OF wf]] .
  then have "frame_rel ic iv v" using 1(3) \<open>s' = iv\<close> by (auto dest: keepsD)
  then have v: "tx_inv (iv_tc v)" "get_current_instruction_context (iv_tc v) = Inr ic" "native_program (iv_tc v) system_program_id"
    using frame native_program_rel by (auto simp: frame_rel_def iv_rel_def)
  have sign: "keeps (cpi_rel ic system_program_id) (on_tc (check_signing_account ic 2 True))"
  proof -
    have "keeps (=) (check_signing_account ic 2 True)"
      unfolding check_signing_account_def by (intro same.keeps_rules keeps_same_with_instruction_account)
    from on_tc_same [OF this] show ?thesis by (metis cpi.R_refl keepsI prod.collapse)
  qed
  have "keeps (cpi_rel ic system_program_id) (fund_table env programs ic key lamports len)"
    unfolding fund_table_def Let_def
    by (intro cpi.keeps_rules sign keeps_cpi_native_invoke_built wf leaf system_builders)
  then have "cpi_rel ic system_program_id v iv'" using rest by (rule keepsD)
  then have "external_kept system_program_id (iv_tc v) (iv_tc iv')" using v by (simp add: cpi_rel_def)
  then show thesis using that change u(2) by simp
qed

lemma alt_tables:
  assumes run: "alt_process_instruction env programs iv = (Inr (), iv')"
    and leaf: "leaf_program programs system_program_id" and laws: "table_laws (le_table env)"
    and frame: "tx_inv (iv_tc iv)" "get_current_instruction_context (iv_tc iv) = Inr ic" "wf_ic ic"
      "native_program (iv_tc iv) system_program_id"
    and cache: "get_clock (le_sysvar_cache env) = Inr clock" "get_slot_hashes (le_sysvar_cache env) = Inr slot_hashes"
    and decode: "\<forall>d ks. le_decode env PACKET_DATA_SIZE d = Some (ExtendLookupTable ks) \<longrightarrow> (\<forall>k\<in>set ks. wf_key k) \<and> length ks < 2 ^ 63"
    and k: "acc_owner (account_at (iv_tc iv) k) = alt_program_id" "table_at env (iv_tc iv) k = Inr t"
  shows "acc_data (account_at (iv_tc iv') k) = acc_data (account_at (iv_tc iv) k) \<or>
    (k = tx_index ic 0 \<and> (\<exists>authority. signed_by ic 1 (iv_tc iv) authority \<and> lt_authority (alt_meta t) = Some authority \<and>
      ((\<exists>t'. table_step authority (ck_slot clock) t t' \<and> table_at env (iv_tc iv') k = Inr t') \<or>
       (table_status (alt_meta t) (ck_slot clock) slot_hashes = Deactivated \<and>
        acc_data (account_at (iv_tc iv') k) = [] \<and> acc_lamports (account_at (iv_tc iv') k) = 0))))"
    (is "?same \<or> ?changed")
proof -
  let ?tc = "iv_tc iv"
  have change: "?same \<or> ?changed" if "table_change env ic (ck_slot clock) ?tc u"
    and kept: "acc_owner (account_at u k) = alt_program_id \<Longrightarrow> acc_data (account_at (iv_tc iv') k) = acc_data (account_at u k)" for u
  proof -
    from that(1) obtain authority t0 t1 d where c: "signed_by ic 1 ?tc authority"
      "table_at env ?tc (tx_index ic 0) = Inr t0" "table_step authority (ck_slot clock) t0 t1"
      "table_deserialize (le_table env) d = Inr t1"
      "account_at u = (account_at ?tc)(tx_index ic 0 := (account_at ?tc (tx_index ic 0))\<lparr>acc_data := d\<rparr>)"
      unfolding table_change_def accounts_to_def by blast
    have data: "acc_data (account_at (iv_tc iv') k) = acc_data (account_at u k)" using kept k(1) c(5) by (cases "k = tx_index ic 0") simp_all
    show ?thesis
    proof (cases "k = tx_index ic 0")
      case True
      then have "t0 = t" "table_at env (iv_tc iv') k = Inr t1" using c k(2) data by (simp_all add: table_at_def)
      moreover have "lt_authority (alt_meta t0) = Some authority" using c(3) by (cases rule: table_stepE) auto
      ultimately show ?thesis using c True by blast
    qed (use data c(5) in simp)
  qed
  have cur: "on_tc (reads get_current_instruction_context) iv = (Inr ic, iv)"
    using frame(2) by (simp add: on_tc_def reads_apply)
  from run cur obtain instruction where dec: "le_decode env PACKET_DATA_SIZE (ic_instruction_data ic) = Some instruction"
    and step: "(case instruction of
         CreateLookupTable recent_slot bump_seed \<Rightarrow> create_lookup_table env programs recent_slot bump_seed
       | FreezeLookupTable \<Rightarrow> on_tc (freeze_lookup_table env ic)
       | ExtendLookupTable new_addresses \<Rightarrow> extend_lookup_table env programs new_addresses
       | DeactivateLookupTable \<Rightarrow> on_tc (deactivate_lookup_table env ic)
       | CloseLookupTable \<Rightarrow> on_tc (close_lookup_table env ic)) iv = (Inr (), iv')"
    unfolding alt_process_instruction_def
    by (auto elim!: bind_okE lift_okE simp: limited_deserialize_def)
  have on: "m ?tc = (Inr (), iv_tc iv')" if "on_tc m iv = (Inr (), iv')" for m :: "unit tc_effect"
    using that by (auto simp: on_tc_def split: prod.splits)
  show ?thesis
  proof (cases instruction)
    case (CreateLookupTable slot bump)
    have "acc_data (account_at ?tc k) \<noteq> []"
      using table_deserialize_ok(2) [OF k(2) [unfolded table_at_def]] by (auto simp: LOOKUP_TABLE_META_SIZE_def)
    then show ?thesis using create_ok [OF _ frame(3) leaf frame(1,2,4) k(1)] step CreateLookupTable by auto
  next
    case FreezeLookupTable
    with step have "freeze_lookup_table env ic ?tc = (Inr (), iv_tc iv')" by (intro on) simp
    then show ?thesis using change [of "iv_tc iv'"] freeze_ok [OF _ frame(3) laws] by simp
  next
    case (ExtendLookupTable ks)
    then have ks: "\<forall>k\<in>set ks. wf_key k" "length ks < 2 ^ 63" using decode dec by blast+
    from step ExtendLookupTable have "extend_lookup_table env programs ks iv = (Inr (), iv')" by simp
    from extend_ok [OF this frame(3) leaf laws frame(1,2,4) cache(1) ks] obtain u
      where "table_change env ic (ck_slot clock) ?tc u" "external_kept system_program_id u (iv_tc iv')" .
    then show ?thesis using change [of u] alt_not_system by (auto simp: external_kept_def)
  next
    case DeactivateLookupTable
    with step have "deactivate_lookup_table env ic ?tc = (Inr (), iv_tc iv')" by (intro on) simp
    then show ?thesis using change [of "iv_tc iv'"] deactivate_ok [OF _ frame(3) laws cache(1)] by simp
  next
    case CloseLookupTable
    with step have "close_lookup_table env ic ?tc = (Inr (), iv_tc iv')" by (intro on) simp
    then have "table_closed env ic (ck_slot clock) slot_hashes ?tc (iv_tc iv')"
      using close_ok [OF _ frame(3) cache] by simp
    then obtain authority t0 where "signed_by ic 1 ?tc authority" "table_at env ?tc (tx_index ic 0) = Inr t0"
      "lt_authority (alt_meta t0) = Some authority" "table_status (alt_meta t0) (ck_slot clock) slot_hashes = Deactivated"
      "\<exists>v. account_at (iv_tc iv') = (account_at ?tc)
          (tx_index ic 2 := (account_at ?tc (tx_index ic 2))\<lparr>acc_lamports := v\<rparr>,
           tx_index ic 0 := (account_at ?tc (tx_index ic 0))\<lparr>acc_data := [], acc_lamports := 0\<rparr>)"
      unfolding table_closed_def accounts_to_def by blast
    then show ?thesis using k(2) by (cases "k = tx_index ic 0"; cases "k = tx_index ic 2") auto
  qed
qed

end

end
