(* ===== verification/Account_Ready.thy ===== *)
theory Account_Ready
  imports Program_Contract
begin

section \<open>When handlers succeed\<close>

text \<open>
  The counterpart of the rules for successful runs: equations for a context in which an instruction starts, with all
  accounts of the instruction present and none borrowed. There a borrow fails only for a position that the
  instruction does not have, so that the conditions under which a handler succeeds can be computed.
\<close>

definition ready :: "instruction_context \<Rightarrow> transaction_context \<Rightarrow> bool" where
  "ready ic tc \<longleftrightarrow> (\<forall>ia\<in>set (ic_instruction_accounts ic). unat (ia_index_in_transaction ia) < num_accounts tc) \<and>
     (\<forall>k<num_accounts tc. borrow_flags tc ! k = UNUSED) \<and>
     length (touched tc) = num_accounts tc \<and> length (tc_account_keys tc) = num_accounts tc"

definition handle :: "instruction_context \<Rightarrow> index_of_account \<Rightarrow> borrowed_account" where
  "handle ic i = \<lparr>ba_instruction_context = ic, ba_index_in_transaction = ia_index_in_transaction (ic_instruction_accounts ic ! unat i),
     ba_index_in_instruction = saturating_add (get_number_of_program_accounts ic) i\<rparr>"

lemma handle_fields [simp]:
  "ba_instruction_context (handle ic i) = ic" "ba_index (handle ic i) = tx_index ic i"
  by (simp_all add: handle_def)

lemma handle_flags:
  assumes "wf_ic ic" "unat i < length (ic_instruction_accounts ic)"
  shows "is_signer (handle ic i) = ia_is_signer (ic_instruction_accounts ic ! unat i)"
    "is_writable (handle ic i) = ia_is_writable (ic_instruction_accounts ic ! unat i)"
  using is_writable_instruction_handle [OF assms, of "handle ic i"] by (simp_all add: handle_def)

lemma get_key_handle: "get_key (handle ic i) (set_borrow_at k f tc) = tc_account_keys tc ! tx_index ic i"
  by (simp add: get_key_def set_borrow_at_def)

lemma ready_index: "ready ic tc \<Longrightarrow> unat i < length (ic_instruction_accounts ic) \<Longrightarrow> tx_index ic i < num_accounts tc"
  by (simp add: ready_def)

lemma ready_free: "ready ic tc \<Longrightarrow> k < num_accounts tc \<Longrightarrow> rc_borrow (ta_accounts (tc_accounts tc) ! k) = UNUSED"
  by (simp add: ready_def borrow_flags_def)

lemma key_of_ready:
  assumes "ready ic tc" "unat i < length (ic_instruction_accounts ic)"
  shows "key_of_instruction_account ic i tc = Inr (tc_account_keys tc ! tx_index ic i)"
  using ready_index [OF assms] assms
  by (simp add: ready_def key_of_instruction_account_def get_index_of_instruction_account_in_transaction_def
      get_key_of_account_at_index_def vec_get_def)

lemma try_borrow_ready:
  assumes "ready ic tc"
  shows "try_borrow_instruction_account ic i tc =
    (if unat i < length (ic_instruction_accounts ic) then (Inr (handle ic i), set_borrow_at (tx_index ic i) WRITING tc)
     else (Inl NotEnoughAccountKeys, tc))"
  using ready_index [OF assms, of i] ready_free [OF assms]
  by (simp add: try_borrow_instruction_account_def try_borrow_account_def effect_simps handle_def
      get_index_of_instruction_account_in_transaction_def ta_get_def vec_get_def)

lemma with_account_ready:
  assumes "ready ic tc"
  shows "with_instruction_account ic i body tc =
    (if unat i < length (ic_instruction_accounts ic)
     then map_prod id (set_borrow_at (tx_index ic i) UNUSED) (body (handle ic i) (set_borrow_at (tx_index ic i) WRITING tc))
     else (Inl NotEnoughAccountKeys, tc))"
  by (simp add: with_instruction_account_def bind_apply try_borrow_ready [OF assms] finally_do_apply drop_account_def
      map_prod_def split: prod.split)

text \<open>A body that only reads leaves the context as it was.\<close>

lemma with_account_reading:
  assumes "ready ic tc" "unat i < length (ic_instruction_accounts ic)"
    and "body (handle ic i) (set_borrow_at (tx_index ic i) WRITING tc) = (r, set_borrow_at (tx_index ic i) WRITING tc)"
  shows "with_instruction_account ic i body tc = (r, tc)"
  using assms(2,3) set_borrow_at_undo [OF ready_index [OF assms(1,2)] ready_free [OF assms(1) ready_index [OF assms(1,2)]]]
  by (simp add: with_account_ready [OF assms(1)])

lemma is_ok_bind: "is_ok (fst (bind m f s)) \<longleftrightarrow> (\<exists>x s'. m s = (Inr x, s') \<and> is_ok (fst (f x s')))"
  by (auto simp: bind_apply split: prod.split sum.split)

text \<open>A program may write the data of an account that it owns, that is writable and that is not executable.\<close>

lemma can_data_be_changed_iff:
  assumes "wf_ic ic" "unat i < length (ic_instruction_accounts ic)" "get_last_program_key ic tc = Inr program"
  shows "can_data_be_changed (handle ic i) tc = Inr () \<longleftrightarrow>
    \<not> acc_executable (account_at tc (tx_index ic i)) \<and> ia_is_writable (ic_instruction_accounts ic ! unat i) \<and>
    acc_owner (account_at tc (tx_index ic i)) = program"
  using handle_flags [OF assms(1,2)] assms(3)
  by (auto simp: can_data_be_changed_def is_executable_def is_owned_by_current_program_def get_owner_def ba_account_def)

lemma last_program_set_borrow [simp]: "get_last_program_key ic (set_borrow_at k f tc) = get_last_program_key ic tc"
  by (simp add: get_last_program_key_def get_key_of_account_at_index_def set_borrow_at_def)

text \<open>The program can store the state \<open>st\<close> in an account: it may write the data, and the encoding fits.\<close>

definition storable :: "'a bincode \<Rightarrow> instruction_context \<Rightarrow> index_of_account \<Rightarrow> 'a \<Rightarrow> transaction_context \<Rightarrow> bool" where
  "storable B ic i st tc \<longleftrightarrow>
     (let a = account_at tc (tx_index ic i) in
      get_last_program_key ic tc = Inr (acc_owner a) \<and> \<not> acc_executable a \<and> ia_is_writable (ic_instruction_accounts ic ! unat i) \<and>
      (\<exists>size bs. bc_serialized_size B st = Some size \<and> size \<le> of_nat (length (acc_data a)) \<and> bc_serialize_into B st (acc_data a) = Some bs))"

lemma set_state_ready:
  assumes "ready ic tc" "wf_ic ic" "unat i < length (ic_instruction_accounts ic)" "storable B ic i st tc"
  obtains bs where "bc_serialize_into B st (acc_data (account_at tc (tx_index ic i))) = Some bs"
    "set_state B (handle ic i) st (set_borrow_at (tx_index ic i) WRITING tc) =
      (Inr (), update_account_at (tx_index ic i) (\<lambda>a. a\<lparr>acc_data := slice_write (acc_data a) bs\<rparr>)
        (mark_touched (tx_index ic i) (set_borrow_at (tx_index ic i) WRITING tc)))"
proof -
  let ?i = "tx_index ic i" and ?t = "set_borrow_at (tx_index ic i) WRITING tc"
  from assms(4) obtain size bs where codec: "bc_serialized_size B st = Some size" "size \<le> of_nat (length (acc_data (account_at tc ?i)))"
    "bc_serialize_into B st (acc_data (account_at tc ?i)) = Some bs"
    by (auto simp: storable_def Let_def)
  have "can_data_be_changed (handle ic i) ?t = Inr ()"
    using can_data_be_changed_iff [OF assms(2,3), of ?t] assms(4) by (simp add: storable_def Let_def)
  moreover have "?i < length (touched tc)" using ready_index [OF assms(1,3)] assms(1) by (simp add: ready_def)
  ultimately have "set_state B (handle ic i) st ?t =
      (Inr (), update_account_at ?i (\<lambda>a. a\<lparr>acc_data := slice_write (acc_data a) bs\<rparr>) (mark_touched ?i ?t))"
    using codec by (simp add: set_state_def get_data_mut_def effect_simps touch_eval get_data_def ba_account_def write_data_def
        update_account_def ok_or_def not_less)
  then show thesis using codec(3) by (rule that [rotated])
qed

end
