(* ===== verification/Example_Context.thy ===== *)
theory Example_Context
  imports System_Program
begin

section \<open>A concrete transaction\<close>

text \<open>
  A transaction context with an instruction of the system program on its stack, and concrete
  functions for the parameters of the model: the codecs in the layout of bincode and a stand-in
  for the hash function with 32-byte results. The properties are evaluated on it.
\<close>

definition example_sha256 :: "bytes \<Rightarrow> hash" where
  "example_sha256 bs = take 32 (bs @ replicate 32 0)"

definition example_env :: invoke_env where
  "example_env = \<lparr>env_sha256 = example_sha256, env_nonce = nonce_codec, env_decode = limited_decode,
     env_blockhash = replicate 32 9, env_lamports_per_signature = 5000,
     env_sysvar_cache = sysvar_cache_default\<lparr>sc_rent := Some rent_default,
       sc_recent_blockhashes := Some [(replicate 32 9, 5000)]\<rparr>,
     env_logging = True\<rparr>"

definition example_ic :: "instruction_account list \<Rightarrow> bytes \<Rightarrow> instruction_context" where
  "example_ic instruction_accounts data =
     \<lparr>ic_nesting_level = 0, ic_instruction_accounts_lamport_sum = 0, ic_program_accounts = [0],
      ic_instruction_accounts = instruction_accounts, ic_instruction_data = data\<rparr>"

definition example_context ::
  "(pubkey \<times> account) list \<Rightarrow> instruction_account list \<Rightarrow> bytes \<Rightarrow> transaction_context" where
  "example_context accounts instruction_accounts data =
     \<lparr>tc_account_keys = map fst accounts, tc_accounts = ta_new (map (refcell_new \<circ> snd) accounts),
      tc_instruction_stack_capacity = 5, tc_instruction_trace_capacity = 64,
      tc_instruction_stack = [0],
      tc_instruction_trace = [example_ic instruction_accounts data, ic_default],
      tc_return_data = \<lparr>rd_program_id = replicate 32 0, rd_data = []\<rparr>,
      tc_accounts_resize_delta = 0, tc_rent = rent_default\<rparr>"

definition example_meta :: "nat \<Rightarrow> bool \<Rightarrow> bool \<Rightarrow> instruction_account" where
  "example_meta i signer writable =
     \<lparr>ia_index_in_transaction = of_nat i, ia_index_in_caller = of_nat i, ia_index_in_callee = of_nat i,
      ia_is_signer = signer, ia_is_writable = writable\<rparr>"

definition example_accounts :: "(pubkey \<times> account) list" where
  "example_accounts =
     [(system_program_id, account_new 1 0 native_loader_id),
      (replicate 32 1, account_new 1000 0 system_program_id),
      (replicate 32 2, account_new 0 0 system_program_id)]"

definition example_metas :: "instruction_account list" where
  "example_metas = [example_meta 1 True True, example_meta 2 True True]"

abbreviation example_tx :: "system_instruction \<Rightarrow> transaction_context" where
  "example_tx instruction \<equiv>
     example_context example_accounts example_metas (enc_system_instruction instruction)"

lemma current_example:
  "get_current_instruction_context (example_context accounts metas d) = Inr (example_ic metas d)"
  by (simp add: get_current_instruction_context_def example_context_def get_instruction_context_stack_height_def
      get_instruction_context_at_nesting_level_def get_instruction_context_at_index_in_trace_def vec_get_def)

lemma signers_example:
  "get_signers (example_ic example_metas d) (example_context example_accounts example_metas d) =
     Inr [replicate 32 2, replicate 32 1]"
  by (simp add: get_signers_def example_ic_def example_metas_def example_meta_def example_context_def
      get_key_of_account_at_index_def vec_get_def example_accounts_def List.insert_def)

lemma limited_decode_example:
  assumes "wf_system_instruction x" "length (enc_system_instruction x) \<le> 1232"
  shows "limited_deserialize (env_decode example_env) (ic_instruction_data (example_ic metas (enc_system_instruction x))) = Inr x"
  using limited_decode_enc [of x PACKET_DATA_SIZE "[]"] assms
  by (simp add: limited_deserialize_def PACKET_DATA_SIZE_def example_env_def example_ic_def)

lemma system_process_example:
  assumes "wf_system_instruction x" "length (enc_system_instruction x) \<le> 1232"
  shows "system_process_instruction example_env (example_tx x) =
    execute_instruction example_env (example_ic example_metas (enc_system_instruction x))
      [replicate 32 2, replicate 32 1] x (example_tx x)"
  unfolding system_process_instruction_def
  by (simp add: effect_simps current_example limited_decode_example [OF assms] signers_example)

text \<open>The definitions a run of a handler unfolds to.\<close>

lemmas example_eval = example_ic_def example_context_def example_metas_def example_meta_def
  example_accounts_def ta_new_def refcell_new_def account_new_def effect_simps vec_get_def
  check_number_of_instruction_accounts_def get_number_of_instruction_accounts_def
  get_number_of_program_accounts_def is_instruction_account_signer_def is_instruction_account_writable_def
  get_index_of_instruction_account_in_transaction_def get_index_of_program_account_in_transaction_def
  get_key_of_account_at_index_def get_last_program_key_def key_of_instruction_account_def
  with_instruction_account_def try_borrow_instruction_account_def try_borrow_account_def drop_account_def
  ta_get_def ta_touch_def set_borrow_at_def update_account_at_def update_account_def account_at_def
  get_lamports_def get_data_def get_owner_def ba_account_def is_executable_def is_writable_def is_signer_def
  is_owned_by_current_program_def touch_def set_lamports_def checked_add_lamports_def checked_sub_lamports_def
  checked_add_def checked_sub_def saturating_add_def saturating_sub_def

lemma transfer_example_run:
  "\<exists>tc'. system_process_instruction example_env (example_tx (Transfer 5)) = (Inr (), tc') \<and>
     acc_lamports (account_at tc' 1) = 995 \<and> acc_lamports (account_at tc' 2) = 5"
proof -
  have "length (enc_system_instruction (Transfer 5)) \<le> 1232" by (simp add: put_u64_def)
  then show ?thesis
    by (simp only: system_process_example [of "Transfer 5"] wf_system_instruction.simps)
      (simp add: example_eval transfer_def transfer_verified_def del: enc_system_instruction.simps)
qed

lemma assign_example_run:
  "\<exists>tc'. system_process_instruction example_env (example_tx (Assign (replicate 32 8))) = (Inr (), tc') \<and>
     acc_owner (account_at tc' 1) = replicate 32 8"
proof -
  have ne: "replicate 32 8 \<noteq> system_program_id"
    by (rule notI, drule arg_cong [of _ _ hd]) (simp add: system_program_id_def)
  have "length (enc_system_instruction (Assign (replicate 32 8))) \<le> 1232"
    "wf_system_instruction (Assign (replicate 32 8))" by (simp_all add: wf_key_def PUBKEY_BYTES_def)
  then show ?thesis
    by (simp only: system_process_example [of "Assign (replicate 32 8)"])
      (simp add: example_eval instruction_account_address_def address_create_def assign_def set_owner_def
        address_is_signer_def ne [symmetric] is_zeroed_iff del: enc_system_instruction.simps)
qed

subsection \<open>A nonce account\<close>

definition example_nonce :: nonce_versions where
  "example_nonce = Current (Initialized (nonce_data_new (replicate 32 3) (replicate 32 7) 5000))"

definition example_nonce_accounts :: "(pubkey \<times> account) list" where
  "example_nonce_accounts =
     [(system_program_id, account_new 1 0 native_loader_id),
      (replicate 32 4, (account_new 2000000 0 system_program_id)\<lparr>acc_data := enc_versions example_nonce\<rparr>),
      (sysvar_recent_blockhashes_id, account_default),
      (replicate 32 3, account_default)]"

definition example_nonce_metas :: "instruction_account list" where
  "example_nonce_metas = [example_meta 1 False True, example_meta 2 False False, example_meta 3 True False]"

abbreviation example_nonce_tx :: "system_instruction \<Rightarrow> transaction_context" where
  "example_nonce_tx instruction \<equiv>
     example_context example_nonce_accounts example_nonce_metas (enc_system_instruction instruction)"

definition example_advanced :: nonce_versions where
  "example_advanced = Current (Initialized (nonce_data_new (replicate 32 3)
     (durable_nonce_from_blockhash example_sha256 (replicate 32 9)) 5000))"

lemma length_example_nonce: "length (enc_versions example_nonce) = 80"
  "length (enc_versions example_advanced) = 80"
  by (simp_all add: example_nonce_def example_advanced_def nonce_data_new_def
      durable_nonce_from_blockhash_def hashv_def example_sha256_def)

lemma decode_example_nonce:
  "bc_deserialize nonce_codec (enc_versions example_nonce) = Some example_nonce"
  "bc_deserialize nonce_codec (enc_versions example_advanced) = Some example_advanced"
  using dec_enc_versions [of example_nonce "[]"] dec_enc_versions [of example_advanced "[]"]
  by (simp_all add: nonce_codec_def fixint_codec_def wf_nonce_versions_def example_nonce_def
      example_advanced_def nonce_data_new_def wf_key_def PUBKEY_BYTES_def durable_nonce_from_blockhash_def
      hashv_def example_sha256_def)

lemma store_example_nonce:
  "bc_serialized_size nonce_codec example_advanced = Some 80"
  "length d = 80 \<Longrightarrow> bc_serialize_into nonce_codec example_advanced d = Some (enc_versions example_advanced)"
  by (simp_all add: nonce_codec_def fixint_codec_def length_example_nonce)

lemma signers_nonce_example:
  "get_signers (example_ic example_nonce_metas d) (example_context example_nonce_accounts example_nonce_metas d) =
     Inr [replicate 32 3]"
  by (simp add: get_signers_def example_ic_def example_nonce_metas_def example_meta_def example_context_def
      get_key_of_account_at_index_def vec_get_def example_nonce_accounts_def)

lemma nonce_process_example:
  assumes "wf_system_instruction x" "length (enc_system_instruction x) \<le> 1232"
  shows "system_process_instruction example_env (example_nonce_tx x) =
    execute_instruction example_env (example_ic example_nonce_metas (enc_system_instruction x))
      [replicate 32 3] x (example_nonce_tx x)"
  unfolding system_process_instruction_def
  by (simp add: effect_simps current_example limited_decode_example [OF assms] signers_nonce_example)

lemmas nonce_eval = example_eval example_nonce_metas_def example_nonce_accounts_def
  checked_recent_blockhashes_def check_sysvar_account_def get_recent_blockhashes_def sysvar_cache_default_def
  get_state_def set_state_def get_data_mut_def can_data_be_changed_def write_data_def
  length_example_nonce decode_example_nonce store_example_nonce slice_write_same_length

lemma advance_example_step:
  "nonce_data_new (replicate 32 3) (durable_nonce_from_blockhash example_sha256 (replicate 32 9)) 5000 = d \<Longrightarrow>
   versions_new (Initialized d) = example_advanced" "versions_state example_nonce =
     Initialized (nonce_data_new (replicate 32 3) (replicate 32 7) 5000)"
  by (auto simp: example_advanced_def versions_new_def example_nonce_def)

lemma advance_example_run:
  "\<exists>tc'. system_process_instruction example_env (example_nonce_tx AdvanceNonceAccount) = (Inr (), tc') \<and>
     acc_data (account_at tc' 1) = enc_versions example_advanced"
proof -
  have ne: "replicate 32 7 \<noteq> durable_nonce_from_blockhash example_sha256 (replicate 32 9)"
    by (rule notI, drule arg_cong [of _ _ hd])
      (simp add: durable_nonce_from_blockhash_def hashv_def example_sha256_def DURABLE_NONCE_HASH_PREFIX_def)
  have d: "nd_authority (nonce_data_new a n f) = a" "nd_durable_nonce (nonce_data_new a n f) = n" for a n f
    by (simp_all add: nonce_data_new_def)
  have "length (enc_system_instruction AdvanceNonceAccount) \<le> 1232" by simp
  then show ?thesis
    by (simp only: nonce_process_example [of AdvanceNonceAccount] wf_system_instruction.simps)
      (simp add: nonce_eval advance_nonce_account_def example_env_def advance_example_step d ne
        del: enc_system_instruction.simps)
qed

end
