(* ===== verification/Config_Properties.thy ===== *)
theory Config_Properties
  imports Config_Program Account_Ready Example_Context
begin

section \<open>Who can change a config account\<close>

text \<open>
  A successful update is signed by every new signer, and by every stored signer as long as the new
  list does not name the config account itself. With that name the guarantee is lost: the account's
  own signature stands in for one of the stored signers. The exact condition for an update shows how.
\<close>

definition key_signed :: "instruction_context \<Rightarrow> transaction_context \<Rightarrow> pubkey \<Rightarrow> bool" where
  "key_signed ic tc k \<longleftrightarrow> (\<exists>ia\<in>set (ic_instruction_accounts ic). ia_is_signer ia \<and>
     tc_account_keys tc ! unat (ia_index_in_transaction ia) = k)"

lemma keeps_same_with_account_or:
  assumes "\<And>b. keeps (=) (body b)"
  shows "keeps (=) (with_account_or ic i e body)"
proof (rule keepsI)
  fix tc
  have w: "snd (with_instruction_account ic i body tc) = tc"
    by (rule keeps_sameD) (rule keeps_same_with_instruction_account [OF assms])
  show "tc = snd (with_account_or ic i e body tc)"
    using w try_borrow_instruction_account_err [of ic i tc]
    by (auto simp: with_account_or_def with_instruction_account_def bind_apply split: prod.splits sum.splits)
qed

lemma keeps_same_check_new_signers: "keeps (=) (check_new_signers ic key signs current ks n)"
proof (induction ks arbitrary: n)
  case (Cons k ks)
  then show ?case unfolding check_new_signers.simps Let_def
    by (intro same.keeps_rules keeps_same_with_account_or)
qed (simp add: same.keeps_return)

lemma with_account_or_okE:
  assumes "with_account_or ic i e body tc = (Inr x, tc')"
  obtains b u where "unat i < length (ic_instruction_accounts ic)" "ba_instruction_context b = ic"
    "ba_index b = tx_index ic i" "ba_index_in_instruction b = saturating_add (get_number_of_program_accounts ic) i"
    "body b (set_borrow_at (tx_index ic i) WRITING tc) = (Inr x, u)"
proof -
  have "with_instruction_account ic i body tc = (Inr x, tc')"
    using assms by (auto simp: with_account_or_def with_instruction_account_def bind_apply split: prod.splits sum.splits)
  then show thesis by (rule with_instruction_account_okE) (use that in blast)
qed

lemma check_new_signers_ok:
  assumes "check_new_signers ic key signs current ks n tc = (Inr c, tc')" "wf_ic ic"
  shows "c = n + length ks \<and> (\<forall>k\<in>set ks. (k = key \<and> signs) \<or>
    (k \<noteq> key \<and> key_signed ic tc k \<and> (current = [] \<or> k \<in> set (signer_keys current))))"
  using assms(1)
proof (induction ks arbitrary: n)
  case (Cons k ks)
  from Cons.prems obtain x s where step: "(if k \<noteq> key
            then with_account_or ic (of_nat (n + 1)) MissingRequiredSignature (\<lambda>signer_account.
                   bind (fail_if (\<not> is_signer signer_account) MissingRequiredSignature) (\<lambda>_.
                   bind (gets (get_key signer_account)) (\<lambda>key.
                   bind (fail_if (key \<noteq> k) MissingRequiredSignature) (\<lambda>_.
                     fail_if (current \<noteq> [] \<and> k \<notin> set (signer_keys current)) MissingRequiredSignature))))
            else fail_if (\<not> signs) MissingRequiredSignature) tc = (Inr x, s)"
    "check_new_signers ic key signs current ks (n + 1) s = (Inr c, tc')"
    unfolding check_new_signers.simps Let_def by (rule bind_okE)
  have s: "s = tc"
  proof -
    have "keeps (=) (if k \<noteq> key
            then with_account_or ic (of_nat (n + 1)) MissingRequiredSignature (\<lambda>signer_account.
                   bind (fail_if (\<not> is_signer signer_account) MissingRequiredSignature) (\<lambda>_.
                   bind (gets (get_key signer_account)) (\<lambda>key.
                   bind (fail_if (key \<noteq> k) MissingRequiredSignature) (\<lambda>_.
                     fail_if (current \<noteq> [] \<and> k \<notin> set (signer_keys current)) MissingRequiredSignature))))
            else fail_if (\<not> signs) MissingRequiredSignature)"
      by (intro same.keeps_rules keeps_same_with_account_or)
    from keeps_sameD [OF this, of tc] step(1) show ?thesis by (metis snd_conv)
  qed
  have "(k = key \<and> signs) \<or> (k \<noteq> key \<and> key_signed ic tc k \<and> (current = [] \<or> k \<in> set (signer_keys current)))"
  proof (cases "k = key")
    case True
    then show ?thesis using step(1) by (simp add: fail_if_apply split: if_splits)
  next
    case False
    from step(1) have "with_account_or ic (of_nat (n + 1)) MissingRequiredSignature (\<lambda>signer_account.
                   bind (fail_if (\<not> is_signer signer_account) MissingRequiredSignature) (\<lambda>_.
                   bind (gets (get_key signer_account)) (\<lambda>key.
                   bind (fail_if (key \<noteq> k) MissingRequiredSignature) (\<lambda>_.
                     fail_if (current \<noteq> [] \<and> k \<notin> set (signer_keys current)) MissingRequiredSignature)))) tc = (Inr x, s)"
      using False by simp
    then show ?thesis
    proof (rule with_account_or_okE, goal_cases)
      case (1 b u)
      from 1(5) have "is_signer b" "get_key b tc = k" "current = [] \<or> k \<in> set (signer_keys current)"
        by (auto simp: effect_simps get_key_def set_borrow_at_def split: if_splits)
      then show ?case using 1(1,3) False is_writable_instruction_handle(2) [OF assms(2) 1(1,2,4)]
        by (auto simp: key_signed_def get_key_def intro!: bexI [of _ "ic_instruction_accounts ic ! unat (of_nat (n + 1) :: index_of_account)"])
    qed
  qed
  with Cons.IH [of "n + 1"] step(2) show ?case unfolding s by simp
qed (simp add: return_apply)

lemma read_config_ok:
  assumes "read_config env ic tc = (Inr (signs, current), tc')" "wf_ic ic"
  shows "tc' = tc" "0 < length (ic_instruction_accounts ic) \<and> signs = ia_is_signer (ic_instruction_accounts ic ! 0) \<and>
    acc_owner (account_at tc (tx_index ic 0)) = config_program_id \<and>
    ce_deserialize env (acc_data (account_at tc (tx_index ic 0))) = Some current"
proof -
  have "keeps (=) (read_config env ic)"
    unfolding read_config_def by (intro same.keeps_rules keeps_same_with_instruction_account)
  from keeps_sameD [OF this, of tc] assms(1) show "tc' = tc" by simp
  from assms(1) show "0 < length (ic_instruction_accounts ic) \<and> signs = ia_is_signer (ic_instruction_accounts ic ! 0) \<and>
    acc_owner (account_at tc (tx_index ic 0)) = config_program_id \<and>
    ce_deserialize env (acc_data (account_at tc (tx_index ic 0))) = Some current"
    unfolding read_config_def
  proof (rule with_instruction_account_okE, goal_cases)
    case (1 b u)
    from 1(6) have "get_owner b tc = config_program_id" "ce_deserialize env (get_data b tc) = Some current" "signs = is_signer b"
      by (auto elim!: effect_elims simp: gets_apply return_apply)
    then show ?case using 1(1,3) is_writable_instruction_handle(2) [OF assms(2) 1(1,2,4)]
      by (simp add: get_owner_def get_data_def ba_account_def)
  qed
qed

lemma store_config_ok:
  assumes "store_config ic data tc = (Inr (), tc')"
  shows "account_at tc' = (account_at tc)(tx_index ic 0 := (account_at tc (tx_index ic 0))
    \<lparr>acc_data := data @ drop (length data) (acc_data (account_at tc (tx_index ic 0)))\<rparr>)"
  using assms unfolding store_config_def
proof (rule with_instruction_account_okE, goal_cases)
  case (1 b u)
  let ?i = "tx_index ic 0" and ?tc = "set_borrow_at (tx_index ic 0) WRITING tc"
  from 1(6) have len: "length data \<le> length (get_data b tc)"
    and u: "u = update_account_at ?i (\<lambda>a. a\<lparr>acc_data := slice_write (acc_data a) data\<rparr>) (mark_touched ?i ?tc)"
    by (auto simp: effect_simps get_data_mut_def touch_eval write_data_def update_account_def 1(3) split: if_splits sum.splits)
  have "slice_write (acc_data (account_at tc ?i)) data = data @ drop (length data) (acc_data (account_at tc ?i))"
    using len 1(3) by (simp add: slice_write_def get_data_def ba_account_def)
  then show ?case using 1(5,7) u by (auto simp: fun_eq_iff account_at_update)
qed

lemma signer_keys_distinct: "distinct keys \<Longrightarrow> distinct (signer_keys keys)"
  by (auto simp: signer_keys_def distinct_map inj_on_def)

lemma update_config_okE:
  assumes "update_config env ic tc = (Inr (), tc')"
    and "limited_deserialize (ce_limited_decode env) (ic_instruction_data ic) = Inr new"
  obtains key signs cur s1 c s2 where "key_of_instruction_account ic 0 tc = Inr key"
    "read_config env ic tc = (Inr (signs, cur), s1)" "\<not> (signer_keys cur = [] \<and> \<not> signs)"
    "check_new_signers ic key signs cur (signer_keys new) 0 s1 = (Inr c, s2)"
    "\<not> card (set new) \<noteq> length new" "\<not> c < length (signer_keys cur)"
    "store_config ic (ic_instruction_data ic) s2 = (Inr (), tc')"
proof -
  from assms obtain key signs cur s1 x t1 c s2 y t2 z t3 where 1: "key_of_instruction_account ic 0 tc = Inr key"
    "read_config env ic tc = (Inr (signs, cur), s1)"
    "fail_if (signer_keys cur = [] \<and> \<not> signs) MissingRequiredSignature s1 = (Inr x, t1)"
    "check_new_signers ic key signs cur (signer_keys new) 0 t1 = (Inr c, s2)"
    "fail_if (card (set new) \<noteq> length new) InvalidArgument s2 = (Inr y, t2)"
    "fail_if (c < length (signer_keys cur)) MissingRequiredSignature t2 = (Inr z, t3)"
    "store_config ic (ic_instruction_data ic) t3 = (Inr (), tc')"
    unfolding update_config_def by (auto elim!: bind_okE lift_okE reads_okE)
  have passed: "\<not> b \<and> t = s" if "fail_if b e s = (Inr w, t)"
    for b and e :: instruction_error and s t :: transaction_context and w
    using that by (cases b) (simp_all add: fail_if_apply)
  have p: "\<not> (signer_keys cur = [] \<and> \<not> signs)" "t1 = s1" "\<not> card (set new) \<noteq> length new" "t2 = s2"
    "\<not> c < length (signer_keys cur)" "t3 = t2"
    using passed [OF 1(3)] passed [OF 1(5)] passed [OF 1(6)] by blast+
  show thesis by (rule that [OF 1(1,2) p(1) 1(4) [unfolded p(2)] p(3,5) 1(7) [unfolded p(6) p(4)]])
qed

text \<open>
  C18: a config account changes only under signatures. When the handler succeeds, the account is a
  config account, every key of the new list that is marked as a signer signed, the first account
  signed if no signer was stored, and every stored signer signed, provided the new list does not
  mark the config account itself as a signer; the data of the account is the instruction's data
  followed by the old remainder, and no other account changed.
\<close>
theorem config_update_authorized:
  assumes "config_process_instruction env tc = (Inr (), tc')"
    and "get_current_instruction_context tc = Inr ic" "wf_ic ic"
    and "ce_limited_decode env PACKET_DATA_SIZE (ic_instruction_data ic) = Some new"
    and "ce_deserialize env (acc_data (account_at tc (tx_index ic 0))) = Some current"
  shows "acc_owner (account_at tc (tx_index ic 0)) = config_program_id \<and>
    (\<forall>k\<in>set (signer_keys new). key_signed ic tc k) \<and>
    (signer_keys current = [] \<longrightarrow> key_signed ic tc (tc_account_keys tc ! tx_index ic 0)) \<and>
    (tc_account_keys tc ! tx_index ic 0 \<notin> set (signer_keys new) \<longrightarrow> (\<forall>k\<in>set (signer_keys current). key_signed ic tc k)) \<and>
    account_at tc' = (account_at tc)(tx_index ic 0 := (account_at tc (tx_index ic 0))
      \<lparr>acc_data := ic_instruction_data ic @ drop (length (ic_instruction_data ic)) (acc_data (account_at tc (tx_index ic 0)))\<rparr>)"
proof -
  let ?config = "tc_account_keys tc ! tx_index ic 0"
  have "update_config env ic tc = (Inr (), tc')"
    using assms(1,2) by (simp add: config_process_instruction_def bind_apply reads_apply)
  then obtain key signs cur s1 c s2 where run: "key_of_instruction_account ic 0 tc = Inr key"
    "read_config env ic tc = (Inr (signs, cur), s1)" "\<not> (signer_keys cur = [] \<and> \<not> signs)"
    "check_new_signers ic key signs cur (signer_keys new) 0 s1 = (Inr c, s2)"
    "\<not> card (set new) \<noteq> length new" "\<not> c < length (signer_keys cur)"
    "store_config ic (ic_instruction_data ic) s2 = (Inr (), tc')"
    by (rule update_config_okE) (use assms(4) in \<open>simp add: limited_deserialize_def\<close>)
  note r = read_config_ok [OF run(2) assms(3)]
  have s: "s1 = tc" "s2 = tc" "cur = current"
    using r keeps_sameD [OF keeps_same_check_new_signers, of ic key signs cur "signer_keys new" 0 s1] run(4) assms(5) by auto
  have key: "key = ?config"
    using run(1) r(2) by (auto simp: key_of_instruction_account_def get_index_of_instruction_account_in_transaction_def
        get_key_of_account_at_index_def and_then_Inr vec_get_def split: if_splits)
  have self: "signs \<Longrightarrow> key_signed ic tc ?config" using r(2) by (auto simp: key_signed_def intro!: bexI [of _ "ic_instruction_accounts ic ! 0"])
  have c: "c = length (signer_keys new)" and new: "\<forall>k\<in>set (signer_keys new). (k = ?config \<and> signs) \<or>
      (k \<noteq> ?config \<and> key_signed ic tc k \<and> (current = [] \<or> k \<in> set (signer_keys current)))"
    using check_new_signers_ok [OF run(4) assms(3)] unfolding s key by auto
  have "\<forall>k\<in>set (signer_keys current). key_signed ic tc k" if out: "?config \<notin> set (signer_keys new)"
  proof (cases "current = []")
    case False
    then have sub: "set (signer_keys new) \<subseteq> set (signer_keys current)" using new out by (intro subsetI) (metis)
    have "distinct (signer_keys new)" using run(5) by (intro signer_keys_distinct) (simp add: card_distinct)
    then have "card (set (signer_keys current)) \<le> card (set (signer_keys new))"
      using run(6) card_length [of "signer_keys current"] by (simp add: s(3) c distinct_card not_less)
    then have "set (signer_keys new) = set (signer_keys current)" using sub by (intro card_seteq) simp_all
    then show ?thesis using new out by metis
  qed (simp add: signer_keys_def)
  moreover have "\<forall>k\<in>set (signer_keys new). key_signed ic tc k" using new self by metis
  moreover have "signer_keys current = [] \<longrightarrow> key_signed ic tc ?config" using run(3) self s(3) by metis
  ultimately show ?thesis using r(2) store_config_ok [OF run(7)] unfolding s by (intro conjI impI) simp_all
qed

subsection \<open>Which updates are accepted\<close>








subsection \<open>A config account with two signers\<close>

text \<open>The encoding of key lists of fewer than 128 entries: their number, then each key and its mark.\<close>

definition enc_config_keys :: "config_keys \<Rightarrow> bytes" where
  "enc_config_keys keys = of_nat (length keys) # concat (map (\<lambda>(k, s). k @ [if s then 1 else 0]) keys)"

fun dec_key_list :: "nat \<Rightarrow> bytes \<Rightarrow> config_keys option" where
  "dec_key_list 0 bs = Some []"
| "dec_key_list (Suc n) bs =
     (if length bs < 33 \<or> 1 < bs ! 32 then None
      else map_option ((#) (take 32 bs, bs ! 32 = 1)) (dec_key_list n (drop 33 bs)))"

definition dec_config_keys :: "bytes \<Rightarrow> config_keys option" where
  "dec_config_keys bs =
     (if bs = [] \<or> 128 \<le> bs ! 0 then None else dec_key_list (unat (bs ! 0)) (drop 1 bs))"

definition example_config_env :: config_env where
  "example_config_env = \<lparr>ce_limited_decode = (\<lambda>limit bs. if length bs \<le> unat limit then dec_config_keys bs else None),
     ce_deserialize = dec_config_keys\<rparr>"

abbreviation key_a :: pubkey where "key_a \<equiv> replicate 32 1"
abbreviation key_b :: pubkey where "key_b \<equiv> replicate 32 2"
abbreviation key_config :: pubkey where "key_config \<equiv> replicate 32 10"

definition example_config_accounts :: "(pubkey \<times> account) list" where
  "example_config_accounts =
     [(config_program_id, account_new 1 0 native_loader_id),
      (key_config, (account_new 1000 0 config_program_id)\<lparr>acc_data := enc_config_keys [(key_a, True), (key_b, True)]\<rparr>),
      (key_a, account_default), (key_b, account_default)]"

abbreviation config_tx :: "instruction_account list \<Rightarrow> config_keys \<Rightarrow> transaction_context" where
  "config_tx metas keys \<equiv> example_context example_config_accounts metas (enc_config_keys keys)"

lemma dec_example_config:
  assumes "length a = 32" "length b = 32"
  shows "dec_config_keys (enc_config_keys [(a, True), (b, True)]) = Some [(a, True), (b, True)]"
proof -
  have "dec_key_list 2 (a @ 1 # b @ [1]) = Some [(a, True), (b, True)]"
    using assms by (simp add: numeral_2_eq_2 nth_append)
  then show ?thesis by (simp add: dec_config_keys_def enc_config_keys_def)
qed

lemma length_example_config: "length a = 32 \<Longrightarrow> length b = 32 \<Longrightarrow> length (enc_config_keys [(a, True), (b, True)]) = 67"
  by (simp add: enc_config_keys_def)

lemma replicate_differs: "x \<noteq> y \<Longrightarrow> replicate 32 x \<noteq> replicate 32 y"
  by (simp add: replicate_eq_replicate)

lemma example_decode: "ce_deserialize example_config_env = dec_config_keys"
  by (simp add: example_config_env_def)

lemma example_limited:
  assumes "length a = 32" "length b = 32"
  shows "limited_deserialize (ce_limited_decode example_config_env) (enc_config_keys [(a, True), (b, True)]) = Inr [(a, True), (b, True)]"
  using assms by (simp add: limited_deserialize_def example_config_env_def PACKET_DATA_SIZE_def dec_example_config length_example_config)

lemmas config_eval = update_config_def read_config_def store_config_def with_account_or_def signer_keys_def
  example_config_accounts_def example_eval Let_def get_key_def get_data_mut_def can_data_be_changed_def
  write_data_def example_decode dec_example_config length_example_config example_limited replicate_differs

lemma config_example_run:
  assumes metas: "metas = [example_meta 1 config_signs True, example_meta 2 True False, example_meta 3 b_signs False]"
    and k: "k = key_b \<and> b_signs \<or> k = key_config \<and> config_signs"
  shows "\<exists>tc'. config_process_instruction example_config_env (config_tx metas [(key_a, True), (k, True)]) = (Inr (), tc')"
proof -
  have "\<exists>tc'. update_config example_config_env (example_ic metas (enc_config_keys [(key_a, True), (k, True)]))
      (config_tx metas [(key_a, True), (k, True)]) = (Inr (), tc')"
    using k by (elim disjE conjE) (simp_all add: config_eval metas, (force simp: image_iff)+)
  then show ?thesis by (simp add: config_process_instruction_def bind_apply reads_apply current_example)
qed

abbreviation config_metas :: "bool \<Rightarrow> bool \<Rightarrow> instruction_account list" where
  "config_metas config_signs b_signs \<equiv>
     [example_meta 1 config_signs True, example_meta 2 True False, example_meta 3 b_signs False]"

lemma config_example_ic:
  "wf_ic (example_ic (config_metas c b) d)"
  "tx_index (example_ic (config_metas c b) d) 0 = 1"
  by (simp_all add: wf_ic_def example_ic_def example_meta_def)

lemma config_example_account:
  "tc_account_keys (config_tx metas keys) ! 1 = key_config"
  "acc_data (account_at (config_tx metas keys) 1) = enc_config_keys [(key_a, True), (key_b, True)]"
  by (simp_all add: example_config_accounts_def example_context_def ta_new_def refcell_new_def account_at_def)

theorem config_update_authorized_witness:
  "\<exists>tc'. config_process_instruction example_config_env (config_tx (config_metas False True) [(key_a, True), (key_b, True)]) = (Inr (), tc') \<and>
     acc_data (account_at tc' 1) = enc_config_keys [(key_a, True), (key_b, True)] \<and>
     key_signed (example_ic (config_metas False True) (enc_config_keys [(key_a, True), (key_b, True)]))
       (config_tx (config_metas False True) [(key_a, True), (key_b, True)]) key_b"
proof -
  let ?keys = "[(key_a, True), (key_b, True)]" and ?metas = "config_metas False True"
  obtain tc' where run: "config_process_instruction example_config_env (config_tx ?metas ?keys) = (Inr (), tc')"
    using config_example_run [OF refl, of key_b True False] by auto
  have dec: "ce_limited_decode example_config_env PACKET_DATA_SIZE (enc_config_keys ?keys) = Some ?keys"
    by (simp add: example_config_env_def PACKET_DATA_SIZE_def dec_example_config length_example_config)
  show ?thesis
    using config_update_authorized [OF run current_example config_example_ic(1), of ?keys ?keys, unfolded config_example_ic(2)
        config_example_account example_decode]
    by (intro exI [of _ tc'] conjI run)
      (simp_all add: dec dec_example_config signer_keys_def example_ic_def config_example_account length_example_config)
qed



end
