(* ===== verification/System_Refinement.thy ===== *)
theory System_Refinement
  imports System_Ledger
begin

section \<open>The handlers implement the abstract instructions\<close>

text \<open>
  Every successful run of a system instruction is a step of the abstract relation on the ledger;
  keys, rent, instruction stack and return data are unchanged.
\<close>

definition refines ::
  "invoke_env \<Rightarrow> instruction_context \<Rightarrow> pubkey list \<Rightarrow> transaction_context \<Rightarrow> system_instruction \<Rightarrow>
     transaction_context \<Rightarrow> bool" where
  "refines env ic signers tc instruction tc' \<longleftrightarrow>
     system_step env ic signers (tc_account_keys tc) (num_accounts tc) (account_at tc) instruction (account_at tc') \<and>
     tc_frame tc' = tc_frame tc \<and> num_accounts tc' = num_accounts tc"

lemma refinesI:
  "accounts_to tc m tc' \<Longrightarrow>
     system_step env ic signers (tc_account_keys tc) (num_accounts tc) (account_at tc) instruction m \<Longrightarrow>
     refines env ic signers tc instruction tc'"
  by (simp add: refines_def accounts_to_def)

lemma key_of_instruction_account_ok:
  "key_of_instruction_account ic i tc = Inr k \<Longrightarrow> k = tc_account_keys tc ! tx_index ic i"
  by (auto simp: key_of_instruction_account_def and_then_Inr get_key_of_account_at_index_def
      get_index_of_instruction_account_in_transaction_def)

lemma signer_flagI: "is_instruction_account_signer ic i = Inr True \<Longrightarrow> signer_flag ic i"
  by (auto simp: is_instruction_account_signer_def signer_flag_def vec_get_def split: option.splits if_splits)

lemma tc_account_keys_set_borrow [simp]: "tc_account_keys (set_borrow_at i f tc) = tc_account_keys tc"
  by (simp add: set_borrow_at_def)

lemma instruction_account_address_ok:
  assumes "instruction_account_address env ic i ws tc = (Inr addr, t)"
  shows "t = tc" "address_is_signer addr signers = authorized env signers (tc_account_keys tc ! tx_index ic i) ws"
    "derived_address env (tc_account_keys tc ! tx_index ic i) ws"
proof -
  from assms obtain k where k: "key_of_instruction_account ic i tc = Inr k"
    "address_create env k ws = Inr addr" "t = tc"
    by (auto simp: instruction_account_address_def effect_simps split: sum.splits)
  note key = key_of_instruction_account_ok [OF k(1)]
  show "t = tc" by (fact k(3))
  show "address_is_signer addr signers = authorized env signers (tc_account_keys tc ! tx_index ic i) ws"
    "derived_address env (tc_account_keys tc ! tx_index ic i) ws"
    using k(2) by (auto simp: address_create_def authorized_def derived_address_def address_is_signer_def
        key and_then_Inr map_err_def split: option.splits prod.splits if_splits sum.splits)
qed

lemma transfer_verified_move:
  assumes "transfer_verified i j v ic tc = (Inr (), tc')"
  shows "movable (num_accounts tc) (tx_index ic i) (tx_index ic j) v (account_at tc)"
    "acc_data (account_at tc (tx_index ic i)) = []"
    "accounts_to tc (move (tx_index ic i) (tx_index ic j) v (account_at tc)) tc'"
  using transfer_verified_ledger [OF assms] by (simp_all add: movable_def move_def)

lemma refine_transfer:
  assumes "execute_instruction env ic signers (Transfer v) tc = (Inr (), tc')"
  shows "refines env ic signers tc (Transfer v) tc'"
proof -
  from assms have "transfer env 0 1 v ic tc = (Inr (), tc')"
    by (auto elim!: bind_okE lift_okE)
  note t = transfer_okE [OF this]
  show ?thesis
    by (rule refinesI [OF transfer_verified_move(3) [OF t(2)]])
      (intro system_step.transfer refl signer_flagI [OF t(1)] transfer_verified_move [OF t(2)])
qed

lemma refine_transfer_seed:
  assumes "execute_instruction env ic signers (TransferWithSeed v seed owner) tc = (Inr (), tc')"
  shows "refines env ic signers tc (TransferWithSeed v seed owner) tc'"
proof -
  from assms have "transfer_with_seed env 0 1 seed owner 2 v ic tc = (Inr (), tc')"
    by (auto elim!: bind_okE lift_okE)
  then obtain base derived where t: "is_instruction_account_signer ic 1 = Inr True"
    "key_of_instruction_account ic 1 tc = Inr base"
    "create_with_seed (env_sha256 env) base seed owner = Inr derived"
    "key_of_instruction_account ic 0 tc = Inr derived"
    "transfer_verified 0 2 v ic tc = (Inr (), tc')"
    by (rule transfer_with_seed_okE)
  have "derived_address env (tc_account_keys tc ! tx_index ic 0)
      (Some (tc_account_keys tc ! tx_index ic 1, seed, owner))"
    using t(3) key_of_instruction_account_ok [OF t(2)] key_of_instruction_account_ok [OF t(4)]
    by (simp add: derived_address_def)
  then show ?thesis
    by (intro refinesI [OF transfer_verified_move(3) [OF t(5)]] system_step.transfer_seed refl
        signer_flagI [OF t(1)] transfer_verified_move [OF t(5)])
qed

lemma create_account_step:
  assumes "instruction_account_address env ic 1 ws tc = (Inr addr, tc)"
    and "create_account env 0 1 addr v space owner signers ic tc = (Inr (), tc')"
  obtains m where "create_step env ic signers (tc_account_keys tc) (num_accounts tc) v space owner ws
      (account_at tc) m" "accounts_to tc m tc'"
proof -
  note c = create_account_ledger [OF assms(2)]
  note a = instruction_account_address_ok [OF assms(1)]
  have fresh: "fresh_account (account_at tc (tx_index ic 1))"
    by (subst c(2)) (simp add: fresh_account_def)
  show thesis
    by (rule that [OF create_step.create [OF refl refl signer_flagI [OF c(4)] _ fresh c(3) c(7)]])
      (use c a in \<open>simp_all add: movable_def move_def\<close>)
qed

lemma refine_create:
  assumes "execute_instruction env ic signers (CreateAccount v space owner) tc = (Inr (), tc')"
  shows "refines env ic signers tc (CreateAccount v space owner) tc'"
proof -
  from assms obtain addr t where "instruction_account_address env ic 1 None tc = (Inr addr, t)"
    "create_account env 0 1 addr v space owner signers ic t = (Inr (), tc')"
    by (auto elim!: bind_okE lift_okE)
  moreover from this have "t = tc" by (simp add: instruction_account_address_ok(1))
  ultimately obtain m where "create_step env ic signers (tc_account_keys tc) (num_accounts tc) v space owner None
      (account_at tc) m" "accounts_to tc m tc'"
    using create_account_step by metis
  then show ?thesis by (intro refinesI system_step.create)
qed

lemma refine_create_seed:
  assumes "execute_instruction env ic signers (CreateAccountWithSeed base seed v space owner) tc = (Inr (), tc')"
  shows "refines env ic signers tc (CreateAccountWithSeed base seed v space owner) tc'"
proof -
  from assms obtain addr t where "instruction_account_address env ic 1 (Some (base, seed, owner)) tc = (Inr addr, t)"
    "create_account env 0 1 addr v space owner signers ic t = (Inr (), tc')"
    by (auto elim!: bind_okE lift_okE)
  moreover from this have "t = tc" by (simp add: instruction_account_address_ok(1))
  ultimately obtain m where "create_step env ic signers (tc_account_keys tc) (num_accounts tc) v space owner
      (Some (base, seed, owner)) (account_at tc) m" "accounts_to tc m tc'"
    using create_account_step by metis
  then show ?thesis by (intro refinesI system_step.create_seed)
qed

subsection \<open>Instructions on one borrowed account\<close>

text \<open>The body of a scoped borrow runs in a context with the same accounts and keys.\<close>

lemma scoped_okE:
  assumes "with_instruction_account ic i body tc = (Inr (), tc')"
  obtains b s u where "ba_index b = tx_index ic i" "ba_index b < num_accounts s"
    "account_at s = account_at tc" "tc_account_keys s = tc_account_keys tc" "num_accounts s = num_accounts tc"
    "body b s = (Inr (), u)" "\<forall>m. accounts_to s m u \<longrightarrow> accounts_to tc m tc'"
proof -
  from assms obtain b u where b: "ba_index b = tx_index ic i" "tx_index ic i < num_accounts tc"
    "body b (set_borrow_at (tx_index ic i) WRITING tc) = (Inr (), u)" "tc' = set_borrow_at (tx_index ic i) UNUSED u"
    by (rule with_instruction_account_okE)
  show thesis by (rule that [OF b(1) _ _ _ _ b(3)]) (use b in simp_all)
qed

lemma addressed_okE:
  assumes "with_instruction_account ic i (\<lambda>b. bind (instruction_account_address env ic i ws) (f b)) tc = (Inr (), tc')"
  obtains b s u addr where "ba_index b = tx_index ic i" "ba_index b < num_accounts s"
    "account_at s = account_at tc" "num_accounts s = num_accounts tc"
    "\<forall>m. accounts_to s m u \<longrightarrow> accounts_to tc m tc'" "f b addr s = (Inr (), u)"
    "\<forall>signers. address_is_signer addr signers = authorized env signers (tc_account_keys tc ! tx_index ic i) ws"
    "derived_address env (tc_account_keys tc ! tx_index ic i) ws"
proof -
  from assms obtain b s u where s: "ba_index b = tx_index ic i" "ba_index b < num_accounts s"
    "account_at s = account_at tc" "tc_account_keys s = tc_account_keys tc" "num_accounts s = num_accounts tc"
    "bind (instruction_account_address env ic i ws) (f b) s = (Inr (), u)"
    "\<forall>m. accounts_to s m u \<longrightarrow> accounts_to tc m tc'"
    by (rule scoped_okE)
  from s(6) obtain addr t where a: "instruction_account_address env ic i ws s = (Inr addr, t)" "f b addr t = (Inr (), u)"
    by (rule bind_okE)
  note ad = instruction_account_address_ok [OF a(1), unfolded s(4)]
  from ad(1) have "f b addr s = (Inr (), u)" using a(2) by simp
  moreover have "\<forall>signers. address_is_signer addr signers =
      authorized env signers (tc_account_keys tc ! tx_index ic i) ws" using ad(2) by blast
  ultimately show thesis using that [OF s(1,2,3,5) s(7) _ _ ad(3)] by blast
qed

lemma get_state_ok:
  "get_state (env_nonce env) b s = Inr st \<Longrightarrow> nonce_of env (account_at s (ba_index b)) = Some st"
  by (simp add: get_state_def nonce_of_def get_data_def ba_account_def)

lemma set_state_stores:
  assumes "set_state (env_nonce env) b st s = (Inr (), u)" "ba_index b < num_accounts s"
  obtains m where "stores env (ba_index b) st (account_at s) m" "accounts_to s m u"
  by (rule set_state_okE [OF assms], rule that)
    (auto simp: stores_def get_data_def ba_account_def)

lemma refine_assign:
  assumes "execute_instruction env ic signers (Assign owner) tc = (Inr (), tc')"
  shows "refines env ic signers tc (Assign owner) tc'"
proof -
  from assms have "with_instruction_account ic 0 (\<lambda>b.
      bind (instruction_account_address env ic 0 None) (\<lambda>addr. assign b addr owner signers)) tc = (Inr (), tc')"
    by (auto elim!: bind_okE lift_okE)
  then obtain b s u addr where s: "ba_index b = tx_index ic 0" "ba_index b < num_accounts s"
    "account_at s = account_at tc" "num_accounts s = num_accounts tc"
    "\<forall>m. accounts_to s m u \<longrightarrow> accounts_to tc m tc'" and a: "assign b addr owner signers s = (Inr (), u)"
    and ad: "\<forall>signers. address_is_signer addr signers =
        authorized env signers (tc_account_keys tc ! tx_index ic 0) None"
      "derived_address env (tc_account_keys tc ! tx_index ic 0) None"
    by (rule addressed_okE)
  note as = assign_ledger [OF a s(2)]
  show ?thesis
    by (rule refinesI [OF s(5) [rule_format, OF as(2)]], unfold ba_account_def s(1,3), rule system_step.assign [OF refl])
      (use as(1) s ad(1) in \<open>auto simp: get_owner_def ba_account_def\<close>)
qed

lemma refine_assign_seed:
  assumes "execute_instruction env ic signers (AssignWithSeed base seed owner) tc = (Inr (), tc')"
  shows "refines env ic signers tc (AssignWithSeed base seed owner) tc'"
proof -
  from assms have "with_instruction_account ic 0 (\<lambda>b.
      bind (instruction_account_address env ic 0 (Some (base, seed, owner)))
        (\<lambda>addr. assign b addr owner signers)) tc = (Inr (), tc')"
    by (auto elim!: bind_okE lift_okE)
  then obtain b s u addr where s: "ba_index b = tx_index ic 0" "ba_index b < num_accounts s"
    "account_at s = account_at tc" "num_accounts s = num_accounts tc"
    "\<forall>m. accounts_to s m u \<longrightarrow> accounts_to tc m tc'" and a: "assign b addr owner signers s = (Inr (), u)"
    and ad: "\<forall>signers. address_is_signer addr signers =
        authorized env signers (tc_account_keys tc ! tx_index ic 0) (Some (base, seed, owner))"
      "derived_address env (tc_account_keys tc ! tx_index ic 0) (Some (base, seed, owner))"
    by (rule addressed_okE)
  note as = assign_ledger [OF a s(2)]
  show ?thesis
    by (rule refinesI [OF s(5) [rule_format, OF as(2)]], unfold ba_account_def s(1,3), rule system_step.assign_seed [OF refl])
      (use as(1) s ad in \<open>auto simp: get_owner_def ba_account_def\<close>)
qed

lemma refine_allocate:
  assumes "execute_instruction env ic signers (Allocate space) tc = (Inr (), tc')"
  shows "refines env ic signers tc (Allocate space) tc'"
proof -
  from assms have "with_instruction_account ic 0 (\<lambda>b.
      bind (instruction_account_address env ic 0 None) (\<lambda>addr. allocate b addr space signers)) tc = (Inr (), tc')"
    by (auto elim!: bind_okE lift_okE)
  then obtain b s u addr where s: "ba_index b = tx_index ic 0" "ba_index b < num_accounts s"
    "account_at s = account_at tc" "num_accounts s = num_accounts tc"
    "\<forall>m. accounts_to s m u \<longrightarrow> accounts_to tc m tc'" and a: "allocate b addr space signers s = (Inr (), u)"
    and ad: "\<forall>signers. address_is_signer addr signers =
        authorized env signers (tc_account_keys tc ! tx_index ic 0) None"
      "derived_address env (tc_account_keys tc ! tx_index ic 0) None"
    by (rule addressed_okE)
  note al = allocate_ledger [OF a s(2)]
  show ?thesis
    by (rule refinesI [OF s(5) [rule_format, OF al(5)]], unfold ba_account_def s(1,3), rule system_step.allocate [OF refl])
      (use al s ad(1) in \<open>auto simp: get_owner_def get_data_def ba_account_def\<close>)
qed

lemma refine_allocate_seed:
  assumes "execute_instruction env ic signers (AllocateWithSeed base seed space owner) tc = (Inr (), tc')"
  shows "refines env ic signers tc (AllocateWithSeed base seed space owner) tc'"
proof -
  from assms have "with_instruction_account ic 0 (\<lambda>b.
      bind (instruction_account_address env ic 0 (Some (base, seed, owner)))
        (\<lambda>addr. allocate_and_assign b addr space owner signers)) tc = (Inr (), tc')"
    by (auto elim!: bind_okE lift_okE)
  then obtain b s u addr where s: "ba_index b = tx_index ic 0" "ba_index b < num_accounts s"
    "account_at s = account_at tc" "num_accounts s = num_accounts tc"
    "\<forall>m. accounts_to s m u \<longrightarrow> accounts_to tc m tc'" and a: "allocate_and_assign b addr space owner signers s = (Inr (), u)"
    and ad: "\<forall>signers. address_is_signer addr signers =
        authorized env signers (tc_account_keys tc ! tx_index ic 0) (Some (base, seed, owner))"
      "derived_address env (tc_account_keys tc ! tx_index ic 0) (Some (base, seed, owner))"
    by (rule addressed_okE)
  note al = allocate_and_assign_ledger [OF a s(2)]
  show ?thesis
    by (rule refinesI [OF s(5) [rule_format, OF al(5)]], unfold ba_account_def s(1,3), fold create_at_def,
        rule system_step.allocate_seed [OF refl])
      (use al s ad(1) in \<open>auto simp: get_owner_def get_data_def ba_account_def\<close>)
qed

subsection \<open>Nonce instructions\<close>

lemma checked_rent_ok: "checked_rent c ic i s = Inr rent \<Longrightarrow> sc_rent c = Some rent"
  by (simp add: checked_rent_def and_then_Inr get_rent_def)

lemma advance_stores:
  assumes "advance_nonce_account env b signers s = (Inr (), u)"
  obtains st d where "nonce_of env (account_at s (ba_index b)) = Some st" "versions_state st = Initialized d"
    "nd_authority d \<in> set signers" "nd_durable_nonce d \<noteq> next_nonce env"
    "set_state (env_nonce env) b (Current (Initialized
       (nonce_data_new (nd_authority d) (next_nonce env) (env_lamports_per_signature env)))) s = (Inr (), u)"
  using assms
  by (auto simp: advance_nonce_account_def effect_simps Let_def versions_new_def dest!: get_state_ok
      split: if_splits sum.splits nonce_state.splits)

text \<open>A scoped handler refines an abstract step when its body does.\<close>

lemma refine_scoped:
  assumes "with_instruction_account ic i body tc = (Inr (), tc')"
    and step: "\<And>b s u. body b s = (Inr (), u) \<Longrightarrow> ba_index b < num_accounts s \<Longrightarrow>
      ba_index b = tx_index ic i \<Longrightarrow>
      \<exists>m. accounts_to s m u \<and> system_step env ic signers (tc_account_keys s) (num_accounts s) (account_at s) instruction m"
  shows "refines env ic signers tc instruction tc'"
proof -
  from assms(1) obtain b s u where s: "ba_index b = tx_index ic i" "ba_index b < num_accounts s"
    "account_at s = account_at tc" "tc_account_keys s = tc_account_keys tc" "num_accounts s = num_accounts tc"
    "body b s = (Inr (), u)" "\<forall>m. accounts_to s m u \<longrightarrow> accounts_to tc m tc'"
    by (rule scoped_okE)
  from step [OF s(6,2,1)] s show ?thesis by (auto intro: refinesI)
qed

lemma refine_advance:
  assumes "execute_instruction env ic signers AdvanceNonceAccount tc = (Inr (), tc')"
  shows "refines env ic signers tc AdvanceNonceAccount tc'"
proof -
  from assms have "with_instruction_account ic 0 (\<lambda>me.
         bind (reads (checked_recent_blockhashes (env_sysvar_cache env) ic 1)) (\<lambda>recent_blockhashes.
         bind (fail_if (recent_blockhashes = [])
                (system_error_into system_error.NonceNoRecentBlockhashes)) (\<lambda>_.
           advance_nonce_account env me signers))) tc = (Inr (), tc')"
    by (auto elim!: bind_okE lift_okE)
  then show ?thesis
  proof (rule refine_scoped)
    fix b s u
    assume "bind (reads (checked_recent_blockhashes (env_sysvar_cache env) ic 1)) (\<lambda>recent_blockhashes.
         bind (fail_if (recent_blockhashes = [])
                (system_error_into system_error.NonceNoRecentBlockhashes)) (\<lambda>_.
           advance_nonce_account env b signers)) s = (Inr (), u)"
    then have "advance_nonce_account env b signers s = (Inr (), u)"
      by (auto elim!: bind_okE reads_okE fail_if_okE)
    then obtain st d where st: "nonce_of env (account_at s (ba_index b)) = Some st"
      "versions_state st = Initialized d" "nd_authority d \<in> set signers" "nd_durable_nonce d \<noteq> next_nonce env"
      "set_state (env_nonce env) b (Current (Initialized
         (nonce_data_new (nd_authority d) (next_nonce env) (env_lamports_per_signature env)))) s = (Inr (), u)"
      by (rule advance_stores)
    assume b: "ba_index b < num_accounts s" "ba_index b = tx_index ic 0"
    from st(5) b(1) obtain m where "stores env (ba_index b) (Current (Initialized
         (nonce_data_new (nd_authority d) (next_nonce env) (env_lamports_per_signature env)))) (account_at s) m"
      "accounts_to s m u" by (rule set_state_stores)
    then show "\<exists>m. accounts_to s m u \<and> system_step env ic signers (tc_account_keys s) (num_accounts s)
        (account_at s) AdvanceNonceAccount m"
      using system_step.advance [where m = "account_at s", OF b(2,1) st(1,2,3,4)] by blast
  qed
qed

lemma refine_initialize:
  assumes "execute_instruction env ic signers (InitializeNonceAccount authority) tc = (Inr (), tc')"
  shows "refines env ic signers tc (InitializeNonceAccount authority) tc'"
proof -
  from assms have "with_instruction_account ic 0 (\<lambda>me.
         bind (reads (checked_recent_blockhashes (env_sysvar_cache env) ic 1)) (\<lambda>recent_blockhashes.
         bind (fail_if (recent_blockhashes = [])
                (system_error_into system_error.NonceNoRecentBlockhashes)) (\<lambda>_.
         bind (reads (checked_rent (env_sysvar_cache env) ic 2)) (\<lambda>rent.
           initialize_nonce_account env me authority rent)))) tc = (Inr (), tc')"
    by (auto elim!: bind_okE lift_okE)
  then show ?thesis
  proof (rule refine_scoped)
    let ?new = "Current (Initialized (nonce_data_new authority (next_nonce env) (env_lamports_per_signature env)))"
    fix b s u
    assume "bind (reads (checked_recent_blockhashes (env_sysvar_cache env) ic 1)) (\<lambda>recent_blockhashes.
         bind (fail_if (recent_blockhashes = [])
                (system_error_into system_error.NonceNoRecentBlockhashes)) (\<lambda>_.
         bind (reads (checked_rent (env_sysvar_cache env) ic 2)) (\<lambda>rent.
           initialize_nonce_account env b authority rent))) s = (Inr (), u)"
    then obtain rent where rent: "sc_rent (env_sysvar_cache env) = Some rent"
      and init: "initialize_nonce_account env b authority rent s = (Inr (), u)"
      by (auto elim!: bind_okE reads_okE fail_if_okE dest: checked_rent_ok)
    from init obtain st where st: "nonce_of env (account_at s (ba_index b)) = Some st"
      "versions_state st = Uninitialized"
      "minimum_balance rent (length (acc_data (account_at s (ba_index b)))) \<le> acc_lamports (account_at s (ba_index b))"
      "set_state (env_nonce env) b ?new s = (Inr (), u)"
      by (auto simp: initialize_nonce_account_def effect_simps versions_new_def ba_reads not_less
          dest!: get_state_ok split: if_splits sum.splits nonce_state.splits)
    assume b: "ba_index b < num_accounts s" "ba_index b = tx_index ic 0"
    from st(4) b(1) obtain m where "stores env (ba_index b) ?new (account_at s) m" "accounts_to s m u"
      by (rule set_state_stores)
    then show "\<exists>m. accounts_to s m u \<and> system_step env ic signers (tc_account_keys s) (num_accounts s)
        (account_at s) (InitializeNonceAccount authority) m"
      using system_step.initialize [where m = "account_at s", OF b(2,1) st(1,2) rent st(3)] by blast
  qed
qed

lemma refine_authorize:
  assumes "execute_instruction env ic signers (AuthorizeNonceAccount authority) tc = (Inr (), tc')"
  shows "refines env ic signers tc (AuthorizeNonceAccount authority) tc'"
proof -
  from assms have "with_instruction_account ic 0
      (\<lambda>me. authorize_nonce_account env me authority signers) tc = (Inr (), tc')"
    by (auto elim!: bind_okE lift_okE)
  then show ?thesis
  proof (rule refine_scoped)
    fix b s u
    assume "authorize_nonce_account env b authority signers s = (Inr (), u)"
    then obtain st st' where st: "nonce_of env (account_at s (ba_index b)) = Some st"
      "versions_authorize st signers authority = Inr st'" "set_state (env_nonce env) b st' s = (Inr (), u)"
      by (auto simp: authorize_nonce_account_def effect_simps dest!: get_state_ok
          split: if_splits sum.splits authorize_nonce_error.splits)
    assume b: "ba_index b < num_accounts s" "ba_index b = tx_index ic 0"
    from st(3) b(1) obtain m where "stores env (ba_index b) st' (account_at s) m" "accounts_to s m u"
      by (rule set_state_stores)
    then show "\<exists>m. accounts_to s m u \<and> system_step env ic signers (tc_account_keys s) (num_accounts s)
        (account_at s) (AuthorizeNonceAccount authority) m"
      using system_step.authorize [where m = "account_at s", OF b(2,1) st(1,2)] by blast
  qed
qed

lemma refine_upgrade:
  assumes "execute_instruction env ic signers UpgradeNonceAccount tc = (Inr (), tc')"
  shows "refines env ic signers tc UpgradeNonceAccount tc'"
proof -
  from assms have "with_instruction_account ic 0 (\<lambda>me. upgrade_nonce_account env me) tc = (Inr (), tc')"
    by (auto elim!: bind_okE lift_okE)
  then show ?thesis
  proof (rule refine_scoped)
    fix b s u
    assume "upgrade_nonce_account env b s = (Inr (), u)"
    then obtain st st' where st: "nonce_of env (account_at s (ba_index b)) = Some st"
      "versions_upgrade (env_sha256 env) st = Some st'" "acc_owner (account_at s (ba_index b)) = system_program_id"
      "set_state (env_nonce env) b st' s = (Inr (), u)"
      by (auto simp: upgrade_nonce_account_def effect_simps ba_reads dest!: get_state_ok
          split: if_splits sum.splits option.splits)
    assume b: "ba_index b < num_accounts s" "ba_index b = tx_index ic 0"
    from st(4) b(1) obtain m where "stores env (ba_index b) st' (account_at s) m" "accounts_to s m u"
      by (rule set_state_stores)
    then show "\<exists>m. accounts_to s m u \<and> system_step env ic signers (tc_account_keys s) (num_accounts s)
        (account_at s) UpgradeNonceAccount m"
      using system_step.upgrade [where m = "account_at s", OF b(2,1) st(1,2,3)] by blast
  qed
qed

text \<open>A withdrawal: the signer is found, the state perhaps reset, and the lamports moved.\<close>

lemma withdraw_signer_okE:
  assumes "withdraw_signer env b v rent st s = (Inr signer, u)" "ba_index b < num_accounts s"
  defines "a \<equiv> account_at s (ba_index b)"
  obtains
    (uninitialized) "versions_state st = Uninitialized" "u = s" "signer = tc_account_keys s ! ba_index b"
      "v \<le> acc_lamports a"
  | (part) d where "versions_state st = Initialized d" "u = s" "signer = nd_authority d"
      "unat v + unat (minimum_balance rent (length (acc_data a))) \<le> unat (acc_lamports a)"
  | (close) d m where "versions_state st = Initialized d" "signer = nd_authority d"
      "nd_durable_nonce d \<noteq> next_nonce env" "v = acc_lamports a"
      "stores env (ba_index b) (Current Uninitialized) (account_at s) m" "accounts_to s m u"
proof (cases "versions_state st")
  case Uninitialized
  with assms(1) show thesis
    by (intro uninitialized)
      (auto simp: withdraw_signer_def effect_simps ba_reads a_def get_key_def split: if_splits)
next
  case (Initialized d)
  show thesis
  proof (cases "v = get_lamports b s")
    case True
    with assms(1) Initialized have ok: "nd_durable_nonce d \<noteq> next_nonce env" "signer = nd_authority d"
      "set_state (env_nonce env) b (Current Uninitialized) s = (Inr (), u)"
      by (auto simp: withdraw_signer_def effect_simps versions_new_def split: if_splits sum.splits prod.splits)
    from ok(3) assms(2) obtain m where "stores env (ba_index b) (Current Uninitialized) (account_at s) m"
      "accounts_to s m u" by (rule set_state_stores)
    then show thesis using Initialized ok True by (intro close) (auto simp: a_def ba_reads)
  next
    case False
    with assms(1) Initialized obtain amount where
      "checked_add v (minimum_balance rent (length (acc_data a))) = Some amount"
      "\<not> acc_lamports a < amount" "u = s" "signer = nd_authority d"
      by (auto simp: withdraw_signer_def effect_simps ba_reads a_def ok_or_def split: if_splits option.splits)
    then show thesis using Initialized
      by (intro part) (auto simp: not_less word_le_nat_alt dest: checked_add_Some)
  qed
qed

lemma withdraw_okE:
  assumes "withdraw_nonce_account env 0 v 1 rent signers ic tc = (Inr (), tc')"
  obtains st b s signer u m where "ba_index b = tx_index ic 0" "ba_index b < num_accounts s"
    "account_at s = account_at tc" "tc_account_keys s = tc_account_keys tc" "num_accounts s = num_accounts tc"
    "nonce_of env (account_at s (ba_index b)) = Some st"
    "withdraw_signer env b v rent st s = (Inr signer, u)" "signer \<in> set signers"
    "accounts_to s m u" "movable (num_accounts tc) (tx_index ic 0) (tx_index ic 1) v m"
    "accounts_to tc (move (tx_index ic 0) (tx_index ic 1) v m) tc'"
proof -
  from assms obtain t where
    src: "with_instruction_account ic 0 (\<lambda>from. bind (fail_if (\<not> is_writable from) InvalidArgument) (\<lambda>_.
             bind (reads (get_state (env_nonce env) from)) (\<lambda>state.
             bind (withdraw_signer env from v rent state) (\<lambda>signer.
             bind (fail_if (signer \<notin> set signers) MissingRequiredSignature) (\<lambda>_.
               checked_sub_lamports from v))))) tc = (Inr (), t)"
    and dst: "with_instruction_account ic 1 (\<lambda>to. checked_add_lamports to v) t = (Inr (), tc')"
    unfolding withdraw_nonce_account_def by (auto elim!: bind_okE)
  from src obtain b s w where s: "ba_index b = tx_index ic 0" "ba_index b < num_accounts s"
    "account_at s = account_at tc" "tc_account_keys s = tc_account_keys tc" "num_accounts s = num_accounts tc"
    "bind (fail_if (\<not> is_writable b) InvalidArgument) (\<lambda>_.
             bind (reads (get_state (env_nonce env) b)) (\<lambda>state.
             bind (withdraw_signer env b v rent state) (\<lambda>signer.
             bind (fail_if (signer \<notin> set signers) MissingRequiredSignature) (\<lambda>_.
               checked_sub_lamports b v)))) s = (Inr (), w)"
    "\<forall>m. accounts_to s m w \<longrightarrow> accounts_to tc m t"
    by (rule scoped_okE)
  from s(6) obtain st signer u where w: "get_state (env_nonce env) b s = Inr st"
    "withdraw_signer env b v rent st s = (Inr signer, u)" "signer \<in> set signers"
    "checked_sub_lamports b v u = (Inr (), w)"
    by (auto elim!: bind_okE reads_okE fail_if_okE)
  have "\<exists>m. accounts_to s m u"
    using w(2) s(2) by (rule withdraw_signer_okE) (auto intro: accounts_to_refl)
  then obtain m where m: "accounts_to s m u" ..
  then have u: "account_at u = m" "num_accounts u = num_accounts s" by (simp_all add: accounts_to_def)
  note sub = checked_sub_lamports_okE [OF w(4), unfolded u, OF s(2)]
  have "accounts_to s (debit (ba_index b) v m) w"
    using accounts_to_trans [OF m sub(2)] u by (simp add: debit_def ba_account_def get_lamports_def)
  then have t: "accounts_to tc (debit (tx_index ic 0) v m) t" using s(1,7) by simp
  from dst obtain c y where c: "ba_index c = tx_index ic 1" "tx_index ic 1 < num_accounts t"
    "checked_add_lamports c v (set_borrow_at (tx_index ic 1) WRITING t) = (Inr (), y)"
    "tc' = set_borrow_at (tx_index ic 1) UNUSED y"
    by (rule with_instruction_account_okE)
  note add = checked_add_lamports_okE [OF c(3)]
  have tm: "account_at t = debit (tx_index ic 0) v m" "num_accounts t = num_accounts tc"
    using t by (simp_all add: accounts_to_def)
  have "accounts_to t (credit (tx_index ic 1) v (account_at t)) tc'"
    using add(2) c by (simp add: credit_def ba_account_def get_lamports_def)
  then have final: "accounts_to tc (move (tx_index ic 0) (tx_index ic 1) v m) tc'"
    using accounts_to_trans [OF t] tm by (simp add: move_def)
  have "movable (num_accounts tc) (tx_index ic 0) (tx_index ic 1) v m"
    using sub(1) add(1) c tm s u by (simp add: movable_def get_lamports_def ba_account_def)
  then show thesis using that [OF s(1-5) get_state_ok [OF w(1)] w(2,3) m _ final] by blast
qed

lemma refine_withdraw:
  assumes "execute_instruction env ic signers (WithdrawNonceAccount v) tc = (Inr (), tc')"
  shows "refines env ic signers tc (WithdrawNonceAccount v) tc'"
proof -
  from assms obtain rent where rent: "sc_rent (env_sysvar_cache env) = Some rent"
    and "withdraw_nonce_account env 0 v 1 rent signers ic tc = (Inr (), tc')"
    by (auto elim!: bind_okE lift_okE reads_okE dest: checked_rent_ok)
  from this(2) obtain st b s signer u m where s: "ba_index b = tx_index ic 0" "ba_index b < num_accounts s"
    "account_at s = account_at tc" "tc_account_keys s = tc_account_keys tc" "num_accounts s = num_accounts tc"
    "nonce_of env (account_at s (ba_index b)) = Some st"
    "withdraw_signer env b v rent st s = (Inr signer, u)" "signer \<in> set signers"
    "accounts_to s m u" "movable (num_accounts tc) (tx_index ic 0) (tx_index ic 1) v m"
    "accounts_to tc (move (tx_index ic 0) (tx_index ic 1) v m) tc'"
    by (rule withdraw_okE)
  have m: "m = account_at u" using s(9) by (simp add: accounts_to_def)
  have st: "nonce_of env (account_at tc (tx_index ic 0)) = Some st" using s(1,3,6) by simp
  have "system_step env ic signers (tc_account_keys tc) (num_accounts tc) (account_at tc)
      (WithdrawNonceAccount v) (move (tx_index ic 0) (tx_index ic 1) v m)"
    using s(7,2)
  proof (cases rule: withdraw_signer_okE)
    case uninitialized
    with m s(3) have mt: "m = account_at tc" by simp
    have "tc_account_keys tc ! tx_index ic 0 \<in> set signers" using uninitialized(3) s(1,4,8) by simp
    then show ?thesis
      unfolding mt using s(10) [unfolded mt]
      by (rule system_step.withdraw_uninitialized [where m = "account_at tc", OF refl refl st uninitialized(1)])
  next
    case (part d)
    with m s(3) have mt: "m = account_at tc" by simp
    have "nd_authority d \<in> set signers" using part(3) s(8) by simp
    moreover have "unat v + unat (minimum_balance rent (length (acc_data (account_at tc (tx_index ic 0)))))
        \<le> unat (acc_lamports (account_at tc (tx_index ic 0)))" using part(4) s(1,3) by simp
    ultimately show ?thesis
      unfolding mt using s(10) [unfolded mt]
      by (intro system_step.withdraw_part [where m = "account_at tc", OF refl refl st part(1) _ rent])
  next
    case (close d m')
    then have mm: "m' = m" using m by (simp add: accounts_to_def)
    have "nd_authority d \<in> set signers" using close(2) s(8) by simp
    moreover have "v = acc_lamports (account_at tc (tx_index ic 0))" using close(4) s(1,3) by simp
    moreover have "stores env (tx_index ic 0) (Current Uninitialized) (account_at tc) m"
      using close(5) s(1,3) mm by simp
    ultimately show ?thesis
      using s(10) by (intro system_step.withdraw_close [where m = "account_at tc", OF refl refl st close(1) _ close(3)])
  qed
  with s(11) show ?thesis by (rule refinesI)
qed

theorem refine_execute:
  assumes "execute_instruction env ic signers instruction tc = (Inr (), tc')"
  shows "refines env ic signers tc instruction tc'"
  using assms
  by (cases instruction; hypsubst)
    (erule refine_create refine_assign refine_transfer refine_create_seed refine_advance refine_withdraw
      refine_initialize refine_authorize refine_allocate refine_allocate_seed refine_assign_seed
      refine_transfer_seed refine_upgrade)+

subsection \<open>Consequences\<close>

lemma total_lamports_move:
  assumes "movable n f t v m"
  shows "total_lamports n (move f t v m) = total_lamports n m"
proof -
  have m: "f < n" "t < n" "v \<le> acc_lamports (m f)"
    "unat (acc_lamports (debit f v m t)) + unat v < 2 ^ 64"
    using assms by (simp_all add: movable_def)
  have "total_lamports n (move f t v m) = total_lamports n (debit f v m) + unat v"
    unfolding move_def using m(2,4) by (rule total_lamports_credit)
  also have "\<dots> = total_lamports n m" using m(1,3) by (rule total_lamports_debit)
  finally show ?thesis .
qed

lemma stores_same_balances: "stores env i st m m' \<Longrightarrow> same_balances m m'"
  by (auto simp: stores_def same_balances_def)

lemma create_at_same_balances: "same_balances m (create_at i space owner m)"
  by (simp add: same_balances_def create_at_def)

lemmas same_balances_rules = total_lamports_same [OF stores_same_balances]
  total_lamports_same [OF create_at_same_balances]

lemma create_step_conserves:
  "create_step env ic signers keys n v space owner ws m m' \<Longrightarrow> total_lamports n m' = total_lamports n m"
  by (induction rule: create_step.induct) (simp add: total_lamports_move same_balances_rules)

lemma system_step_conserves:
  "system_step env ic signers keys n m instruction m' \<Longrightarrow> total_lamports n m' = total_lamports n m"
proof (induction rule: system_step.induct)
  case (assign f m owner)
  show ?case by (rule total_lamports_same) (simp add: same_balances_def)
next
  case (assign_seed f base seed owner m)
  show ?case by (rule total_lamports_same) (simp add: same_balances_def)
next
  case (allocate f m space)
  show ?case by (rule total_lamports_same) (simp add: same_balances_def)
next
  case (withdraw_close f t m st d v m')
  then show ?case by (simp add: total_lamports_move same_balances_rules)
qed (simp_all add: create_step_conserves total_lamports_move same_balances_rules)

end
