(* ===== verification/System_Properties.thy ===== *)
theory System_Properties
  imports System_Refinement Example_Context
begin

section \<open>Properties of the system program\<close>

text \<open>
  What the refinement and the access contract give for the entry point of the system program:
  the abstract step it performs, conservation of lamports, the authority behind every debit and
  every change of owner, and the state machine of nonce accounts.
\<close>

lemma system_process_okE:
  assumes "system_process_instruction env tc = (Inr (), tc')"
  obtains ic instruction signers where "get_current_instruction_context tc = Inr ic"
    "limited_deserialize (env_decode env) (ic_instruction_data ic) = Inr instruction"
    "get_signers ic tc = Inr signers" "execute_instruction env ic signers instruction tc = (Inr (), tc')"
  using assms unfolding system_process_instruction_def
  by (auto elim!: bind_okE lift_okE reads_okE)

lemma keeps_system_process:
  assumes "get_current_instruction_context tc = Inr ic" "wf_ic ic"
  shows "safe_rel ic tc (snd (system_process_instruction env tc))"
proof -
  have "keeps (safe_rel ic) (bind (lift (limited_deserialize (env_decode env) (ic_instruction_data ic)))
      (\<lambda>instruction. bind (reads (get_signers ic)) (\<lambda>signers. execute_instruction env ic signers instruction)))"
    by (intro system_rules keeps_execute_instruction assms(2))
  then have "safe_rel ic tc (snd (bind (lift (limited_deserialize (env_decode env) (ic_instruction_data ic)))
      (\<lambda>instruction. bind (reads (get_signers ic)) (\<lambda>signers. execute_instruction env ic signers instruction)) tc))"
    by (simp add: keeps_def)
  then show ?thesis
    using assms(1) by (simp add: system_process_instruction_def bind_apply [of "reads _"] reads_apply)
qed

subsection \<open>Authority\<close>

text \<open>Why an account may be debited by a system instruction.\<close>

definition debit_authority ::
  "invoke_env \<Rightarrow> instruction_context \<Rightarrow> pubkey list \<Rightarrow> pubkey list \<Rightarrow> ledger \<Rightarrow> nat \<Rightarrow> bool" where
  "debit_authority env ic signers keys m k \<longleftrightarrow> k = tx_index ic 0 \<and>
     (signer_flag ic 0 \<or>
      (signer_flag ic 1 \<and> (\<exists>seed owner.
         create_with_seed (env_sha256 env) (keys ! tx_index ic 1) seed owner = Inr (keys ! k))) \<or>
      keys ! k \<in> set signers \<or>
      (\<exists>st d. nonce_of env (m k) = Some st \<and> versions_state st = Initialized d \<and>
         nd_authority d \<in> set signers))"

lemma move_decrease:
  assumes "movable n f t v m" "acc_lamports (move f t v m k) < acc_lamports (m k)"
  shows "k = f"
proof (rule ccontr)
  assume k: "k \<noteq> f"
  have "acc_lamports (m k) \<le> acc_lamports (move f t v m k)"
  proof (cases "k = t")
    case True
    then have "unat (acc_lamports (m k)) + unat v < 2 ^ 64"
      using assms(1) k by (simp add: movable_def debit_def)
    then show ?thesis using True k
      by (simp add: move_def credit_def debit_def word_le_nat_alt unat_word_ariths)
  qed (use k in \<open>simp add: move_def credit_def debit_def\<close>)
  with assms(2) show False by simp
qed

lemma create_at_lamports [simp]: "acc_lamports (create_at i space owner m k) = acc_lamports (m k)"
  by (simp add: create_at_def)

lemma stores_lamports: "stores env i st m m' \<Longrightarrow> acc_lamports (m' k) = acc_lamports (m k)"
  using stores_same_balances by (auto simp: same_balances_def)

lemma system_step_debit:
  assumes "system_step env ic signers keys n m instruction m'"
    and "acc_lamports (m' k) < acc_lamports (m k)"
  shows "debit_authority env ic signers keys m k"
  using assms
proof (induction rule: system_step.induct)
  case (create v space owner m m')
  then show ?case
    by (auto simp: create_step.simps debit_authority_def dest!: move_decrease)
next
  case (create_seed v space owner base seed m m')
  then show ?case
    by (auto simp: create_step.simps debit_authority_def dest!: move_decrease)
next
  case (transfer f t m v)
  then show ?case by (auto simp: debit_authority_def dest!: move_decrease)
next
  case (transfer_seed f t seed owner m v)
  then show ?case by (auto simp: debit_authority_def derived_address_def dest!: move_decrease)
next
  case (withdraw_uninitialized f t m st v)
  then show ?case by (auto simp: debit_authority_def dest!: move_decrease)
next
  case (withdraw_part f t m st d rent v)
  then have "k = f" by (blast dest: move_decrease)
  then show ?case using withdraw_part unfolding debit_authority_def by blast
next
  case (withdraw_close f t m st d v m')
  then have "acc_lamports (move f t v m' k) < acc_lamports (m' k)" by (simp add: stores_lamports)
  then have "k = f" using withdraw_close by (blast dest: move_decrease)
  then show ?case using withdraw_close unfolding debit_authority_def by blast
qed (auto simp: stores_lamports split: if_splits)

lemma move_only_balances:
  "acc_owner (move f t v m k) = acc_owner (m k)" "acc_data (move f t v m k) = acc_data (m k)"
  "acc_executable (move f t v m k) = acc_executable (m k)"
  by (simp_all add: move_def credit_def debit_def)

lemma system_step_owner:
  assumes "system_step env ic signers keys n m instruction m'" "acc_owner (m' k) \<noteq> acc_owner (m k)"
  shows "\<exists>with_seed. authorized env signers (keys ! k) with_seed"
  using assms
  by (induction rule: system_step.induct)
    (auto simp: create_step.simps move_only_balances create_at_def stores_def split: if_splits)

subsection \<open>Nonce accounts\<close>

text \<open>
  The state machine of a nonce account. Advancing, changing the authority and closing need the
  signature of the authority; anyone may initialize an uninitialized account or upgrade a
  legacy one.
\<close>

inductive nonce_transition ::
  "invoke_env \<Rightarrow> pubkey list \<Rightarrow> nonce_versions \<Rightarrow> nonce_versions \<Rightarrow> bool" for env signers where
  keep: "nonce_transition env signers st st"
| initialize: "versions_state st = Uninitialized \<Longrightarrow>
     nonce_transition env signers st
       (Current (Initialized (nonce_data_new authority (next_nonce env) (env_lamports_per_signature env))))"
| advance: "versions_state st = Initialized d \<Longrightarrow> nd_authority d \<in> set signers \<Longrightarrow>
     nd_durable_nonce d \<noteq> next_nonce env \<Longrightarrow>
     nonce_transition env signers st
       (Current (Initialized (nonce_data_new (nd_authority d) (next_nonce env) (env_lamports_per_signature env))))"
| authorize: "versions_authorize st signers authority = Inr st' \<Longrightarrow> nonce_transition env signers st st'"
| upgrade: "versions_upgrade (env_sha256 env) st = Some st' \<Longrightarrow> nonce_transition env signers st st'"
| close: "versions_state st = Initialized d \<Longrightarrow> nd_authority d \<in> set signers \<Longrightarrow>
     nd_durable_nonce d \<noteq> next_nonce env \<Longrightarrow> nonce_transition env signers st (Current Uninitialized)"

text \<open>
  What is assumed of the third-party functions: the laws of the codec on nonce states with 32-byte
  keys, that decoding yields such states and instructions with such keys, and hashes of 32 bytes.
\<close>

definition env_ok :: "invoke_env \<Rightarrow> bool" where
  "env_ok env \<longleftrightarrow> bincode_laws (env_nonce env) wf_nonce_versions \<and>
     (\<forall>bs v. bc_deserialize (env_nonce env) bs = Some v \<longrightarrow> v \<in> wf_nonce_versions) \<and>
     (\<forall>limit bs x. env_decode env limit bs = Some x \<longrightarrow> (\<forall>k\<in>set (instruction_keys x). wf_key k)) \<and>
     (\<forall>bs. wf_key (env_sha256 env bs))"

lemma env_ok_example: "env_ok example_env"
  by (auto simp: env_ok_def example_env_def nonce_codec_laws nonce_codec_wf limited_decode_keys)
    (simp add: wf_key_def example_sha256_def PUBKEY_BYTES_def)

lemma wf_next_nonce: "env_ok env \<Longrightarrow> wf_key (next_nonce env)"
  by (simp add: env_ok_def durable_nonce_from_blockhash_def hashv_def)

lemma wf_nonce_of: "env_ok env \<Longrightarrow> nonce_of env a = Some st \<Longrightarrow> st \<in> wf_nonce_versions"
  by (simp add: env_ok_def nonce_of_def)

lemma stores_nonce_of:
  assumes "env_ok env" "st \<in> wf_nonce_versions" "stores env i st m m'"
  shows "nonce_of env (m' i) = Some st"
proof -
  have laws: "bincode_laws (env_nonce env) wf_nonce_versions" using assms(1) by (simp add: env_ok_def)
  obtain enc where enc: "\<And>d. bc_serialize_into (env_nonce env) st d =
      (if length enc \<le> length d then Some (enc @ drop (length enc) d) else None)"
    "\<And>rest. bc_deserialize (env_nonce env) (enc @ rest) = Some st"
    using bincode_lawsE [OF laws assms(2)] by metis
  from assms(3) enc(1) have "m' i = (m i)\<lparr>acc_data := slice_write (acc_data (m i))
      (enc @ drop (length enc) (acc_data (m i)))\<rparr>" "length enc \<le> length (acc_data (m i))"
    by (auto simp: stores_def split: if_splits)
  then show ?thesis using enc(2) by (simp add: nonce_of_def slice_write_same_length)
qed

lemma stores_other: "stores env i st m m' \<Longrightarrow> k \<noteq> i \<Longrightarrow> m' k = m k"
  by (auto simp: stores_def)

lemma wf_new_nonce:
  "env_ok env \<Longrightarrow> wf_key authority \<Longrightarrow>
     Current (Initialized (nonce_data_new authority (next_nonce env) fee)) \<in> wf_nonce_versions"
  by (simp add: wf_nonce_versions_def nonce_data_new_def wf_next_nonce)

lemma wf_authority:
  "st \<in> wf_nonce_versions \<Longrightarrow> versions_state st = Initialized d \<Longrightarrow> wf_key (nd_authority d)"
  by (simp add: wf_nonce_versions_def)

lemma wf_upgrade:
  "env_ok env \<Longrightarrow> st \<in> wf_nonce_versions \<Longrightarrow> versions_upgrade (env_sha256 env) st = Some st' \<Longrightarrow>
     st' \<in> wf_nonce_versions"
  by (cases "(env_sha256 env, st)" rule: versions_upgrade.cases)
    (auto simp: wf_nonce_versions_def env_ok_def durable_nonce_from_blockhash_def hashv_def)

lemma wf_authorize:
  assumes "st \<in> wf_nonce_versions" "wf_key authority" "versions_authorize st signers authority = Inr st'"
  shows "st' \<in> wf_nonce_versions"
  using assms(3) by (rule authorize_keeps_version_and_nonce)
    (use assms(1,2) in \<open>simp add: wf_nonce_versions_def\<close>)

lemma nonce_of_data: "acc_data a = acc_data a' \<Longrightarrow> nonce_of env a = nonce_of env a'"
  by (simp add: nonce_of_def)

lemma nonce_kept:
  assumes "nonce_of env (m k) = Some st" "acc_data (m' k) = acc_data (m k)"
  shows "\<exists>st'. nonce_of env (m' k) = Some st' \<and> nonce_transition env signers st st'"
  using assms nonce_of_data [of "m' k" "m k"] by (auto intro: nonce_transition.keep)

lemma nonce_stored:
  assumes "env_ok env" "stores env f new m m'" "new \<in> wf_nonce_versions" "nonce_of env (m k) = Some st"
    and "k = f \<Longrightarrow> nonce_transition env signers st new"
  shows "\<exists>st'. nonce_of env (m' k) = Some st' \<and> nonce_transition env signers st st'"
proof (cases "k = f")
  case True
  then show ?thesis using stores_nonce_of [OF assms(1,3,2)] assms(5) by auto
next
  case False
  then show ?thesis using stores_other [OF assms(2)] assms(4) by (intro nonce_kept) auto
qed

lemma create_step_data:
  "create_step env ic signers keys n v space owner ws m m' \<Longrightarrow> acc_data (m k) \<noteq> [] \<Longrightarrow>
     acc_data (m' k) = acc_data (m k)"
  by (auto simp: create_step.simps move_only_balances create_at_def fresh_account_def)

lemma system_step_nonce:
  assumes "system_step env ic signers keys n m instruction m'" "env_ok env"
    and "\<forall>key\<in>set (instruction_keys instruction). wf_key key"
    and "nonce_of env (m k) = Some st" "acc_data (m k) \<noteq> []"
  shows "\<exists>st'. nonce_of env (m' k) = Some st' \<and> nonce_transition env signers st st'"
  using assms(1)
proof cases
  case (advance f st0 d)
  then have "wf_key (nd_authority d)" using assms(2) wf_nonce_of wf_authority by blast
  then show ?thesis
    using advance assms(2,4) by (intro nonce_stored [OF assms(2) advance(8)] wf_new_nonce)
      (auto intro: nonce_transition.advance)
next
  case (initialize f st0 rent authority)
  then show ?thesis
    using assms(2,3,4) by (intro nonce_stored [OF assms(2) initialize(8)] wf_new_nonce)
      (auto intro: nonce_transition.initialize)
next
  case (authorize f st0 authority st')
  then show ?thesis
    using assms(2,3,4) wf_nonce_of
    by (intro nonce_stored [OF assms(2) authorize(6)]) (auto intro: nonce_transition.authorize wf_authorize)
next
  case (upgrade f st0 st')
  then show ?thesis
    using assms(2,4) wf_nonce_of
    by (intro nonce_stored [OF assms(2) upgrade(7)]) (auto intro: nonce_transition.upgrade wf_upgrade)
next
  case (withdraw_close f t st0 d v m'')
  have "\<exists>st'. nonce_of env (m'' k) = Some st' \<and> nonce_transition env signers st st'"
    using withdraw_close assms(2,4)
    by (intro nonce_stored [OF assms(2) withdraw_close(10)])
      (auto simp: wf_nonce_versions_def intro: nonce_transition.close)
  moreover have "nonce_of env (m' k) = nonce_of env (m'' k)"
    using withdraw_close by (intro nonce_of_data) (simp add: move_only_balances)
  ultimately show ?thesis by simp
qed (rule nonce_kept [where m = m, OF assms(4)],
     use assms(5) in \<open>auto simp: create_step_data move_only_balances create_at_def\<close>)+

inductive_cases advance_stepE: "system_step env ic signers keys n m AdvanceNonceAccount m'"

lemma advance_stores_next:
  assumes "system_step env ic signers keys n m AdvanceNonceAccount m'" "env_ok env"
  obtains d where "nonce_of env (m' (tx_index ic 0)) = Some (Current (Initialized d))"
    "nd_durable_nonce d = next_nonce env"
proof -
  from assms(1) have "\<exists>st d. nonce_of env (m (tx_index ic 0)) = Some st \<and> versions_state st = Initialized d \<and>
    stores env (tx_index ic 0) (Current (Initialized (nonce_data_new (nd_authority d) (next_nonce env)
      (env_lamports_per_signature env)))) m m'"
    by (rule advance_stepE) auto
  then obtain st d where a: "nonce_of env (m (tx_index ic 0)) = Some st" "versions_state st = Initialized d"
    "stores env (tx_index ic 0) (Current (Initialized (nonce_data_new (nd_authority d) (next_nonce env)
      (env_lamports_per_signature env)))) m m'"
    by blast
  have "wf_key (nd_authority d)" using a assms(2) wf_nonce_of wf_authority by blast
  then have "nonce_of env (m' (tx_index ic 0)) = Some (Current (Initialized (nonce_data_new (nd_authority d)
      (next_nonce env) (env_lamports_per_signature env))))"
    by (intro stores_nonce_of [OF assms(2) _ a(3)] wf_new_nonce assms(2))
  then show thesis by (rule that) (simp add: nonce_data_new_def)
qed

lemma advance_needs_fresh:
  assumes "system_step env ic signers keys n m AdvanceNonceAccount m'"
    and "nonce_of env (m (tx_index ic 0)) = Some (Current (Initialized d))"
  shows "nd_durable_nonce d \<noteq> next_nonce env"
  using assms(1) by (rule advance_stepE) (use assms(2) in auto)

subsection \<open>The properties\<close>

text \<open>
  C1: whenever the system program's entry point returns \<open>Ok\<close>, there are a current instruction
  context, a decoded instruction and a set of signers such that the accounts before and after are
  related by the abstract step of that instruction, and account keys, rent, instruction stack,
  trace and return data are unchanged. All thirteen instructions are covered.
\<close>

theorem system_refines:
  assumes "system_process_instruction env tc = (Inr (), tc')"
  shows "\<exists>ic instruction signers. get_current_instruction_context tc = Inr ic \<and>
    limited_deserialize (env_decode env) (ic_instruction_data ic) = Inr instruction \<and>
    get_signers ic tc = Inr signers \<and>
    system_step env ic signers (tc_account_keys tc) (num_accounts tc) (account_at tc) instruction (account_at tc') \<and>
    tc_frame tc' = tc_frame tc \<and> num_accounts tc' = num_accounts tc"
  using assms
proof (rule system_process_okE)
  fix ic instruction signers
  assume a: "get_current_instruction_context tc = Inr ic"
    "limited_deserialize (env_decode env) (ic_instruction_data ic) = Inr instruction"
    "get_signers ic tc = Inr signers" "execute_instruction env ic signers instruction tc = (Inr (), tc')"
  from refine_execute [OF a(4)] a(1-3) show ?thesis unfolding refines_def by blast
qed

theorem system_refines_witness:
  "\<exists>tc' ic signers. system_process_instruction example_env (example_tx (Transfer 5)) = (Inr (), tc') \<and>
     system_step example_env ic signers (tc_account_keys (example_tx (Transfer 5)))
       (num_accounts (example_tx (Transfer 5))) (account_at (example_tx (Transfer 5))) (Transfer 5) (account_at tc')"
proof -
  obtain tc' where tc': "system_process_instruction example_env (example_tx (Transfer 5)) = (Inr (), tc')"
    using transfer_example_run by blast
  have "limited_deserialize (env_decode example_env)
      (ic_instruction_data (example_ic example_metas (enc_system_instruction (Transfer 5)))) = Inr (Transfer 5)"
    by (rule limited_decode_example) (simp_all add: put_u64_def)
  then have "\<exists>ic signers. system_step example_env ic signers (tc_account_keys (example_tx (Transfer 5)))
      (num_accounts (example_tx (Transfer 5))) (account_at (example_tx (Transfer 5))) (Transfer 5) (account_at tc')"
    using system_refines [OF tc'] by (simp only: current_example sum.inject) (elim exE conjE, auto simp only:)
  with tc' show ?thesis by blast
qed

text \<open>
  C19: whenever the system program's entry point returns \<open>Ok\<close>, the sum of the lamports of all
  accounts of the transaction is what it was, as a natural number: nothing is created, destroyed
  or lost to 64-bit wrap-around by any of the thirteen instructions.
\<close>

theorem system_conserves_lamports:
  assumes "system_process_instruction env tc = (Inr (), tc')"
  shows "total_lamports (num_accounts tc') (account_at tc') = total_lamports (num_accounts tc) (account_at tc)"
  using assms
proof (rule system_process_okE)
  fix ic instruction signers
  assume "execute_instruction env ic signers instruction tc = (Inr (), tc')"
  from refine_execute [OF this] show ?thesis
    unfolding refines_def by (auto dest: system_step_conserves)
qed

theorem system_conserves_lamports_witness:
  "\<exists>tc'. system_process_instruction example_env (example_tx (Transfer 5)) = (Inr (), tc') \<and>
     acc_lamports (account_at tc' 2) = 5 \<and>
     total_lamports (num_accounts tc') (account_at tc') =
       total_lamports (num_accounts (example_tx (Transfer 5))) (account_at (example_tx (Transfer 5)))"
  using transfer_example_run system_conserves_lamports by blast

text \<open>
  C20: whatever the outcome, success or error, a run of the system program changes only accounts
  that the instruction may write and that are not executable; it takes lamports from, and
  changes owner, data or executable flag of, only accounts owned by the running program; every
  changed account is marked as touched; the resize counter stays exact and below its limits; and
  every account it borrowed is released.
\<close>

theorem system_access_control:
  assumes "get_current_instruction_context tc = Inr ic" "wf_ic ic"
  shows "safe_rel ic tc (snd (system_process_instruction env tc))"
  using assms by (rule keeps_system_process)

theorem system_access_control_witness:
  "safe_rel (example_ic example_metas (enc_system_instruction (Transfer 5))) (example_tx (Transfer 5))
     (snd (system_process_instruction example_env (example_tx (Transfer 5))))"
  by (rule system_access_control [OF current_example])
    (simp add: wf_ic_def example_ic_def example_metas_def)

text \<open>
  C21: when the system program returns \<open>Ok\<close> and an account has fewer lamports than before, that
  account is the first account of the instruction, and one of these holds: its signer flag is set;
  the second account is a signer and the account's key is derived from it by \<open>create_with_seed\<close>;
  its key is among the signers; or it is an initialized nonce account whose authority signed.
\<close>

theorem system_debit_authorized:
  assumes "system_process_instruction env tc = (Inr (), tc')"
    and "acc_lamports (account_at tc' k) < acc_lamports (account_at tc k)"
  shows "\<exists>ic signers. get_current_instruction_context tc = Inr ic \<and> get_signers ic tc = Inr signers \<and>
    debit_authority env ic signers (tc_account_keys tc) (account_at tc) k"
  using assms(1)
proof (rule system_process_okE)
  fix ic instruction signers
  assume a: "get_current_instruction_context tc = Inr ic" "get_signers ic tc = Inr signers"
    "execute_instruction env ic signers instruction tc = (Inr (), tc')"
  from refine_execute [OF a(3)] have "debit_authority env ic signers (tc_account_keys tc) (account_at tc) k"
    unfolding refines_def using system_step_debit assms(2) by blast
  with a show ?thesis by blast
qed

theorem system_debit_authorized_witness:
  "\<exists>ic signers. get_current_instruction_context (example_tx (Transfer 5)) = Inr ic \<and>
     debit_authority example_env ic signers (tc_account_keys (example_tx (Transfer 5)))
       (account_at (example_tx (Transfer 5))) 1"
proof -
  obtain tc' where tc': "system_process_instruction example_env (example_tx (Transfer 5)) = (Inr (), tc')"
    "acc_lamports (account_at tc' 1) = 995"
    using transfer_example_run by blast
  have "acc_lamports (account_at (example_tx (Transfer 5)) 1) = 1000"
    by (simp add: example_eval del: enc_system_instruction.simps)
  then show ?thesis using system_debit_authorized [OF tc'(1), of 1] tc'(2) by auto
qed

text \<open>
  C27: when the system program returns \<open>Ok\<close> and the owner of an account changed, the account's own
  key, or the base key from which it is derived by \<open>create_with_seed\<close>, is among the signers.
\<close>

theorem system_owner_authorized:
  assumes "system_process_instruction env tc = (Inr (), tc')"
    and "acc_owner (account_at tc' k) \<noteq> acc_owner (account_at tc k)"
  shows "\<exists>ic signers with_seed. get_current_instruction_context tc = Inr ic \<and> get_signers ic tc = Inr signers \<and>
    authorized env signers (tc_account_keys tc ! k) with_seed"
  using assms(1)
proof (rule system_process_okE)
  fix ic instruction signers
  assume a: "get_current_instruction_context tc = Inr ic" "get_signers ic tc = Inr signers"
    "execute_instruction env ic signers instruction tc = (Inr (), tc')"
  from refine_execute [OF a(3)] have "\<exists>ws. authorized env signers (tc_account_keys tc ! k) ws"
    unfolding refines_def using system_step_owner assms(2) by blast
  with a show ?thesis by blast
qed

theorem system_owner_authorized_witness:
  "\<exists>ic signers with_seed. get_current_instruction_context (example_tx (Assign (replicate 32 8))) = Inr ic \<and>
     get_signers ic (example_tx (Assign (replicate 32 8))) = Inr signers \<and>
     authorized example_env signers (tc_account_keys (example_tx (Assign (replicate 32 8))) ! 1) with_seed"
proof -
  obtain tc' where tc': "system_process_instruction example_env (example_tx (Assign (replicate 32 8))) = (Inr (), tc')"
    "acc_owner (account_at tc' 1) = replicate 32 8"
    using assign_example_run by blast
  have "acc_owner (account_at (example_tx (Assign (replicate 32 8))) 1) \<noteq> replicate 32 8"
    by (rule notI, drule arg_cong [of _ _ hd])
      (simp add: example_eval system_program_id_def del: enc_system_instruction.simps)
  then show ?thesis using system_owner_authorized [OF tc'(1), of 1] tc'(2) by auto
qed

text \<open>
  C22: a nonce account only moves along its state machine. When the system program returns \<open>Ok\<close>
  and an account held a nonce state, it holds a nonce state afterwards, reached by one transition:
  unchanged, initialized from uninitialized, advanced to the hash of the current block hash,
  re-authorized, upgraded from the legacy version, or reset by a full withdrawal; advancing,
  re-authorizing and resetting only with the signature of the authority.
\<close>

theorem system_nonce_machine:
  assumes "system_process_instruction env tc = (Inr (), tc')" "env_ok env"
    and "nonce_of env (account_at tc k) = Some st" "acc_data (account_at tc k) \<noteq> []"
  shows "\<exists>ic signers st'. get_current_instruction_context tc = Inr ic \<and> get_signers ic tc = Inr signers \<and>
    nonce_of env (account_at tc' k) = Some st' \<and> nonce_transition env signers st st'"
  using assms(1)
proof (rule system_process_okE)
  fix ic instruction signers
  assume a: "get_current_instruction_context tc = Inr ic" "get_signers ic tc = Inr signers"
    "limited_deserialize (env_decode env) (ic_instruction_data ic) = Inr instruction"
    "execute_instruction env ic signers instruction tc = (Inr (), tc')"
  from a(3) assms(2) have "\<forall>key\<in>set (instruction_keys instruction). wf_key key"
    by (auto simp: limited_deserialize_def env_ok_def)
  with refine_execute [OF a(4)] have
    "\<exists>st'. nonce_of env (account_at tc' k) = Some st' \<and> nonce_transition env signers st st'"
    unfolding refines_def using system_step_nonce assms(2,3,4) by blast
  with a show ?thesis by blast
qed

lemma example_nonce_account:
  "nonce_of example_env (account_at (example_nonce_tx x) 1) = Some example_nonce"
  "acc_data (account_at (example_nonce_tx x) 1) \<noteq> []"
proof -
  have "enc_versions example_nonce \<noteq> []" using length_example_nonce(1) by (metis list.size(3) zero_neq_numeral)
  then show "nonce_of example_env (account_at (example_nonce_tx x) 1) = Some example_nonce"
    "acc_data (account_at (example_nonce_tx x) 1) \<noteq> []"
    by (simp_all add: nonce_of_def example_env_def nonce_eval)
qed

theorem system_nonce_machine_witness:
  "\<exists>tc' signers st'. system_process_instruction example_env (example_nonce_tx AdvanceNonceAccount) = (Inr (), tc') \<and>
     nonce_of example_env (account_at tc' 1) = Some st' \<and> nonce_transition example_env signers example_nonce st' \<and>
     st' = example_advanced"
proof -
  obtain tc' where tc': "system_process_instruction example_env (example_nonce_tx AdvanceNonceAccount) = (Inr (), tc')"
    "acc_data (account_at tc' 1) = enc_versions example_advanced"
    using advance_example_run by blast
  have "nonce_of example_env (account_at tc' 1) = Some example_advanced"
    using tc'(2) by (simp add: nonce_of_def example_env_def decode_example_nonce)
  moreover have "\<exists>signers st'. nonce_of example_env (account_at tc' 1) = Some st' \<and>
      nonce_transition example_env signers example_nonce st'"
    using system_nonce_machine [OF tc'(1) env_ok_example example_nonce_account] by blast
  ultimately show ?thesis using tc'(1) by auto
qed

text \<open>
  C23: a durable nonce cannot be used twice in a slot. After an \<open>AdvanceNonceAccount\<close> that
  returned \<open>Ok\<close>, another one on the same account under the same block hash, in whatever instruction
  and with whatever signers, does not return \<open>Ok\<close>.
\<close>

theorem nonce_advance_once:
  assumes "execute_instruction env ic signers AdvanceNonceAccount tc = (Inr (), tc')" "env_ok env"
    and "account_at s (tx_index ic' 0) = account_at tc' (tx_index ic 0)"
  shows "fst (execute_instruction env ic' signers' AdvanceNonceAccount s) \<noteq> Inr ()"
proof
  assume "fst (execute_instruction env ic' signers' AdvanceNonceAccount s) = Inr ()"
  then obtain s' where s': "execute_instruction env ic' signers' AdvanceNonceAccount s = (Inr (), s')"
    by (metis prod.collapse)
  obtain d where d: "nonce_of env (account_at tc' (tx_index ic 0)) = Some (Current (Initialized d))"
    "nd_durable_nonce d = next_nonce env"
    using refine_execute [OF assms(1)] assms(2) unfolding refines_def by (blast elim: advance_stores_next)
  have "nonce_of env (account_at s (tx_index ic' 0)) = Some (Current (Initialized d))"
    using d(1) assms(3) by simp
  then have "nd_durable_nonce d \<noteq> next_nonce env"
    using refine_execute [OF s'] unfolding refines_def by (blast dest: advance_needs_fresh)
  with d(2) show False by simp
qed

theorem nonce_advance_once_witness:
  "\<exists>tc'. execute_instruction example_env (example_ic example_nonce_metas (enc_system_instruction AdvanceNonceAccount))
       [replicate 32 3] AdvanceNonceAccount (example_nonce_tx AdvanceNonceAccount) = (Inr (), tc') \<and>
     fst (execute_instruction example_env (example_ic example_nonce_metas (enc_system_instruction AdvanceNonceAccount))
       [replicate 32 3] AdvanceNonceAccount tc') \<noteq> Inr ()"
proof -
  have "length (enc_system_instruction AdvanceNonceAccount) \<le> 1232" by simp
  then obtain tc' where "execute_instruction example_env
      (example_ic example_nonce_metas (enc_system_instruction AdvanceNonceAccount))
      [replicate 32 3] AdvanceNonceAccount (example_nonce_tx AdvanceNonceAccount) = (Inr (), tc')"
    using advance_example_run nonce_process_example [of AdvanceNonceAccount] by auto
  then show ?thesis using nonce_advance_once [OF _ env_ok_example refl] by blast
qed

end
