(* ===== verification/Message_Properties.thy ===== *)
theory Message_Properties
  imports Message
begin

section \<open>Properties of messages\<close>

text \<open>
  The optimised tests of the message types agree with their plain meaning, and sanitization rules
  out every panic of the operations on a sanitized message.
\<close>

subsection \<open>The table of first bytes\<close>

lemma fold_mark:
  "length (fold (\<lambda>key table. table[unat (hd key) := True]) keys table) = length (table :: bool list)"
  by (induction keys arbitrary: table) simp_all

lemma fold_mark_keeps:
  "i < length table \<Longrightarrow> table ! i \<Longrightarrow> fold (\<lambda>key table. table[unat (hd key) := True]) keys table ! i"
proof (induction keys arbitrary: table)
  case (Cons k ks)
  then show ?case by (cases "unat (hd k) = i") simp_all
qed simp

lemma fold_mark_member:
  "key \<in> set keys \<Longrightarrow> length table = 256 \<Longrightarrow>
     fold (\<lambda>key table. table[unat (hd key) := True]) keys table ! unat (hd (key :: pubkey))"
proof (induction keys arbitrary: table)
  case (Cons k ks)
  have "unat (hd key) < 256" using unsigned_less [of "hd key"] by simp
  with Cons show ?case by (cases "k = key") (simp_all add: fold_mark_keeps)
qed simp

lemma reserved_key_marked:
  "key \<in> set sysvar_all_ids \<union> set BUILTIN_PROGRAMS_KEYS \<Longrightarrow> MAYBE_BUILTIN_KEY_OR_SYSVAR ! unat (hd key)"
  unfolding MAYBE_BUILTIN_KEY_OR_SYSVAR_def by (intro fold_mark_member) auto

text \<open>
  C34: the test with the table of first bytes is plain membership in the two lists of keys.
\<close>

theorem is_builtin_key_or_sysvar_iff:
  "is_builtin_key_or_sysvar key \<longleftrightarrow> key \<in> set sysvar_all_ids \<union> set BUILTIN_PROGRAMS_KEYS"
  using reserved_key_marked [of key] by (auto simp: is_builtin_key_or_sysvar_def is_sysvar_id_def list_ex_iff)

lemma list_eq_replicate: "xs = replicate n x \<longleftrightarrow> length xs = n \<and> (\<forall>y\<in>set xs. y = x)"
  by (metis replicate_eqI length_replicate in_set_replicate)

lemmas message_id_defs = id_defs sysvar_epoch_schedule_id_def sysvar_epoch_rewards_id_def sysvar_fees_id_def
  sysvar_stake_history_id_def sysvar_last_restart_slot_id_def sysvar_rewards_id_def sysvar_slot_history_id_def
  config_program_id_def feature_id_def stake_program_id_def stake_config_id_def vote_program_id_def bpf_loader_id_def
  bpf_loader_deprecated_id_def bpf_loader_upgradeable_id_def

subsection \<open>Account keys\<close>

lemma segments_get_concat: "segments_get segments i = vec_get (concat segments) i"
  by (induction segments arbitrary: i) (auto simp: vec_get_def nth_append)

lemma account_keys_get_iter: "account_keys_get ak i = vec_get (account_keys_iter ak) i"
  by (simp add: account_keys_get_def account_keys_iter_def segments_get_concat)

lemma any_duplicate_iff: "any_duplicate uniq xs \<longleftrightarrow> \<not> distinct xs \<or> set uniq \<inter> set xs \<noteq> {}"
  by (induction xs arbitrary: uniq) auto

lemma legacy_has_duplicates_iff: "legacy_has_duplicates m \<longleftrightarrow> \<not> distinct (lm_account_keys m)"
proof -
  let ?ks = "lm_account_keys m"
  have "distinct ?ks \<longleftrightarrow> (\<forall>i\<in>{1..<length ?ks}. ?ks ! (i - 1) \<notin> set (drop i ?ks))" (is "_ \<longleftrightarrow> ?R")
  proof
    assume d: "distinct ?ks"
    show ?R
    proof
      fix i
      assume i: "i \<in> {1..<length ?ks}"
      show "?ks ! (i - 1) \<notin> set (drop i ?ks)"
      proof
        assume "?ks ! (i - 1) \<in> set (drop i ?ks)"
        then obtain j where "j < length ?ks - i" "?ks ! (i + j) = ?ks ! (i - 1)"
          by (auto simp: in_set_conv_nth)
        then have "i + j = i - 1" using d i by (simp add: nth_eq_iff_index_eq)
        then show False using i by auto
      qed
    qed
  next
    assume R: ?R
    have "?ks ! a \<noteq> ?ks ! b" if "a < b" "b < length ?ks" for a b
    proof -
      have "?ks ! b \<in> set (drop (Suc a) ?ks)"
        using that by (auto simp: in_set_conv_nth intro!: exI [of _ "b - Suc a"])
      moreover have "?ks ! a \<notin> set (drop (Suc a) ?ks)" using R [rule_format, of "Suc a"] that by simp
      ultimately show ?thesis by metis
    qed
    then show "distinct ?ks" unfolding distinct_conv_nth by (metis nat_neq_iff)
  qed
  then show ?thesis by (auto simp: legacy_has_duplicates_def list_ex_iff)
qed

text \<open>
  C33: both duplicate checks, the quadratic one of legacy messages and the one with a set for
  loaded messages, say whether some account key of the message repeats.
\<close>

theorem msg_has_duplicates_iff:
  "msg_has_duplicates m \<longleftrightarrow> \<not> distinct (account_keys_iter (msg_account_keys m))"
  by (cases m)
    (simp_all add: msg_has_duplicates_def legacy_has_duplicates_iff loaded_has_duplicates_def any_duplicate_iff
      msg_account_keys_def account_keys_iter_def key_segment_iter_def)

subsection \<open>Sanitized messages do not panic\<close>

lemma sanitize_indices_ok: "sanitize_indices n ais = Inr () \<longleftrightarrow> (\<forall>ai\<in>set ais. unat ai < n)"
  by (induction ais) auto

lemma legacy_sanitize_instructions_ok:
  "legacy_sanitize_instructions n ixs = Inr () \<longleftrightarrow>
     (\<forall>ci\<in>set ixs. unat (ci_program_id_index ci) < n \<and> ci_program_id_index ci \<noteq> 0 \<and> (\<forall>ai\<in>set (ci_accounts ci). unat ai < n))"
  by (induction ixs) (auto simp: and_then_Inr sanitize_indices_ok)

lemma v0_sanitize_instructions_ok:
  "v0_sanitize_instructions p a ixs = Inr () \<longleftrightarrow>
     (\<forall>ci\<in>set ixs. unat (ci_program_id_index ci) \<le> p \<and> ci_program_id_index ci \<noteq> 0 \<and> (\<forall>ai\<in>set (ci_accounts ci). unat ai \<le> a))"
  by (induction ixs) (auto simp: list_ex_iff simp flip: not_le)

definition dynamic_key_count :: "message_address_table_lookup list \<Rightarrow> nat" where
  "dynamic_key_count ls = (\<Sum>l\<leftarrow>ls. length (tl_writable_indexes l) + length (tl_readonly_indexes l))"

lemma v0_num_dynamic_keys_ok:
  "v0_num_dynamic_keys ls n = Inr k \<Longrightarrow> k < usize_max \<Longrightarrow> k = n + dynamic_key_count ls"
proof (induction ls arbitrary: n)
  case (Cons l ls)
  let ?w = "length (tl_writable_indexes l)" and ?r = "length (tl_readonly_indexes l)"
  from Cons.prems(1) have "v0_num_dynamic_keys ls (usize_saturating_add n (usize_saturating_add ?w ?r)) = Inr k"
    by (simp add: Let_def split: if_splits)
  with Cons.IH Cons.prems(2)
  have "k = usize_saturating_add n (usize_saturating_add ?w ?r) + dynamic_key_count ls" by blast
  then show ?case using Cons.prems(2) by (simp add: usize_saturating_add_def dynamic_key_count_def)
qed (simp add: dynamic_key_count_def)

lemma decompile_accounts_ok:
  "\<forall>ai\<in>set ais. unat ai < length (account_keys_iter (msg_account_keys m)) \<Longrightarrow> decompile_accounts m ais \<noteq> None"
  by (induction ais) (auto simp: account_keys_get_iter vec_get_def)

lemma decompile_list_ok:
  "\<forall>(p, ix)\<in>set l. p \<noteq> None \<and> decompile_accounts m (ci_accounts ix) \<noteq> None \<Longrightarrow> decompile_list m l \<noteq> None"
  by (induction l) (auto split: option.splits)

definition indices_ok :: "sanitized_message \<Rightarrow> bool" where
  "indices_ok m \<longleftrightarrow>
     (\<forall>ci\<in>set (msg_instructions m).
        0 < unat (ci_program_id_index ci) \<and> unat (ci_program_id_index ci) < length (account_keys_iter (msg_account_keys m)) \<and>
        (\<forall>ai\<in>set (ci_accounts ci). unat ai < length (account_keys_iter (msg_account_keys m))))"

lemma indices_ok_no_panic:
  assumes "indices_ok m"
  shows "decompile_instructions m \<noteq> None"
proof -
  have "p \<noteq> None \<and> decompile_accounts m (ci_accounts ix) \<noteq> None"
    if "(p, ix) \<in> set (program_instructions_iter m)" for p ix
    using assms that decompile_accounts_ok [of "ci_accounts ix" m]
    by (auto simp: program_instructions_iter_def indices_ok_def account_keys_get_iter vec_get_def)
  then show ?thesis unfolding decompile_instructions_def by (intro decompile_list_ok) blast
qed

definition loader_ok :: "(message_address_table_lookup list \<Rightarrow> 'e + loaded_addresses) \<Rightarrow> bool" where
  "loader_ok load \<longleftrightarrow> (\<forall>ls la. load ls = Inr la \<longrightarrow>
     length (la_writable la) = (\<Sum>l\<leftarrow>ls. length (tl_writable_indexes l)) \<and>
     length (la_readonly la) = (\<Sum>l\<leftarrow>ls. length (tl_readonly_indexes l)))"

text \<open>What sanitization establishes of a message.\<close>

definition sane :: "sanitized_message \<Rightarrow> bool" where
  "sane m \<longleftrightarrow> indices_ok m \<and>
     mh_num_readonly_signed_accounts (msg_header m) < mh_num_required_signatures (msg_header m) \<and>
     unat (mh_num_required_signatures (msg_header m)) + unat (mh_num_readonly_unsigned_accounts (msg_header m)) \<le>
       length (ak_static_keys (msg_account_keys m)) \<and>
     (case m of Legacy l \<Rightarrow> l = legacy_sanitized_new (ls_message l)
      | V0 l \<Rightarrow> l = loaded_message_new (ld_message l) (ld_loaded_addresses l))"

lemma try_new_sane:
  assumes "versioned_sanitize vm = Inr ()" "sanitized_message_try_new load vm = Inr m" "loader_ok load"
  shows "sane m"
proof (cases vm)
  case (VLegacy lm)
  have nz: "ci \<noteq> 0 \<Longrightarrow> 0 < unat ci" for ci :: u8 by (simp add: unat_gt_0)
  from VLegacy assms(1) have s: "legacy_sanitize lm = Inr ()" by (simp add: versioned_sanitize_def)
  moreover have m: "m = Legacy (legacy_sanitized_new lm)"
    using assms(2) VLegacy by (simp add: sanitized_message_try_new_def)
  ultimately show ?thesis using nz
    by (auto simp: sane_def legacy_sanitize_def legacy_sanitize_instructions_ok indices_ok_def msg_instructions_def
        msg_account_keys_def account_keys_iter_def key_segment_iter_def legacy_sanitized_new_def msg_header_def
        not_le not_less split: if_splits)
next
  case (VV0 v)
  have nz: "ci \<noteq> 0 \<Longrightarrow> 0 < unat ci" for ci :: u8 by (simp add: unat_gt_0)
  let ?ls = "v0_address_table_lookups v" and ?n = "length (v0_account_keys v)"
  from VV0 assms(1) have s: "v0_sanitize v = Inr ()" by (simp add: versioned_sanitize_def)
  then obtain d where d: "v0_num_dynamic_keys ?ls 0 = Inr d" and n: "?n \<noteq> 0"
    and small: "usize_saturating_add ?n d \<le> 256"
    and ixs: "v0_sanitize_instructions (?n - 1) (usize_saturating_add ?n d - 1) (v0_instructions v) = Inr ()"
    and hdr: "usize_saturating_add (unat (mh_num_required_signatures (v0_header v)))
             (unat (mh_num_readonly_unsigned_accounts (v0_header v))) \<le> ?n"
      "mh_num_readonly_signed_accounts (v0_header v) < mh_num_required_signatures (v0_header v)"
    by (auto simp: v0_sanitize_def Let_def and_then_Inr split: if_splits)
  have "d < usize_max" using small by (auto simp: usize_saturating_add_def usize_max_def)
  with d have dk: "d = dynamic_key_count ?ls" using v0_num_dynamic_keys_ok by fastforce
  obtain la where la: "load ?ls = Inr la" and m: "m = V0 (loaded_message_new v la)"
    using assms(2) VV0 by (auto simp: sanitized_message_try_new_def and_then_Inr map_err_def split: sum.splits)
  have total: "length (account_keys_iter (msg_account_keys m)) = ?n + d"
    using assms(3) la dk
    by (simp add: loader_ok_def m msg_account_keys_def loaded_account_keys_def loaded_message_new_def
        account_keys_iter_def key_segment_iter_def dynamic_key_count_def sum_list_addf)
  have "usize_saturating_add ?n d = ?n + d" using small by (auto simp: usize_saturating_add_def usize_max_def)
  moreover have "unat (mh_num_required_signatures (v0_header v)) + unat (mh_num_readonly_unsigned_accounts (v0_header v)) \<le> ?n"
    using hdr(1) small by (auto simp: usize_saturating_add_def usize_max_def)
  moreover have "msg_instructions m = v0_instructions v" "msg_header m = v0_header v"
    "ak_static_keys (msg_account_keys m) = v0_account_keys v"
    by (simp_all add: m msg_instructions_def loaded_message_new_def msg_header_def Let_def msg_account_keys_def
        loaded_account_keys_def)
  ultimately have "indices_ok m"
    using ixs total n nz by (auto simp: v0_sanitize_instructions_ok indices_ok_def Suc_le_eq [symmetric] le_diff_conv2 Suc_leI)
  then show ?thesis
    using hdr(2) \<open>unat _ + unat _ \<le> ?n\<close>
    by (simp add: sane_def m msg_header_def loaded_message_new_def Let_def msg_account_keys_def loaded_account_keys_def)
qed

text \<open>
  C32: a message that passed sanitization, with its addresses loaded by a loader that returns one
  address for each index of a lookup, has a fee payer that signs and was requested as writable, and
  resolves every program and account index of its instructions, so none of the \<open>expect\<close>s
  and \<open>unwrap\<close>s of the message operations panics; no program is the fee payer.
\<close>

theorem sanitized_message_no_panic:
  assumes "versioned_sanitize vm = Inr ()" "sanitized_message_try_new load vm = Inr m" "loader_ok load"
  shows "(\<exists>payer. msg_fee_payer m = Some payer) \<and> msg_is_signer m 0 \<and>
    (case m of Legacy l \<Rightarrow> legacy_is_writable_index (ls_message l) 0 | V0 l \<Rightarrow> loaded_is_writable_index l 0) \<and>
    decompile_instructions m \<noteq> None \<and> (\<forall>ci\<in>set (msg_instructions m). ci_program_id_index ci \<noteq> 0)"
proof -
  have s: "sane m" using assms by (rule try_new_sane)
  let ?h = "msg_header m"
  have sig: "0 < unat (mh_num_required_signatures ?h)" "unat (mh_num_readonly_signed_accounts ?h) < unat (mh_num_required_signatures ?h)"
    using s by (simp_all add: sane_def word_less_nat_alt)
  moreover have "unat (mh_num_required_signatures ?h) \<le> length (ak_static_keys (msg_account_keys m))"
    using s by (simp add: sane_def)
  ultimately have static: "0 < length (ak_static_keys (msg_account_keys m))" by linarith
  then have "0 < length (account_keys_iter (msg_account_keys m))"
    by (auto simp: account_keys_iter_def key_segment_iter_def split: option.splits)
  then have "\<exists>payer. msg_fee_payer m = Some payer"
    by (simp add: msg_fee_payer_def account_keys_get_iter vec_get_def)
  moreover have "case m of Legacy l \<Rightarrow> legacy_is_writable_index (ls_message l) 0 | V0 l \<Rightarrow> loaded_is_writable_index l 0"
    using sig static
    by (auto simp: legacy_is_writable_index_def loaded_is_writable_index_def msg_header_def msg_account_keys_def
        loaded_account_keys_def unat_sub word_less_nat_alt word_le_nat_alt Let_def split: sanitized_message.splits)
  moreover have "decompile_instructions m \<noteq> None" using s indices_ok_no_panic by (simp add: sane_def)
  moreover have "\<forall>ci\<in>set (msg_instructions m). ci_program_id_index ci \<noteq> 0"
    using s by (auto simp: sane_def indices_ok_def)
  ultimately show ?thesis using sig by (simp add: msg_is_signer_def)
qed

definition example_message :: v0_message where
  "example_message =
     \<lparr>v0_header = \<lparr>mh_num_required_signatures = 1, mh_num_readonly_signed_accounts = 0, mh_num_readonly_unsigned_accounts = 1\<rparr>,
      v0_account_keys = [replicate 32 1, replicate 32 2], v0_recent_blockhash = replicate 32 9,
      v0_instructions = [\<lparr>ci_program_id_index = 1, ci_accounts = [0, 2], ci_data = [7]\<rparr>],
      v0_address_table_lookups = [\<lparr>tl_account_key = replicate 32 3, tl_writable_indexes = [4], tl_readonly_indexes = []\<rparr>]\<rparr>"

definition example_loader :: "message_address_table_lookup list \<Rightarrow> unit + loaded_addresses" where
  "example_loader ls = Inr \<lparr>la_writable = concat (map (map (\<lambda>i. replicate 32 i) \<circ> tl_writable_indexes) ls),
     la_readonly = concat (map (map (\<lambda>i. replicate 32 i) \<circ> tl_readonly_indexes) ls)\<rparr>"

lemma example_loader_ok: "loader_ok example_loader"
  by (auto simp: loader_ok_def example_loader_def length_concat o_def)

theorem sanitized_message_no_panic_witness:
  "\<exists>m. sanitized_message_try_new example_loader (VV0 example_message) = Inr m \<and> decompile_instructions m \<noteq> None \<and> msg_is_signer m 0"
proof -
  have s: "versioned_sanitize (VV0 example_message) = Inr ()"
    by (simp add: versioned_sanitize_def v0_sanitize_def example_message_def Let_def usize_saturating_add_def usize_max_def)
  obtain m where m: "sanitized_message_try_new example_loader (VV0 example_message) = Inr m"
    by (simp add: sanitized_message_try_new_def example_loader_def map_err_def)
  from sanitized_message_no_panic [OF s m example_loader_ok] m show ?thesis by blast
qed

subsection \<open>Write locks\<close>

text \<open>
  The positions that a message asks to write: the signers in front of the read-only ones, the other static keys in
  front of the read-only ones, and the writable addresses from lookup tables.
\<close>

definition requested_writable :: "sanitized_message \<Rightarrow> nat \<Rightarrow> bool" where
  "requested_writable m i \<longleftrightarrow>
     (let signers = unat (mh_num_required_signatures (msg_header m)); keys = length (ak_static_keys (msg_account_keys m)) in
      i < signers - unat (mh_num_readonly_signed_accounts (msg_header m)) \<or>
      signers \<le> i \<and> i < keys - unat (mh_num_readonly_unsigned_accounts (msg_header m)) \<or>
      keys \<le> i \<and> i < keys + (case ak_dynamic_keys (msg_account_keys m) of None \<Rightarrow> 0 | Some la \<Rightarrow> length (la_writable la)))"

lemma usize_wrapping_sub_le:
  assumes "b \<le> a" "a < 2 ^ 64"
  shows "usize_wrapping_sub a b = a - b"
proof -
  have "a + 2 ^ 64 - b = (a - b) + 2 ^ 64" using assms(1) by simp
  then show ?thesis using assms(2) by (simp only: usize_wrapping_sub_def mod_add_self2) simp
qed

lemma requested_legacy:
  assumes "sane (Legacy l)" "length (lm_account_keys (ls_message l)) < 2 ^ 64"
  shows "legacy_is_writable_index (ls_message l) i = requested_writable (Legacy l) i"
proof -
  let ?h = "lm_header (ls_message l)" and ?n = "length (lm_account_keys (ls_message l))"
  have h: "mh_num_readonly_signed_accounts ?h < mh_num_required_signatures ?h"
    "unat (mh_num_required_signatures ?h) + unat (mh_num_readonly_unsigned_accounts ?h) \<le> ?n"
    using assms(1) by (simp_all add: sane_def msg_header_def msg_account_keys_def)
  have "usize_wrapping_sub ?n (unat (mh_num_readonly_unsigned_accounts ?h)) = ?n - unat (mh_num_readonly_unsigned_accounts ?h)"
    using assms(2) h(2) by (intro usize_wrapping_sub_le) simp_all
  then show ?thesis using h
    by (auto simp: legacy_is_writable_index_def requested_writable_def msg_header_def msg_account_keys_def unat_sub Let_def)
qed

lemma requested_loaded:
  assumes "sane (V0 l)"
  shows "loaded_is_writable_index l i = requested_writable (V0 l) i"
proof -
  let ?h = "v0_header (ld_message l)" and ?n = "length (v0_account_keys (ld_message l))"
  have "unat (mh_num_required_signatures ?h) + unat (mh_num_readonly_unsigned_accounts ?h) \<le> ?n"
    using assms by (simp add: sane_def msg_header_def msg_account_keys_def loaded_account_keys_def)
  then show ?thesis
    by (auto simp: loaded_is_writable_index_def requested_writable_def msg_header_def msg_account_keys_def loaded_account_keys_def Let_def)
qed

lemma index_called_iff: "index_called_as_program ixs i \<longleftrightarrow> (\<exists>ix\<in>set ixs. unat (ci_program_id_index ix) = i)"
proof -
  have "ci_program_id_index ix = of_nat i \<longleftrightarrow> unat (ci_program_id_index ix) = i" if "i < 256" for ix
    using that by (auto simp: unat_of_nat)
  moreover have "unat (ci_program_id_index ix) < 256" for ix using unsigned_less [of "ci_program_id_index ix"] by simp
  ultimately show ?thesis by (auto simp: index_called_as_program_def list_ex_iff)
qed

lemma reserved_key_iff:
  "is_builtin_key_or_sysvar key \<longleftrightarrow> key \<in> set sysvar_all_ids \<or> key \<in> set BUILTIN_PROGRAMS_KEYS"
  using reserved_key_marked [of key] by (auto simp: is_builtin_key_or_sysvar_def is_sysvar_id_def list_ex_iff)

lemmas lock_defs = reserved_key_iff index_called_iff list_ex_iff msg_is_writable_def msg_instructions_def msg_account_keys_def
  account_keys_get_iter vec_get_def

text \<open>The key of a position may be locked: it is not reserved, and not the program of an instruction.\<close>

definition lockable :: "sanitized_message \<Rightarrow> nat \<Rightarrow> pubkey \<Rightarrow> bool" where
  "lockable m i key \<longleftrightarrow> key \<notin> set sysvar_all_ids \<and> key \<notin> set BUILTIN_PROGRAMS_KEYS \<and>
     ((\<forall>ci\<in>set (msg_instructions m). unat (ci_program_id_index ci) \<noteq> i) \<or>
      bpf_loader_upgradeable_id \<in> set (account_keys_iter (msg_account_keys m)))"

lemma legacy_write_locks:
  assumes "sane (Legacy l)" "length (lm_account_keys (ls_message l)) < 2 ^ 64"
  shows "msg_is_writable (Legacy l) i \<longleftrightarrow>
    (\<exists>key. account_keys_get (msg_account_keys (Legacy l)) i = Some key \<and> requested_writable (Legacy l) i \<and> lockable (Legacy l) i key)"
proof -
  have "l = legacy_sanitized_new (ls_message l)" using assms(1) by (simp add: sane_def)
  then have "ls_is_writable_account_cache l =
      map (\<lambda>i. legacy_is_writable (ls_message l) i = Some True) [0..<length (lm_account_keys (ls_message l))]"
    unfolding legacy_sanitized_new_def by (metis legacy_sanitized.select_convs(2))
  then show ?thesis using requested_legacy [OF assms, of i]
    by (auto simp: lock_defs lockable_def legacy_is_writable_def account_keys_iter_def key_segment_iter_def
        legacy_demote_program_id_def legacy_is_key_called_as_program_def legacy_is_upgradeable_loader_present_def)
qed

lemma loaded_write_locks:
  assumes "sane (V0 l)"
  shows "msg_is_writable (V0 l) i \<longleftrightarrow>
    (\<exists>key. account_keys_get (msg_account_keys (V0 l)) i = Some key \<and> requested_writable (V0 l) i \<and> lockable (V0 l) i key)"
proof -
  have "l = loaded_message_new (ld_message l) (ld_loaded_addresses l)" using assms by (simp add: sane_def)
  moreover have "loaded_is_writable_internal \<lparr>ld_message = ld_message l, ld_loaded_addresses = ld_loaded_addresses l,
      ld_is_writable_account_cache = []\<rparr> = loaded_is_writable_internal l"
    by (simp add: fun_eq_iff loaded_is_writable_internal_def loaded_is_writable_index_def loaded_account_keys_def Let_def
        loaded_demote_program_id_def loaded_is_key_called_as_program_def loaded_is_upgradeable_loader_present_def cong: option.case_cong)
  ultimately have "ld_is_writable_account_cache l =
      map (loaded_is_writable_internal l) [0..<length (account_keys_iter (loaded_account_keys l))]"
    unfolding loaded_message_new_def Let_def
    by (metis (no_types, lifting) loaded_message.select_convs loaded_message.update_convs(3) loaded_account_keys_def)
  then show ?thesis using requested_loaded [OF assms, of i]
    by (auto simp: lock_defs lockable_def loaded_is_writable_def loaded_is_writable_internal_def
        loaded_demote_program_id_def loaded_is_key_called_as_program_def loaded_is_upgradeable_loader_present_def)
qed

text \<open>
  C37: what a message locks for writing. For both kinds of sanitized messages the cached answer for a position is that the
  position exists, the message asks to write it, its key is neither a built-in program nor in the list of sysvars, and
  no instruction calls it as a program, unless the upgradeable loader is among the keys. The list lacks the
  sysvars for epoch rewards and for the last restart slot, so they are locked like any other account.
\<close>

theorem write_locks_exact:
  assumes "versioned_sanitize vm = Inr ()" "sanitized_message_try_new load vm = Inr m" "loader_ok load"
    and "length (ak_static_keys (msg_account_keys m)) < 2 ^ 64"
  shows "(msg_is_writable m i \<longleftrightarrow> (\<exists>key. account_keys_get (msg_account_keys m) i = Some key \<and> requested_writable m i \<and>
      key \<notin> set sysvar_all_ids \<union> set BUILTIN_PROGRAMS_KEYS \<and>
      ((\<forall>ci\<in>set (msg_instructions m). unat (ci_program_id_index ci) \<noteq> i) \<or>
       bpf_loader_upgradeable_id \<in> set (account_keys_iter (msg_account_keys m))))) \<and>
    {sysvar_epoch_rewards_id, sysvar_last_restart_slot_id} \<inter> (set sysvar_all_ids \<union> set BUILTIN_PROGRAMS_KEYS) = {}"
proof
  have s: "sane m" using assms(1-3) by (rule try_new_sane)
  then have "msg_is_writable m i \<longleftrightarrow>
      (\<exists>key. account_keys_get (msg_account_keys m) i = Some key \<and> requested_writable m i \<and> lockable m i key)"
    using assms(4) legacy_write_locks loaded_write_locks by (cases m) (simp_all add: msg_account_keys_def)
  then show "msg_is_writable m i \<longleftrightarrow> (\<exists>key. account_keys_get (msg_account_keys m) i = Some key \<and> requested_writable m i \<and>
      key \<notin> set sysvar_all_ids \<union> set BUILTIN_PROGRAMS_KEYS \<and>
      ((\<forall>ci\<in>set (msg_instructions m). unat (ci_program_id_index ci) \<noteq> i) \<or>
       bpf_loader_upgradeable_id \<in> set (account_keys_iter (msg_account_keys m))))"
    by (simp add: lockable_def)
  show "{sysvar_epoch_rewards_id, sysvar_last_restart_slot_id} \<inter> (set sysvar_all_ids \<union> set BUILTIN_PROGRAMS_KEYS) = {}"
    by (simp add: sysvar_all_ids_def BUILTIN_PROGRAMS_KEYS_def message_id_defs list_eq_replicate eq_commute [of "replicate _ _"])
qed

theorem write_locks_exact_witness:
  "\<exists>m. sanitized_message_try_new example_loader (VV0 example_message) = Inr m \<and> msg_is_writable m 2 \<and> \<not> msg_is_writable m 1"
proof -
  have s: "versioned_sanitize (VV0 example_message) = Inr ()"
    by (simp add: versioned_sanitize_def v0_sanitize_def example_message_def Let_def usize_saturating_add_def usize_max_def)
  obtain m where m: "sanitized_message_try_new example_loader (VV0 example_message) = Inr m"
    by (simp add: sanitized_message_try_new_def example_loader_def map_err_def)
  then have keys: "msg_account_keys m = \<lparr>ak_static_keys = [replicate 32 1, replicate 32 2],
      ak_dynamic_keys = Some \<lparr>la_writable = [replicate 32 4], la_readonly = []\<rparr>\<rparr>"
    and parts: "msg_header m = v0_header example_message" "msg_instructions m = v0_instructions example_message"
    by (auto simp: sanitized_message_try_new_def example_loader_def map_err_def example_message_def msg_account_keys_def
        loaded_account_keys_def loaded_message_new_def msg_header_def msg_instructions_def Let_def)
  have "replicate 32 4 \<notin> set sysvar_all_ids \<union> set BUILTIN_PROGRAMS_KEYS"
    by (simp add: sysvar_all_ids_def BUILTIN_PROGRAMS_KEYS_def message_id_defs list_eq_replicate eq_commute [of "replicate _ _"])
  then have "msg_is_writable m 2"
    using write_locks_exact [OF s m example_loader_ok, of 2]
    by (simp add: keys parts account_keys_get_iter account_keys_iter_def key_segment_iter_def requested_writable_def example_message_def)
  moreover have "\<not> msg_is_writable m 1"
    using write_locks_exact [OF s m example_loader_ok, of 1]
    by (simp add: keys parts requested_writable_def example_message_def)
  ultimately show ?thesis using m by blast
qed

end
