(* ===== verification/Instructions_Sysvar.thy ===== *)
theory Instructions_Sysvar
  imports Message_Properties
begin

section \<open>The instructions sysvar\<close>

text \<open>
  \<open>sdk/program/src/sysvar/instructions.rs\<close> with the byte helpers of \<open>serialize_utils\<close>: the
  runtime lays out the instructions of a transaction in an account, and programs read them back.
  Readers take a cursor and return it advanced. A \<open>None\<close> of the functions on the current index is
  the panic on data shorter than two bytes.
\<close>

unbundle bit_operations_syntax

subsection \<open>Reading and writing bytes\<close>

definition u16_le :: "u16 \<Rightarrow> bytes" where
  "u16_le x = le_bytes 2 (unat x)"

definition u16_from_le :: "bytes \<Rightarrow> u16" where
  "u16_from_le bs = of_nat (le_value bs)"

definition copy_at :: "nat \<Rightarrow> bytes \<Rightarrow> bytes \<Rightarrow> bytes" where
  "copy_at start bs data = take start data @ bs @ drop (start + length bs) data"

definition read_u8 :: "nat \<Rightarrow> bytes \<Rightarrow> sanitize_error + u8 \<times> nat" where
  "read_u8 current data =
     (if length data < current + 1 then Inl IndexOutOfBounds else Inr (data ! current, current + 1))"

definition read_pubkey :: "nat \<Rightarrow> bytes \<Rightarrow> sanitize_error + pubkey \<times> nat" where
  "read_pubkey current data =
     (if length data < current + PUBKEY_BYTES then Inl IndexOutOfBounds
      else Inr (take PUBKEY_BYTES (drop current data), current + PUBKEY_BYTES))"

definition read_u16 :: "nat \<Rightarrow> bytes \<Rightarrow> sanitize_error + u16 \<times> nat" where
  "read_u16 current data =
     (if length data < current + 2 then Inl IndexOutOfBounds
      else Inr (u16_from_le (take 2 (drop current data)), current + 2))"

definition read_slice :: "nat \<Rightarrow> bytes \<Rightarrow> nat \<Rightarrow> sanitize_error + bytes \<times> nat" where
  "read_slice current data data_len =
     (if length data < current + data_len then Inl IndexOutOfBounds
      else Inr (take data_len (drop current data), current + data_len))"

subsection \<open>The layout\<close>

definition account_meta_flags :: "borrowed_account_meta \<Rightarrow> u8" where
  "account_meta_flags am = (if bam_is_signer am then 1 else 0) OR (if bam_is_writable am then 2 else 0)"

definition instruction_bytes :: "borrowed_instruction \<Rightarrow> bytes" where
  "instruction_bytes ix =
     u16_le (of_nat (length (bi_accounts ix))) @
     concat (map (\<lambda>am. account_meta_flags am # bam_pubkey am) (bi_accounts ix)) @
     bi_program_id ix @ u16_le (of_nat (length (bi_data ix))) @ bi_data ix"

fun serialize_loop :: "nat \<Rightarrow> borrowed_instruction list \<Rightarrow> bytes \<Rightarrow> bytes" where
  "serialize_loop i [] data = data"
| "serialize_loop i (ix # rest) data =
     (let start_instruction_offset = of_nat (length data);
          start = 2 + 2 * i
      in serialize_loop (Suc i) rest (copy_at start (u16_le start_instruction_offset) data @ instruction_bytes ix))"

definition serialize_instructions :: "borrowed_instruction list \<Rightarrow> bytes" where
  "serialize_instructions ixs =
     serialize_loop 0 ixs (u16_le (of_nat (length ixs)) @ concat (replicate (length ixs) (u16_le 0)))"

definition construct_instructions_data :: "borrowed_instruction list \<Rightarrow> bytes" where
  "construct_instructions_data ixs = serialize_instructions ixs @ [0, 0]"

definition store_current_index :: "bytes \<Rightarrow> u16 \<Rightarrow> bytes option" where
  "store_current_index data instruction_index =
     (if length data < 2 then None
      else Some (copy_at (length data - 2) (u16_le instruction_index) data))"

definition load_current_index :: "bytes \<Rightarrow> u16 option" where
  "load_current_index data =
     (if length data < 2 then None else Some (u16_from_le (drop (length data - 2) data)))"

fun deserialize_accounts :: "nat \<Rightarrow> nat \<Rightarrow> bytes \<Rightarrow> sanitize_error + account_meta list \<times> nat" where
  "deserialize_accounts 0 current data = Inr ([], current)"
| "deserialize_accounts (Suc n) current data =
     and_then (read_u8 current data) (\<lambda>(meta_byte, current).
     and_then (read_pubkey current data) (\<lambda>(pubkey, current).
     and_then (deserialize_accounts n current data) (\<lambda>(accounts, current).
       Inr (\<lparr>am_pubkey = pubkey, am_is_signer = meta_byte AND 1 \<noteq> 0, am_is_writable = meta_byte AND 2 \<noteq> 0\<rparr> # accounts,
            current))))"

definition deserialize_instruction :: "nat \<Rightarrow> bytes \<Rightarrow> sanitize_error + instruction" where
  "deserialize_instruction index data =
     and_then (read_u16 0 data) (\<lambda>(num_instructions, current).
       if unat num_instructions \<le> index then Inl IndexOutOfBounds
       else
         and_then (read_u16 (current + index * 2) data) (\<lambda>(start, _).
         and_then (read_u16 (unat start) data) (\<lambda>(num_accounts, current).
         and_then (deserialize_accounts (unat num_accounts) current data) (\<lambda>(accounts, current).
         and_then (read_pubkey current data) (\<lambda>(program_id, current).
         and_then (read_u16 current data) (\<lambda>(data_len, current).
         and_then (read_slice current data (unat data_len)) (\<lambda>(ix_bytes, _).
           Inr \<lparr>ix_program_id = program_id, ix_accounts = accounts, ix_data = ix_bytes\<rparr>)))))))"

text \<open>Access by a program: the errors are those of \<open>ProgramError\<close>, of which three occur.\<close>

datatype sysvar_read_error = ReadUnsupportedSysvar | ReadInvalidArgument | ReadInvalidInstructionData | ReadPanic

definition read_error_of :: "sanitize_error \<Rightarrow> sysvar_read_error" where
  "read_error_of e = (if e = IndexOutOfBounds then ReadInvalidArgument else ReadInvalidInstructionData)"

definition load_instruction_at_checked :: "nat \<Rightarrow> pubkey \<Rightarrow> bytes \<Rightarrow> sysvar_read_error + instruction" where
  "load_instruction_at_checked index key data =
     (if key \<noteq> sysvar_instructions_id then Inl ReadUnsupportedSysvar
      else map_err read_error_of (deserialize_instruction index data))"

definition get_instruction_relative :: "int \<Rightarrow> pubkey \<Rightarrow> bytes \<Rightarrow> sysvar_read_error + instruction" where
  "get_instruction_relative index_relative_to_current key data =
     (if key \<noteq> sysvar_instructions_id then Inl ReadUnsupportedSysvar
      else case load_current_index data of
        None \<Rightarrow> Inl ReadPanic
      | Some current_index \<Rightarrow>
          (let index = min (max (int (unat current_index) + index_relative_to_current) (- (2 ^ 63))) (2 ^ 63 - 1)
           in if index < 0 then Inl ReadInvalidArgument
              else map_err read_error_of (deserialize_instruction (nat index) data)))"

subsection \<open>Reading back\<close>

lemma length_u16_le [simp]: "length (u16_le x) = 2"
  by (simp add: u16_le_def)

lemma u16_roundtrip [simp]: "u16_from_le (u16_le x) = x"
proof -
  have "unat x < 256 ^ 2" using unsigned_less [of x] by simp
  then show ?thesis by (simp add: u16_from_le_def u16_le_def le_value_le_bytes)
qed

lemma read_u16_at: "length pre = n \<Longrightarrow> read_u16 n (pre @ u16_le x @ post) = Inr (x, n + 2)"
  by (auto simp: read_u16_def)

lemma read_pubkey_at: "length pre = n \<Longrightarrow> length k = PUBKEY_BYTES \<Longrightarrow> read_pubkey n (pre @ k @ post) = Inr (k, n + PUBKEY_BYTES)"
  by (auto simp: read_pubkey_def)

lemma read_u8_at: "length pre = n \<Longrightarrow> read_u8 n (pre @ x # post) = Inr (x, n + 1)"
  by (auto simp: read_u8_def nth_append)

lemma read_slice_at: "length pre = n \<Longrightarrow> length d = l \<Longrightarrow> read_slice n (pre @ d @ post) l = Inr (d, n + l)"
  by (auto simp: read_slice_def)

definition owned_meta :: "borrowed_account_meta \<Rightarrow> account_meta" where
  "owned_meta am = \<lparr>am_pubkey = bam_pubkey am, am_is_signer = bam_is_signer am, am_is_writable = bam_is_writable am\<rparr>"

definition owned_instruction :: "borrowed_instruction \<Rightarrow> instruction" where
  "owned_instruction ix = \<lparr>ix_program_id = bi_program_id ix, ix_accounts = map owned_meta (bi_accounts ix), ix_data = bi_data ix\<rparr>"

lemma account_meta_flags_bits:
  "(account_meta_flags am AND 1 \<noteq> 0) = bam_is_signer am" "(account_meta_flags am AND 2 \<noteq> 0) = bam_is_writable am"
  by (auto simp: account_meta_flags_def)

lemma deserialize_accounts_at:
  assumes "\<forall>am\<in>set ams. length (bam_pubkey am) = PUBKEY_BYTES"
  shows "deserialize_accounts (length ams) (length pre)
      (pre @ concat (map (\<lambda>am. account_meta_flags am # bam_pubkey am) ams) @ post) =
    Inr (map owned_meta ams, length pre + (PUBKEY_BYTES + 1) * length ams)"
  using assms
proof (induction ams arbitrary: pre)
  case (Cons am ams)
  let ?rest = "concat (map (\<lambda>am. account_meta_flags am # bam_pubkey am) ams) @ post"
  let ?data = "pre @ account_meta_flags am # bam_pubkey am @ ?rest"
  have 1: "read_u8 (length pre) ?data = Inr (account_meta_flags am, length pre + 1)" by (rule read_u8_at) simp
  have 2: "read_pubkey (length pre + 1) ?data = Inr (bam_pubkey am, length pre + 1 + PUBKEY_BYTES)"
    using read_pubkey_at [of "pre @ [account_meta_flags am]" "length pre + 1" "bam_pubkey am" ?rest] Cons.prems by simp
  let ?pre = "pre @ account_meta_flags am # bam_pubkey am"
  have pos: "length ?pre = length pre + 1 + PUBKEY_BYTES" and data: "?data = ?pre @ ?rest" using Cons.prems by simp_all
  have "deserialize_accounts (length ams) (length ?pre) (?pre @ ?rest) =
      Inr (map owned_meta ams, length ?pre + (PUBKEY_BYTES + 1) * length ams)"
    using Cons.prems by (intro Cons.IH) simp
  then have 3: "deserialize_accounts (length ams) (length pre + 1 + PUBKEY_BYTES) ?data =
      Inr (map owned_meta ams, length pre + 1 + PUBKEY_BYTES + (PUBKEY_BYTES + 1) * length ams)"
    unfolding pos data .
  show ?case using 1 2 3 by (simp add: account_meta_flags_bits owned_meta_def)
qed simp

definition wf_borrowed :: "borrowed_instruction \<Rightarrow> bool" where
  "wf_borrowed ix \<longleftrightarrow> length (bi_program_id ix) = PUBKEY_BYTES \<and>
     (\<forall>am\<in>set (bi_accounts ix). length (bam_pubkey am) = PUBKEY_BYTES)"

lemma length_meta_bytes:
  "\<forall>am\<in>set ams. length (bam_pubkey am) = PUBKEY_BYTES \<Longrightarrow>
     length (concat (map (\<lambda>am. account_meta_flags am # bam_pubkey am) ams)) = (PUBKEY_BYTES + 1) * length ams"
  by (induction ams) simp_all

lemma length_instruction_bytes:
  "length (instruction_bytes ix) \<ge> length (bi_accounts ix) + length (bi_data ix)"
  by (simp add: instruction_bytes_def length_concat o_def sum_list_Suc)

text \<open>The shape of the serialized data: count, table of offsets, instructions.\<close>

definition offsets :: "nat \<Rightarrow> borrowed_instruction list \<Rightarrow> nat list" where
  "offsets base ixs = map (\<lambda>i. base + length (concat (map instruction_bytes (take i ixs)))) [0..<length ixs]"

lemma copy_at_append:
  "length pre = n \<Longrightarrow> length new = length old \<Longrightarrow> copy_at n new (pre @ old @ post) = pre @ new @ post"
  by (simp add: copy_at_def)

lemma length_concat_u16: "length (concat (map u16_le xs)) = 2 * length xs"
  by (induction xs) simp_all

lemma serialize_loop_shape:
  assumes hdr: "length hdr = 2" and "length table = i"
  shows "serialize_loop i ixs (hdr @ concat (map u16_le table) @ concat (replicate (length ixs) (u16_le 0)) @ body) =
    hdr @ concat (map u16_le table) @
      concat (map (u16_le \<circ> of_nat) (offsets (length hdr + 2 * i + 2 * length ixs + length body) ixs)) @
      body @ concat (map instruction_bytes ixs)"
  using assms(2)
proof (induction ixs arbitrary: i table body)
  case (Cons ix ixs)
  let ?base = "length hdr + 2 * i + 2 * length (ix # ixs) + length body"
  let ?off = "of_nat ?base :: u16"
  let ?zeros = "concat (replicate (length ixs) (u16_le 0))"
  have len: "length (concat (map u16_le table)) = 2 * i" using Cons.prems by (simp add: length_concat_u16)
  have lz: "length ?zeros = 2 * length ixs" by (simp add: length_concat sum_list_replicate)
  have "copy_at (2 + 2 * i) (u16_le ?off) ((hdr @ concat (map u16_le table)) @ u16_le 0 @ ?zeros @ body) =
      (hdr @ concat (map u16_le table)) @ u16_le ?off @ ?zeros @ body"
    using hdr len by (intro copy_at_append) simp_all
  then have "serialize_loop i (ix # ixs) (hdr @ concat (map u16_le table) @ concat (replicate (length (ix # ixs)) (u16_le 0)) @ body) =
      serialize_loop (Suc i) ixs (hdr @ concat (map u16_le (table @ [?off])) @ ?zeros @ (body @ instruction_bytes ix))"
    using len lz by (simp add: Let_def algebra_simps)
  also have "\<dots> = hdr @ concat (map u16_le (table @ [?off])) @
      concat (map (u16_le \<circ> of_nat) (offsets (length hdr + 2 * Suc i + 2 * length ixs + length (body @ instruction_bytes ix)) ixs)) @
      (body @ instruction_bytes ix) @ concat (map instruction_bytes ixs)"
    using Cons.prems by (intro Cons.IH) simp
  also have "offsets ?base (ix # ixs) =
      ?base # offsets (length hdr + 2 * Suc i + 2 * length ixs + length (body @ instruction_bytes ix)) ixs"
    by (simp add: offsets_def upt_conv_Cons map_Suc_upt [symmetric] algebra_simps del: upt_Suc)
  then have "hdr @ concat (map u16_le (table @ [?off])) @
      concat (map (u16_le \<circ> of_nat) (offsets (length hdr + 2 * Suc i + 2 * length ixs + length (body @ instruction_bytes ix)) ixs)) @
      (body @ instruction_bytes ix) @ concat (map instruction_bytes ixs) =
    hdr @ concat (map u16_le table) @ concat (map (u16_le \<circ> of_nat) (offsets ?base (ix # ixs))) @
      body @ concat (map instruction_bytes (ix # ixs))"
    by simp
  finally show ?case .
qed (simp add: offsets_def)

lemma serialize_instructions_shape:
  "serialize_instructions ixs =
     u16_le (of_nat (length ixs)) @ concat (map (u16_le \<circ> of_nat) (offsets (2 + 2 * length ixs) ixs)) @
       concat (map instruction_bytes ixs)"
  using serialize_loop_shape [of "u16_le (of_nat (length ixs))" "[]" 0 ixs "[]"]
  by (simp add: serialize_instructions_def)

lemma concat_u16_split:
  assumes "i < length xs"
  shows "concat (map (u16_le \<circ> of_nat) xs) =
    concat (map (u16_le \<circ> of_nat) (take i xs)) @ u16_le (of_nat (xs ! i)) @ concat (map (u16_le \<circ> of_nat) (drop (Suc i) xs))"
    "length (concat (map (u16_le \<circ> of_nat) (take i xs))) = 2 * i"
proof -
  have "concat (map (u16_le \<circ> of_nat) (take i xs @ xs ! i # drop (Suc i) xs)) =
    concat (map (u16_le \<circ> of_nat) (take i xs)) @ u16_le (of_nat (xs ! i)) @ concat (map (u16_le \<circ> of_nat) (drop (Suc i) xs))"
    by simp
  then show "concat (map (u16_le \<circ> of_nat) xs) =
    concat (map (u16_le \<circ> of_nat) (take i xs)) @ u16_le (of_nat (xs ! i)) @ concat (map (u16_le \<circ> of_nat) (drop (Suc i) xs))"
    using assms by (simp only: id_take_nth_drop [symmetric])
  show "length (concat (map (u16_le \<circ> of_nat) (take i xs))) = 2 * i"
    using assms length_concat_u16 [of "map of_nat (take i xs)"] by simp
qed

lemma deserialize_at:
  assumes "wf_borrowed ix" "length (bi_accounts ix) < 2 ^ 16" "length (bi_data ix) < 2 ^ 16"
    and "read_u16 0 data = Inr (n, 2)" "i < unat n"
    and "read_u16 (2 + i * 2) data = Inr (start, k)" "data = pre @ instruction_bytes ix @ post" "length pre = unat start"
  shows "deserialize_instruction i data = Inr (owned_instruction ix)"
proof -
  let ?a = "concat (map (\<lambda>am. account_meta_flags am # bam_pubkey am) (bi_accounts ix))"
  let ?na = "of_nat (length (bi_accounts ix)) :: u16" and ?nd = "of_nat (length (bi_data ix)) :: u16"
  have un: "unat ?na = length (bi_accounts ix)" "unat ?nd = length (bi_data ix)"
    using assms(2,3) by (simp_all add: unat_of_nat)
  have la: "length ?a = (PUBKEY_BYTES + 1) * length (bi_accounts ix)"
    using assms(1) by (intro length_meta_bytes) (simp add: wf_borrowed_def)
  have data: "data = pre @ u16_le ?na @ ?a @ bi_program_id ix @ u16_le ?nd @ bi_data ix @ post"
    using assms(7) by (simp add: instruction_bytes_def)
  have 1: "read_u16 (unat start) data = Inr (?na, unat start + 2)"
    unfolding data using assms(8) by (rule read_u16_at)
  have 2: "deserialize_accounts (unat ?na) (unat start + 2) data =
      Inr (map owned_meta (bi_accounts ix), unat start + 2 + (PUBKEY_BYTES + 1) * length (bi_accounts ix))"
    using deserialize_accounts_at [of "bi_accounts ix" "pre @ u16_le ?na" "bi_program_id ix @ u16_le ?nd @ bi_data ix @ post"]
      assms(1,8) by (simp add: data un wf_borrowed_def)
  let ?p = "unat start + 2 + (PUBKEY_BYTES + 1) * length (bi_accounts ix)"
  have 3: "read_pubkey ?p data = Inr (bi_program_id ix, ?p + PUBKEY_BYTES)"
    using read_pubkey_at [of "pre @ u16_le ?na @ ?a" ?p "bi_program_id ix" "u16_le ?nd @ bi_data ix @ post"] la assms(1,8)
    by (simp add: data wf_borrowed_def)
  have 4: "read_u16 (?p + PUBKEY_BYTES) data = Inr (?nd, ?p + PUBKEY_BYTES + 2)"
    using read_u16_at [of "pre @ u16_le ?na @ ?a @ bi_program_id ix" "?p + PUBKEY_BYTES" ?nd "bi_data ix @ post"] la assms(1,8)
    by (simp add: data wf_borrowed_def)
  have 5: "read_slice (?p + PUBKEY_BYTES + 2) data (unat ?nd) = Inr (bi_data ix, ?p + PUBKEY_BYTES + 2 + unat ?nd)"
    using read_slice_at [of "pre @ u16_le ?na @ ?a @ bi_program_id ix @ u16_le ?nd" "?p + PUBKEY_BYTES + 2" "bi_data ix" "unat ?nd" post] la assms(1,8)
    by (simp add: data wf_borrowed_def un)
  have "\<not> unat n \<le> i" using assms(5) by simp
  then show ?thesis
    unfolding deserialize_instruction_def owned_instruction_def
    using assms(4,6) 1 2 3 4 5 by simp
qed

lemma take_drop_concat:
  assumes "i < length xs"
  shows "concat (map f xs) = concat (map f (take i xs)) @ f (xs ! i) @ concat (map f (drop (Suc i) xs))"
proof -
  have "concat (map f (take i xs @ xs ! i # drop (Suc i) xs)) = concat (map f (take i xs)) @ f (xs ! i) @ concat (map f (drop (Suc i) xs))"
    by simp
  then show ?thesis using assms by (simp only: id_take_nth_drop [symmetric])
qed

lemma deserialize_serialized:
  assumes "i < length ixs" "\<forall>ix\<in>set ixs. wf_borrowed ix" "length (serialize_instructions ixs) < 2 ^ 16"
  shows "deserialize_instruction i (serialize_instructions ixs @ tail) = Inr (owned_instruction (ixs ! i))"
proof -
  let ?n = "of_nat (length ixs) :: u16" and ?offs = "offsets (2 + 2 * length ixs) ixs"
  let ?off = "?offs ! i" and ?ix = "ixs ! i"
  let ?data = "serialize_instructions ixs @ tail"
  note shape = serialize_instructions_shape [of ixs]
  have lo: "length ?offs = length ixs" by (simp add: offsets_def)
  have lt: "length (concat (map (u16_le \<circ> of_nat) ?offs)) = 2 * length ixs"
    using length_concat_u16 [of "map of_nat ?offs"] lo by simp
  have total: "2 + 2 * length ixs + length (concat (map instruction_bytes ixs)) < 2 ^ 16"
    using assms(3) lt unfolding shape by simp
  have off: "?off = 2 + 2 * length ixs + length (concat (map instruction_bytes (take i ixs)))"
    using assms(1) by (simp add: offsets_def)
  note split = take_drop_concat [OF assms(1), of instruction_bytes]
  have small: "?off < 2 ^ 16" "length (instruction_bytes ?ix) < 2 ^ 16"
    using total off arg_cong [OF split, of length] by simp_all
  have un: "unat ?n = length ixs" "unat (of_nat ?off :: u16) = ?off"
    using total small by (simp_all add: unat_of_nat)
  have r1: "read_u16 0 ?data = Inr (?n, 2)"
    unfolding shape using read_u16_at [of "[]" 0 ?n] by simp
  have i: "i < length ?offs" using assms(1) lo by simp
  note tab = concat_u16_split [OF i]
  have r2: "read_u16 (2 + i * 2) ?data = Inr (of_nat ?off, 2 + i * 2 + 2)"
    unfolding shape tab(1)
    using read_u16_at [of "u16_le ?n @ concat (map (u16_le \<circ> of_nat) (take i ?offs))" "2 + i * 2" "of_nat ?off"] tab(2)
    by simp
  have d: "?data = (u16_le ?n @ concat (map (u16_le \<circ> of_nat) ?offs) @ concat (map instruction_bytes (take i ixs))) @
      instruction_bytes ?ix @ (concat (map instruction_bytes (drop (Suc i) ixs)) @ tail)"
    unfolding shape using split by simp
  show ?thesis
  proof (rule deserialize_at [OF _ _ _ r1 _ r2 d])
    show "wf_borrowed ?ix" using assms(1,2) by simp
    show "length (bi_accounts ?ix) < 2 ^ 16" "length (bi_data ?ix) < 2 ^ 16"
      using small(2) length_instruction_bytes [of ?ix] by simp_all
    show "i < unat ?n" using un assms(1) by simp
    show "length (u16_le ?n @ concat (map (u16_le \<circ> of_nat) ?offs) @ concat (map instruction_bytes (take i ixs))) =
        unat (of_nat ?off :: u16)"
      using un(2) off lt by simp
  qed
qed

text \<open>
  C31: what the runtime lays out for the instructions of a transaction, with the index of the
  current instruction stored behind it, reads back: each instruction in full, and the index. The
  total size must fit the 16-bit offsets.
\<close>

theorem instructions_sysvar_roundtrip:
  assumes "\<forall>ix\<in>set ixs. wf_borrowed ix" "length (serialize_instructions ixs) < 2 ^ 16"
    and "store_current_index (construct_instructions_data ixs) current = Some data"
  shows "load_current_index data = Some current \<and>
    (\<forall>i<length ixs. load_instruction_at_checked i sysvar_instructions_id data = Inr (owned_instruction (ixs ! i)))"
proof -
  have data: "data = serialize_instructions ixs @ u16_le current"
    using assms(3) by (simp add: store_current_index_def construct_instructions_data_def copy_at_def)
  then have "load_current_index data = Some current" by (simp add: load_current_index_def)
  moreover have "deserialize_instruction i data = Inr (owned_instruction (ixs ! i))" if "i < length ixs" for i
    unfolding data using that assms(1,2) by (rule deserialize_serialized)
  ultimately show ?thesis by (simp add: load_instruction_at_checked_def map_err_def)
qed

definition example_borrowed :: "borrowed_instruction list" where
  "example_borrowed =
     [\<lparr>bi_program_id = replicate 32 7, bi_accounts = [], bi_data = [1]\<rparr>,
      \<lparr>bi_program_id = replicate 32 8, bi_accounts =
         [\<lparr>bam_pubkey = replicate 32 2, bam_is_signer = True, bam_is_writable = False\<rparr>], bi_data = [2, 3]\<rparr>]"

theorem instructions_sysvar_roundtrip_witness:
  "\<exists>data. store_current_index (construct_instructions_data example_borrowed) 1 = Some data \<and>
     load_instruction_at_checked 1 sysvar_instructions_id data = Inr (owned_instruction (example_borrowed ! 1))"
proof -
  have wf: "\<forall>ix\<in>set example_borrowed. wf_borrowed ix"
    by (simp add: example_borrowed_def wf_borrowed_def PUBKEY_BYTES_def)
  have len: "length (serialize_instructions example_borrowed) < 2 ^ 16"
    unfolding serialize_instructions_shape
    by (simp add: example_borrowed_def offsets_def instruction_bytes_def u16_le_def)
  obtain data where data: "store_current_index (construct_instructions_data example_borrowed) 1 = Some data"
    by (simp add: store_current_index_def construct_instructions_data_def)
  from instructions_sysvar_roundtrip [OF wf len data] have
    "\<forall>i<length example_borrowed. load_instruction_at_checked i sysvar_instructions_id data = Inr (owned_instruction (example_borrowed ! i))"
    by blast
  moreover have "1 < length example_borrowed" by (simp add: example_borrowed_def)
  ultimately show ?thesis using data by blast
qed

end
