(* ===== verification/Message_Processor.thy ===== *)
theory Message_Processor
  imports Cross_Program Instructions_Sysvar
begin

section \<open>The message processor\<close>

text \<open>
  \<open>program-runtime/src/message_processor.rs\<close>: the instructions of a message run one after another
  in one invoke context; the first error ends the run. A panic (a program index that does not
  resolve, an instructions sysvar that is borrowed or shorter than two bytes) is an error value of
  its own. The out-parameter for the accumulated compute units is a field of the state.
\<close>

datatype (plugins only: code) transaction_error =
    AccountInUse | AccountLoadedTwice | AccountNotFound | ProgramAccountNotFound | InsufficientFundsForFee
  | InvalidAccountForFee | AlreadyProcessed | BlockhashNotFound | InstructionError u8 instruction_error
  | CallChainTooDeep | MissingSignatureForFee | InvalidAccountIndex | SignatureFailure
  | InvalidProgramForExecution | SanitizeFailure | ClusterMaintenance | AccountBorrowOutstanding
  | WouldExceedMaxBlockCostLimit | UnsupportedVersion | InvalidWritableAccount
  | WouldExceedMaxAccountCostLimit | WouldExceedAccountDataBlockLimit | TooManyAccountLocks
  | AddressLookupTableNotFound | InvalidAddressLookupTableOwner | InvalidAddressLookupTableData
  | InvalidAddressLookupTableIndex | InvalidRentPayingAccount | WouldExceedMaxVoteCostLimit
  | WouldExceedAccountDataTotalLimit | DuplicateInstruction u8 | InsufficientFundsForRent u8
  | MaxLoadedAccountsDataSizeExceeded | InvalidLoadedAccountsDataSizeLimit | ResanitizationNeeded
  | ProgramExecutionTemporarilyRestricted u8 | UnbalancedTransaction

datatype (plugins only: code) process_error = TxError transaction_error | Panicked

record process_state =
  pr_invoke_context :: invoke_context
  pr_accumulated_consumed_units :: u64

type_synonym 'a pr_effect = "(process_state, process_error, 'a) effect"

subsection \<open>Precompiles\<close>

record precompile =
  pc_program_id :: pubkey
  pc_feature :: "pubkey option"

definition PRECOMPILES :: "precompile list" where
  "PRECOMPILES = [\<lparr>pc_program_id = secp256k1_program_id, pc_feature = None\<rparr>,
     \<lparr>pc_program_id = ed25519_program_id, pc_feature = None\<rparr>]"

definition precompile_check_id :: "precompile \<Rightarrow> pubkey \<Rightarrow> (pubkey \<Rightarrow> bool) \<Rightarrow> bool" where
  "precompile_check_id p program_id is_enabled \<longleftrightarrow>
     (case pc_feature p of None \<Rightarrow> True | Some feature \<Rightarrow> is_enabled feature) \<and> pc_program_id p = program_id"

definition is_precompile :: "pubkey \<Rightarrow> (pubkey \<Rightarrow> bool) \<Rightarrow> bool" where
  "is_precompile program_id is_enabled = list_ex (\<lambda>p. precompile_check_id p program_id is_enabled) PRECOMPILES"

subsection \<open>Processing\<close>

definition on_iv :: "(instruction_error \<Rightarrow> process_error) \<Rightarrow> 'a iv_effect \<Rightarrow> 'a pr_effect" where
  "on_iv f m = (\<lambda>ps. case m (pr_invoke_context ps) of
     (r, iv) \<Rightarrow> (map_err f r, ps\<lparr>pr_invoke_context := iv\<rparr>))"

definition set_data_at :: "nat \<Rightarrow> bytes \<Rightarrow> transaction_context \<Rightarrow> transaction_context" where
  "set_data_at i d = update_account_at i (\<lambda>a. a\<lparr>acc_data := d\<rparr>)"

text \<open>The fix-up of the instructions sysvar, on the transaction context.\<close>

definition fixup_instructions_sysvar :: "nat \<Rightarrow> transaction_context \<Rightarrow> process_error + transaction_context" where
  "fixup_instructions_sysvar instruction_index tc =
     (case find_index_of_account tc sysvar_instructions_id of
        None \<Rightarrow> Inr tc
      | Some account_index \<Rightarrow>
          (case get_account_at_index tc account_index of
             Inl _ \<Rightarrow> Inl (TxError InvalidAccountIndex)
           | Inr cell \<Rightarrow>
               if rc_borrow cell \<noteq> UNUSED then Inl Panicked
               else (case store_current_index (acc_data (rc_value cell)) (of_nat instruction_index) of
                       None \<Rightarrow> Inl Panicked
                     | Some d \<Rightarrow> Inr (set_data_at (unat account_index) d tc))))"

definition message_instruction_account :: "sanitized_message \<Rightarrow> compiled_instruction \<Rightarrow> nat \<Rightarrow> instruction_account" where
  "message_instruction_account m ix i =
     (let index_in_transaction = ci_accounts ix ! i;
          index_in_callee =
            (case vec_position (\<lambda>a. a = index_in_transaction) (take i (ci_accounts ix)) of
               Some j \<Rightarrow> j | None \<Rightarrow> i)
      in \<lparr>ia_index_in_transaction = ucast index_in_transaction,
          ia_index_in_caller = ucast index_in_transaction, ia_index_in_callee = of_nat index_in_callee,
          ia_is_signer = msg_is_signer m (unat index_in_transaction),
          ia_is_writable = msg_is_writable m (unat index_in_transaction)\<rparr>)"

definition message_instruction_accounts :: "sanitized_message \<Rightarrow> compiled_instruction \<Rightarrow> instruction_account list" where
  "message_instruction_accounts m ix = map (message_instruction_account m ix) [0..<length (ci_accounts ix)]"

definition run_precompile :: "bytes \<Rightarrow> instruction_account list \<Rightarrow> index_of_account list \<Rightarrow> unit iv_effect" where
  "run_precompile data instruction_accounts program_indices =
     on_tc (bind (update_next_instruction_context (ic_configure program_indices instruction_accounts data)) (\<lambda>_.
            bind tc_push (\<lambda>_. tc_pop)))"

definition process_message_instruction ::
  "program_table \<Rightarrow> (pubkey \<Rightarrow> bool) \<Rightarrow> sanitized_message \<Rightarrow> nat \<Rightarrow> pubkey option \<Rightarrow> compiled_instruction \<Rightarrow>
     index_of_account list \<Rightarrow> unit pr_effect" where
  "process_message_instruction programs is_active m instruction_index program_id ix program_indices =
     (case program_id of
        None \<Rightarrow> throw Panicked
      | Some p \<Rightarrow>
          bind (\<lambda>ps. case fixup_instructions_sysvar instruction_index (iv_transaction_context (pr_invoke_context ps)) of
                  Inl e \<Rightarrow> (Inl e, ps)
                | Inr tc \<Rightarrow> (Inr (), ps\<lparr>pr_invoke_context := (pr_invoke_context ps)\<lparr>iv_transaction_context := tc\<rparr>\<rparr>)) (\<lambda>_.
          let instruction_accounts = message_instruction_accounts m ix;
              err = (\<lambda>e. TxError (InstructionError (of_nat instruction_index) e))
          in if is_precompile p is_active
             then on_iv err (run_precompile (ci_data ix) instruction_accounts program_indices)
             else finally_do (on_iv err (process_instruction programs (ci_data ix) instruction_accounts program_indices))
                    (\<lambda>ps. ps\<lparr>pr_accumulated_consumed_units :=
                       saturating_add (pr_accumulated_consumed_units ps)
                         (iv_compute_units_consumed (pr_invoke_context ps))\<rparr>)))"

fun process_message_loop ::
  "program_table \<Rightarrow> (pubkey \<Rightarrow> bool) \<Rightarrow> sanitized_message \<Rightarrow> nat \<Rightarrow>
     ((pubkey option \<times> compiled_instruction) \<times> index_of_account list) list \<Rightarrow> unit pr_effect" where
  "process_message_loop programs is_active m i [] = return ()"
| "process_message_loop programs is_active m i (((program_id, ix), program_indices) # rest) =
     bind (process_message_instruction programs is_active m i program_id ix program_indices) (\<lambda>_.
       process_message_loop programs is_active m (Suc i) rest)"

definition process_message ::
  "program_table \<Rightarrow> (pubkey \<Rightarrow> bool) \<Rightarrow> sanitized_message \<Rightarrow> index_of_account list list \<Rightarrow> compute_budget \<Rightarrow> u64 \<Rightarrow>
     transaction_context \<Rightarrow> (process_error + unit) \<times> process_state" where
  "process_message programs is_active m program_indices budget accumulated_consumed_units tc =
     process_message_loop programs is_active m 0 (zip (program_instructions_iter m) program_indices)
       \<lparr>pr_invoke_context = invoke_context_new tc budget, pr_accumulated_consumed_units = accumulated_consumed_units\<rparr>"

subsection \<open>The accounts of an instruction\<close>

lemma vec_position_take:
  "i < length xs \<Longrightarrow> p (xs ! i) \<Longrightarrow>
     vec_position p xs = Some (case vec_position p (take i xs) of Some j \<Rightarrow> j | None \<Rightarrow> i)"
  by (auto simp: vec_position_Some vec_position_None all_set_conv_all_nth split: option.splits)

lemma unat_ucast_u8 [simp]: "unat (ucast (x :: u8) :: u16) = unat x"
  by (simp add: unsigned_ucast_eq take_bit_nat_eq_self_iff) (rule less_le_trans [OF unsigned_less], simp)

lemma ucast_u8_inject: "(ucast (x :: u8) :: u16) = ucast y \<longleftrightarrow> x = y"
  by (metis unat_ucast_u8 word_unat_eq_iff)

lemma message_accounts_callee:
  assumes "length (ci_accounts ix) \<le> 2 ^ 16"
  shows "wf_callee (message_instruction_accounts m ix)"
  unfolding wf_callee_def
proof (intro allI impI)
  let ?as = "ci_accounts ix" and ?ias = "message_instruction_accounts m ix"
  fix i
  assume i: "i < length ?ias"
  then have n: "i < length ?as" by (simp add: message_instruction_accounts_def)
  let ?j = "case vec_position (\<lambda>a. a = ?as ! i) (take i ?as) of Some j \<Rightarrow> j | None \<Rightarrow> i"
  have pos: "vec_position (\<lambda>a. a = ?as ! i) ?as = Some ?j" using n by (intro vec_position_take) simp_all
  then have "?j < 2 ^ 16" using assms by (simp add: vec_position_Some)
  then have callee: "unat (ia_index_in_callee (?ias ! i)) = ?j"
    using n by (simp add: message_instruction_accounts_def message_instruction_account_def Let_def unat_of_nat)
  have idx: "ia_index_in_transaction (message_instruction_account m ix k) = ucast (?as ! k)" for k
    by (simp add: message_instruction_account_def Let_def)
  have "vec_position (\<lambda>ia. ia_index_in_transaction ia = ia_index_in_transaction (?ias ! i)) ?ias =
      vec_position (\<lambda>k. ?as ! k = ?as ! i) [0..<length ?as]"
    using n by (simp add: message_instruction_accounts_def vec_position_map idx ucast_u8_inject)
  also have "\<dots> = vec_position (\<lambda>a. a = ?as ! i) (map ((!) ?as) [0..<length ?as])" by (simp add: vec_position_map)
  also have "\<dots> = Some (unat (ia_index_in_callee (?ias ! i)))" using pos callee by (simp add: map_nth)
  finally show "vec_position (\<lambda>ia. ia_index_in_transaction ia = ia_index_in_transaction (?ias ! i)) ?ias =
      Some (unat (ia_index_in_callee (?ias ! i)))" .
qed

lemma message_accounts_writable: "writable_in (message_instruction_accounts m ix) k \<Longrightarrow> msg_is_writable m k"
  by (auto simp: writable_in_def message_instruction_accounts_def message_instruction_account_def Let_def)

lemma length_message_accounts [simp]: "length (message_instruction_accounts m ix) = length (ci_accounts ix)"
  by (simp add: message_instruction_accounts_def)

subsection \<open>What a message may change\<close>

definition sysvar_update :: "account \<Rightarrow> account \<Rightarrow> bool" where
  "sysvar_update a a' \<longleftrightarrow> (\<exists>d. length d = length (acc_data a) \<and> a' = a\<lparr>acc_data := d\<rparr>)"

definition msg_rel :: "(nat \<Rightarrow> bool) \<Rightarrow> transaction_context \<Rightarrow> transaction_context \<Rightarrow> bool" where
  "msg_rel W s t \<longleftrightarrow> tc_account_keys t = tc_account_keys s \<and> num_accounts t = num_accounts s \<and>
     tc_instruction_stack_capacity t = tc_instruction_stack_capacity s \<and> borrow_flags t = borrow_flags s \<and>
     (\<forall>k. \<not> W k \<longrightarrow> account_at t k = account_at s k \<or>
        (tc_account_keys s ! k = sysvar_instructions_id \<and> sysvar_update (account_at s k) (account_at t k)))"

lemma msg_rel_refl: "msg_rel W s s"
  by (simp add: msg_rel_def)

lemma sysvar_update_trans: "sysvar_update a b \<Longrightarrow> sysvar_update b c \<Longrightarrow> sysvar_update a c"
  unfolding sysvar_update_def by (cases a; cases b; cases c) auto

lemma msg_rel_trans: "msg_rel W s t \<Longrightarrow> msg_rel W t u \<Longrightarrow> msg_rel W s u"
  unfolding msg_rel_def by (metis sysvar_update_trans)

lemma msg_rel_base: "base_rel W s t \<Longrightarrow> (\<And>k. W k \<Longrightarrow> W' k) \<Longrightarrow> msg_rel W' s t"
  unfolding msg_rel_def base_rel_def by blast

lemma find_index_of_account_ok:
  assumes "find_index_of_account tc key = Some j" "length (tc_account_keys tc) \<le> 2 ^ 16"
  shows "unat j < length (tc_account_keys tc)" "tc_account_keys tc ! unat j = key"
proof -
  from assms(1) obtain n where n: "n < length (tc_account_keys tc)" "tc_account_keys tc ! n = key" "j = of_nat n"
    by (auto simp: find_index_of_account_def vec_position_Some)
  then have "unat j = n" using assms(2) by (simp add: unat_of_nat)
  then show "unat j < length (tc_account_keys tc)" "tc_account_keys tc ! unat j = key" using n by simp_all
qed

lemma store_current_index_length: "store_current_index d i = Some d' \<Longrightarrow> length d' = length d"
  by (auto simp: store_current_index_def copy_at_def split: if_splits)

lemma fixup_ok:
  assumes "fixup_instructions_sysvar i tc = Inr tc'" "tx_inv tc"
  shows "msg_rel W tc tc' \<and> tx_inv tc' \<and> tc_instruction_stack tc' = tc_instruction_stack tc \<and>
    total_lamports (num_accounts tc') (account_at tc') = total_lamports (num_accounts tc) (account_at tc)"
proof (cases "find_index_of_account tc sysvar_instructions_id")
  case None
  then show ?thesis using assms by (simp add: fixup_instructions_sysvar_def msg_rel_refl)
next
  case (Some j)
  from assms(1) Some obtain d where j: "unat j < num_accounts tc"
    and d: "store_current_index (acc_data (account_at tc (unat j))) (of_nat i) = Some d"
    and tc': "tc' = set_data_at (unat j) d tc"
    by (auto simp: fixup_instructions_sysvar_def get_account_at_index_def ta_get_def vec_get_def account_at_def
        split: sum.splits if_splits option.splits)
  have key: "tc_account_keys tc ! unat j = sysvar_instructions_id"
    using find_index_of_account_ok [OF Some] assms(2) by (simp add: tx_inv_def)
  have at: "account_at tc' k = (if k = unat j then (account_at tc k)\<lparr>acc_data := d\<rparr> else account_at tc k)" for k
    using j by (simp add: tc' set_data_at_def update_account_at_def account_at_def)
  have frame: "num_accounts tc' = num_accounts tc" "tc_account_keys tc' = tc_account_keys tc" "borrow_flags tc' = borrow_flags tc"
    "tc_instruction_stack_capacity tc' = tc_instruction_stack_capacity tc"
    "tc_instruction_stack tc' = tc_instruction_stack tc" "tx_inv tc'"
    using assms(2) j
    by (simp_all add: tc' set_data_at_def update_account_at_def borrow_flags_def tx_inv_def stack_inv_def map_update list_update_same_conv)
  have "total_lamports (num_accounts tc') (account_at tc') = total_lamports (num_accounts tc) (account_at tc)"
    unfolding total_lamports_def frame by (rule sum.cong) (simp_all add: at)
  moreover have "msg_rel W tc tc'"
    using frame key store_current_index_length [OF d] by (auto simp: msg_rel_def at sysvar_update_def)
  ultimately show ?thesis using frame by simp
qed

lemma run_precompile_frame:
  assumes inv: "tx_inv (iv_tc iv)" and run: "run_precompile data ias ps iv = (r, iv')"
  shows "iv_rel (\<lambda>_. False) iv iv' \<and> tx_inv (iv_tc iv') \<and> tc_instruction_stack (iv_tc iv') = tc_instruction_stack (iv_tc iv)"
proof -
  let ?s = "configured ps ias data (iv_tc iv)"
  note conf = configured_facts [OF inv, where ps = ps and ias = ias and data = data]
  have "keeps (iv_rel (\<lambda>_. False)) (run_precompile data ias ps)"
    unfolding run_precompile_def
    by (intro keeps_on_tc base.keeps_rules keeps_update_next keeps_tc_push keeps_tc_pop)
  then have rel: "iv_rel (\<lambda>_. False) iv iv'" using run by (rule keepsD)
  have "tc_instruction_trace (iv_tc iv) \<noteq> []" using inv by (simp add: tx_inv_def stack_inv_def)
  then have upd: "update_next_instruction_context (ic_configure ps ias data) (iv_tc iv) = (Inr (), ?s)"
    by (simp add: update_next_instruction_context_def configured_def)
  then have iv': "iv_tc iv' = snd (bind tc_push (\<lambda>_. tc_pop) ?s)"
    using run by (auto simp: run_precompile_def on_tc_def bind_apply [of "update_next_instruction_context _"] split: prod.splits)
  have inv_s: "stack_inv ?s" using conf(1) by (simp add: tx_inv_def)
  have "stack_inv (iv_tc iv') \<and> tc_instruction_stack (iv_tc iv') = tc_instruction_stack ?s"
  proof (cases "tc_push ?s")
    case (Pair p t)
    have t: "stack_inv t" using stack_inv_push [OF inv_s] Pair by simp
    show ?thesis
    proof (cases p)
      case (Inl e)
      then have "tc_instruction_stack t = tc_instruction_stack ?s" using Pair by (auto dest: tc_push_err)
      then show ?thesis using iv' Pair Inl t by (simp add: bind_apply)
    next
      case (Inr x)
      then have "tc_push ?s = (Inr (), t)" using Pair by simp
      then have "tc_instruction_stack t = tc_instruction_stack ?s @ [length (tc_instruction_trace ?s) - 1]"
        by (elim tc_push_okE) simp
      then show ?thesis using iv' Pair Inr t stack_inv_pop [OF t] by (simp add: bind_apply tc_pop_state)
    qed
  qed
  then show ?thesis using rel conf(3) tx_inv_rel [OF inv rel] by simp
qed

subsection \<open>The run of a message\<close>

abbreviation pr_tc :: "process_state \<Rightarrow> transaction_context" where
  "pr_tc ps \<equiv> iv_tc (pr_invoke_context ps)"

text \<open>What one instruction, and the whole message, guarantee on every outcome.\<close>

definition message_step :: "sanitized_message \<Rightarrow> bool \<Rightarrow> transaction_context \<Rightarrow> transaction_context \<Rightarrow> bool" where
  "message_step m ok s t \<longleftrightarrow> msg_rel (msg_is_writable m) s t \<and> tx_inv t \<and>
     tc_instruction_stack t = tc_instruction_stack s \<and>
     (ok \<longrightarrow> total_lamports (num_accounts t) (account_at t) = total_lamports (num_accounts s) (account_at s))"

lemma message_step_refl: "tx_inv s \<Longrightarrow> message_step m ok s s"
  by (simp add: message_step_def msg_rel_refl)

lemma message_step_trans: "message_step m True s t \<Longrightarrow> message_step m ok t u \<Longrightarrow> message_step m ok s u"
  by (auto simp: message_step_def intro: msg_rel_trans)

lemma message_step_iv:
  assumes "iv_rel W iv iv' \<and> tx_inv (iv_tc iv') \<and> tc_instruction_stack (iv_tc iv') = tc_instruction_stack (iv_tc iv)"
    and "\<And>k. W k \<Longrightarrow> msg_is_writable m k"
    and "ok \<Longrightarrow> total_lamports (num_accounts (iv_tc iv')) (account_at (iv_tc iv')) =
      total_lamports (num_accounts (iv_tc iv)) (account_at (iv_tc iv))"
  shows "message_step m ok (iv_tc iv) (iv_tc iv')"
  using assms msg_rel_base [of W "iv_tc iv" "iv_tc iv'" "msg_is_writable m"] by (auto simp: message_step_def iv_rel_def)

lemma base_rel_none_total:
  "base_rel (\<lambda>_. False) s t \<Longrightarrow> total_lamports (num_accounts t) (account_at t) = total_lamports (num_accounts s) (account_at s)"
  by (simp add: base_rel_def total_lamports_def)

lemma on_iv_okE:
  assumes "on_iv f m ps = (r, ps')"
  obtains q iv' where "m (pr_invoke_context ps) = (q, iv')" "r = map_err f q" "ps' = ps\<lparr>pr_invoke_context := iv'\<rparr>"
  using assms by (auto simp: on_iv_def split: prod.splits)

lemma map_err_Inr: "map_err f q = Inr x \<longleftrightarrow> q = Inr x"
  by (auto simp: map_err_def split: sum.splits)

context program_contract
begin

lemma message_instruction_step:
  assumes run: "process_message_instruction programs is_active m i p ix ps_ix ps = (r, ps')"
    and inv: "tx_inv (pr_tc ps)" and len: "length ps_ix + length (ci_accounts ix) < 2 ^ 16"
  shows "message_step m (r = Inr ()) (pr_tc ps) (pr_tc ps')"
proof (cases p)
  case None
  then show ?thesis using run inv by (simp add: process_message_instruction_def throw_apply message_step_refl)
next
  case (Some pk)
  let ?ias = "message_instruction_accounts m ix"
  let ?err = "\<lambda>e. TxError (InstructionError (of_nat i) e)"
  show ?thesis
  proof (cases "fixup_instructions_sysvar i (pr_tc ps)")
    case (Inl e)
    then show ?thesis using run Some inv by (simp add: process_message_instruction_def bind_apply message_step_refl)
  next
    case (Inr tc)
    let ?ps = "ps\<lparr>pr_invoke_context := (pr_invoke_context ps)\<lparr>iv_transaction_context := tc\<rparr>\<rparr>"
    have fixed: "message_step m True (pr_tc ps) tc" and tc: "tx_inv (pr_tc ?ps)"
      using fixup_ok [OF Inr inv] by (simp_all add: message_step_def)
    have "message_step m (r = Inr ()) (pr_tc ?ps) (pr_tc ps')"
    proof (cases "is_precompile pk is_active")
      case True
      then have "on_iv ?err (run_precompile (ci_data ix) ?ias ps_ix) ?ps = (r, ps')"
        using run Some Inr by (simp add: process_message_instruction_def bind_apply Let_def)
      then obtain q iv' where q: "run_precompile (ci_data ix) ?ias ps_ix (pr_invoke_context ?ps) = (q, iv')"
        "ps' = ?ps\<lparr>pr_invoke_context := iv'\<rparr>" by (rule on_iv_okE)
      note fr = run_precompile_frame [OF tc q(1)]
      have "message_step m (r = Inr ()) (pr_tc ?ps) (iv_tc iv')"
        using fr base_rel_none_total by (intro message_step_iv [OF fr]) (simp_all add: iv_rel_def)
      then show ?thesis using q(2) by simp
    next
      case False
      obtain r0 v where r0: "on_iv ?err (process_instruction programs (ci_data ix) ?ias ps_ix) ?ps = (r0, v)"
        by (cases "on_iv ?err (process_instruction programs (ci_data ix) ?ias ps_ix) ?ps")
      then have v: "r0 = r" "pr_tc ps' = pr_tc v"
        using run Some Inr False by (auto simp: process_message_instruction_def bind_apply Let_def finally_do_apply)
      from r0 [unfolded v(1)] obtain q iv' where q: "process_instruction programs (ci_data ix) ?ias ps_ix (pr_invoke_context ?ps) = (q, iv')"
        "r = map_err ?err q" "v = ?ps\<lparr>pr_invoke_context := iv'\<rparr>" by (rule on_iv_okE)
      have l: "length ps_ix + length ?ias < 2 ^ 16" using len by simp
      note fr = process_instruction_frame [OF tc l q(1)]
      have "message_step m (r = Inr ()) (pr_tc ?ps) (iv_tc iv')"
      proof (rule message_step_iv [OF fr])
        show "writable_in ?ias k \<Longrightarrow> msg_is_writable m k" for k by (rule message_accounts_writable)
        assume "r = Inr ()"
        then have "q = Inr ()" using q(2) by (simp add: map_err_Inr)
        then show "total_lamports (num_accounts (iv_tc iv')) (account_at (iv_tc iv')) =
            total_lamports (num_accounts (pr_tc ?ps)) (account_at (pr_tc ?ps))"
          using process_instruction_conserves [OF tc l] message_accounts_callee [of ix m] q(1) len by simp
      qed
      then show ?thesis using q(3) v(2) by simp
    qed
    then show ?thesis using message_step_trans [OF fixed] by simp
  qed
qed

lemma message_loop_step:
  assumes "process_message_loop programs is_active m i items ps = (r, ps')" "tx_inv (pr_tc ps)"
    and "\<forall>((p, ix), ps_ix)\<in>set items. length ps_ix + length (ci_accounts ix) < 2 ^ 16"
  shows "message_step m (r = Inr ()) (pr_tc ps) (pr_tc ps')"
  using assms
proof (induction items arbitrary: i ps)
  case Nil
  then show ?case by (simp add: return_apply message_step_refl)
next
  case (Cons item items)
  obtain p ix ps_ix where item: "item = ((p, ix), ps_ix)" by (metis prod.collapse)
  obtain q v where q: "process_message_instruction programs is_active m i p ix ps_ix ps = (q, v)"
    by (cases "process_message_instruction programs is_active m i p ix ps_ix ps")
  have len: "length ps_ix + length (ci_accounts ix) < 2 ^ 16" using Cons.prems(3) item by simp
  note st = message_instruction_step [OF q Cons.prems(2) len]
  show ?case
  proof (cases q)
    case (Inl e)
    then show ?thesis using Cons.prems(1) q item st by (simp add: bind_apply)
  next
    case (Inr x)
    then have rest: "process_message_loop programs is_active m (Suc i) items v = (r, ps')"
      using Cons.prems(1) q item by (simp add: bind_apply)
    have inv: "tx_inv (pr_tc v)" using st by (simp add: message_step_def)
    have "message_step m (r = Inr ()) (pr_tc v) (pr_tc ps')"
      using Cons.prems(3) by (intro Cons.IH [OF rest inv]) simp
    then show ?thesis using message_step_trans st Inr by fastforce
  qed
qed

lemma process_message_step:
  assumes "process_message programs is_active m program_indices budget units tc = (r, ps')" "tx_inv tc"
    and "\<forall>ix\<in>set (msg_instructions m). \<forall>ps\<in>set program_indices. length ps + length (ci_accounts ix) < 2 ^ 16"
  shows "message_step m (r = Inr ()) tc (pr_tc ps')"
proof -
  have "message_step m (r = Inr ()) (pr_tc \<lparr>pr_invoke_context = invoke_context_new tc budget, pr_accumulated_consumed_units = units\<rparr>) (pr_tc ps')"
  proof (rule message_loop_step [OF assms(1) [unfolded process_message_def]])
    show "\<forall>((p, ix), ps_ix)\<in>set (zip (program_instructions_iter m) program_indices). length ps_ix + length (ci_accounts ix) < 2 ^ 16"
    proof
      fix x
      assume "x \<in> set (zip (program_instructions_iter m) program_indices)"
      then obtain p ix ps where x: "x = ((p, ix), ps)" "(p, ix) \<in> set (program_instructions_iter m)" "ps \<in> set program_indices"
        by (metis prod.collapse set_zip_leftD set_zip_rightD)
      then have "ix \<in> set (msg_instructions m)" by (auto simp: program_instructions_iter_def)
      then show "(\<lambda>((p, ix), ps_ix). length ps_ix + length (ci_accounts ix) < 2 ^ 16) x"
        using assms(3) x by simp
    qed
  qed (simp add: invoke_context_new_def assms(2))
  then show ?thesis by (simp add: invoke_context_new_def)
qed

end

end
