(* ===== verification/Builtins.thy ===== *)
theory Builtins
  imports Vote_Program Stake_Safety Lookup_Table_Properties Config_Properties System_Properties Message_Processor
begin

section \<open>The built-in programs\<close>

text \<open>
  \<open>runtime/src/builtins.rs\<close>: the table of built-in programs, for the programs that are modelled
  here, and \<open>programs/compute-budget/src/lib.rs\<close>. The lookup table program invokes other programs
  through the same table, so the table is unfolded once for every level of invocation: the programs
  of \<open>loaded_builtins env (Suc n)\<close> invoke those of \<open>loaded_builtins env n\<close>. A transaction cannot
  invoke deeper than its stack capacity, and the last section shows that a table unfolded as many
  times as the stack has room gives every result of a deeper one.
\<close>

definition compute_budget_program_id :: pubkey where
  "compute_budget_program_id = [3, 6, 70, 111, 229, 33, 23, 50, 255, 236, 173, 186, 114, 195, 155, 231, 188, 140,
     229, 187, 197, 247, 18, 107, 44, 67, 155, 58, 64, 0, 0, 0]"

record builtin_prototype =
  bp_feature_id :: "pubkey option"
  bp_program_id :: pubkey
  bp_name :: string
  bp_entrypoint :: "unit iv_effect"

record builtin_env =
  be_system :: invoke_env
  be_vote :: vote_env
  be_stake :: stake_env
  be_config :: config_env
  be_lookup :: lookup_env

definition system_DEFAULT_COMPUTE_UNITS :: u64 where "system_DEFAULT_COMPUTE_UNITS = 150"

definition compute_budget_DEFAULT_COMPUTE_UNITS :: u64 where "compute_budget_DEFAULT_COMPUTE_UNITS = 150"

definition compute_budget_process_instruction :: "unit iv_effect" where
  "compute_budget_process_instruction = return ()"

text \<open>The entries of \<open>BUILTINS\<close> for the modelled programs, in the order of the source.\<close>

definition system_builtin :: "builtin_env \<Rightarrow> builtin_prototype" where
  "system_builtin env =
     \<lparr>bp_feature_id = None, bp_program_id = system_program_id, bp_name = ''system_program'',
      bp_entrypoint = declare_process_instruction system_DEFAULT_COMPUTE_UNITS
        (on_tc (system_process_instruction (be_system env)))\<rparr>"

definition vote_builtin :: "builtin_env \<Rightarrow> builtin_prototype" where
  "vote_builtin env =
     \<lparr>bp_feature_id = None, bp_program_id = vote_program_id, bp_name = ''vote_program'',
      bp_entrypoint = declare_process_instruction vote_DEFAULT_COMPUTE_UNITS
        (on_tc (vote_process_instruction (be_vote env)))\<rparr>"

definition stake_builtin :: "builtin_env \<Rightarrow> builtin_prototype" where
  "stake_builtin env =
     \<lparr>bp_feature_id = None, bp_program_id = stake_program_id, bp_name = ''stake_program'',
      bp_entrypoint = declare_process_instruction stake_DEFAULT_COMPUTE_UNITS
        (on_tc (stake_process_instruction (be_stake env)))\<rparr>"

definition config_builtin :: "builtin_env \<Rightarrow> builtin_prototype" where
  "config_builtin env =
     \<lparr>bp_feature_id = None, bp_program_id = config_program_id, bp_name = ''config_program'',
      bp_entrypoint = declare_process_instruction config_DEFAULT_COMPUTE_UNITS
        (on_tc (config_process_instruction (be_config env)))\<rparr>"

definition compute_budget_builtin :: builtin_prototype where
  "compute_budget_builtin =
     \<lparr>bp_feature_id = None, bp_program_id = compute_budget_program_id, bp_name = ''compute_budget_program'',
      bp_entrypoint = declare_process_instruction compute_budget_DEFAULT_COMPUTE_UNITS
        compute_budget_process_instruction\<rparr>"

definition lookup_table_builtin :: "builtin_env \<Rightarrow> program_table \<Rightarrow> builtin_prototype" where
  "lookup_table_builtin env programs =
     \<lparr>bp_feature_id = None, bp_program_id = alt_program_id, bp_name = ''address_lookup_table_program'',
      bp_entrypoint = declare_process_instruction alt_DEFAULT_COMPUTE_UNITS
        (alt_process_instruction (be_lookup env) programs)\<rparr>"

definition modelled_builtins :: "builtin_env \<Rightarrow> program_table \<Rightarrow> builtin_prototype list" where
  "modelled_builtins env programs =
     [system_builtin env, vote_builtin env, stake_builtin env, config_builtin env, compute_budget_builtin, lookup_table_builtin env programs]"

lemmas builtin_defs = modelled_builtins_def system_builtin_def vote_builtin_def stake_builtin_def config_builtin_def compute_budget_builtin_def
  lookup_table_builtin_def

text \<open>The cache entries that the bank adds for the built-ins that need no feature.\<close>

definition builtin_programs :: "builtin_prototype list \<Rightarrow> program_table" where
  "builtin_programs builtins p =
     map_option (\<lambda>b. Builtin (Some (bp_entrypoint b)))
       (List.find (\<lambda>b. bp_feature_id b = None \<and> bp_program_id b = p) builtins)"

fun loaded_builtins :: "builtin_env \<Rightarrow> nat \<Rightarrow> program_table" where
  "loaded_builtins env 0 = (\<lambda>_. None)"
| "loaded_builtins env (Suc n) = builtin_programs (modelled_builtins env (loaded_builtins env n))"

subsection \<open>The built-ins satisfy the contract\<close>

lemma frame_leaf:
  assumes "safe_rel ic (iv_tc iv) (snd (m (iv_tc iv)))"
  shows "frame_rel ic iv (snd (on_tc m iv))"
proof -
  let ?m = "\<lambda>tc. if tc = iv_tc iv then m tc else (fst (m tc), tc)"
  have "keeps (frame_rel ic) (on_tc ?m)"
    by (intro keeps_frame_safe keepsI) (simp add: assms safe_rel_refl)
  then have "frame_rel ic iv (snd (on_tc ?m iv))" by (simp add: keeps_def)
  then show ?thesis by (simp add: on_tc_def)
qed

lemma keeps_frame_leaf:
  assumes "\<And>tc. get_current_instruction_context tc = Inr ic \<Longrightarrow> safe_rel ic tc (snd (m tc))"
  shows "keeps (frame_rel ic) (on_tc m)"
proof (rule keepsI)
  fix iv
  show "frame_rel ic iv (snd (on_tc m iv))"
    by (cases "get_current_instruction_context (iv_tc iv) = Inr ic") (simp_all add: assms frame_leaf, simp add: frame_rel_def)
qed

text \<open>The stake program answers one query in the return data; otherwise it is like the others.\<close>

lemma keeps_frame_stake:
  assumes "wf_ic ic"
  shows "keeps (frame_rel ic) (on_tc (stake_process_instruction env))"
proof (rule keepsI)
  fix iv
  let ?query = "set_return_data stake_program_id (put_u64 (get_minimum_delegation env))"
  show "frame_rel ic iv (snd (on_tc (stake_process_instruction env) iv))"
  proof (cases "get_current_instruction_context (iv_tc iv) = Inr ic")
    case True
    from stake_safe [OF assms True, of env] show ?thesis
    proof
      assume "stake_process_instruction env (iv_tc iv) = ?query (iv_tc iv)"
      then show ?thesis
        using keeps_frame_return_data [of ic stake_program_id "put_u64 (get_minimum_delegation env)"] by (simp add: keeps_def on_tc_def)
    qed (rule frame_leaf)
  qed (simp add: frame_rel_def)
qed

lemma modelled_builtins_ok:
  assumes "program_contract programs" "b \<in> set (modelled_builtins env programs)"
  shows "program_ok (bp_entrypoint b)"
proof -
  have "program_ok (declare_process_instruction cu (on_tc (system_process_instruction e)))" for cu e
    by (intro program_ok_builtin keeps_frame_leaf keeps_system_process)
  moreover have "program_ok (declare_process_instruction cu (on_tc (vote_process_instruction e)))" for cu e
    by (intro program_ok_builtin keeps_frame_leaf vote_safe)
  moreover have "program_ok (declare_process_instruction cu (on_tc (stake_process_instruction e)))" for cu e
    by (intro program_ok_builtin keeps_frame_stake)
  moreover have "program_ok (declare_process_instruction cu (on_tc (config_process_instruction e)))" for cu e
    by (intro program_ok_builtin keeps_frame_leaf config_safe)
  moreover have "program_ok (declare_process_instruction cu compute_budget_process_instruction)" for cu
    by (intro program_ok_builtin) (simp add: compute_budget_process_instruction_def fr.keeps_return)
  ultimately show ?thesis
    using assms(2) program_contract.alt_program_ok [OF assms(1)] by (auto simp: builtin_defs)
qed

lemma lookup_builtinE:
  assumes "lookup_entrypoint (builtin_programs builtins) p = Inr f"
  obtains b where "b \<in> set builtins" "bp_program_id b = p" "bp_feature_id b = None" "f = bp_entrypoint b"
proof -
  from assms obtain b where b: "List.find (\<lambda>b. bp_feature_id b = None \<and> bp_program_id b = p) builtins = Some b" "f = bp_entrypoint b"
    by (auto simp: lookup_entrypoint_def builtin_programs_def split: option.splits)
  then show thesis by (intro that [of b]) (auto simp: find_Some_iff)
qed

lemma loaded_builtins_contract: "program_contract (loaded_builtins env n)"
proof (induction n)
  case 0
  show ?case by unfold_locales (simp add: lookup_entrypoint_def)
next
  case (Suc n)
  show ?case by unfold_locales (auto elim!: lookup_builtinE intro: modelled_builtins_ok [OF Suc.IH])
qed

interpretation builtins: program_contract "loaded_builtins env n" for env n
  by (rule loaded_builtins_contract)

lemma system_is_leaf: "leaf_program (loaded_builtins env (Suc n)) system_program_id"
  unfolding leaf_program_def
  by (intro exI [of _ system_DEFAULT_COMPUTE_UNITS] exI [of _ "system_process_instruction (be_system env)"])
    (simp add: builtin_programs_def builtin_defs keeps_system_process)

subsection \<open>Unfolding the table as deep as the stack\<close>

text \<open>Two effects with the same behaviour on the states that satisfy a predicate.\<close>

definition agree :: "('s \<Rightarrow> bool) \<Rightarrow> ('s, 'e, 'a) effect \<Rightarrow> ('s, 'e, 'a) effect \<Rightarrow> bool" where
  "agree P m m' \<longleftrightarrow> (\<forall>s. P s \<longrightarrow> m s = m' s)"

definition has_room :: "instruction_context \<Rightarrow> nat \<Rightarrow> invoke_context \<Rightarrow> bool" where
  "has_room ic n iv \<longleftrightarrow> tx_inv (iv_tc iv) \<and> get_current_instruction_context (iv_tc iv) = Inr ic \<and>
     tc_instruction_stack_capacity (iv_tc iv) \<le> length (tc_instruction_stack (iv_tc iv)) + n"

lemma agree_refl: "agree P m m"
  by (simp add: agree_def)

lemma has_room_keeps: "keeps (frame_rel ic) m \<Longrightarrow> has_room ic n iv \<Longrightarrow> has_room ic n (snd (m iv))"
  unfolding keeps_def by (auto simp: has_room_def frame_rel_def iv_rel_def base_rel_def)

lemma agree_bind:
  assumes "agree (has_room ic n) m m'" "keeps (frame_rel ic) m" "\<And>x. agree (has_room ic n) (f x) (f' x)"
  shows "agree (has_room ic n) (bind m f) (bind m' f')"
  unfolding agree_def
proof (intro allI impI)
  fix iv
  assume room: "has_room ic n iv"
  then have "has_room ic n (snd (m iv))" by (rule has_room_keeps [OF assms(2)])
  moreover have "m iv = m' iv" using assms(1) room by (simp add: agree_def)
  ultimately show "bind m f iv = bind m' f' iv"
    using assms(3) by (cases "m' iv"; cases "fst (m' iv)") (simp_all add: agree_def bind_apply)
qed

lemma agree_current:
  assumes "agree (has_room ic n) (f ic) (f' ic)"
  shows "agree (has_room ic n) (bind (on_tc (reads get_current_instruction_context)) f)
    (bind (on_tc (reads get_current_instruction_context)) f')"
  using assms by (auto simp: agree_def has_room_def bind_apply on_tc_def reads_apply)

lemma agree_if: "agree P m m' \<Longrightarrow> agree P l l' \<Longrightarrow> agree P (if b then m else l) (if b then m' else l')"
  by simp

lemma agree_lift: "(\<And>x. r = Inr x \<Longrightarrow> agree P (f x) (f' x)) \<Longrightarrow> agree P (bind (lift r) f) (bind (lift r) f')"
  by (cases r) (simp_all add: agree_def bind_apply lift_apply)

lemma agree_declare:
  assumes "agree (has_room ic n) m m'"
  shows "agree (has_room ic n) (declare_process_instruction cu m) (declare_process_instruction cu m')"
  unfolding declare_process_instruction_def
  by (intro agree_bind agree_refl assms) (simp add: fr.keeps_return keeps_frame_consume_checked)

lemma agree_case_prod: "(\<And>x y. agree P (f x y) (f' x y)) \<Longrightarrow> agree P (case z of (x, y) \<Rightarrow> f x y) (case z of (x, y) \<Rightarrow> f' x y)"
  by (cases z) simp

lemma agree_alt:
  assumes invoke: "\<And>ix signers. length (ix_accounts ix) < 2 ^ 16 - 1 \<Longrightarrow>
      agree (has_room ic n) (native_invoke programs ix signers) (native_invoke programs' ix signers)"
    and wf: "wf_ic ic" and ok: "program_contract programs"
  shows "agree (has_room ic n) (alt_process_instruction env programs) (alt_process_instruction env programs')"
proof -
  note short = program_contract.system_builders_short [OF ok]
  have built: "agree (has_room ic n) (native_invoke_built programs built signers) (native_invoke_built programs' built signers) \<and>
      keeps (frame_rel ic) (native_invoke_built programs built signers)"
    if "\<And>ix. built = Some ix \<Longrightarrow> length (ix_accounts ix) < 2 ^ 16 - 1" for built signers
    using that program_contract.keeps_native_invoke_built [OF ok wf]
    unfolding native_invoke_built_def by (auto intro!: agree_lift invoke)
  have transfer: "agree (has_room ic n) (native_invoke_built programs (transfer_instruction B a b l) signers)
      (native_invoke_built programs' (transfer_instruction B a b l) signers)"
      "keeps (frame_rel ic) (native_invoke_built programs (transfer_instruction B a b l) signers)" for B a b l signers
    using built short(1) by blast+
  have allocate: "agree (has_room ic n) (native_invoke_built programs (allocate_instruction B a sp) signers)
      (native_invoke_built programs' (allocate_instruction B a sp) signers)"
      "keeps (frame_rel ic) (native_invoke_built programs (allocate_instruction B a sp) signers)" for B a sp signers
    using built short(2) by blast+
  have assign: "agree (has_room ic n) (native_invoke_built programs (assign_instruction B a ow) signers)
      (native_invoke_built programs' (assign_instruction B a ow) signers)"
      "keeps (frame_rel ic) (native_invoke_built programs (assign_instruction B a ow) signers)" for B a ow signers
    using built short(3) by blast+
  note built = transfer(1) allocate(1) assign(1) and kept = transfer(2) allocate(2) assign(2)
  have allocated: "agree (has_room ic n) (allocate_table env programs payer key lamports) (allocate_table env programs' payer key lamports)" for payer key lamports
    unfolding allocate_table_def Let_def
    by (rule agree_lift, rule agree_bind, rule agree_if, rule built, rule agree_refl)
      (auto intro!: built kept agree_bind fr.keeps_return)
  have kept_allocate: "keeps (frame_rel ic) (allocate_table env programs payer key lamports)" for payer key lamports
    unfolding allocate_table_def Let_def by (intro fr.keeps_rules kept)
  have create_checks_kept: "keeps (safe_rel ic) (create_checks env ic slot bump)" for slot bump
    unfolding create_checks_def by (intro table_handler_rules wf)
  have "agree (has_room ic n) (create_lookup_table env programs slot bump) (create_lookup_table env programs' slot bump)" for slot bump
    unfolding create_lookup_table_def
    by (intro agree_current agree_bind [OF agree_refl] agree_bind [OF allocated] agree_case_prod agree_if agree_refl
        kept_allocate keeps_frame_safe create_checks_kept wf)
  moreover have "agree (has_room ic n) (extend_lookup_table env programs ks) (extend_lookup_table env programs' ks)" for ks
    unfolding extend_lookup_table_def fund_table_def Let_def
    by (intro agree_current agree_bind [OF agree_refl] agree_lift agree_case_prod agree_if agree_refl built
        keeps_frame_safe keeps_check_table_owner keeps_check_signing_account keeps_extend_table_account wf)
  ultimately have "agree (has_room ic n) (case instruction of
         CreateLookupTable recent_slot bump_seed \<Rightarrow> create_lookup_table env programs recent_slot bump_seed
       | FreezeLookupTable \<Rightarrow> on_tc (freeze_lookup_table env ic)
       | ExtendLookupTable new_addresses \<Rightarrow> extend_lookup_table env programs new_addresses
       | DeactivateLookupTable \<Rightarrow> on_tc (deactivate_lookup_table env ic)
       | CloseLookupTable \<Rightarrow> on_tc (close_lookup_table env ic)) (case instruction of
         CreateLookupTable recent_slot bump_seed \<Rightarrow> create_lookup_table env programs' recent_slot bump_seed
       | FreezeLookupTable \<Rightarrow> on_tc (freeze_lookup_table env ic)
       | ExtendLookupTable new_addresses \<Rightarrow> extend_lookup_table env programs' new_addresses
       | DeactivateLookupTable \<Rightarrow> on_tc (deactivate_lookup_table env ic)
       | CloseLookupTable \<Rightarrow> on_tc (close_lookup_table env ic))" for instruction
    by (cases instruction) (simp_all add: agree_refl)
  then show ?thesis
    unfolding alt_process_instruction_def by (intro agree_current agree_lift)
qed

lemma agree_run_entrypoint: "agree P f f' \<Longrightarrow> agree P (run_entrypoint a b f) (run_entrypoint a b f')"
  by (simp add: agree_def run_entrypoint_def)

lemma lookup_builtins_agree:
  assumes alt: "agree P (alt_process_instruction (be_lookup env) programs) (alt_process_instruction (be_lookup env) programs')"
    and wrap: "\<And>cu m m'. agree P m m' \<Longrightarrow> agree P (declare_process_instruction cu m) (declare_process_instruction cu m')"
  shows "lookup_entrypoint (builtin_programs (modelled_builtins env programs)) p = lookup_entrypoint (builtin_programs (modelled_builtins env programs')) p \<or>
    (\<exists>f f'. lookup_entrypoint (builtin_programs (modelled_builtins env programs)) p = Inr f \<and>
       lookup_entrypoint (builtin_programs (modelled_builtins env programs')) p = Inr f' \<and> agree P f f')"
  using wrap [OF alt] by (auto simp: lookup_entrypoint_def builtin_programs_def builtin_defs)

lemma chain_agree:
  assumes "wf_ic ic"
    and lookup: "\<And>p. lookup_entrypoint programs p = lookup_entrypoint programs' p \<or>
      (\<exists>f f'. lookup_entrypoint programs p = Inr f \<and> lookup_entrypoint programs' p = Inr f' \<and> agree (has_room ic n) f f')"
  shows "agree (has_room ic n) (process_executable_chain programs) (process_executable_chain programs')"
proof -
  have looked: "agree (has_room ic n) (bind (lift (lookup_entrypoint programs p)) g) (bind (lift (lookup_entrypoint programs' p)) g)"
    if "\<And>f f'. agree (has_room ic n) f f' \<Longrightarrow> agree (has_room ic n) (g f) (g f')" for p g
    using lookup [of p] that by (auto simp: agree_def bind_apply lift_apply)
  show ?thesis
    unfolding process_executable_chain_def
    by (intro agree_current looked agree_bind [OF agree_refl] agree_run_entrypoint keeps_frame_same same.keeps_rules
        keeps_same_builtin_id keeps_frame_return_data)
qed

lemma process_instruction_pushes:
  assumes "tx_inv (iv_tc iv)"
  obtains v where "iv_tc v = configured ps ias data (iv_tc iv)" "iv_compute_meter v = iv_compute_meter iv"
    "\<And>programs. process_instruction programs data ias ps iv =
       bind invoke_push (\<lambda>_. run_then_pop (process_executable_chain programs)) v"
proof -
  let ?v = "iv\<lparr>iv_compute_units_consumed := 0, iv_transaction_context := configured ps ias data (iv_tc iv)\<rparr>"
  have "tc_instruction_trace (iv_tc iv) \<noteq> []" using assms by (simp add: tx_inv_def stack_inv_def)
  then have "on_tc (update_next_instruction_context (ic_configure ps ias data))
      (iv\<lparr>iv_compute_units_consumed := 0\<rparr>) = (Inr (), ?v)"
    by (simp add: on_tc_def update_next_instruction_context_def configured_def)
  then show thesis
    by (intro that [of ?v])
      (simp_all add: process_instruction_def bind_apply [of "modify _"] bind_apply [of "on_tc _"] modify_apply)
qed

lemma pushed_frame:
  assumes inv: "tx_inv (iv_tc iv)" and len: "length ps + length ias < 2 ^ 16"
    and v: "iv_tc v = configured ps ias data (iv_tc iv)" "invoke_push v = (Inr (), u)"
  obtains ic where "wf_ic ic" "length (tc_instruction_stack (iv_tc iv)) < tc_instruction_stack_capacity (iv_tc iv)"
    "tc_instruction_stack_capacity (iv_tc iv) \<le> length (tc_instruction_stack (iv_tc iv)) + Suc n \<Longrightarrow> has_room ic n u"
proof -
  have push: "tc_push (iv_tc v) = (Inr (), iv_tc u)" using invoke_push_ok [OF v(2)] .
  then obtain S where S: "get_current_instruction_context (iv_tc u) = Inr (pushed_context (iv_tc v) S)"
    "tc_instruction_stack (iv_tc u) = tc_instruction_stack (iv_tc v) @ [length (tc_instruction_trace (iv_tc v)) - 1]"
    by (rule current_after_push)
  have conf: "tx_inv (iv_tc v)" "tc_instruction_stack (iv_tc v) = tc_instruction_stack (iv_tc iv)"
    "ic_instruction_accounts (last (tc_instruction_trace (iv_tc v))) = ias"
    "ic_program_accounts (last (tc_instruction_trace (iv_tc v))) = ps"
    using configured_facts [OF inv] v(1) by (simp_all add: ic_configure_def)
  have cap: "tc_instruction_stack_capacity (iv_tc v) = tc_instruction_stack_capacity (iv_tc iv)"
    using v(1) by (simp add: configured_def)
  have base: "base_rel (\<lambda>_. False) (iv_tc v) (iv_tc u)" using keeps_tc_push [THEN keepsD, OF push] .
  then have "tx_inv (iv_tc u)"
    using conf(1) stack_inv_push [of "iv_tc v"] push by (simp add: tx_inv_def base_rel_def)
  moreover have "wf_ic (pushed_context (iv_tc v) S)" using len conf by (simp add: wf_ic_def pushed_context_def)
  moreover have "length (tc_instruction_stack (iv_tc iv)) < tc_instruction_stack_capacity (iv_tc iv)"
    using push conf(2) cap by (elim tc_push_okE) simp
  ultimately show thesis
    using S conf(2) cap base by (intro that [of "pushed_context (iv_tc v) S"]) (simp_all add: has_room_def base_rel_def)
qed

text \<open>A table as deep as the room left on the stack gives every result of a deeper one.\<close>

lemma process_instruction_depth:
  assumes "tx_inv (iv_tc iv)" "length ps + length ias < 2 ^ 16"
    and "tc_instruction_stack_capacity (iv_tc iv) \<le> length (tc_instruction_stack (iv_tc iv)) + n"
  shows "process_instruction (loaded_builtins env n) data ias ps iv = process_instruction (loaded_builtins env (Suc n)) data ias ps iv"
  using assms
proof (induction n arbitrary: iv data ias ps)
  case 0
  obtain v where v: "iv_tc v = configured ps ias data (iv_tc iv)" and run: "\<And>programs. process_instruction programs data ias ps iv =
       bind invoke_push (\<lambda>_. run_then_pop (process_executable_chain programs)) v"
    using process_instruction_pushes [OF 0(1), of ps ias data] by blast
  have "fst (invoke_push v) \<noteq> Inr ()"
    using pushed_frame [OF 0(1,2) v, where thesis = False] 0(3) by (cases "invoke_push v") auto
  then show ?case by (cases "invoke_push v"; cases "fst (invoke_push v)") (simp_all add: run bind_apply)
next
  case (Suc n)
  obtain v where v: "iv_tc v = configured ps ias data (iv_tc iv)" and run: "\<And>programs. process_instruction programs data ias ps iv =
       bind invoke_push (\<lambda>_. run_then_pop (process_executable_chain programs)) v"
    using process_instruction_pushes [OF Suc.prems(1), of ps ias data] by blast
  have "process_executable_chain (loaded_builtins env (Suc n)) u = process_executable_chain (loaded_builtins env (Suc (Suc n))) u"
    if push: "invoke_push v = (Inr (), u)" for u
  proof -
    obtain ic where wf: "wf_ic ic" and room: "has_room ic n u"
      using pushed_frame [OF Suc.prems(1,2) v push, where thesis = thesis and n = n] Suc.prems(3) by blast
    have invoke: "agree (has_room ic n) (native_invoke (loaded_builtins env n) ix signers) (native_invoke (loaded_builtins env (Suc n)) ix signers)"
      if len: "length (ix_accounts ix) < 2 ^ 16 - 1" for ix signers
      unfolding agree_def
    proof (intro allI impI)
      fix w
      assume w: "has_room ic n w"
      then have tx: "tx_inv (iv_tc w)" "get_current_instruction_context (iv_tc w) = Inr ic" by (simp_all add: has_room_def)
      obtain r t where prep: "prepare_instruction ix signers (iv_tc w) = (r, t)" by (cases "prepare_instruction ix signers (iv_tc w)")
      then have "t = iv_tc w" using keeps_sameD [OF keeps_same_prepare, of ix signers "iv_tc w"] by simp
      then have on: "on_tc (prepare_instruction ix signers) w = (r, w)" using prep by (simp add: on_tc_def)
      have "length p + length ias < 2 ^ 16" if "r = Inr (ias, p)" for ias p
        using prepare_instruction_ok(1,4) [OF prep [unfolded that] tx wf] len by (auto simp: prepared_def)
      then show "native_invoke (loaded_builtins env n) ix signers w = native_invoke (loaded_builtins env (Suc n)) ix signers w"
        using w on Suc.IH [OF tx(1)] by (cases r) (auto simp: native_invoke_def bind_apply has_room_def simp del: loaded_builtins.simps)
    qed
    have "agree (has_room ic n) (process_executable_chain (loaded_builtins env (Suc n))) (process_executable_chain (loaded_builtins env (Suc (Suc n))))"
      using lookup_builtins_agree [OF agree_alt [OF invoke wf loaded_builtins_contract] agree_declare]
      unfolding loaded_builtins.simps(2) by (intro chain_agree wf) blast
    then show ?thesis using room by (simp add: agree_def)
  qed
  then show ?case
    by (cases "invoke_push v"; cases "fst (invoke_push v)") (simp_all add: run bind_apply run_then_pop_def del: loaded_builtins.simps)
qed

end
