(* ===== verification/Vote_Tower.thy ===== *)
theory Vote_Tower
  imports Vote_Updates
begin

section \<open>The tower of votes\<close>

text \<open>
  A vote tower is well formed when its slots increase, its confirmation counts decrease, every vote
  was still locked out when the next one came, and the root lies below. Both ways to change a tower
  keep it well formed, and both honour the lockouts: a vote leaves the tower only by being rooted or
  by a vote beyond its lockout.
\<close>

definition tower_step :: "landed_vote \<Rightarrow> landed_vote \<Rightarrow> bool" where
  "tower_step a b \<longleftrightarrow> lv_slot a < lv_slot b \<and> lv_conf b < lv_conf a \<and> lv_slot b \<le> last_locked_out_slot (lv_lockout a)"

definition vote_ok :: "u64 option \<Rightarrow> landed_vote \<Rightarrow> bool" where
  "vote_ok r v \<longleftrightarrow> 0 < lv_conf v \<and> lv_conf v \<le> 31 \<and> (case r of None \<Rightarrow> True | Some s \<Rightarrow> s = 0 \<or> s < lv_slot v)"

definition tower_ok :: "vote_state \<Rightarrow> bool" where
  "tower_ok vs \<longleftrightarrow> length (vs_votes vs) \<le> MAX_LOCKOUT_HISTORY \<and> list_all (vote_ok (vs_root_slot vs)) (vs_votes vs) \<and>
     successively tower_step (vs_votes vs) \<and> (vs_votes vs = [] \<longrightarrow> vs_root_slot vs = None)"

subsection \<open>Lockout arithmetic\<close>

lemma unat_lockout_period: "lk_confirmation_count l \<le> 31 \<Longrightarrow> unat (lockout_period l) = 2 ^ unat (lk_confirmation_count l)"
proof -
  assume "lk_confirmation_count l \<le> 31"
  then have "unat (lk_confirmation_count l) \<le> 31" by (simp add: word_le_nat_alt)
  then have bound: "(2::nat) ^ unat (lk_confirmation_count l) \<le> 2 ^ 31" by (intro power_increasing) auto
  have "lockout_period l = of_nat (2 ^ unat (lk_confirmation_count l))"
    by (simp add: lockout_period_def INITIAL_LOCKOUT_def)
  then have "unat (lockout_period l) = 2 ^ unat (lk_confirmation_count l) mod 2 ^ 64"
    by (simp only: unat_of_nat) simp
  also have "\<dots> = 2 ^ unat (lk_confirmation_count l)"
    using bound by (intro mod_less le_less_trans [OF bound]) simp
  finally show ?thesis .
qed

lemma unat_last_locked_out_slot:
  "lk_confirmation_count l \<le> 31 \<Longrightarrow>
   unat (last_locked_out_slot l) = min (unat (lk_slot l) + 2 ^ unat (lk_confirmation_count l)) (2 ^ 64 - 1)"
  by (simp add: last_locked_out_slot_def unat_saturating_add unat_lockout_period)

lemma last_locked_out_slot_mono:
  assumes "lk_slot l = lk_slot l'" "lk_confirmation_count l \<le> lk_confirmation_count l'" "lk_confirmation_count l' \<le> 31"
  shows "last_locked_out_slot l \<le> last_locked_out_slot l'"
proof -
  have "(2::nat) ^ unat (lk_confirmation_count l) \<le> 2 ^ unat (lk_confirmation_count l')"
    using assms(2) by (intro power_increasing) (auto simp: word_le_nat_alt)
  then show ?thesis
    unfolding word_le_nat_alt unat_last_locked_out_slot [OF assms(3)]
      unat_last_locked_out_slot [OF order_trans [OF assms(2,3)]] assms(1)
    by (intro min.mono add_mono order_refl)
qed

lemma last_locked_out_slot_ge: "lk_slot l \<le> last_locked_out_slot l"
  using unsigned_less [of "lk_slot l", where ?'a = nat]
  by (simp add: word_le_nat_alt last_locked_out_slot_def unat_saturating_add)

subsection \<open>Well-formed towers\<close>

lemma tower_step_trans:
  "lv_slot a < lv_slot b \<and> lv_conf b < lv_conf a \<Longrightarrow> lv_slot b < lv_slot c \<and> lv_conf c < lv_conf b \<Longrightarrow>
   lv_slot a < lv_slot c \<and> lv_conf c < lv_conf a"
  by auto

lemma tower_sorted:
  assumes "successively tower_step votes"
  shows "sorted_wrt (\<lambda>a b. lv_slot a < lv_slot b \<and> lv_conf b < lv_conf a) votes"
proof -
  have "successively (\<lambda>a b. lv_slot a < lv_slot b \<and> lv_conf b < lv_conf a) votes"
    using assms by (rule successively_mono) (simp add: tower_step_def)
  then show ?thesis
    by (subst (asm) successively_iff_sorted_wrt_strong) (auto simp: transp_def)
qed

lemma check_new_votes_prev:
  "check_new_votes r (Some p) votes = Inr () \<longleftrightarrow> list_all (vote_ok r) votes \<and> successively tower_step (p # votes)"
  by (induction votes arbitrary: p)
    (auto simp: vote_ok_def tower_step_def MAX_LOCKOUT_HISTORY_def word_gt_0 not_le not_less split: option.splits)

lemma check_new_votes_iff:
  "check_new_votes r None votes = Inr () \<longleftrightarrow> list_all (vote_ok r) votes \<and> successively tower_step votes"
  by (cases votes)
    (auto simp: check_new_votes_prev vote_ok_def MAX_LOCKOUT_HISTORY_def word_gt_0 not_le not_less split: option.splits)

text \<open>Well-formedness only looks at the lockouts.\<close>

lemma tower_lockouts_cong:
  assumes "map lv_lockout votes = map lv_lockout votes'"
  shows "list_all (vote_ok r) votes = list_all (vote_ok r) votes'"
    and "successively tower_step votes = successively tower_step votes'"
proof -
  let ?ok = "\<lambda>l. vote_ok r (landed_vote_from l)" and ?step = "\<lambda>a b. tower_step (landed_vote_from a) (landed_vote_from b)"
  have "list_all (vote_ok r) vs \<longleftrightarrow> list_all ?ok (map lv_lockout vs)" for vs
    by (simp add: list_all_iff vote_ok_def landed_vote_from_def split: option.splits)
  then show "list_all (vote_ok r) votes = list_all (vote_ok r) votes'" using assms by metis
  have "successively tower_step vs \<longleftrightarrow> successively ?step (map lv_lockout vs)" for vs
    by (simp add: successively_map tower_step_def landed_vote_from_def)
  then show "successively tower_step votes = successively tower_step votes'" using assms by metis
qed

lemma merge_votes_lockouts: "merge_votes cur new = Inr merged \<Longrightarrow> map lv_lockout merged = map lv_lockout new"
  by (induction cur new arbitrary: merged rule: merge_votes.induct)
    (auto simp: and_then_Inr split: ordering.splits if_splits)

lemma set_new_latencies_lockouts: "map lv_lockout (set_new_latencies s votes) = map lv_lockout votes"
  by (simp add: set_new_latencies_def)

subsection \<open>Replaced towers\<close>

text \<open>What a successful replacement has established, and that a failed one leaves the tower alone.\<close>

definition same_tower :: "vote_state \<Rightarrow> vote_state \<Rightarrow> bool" where
  "same_tower vs vs' \<longleftrightarrow> vs_votes vs' = vs_votes vs \<and> vs_root_slot vs' = vs_root_slot vs"

interpretation tower: effect_preorder same_tower
  by unfold_locales (simp_all add: same_tower_def)

definition errs_keep :: "'a vs_effect \<Rightarrow> bool" where
  "errs_keep m \<longleftrightarrow> (\<forall>vs e vs'. m vs = (Inl e, vs') \<longrightarrow> same_tower vs vs')"

lemma errs_keep_bind:
  assumes "keeps same_tower m" "\<And>x. errs_keep (f x)"
  shows "errs_keep (bind m f)"
  unfolding errs_keep_def
proof (intro allI impI)
  fix vs e vs'
  assume run: "bind m f vs = (Inl e, vs')"
  obtain r t where m: "m vs = (r, t)" by (cases "m vs")
  have step: "same_tower vs t" using keepsD [OF assms(1) m] .
  show "same_tower vs vs'"
  proof (cases r)
    case (Inl a)
    then show ?thesis using run m step by (simp add: bind_apply)
  next
    case (Inr x)
    then have "f x t = (Inl e, vs')" using run m by (simp add: bind_apply)
    then have "same_tower t vs'" using assms(2) [of x] by (simp add: errs_keep_def)
    then show ?thesis using step tower.R_trans by blast
  qed
qed

lemma errs_keep_modify: "errs_keep (modify f)"
  by (simp add: errs_keep_def modify_apply)

lemma keeps_same_tower_timestamp: "keeps same_tower (process_timestamp s t)"
  by (rule keepsI) (simp add: process_timestamp_def effect_simps same_tower_def)

lemma keeps_same_tower_credits: "keeps same_tower (modify (\<lambda>vs. vs\<lparr>vs_epoch_credits := f vs\<rparr>))"
  by (rule keepsI) (simp add: effect_simps same_tower_def)

lemma errs_keep_process_new_vote_state:
  "errs_keep (process_new_vote_state new_state new_root ts epoch slot timely dep)"
  unfolding process_new_vote_state_def Let_def case_prod_beta
  by (intro errs_keep_bind errs_keep_modify tower.keeps_fail_if tower.keeps_gets tower.keeps_lift tower.keeps_if
      tower.keeps_option tower.keeps_return keeps_same_tower_timestamp keeps_same_tower_credits)

lemma gets_okE:
  assumes "gets f s = (Inr y, t)"
  obtains "y = f s" "t = s"
  using assms unfolding gets_apply by (elim Pair_inject) (rule that, drule Inr_inject, erule sym, erule sym)

definition rooted_votes :: "vote_state \<Rightarrow> bool \<Rightarrow> bool \<Rightarrow> u64 option \<Rightarrow> vote_error fault + nat \<times> u64" where
  "rooted_votes vs timely dep new_root =
     (case new_root of None \<Rightarrow> Inr (0, if timely then 0 else 1)
      | Some r \<Rightarrow> count_rooted (vs_votes vs) timely dep r (vs_votes vs) 0 (if timely then 0 else 1))"

lemma process_new_vote_state_ok:
  assumes "process_new_vote_state new_state new_root ts epoch slot timely dep vs = (Inr u, vs')"
  obtains index earned merged where
    "new_state \<noteq> []" "length new_state \<le> MAX_LOCKOUT_HISTORY" "\<not> root_rolls_back new_root (vs_root_slot vs)"
    "check_new_votes new_root None new_state = Inr ()" "rooted_votes vs timely dep new_root = Inr (index, earned)"
    "merge_votes (drop index (vs_votes vs)) new_state = Inr merged"
    "vs_votes vs' = (if timely then set_new_latencies slot merged else merged)" "vs_root_slot vs' = new_root"
  using assms
  unfolding process_new_vote_state_def Let_def rooted_votes_def [symmetric] case_prod_beta
  apply (elim bind_okE fail_if_okE lift_okE gets_okE)
  apply hypsubst
  subgoal premises prems for _ _ _ _ _ _ _ _ _ _ _ _ ix _ merged
    by (rule that [of "fst ix" "snd ix" merged], use prems(4-) in \<open>auto simp: modify_apply rooted_votes_def\<close>)
  done

subsection \<open>One more vote\<close>

lemma pop_expired_votes_split:
  obtains expired where "votes = pop_expired_votes slot votes @ expired"
    "\<forall>v\<in>set expired. last_locked_out_slot (lv_lockout v) < slot"
    "pop_expired_votes slot votes \<noteq> [] \<longrightarrow>
       slot \<le> last_locked_out_slot (lv_lockout (last (pop_expired_votes slot votes)))"
proof -
  let ?p = "\<lambda>v. \<not> is_locked_out_at_slot (lv_lockout v) slot"
  have "rev votes = takeWhile ?p (rev votes) @ dropWhile ?p (rev votes)" by simp
  from this [THEN arg_cong, of rev]
  have "votes = pop_expired_votes slot votes @ rev (takeWhile ?p (rev votes))"
    by (simp only: rev_append rev_rev_ident pop_expired_votes_def)
  moreover have "\<forall>v\<in>set (rev (takeWhile ?p (rev votes))). last_locked_out_slot (lv_lockout v) < slot"
    by (auto dest: set_takeWhileD simp: is_locked_out_at_slot_def)
  moreover have "pop_expired_votes slot votes \<noteq> [] \<longrightarrow>
      slot \<le> last_locked_out_slot (lv_lockout (last (pop_expired_votes slot votes)))"
    using hd_dropWhile [of ?p "rev votes"]
    by (simp add: pop_expired_votes_def last_rev is_locked_out_at_slot_def)
  ultimately show thesis by (rule that)
qed

lemma double_lockouts_length [simp]: "length (double_lockouts votes) = length votes"
  by (simp add: double_lockouts_def)

lemma double_lockouts_nth:
  assumes "i < length votes" "lv_conf (votes ! i) \<le> 31" "length votes \<le> 31"
  shows "lv_slot (double_lockouts votes ! i) = lv_slot (votes ! i)"
    and "unat (lv_conf (double_lockouts votes ! i)) =
      (if i + unat (lv_conf (votes ! i)) < length votes then unat (lv_conf (votes ! i)) + 1 else unat (lv_conf (votes ! i)))"
    and "lv_conf (double_lockouts votes ! i) \<le> 31"
proof -
  show slot: "lv_slot (double_lockouts votes ! i) = lv_slot (votes ! i)"
    using assms(1) by (simp add: double_lockouts_def nth_enumerate_eq increase_confirmation_count_def)
  have "unat (lv_conf (votes ! i)) \<le> 31" using assms(2) by (simp add: word_le_nat_alt)
  then show conf: "unat (lv_conf (double_lockouts votes ! i)) =
      (if i + unat (lv_conf (votes ! i)) < length votes then unat (lv_conf (votes ! i)) + 1 else unat (lv_conf (votes ! i)))"
    using assms(1) by (simp add: double_lockouts_def nth_enumerate_eq increase_confirmation_count_def unat_saturating_add)
  then show "lv_conf (double_lockouts votes ! i) \<le> 31" using assms by (auto simp: word_le_nat_alt split: if_splits)
qed

text \<open>
  The tower after one more vote: some votes expired, at most one was rooted, the new vote is last, and
  every vote that stayed keeps its slot with at least its confirmations.
\<close>

lemma successively_tl: "successively P xs \<Longrightarrow> successively P (tl xs)"
  by (cases xs) (auto simp: successively_Cons)

lemma double_lockouts_ok:
  assumes all: "\<forall>v\<in>set votes. 0 < lv_conf v \<and> lv_conf v \<le> 31" and succ: "successively tower_step votes"
    and len: "length votes < 31" and new: "lv_conf v = 1"
    and last: "votes \<noteq> [] \<Longrightarrow> lv_slot (last votes) < lv_slot v \<and> lv_slot v \<le> last_locked_out_slot (lv_lockout (last votes))"
  shows "successively tower_step (double_lockouts (votes @ [v]))"
proof -
  let ?vs = "votes @ [v]" and ?dv = "double_lockouts (votes @ [v])" and ?n = "Suc (length votes)"
  have all': "0 < lv_conf (?vs ! i) \<and> lv_conf (?vs ! i) \<le> 31" if "i < ?n" for i
    using that all new by (cases "i < length votes") (auto simp: nth_append less_Suc_eq)
  have "tower_step (?dv ! i) (?dv ! Suc i)" if i: "Suc i < ?n" for i
  proof -
    have b: "lv_conf (?vs ! i) \<le> 31" "lv_conf (?vs ! Suc i) \<le> 31" "length ?vs \<le> 31"
      using all' [of i] all' [of "Suc i"] i len by auto
    note di = double_lockouts_nth [of i ?vs, OF _ b(1,3)] and dj = double_lockouts_nth [of "Suc i" ?vs, OF _ b(2,3)]
    have old: "lv_slot (?vs ! i) < lv_slot (?vs ! Suc i) \<and> lv_slot (?vs ! Suc i) \<le> last_locked_out_slot (lv_lockout (?vs ! i)) \<and>
        (lv_conf (?vs ! Suc i) < lv_conf (?vs ! i) \<or> Suc i = length votes)"
    proof (cases "Suc i = length votes")
      case True
      then have "votes \<noteq> []" by auto
      moreover have "length votes - 1 = i" using True by simp
      ultimately have "votes \<noteq> []" "last votes = votes ! i" by (simp_all add: last_conv_nth)
      then show ?thesis using last True by (simp add: nth_append)
    next
      case False
      then have "tower_step (votes ! i) (votes ! Suc i)" using succ i by (simp add: successively_conv_nth)
      then show ?thesis using False i by (simp add: nth_append tower_step_def)
    qed
    have conf: "unat (lv_conf (?dv ! Suc i)) < unat (lv_conf (?dv ! i))"
    proof (cases "Suc i = length votes")
      case True
      then show ?thesis using di(2) dj(2) all' [of i] i new
        by (simp add: nth_append word_less_nat_alt split: if_splits)
    next
      case False
      then show ?thesis using di(2) dj(2) old i by (auto simp: word_less_nat_alt split: if_splits)
    qed
    have "lv_conf (?vs ! i) \<le> lv_conf (?dv ! i)" using di(2) i by (auto simp: word_le_nat_alt split: if_splits)
    then have "last_locked_out_slot (lv_lockout (?vs ! i)) \<le> last_locked_out_slot (lv_lockout (?dv ! i))"
      using di i by (intro last_locked_out_slot_mono) simp_all
    then show ?thesis using old conf di(1) dj(1) i by (auto simp: tower_step_def word_less_nat_alt)
  qed
  then show ?thesis by (simp add: successively_conv_nth)
qed

lemma double_lockouts_mem:
  assumes "\<forall>v\<in>set votes. 0 < lv_conf v \<and> lv_conf v \<le> 31" "length votes \<le> 31"
  shows "v \<in> set votes \<Longrightarrow> \<exists>n\<in>set (double_lockouts votes). lv_slot n = lv_slot v \<and> lv_conf v \<le> lv_conf n"
    and "n \<in> set (double_lockouts votes) \<Longrightarrow>
      0 < lv_conf n \<and> lv_conf n \<le> 31 \<and> (\<exists>v\<in>set votes. lv_slot n = lv_slot v)"
proof -
  have nth: "lv_slot (double_lockouts votes ! i) = lv_slot (votes ! i) \<and>
      lv_conf (votes ! i) \<le> lv_conf (double_lockouts votes ! i) \<and> lv_conf (double_lockouts votes ! i) \<le> 31"
    if "i < length votes" for i
    using double_lockouts_nth [OF that] assms nth_mem [OF that] by (auto simp: word_le_nat_alt)
  show "\<exists>n\<in>set (double_lockouts votes). lv_slot n = lv_slot v \<and> lv_conf v \<le> lv_conf n" if v: "v \<in> set votes"
  proof -
    obtain i where i: "i < length votes" "v = votes ! i" using v by (metis in_set_conv_nth)
    then have "double_lockouts votes ! i \<in> set (double_lockouts votes)" by (intro nth_mem) simp
    then show ?thesis using nth [OF i(1)] i(2) by blast
  qed
  show "0 < lv_conf n \<and> lv_conf n \<le> 31 \<and> (\<exists>v\<in>set votes. lv_slot n = lv_slot v)"
    if n: "n \<in> set (double_lockouts votes)"
  proof -
    obtain i where i: "i < length votes" "n = double_lockouts votes ! i"
      using n by (metis in_set_conv_nth double_lockouts_length)
    have "0 < lv_conf (votes ! i)" using assms(1) nth_mem [OF i(1)] by blast
    then show ?thesis using nth [OF i(1)] i nth_mem [OF i(1)] less_le_trans by blast
  qed
qed

subsection \<open>Lockouts are honoured\<close>

text \<open>
  \<open>tower_follows vs vs'\<close>: the root does not go back, and every vote of \<open>vs\<close> is rooted in \<open>vs'\<close>, or still
  there with at least its confirmations, or there is a vote beyond its lockout.
\<close>

definition root_le :: "u64 option \<Rightarrow> u64 option \<Rightarrow> bool" where
  "root_le a b \<longleftrightarrow> (case (a, b) of (None, _) \<Rightarrow> True | (Some _, None) \<Rightarrow> False | (Some x, Some y) \<Rightarrow> x \<le> y)"

definition vote_survives :: "vote_state \<Rightarrow> landed_vote \<Rightarrow> bool" where
  "vote_survives vs s \<longleftrightarrow> root_le (Some (lv_slot s)) (vs_root_slot vs) \<or>
     (\<exists>n\<in>set (vs_votes vs). lv_slot n = lv_slot s \<and> lv_conf s \<le> lv_conf n) \<or>
     (\<exists>n\<in>set (vs_votes vs). last_locked_out_slot (lv_lockout s) < lv_slot n)"

definition tower_follows :: "vote_state \<Rightarrow> vote_state \<Rightarrow> bool" where
  "tower_follows vs vs' \<longleftrightarrow> root_le (vs_root_slot vs) (vs_root_slot vs') \<and> (\<forall>s\<in>set (vs_votes vs). vote_survives vs' s)"

lemma root_le_refl [simp]: "root_le a a"
  by (simp add: root_le_def split: option.splits)

lemma root_le_trans: "root_le a b \<Longrightarrow> root_le b c \<Longrightarrow> root_le a c"
  by (auto simp: root_le_def split: option.splits)

lemma tower_follows_same: "same_tower vs vs' \<Longrightarrow> tower_follows vs vs'"
  by (auto simp: tower_follows_def same_tower_def vote_survives_def)

lemma tower_ok_same: "same_tower vs vs' \<Longrightarrow> tower_ok vs \<Longrightarrow> tower_ok vs'"
  by (simp add: tower_ok_def same_tower_def)

lemma tower_ok_conf: "tower_ok vs \<Longrightarrow> v \<in> set (vs_votes vs) \<Longrightarrow> 0 < lv_conf v \<and> lv_conf v \<le> 31"
  by (auto simp: tower_ok_def list_all_iff vote_ok_def)

lemma vote_survives_later:
  assumes "vote_survives vs s" "tower_follows vs vs'" "tower_ok vs"
  shows "vote_survives vs' s"
  using assms(1) [unfolded vote_survives_def]
proof (elim disjE bexE conjE)
  assume "root_le (Some (lv_slot s)) (vs_root_slot vs)"
  then have "root_le (Some (lv_slot s)) (vs_root_slot vs')"
    using assms(2) root_le_trans unfolding tower_follows_def by blast
  then show ?thesis by (simp add: vote_survives_def)
next
  fix n assume n: "n \<in> set (vs_votes vs)" "lv_slot n = lv_slot s" "lv_conf s \<le> lv_conf n"
  have "last_locked_out_slot (lv_lockout s) \<le> last_locked_out_slot (lv_lockout n)"
    using n tower_ok_conf [OF assms(3) n(1)] by (intro last_locked_out_slot_mono) simp_all
  then show ?thesis using assms(2) n unfolding tower_follows_def vote_survives_def
    by (metis order_trans le_less_trans)
next
  fix n assume n: "n \<in> set (vs_votes vs)" "last_locked_out_slot (lv_lockout s) < lv_slot n"
  have s: "lv_slot s < lv_slot n" using last_locked_out_slot_ge [of "lv_lockout s"] n(2) by simp
  have "lv_slot n \<le> last_locked_out_slot (lv_lockout n)" by (rule last_locked_out_slot_ge)
  then have "last_locked_out_slot (lv_lockout s) < last_locked_out_slot (lv_lockout n)" using n(2) by simp
  moreover have "root_le (Some (lv_slot s)) r" if "root_le (Some (lv_slot n)) r" for r
    using that s by (auto simp: root_le_def split: option.splits)
  moreover have "vote_survives vs' n" using assms(2) n(1) by (simp add: tower_follows_def)
  ultimately show ?thesis using n(2) unfolding vote_survives_def by (metis less_trans)
qed

lemma tower_follows_trans:
  "tower_follows vs vs' \<Longrightarrow> tower_follows vs' vs'' \<Longrightarrow> tower_ok vs' \<Longrightarrow> tower_follows vs vs''"
  using vote_survives_later root_le_trans unfolding tower_follows_def by blast

text \<open>A vote for a slot beyond the last one.\<close>

lemma tower_last_slot:
  assumes "successively tower_step votes" "v \<in> set votes"
  shows "lv_slot v \<le> lv_slot (last votes)"
proof -
  have "votes = butlast votes @ [last votes]" using assms(2) by (cases votes rule: rev_cases) auto
  then have "sorted_wrt (\<lambda>a b. lv_slot a < lv_slot b \<and> lv_conf b < lv_conf a) (butlast votes @ [last votes])"
    and "v \<in> set (butlast votes @ [last votes])"
    using tower_sorted [OF assms(1)] assms(2) by simp_all
  then show ?thesis by (auto simp: sorted_wrt_append)
qed

lemma push_vote_ok:
  assumes ok: "list_all (vote_ok r) votes" "successively tower_step votes" "length votes < 31"
    and v: "vote_ok r v" "lv_conf v = 1"
    and last: "votes \<noteq> [] \<Longrightarrow> lv_slot (last votes) < lv_slot v \<and> lv_slot v \<le> last_locked_out_slot (lv_lockout (last votes))"
  shows "tower_ok (vs\<lparr>vs_root_slot := r, vs_votes := double_lockouts (votes @ [v])\<rparr>)"
proof -
  have conf: "\<forall>u\<in>set (votes @ [v]). 0 < lv_conf u \<and> lv_conf u \<le> 31"
    using ok(1) v by (auto simp: list_all_iff vote_ok_def)
  have len: "length (votes @ [v]) \<le> 31" using ok(3) by simp
  have "list_all (vote_ok r) (double_lockouts (votes @ [v]))"
    unfolding list_all_iff
  proof
    fix n assume "n \<in> set (double_lockouts (votes @ [v]))"
    from double_lockouts_mem(2) [OF conf len this] obtain u where
      n: "0 < lv_conf n" "lv_conf n \<le> 31" "u \<in> set (votes @ [v])" "lv_slot n = lv_slot u" by blast
    have "vote_ok r u" using n(3) ok(1) v(1) by (auto simp: list_all_iff)
    then show "vote_ok r n" using n by (simp add: vote_ok_def split: option.splits)
  qed
  moreover have "successively tower_step (double_lockouts (votes @ [v]))"
    using conf ok(2,3) v(2) last by (intro double_lockouts_ok) auto
  moreover have "double_lockouts (votes @ [v]) \<noteq> []"
    using double_lockouts_length [of "votes @ [v]"] by (metis length_0_conv length_append_singleton nat.distinct(1))
  ultimately show ?thesis using ok(3) by (simp add: tower_ok_def MAX_LOCKOUT_HISTORY_def)
qed

lemma push_vote_survives:
  assumes "\<forall>u\<in>set (votes @ [v]). 0 < lv_conf u \<and> lv_conf u \<le> 31" "length votes < 31"
    and "s \<in> set votes \<or> last_locked_out_slot (lv_lockout s) < lv_slot v"
  shows "vote_survives (vs\<lparr>vs_root_slot := r, vs_votes := double_lockouts (votes @ [v])\<rparr>) s"
proof -
  have len: "length (votes @ [v]) \<le> 31" using assms(2) by simp
  show ?thesis
    using assms(3)
  proof
    assume "s \<in> set votes"
    then show ?thesis using double_lockouts_mem(1) [OF assms(1) len, of s] by (simp add: vote_survives_def)
  next
    assume "last_locked_out_slot (lv_lockout s) < lv_slot v"
    moreover obtain n where "n \<in> set (double_lockouts (votes @ [v]))" "lv_slot n = lv_slot v"
      using double_lockouts_mem(1) [OF assms(1) len, of v] by auto
    ultimately show ?thesis unfolding vote_survives_def by (intro disjI2 bexI [of _ n]) simp_all
  qed
qed

lemma tower_next_above:
  assumes "tower_ok vs" "\<not> (case last_voted_slot (vs_votes vs) of None \<Rightarrow> False | Some s \<Rightarrow> slot \<le> s)"
    and "u \<in> set (vs_votes vs)"
  shows "lv_slot u < slot"
proof -
  have "lv_slot u \<le> lv_slot (last (vs_votes vs))" using tower_last_slot assms by (simp add: tower_ok_def)
  moreover have "vs_votes vs \<noteq> []" using assms(3) by auto
  ultimately show ?thesis using assms(2) by (auto simp: last_voted_slot_def)
qed

text \<open>Rooting the oldest vote of a full tower.\<close>

definition root_full :: "landed_vote list \<Rightarrow> u64 option \<Rightarrow> landed_vote list \<times> u64 option" where
  "root_full P r = (if length P = MAX_LOCKOUT_HISTORY then (tl P, Some (lv_slot (hd P))) else (P, r))"

lemma process_next_vote_slot_eq:
  assumes "\<not> (case last_voted_slot (vs_votes vs) of None \<Rightarrow> False | Some s \<Rightarrow> slot \<le> s)"
    and "root_full (pop_expired_votes slot (vs_votes vs)) (vs_root_slot vs) = (Q, r)"
  obtains v c where "lv_slot v = slot" "lv_conf v = 1"
    "process_next_vote_slot slot epoch current timely dep vs =
       (vs\<lparr>vs_epoch_credits := c\<rparr>)\<lparr>vs_root_slot := r, vs_votes := double_lockouts (Q @ [v])\<rparr>"
proof -
  let ?v = "\<lparr>lv_latency = (if timely \<or> \<not> dep then compute_vote_latency slot current else 0), lv_lockout = lockout_new slot\<rparr>"
  have "\<exists>c. process_next_vote_slot slot epoch current timely dep vs =
      (vs\<lparr>vs_epoch_credits := c\<rparr>)\<lparr>vs_root_slot := r, vs_votes := double_lockouts (Q @ [?v])\<rparr>"
  proof (cases "length (pop_expired_votes slot (vs_votes vs)) = MAX_LOCKOUT_HISTORY")
    case True
    then show ?thesis using assms
      by (intro exI [of _ "increment_credits epoch (credits_for_vote_at_index
            (pop_expired_votes slot (vs_votes vs)) 0 timely dep) (vs_epoch_credits vs)"])
        (auto simp: process_next_vote_slot_def root_full_def Let_def)
  next
    case False
    then show ?thesis using assms
      by (intro exI [of _ "vs_epoch_credits vs"]) (auto simp: process_next_vote_slot_def root_full_def Let_def)
  qed
  then show thesis using that [of ?v] by (auto simp: lockout_new_def)
qed

lemma root_full_ok:
  assumes P: "list_all (vote_ok r) P" "successively tower_step P" "length P \<le> 31"
    and full: "root_full P r = (Q, r')"
  shows "list_all (vote_ok r') Q" "successively tower_step Q" "length Q < 31" "Q \<noteq> [] \<Longrightarrow> last Q = last P"
    and "root_le r r'" "\<And>u. u \<in> set P \<Longrightarrow> u \<in> set Q \<or> root_le (Some (lv_slot u)) r'"
    and "r' = r \<or> P \<noteq> [] \<and> r' = Some (lv_slot (hd P))"
proof -
  have hdP: "lv_slot (hd P) < lv_slot u" if "u \<in> set (tl P)" for u
    using tower_sorted [OF P(2)] that by (cases P) auto
  have tlP: "u \<in> set P \<Longrightarrow> u = hd P \<or> u \<in> set (tl P)" for u by (cases P) auto
  have "vote_ok r (hd P)" if "P \<noteq> []" using P(1) that by (simp add: list_all_iff)
  then have "root_le r (Some (lv_slot (hd P)))" if "P \<noteq> []"
    using that by (auto simp: root_le_def vote_ok_def split: option.splits)
  then show "root_le r r'" using full
    by (cases "P = []") (auto simp: root_full_def MAX_LOCKOUT_HISTORY_def split: if_splits)
  have "u \<in> set (tl P) \<Longrightarrow> u \<in> set P" for u by (cases P) auto
  then show "list_all (vote_ok r') Q" using full P(1) hdP
    by (auto simp: root_full_def list_all_iff vote_ok_def split: if_splits)
  show "successively tower_step Q" "length Q < 31" "Q \<noteq> [] \<Longrightarrow> last Q = last P"
    "r' = r \<or> P \<noteq> [] \<and> r' = Some (lv_slot (hd P))"
    using full P by (auto simp: root_full_def successively_tl last_tl MAX_LOCKOUT_HISTORY_def split: if_splits)
  show "\<And>u. u \<in> set P \<Longrightarrow> u \<in> set Q \<or> root_le (Some (lv_slot u)) r'"
    using full tlP by (fastforce simp: root_full_def root_le_def split: if_splits)
qed

lemma process_next_vote_slot_tower:
  assumes ok: "tower_ok vs" and step: "vs' = process_next_vote_slot slot epoch current timely dep vs"
  shows "tower_ok vs' \<and> tower_follows vs vs'"
proof (cases "case last_voted_slot (vs_votes vs) of None \<Rightarrow> False | Some s \<Rightarrow> slot \<le> s")
  case True
  then have "vs' = vs" by (simp add: step process_next_vote_slot_def)
  then show ?thesis using ok tower_follows_same [OF tower.R_refl] by simp
next
  case False
  let ?P = "pop_expired_votes slot (vs_votes vs)"
  obtain Q r where full: "root_full ?P (vs_root_slot vs) = (Q, r)" by (cases "root_full ?P (vs_root_slot vs)")
  obtain v c where v: "lv_slot v = slot" "lv_conf v = 1"
    and vs': "vs' = (vs\<lparr>vs_epoch_credits := c\<rparr>)\<lparr>vs_root_slot := r, vs_votes := double_lockouts (Q @ [v])\<rparr>"
    using process_next_vote_slot_eq [OF False full] step by metis
  obtain E where E: "vs_votes vs = ?P @ E" "\<forall>u\<in>set E. last_locked_out_slot (lv_lockout u) < slot"
    "?P \<noteq> [] \<longrightarrow> slot \<le> last_locked_out_slot (lv_lockout (last ?P))"
    by (rule pop_expired_votes_split [of "vs_votes vs" slot])
  have P: "list_all (vote_ok (vs_root_slot vs)) ?P" "successively tower_step ?P" "length ?P \<le> 31"
    using ok unfolding tower_ok_def by (subst (asm) (1 2 3) E(1); simp add: successively_append_iff MAX_LOCKOUT_HISTORY_def)+
  note Q = root_full_ok [OF P full]
  note below = tower_next_above [OF ok False]
  have mem: "u \<in> set (vs_votes vs)" if "u \<in> set ?P" for u using that by (subst E(1)) simp
  have last: "lv_slot (last Q) < slot \<and> slot \<le> last_locked_out_slot (lv_lockout (last Q))" if "Q \<noteq> []"
  proof -
    have "?P \<noteq> []" using that full by (auto simp: root_full_def split: if_splits)
    then show ?thesis using Q(4) [OF that] E(3) below mem last_in_set by metis
  qed
  have "vote_ok (vs_root_slot vs) v" if "r = vs_root_slot vs"
  proof (cases "vs_votes vs = []")
    case True
    then show ?thesis using ok v by (simp add: tower_ok_def vote_ok_def)
  next
    case False
    then have "vote_ok (vs_root_slot vs) (last (vs_votes vs))" "lv_slot (last (vs_votes vs)) < slot"
      using ok below by (simp_all add: tower_ok_def list_all_iff)
    then show ?thesis using v by (auto simp: vote_ok_def split: option.splits)
  qed
  moreover have "vote_ok (Some (lv_slot (hd ?P))) v" if "?P \<noteq> []"
    using below [OF mem [OF hd_in_set [OF that]]] v by (simp add: vote_ok_def)
  ultimately have vok: "vote_ok r v" using Q(7) by auto
  have "tower_ok vs'" unfolding vs' using last v(1) by (intro push_vote_ok Q vok v(2)) simp_all
  moreover have "vote_survives vs' s" if s: "s \<in> set (vs_votes vs)" for s
  proof -
    have "s \<in> set Q \<or> root_le (Some (lv_slot s)) r \<or> last_locked_out_slot (lv_lockout s) < lv_slot v"
      using s Q(6) E(2) v(1) by (subst (asm) E(1)) auto
    moreover have "\<forall>u\<in>set (Q @ [v]). 0 < lv_conf u \<and> lv_conf u \<le> 31"
      using Q(1) vok by (auto simp: list_all_iff vote_ok_def)
    ultimately show ?thesis unfolding vs' using push_vote_survives [OF _ Q(3)] by (auto simp: vote_survives_def)
  qed
  ultimately show ?thesis using Q(5) by (simp add: tower_follows_def vs')
qed

lemma fold_process_next_vote_slot_tower:
  "tower_ok vs \<Longrightarrow>
   tower_ok (fold (\<lambda>s. process_next_vote_slot s epoch current timely dep) slots vs) \<and>
   tower_follows vs (fold (\<lambda>s. process_next_vote_slot s epoch current timely dep) slots vs)"
proof (induction slots arbitrary: vs)
  case Nil
  then show ?case using tower_follows_same [OF tower.R_refl] by simp
next
  case (Cons s slots)
  note step = process_next_vote_slot_tower [OF Cons.prems refl, of s epoch current timely dep]
  note rest = Cons.IH [OF step [THEN conjunct1]]
  show ?case using step rest tower_follows_trans by simp blast
qed

lemma process_vote_tower:
  assumes "tower_ok vs" "process_vote vote slot_hashes epoch current timely dep vs = (res, vs')"
  shows "tower_ok vs' \<and> tower_follows vs vs'"
proof -
  have "vs' = vs \<or> (\<exists>slots. vs' = fold (\<lambda>s. process_next_vote_slot s epoch current timely dep) slots vs)"
    using assms(2)
    by (auto simp: process_vote_def process_vote_unfiltered_def effect_simps Let_def split: if_splits sum.splits)
  then show ?thesis
    using assms(1) fold_process_next_vote_slot_tower tower_follows_same [OF tower.R_refl] by blast
qed

end
