(* ===== verification/Vote_History.thy ===== *)
theory Vote_History
  imports Vote_Tower
begin

section \<open>Proposed towers\<close>

text \<open>
  What the checks of a vote state update establish. The scan of the slot hashes accepts a proposal only
  when each of its slots is in the history or already in the vote state, and drops the slots that are
  too old to be known; it never panics. The walk along the old and the new votes accepts exactly the
  proposals that honour the lockouts of the votes above the new root.
\<close>

subsection \<open>The scan of the slot hashes\<close>

lemma binary_search_loop_found: "binary_search_loop f l r = Inr m \<Longrightarrow> f m = Equal \<and> l \<le> m \<and> m < r"
proof (induction f l r rule: binary_search_loop.induct)
  case (1 f l r)
  show ?case
  proof (cases "l < r")
    case False
    then show ?thesis using "1.prems" by (subst (asm) binary_search_loop.simps) simp
  next
    case True
    let ?mid = "l + (r - l) div 2"
    have mid: "l \<le> ?mid" "?mid < r" using True by auto
    show ?thesis
    proof (cases "f ?mid")
      case Less
      then have "binary_search_loop f (?mid + 1) r = Inr m"
        using "1.prems" True by (subst (asm) binary_search_loop.simps) (simp add: Let_def)
      from "1.IH"(1) [OF True refl Less this] show ?thesis using mid by simp
    next
      case Equal
      then show ?thesis using "1.prems" True mid by (subst (asm) binary_search_loop.simps) (simp add: Let_def)
    next
      case Greater
      then have "binary_search_loop f l ?mid = Inr m"
        using "1.prems" True by (subst (asm) binary_search_loop.simps) (simp add: Let_def)
      from "1.IH"(2) [OF True refl Greater this] show ?thesis using mid by simp
    qed
  qed
qed

lemma contains_slot_mem: "contains_slot votes s \<Longrightarrow> s \<in> lv_slot ` set votes"
  unfolding contains_slot_def binary_search_by_def is_ok_def
  by (auto split: sum.splits dest!: binary_search_loop_found simp: cmp_def split: if_splits)

text \<open>What holds at the head of the loop.\<close>

definition scan_inv ::
  "landed_vote list \<Rightarrow> lockout list \<Rightarrow> slot_hashes \<Rightarrow> u64 option \<Rightarrow> u64 option \<Rightarrow> nat \<Rightarrow> nat \<Rightarrow> nat list \<Rightarrow> bool" where
  "scan_inv votes lockouts sh new_root to_check i j to_filter \<longleftrightarrow>
     i \<le> length lockouts \<and> j \<le> length sh \<and>
     (case to_check of
        Some r \<Rightarrow> i = 0 \<and> new_root = Some r
      | None \<Rightarrow> (\<forall>r. new_root = Some r \<longrightarrow> r \<in> fst ` set sh \<or> r < fst (last sh))) \<and>
     (\<forall>k. Suc k < i \<longrightarrow> lk_slot (lockouts ! k) < lk_slot (lockouts ! Suc k)) \<and>
     sorted_wrt (<) to_filter \<and>
     (\<forall>k\<in>set to_filter. k < i \<and> lk_slot (lockouts ! k) < fst (last sh) \<and> \<not> contains_slot votes (lk_slot (lockouts ! k))) \<and>
     (\<forall>k<i. k \<in> set to_filter \<or> lk_slot (lockouts ! k) \<in> fst ` set sh \<or> contains_slot votes (lk_slot (lockouts ! k))) \<and>
     (\<forall>k. Suc k = i \<and> i = length lockouts \<longrightarrow>
        lk_slot (lockouts ! k) < fst (last sh) \<or> j < length sh \<and> fst (sh ! j) = lk_slot (lockouts ! k))"

lemma scan_root:
  assumes "scan_inv votes lockouts sh new_root (Some r) i j to_filter" "i < length lockouts"
    and "r < fst (last sh) \<or> r \<in> fst ` set sh"
  shows "scan_inv votes lockouts sh new_root None i j to_filter"
  using assms by (auto simp: scan_inv_def)

lemma scan_newer:
  "scan_inv votes lockouts sh new_root to_check i j to_filter \<Longrightarrow> i < length lockouts \<Longrightarrow>
   scan_inv votes lockouts sh new_root to_check i (j - 1) to_filter"
  by (auto simp: scan_inv_def)

lemma scan_older:
  assumes "scan_inv votes lockouts sh new_root None i j to_filter" "i < length lockouts"
    and "lk_slot (lockouts ! i) < fst (last sh)" "\<forall>k. Suc k = i \<longrightarrow> lk_slot (lockouts ! k) < lk_slot (lockouts ! i)"
  shows "scan_inv votes lockouts sh new_root None (i + 1) j
    (if \<not> contains_slot votes (lk_slot (lockouts ! i)) then to_filter @ [i] else to_filter)"
  using assms by (auto simp: scan_inv_def sorted_wrt_append less_Suc_eq)

lemma scan_found:
  assumes "scan_inv votes lockouts sh new_root None i j to_filter" "i < length lockouts" "0 < j"
    and "lk_slot (lockouts ! i) = fst (sh ! (j - 1))" "\<forall>k. Suc k = i \<longrightarrow> lk_slot (lockouts ! k) < lk_slot (lockouts ! i)"
  shows "scan_inv votes lockouts sh new_root None (i + 1) (j - 1) to_filter"
proof -
  have "sh ! (j - 1) \<in> set sh" using assms(1,3) by (intro nth_mem) (auto simp: scan_inv_def)
  then have "lk_slot (lockouts ! i) \<in> fst ` set sh" using assms(4) by auto
  then show ?thesis using assms by (auto simp: scan_inv_def less_Suc_eq)
qed

text \<open>One round of the loop: it fails without a panic, or goes on in a state that is nearer to the end.\<close>

definition scan_measure :: "lockout list \<Rightarrow> u64 option \<Rightarrow> nat \<Rightarrow> nat \<Rightarrow> nat" where
  "scan_measure lockouts to_check i j = length lockouts - i + j + (if to_check = None then 0 else 1)"

definition scan_step where
  "scan_step votes lockouts sh new_root m r \<longleftrightarrow> (\<exists>e. r = Inl (Fails e)) \<or>
     (\<exists>to_check i j to_filter. r = check_update_loop votes lockouts sh (fst (last sh)) to_check i j to_filter \<and>
        scan_inv votes lockouts sh new_root to_check i j to_filter \<and> scan_measure lockouts to_check i j < m)"

lemma scan_step_loop:
  "scan_inv votes lockouts sh new_root to_check i j to_filter \<Longrightarrow> scan_measure lockouts to_check i j < m \<Longrightarrow>
   scan_step votes lockouts sh new_root m (check_update_loop votes lockouts sh (fst (last sh)) to_check i j to_filter)"
  unfolding scan_step_def by blast

lemma scan_step_fails: "scan_step votes lockouts sh new_root m (Inl (Fails e))"
  by (simp add: scan_step_def)

lemma scan_ancestor:
  assumes "scan_inv votes lockouts sh new_root to_check i j to_filter" "0 < j"
  shows "fst (sh ! (j - 1)) \<in> fst ` set sh" "j = length sh \<Longrightarrow> fst (sh ! (j - 1)) = fst (last sh)"
proof -
  have j: "j \<le> length sh" using assms(1) by (simp add: scan_inv_def)
  then show "fst (sh ! (j - 1)) \<in> fst ` set sh" using assms(2) by (intro imageI nth_mem) simp
  show "fst (sh ! (j - 1)) = fst (last sh)" if "j = length sh"
    using that assms(2) by (subst last_conv_nth) auto
qed

lemma check_update_loop_root_step:
  assumes inv: "scan_inv votes lockouts sh new_root (Some r) i j to_filter" and ij: "i < length lockouts" "0 < j"
  shows "scan_step votes lockouts sh new_root (scan_measure lockouts (Some r) i j)
    (check_update_loop votes lockouts sh (fst (last sh)) (Some r) i j to_filter)"
proof -
  let ?loop = "check_update_loop votes lockouts sh (fst (last sh))"
  note anc = scan_ancestor [OF inv ij(2)]
  consider "r < fst (sh ! (j - 1))" "j = length sh" | "r < fst (sh ! (j - 1))" "j \<noteq> length sh"
    | "r = fst (sh ! (j - 1))" | "fst (sh ! (j - 1)) < r" by fastforce
  then show ?thesis
  proof cases
    case 1
    then have "?loop (Some r) i j to_filter = ?loop None i j to_filter"
      using ij anc(2) by (subst check_update_loop.simps) simp
    moreover have "scan_inv votes lockouts sh new_root None i j to_filter"
      using 1 anc(2) ij by (intro scan_root [OF inv]) auto
    ultimately show ?thesis by (simp add: scan_step_loop scan_measure_def)
  next
    case 2
    then have "?loop (Some r) i j to_filter = Inl (Fails RootOnDifferentFork)"
      using ij by (subst check_update_loop.simps) simp
    then show ?thesis by (simp add: scan_step_fails)
  next
    case 3
    then have "?loop (Some r) i j to_filter = ?loop None i j to_filter"
      using ij by (subst check_update_loop.simps) simp
    moreover have "scan_inv votes lockouts sh new_root None i j to_filter"
      using 3 anc(1) ij by (intro scan_root [OF inv]) auto
    ultimately show ?thesis by (simp add: scan_step_loop scan_measure_def)
  next
    case 4
    then have "?loop (Some r) i j to_filter = ?loop (Some r) i (j - 1) to_filter"
      using ij by (subst check_update_loop.simps) simp
    then show ?thesis using ij by (simp only:) (intro scan_step_loop scan_newer [OF inv], auto simp: scan_measure_def)
  qed
qed

lemma check_update_loop_vote_step:
  assumes inv: "scan_inv votes lockouts sh new_root None i j to_filter" and ij: "i < length lockouts" "0 < j"
  shows "scan_step votes lockouts sh new_root (scan_measure lockouts None i j)
    (check_update_loop votes lockouts sh (fst (last sh)) None i j to_filter)"
proof (cases "0 < i \<and> lk_slot (lockouts ! i) \<le> lk_slot (lockouts ! (i - 1))")
  case True
  then have "check_update_loop votes lockouts sh (fst (last sh)) None i j to_filter = Inl (Fails SlotsNotOrdered)"
    using ij by (subst check_update_loop.simps) simp
  then show ?thesis by (simp add: scan_step_fails)
next
  case False
  let ?loop = "check_update_loop votes lockouts sh (fst (last sh))" and ?p = "lk_slot (lockouts ! i)"
  have ordered: "\<forall>k. Suc k = i \<longrightarrow> lk_slot (lockouts ! k) < ?p" using False by auto
  note anc = scan_ancestor [OF inv ij(2)]
  consider "?p < fst (sh ! (j - 1))" "j = length sh" | "?p < fst (sh ! (j - 1))" "j \<noteq> length sh"
    | "?p = fst (sh ! (j - 1))" | "fst (sh ! (j - 1)) < ?p" by fastforce
  then show ?thesis
  proof cases
    case 1
    let ?f = "if \<not> contains_slot votes ?p then to_filter @ [i] else to_filter"
    have "?loop None i j to_filter = ?loop None (i + 1) j ?f"
      using False 1 ij anc(2) by (subst check_update_loop.simps) (auto simp: Let_def)
    moreover have "scan_inv votes lockouts sh new_root None (i + 1) j ?f"
      using 1 anc(2) ij ordered by (intro scan_older [OF inv]) auto
    ultimately show ?thesis using ij by (simp only:) (intro scan_step_loop, auto simp: scan_measure_def)
  next
    case 2
    then have "?loop None i j to_filter = Inl (Fails SlotsMismatch)"
      using False ij by (subst check_update_loop.simps) (auto simp: Let_def)
    then show ?thesis by (simp add: scan_step_fails)
  next
    case 3
    then have "?loop None i j to_filter = ?loop None (i + 1) (j - 1) to_filter"
      using False ij by (subst check_update_loop.simps) (auto simp: Let_def)
    then show ?thesis using ij
      by (simp only:) (intro scan_step_loop scan_found [OF inv ij 3 ordered], auto simp: scan_measure_def)
  next
    case 4
    then have "?loop None i j to_filter = ?loop None i (j - 1) to_filter"
      using False ij by (subst check_update_loop.simps) (auto simp: Let_def)
    then show ?thesis using ij by (simp only:) (intro scan_step_loop scan_newer [OF inv], auto simp: scan_measure_def)
  qed
qed

lemma check_update_loop_spec:
  "scan_inv votes lockouts sh new_root to_check i j to_filter \<Longrightarrow>
   case check_update_loop votes lockouts sh (fst (last sh)) to_check i j to_filter of
     Inl e \<Rightarrow> e \<noteq> Panic
   | Inr (i', j', to_filter') \<Rightarrow> (\<exists>to_check'. scan_inv votes lockouts sh new_root to_check' i' j' to_filter') \<and>
       (i' < length lockouts \<longrightarrow> j' = 0)"
proof (induction "scan_measure lockouts to_check i j" arbitrary: to_check i j to_filter rule: less_induct)
  case less
  show ?case
  proof (cases "i < length lockouts \<and> 0 < j")
    case False
    then show ?thesis using less.prems by (subst check_update_loop.simps) auto
  next
    case True
    then have "scan_step votes lockouts sh new_root (scan_measure lockouts to_check i j)
        (check_update_loop votes lockouts sh (fst (last sh)) to_check i j to_filter)"
      using less.prems check_update_loop_root_step check_update_loop_vote_step by (cases to_check) auto
    then show ?thesis unfolding scan_step_def
    proof (elim disjE exE conjE, goal_cases)
      case (2 to_check' i' j' to_filter')
      then show ?case using less.hyps [of to_check' i' j' to_filter'] by (simp only:)
    qed simp
  qed
qed

subsection \<open>Filtering\<close>

lemma retain_unfiltered_eq:
  assumes "sorted_wrt (<) to_filter" "\<forall>k\<in>set (drop fi to_filter). ix \<le> k" "fi \<le> length to_filter"
  shows "retain_unfiltered to_filter ix fi xs =
    map snd (filter (\<lambda>(k, _). k \<notin> set (drop fi to_filter)) (enumerate ix xs))"
  using assms(2,3)
proof (induction xs arbitrary: ix fi)
  case (Cons x xs)
  show ?case
  proof (cases "fi = length to_filter")
    case True
    then show ?thesis using Cons.IH [of fi "Suc ix"] by simp
  next
    case False
    then have drop: "drop fi to_filter = to_filter ! fi # drop (Suc fi) to_filter"
      using Cons.prems(2) by (simp add: Cons_nth_drop_Suc)
    moreover have "sorted_wrt (<) (drop fi to_filter)" using assms(1) by (rule sorted_wrt_drop)
    ultimately have above: "\<forall>k\<in>set (drop (Suc fi) to_filter). to_filter ! fi < k" by simp
    have le: "ix \<le> to_filter ! fi" using Cons.prems(1) drop by simp
    show ?thesis
    proof (cases "ix = to_filter ! fi")
      case True
      have "filter (\<lambda>(k, _). k \<notin> set (drop (Suc fi) to_filter)) (enumerate (Suc ix) xs) =
          filter (\<lambda>(k, _). k \<notin> set (drop fi to_filter)) (enumerate (Suc ix) xs)"
        using True drop by (intro filter_cong) (auto simp: in_set_enumerate_eq)
      moreover have "retain_unfiltered to_filter (Suc ix) (Suc fi) xs =
          map snd (filter (\<lambda>(k, _). k \<notin> set (drop (Suc fi) to_filter)) (enumerate (Suc ix) xs))"
        using above True False Cons.prems(2) by (intro Cons.IH) auto
      ultimately show ?thesis using True False drop by simp
    next
      case neq: False
      then have "\<forall>k\<in>set (drop fi to_filter). Suc ix \<le> k" using le above drop by auto
      moreover from this have "ix \<notin> set (drop fi to_filter)" by auto
      ultimately show ?thesis using neq False Cons.IH [of fi "Suc ix"] Cons.prems(2) by simp
    qed
  qed
qed simp

lemma sorted_enumerate: "sorted_wrt P xs \<Longrightarrow> sorted_wrt (\<lambda>a b. P (snd a) (snd b)) (enumerate n xs)"
  by (induction xs arbitrary: n) (auto simp: in_set_enumerate_eq)

lemma retain_unfiltered_sorted:
  "sorted_wrt (<) to_filter \<Longrightarrow> sorted_wrt P xs \<Longrightarrow> sorted_wrt P (retain_unfiltered to_filter 0 0 xs)"
  by (simp add: retain_unfiltered_eq sorted_wrt_map sorted_wrt_filter sorted_enumerate)

lemma retain_unfiltered_set:
  "sorted_wrt (<) to_filter \<Longrightarrow> x \<in> set (retain_unfiltered to_filter 0 0 xs) \<longleftrightarrow>
    (\<exists>k. k < length xs \<and> k \<notin> set to_filter \<and> x = xs ! k)"
  by (force simp: retain_unfiltered_eq in_set_enumerate_eq)

lemma retain_unfiltered_last:
  assumes "sorted_wrt (<) to_filter" "length xs - 1 \<notin> set to_filter" "xs \<noteq> []"
  shows "retain_unfiltered to_filter 0 0 xs \<noteq> [] \<and> last (retain_unfiltered to_filter 0 0 xs) = last xs"
proof -
  obtain ys y where xs: "xs = ys @ [y]" using assms(3) by (cases xs rule: rev_cases) auto
  then show ?thesis using assms(1,2) by (simp add: retain_unfiltered_eq enumerate_append_eq)
qed

subsection \<open>Accepted proposals\<close>

text \<open>The facts about an update that passed the checks.\<close>

definition update_checked :: "vote_state \<Rightarrow> slot_hashes \<Rightarrow> vote_state_update \<Rightarrow> vote_state_update \<Rightarrow> bool" where
  "update_checked vs sh update checked \<longleftrightarrow>
     vu_lockouts checked \<noteq> [] \<and> last (vu_lockouts checked) = last (vu_lockouts update) \<and>
     (lk_slot (last (vu_lockouts update)), vu_hash update) \<in> set sh \<and>
     (\<forall>s. last_voted_slot (vs_votes vs) = Some s \<longrightarrow> s < lk_slot (last (vu_lockouts update))) \<and>
     sorted_wrt (\<lambda>a b. lk_slot a < lk_slot b) (vu_lockouts checked) \<and>
     (\<forall>l\<in>set (vu_lockouts checked). l \<in> set (vu_lockouts update) \<and>
        (lk_slot l \<in> fst ` set sh \<or> lk_slot l \<in> lv_slot ` set (vs_votes vs))) \<and>
     (\<forall>l\<in>set (vu_lockouts update). l \<in> set (vu_lockouts checked) \<or>
        lk_slot l < fst (last sh) \<and> \<not> contains_slot (vs_votes vs) (lk_slot l)) \<and>
     vu_root checked = overwrite_old_root vs (fst (last sh)) (vu_root update) \<and>
     (\<forall>r. vu_root checked = Some r \<longrightarrow>
        r \<in> fst ` set sh \<or> vs_root_slot vs = Some r \<or> r \<in> lv_slot ` set (vs_votes vs)) \<and>
     vu_timestamp checked = vu_timestamp update"

lemma overwrite_old_root_old:
  assumes "overwrite_old_root vs earliest new_root = Some r" "r < earliest"
  shows "vs_root_slot vs = Some r \<or> r \<in> lv_slot ` set (vs_votes vs)"
  using assms
  by (auto simp: overwrite_old_root_def find_Some_iff split: option.splits if_splits)
    (metis in_set_conv_nth length_rev nth_mem set_rev imageI)

lemma scan_complete:
  assumes inv: "scan_inv votes lockouts sh new_root to_check (length lockouts) j to_filter"
    and lockouts: "lockouts \<noteq> []" "\<not> lk_slot (last lockouts) < fst (last sh)"
  shows "j < length sh" "fst (sh ! j) = lk_slot (last lockouts)" "length lockouts - 1 \<notin> set to_filter"
    and "to_check = None"
proof -
  obtain k where k: "Suc k = length lockouts" using lockouts(1) by (cases lockouts) auto
  then have last: "last lockouts = lockouts ! k" by (metis diff_Suc_1 last_conv_nth lockouts(1))
  show "j < length sh" "fst (sh ! j) = lk_slot (last lockouts)"
    using inv k lockouts(2) unfolding scan_inv_def last by blast+
  have "k \<notin> set to_filter" using inv lockouts(2) unfolding scan_inv_def last by blast
  then show "length lockouts - 1 \<notin> set to_filter" using k by (metis diff_Suc_1)
  show "to_check = None" using inv k by (cases to_check) (auto simp: scan_inv_def)
qed

lemma scan_sorted:
  assumes "scan_inv votes lockouts sh new_root to_check (length lockouts) j to_filter"
  shows "sorted_wrt (\<lambda>a b. lk_slot a < lk_slot b) lockouts"
proof -
  have "successively (\<lambda>a b. lk_slot a < lk_slot b) lockouts"
    using assms by (simp add: scan_inv_def successively_conv_nth)
  then show ?thesis by (subst (asm) successively_iff_sorted_wrt_strong) (auto simp: transp_def)
qed

lemma scan_checked:
  assumes inv: "scan_inv (vs_votes vs) (vu_lockouts update) sh new_root to_check (length (vu_lockouts update)) j to_filter"
    and new_root: "new_root = overwrite_old_root vs (fst (last sh)) (vu_root update)"
    and lockouts: "vu_lockouts update \<noteq> []" "\<not> lk_slot (last (vu_lockouts update)) < fst (last sh)"
    and newer: "\<forall>s. last_voted_slot (vs_votes vs) = Some s \<longrightarrow> s < lk_slot (last (vu_lockouts update))"
    and hash: "snd (sh ! j) = vu_hash update"
  shows "update_checked vs sh update
    (update\<lparr>vu_root := new_root, vu_lockouts := retain_unfiltered to_filter 0 0 (vu_lockouts update)\<rparr>)"
proof -
  note final = scan_complete [OF inv lockouts]
  have filter: "sorted_wrt (<) to_filter" using inv by (simp add: scan_inv_def)
  let ?kept = "retain_unfiltered to_filter 0 0 (vu_lockouts update)"
  note mem = retain_unfiltered_set [OF filter, of _ "vu_lockouts update"]
  have kept: "k \<in> set to_filter \<or> lk_slot (vu_lockouts update ! k) \<in> fst ` set sh \<or>
      contains_slot (vs_votes vs) (lk_slot (vu_lockouts update ! k))" if "k < length (vu_lockouts update)" for k
    using inv that by (simp add: scan_inv_def)
  have dropped: "lk_slot (vu_lockouts update ! k) < fst (last sh) \<and>
      \<not> contains_slot (vs_votes vs) (lk_slot (vu_lockouts update ! k))" if "k \<in> set to_filter" for k
    using inv that by (simp add: scan_inv_def)
  have "sh ! j \<in> set sh" using final(1) by simp
  then have "(lk_slot (last (vu_lockouts update)), vu_hash update) \<in> set sh"
    by (metis final(2) hash prod.collapse)
  moreover have "r \<in> fst ` set sh \<or> vs_root_slot vs = Some r \<or> r \<in> lv_slot ` set (vs_votes vs)" if "new_root = Some r" for r
    using inv that overwrite_old_root_old [of vs "fst (last sh)" "vu_root update" r] new_root final(4)
    by (auto simp: scan_inv_def)
  moreover have "l \<in> set (vu_lockouts update) \<and> (lk_slot l \<in> fst ` set sh \<or> lk_slot l \<in> lv_slot ` set (vs_votes vs))"
    if l: "l \<in> set ?kept" for l
  proof -
    obtain k where "k < length (vu_lockouts update)" "k \<notin> set to_filter" "l = vu_lockouts update ! k"
      using l mem [of l] by blast
    then show ?thesis using kept [of k] contains_slot_mem [of "vs_votes vs" "lk_slot l"] by auto
  qed
  moreover have "l \<in> set ?kept \<or>
      lk_slot l < fst (last sh) \<and> \<not> contains_slot (vs_votes vs) (lk_slot l)" if l: "l \<in> set (vu_lockouts update)" for l
  proof -
    obtain k where k: "k < length (vu_lockouts update)" "l = vu_lockouts update ! k" using l by (auto simp: in_set_conv_nth)
    show ?thesis
    proof (cases "k \<in> set to_filter")
      case True
      then show ?thesis using dropped [of k] k(2) by simp
    next
      case False
      then show ?thesis using mem [of l] k by blast
    qed
  qed
  ultimately show ?thesis
    using retain_unfiltered_last [OF filter final(3) lockouts(1)] retain_unfiltered_sorted [OF filter scan_sorted [OF inv]]
      newer new_root by (simp add: update_checked_def)
qed

lemma check_update_valid:
  "case check_update_vote_state_slots_are_valid vs update sh of
     Inl e \<Rightarrow> e \<noteq> Panic
   | Inr checked \<Rightarrow> update_checked vs sh update checked"
proof -
  let ?lo = "vu_lockouts update" and ?earliest = "fst (last sh)"
  let ?root = "overwrite_old_root vs ?earliest (vu_root update)"
  let ?loop = "check_update_loop (vs_votes vs) ?lo sh ?earliest ?root 0 (length sh) []"
  show ?thesis
  proof (cases "?lo = [] \<or> (case last_voted_slot (vs_votes vs) of None \<Rightarrow> False | Some s \<Rightarrow> lk_slot (last ?lo) \<le> s) \<or>
      sh = [] \<or> lk_slot (last ?lo) < ?earliest")
    case True
    then show ?thesis by (auto simp: check_update_vote_state_slots_are_valid_def Let_def)
  next
    case False
    then have newer: "\<forall>s. last_voted_slot (vs_votes vs) = Some s \<longrightarrow> s < lk_slot (last ?lo)"
      and lo: "?lo \<noteq> []" "\<not> lk_slot (last ?lo) < ?earliest" by (auto split: option.splits)
    have "scan_inv (vs_votes vs) ?lo sh ?root ?root 0 (length sh) []"
      using lo by (auto simp: scan_inv_def split: option.splits)
    note spec = check_update_loop_spec [OF this]
    show ?thesis
    proof (cases ?loop)
      case (Inl e)
      then show ?thesis using False spec by (auto simp: check_update_vote_state_slots_are_valid_def Let_def)
    next
      case (Inr res)
      obtain i j f where res: "res = (i, j, f)" by (cases res)
      then obtain c where inv: "scan_inv (vs_votes vs) ?lo sh ?root c i j f" using spec Inr by auto
      show ?thesis
      proof (cases "i = length ?lo")
        case True
        note scan = scan_complete [OF inv [unfolded True] lo] and checked = scan_checked [OF inv [unfolded True] refl lo newer]
        show ?thesis using False Inr res True scan checked
          by (auto simp: check_update_vote_state_slots_are_valid_def Let_def vec_get_def split: prod.splits)
      qed (use False Inr res in \<open>auto simp: check_update_vote_state_slots_are_valid_def Let_def\<close>)
    qed
  qed
qed

end
