(* ===== verification/Vote_Properties.thy ===== *)
theory Vote_Properties
  imports Vote_History
begin

section \<open>Properties of vote processing\<close>

text \<open>
  The walk of \<open>process_new_vote_state\<close> along the old and the new votes against the rule it implements, the
  absence of panics, and the history of a tower under any sequence of votes and updates.
\<close>

subsection \<open>The walk along the votes\<close>

abbreviation slots_sorted :: "landed_vote list \<Rightarrow> bool" where
  "slots_sorted \<equiv> sorted_wrt (\<lambda>a b. lv_slot a < lv_slot b)"

text \<open>A new tower may not confirm a vote less, and may only skip a vote whose lockout has run out.\<close>

definition lockout_respected :: "landed_vote list \<Rightarrow> landed_vote \<Rightarrow> bool" where
  "lockout_respected new c \<longleftrightarrow> (\<forall>n\<in>set new.
     (lv_slot n = lv_slot c \<longrightarrow> lv_conf c \<le> lv_conf n) \<and>
     (lv_slot c < lv_slot n \<longrightarrow> last_locked_out_slot (lv_lockout c) < lv_slot n \<or> lv_slot c \<in> lv_slot ` set new))"

lemma lockout_respected_older:
  "lv_slot n < lv_slot c \<Longrightarrow> lockout_respected (n # news) c \<longleftrightarrow> lockout_respected news c"
  by (auto simp: lockout_respected_def)

lemma merge_votes_accepts:
  "slots_sorted cur \<Longrightarrow> slots_sorted new \<Longrightarrow> is_ok (merge_votes cur new) \<longleftrightarrow> (\<forall>c\<in>set cur. lockout_respected new c)"
proof (induction cur new rule: merge_votes.induct)
  case (3 c cs n ns)
  consider "lv_slot c < lv_slot n" | "lv_slot c = lv_slot n" | "lv_slot n < lv_slot c" by (rule linorder_cases)
  then show ?case
  proof cases
    case 1
    then have "lockout_respected (n # ns) c \<longleftrightarrow> last_locked_out_slot (lv_lockout c) < lv_slot n"
      using "3.prems"(2) by (fastforce simp: lockout_respected_def)
    then show ?thesis using 3 1 by auto
  next
    case 2
    then have "lockout_respected (n # ns) c \<longleftrightarrow> lv_conf c \<le> lv_conf n"
      using "3.prems"(2) by (fastforce simp: lockout_respected_def)
    moreover have "lockout_respected (n # ns) c' \<longleftrightarrow> lockout_respected ns c'" if "c' \<in> set cs" for c'
      using that "3.prems"(1) 2 by (intro lockout_respected_older) auto
    ultimately show ?thesis using 3 2 by (auto simp: is_ok_def and_then_def split: sum.splits)
  next
    case 3
    have "lockout_respected (n # ns) c' \<longleftrightarrow> lockout_respected ns c'" if "c' \<in> set (c # cs)" for c'
      using that "3.prems"(1) 3 by (intro lockout_respected_older) auto
    then show ?thesis using "3.IH" "3.prems" 3 by (auto simp: is_ok_def and_then_def split: sum.splits)
  qed
qed (auto simp: lockout_respected_def)

subsection \<open>Credits for the rooted votes\<close>

lemma credits_for_vote_at_index_le: "unat (credits_for_vote_at_index votes i timely dep) \<le> 16"
proof -
  have "unat (ucast (w :: u8) :: u64) = unat w" for w
    using unsigned_less [of w, where ?'a = nat] by (simp add: unsigned_ucast_eq take_bit_nat_eq_self)
  moreover have "unat c \<le> unat m" if "checked_sub m d = Some c" for m d c :: u8
    using that by (auto simp: checked_sub_Some unat_minus_le)
  ultimately show ?thesis
    by (force simp: credits_for_vote_at_index_def Let_def VOTE_CREDITS_MAXIMUM_PER_SLOT_def
        VOTE_CREDITS_MAXIMUM_PER_SLOT_OLD_def split: option.splits if_splits)
qed

lemma count_rooted_spec:
  "unat earned + 16 * length rest < 2 ^ 64 \<Longrightarrow>
   \<exists>e. count_rooted votes timely dep r rest index earned =
     Inr (index + length (takeWhile (\<lambda>v. lv_slot v \<le> r) rest), e)"
proof (induction rest arbitrary: index earned)
  case (Cons v rest)
  let ?c = "credits_for_vote_at_index votes index timely dep"
  have c: "unat ?c \<le> 16" by (rule credits_for_vote_at_index_le)
  then obtain e where e: "checked_add earned ?c = Some e" using Cons.prems by (auto simp: checked_add_def)
  then have "unat e + 16 * length rest < 2 ^ 64" using checked_add_Some [OF e] c Cons.prems by simp
  from Cons.IH [OF this, of "Suc index"] Cons.IH [of earned "Suc index"] Cons.prems e show ?case by auto
qed simp

lemma rooted_votes_spec:
  assumes "length (vs_votes vs) \<le> 31"
  shows "\<exists>index e. rooted_votes vs timely dep new_root = Inr (index, e) \<and>
    drop index (vs_votes vs) = (case new_root of None \<Rightarrow> vs_votes vs
      | Some r \<Rightarrow> dropWhile (\<lambda>v. lv_slot v \<le> r) (vs_votes vs))"
proof (cases new_root)
  case (Some r)
  have "unat (if timely then 0 else 1 :: u64) + 16 * length (vs_votes vs) < 2 ^ 64" using assms by simp
  from count_rooted_spec [OF this, of "vs_votes vs" timely dep r 0] Some show ?thesis
    by (auto simp: rooted_votes_def dropWhile_eq_drop)
qed (simp add: rooted_votes_def)

lemma sorted_dropWhile_slots:
  "slots_sorted votes \<Longrightarrow> set (dropWhile (\<lambda>v. lv_slot v \<le> r) votes) = {v \<in> set votes. r < lv_slot v}"
  by (induction votes) (auto dest: order.strict_trans1 order.strict_trans)

text \<open>The votes that the walk starts from: those above the new root.\<close>

definition unrooted :: "u64 option \<Rightarrow> landed_vote list \<Rightarrow> landed_vote list" where
  "unrooted new_root votes = (case new_root of None \<Rightarrow> votes | Some r \<Rightarrow> dropWhile (\<lambda>v. lv_slot v \<le> r) votes)"

lemma unrooted_mem: "slots_sorted votes \<Longrightarrow> v \<in> set (unrooted new_root votes) \<longleftrightarrow>
    v \<in> set votes \<and> \<not> root_le (Some (lv_slot v)) new_root"
  by (auto simp: unrooted_def root_le_def sorted_dropWhile_slots split: option.splits)

lemma unrooted_sorted: "slots_sorted votes \<Longrightarrow> slots_sorted (unrooted new_root votes)"
  by (auto simp: unrooted_def sorted_wrt_dropWhile split: option.splits)

lemma tower_slots_sorted: "successively tower_step votes \<Longrightarrow> slots_sorted votes"
  by (drule tower_sorted) (erule sorted_wrt_mono_rel [rotated], blast)

subsection \<open>Which towers are accepted\<close>

lemma root_rolls_back_iff: "root_rolls_back new_root root_slot \<longleftrightarrow> \<not> root_le root_slot new_root"
  by (auto simp: root_rolls_back_def root_le_def split: option.splits)

text \<open>A timestamp is fresh when it does not go back, and is not a second time for the slot of the last one.\<close>

definition timestamp_fresh :: "vote_state \<Rightarrow> u64 \<Rightarrow> int \<Rightarrow> bool" where
  "timestamp_fresh vs slot t \<longleftrightarrow> bt_slot (vs_last_timestamp vs) \<le> slot \<and> bt_timestamp (vs_last_timestamp vs) \<le> t \<and>
     (bt_slot (vs_last_timestamp vs) = slot \<longrightarrow> slot = 0 \<or> bt_timestamp (vs_last_timestamp vs) = t)"

lemma process_timestamp_accepts: "is_ok (fst (process_timestamp slot t vs)) \<longleftrightarrow> timestamp_fresh vs slot t"
proof (cases "vs_last_timestamp vs")
  case (fields s l)
  then show ?thesis by (auto simp: process_timestamp_def timestamp_fresh_def effect_simps)
qed

lemma merged_last_slot:
  assumes "merge_votes cur new = Inr merged"
  shows "lv_slot (last (if timely then set_new_latencies slot merged else merged)) = lv_slot (last new)"
proof (cases "new = []")
  case True
  then have "merged = []" using merge_votes_lockouts [OF assms] by simp
  then show ?thesis using True by (simp add: set_new_latencies_def)
next
  case False
  let ?final = "if timely then set_new_latencies slot merged else merged"
  have "map lv_lockout ?final = map lv_lockout new"
    using merge_votes_lockouts [OF assms] set_new_latencies_lockouts by simp
  then have "lv_lockout (last ?final) = lv_lockout (last new)"
    using False by (metis last_map list.map_disc_iff)
  then show ?thesis by simp
qed

lemma process_new_vote_state_run:
  assumes "tower_ok vs" "new_state \<noteq> []" "length new_state \<le> MAX_LOCKOUT_HISTORY" "root_le (vs_root_slot vs) new_root"
    and "check_new_votes new_root None new_state = Inr ()"
  shows "is_ok (fst (process_new_vote_state new_state new_root timestamp epoch slot timely dep vs)) \<longleftrightarrow>
    is_ok (merge_votes (unrooted new_root (vs_votes vs)) new_state) \<and>
    (\<forall>t. timestamp = Some t \<longrightarrow> timestamp_fresh vs (lv_slot (last new_state)) t)"
proof -
  obtain index e where rooted: "rooted_votes vs timely dep new_root = Inr (index, e)"
    "drop index (vs_votes vs) = unrooted new_root (vs_votes vs)"
    using rooted_votes_spec [of vs timely dep new_root] assms(1)
    by (auto simp: unrooted_def tower_ok_def MAX_LOCKOUT_HISTORY_def)
  show ?thesis
  proof (cases "merge_votes (unrooted new_root (vs_votes vs)) new_state")
    case (Inl x)
    then show ?thesis using assms(2-) rooted unfolding process_new_vote_state_def Let_def
      by (simp add: effect_simps root_rolls_back_iff not_less flip: rooted_votes_def)
  next
    case (Inr merged)
    have stamp: "timestamp_fresh (vs\<lparr>vs_epoch_credits := c\<rparr>) s t = timestamp_fresh vs s t" for s t c
      by (simp add: timestamp_fresh_def)
    have slots: "lv_slot (last (set_new_latencies slot merged)) = lv_slot (last new_state)" "lv_slot (last merged) = lv_slot (last new_state)"
      using merged_last_slot [OF Inr, of True slot] merged_last_slot [OF Inr, of False slot] by simp_all
    have after: "is_ok (fst (case p of (Inl e, s') \<Rightarrow> (Inl e, s') | (Inr x, s') \<Rightarrow> modify f s')) = is_ok (fst p)"
      for p :: "(vote_error fault + unit) \<times> vote_state" and f
      by (simp add: modify_apply split: prod.split sum.split)
    show ?thesis using assms(2-) rooted Inr unfolding process_new_vote_state_def Let_def
      by (cases timestamp) (simp_all add: effect_simps after stamp slots process_timestamp_accepts root_rolls_back_iff not_less flip: rooted_votes_def)
  qed
qed

text \<open>A small tower, used by the examples.\<close>

lemmas vote_eval = do_process_vote_state_update_def check_update_vote_state_slots_are_valid_def last_voted_slot_def Let_def
  effect_simps overwrite_old_root_def check_update_loop.simps vec_get_def process_new_vote_state_def landed_vote_from_def
  MAX_LOCKOUT_HISTORY_def root_rolls_back_def last_locked_out_slot_def lockout_period_def INITIAL_LOCKOUT_def
  saturating_add_def

definition example_votes :: vote_state where
  "example_votes = vote_state_default\<lparr>vs_votes :=
     [\<lparr>lv_latency = 1, lv_lockout = \<lparr>lk_slot = 10, lk_confirmation_count = 3\<rparr>\<rparr>,
      \<lparr>lv_latency = 1, lv_lockout = \<lparr>lk_slot = 11, lk_confirmation_count = 1\<rparr>\<rparr>],
     vs_root_slot := Some 9\<rparr>"

definition example_slot_hashes :: slot_hashes where
  "example_slot_hashes = [(15, replicate 32 5), (14, replicate 32 4), (10, replicate 32 1)]"

definition example_update :: vote_state_update where
  "example_update = \<lparr>vu_lockouts = [\<lparr>lk_slot = 10, lk_confirmation_count = 4\<rparr>, \<lparr>lk_slot = 14, lk_confirmation_count = 2\<rparr>,
     \<lparr>lk_slot = 15, lk_confirmation_count = 1\<rparr>], vu_root = Some 9, vu_hash = replicate 32 5, vu_timestamp = None\<rparr>"

lemma example_votes_ok: "tower_ok example_votes"
  by (simp add: tower_ok_def example_votes_def vote_ok_def tower_step_def vote_eval)

text \<open>
  C7: which towers may replace a tower. A proposed tower is accepted exactly when it has
  between one and 31 votes, does not move the root back, is itself well formed above its root,
  respects the lockout of every current vote above the new root, and comes with no timestamp or a
  fresh one. To respect a lockout is to confirm a vote that is repeated at least as often, and to skip a
  vote only with votes beyond its lockout. A timestamp is fresh when neither its slot nor its time goes
  back, and the time of a slot does not change.
\<close>

theorem new_tower_accepted_iff:
  assumes "tower_ok vs"
  shows "is_ok (fst (process_new_vote_state new_state new_root timestamp epoch slot timely dep vs)) \<longleftrightarrow>
    new_state \<noteq> [] \<and> length new_state \<le> MAX_LOCKOUT_HISTORY \<and> root_le (vs_root_slot vs) new_root \<and>
    list_all (vote_ok new_root) new_state \<and> successively tower_step new_state \<and>
    (\<forall>c\<in>set (vs_votes vs). root_le (Some (lv_slot c)) new_root \<or> lockout_respected new_state c) \<and>
    (\<forall>t. timestamp = Some t \<longrightarrow> timestamp_fresh vs (lv_slot (last new_state)) t)"
    (is "_ \<longleftrightarrow> ?accepted")
proof (cases "new_state \<noteq> [] \<and> length new_state \<le> MAX_LOCKOUT_HISTORY \<and> root_le (vs_root_slot vs) new_root \<and>
    check_new_votes new_root None new_state = Inr ()")
  case True
  then have new: "list_all (vote_ok new_root) new_state" "successively tower_step new_state"
    by (simp_all add: check_new_votes_iff)
  have cur: "slots_sorted (vs_votes vs)" using assms tower_slots_sorted by (simp add: tower_ok_def)
  have "is_ok (fst (process_new_vote_state new_state new_root timestamp epoch slot timely dep vs)) \<longleftrightarrow>
      is_ok (merge_votes (unrooted new_root (vs_votes vs)) new_state) \<and>
      (\<forall>t. timestamp = Some t \<longrightarrow> timestamp_fresh vs (lv_slot (last new_state)) t)"
    using True by (intro process_new_vote_state_run assms) simp_all
  also have "is_ok (merge_votes (unrooted new_root (vs_votes vs)) new_state) \<longleftrightarrow>
      (\<forall>c\<in>set (unrooted new_root (vs_votes vs)). lockout_respected new_state c)"
    by (intro merge_votes_accepts unrooted_sorted cur tower_slots_sorted new)
  finally show ?thesis using True new unrooted_mem [OF cur] by blast
next
  case False
  have "\<not> is_ok (fst (process_new_vote_state new_state new_root timestamp epoch slot timely dep vs))"
  proof
    assume "is_ok (fst (process_new_vote_state new_state new_root timestamp epoch slot timely dep vs))"
    then obtain u vs' where run: "process_new_vote_state new_state new_root timestamp epoch slot timely dep vs = (Inr u, vs')"
      by (auto simp: is_ok_def split: sum.splits prod.splits dest: prod.expand [rotated])
        (metis prod.collapse)
    show False by (rule process_new_vote_state_ok [OF run]) (use False in \<open>auto simp: root_rolls_back_iff\<close>)
  qed
  then show ?thesis using False check_new_votes_iff by blast
qed

theorem new_tower_accepted_iff_witness:
  "tower_ok example_votes \<and>
   is_ok (fst (process_new_vote_state (map landed_vote_from (vu_lockouts example_update)) (Some 9) (Some 7) 3 16 True True example_votes))"
proof -
  have "timestamp_fresh example_votes slot 7" for slot
    by (simp add: timestamp_fresh_def example_votes_def vote_state_default_def)
  moreover have "successively tower_step (map landed_vote_from (vu_lockouts example_update))"
    by (simp add: example_update_def landed_vote_from_def tower_step_def vote_eval)
  moreover have "list_all (vote_ok (Some 9)) (map landed_vote_from (vu_lockouts example_update))"
    by (simp add: example_update_def landed_vote_from_def vote_ok_def)
  moreover have "\<forall>c\<in>set (vs_votes example_votes). root_le (Some (lv_slot c)) (Some 9) \<or>
      lockout_respected (map landed_vote_from (vu_lockouts example_update)) c"
    by (simp add: example_votes_def example_update_def lockout_respected_def landed_vote_from_def root_le_def vote_eval)
  ultimately show ?thesis
    unfolding new_tower_accepted_iff [OF example_votes_ok]
    by (simp add: example_votes_ok) (simp add: example_votes_def example_update_def root_le_def MAX_LOCKOUT_HISTORY_def)
qed

subsection \<open>Updates\<close>

lemma do_process_vote_state_update_ok:
  assumes "do_process_vote_state_update sh epoch slot update timely dep vs = (Inr u, vs')"
  obtains checked where "update_checked vs sh update checked"
    "process_new_vote_state (map landed_vote_from (vu_lockouts checked)) (vu_root checked) (vu_timestamp checked)
       epoch slot timely dep vs = (Inr u, vs')"
proof (cases "check_update_vote_state_slots_are_valid vs update sh")
  case (Inl e)
  then show thesis using assms by (simp add: do_process_vote_state_update_def effect_simps)
next
  case (Inr checked)
  then show thesis using assms check_update_valid [of vs sh update]
    by (intro that [of checked]) (simp_all add: do_process_vote_state_update_def effect_simps)
qed

lemma process_new_vote_state_lockouts:
  assumes "process_new_vote_state new_state new_root ts epoch slot timely dep vs = (Inr u, vs')"
  shows "map lv_lockout (vs_votes vs') = map lv_lockout new_state" "vs_root_slot vs' = new_root"
  by (rule process_new_vote_state_ok [OF assms]; simp add: merge_votes_lockouts set_new_latencies_lockouts)+

lemma process_new_vote_state_tower_ok:
  assumes "process_new_vote_state new_state new_root ts epoch slot timely dep vs = (Inr u, vs')"
  shows "tower_ok vs'"
proof -
  note same = process_new_vote_state_lockouts [OF assms]
  have "length (vs_votes vs') = length new_state" using same(1) by (metis length_map)
  moreover have "new_state \<noteq> []" "length new_state \<le> MAX_LOCKOUT_HISTORY" "check_new_votes new_root None new_state = Inr ()"
    by (rule process_new_vote_state_ok [OF assms]; assumption)+
  ultimately show ?thesis
    unfolding tower_ok_def same(2) tower_lockouts_cong [OF same(1)] by (auto simp: check_new_votes_iff)
qed

lemma process_new_vote_state_follows:
  assumes run: "process_new_vote_state new_state new_root ts epoch slot timely dep vs = (Inr u, vs')"
    and ok: "tower_ok vs" and newer: "\<forall>s\<in>set (vs_votes vs). lv_slot s < lv_slot (last new_state)"
  shows "tower_follows vs vs'"
proof (cases rule: process_new_vote_state_ok [OF run])
  case (1 index earned merged)
  have cur: "slots_sorted (vs_votes vs)" using ok tower_slots_sorted by (simp add: tower_ok_def)
  have new: "slots_sorted new_state" using 1(4) tower_slots_sorted by (simp add: check_new_votes_iff)
  have "drop index (vs_votes vs) = unrooted new_root (vs_votes vs)"
    using rooted_votes_spec [of vs timely dep new_root] ok 1(5)
    by (auto simp: unrooted_def tower_ok_def MAX_LOCKOUT_HISTORY_def)
  then have "is_ok (merge_votes (unrooted new_root (vs_votes vs)) new_state)" using 1(6) by simp
  then have respected: "lockout_respected new_state c"
    if "c \<in> set (vs_votes vs)" "\<not> root_le (Some (lv_slot c)) new_root" for c
    using that merge_votes_accepts [OF unrooted_sorted [OF cur] new] unrooted_mem [OF cur] by blast
  have "lv_lockout ` set new_state = lv_lockout ` set (vs_votes vs')"
    using process_new_vote_state_lockouts(1) [OF run] by (metis set_map)
  then have new_mem: "\<exists>m\<in>set (vs_votes vs'). lv_lockout m = lv_lockout n" if "n \<in> set new_state" for n
    using that by (auto simp: set_eq_iff image_iff) metis
  have "vote_survives vs' c" if c: "c \<in> set (vs_votes vs)" for c
  proof (cases "root_le (Some (lv_slot c)) new_root")
    case True
    then show ?thesis using process_new_vote_state_lockouts(2) [OF run] by (simp add: vote_survives_def)
  next
    case False
    have "last new_state \<in> set new_state" "lv_slot c < lv_slot (last new_state)" using 1(1) newer c by simp_all
    then have "last_locked_out_slot (lv_lockout c) < lv_slot (last new_state) \<or> lv_slot c \<in> lv_slot ` set new_state"
      using respected [OF c False] unfolding lockout_respected_def by blast
    moreover have "lv_conf c \<le> lv_conf n" if "n \<in> set new_state" "lv_slot n = lv_slot c" for n
      using that respected [OF c False] unfolding lockout_respected_def by blast
    ultimately consider n where "n \<in> set new_state" "last_locked_out_slot (lv_lockout c) < lv_slot n"
      | n where "n \<in> set new_state" "lv_slot n = lv_slot c" "lv_conf c \<le> lv_conf n"
      using \<open>last new_state \<in> set new_state\<close> by (metis imageE)
    then show ?thesis
    proof cases
      case (1 n)
      then obtain m where "m \<in> set (vs_votes vs')" "lv_lockout m = lv_lockout n" using new_mem by blast
      then show ?thesis using 1 unfolding vote_survives_def by (intro disjI2 bexI [of _ m]) simp_all
    next
      case (2 n)
      then obtain m where "m \<in> set (vs_votes vs')" "lv_lockout m = lv_lockout n" using new_mem by blast
      then show ?thesis using 2 unfolding vote_survives_def by (intro disjI2 disjI1 bexI [of _ m]) simp_all
    qed
  qed
  then show ?thesis using 1(3,8) by (simp add: tower_follows_def root_rolls_back_iff)
qed

lemma update_tower:
  assumes ok: "tower_ok vs" and run: "do_process_vote_state_update sh epoch slot update timely dep vs = (Inr u, vs')"
  shows "tower_ok vs' \<and> tower_follows vs vs'"
proof (rule do_process_vote_state_update_ok [OF run])
  fix checked
  assume checked: "update_checked vs sh update checked"
    and new: "process_new_vote_state (map landed_vote_from (vu_lockouts checked)) (vu_root checked) (vu_timestamp checked)
       epoch slot timely dep vs = (Inr u, vs')"
  have "lv_slot s < lv_slot (last (map landed_vote_from (vu_lockouts checked)))" if "s \<in> set (vs_votes vs)" for s
  proof -
    have "lv_slot s \<le> lv_slot (last (vs_votes vs))" using ok that tower_last_slot by (simp add: tower_ok_def)
    also have "\<dots> < lk_slot (last (vu_lockouts checked))"
      using checked that by (auto simp: update_checked_def last_voted_slot_def split: if_splits)
    finally show ?thesis using checked by (simp add: update_checked_def last_map landed_vote_from_def)
  qed
  then show ?thesis using process_new_vote_state_tower_ok [OF new] process_new_vote_state_follows [OF new ok] by blast
qed

subsection \<open>The history of a tower\<close>

text \<open>A tower changes by a vote or by an update that was accepted.\<close>

inductive vote_step :: "vote_state \<Rightarrow> vote_state \<Rightarrow> bool" where
  vote: "process_vote vote slot_hashes epoch slot timely dep vs = (Inr (), vs') \<Longrightarrow> vote_step vs vs'"
| update: "do_process_vote_state_update slot_hashes epoch slot update timely dep vs = (Inr (), vs') \<Longrightarrow> vote_step vs vs'"

lemma vote_step_tower: "vote_step vs vs' \<Longrightarrow> tower_ok vs \<Longrightarrow> tower_ok vs' \<and> tower_follows vs vs'"
  by (elim vote_step.cases) (hypsubst, rule process_vote_tower update_tower, assumption+)+

text \<open>
  C6: lockouts are honoured. Along any sequence of accepted votes and vote state updates a well-formed tower stays
  well formed, its root never moves back, and every vote that was ever in it is rooted, or still in
  the tower with at least as many confirmations, or has been passed by a vote beyond its lockout.
\<close>

theorem vote_history_honours_lockouts:
  assumes "vote_step\<^sup>*\<^sup>* vs vs'" "tower_ok vs"
  shows "tower_ok vs' \<and> tower_follows vs vs'"
  using assms
proof (induction rule: rtranclp_induct)
  case base
  then show ?case using tower_follows_same [OF tower.R_refl] by simp
next
  case (step vs1 vs2)
  then show ?case using vote_step_tower tower_follows_trans by blast
qed

lemma example_update_accepted:
  "fst (do_process_vote_state_update example_slot_hashes 3 16 example_update True True example_votes) = Inr ()"
  by (simp add: vote_eval example_votes_def example_slot_hashes_def example_update_def vote_state_default_def,
    simp add: word_le_nat_alt)

lemma example_update_step:
  "vote_step example_votes (snd (do_process_vote_state_update example_slot_hashes 3 16 example_update True True example_votes))"
  using example_update_accepted by (intro vote_step.update) (simp add: prod_eq_iff)

theorem vote_history_honours_lockouts_witness:
  "\<exists>vs'. vote_step\<^sup>*\<^sup>* example_votes vs' \<and> tower_ok example_votes \<and> tower_ok vs' \<and> tower_follows example_votes vs'"
  using vote_history_honours_lockouts [OF r_into_rtranclp [of vote_step, OF example_update_step] example_votes_ok]
    example_update_step example_votes_ok by blast

subsection \<open>What an update can put into a tower\<close>

text \<open>
  C24: votes are for this fork. When a vote state update is accepted, every vote of the new tower is one of the proposed
  votes, for a slot of the slot hashes or for a slot that was in the tower before; the last vote is
  newer than every vote of the old tower and carries the hash that the slot hashes have for its slot;
  and the new root is in the slot hashes, or was the root or a vote of the old tower.
\<close>

theorem vote_update_on_fork:
  assumes "tower_ok vs" "do_process_vote_state_update sh epoch slot update timely dep vs = (Inr (), vs')"
  shows "vs_votes vs' \<noteq> [] \<and> (lv_slot (last (vs_votes vs')), vu_hash update) \<in> set sh \<and>
    (\<forall>v\<in>set (vs_votes vs). lv_slot v < lv_slot (last (vs_votes vs'))) \<and>
    (\<forall>v\<in>set (vs_votes vs'). lv_lockout v \<in> set (vu_lockouts update) \<and>
       (lv_slot v \<in> fst ` set sh \<or> lv_slot v \<in> lv_slot ` set (vs_votes vs))) \<and>
    (\<forall>r. vs_root_slot vs' = Some r \<longrightarrow>
       r \<in> fst ` set sh \<or> vs_root_slot vs = Some r \<or> r \<in> lv_slot ` set (vs_votes vs))"
proof (rule do_process_vote_state_update_ok [OF assms(2)])
  fix checked
  assume checked: "update_checked vs sh update checked"
    and new: "process_new_vote_state (map landed_vote_from (vu_lockouts checked)) (vu_root checked) (vu_timestamp checked)
       epoch slot timely dep vs = (Inr (), vs')"
  note same = process_new_vote_state_lockouts [OF new]
  have lockouts: "map lv_lockout (vs_votes vs') = vu_lockouts checked"
    using same(1) by (simp add: comp_def landed_vote_from_def)
  then have set: "lv_lockout ` set (vs_votes vs') = set (vu_lockouts checked)" by (metis set_map)
  have ne: "vs_votes vs' \<noteq> []" using checked lockouts by (auto simp: update_checked_def)
  then have last: "lv_lockout (last (vs_votes vs')) = last (vu_lockouts update)"
    using checked lockouts last_map [of "vs_votes vs'" lv_lockout] by (simp add: update_checked_def)
  have "lv_slot v < lv_slot (last (vs_votes vs'))" if "v \<in> set (vs_votes vs)" for v
  proof -
    have "lv_slot v \<le> lv_slot (last (vs_votes vs))" using assms(1) that tower_last_slot by (simp add: tower_ok_def)
    also have "\<dots> < lv_slot (last (vs_votes vs'))"
      using checked that last by (auto simp: update_checked_def last_voted_slot_def split: if_splits)
    finally show ?thesis .
  qed
  moreover have "lv_lockout v \<in> set (vu_lockouts update) \<and>
      (lv_slot v \<in> fst ` set sh \<or> lv_slot v \<in> lv_slot ` set (vs_votes vs))" if "v \<in> set (vs_votes vs')" for v
  proof -
    have "lv_lockout v \<in> set (vu_lockouts checked)" using that set by blast
    then show ?thesis using checked by (simp add: update_checked_def)
  qed
  ultimately show ?thesis using ne last checked same(2) by (simp add: update_checked_def)
qed

theorem vote_update_on_fork_witness:
  "tower_ok example_votes \<and> (\<exists>vs'.
     do_process_vote_state_update example_slot_hashes 3 16 example_update True True example_votes = (Inr (), vs') \<and>
     (lv_slot (last (vs_votes vs')), replicate 32 5) \<in> set example_slot_hashes)"
proof -
  obtain vs' where run: "do_process_vote_state_update example_slot_hashes 3 16 example_update True True example_votes = (Inr (), vs')"
    using example_update_accepted by (cases "do_process_vote_state_update example_slot_hashes 3 16 example_update True True example_votes") simp
  from vote_update_on_fork [OF example_votes_ok run] run show ?thesis
    using example_votes_ok by (auto simp: example_update_def)
qed

subsection \<open>No panics\<close>

definition no_panic :: "'a vs_effect \<Rightarrow> vote_state \<Rightarrow> bool" where
  "no_panic m vs \<longleftrightarrow> fst (m vs) \<noteq> Inl Panic"

lemma no_panic_bind:
  "no_panic m vs \<Longrightarrow> (\<And>x vs'. m vs = (Inr x, vs') \<Longrightarrow> no_panic (f x) vs') \<Longrightarrow> no_panic (bind m f) vs"
  by (auto simp: no_panic_def bind_apply split: prod.splits sum.splits)

lemma no_panic_prims:
  "no_panic (return x) vs" "no_panic (gets f) vs" "no_panic (modify g) vs" "no_panic (fail_if b (Fails e)) vs"
  "r \<noteq> Inl Panic \<Longrightarrow> no_panic (lift r) vs" "f' vs \<noteq> Inl Panic \<Longrightarrow> no_panic (reads f') vs"
  by (simp_all add: no_panic_def effect_simps)

lemma check_new_votes_no_panic: "check_new_votes r p votes \<noteq> Inl Panic"
  by (induction votes arbitrary: p) (auto split: option.splits)

lemma merge_votes_no_panic: "merge_votes cur new \<noteq> Inl Panic"
  by (induction cur new rule: merge_votes.induct) (auto simp: and_then_def split: ordering.splits sum.splits)

lemma process_timestamp_no_panic: "no_panic (process_timestamp s t) vs"
  unfolding process_timestamp_def by (intro no_panic_bind no_panic_prims)

lemma process_new_vote_state_no_panic:
  assumes "length (vs_votes vs) \<le> 31" "new_state \<noteq> []"
  shows "no_panic (process_new_vote_state new_state new_root ts epoch slot timely dep) vs"
proof -
  obtain index e where rooted: "rooted_votes vs timely dep new_root = Inr (index, e)"
    using rooted_votes_spec [OF assms(1), of timely dep new_root] by blast
  have credits: "no_panic (if b then modify f else return ()) vs'" for b f vs' by (simp add: no_panic_prims)
  have stamp: "no_panic (case ts of None \<Rightarrow> return () | Some t \<Rightarrow> process_timestamp (g t) t) vs'" for g vs'
    by (simp add: no_panic_prims process_timestamp_no_panic split: option.split)
  show ?thesis
    unfolding process_new_vote_state_def Let_def case_prod_beta
    by (intro no_panic_bind no_panic_prims check_new_votes_no_panic merge_votes_no_panic credits stamp)
      (use rooted in \<open>auto simp: no_panic_def effect_simps assms(2) rooted_votes_def split: if_splits\<close>)
qed

lemma check_slots_loop_bound: "j \<le> n \<Longrightarrow> snd (check_slots_loop l slots sh i j) \<le> n"
proof (induction l slots sh i j rule: check_slots_loop.induct)
  case (1 l slots sh i j)
  then show ?case by (subst check_slots_loop.simps) auto
qed

lemma process_vote_no_panic: "no_panic (process_vote vote sh epoch slot timely dep) vs"
proof -
  have "check_slots_are_valid vs' slots h sh \<noteq> Inl Panic" for vs' slots h
    using check_slots_loop_bound [of "length sh" "length sh" "last_voted_slot (vs_votes vs')" slots sh 0]
    by (auto simp: check_slots_are_valid_def split: prod.splits option.splits if_splits)
  then show ?thesis unfolding process_vote_def process_vote_unfiltered_def Let_def
    by (intro no_panic_bind no_panic_prims)
qed

text \<open>
  C25: no panic. On a well-formed tower none of the assertions, expectations and indexings in the processing of
  votes and of vote state updates can fail, whatever the vote, the update and the slot hashes are.
\<close>

theorem vote_processing_no_panic:
  assumes "tower_ok vs"
  shows "fst (process_vote vote sh epoch slot timely dep vs) \<noteq> Inl Panic \<and>
    fst (do_process_vote_state_update sh epoch slot update timely dep vs) \<noteq> Inl Panic"
proof -
  have "no_panic (do_process_vote_state_update sh epoch slot update timely dep) vs"
    unfolding do_process_vote_state_update_def
  proof (intro no_panic_bind no_panic_prims)
    show "check_update_vote_state_slots_are_valid vs update sh \<noteq> Inl Panic"
      using check_update_valid [of vs sh update] by (auto split: sum.splits)
  next
    fix checked vs'
    assume "reads (\<lambda>vs. check_update_vote_state_slots_are_valid vs update sh) vs = (Inr checked, vs')"
    then have "check_update_vote_state_slots_are_valid vs update sh = Inr checked" "vs' = vs" by (auto simp: reads_apply)
    then show "no_panic (process_new_vote_state (map landed_vote_from (vu_lockouts checked)) (vu_root checked)
        (vu_timestamp checked) epoch slot timely dep) vs'"
      using check_update_valid [of vs sh update] assms
      by (intro process_new_vote_state_no_panic) (auto simp: update_checked_def tower_ok_def MAX_LOCKOUT_HISTORY_def)
  qed
  then show ?thesis using process_vote_no_panic [of vote sh epoch slot timely dep vs] by (simp add: no_panic_def)
qed

theorem vote_processing_no_panic_witness:
  "tower_ok example_votes \<and>
   fst (do_process_vote_state_update [] 3 16 example_update True True example_votes) \<noteq> Inl Panic"
  using vote_processing_no_panic [OF example_votes_ok] example_votes_ok by blast

end
