(* ===== verification/Account_Wp.thy ===== *)
theory Account_Wp
  imports System_Ledger
begin

section \<open>Weakest preconditions for handlers\<close>

text \<open>
  Rules for what a handler does to the ledger when it succeeds. \<open>wp t0 fl m P M\<close>: run from a context with
  the frame of \<open>t0\<close>, the borrow flags \<open>fl\<close> and the accounts \<open>M\<close>, a successful \<open>m\<close> ends in a context with
  the same frame and flags, with a value and accounts that satisfy \<open>P\<close>. There is one rule for
  each combinator and setter, so that a handler is taken apart by introducing them.
\<close>

definition sees :: "transaction_context \<Rightarrow> borrow_flag list \<Rightarrow> ledger \<Rightarrow> transaction_context \<Rightarrow> bool" where
  "sees t0 fl M tc \<longleftrightarrow>
     tc_frame tc = tc_frame t0 \<and> num_accounts tc = num_accounts t0 \<and> borrow_flags tc = fl \<and> account_at tc = M"

definition wp ::
  "transaction_context \<Rightarrow> borrow_flag list \<Rightarrow> 'a tc_effect \<Rightarrow> ('a \<Rightarrow> ledger \<Rightarrow> bool) \<Rightarrow> ledger \<Rightarrow> bool" where
  "wp t0 fl m P M \<longleftrightarrow> (\<forall>tc x tc'. sees t0 fl M tc \<longrightarrow> m tc = (Inr x, tc') \<longrightarrow> (\<exists>M'. sees t0 fl M' tc' \<and> P x M'))"

lemma wpI:
  "(\<And>tc x tc'. sees t0 fl M tc \<Longrightarrow> m tc = (Inr x, tc') \<Longrightarrow> \<exists>M'. sees t0 fl M' tc' \<and> P x M') \<Longrightarrow> wp t0 fl m P M"
  by (simp add: wp_def)

lemma wpD:
  "wp t0 fl m P M \<Longrightarrow> sees t0 fl M tc \<Longrightarrow> m tc = (Inr x, tc') \<Longrightarrow> \<exists>M'. sees t0 fl M' tc' \<and> P x M'"
  by (simp add: wp_def)

lemma sees_self: "sees tc (borrow_flags tc) (account_at tc) tc"
  by (simp add: sees_def)

text \<open>What is read in a context that is seen.\<close>

lemma sees_reads:
  assumes "sees t0 fl M tc"
  shows "get_lamports b tc = acc_lamports (M (ba_index b))" "get_data b tc = acc_data (M (ba_index b))"
    "get_owner b tc = acc_owner (M (ba_index b))" "get_key b tc = tc_account_keys t0 ! ba_index b"
    "get_state B b tc = ok_or (bc_deserialize B (acc_data (M (ba_index b)))) InvalidAccountData"
    "key_of_instruction_account ic i tc = key_of_instruction_account ic i t0"
    "account_at tc = M" "num_accounts tc = num_accounts t0" "tc_frame tc = tc_frame t0" "borrow_flags tc = fl"
  using assms
  by (simp_all add: sees_def get_lamports_def get_data_def get_owner_def get_key_def get_state_def ba_account_def
      key_of_instruction_account_def tc_frame_def get_key_of_account_at_index_def and_then_def cong: sum.case_cong)

subsection \<open>Combinators\<close>

lemma wp_bind: "wp t0 fl m (\<lambda>x. wp t0 fl (f x) P) M \<Longrightarrow> wp t0 fl (bind m f) P M"
  by (rule wpI) (auto elim!: bind_okE dest!: wpD dest: wpD)

lemma wp_return: "P x M \<Longrightarrow> wp t0 fl (return x) P M"
  by (rule wpI) (auto simp: return_apply)

lemma wp_throw: "wp t0 fl (throw e) P M"
  by (rule wpI) (simp add: throw_apply)

lemma wp_lift: "(\<And>x. r = Inr x \<Longrightarrow> P x M) \<Longrightarrow> wp t0 fl (lift r) P M"
  by (rule wpI) (auto simp: lift_apply)

lemma wp_fail_if: "(\<not> b \<Longrightarrow> P () M) \<Longrightarrow> wp t0 fl (fail_if b e) P M"
  by (rule wpI) (auto elim!: fail_if_okE)

lemma wp_reads: "(\<And>tc x. sees t0 fl M tc \<Longrightarrow> r tc = Inr x \<Longrightarrow> P x M) \<Longrightarrow> wp t0 fl (reads r) P M"
  by (rule wpI) (auto elim!: reads_okE)

lemma wp_gets: "(\<And>tc. sees t0 fl M tc \<Longrightarrow> P (f tc) M) \<Longrightarrow> wp t0 fl (gets f) P M"
  by (rule wpI) (auto simp: gets_apply)

lemma wp_if: "(b \<Longrightarrow> wp t0 fl m P M) \<Longrightarrow> (\<not> b \<Longrightarrow> wp t0 fl m' P M) \<Longrightarrow> wp t0 fl (if b then m else m') P M"
  by simp

lemma wp_case_prod: "(\<And>x y. z = (x, y) \<Longrightarrow> wp t0 fl (f x y) P M) \<Longrightarrow> wp t0 fl (case z of (x, y) \<Rightarrow> f x y) P M"
  by (cases z) simp

lemma wp_case_option:
  "(z = None \<Longrightarrow> wp t0 fl m P M) \<Longrightarrow> (\<And>x. z = Some x \<Longrightarrow> wp t0 fl (f x) P M) \<Longrightarrow>
   wp t0 fl (case z of None \<Rightarrow> m | Some x \<Rightarrow> f x) P M"
  by (cases z) simp_all

lemma wp_mono: "wp t0 fl m P M \<Longrightarrow> (\<And>x M'. P x M' \<Longrightarrow> Q x M') \<Longrightarrow> wp t0 fl m Q M"
  by (rule wpI) (blast dest: wpD)

lemma sees_set_borrow: "sees t0 fl M tc \<Longrightarrow> sees t0 (fl[i := b]) M (set_borrow_at i b tc)"
  by (simp add: sees_def)

lemma wp_with_instruction_account:
  assumes "\<And>b. ba_index b = tx_index ic i \<Longrightarrow> ba_index b < num_accounts t0 \<Longrightarrow>
      unat i < length (ic_instruction_accounts ic) \<Longrightarrow> tx_index ic i < length fl \<Longrightarrow> fl ! tx_index ic i = UNUSED \<Longrightarrow>
      wp t0 (fl[tx_index ic i := WRITING]) (body b) P M"
  shows "wp t0 fl (with_instruction_account ic i body) P M"
proof (rule wpI)
  fix tc x tc'
  assume s: "sees t0 fl M tc" and run: "with_instruction_account ic i body tc = (Inr x, tc')"
  from run obtain b t u where b: "try_borrow_instruction_account ic i tc = (Inr b, t)"
    "body b t = (Inr x, u)" "tc' = drop_account b u"
    unfolding with_instruction_account_def by (auto elim!: bind_okE finally_do_okE)
  from b(1) obtain k where k: "unat i < length (ic_instruction_accounts ic)"
    "k = ia_index_in_transaction (ic_instruction_accounts ic ! unat i)"
    "b = \<lparr>ba_instruction_context = ic, ba_index_in_transaction = k,
      ba_index_in_instruction = saturating_add (get_number_of_program_accounts ic) i\<rparr>"
    "unat k < num_accounts tc" "borrow_flags tc ! unat k = UNUSED" "t = set_borrow_at (unat k) WRITING tc"
    by (rule try_borrow_instruction_account_okE)
  have fl: "unat k < length fl" "fl ! unat k = UNUSED" "num_accounts tc = num_accounts t0"
    using k s by (auto simp: sees_def borrow_flags_def)
  have "wp t0 (fl[unat k := WRITING]) (body b) P M" using assms [of b] k fl by simp
  from wpD [OF this _ b(2)] k(6) sees_set_borrow [OF s] obtain M' where M': "sees t0 (fl[unat k := WRITING]) M' u" "P x M'"
    by blast
  have "(fl[unat k := WRITING])[unat k := UNUSED] = fl" using fl by (metis list_update_id list_update_overwrite)
  then have "sees t0 fl M' tc'"
    using sees_set_borrow [OF M'(1), of "unat k" UNUSED] b(3) k(3) by (simp add: drop_account_def)
  then show "\<exists>M'. sees t0 fl M' tc' \<and> P x M'" using M'(2) by blast
qed

subsection \<open>Setters\<close>

lemma setter_flags:
  "set_lamports b v tc = (Inr u, tc') \<Longrightarrow> borrow_flags tc' = borrow_flags tc"
  "set_state B b st tc = (Inr u, tc') \<Longrightarrow> borrow_flags tc' = borrow_flags tc"
  by (auto simp: set_lamports_def set_state_def get_data_mut_def write_data_def effect_simps touch_eval update_account_def
      split: if_splits sum.splits)

lemma accounts_to_sees:
  "sees t0 fl M tc \<Longrightarrow> accounts_to tc M' tc' \<Longrightarrow> borrow_flags tc' = borrow_flags tc \<Longrightarrow> sees t0 fl M' tc'"
  by (simp add: sees_def accounts_to_def)

lemma wp_checked_sub_lamports:
  assumes "ba_index b < num_accounts t0" "v \<le> acc_lamports (M (ba_index b)) \<Longrightarrow> P () (debit (ba_index b) v M)"
  shows "wp t0 fl (checked_sub_lamports b v) P M"
proof (rule wpI)
  fix tc x tc'
  assume s: "sees t0 fl M tc" and run: "checked_sub_lamports b v tc = (Inr x, tc')"
  have "borrow_flags tc' = borrow_flags tc"
    using run unfolding checked_sub_lamports_def by (auto elim!: bind_okE reads_okE dest: setter_flags)
  then show "\<exists>M'. sees t0 fl M' tc' \<and> P x M'"
    using checked_sub_lamports_okE [of b v tc tc'] run s assms
    by (intro exI [of _ "debit (ba_index b) v M"] conjI accounts_to_sees [OF s]) (simp_all add: sees_reads [OF s] debit_def ba_account_def)
qed

lemma wp_checked_add_lamports:
  assumes "ba_index b < num_accounts t0"
    "unat (acc_lamports (M (ba_index b))) + unat v < 2 ^ 64 \<Longrightarrow> P () (credit (ba_index b) v M)"
  shows "wp t0 fl (checked_add_lamports b v) P M"
proof (rule wpI)
  fix tc x tc'
  assume s: "sees t0 fl M tc" and run: "checked_add_lamports b v tc = (Inr x, tc')"
  have "borrow_flags tc' = borrow_flags tc"
    using run unfolding checked_add_lamports_def by (auto elim!: bind_okE reads_okE dest: setter_flags)
  then show "\<exists>M'. sees t0 fl M' tc' \<and> P x M'"
    using checked_add_lamports_okE [of b v tc tc'] run s assms
    by (intro exI [of _ "credit (ba_index b) v M"] conjI accounts_to_sees [OF s]) (simp_all add: sees_reads [OF s] credit_def ba_account_def)
qed

text \<open>Writing a state: the encoding goes to the start of the data.\<close>

definition stored :: "'a bincode \<Rightarrow> nat \<Rightarrow> 'a \<Rightarrow> ledger \<Rightarrow> ledger \<Rightarrow> bool" where
  "stored B i st m m' \<longleftrightarrow> (\<exists>bs. bc_serialize_into B st (acc_data (m i)) = Some bs \<and>
     m' = m(i := (m i)\<lparr>acc_data := slice_write (acc_data (m i)) bs\<rparr>))"

lemma wp_set_state:
  assumes "ba_index b < num_accounts t0" "\<And>M'. stored B (ba_index b) st M M' \<Longrightarrow> P () M'"
  shows "wp t0 fl (set_state B b st) P M"
proof (rule wpI)
  fix tc x tc'
  assume s: "sees t0 fl M tc" and run: "set_state B b st tc = (Inr x, tc')"
  obtain bs where bs: "bc_serialize_into B st (get_data b tc) = Some bs"
    "accounts_to tc ((account_at tc)(ba_index b := (ba_account b tc)\<lparr>acc_data := slice_write (get_data b tc) bs\<rparr>)) tc'"
    using set_state_okE [of B b st tc tc'] run s assms(1) by (auto simp: sees_reads)
  let ?M = "M(ba_index b := (M (ba_index b))\<lparr>acc_data := slice_write (acc_data (M (ba_index b))) bs\<rparr>)"
  have "stored B (ba_index b) st M ?M" using bs(1) by (auto simp: stored_def sees_reads [OF s])
  then have "P x ?M" using assms(2) by simp
  moreover have "sees t0 fl ?M tc'"
    using accounts_to_sees [OF s _ setter_flags(2) [OF run]] bs(2) by (simp add: sees_reads [OF s] ba_account_def)
  ultimately show "\<exists>M'. sees t0 fl M' tc' \<and> P x M'" by blast
qed

lemmas wp_rules = wp_bind wp_return wp_throw wp_lift wp_fail_if wp_reads wp_gets wp_if wp_case_prod wp_case_option
  wp_with_instruction_account wp_checked_sub_lamports wp_checked_add_lamports wp_set_state

text \<open>A codec that reads back what it has written.\<close>

definition reads_back :: "'a bincode \<Rightarrow> bool" where
  "reads_back B \<longleftrightarrow> (\<forall>st d bs. bc_serialize_into B st d = Some bs \<longrightarrow> bc_deserialize B (slice_write d bs) = Some st)"

lemma storedE:
  assumes "stored B i st m m'"
  obtains d where "m' = m(i := (m i)\<lparr>acc_data := d\<rparr>)" "reads_back B \<Longrightarrow> bc_deserialize B d = Some st"
  using assms by (auto simp: stored_def reads_back_def)

text \<open>Lamports moved from one account to another.\<close>

definition moved_lamports :: "nat \<Rightarrow> nat \<Rightarrow> u64 \<Rightarrow> ledger \<Rightarrow> ledger \<Rightarrow> bool" where
  "moved_lamports i j v m m' \<longleftrightarrow> v \<le> acc_lamports (m i) \<and> unat (acc_lamports (debit i v m j)) + unat v < 2 ^ 64 \<and>
     m' = credit j v (debit i v m)"

text \<open>The keys that stand for the signers of an instruction: the signers, and addresses derived from them.\<close>

definition signs :: "(bytes \<Rightarrow> hash) \<Rightarrow> pubkey list \<Rightarrow> pubkey \<Rightarrow> bool" where
  "signs sha256 signers key \<longleftrightarrow> key \<in> set signers \<or>
     (\<exists>base\<in>set signers. \<exists>seed owner. create_with_seed sha256 base seed owner = Inr key)"

lemma collect_signers_mem:
  "collect_signers tc ias result = Inr signers \<Longrightarrow>
   set result \<subseteq> set signers \<and>
   (\<forall>ia\<in>set ias. ia_is_signer ia \<longrightarrow> (\<exists>key. get_key_of_account_at_index tc (ia_index_in_transaction ia) = Inr key \<and> key \<in> set signers))"
  by (induction tc ias result rule: collect_signers.induct) (fastforce simp: and_then_Inr split: if_splits)+

lemma signing_key_in_signers:
  assumes "get_signers ic tc = Inr signers" "is_instruction_account_signer ic i = Inr True"
    and "key_of_instruction_account ic i tc = Inr key"
  shows "key \<in> set signers"
proof -
  from assms(2) obtain ia where ia: "vec_get (ic_instruction_accounts ic) (unat i) = Some ia" "ia_is_signer ia"
    by (auto simp: is_instruction_account_signer_def and_then_Inr)
  then have "ia \<in> set (ic_instruction_accounts ic)" by auto
  then obtain k where "get_key_of_account_at_index tc (ia_index_in_transaction ia) = Inr k" "k \<in> set signers"
    using assms(1) ia(2) collect_signers_mem unfolding get_signers_def by blast
  then show ?thesis using assms(3) ia(1)
    by (simp add: key_of_instruction_account_def get_index_of_instruction_account_in_transaction_def)
qed

lemma key_of_instruction_account_nth:
  assumes "key_of_instruction_account ic i tc = Inr key"
  shows "key = tc_account_keys tc ! tx_index ic i"
  using assms by (auto simp: key_of_instruction_account_def get_index_of_instruction_account_in_transaction_def
      get_key_of_account_at_index_def and_then_Inr vec_get_def split: if_splits)

end
