(* ===== verification/Vote_Refinement.thy ===== *)
theory Vote_Refinement
  imports Vote_Program Vote_Properties Account_Wp
begin

section \<open>What the vote program does to a vote account\<close>

text \<open>
  An abstract specification of the vote program, without borrows and without the plumbing of the entry point: the
  transitions of the stored vote state with the signatures they need, and the withdrawal. The entry
  point refines it. The authority of the withdrawer and of the voter, and the invariant of the tower,
  are then properties of the transitions.
\<close>

subsection \<open>Storing a state\<close>

definition stored_version :: "bool \<Rightarrow> vote_state \<Rightarrow> vote_state_versions" where
  "stored_version current vs = (if current then CurrentState vs else V1_14_11 (vote_state_1_14_11_from vs))"

text \<open>
  The account \<open>a\<close> with the state \<open>vs\<close> stored in it: the data may have been grown to the current
  size, and the current version is only used when it has that size.
\<close>

definition stored_in :: "vote_env \<Rightarrow> vote_state \<Rightarrow> account \<Rightarrow> account \<Rightarrow> bool" where
  "stored_in env vs a a' \<longleftrightarrow> (\<exists>data current bs.
     (data = acc_data a \<or> length (acc_data a) < VOTE_STATE_SIZE \<and> data = vec_resize (acc_data a) VOTE_STATE_SIZE 0) \<and>
     (current \<longrightarrow> VOTE_STATE_SIZE \<le> length data) \<and>
     bc_serialize_into (ve_state env) (stored_version current vs) data = Some bs \<and>
     a' = a\<lparr>acc_data := slice_write data bs\<rparr>)"

lemma set_data_length_err:
  assumes "set_data_length b n tc = (Inl e, tc')"
  shows "tc' = tc"
  using assms
  by (auto simp: set_data_length_def effect_simps touch_eval update_account_def update_accounts_resize_delta_def
      split: if_splits sum.splits)

lemma make_room_ok:
  assumes "make_room_for_current env b tc = (Inr current, tc')" "ba_index b < num_accounts tc"
  obtains data where "accounts_to tc ((account_at tc)(ba_index b := (ba_account b tc)\<lparr>acc_data := data\<rparr>)) tc'"
    "data = get_data b tc \<or> length (get_data b tc) < VOTE_STATE_SIZE \<and> data = vec_resize (get_data b tc) VOTE_STATE_SIZE 0"
    "current \<longrightarrow> VOTE_STATE_SIZE \<le> length data"
proof -
  have same: "(ba_account b tc)\<lparr>acc_data := get_data b tc\<rparr> = account_at tc (ba_index b)"
    by (simp add: get_data_def ba_account_def)
  show thesis
  proof (cases "\<exists>r. set_data_length b VOTE_STATE_SIZE tc = (r, tc') \<and> current = is_ok r \<and> length (get_data b tc) < VOTE_STATE_SIZE")
    case True
    then obtain r where r: "set_data_length b VOTE_STATE_SIZE tc = (r, tc')" "current = is_ok r" "length (get_data b tc) < VOTE_STATE_SIZE"
      by blast
    show thesis
    proof (cases r)
      case (Inl e)
      then have "tc' = tc" using r(1) set_data_length_err by blast
      then show thesis using Inl r(2) same by (intro that [of "get_data b tc"]) (simp_all add: accounts_to_refl)
    next
      case (Inr u)
      then show thesis
        using r set_data_length_okE [of b VOTE_STATE_SIZE tc tc'] assms(2)
        by (intro that [of "vec_resize (get_data b tc) VOTE_STATE_SIZE 0"]) (simp_all add: vec_resize_def)
    qed
  next
    case False
    then have "tc' = tc \<and> (current \<longrightarrow> VOTE_STATE_SIZE \<le> length (get_data b tc))"
      using assms(1)
      by (auto simp: make_room_for_current_def succeeds_def vote_state_size_of_def effect_simps split: if_splits prod.splits)
    then show thesis using same by (intro that [of "get_data b tc"]) (simp_all add: accounts_to_refl)
  qed
qed

lemma set_vote_account_state_okE:
  assumes "set_vote_account_state env b vs tc = (Inr u, tc')" "ba_index b < num_accounts tc"
  obtains a' where "stored_in env vs (ba_account b tc) a'" "accounts_to tc ((account_at tc)(ba_index b := a')) tc'"
proof -
  obtain current t where t: "make_room_for_current env b tc = (Inr current, t)"
    "set_state (ve_state env) b (stored_version current vs) t = (Inr u, tc')"
    using assms(1) unfolding set_vote_account_state_def stored_version_def by (elim bind_okE)
  obtain data where data: "accounts_to tc ((account_at tc)(ba_index b := (ba_account b tc)\<lparr>acc_data := data\<rparr>)) t"
    "data = get_data b tc \<or> length (get_data b tc) < VOTE_STATE_SIZE \<and> data = vec_resize (get_data b tc) VOTE_STATE_SIZE 0"
    "current \<longrightarrow> VOTE_STATE_SIZE \<le> length data"
    by (rule make_room_ok [OF t(1) assms(2)])
  have at: "account_at t = (account_at tc)(ba_index b := (ba_account b tc)\<lparr>acc_data := data\<rparr>)" "num_accounts t = num_accounts tc"
    using data(1) by (simp_all add: accounts_to_def)
  then have acc: "ba_account b t = (ba_account b tc)\<lparr>acc_data := data\<rparr>" "get_data b t = data"
    by (simp_all add: ba_account_def get_data_def)
  obtain bs where bs: "bc_serialize_into (ve_state env) (stored_version current vs) data = Some bs"
    "accounts_to t ((account_at t)(ba_index b := (ba_account b t)\<lparr>acc_data := slice_write data bs\<rparr>)) tc'"
    using set_state_okE [of "ve_state env" b "stored_version current vs" t tc'] t(2) assms(2) at(2) acc(2) by auto
  let ?a = "(ba_account b tc)\<lparr>acc_data := slice_write data bs\<rparr>"
  have "accounts_to t ((account_at tc)(ba_index b := ?a)) tc'" using bs(2) at(1) acc(1) by simp
  then have "accounts_to tc ((account_at tc)(ba_index b := ?a)) tc'" by (rule accounts_to_trans [OF data(1)])
  moreover have "stored_in env vs (ba_account b tc) ?a"
    unfolding stored_in_def using data(2,3) bs(1) by (auto simp: get_data_def)
  ultimately show thesis by (rule that [rotated])
qed

subsection \<open>Transitions\<close>

text \<open>
  The transitions of the stored state, with the clock of the sysvar cache. Every one but the first needs an
  initialized state in \<open>versioned\<close> to be of use: an uninitialized one has no voter and the
  default key for a withdrawer.
\<close>

inductive vote_transition ::
  "vote_env \<Rightarrow> clock \<Rightarrow> pubkey list \<Rightarrow> vote_state_versions \<Rightarrow> vote_state \<Rightarrow> bool"
  for env clock signers versioned where
  initialize: "is_uninitialized versioned \<Longrightarrow> vi_node_pubkey init \<in> set signers \<Longrightarrow>
     vote_transition env clock signers versioned (vote_state_new init clock)"
| set_voter: "\<forall>k\<in>set keys. signs (ve_sha256 env) signers k \<Longrightarrow> checked_add (ck_leader_schedule_epoch clock) 1 = Some target \<Longrightarrow>
     set_new_authorized_voter key (ck_epoch clock) target
       (\<lambda>voter. if vs_authorized_withdrawer (convert_to_current versioned) \<in> set keys then Inr ()
                else verify_authorized_signer voter keys) (convert_to_current versioned) = (Inr (), vs') \<Longrightarrow>
     vote_transition env clock signers versioned vs'"
| set_withdrawer: "vs = convert_to_current versioned \<Longrightarrow> signs (ve_sha256 env) signers (vs_authorized_withdrawer vs) \<Longrightarrow>
     vote_transition env clock signers versioned (vs\<lparr>vs_authorized_withdrawer := key\<rparr>)"
| set_identity: "vs = convert_to_current versioned \<Longrightarrow> vs_authorized_withdrawer vs \<in> set signers \<Longrightarrow> node \<in> set signers \<Longrightarrow>
     vote_transition env clock signers versioned (vs\<lparr>vs_node_pubkey := node\<rparr>)"
| set_commission: "vs = convert_to_current versioned \<Longrightarrow> vs_authorized_withdrawer vs \<in> set signers \<Longrightarrow>
     sc_epoch_schedule (ve_sysvar_cache env) = Some es \<Longrightarrow>
     ve_commission_first_half env \<Longrightarrow> is_commission_update_allowed (ck_slot clock) es \<or>
       ve_allow_commission_decrease env \<and> commission \<le> vs_commission vs \<Longrightarrow>
     vote_transition env clock signers versioned (vs\<lparr>vs_commission := commission\<rparr>)"
| set_commission_unrestricted: "vs = convert_to_current versioned \<Longrightarrow> vs_authorized_withdrawer vs \<in> set signers \<Longrightarrow>
     \<not> ve_commission_first_half env \<Longrightarrow>
     vote_transition env clock signers versioned (vs\<lparr>vs_commission := commission\<rparr>)"
| cast_vote: "\<not> is_uninitialized versioned \<Longrightarrow> sc_slot_hashes (ve_sysvar_cache env) = Some slot_hashes \<Longrightarrow>
     get_and_update_authorized_voter (ck_epoch clock) (convert_to_current versioned) = (Inr voter, vs) \<Longrightarrow> voter \<in> set signers \<Longrightarrow>
     process_vote vote slot_hashes (ck_epoch clock) (ck_slot clock) (ve_timely_vote_credits env) (ve_deprecate_legacy_vote env) vs
       = (Inr (), vs1) \<Longrightarrow>
     vs' = vs1 \<or> (\<exists>slot timestamp. process_timestamp slot timestamp vs1 = (Inr (), vs')) \<Longrightarrow>
     vote_transition env clock signers versioned vs'"
| update_votes: "\<not> is_uninitialized versioned \<Longrightarrow> sc_slot_hashes (ve_sysvar_cache env) = Some slot_hashes \<Longrightarrow>
     get_and_update_authorized_voter (ck_epoch clock) (convert_to_current versioned) = (Inr voter, vs) \<Longrightarrow> voter \<in> set signers \<Longrightarrow>
     do_process_vote_state_update slot_hashes (ck_epoch clock) (ck_slot clock) update (ve_timely_vote_credits env)
       (ve_deprecate_legacy_vote env) vs = (Inr (), vs') \<Longrightarrow>
     vote_transition env clock signers versioned vs'"

text \<open>The effect on the vote account \<open>a\<close>: the state before is \<open>versioned\<close>, the state after is stored in \<open>a'\<close>.\<close>

definition vote_account_step :: "vote_env \<Rightarrow> clock \<Rightarrow> pubkey list \<Rightarrow> account \<Rightarrow> account \<Rightarrow> bool" where
  "vote_account_step env clock signers a a' \<longleftrightarrow> (\<exists>versioned vs.
     bc_deserialize (ve_state env) (acc_data a) = Some versioned \<and> vote_transition env clock signers versioned vs \<and> stored_in env vs a a')"

text \<open>A withdrawal of \<open>lamports\<close>: the account that is left, before the lamports are taken out of it.\<close>

definition withdraw_leaves :: "vote_env \<Rightarrow> clock \<Rightarrow> rent \<Rightarrow> pubkey list \<Rightarrow> u64 \<Rightarrow> account \<Rightarrow> account \<Rightarrow> bool" where
  "withdraw_leaves env clock rent signers lamports a a' \<longleftrightarrow> (\<exists>versioned vs.
     bc_deserialize (ve_state env) (acc_data a) = Some versioned \<and> vs = convert_to_current versioned \<and>
     vs_authorized_withdrawer vs \<in> set signers \<and> lamports \<le> acc_lamports a \<and>
     (if lamports = acc_lamports a
      then (vs_epoch_credits vs = [] \<or> 2 \<le> saturating_sub (ck_epoch clock) (fst (last (vs_epoch_credits vs)))) \<and>
           stored_in env vote_state_default a a'
      else minimum_balance rent (length (acc_data a)) \<le> acc_lamports a - lamports \<and> a' = a))"

subsection \<open>The handlers\<close>

definition account_steps ::
  "vote_env \<Rightarrow> clock \<Rightarrow> pubkey list \<Rightarrow> borrowed_account \<Rightarrow> transaction_context \<Rightarrow> transaction_context \<Rightarrow> bool" where
  "account_steps env clock signers b tc tc' \<longleftrightarrow> (\<exists>a'. vote_account_step env clock signers (ba_account b tc) a' \<and>
     accounts_to tc ((account_at tc)(ba_index b := a')) tc')"

lemma on_copy_Inr: "on_copy into m vs = Inr vs' \<longleftrightarrow> (\<exists>x. m vs = (Inr x, vs'))"
  by (auto simp: on_copy_def split: prod.splits sum.splits fault.splits)

lemma verify_authorized_signer_Inr [simp]: "verify_authorized_signer key signers = Inr u \<longleftrightarrow> key \<in> set signers"
  by (simp add: verify_authorized_signer_def)

lemma get_vote_state_Inr:
  "get_vote_state env b tc = Inr vs \<longleftrightarrow>
     (\<exists>versioned. bc_deserialize (ve_state env) (acc_data (ba_account b tc)) = Some versioned \<and> vs = convert_to_current versioned)"
  by (auto simp: get_vote_state_def get_state_def get_data_def and_then_Inr)

lemma store_step:
  assumes "set_vote_account_state env b vs tc = (Inr u, tc')" "ba_index b < num_accounts tc"
    and "bc_deserialize (ve_state env) (acc_data (ba_account b tc)) = Some versioned"
    and "vote_transition env clock signers versioned vs"
  shows "account_steps env clock signers b tc tc'"
  using assms(3,4) set_vote_account_state_okE [OF assms(1,2)]
  unfolding account_steps_def vote_account_step_def by metis

lemma authorize_step:
  assumes "authorize env b key kind keys clock tc = (Inr u, tc')" "ba_index b < num_accounts tc"
    and keys: "\<forall>k\<in>set keys. signs (ve_sha256 env) signers k"
  shows "account_steps env clock signers b tc tc'"
proof -
  from assms(1) obtain vs vs' where vs: "get_vote_state env b tc = Inr vs" "set_vote_account_state env b vs' tc = (Inr u, tc')"
    and new: "(case kind of
         Voter \<Rightarrow> and_then (ok_or (checked_add (ck_leader_schedule_epoch clock) 1) ProgramFailedToComplete) (\<lambda>target_epoch.
             on_copy (\<lambda>e. e) (set_new_authorized_voter key (ck_epoch clock) target_epoch
               (\<lambda>voter. if is_ok (verify_authorized_signer (vs_authorized_withdrawer vs) keys) then Inr ()
                  else verify_authorized_signer voter keys)) vs)
       | Withdrawer \<Rightarrow> and_then (verify_authorized_signer (vs_authorized_withdrawer vs) keys) (\<lambda>_.
             Inr (vs\<lparr>vs_authorized_withdrawer := key\<rparr>))) = Inr vs'"
    unfolding authorize_def Let_def by (elim bind_okE reads_okE lift_okE) simp
  obtain versioned where ver: "bc_deserialize (ve_state env) (acc_data (ba_account b tc)) = Some versioned" "vs = convert_to_current versioned"
    using vs(1) by (auto simp: get_vote_state_Inr)
  have "vote_transition env clock signers versioned vs'"
  proof (cases kind)
    case Voter
    have "is_ok (verify_authorized_signer (vs_authorized_withdrawer vs) keys) \<longleftrightarrow> vs_authorized_withdrawer vs \<in> set keys"
      by (simp add: verify_authorized_signer_def)
    then show ?thesis using new Voter keys ver(2)
      by (auto simp: and_then_Inr on_copy_Inr intro!: vote_transition.set_voter)
  next
    case Withdrawer
    then show ?thesis using new keys ver(2) by (auto simp: and_then_Inr intro!: vote_transition.set_withdrawer)
  qed
  then show ?thesis by (rule store_step [OF vs(2) assms(2) ver(1)])
qed

lemma identity_step:
  assumes "update_validator_identity env b node signers tc = (Inr u, tc')" "ba_index b < num_accounts tc"
  shows "account_steps env clock signers b tc tc'"
proof -
  from assms(1) obtain vs where vs: "get_vote_state env b tc = Inr vs" "vs_authorized_withdrawer vs \<in> set signers" "node \<in> set signers"
    "set_vote_account_state env b (vs\<lparr>vs_node_pubkey := node\<rparr>) tc = (Inr u, tc')"
    unfolding update_validator_identity_def by (elim bind_okE reads_okE lift_okE) simp
  then show ?thesis
    by (auto simp: get_vote_state_Inr intro!: store_step [OF vs(4) assms(2)] vote_transition.set_identity)
qed

lemma commission_step:
  assumes "update_commission env b commission signers es clock tc = (Inr u, tc')" "ba_index b < num_accounts tc"
    and es: "sc_epoch_schedule (ve_sysvar_cache env) = Some es"
  shows "account_steps env clock signers b tc tc'"
proof -
  from assms(1) obtain vs where vs: "get_vote_state env b tc = Inr vs" "vs_authorized_withdrawer vs \<in> set signers"
    "set_vote_account_state env b (vs\<lparr>vs_commission := commission\<rparr>) tc = (Inr u, tc')"
    and rule: "\<not> ((if ve_allow_commission_decrease env then (case get_vote_state env b tc of Inr vs \<Rightarrow> is_commission_increase vs commission | Inl _ \<Rightarrow> True)
        else True) \<and> ve_commission_first_half env \<and> \<not> is_commission_update_allowed (ck_slot clock) es)"
    unfolding update_commission_def Let_def by (elim bind_okE gets_okE lift_okE fail_if_okE) auto
  obtain versioned where ver: "bc_deserialize (ve_state env) (acc_data (ba_account b tc)) = Some versioned" "vs = convert_to_current versioned"
    using vs(1) by (auto simp: get_vote_state_Inr)
  have "vote_transition env clock signers versioned (vs\<lparr>vs_commission := commission\<rparr>)"
  proof (cases "ve_commission_first_half env")
    case True
    then have "is_commission_update_allowed (ck_slot clock) es \<or> ve_allow_commission_decrease env \<and> commission \<le> vs_commission vs"
      using rule vs(1) by (auto simp: is_commission_increase_def not_less split: if_splits)
    then show ?thesis using True ver(2) vs(2) es by (intro vote_transition.set_commission) auto
  next
    case False
    then show ?thesis using ver(2) vs(2) by (intro vote_transition.set_commission_unrestricted) auto
  qed
  then show ?thesis by (rule store_step [OF vs(3) assms(2) ver(1)])
qed

lemma initialize_step:
  assumes "initialize_account env b init signers clock tc = (Inr u, tc')" "ba_index b < num_accounts tc"
  shows "account_steps env clock signers b tc tc'"
proof -
  from assms(1) obtain versioned where v: "get_state (ve_state env) b tc = Inr versioned" "is_uninitialized versioned"
    "vi_node_pubkey init \<in> set signers" "set_vote_account_state env b (vote_state_new init clock) tc = (Inr u, tc')"
    unfolding initialize_account_def by (elim bind_okE gets_okE reads_okE lift_okE fail_if_okE) auto
  then show ?thesis
    by (intro store_step [OF v(4) assms(2), of versioned] vote_transition.initialize) (auto simp: get_state_def get_data_def)
qed

lemma verify_and_get_vote_state_Inr:
  assumes "verify_and_get_vote_state env b clock signers tc = Inr vs"
  obtains versioned voter where "bc_deserialize (ve_state env) (acc_data (ba_account b tc)) = Some versioned"
    "\<not> is_uninitialized versioned" "voter \<in> set signers"
    "get_and_update_authorized_voter (ck_epoch clock) (convert_to_current versioned) = (Inr voter, vs)"
proof -
  from assms obtain versioned x where v: "get_state (ve_state env) b tc = Inr versioned" "\<not> is_uninitialized versioned"
    "bind (get_and_update_authorized_voter (ck_epoch clock)) (\<lambda>voter. lift (map_err Fails (verify_authorized_signer voter signers)))
       (convert_to_current versioned) = (Inr x, vs)"
    by (auto simp: verify_and_get_vote_state_def and_then_Inr on_copy_Inr split: if_splits)
  from v(3) obtain voter where "get_and_update_authorized_voter (ck_epoch clock) (convert_to_current versioned) = (Inr voter, vs)"
    "map_err Fails (verify_authorized_signer voter signers) = Inr x"
    by (elim bind_okE lift_okE) simp
  then show thesis using v(1,2)
    by (intro that [of versioned voter]) (auto simp: get_state_def get_data_def map_err_def split: sum.splits)
qed

lemma vote_account_vote_step:
  assumes "process_vote_with_account env b slot_hashes clock vote signers tc = (Inr u, tc')" "ba_index b < num_accounts tc"
    and sh: "sc_slot_hashes (ve_sysvar_cache env) = Some slot_hashes"
  shows "account_steps env clock signers b tc tc'"
proof -
  let ?vote = "process_vote vote slot_hashes (ck_epoch clock) (ck_slot clock) (ve_timely_vote_credits env) (ve_deprecate_legacy_vote env)"
  let ?stamp = "case vt_timestamp vote of None \<Rightarrow> return ()
      | Some timestamp \<Rightarrow> bind (fail_if (vt_slots vote = []) (Fails EmptySlots)) (\<lambda>_. process_timestamp (Max (set (vt_slots vote))) timestamp)"
  from assms(1) obtain vs vs' x where vs: "verify_and_get_vote_state env b clock signers tc = Inr vs"
    "bind ?vote (\<lambda>_. ?stamp) vs = (Inr x, vs')" "set_vote_account_state env b vs' tc = (Inr u, tc')"
    unfolding process_vote_with_account_def by (elim bind_okE reads_okE lift_okE) (auto simp: on_copy_Inr)
  from vs(2) obtain y vs1 where run: "?vote vs = (Inr y, vs1)" "?stamp vs1 = (Inr x, vs')" by (elim bind_okE)
  have stamp: "vs' = vs1 \<or> (\<exists>slot timestamp. process_timestamp slot timestamp vs1 = (Inr (), vs'))"
    using run(2) by (cases "vt_timestamp vote") (auto simp: return_apply elim!: bind_okE fail_if_okE)
  obtain versioned voter where v: "bc_deserialize (ve_state env) (acc_data (ba_account b tc)) = Some versioned"
    "\<not> is_uninitialized versioned" "voter \<in> set signers"
    "get_and_update_authorized_voter (ck_epoch clock) (convert_to_current versioned) = (Inr voter, vs)"
    by (rule verify_and_get_vote_state_Inr [OF vs(1)])
  have "vote_transition env clock signers versioned vs'"
    using run(1) by (intro vote_transition.cast_vote [OF v(2) sh v(4,3) _ stamp]) simp
  then show ?thesis by (rule store_step [OF vs(3) assms(2) v(1)])
qed

lemma vote_account_update_step:
  assumes "process_vote_state_update env b slot_hashes clock update signers tc = (Inr u, tc')" "ba_index b < num_accounts tc"
    and sh: "sc_slot_hashes (ve_sysvar_cache env) = Some slot_hashes"
  shows "account_steps env clock signers b tc tc'"
proof -
  from assms(1) obtain vs vs' x where vs: "verify_and_get_vote_state env b clock signers tc = Inr vs"
    "do_process_vote_state_update slot_hashes (ck_epoch clock) (ck_slot clock) update (ve_timely_vote_credits env)
       (ve_deprecate_legacy_vote env) vs = (Inr x, vs')" "set_vote_account_state env b vs' tc = (Inr u, tc')"
    unfolding process_vote_state_update_def by (elim bind_okE reads_okE lift_okE) (auto simp: on_copy_Inr)
  obtain versioned voter where v: "bc_deserialize (ve_state env) (acc_data (ba_account b tc)) = Some versioned"
    "\<not> is_uninitialized versioned" "voter \<in> set signers"
    "get_and_update_authorized_voter (ck_epoch clock) (convert_to_current versioned) = (Inr voter, vs)"
    by (rule verify_and_get_vote_state_Inr [OF vs(1)])
  have "vote_transition env clock signers versioned vs'"
    using vs(2) by (intro vote_transition.update_votes [OF v(2) sh v(4,3)]) simp
  then show ?thesis by (rule store_step [OF vs(3) assms(2) v(1)])
qed

subsection \<open>The entry point\<close>

definition cached_clock :: "vote_env \<Rightarrow> clock \<Rightarrow> bool" where
  "cached_clock env clock \<longleftrightarrow> (\<forall>c. sc_clock (ve_sysvar_cache env) = Some c \<longrightarrow> c = clock)"

lemma cached_clock_reads:
  "checked_clock (ve_sysvar_cache env) ic i tc = Inr clock \<Longrightarrow> cached_clock env clock"
  "get_clock (ve_sysvar_cache env) = Inr clock \<Longrightarrow> cached_clock env clock"
  by (auto simp: checked_clock_def get_clock_def cached_clock_def and_then_Inr)

lemma with_seed_step:
  assumes run: "process_authorize_with_seed_instruction env ic b key kind owner seed tc = (Inr u, tc')"
    and b: "ba_index b < num_accounts tc" and signers: "get_signers ic tc = Inr signers"
  shows "\<exists>clock. cached_clock env clock \<and> account_steps env clock signers b tc tc'"
proof -
  let ?derive = "\<lambda>signed. if signed
      then bind (reads (key_of_instruction_account ic 2)) (\<lambda>base_pubkey.
           bind (lift (map_err pubkey_error_into (create_with_seed (ve_sha256 env) base_pubkey seed owner))) (\<lambda>key. return [key]))
      else return []"
  from run obtain clock signed keys t where c: "checked_clock (ve_sysvar_cache env) ic 1 tc = Inr clock"
    "is_instruction_account_signer ic 2 = Inr signed" "?derive signed tc = (Inr keys, t)"
    "authorize env b key kind keys clock t = (Inr u, tc')"
    unfolding process_authorize_with_seed_instruction_def by (elim bind_okE reads_okE lift_okE) auto
  have "t = tc \<and> (\<forall>k\<in>set keys. signs (ve_sha256 env) signers k)"
  proof (cases signed)
    case True
    with c(3) obtain base derived where d: "key_of_instruction_account ic 2 tc = Inr base" "t = tc" "keys = [derived]"
      "create_with_seed (ve_sha256 env) base seed owner = Inr derived"
      by (auto simp: effect_simps map_err_def split: sum.splits)
    then show ?thesis using signing_key_in_signers [OF signers] c(2) True by (auto simp: signs_def)
  next
    case False
    then show ?thesis using c(3) by (simp add: return_apply)
  qed
  then show ?thesis using authorize_step [of env b key kind keys clock tc u tc' signers] c b cached_clock_reads(1) by blast
qed

text \<open>The outcome of the match on a borrowed vote account.\<close>

definition match_outcome where
  "match_outcome env signers b instruction tc tc' pending \<longleftrightarrow>
     (pending = None \<and> (\<exists>clock. cached_clock env clock \<and> account_steps env clock signers b tc tc')) \<or>
     (\<exists>lamports rent clock. pending = Some (lamports, rent, clock) \<and> instruction = Withdraw lamports \<and> tc' = tc \<and>
        sc_rent (ve_sysvar_cache env) = Some rent \<and> cached_clock env clock)"

lemma match_outcome_step:
  "account_steps env clock signers b tc tc' \<Longrightarrow> cached_clock env clock \<Longrightarrow> match_outcome env signers b instruction tc tc' None"
  unfolding match_outcome_def by blast

lemma signing_authority_okE:
  assumes "signing_authority ic i tc = (Inr key, tc')"
  obtains "tc' = tc"
  using assms unfolding signing_authority_def by (elim bind_okE reads_okE lift_okE fail_if_okE) (auto simp: return_apply)

lemma then_NoneE:
  assumes "bind m (\<lambda>_. return None) tc = (Inr pending, tc')"
  obtains u where "m tc = (Inr u, tc')" "pending = None"
  using assms by (auto simp: return_apply elim!: bind_okE)

lemma sysvar_votes_step:
  assumes "vote_with_sysvar_accounts env ic b signers vote tc = (Inr u, tc')" "ba_index b < num_accounts tc"
  shows "\<exists>clock. cached_clock env clock \<and> account_steps env clock signers b tc tc'"
  using assms unfolding vote_with_sysvar_accounts_def
  by (elim bind_okE reads_okE)
    (clarsimp simp: checked_slot_hashes_def get_slot_hashes_def and_then_Inr, blast intro: cached_clock_reads(1) vote_account_vote_step)

lemma sysvar_update_step:
  assumes "update_with_sysvar_cache env b signers update tc = (Inr u, tc')" "ba_index b < num_accounts tc"
  shows "\<exists>clock. cached_clock env clock \<and> account_steps env clock signers b tc tc'"
  using assms unfolding update_with_sysvar_cache_def
  by (elim bind_okE lift_okE) (clarsimp simp: get_slot_hashes_def, blast intro: cached_clock_reads(2) vote_account_update_step)

lemma signers_sign: "\<forall>k\<in>set signers. signs (ve_sha256 env) signers k"
  by (simp add: signs_def)

lemma vote_match:
  assumes run: "vote_instruction_on_account env ic b signers instruction tc = (Inr pending, tc')"
    and b: "ba_index b < num_accounts tc" and signers: "get_signers ic tc = Inr signers"
  shows "match_outcome env signers b instruction tc tc' pending"
proof -
  have steps: "match_outcome env signers b i tc tc' None"
    if "\<exists>clock. cached_clock env clock \<and> account_steps env clock signers b tc tc'" for i
    using that match_outcome_step by blast
  show ?thesis
  proof (cases instruction)
    case (InitializeAccount init)
    then show ?thesis using run b
      by (auto elim!: bind_okE reads_okE gets_okE fail_if_okE then_NoneE
          intro!: match_outcome_step [OF initialize_step] dest: cached_clock_reads simp: return_apply)
  next
    case (Authorize key kind)
    then show ?thesis using run b
      by (auto elim!: bind_okE reads_okE intro!: match_outcome_step [OF authorize_step [OF _ _ signers_sign]]
          dest: cached_clock_reads simp: return_apply)
  next
    case (Withdraw lamports)
    then show ?thesis using run
      by (auto elim!: bind_okE lift_okE simp: match_outcome_def return_apply get_rent_def dest: cached_clock_reads)
  next
    case UpdateValidatorIdentity
    obtain clock where "cached_clock env clock" by (cases "sc_clock (ve_sysvar_cache env)") (auto simp: cached_clock_def)
    then show ?thesis using run b UpdateValidatorIdentity
      by (auto elim!: bind_okE reads_okE lift_okE intro!: match_outcome_step [OF identity_step] simp: return_apply)
  next
    case (UpdateCommission commission)
    then show ?thesis using run b
      by (auto elim!: bind_okE lift_okE intro!: match_outcome_step [OF commission_step]
          dest: cached_clock_reads simp: return_apply get_epoch_schedule_def)
  next
    case (AuthorizeChecked kind)
    then show ?thesis using run b
      by (auto elim!: bind_okE reads_okE lift_okE signing_authority_okE
          intro!: match_outcome_step [OF authorize_step [OF _ _ signers_sign]] dest: cached_clock_reads simp: return_apply)
  next
    case (AuthorizeWithSeed kind owner seed key)
    then show ?thesis using run b with_seed_step [OF _ b signers]
      by (auto elim!: bind_okE lift_okE intro!: steps simp: return_apply)
  next
    case (AuthorizeCheckedWithSeed kind owner seed)
    then show ?thesis using run b with_seed_step [OF _ b signers]
      by (auto elim!: bind_okE lift_okE signing_authority_okE intro!: steps simp: return_apply)
  qed (use run b sysvar_votes_step sysvar_update_step in \<open>auto elim!: then_NoneE intro!: steps\<close>)
qed

subsection \<open>Withdrawals\<close>

lemma stored_in_lamports: "stored_in env vs a a' \<Longrightarrow> acc_lamports a' = acc_lamports a \<and> acc_owner a' = acc_owner a"
  by (auto simp: stored_in_def)

definition withdraw_check :: "vote_env \<Rightarrow> clock \<Rightarrow> rent \<Rightarrow> borrowed_account \<Rightarrow> vote_state \<Rightarrow> u64 \<Rightarrow> unit tc_effect" where
  "withdraw_check env clock rent b vs remaining_balance =
     (if remaining_balance = 0
      then if vs_epoch_credits vs \<noteq> [] \<and> saturating_sub (ck_epoch clock) (fst (last (vs_epoch_credits vs))) < 2
           then throw (vote_error_into ActiveVoteAccountClose)
           else set_vote_account_state env b vote_state_default
      else bind (gets (get_data b)) (\<lambda>data. fail_if (remaining_balance < minimum_balance rent (length data)) InsufficientFunds))"

lemma withdraw_check_okE:
  assumes run: "withdraw_check env clock rent b (convert_to_current versioned) (get_lamports b tc - lamports) tc = (Inr u, tc')"
    and b: "ba_index b < num_accounts tc"
    and pre: "bc_deserialize (ve_state env) (acc_data (ba_account b tc)) = Some versioned" "lamports \<le> get_lamports b tc"
      "vs_authorized_withdrawer (convert_to_current versioned) \<in> set signers"
  obtains a' where "withdraw_leaves env clock rent signers lamports (ba_account b tc) a'"
    "accounts_to tc ((account_at tc)(ba_index b := a')) tc'" "acc_lamports a' = get_lamports b tc"
proof (cases "lamports = get_lamports b tc")
  case True
  then have "vs_epoch_credits (convert_to_current versioned) = [] \<or>
      2 \<le> saturating_sub (ck_epoch clock) (fst (last (vs_epoch_credits (convert_to_current versioned))))"
    "set_vote_account_state env b vote_state_default tc = (Inr u, tc')"
    using run by (auto simp: withdraw_check_def throw_apply not_less split: if_splits)
  moreover from set_vote_account_state_okE [OF this(2) b] obtain a' where
    "stored_in env vote_state_default (ba_account b tc) a'" "accounts_to tc ((account_at tc)(ba_index b := a')) tc'" .
  ultimately show thesis using pre True stored_in_lamports
    by (intro that [of a']) (auto simp: withdraw_leaves_def get_lamports_def)
next
  case False
  then have "get_lamports b tc - lamports \<noteq> 0" by simp
  then have "minimum_balance rent (length (get_data b tc)) \<le> get_lamports b tc - lamports" "tc' = tc"
    using run by (auto simp: withdraw_check_def effect_simps not_less split: if_splits)
  moreover have "(account_at tc)(ba_index b := ba_account b tc) = account_at tc" by (simp add: ba_account_def fun_eq_iff)
  ultimately show thesis using pre False
    by (intro that [of "ba_account b tc"])
      (auto simp: withdraw_leaves_def get_lamports_def get_data_def accounts_to_refl)
qed

lemma withdraw_debit_okE:
  assumes run: "bind (reads (get_vote_state env b)) (\<lambda>vs.
       bind (lift (verify_authorized_signer (vs_authorized_withdrawer vs) signers)) (\<lambda>_.
       bind (reads (\<lambda>tc. ok_or (checked_sub (get_lamports b tc) lamports) InsufficientFunds)) (\<lambda>remaining_balance.
       bind (withdraw_check env clock rent b vs remaining_balance) (\<lambda>_. checked_sub_lamports b lamports)))) tc = (Inr u, tc')"
    and b: "ba_index b < num_accounts tc"
  obtains a' where "withdraw_leaves env clock rent signers lamports (ba_account b tc) a'" "lamports \<le> acc_lamports a'"
    "accounts_to tc ((account_at tc)(ba_index b := a'\<lparr>acc_lamports := acc_lamports a' - lamports\<rparr>)) tc'"
proof -
  from run obtain vs v t where vs: "get_vote_state env b tc = Inr vs" "vs_authorized_withdrawer vs \<in> set signers"
    "lamports \<le> get_lamports b tc" "withdraw_check env clock rent b vs (get_lamports b tc - lamports) tc = (Inr v, t)"
    "checked_sub_lamports b lamports t = (Inr (), tc')"
    by (elim bind_okE reads_okE lift_okE) (auto simp: checked_sub_Some)
  obtain versioned where ver: "bc_deserialize (ve_state env) (acc_data (ba_account b tc)) = Some versioned" "vs = convert_to_current versioned"
    using vs(1) by (auto simp: get_vote_state_Inr)
  obtain a' where a': "withdraw_leaves env clock rent signers lamports (ba_account b tc) a'"
    "accounts_to tc ((account_at tc)(ba_index b := a')) t" "acc_lamports a' = get_lamports b tc"
    using withdraw_check_okE [OF vs(4) [unfolded ver(2)] b ver(1) vs(3)] vs(2) ver(2) by metis
  then have t: "account_at t = (account_at tc)(ba_index b := a')" "ba_index b < num_accounts t" "ba_account b t = a'"
    "get_lamports b t = acc_lamports a'"
    using b by (simp_all add: accounts_to_def ba_account_def get_lamports_def)
  have "accounts_to t ((account_at tc)(ba_index b := a'\<lparr>acc_lamports := acc_lamports a' - lamports\<rparr>)) tc'"
    using checked_sub_lamports_okE(2) [OF vs(5) t(2)] t by simp
  then show thesis using a' vs(3) accounts_to_trans [OF a'(2)] by (intro that [of a']) auto
qed

lemma withdraw_step:
  assumes "withdraw env ic i lamports j signers rent clock tc = (Inr u, tc')"
  shows "\<exists>a'. withdraw_leaves env clock rent signers lamports (account_at tc (tx_index ic i)) a' \<and>
    moved_lamports (tx_index ic i) (tx_index ic j) lamports ((account_at tc)(tx_index ic i := a')) (account_at tc')"
proof -
  let ?debit = "\<lambda>b. bind (reads (get_vote_state env b)) (\<lambda>vs.
       bind (lift (verify_authorized_signer (vs_authorized_withdrawer vs) signers)) (\<lambda>_.
       bind (reads (\<lambda>tc. ok_or (checked_sub (get_lamports b tc) lamports) InsufficientFunds)) (\<lambda>remaining_balance.
       bind (withdraw_check env clock rent b vs remaining_balance) (\<lambda>_. checked_sub_lamports b lamports))))"
  from assms obtain x t where first: "with_instruction_account ic i ?debit tc = (Inr x, t)"
    and second: "with_instruction_account ic j (\<lambda>to_account. checked_add_lamports to_account lamports) t = (Inr u, tc')"
    unfolding withdraw_def Let_def withdraw_check_def by (elim bind_okE)
  obtain b w where b: "ba_index b = tx_index ic i" "tx_index ic i < num_accounts tc"
    "?debit b (set_borrow_at (tx_index ic i) WRITING tc) = (Inr x, w)" "t = set_borrow_at (tx_index ic i) UNUSED w"
    by (rule with_instruction_account_okE [OF first])
  obtain a' where a': "withdraw_leaves env clock rent signers lamports (account_at tc (tx_index ic i)) a'" "lamports \<le> acc_lamports a'"
    "accounts_to tc ((account_at tc)(tx_index ic i := a'\<lparr>acc_lamports := acc_lamports a' - lamports\<rparr>)) w"
    using withdraw_debit_okE [OF b(3)] b(1,2) by (auto simp: ba_account_def)
  obtain c v where c: "ba_index c = tx_index ic j" "tx_index ic j < num_accounts t"
    "checked_add_lamports c lamports (set_borrow_at (tx_index ic j) WRITING t) = (Inr u, v)" "tc' = set_borrow_at (tx_index ic j) UNUSED v"
    by (rule with_instruction_account_okE [OF second])
  have at: "account_at t = (account_at tc)(tx_index ic i := a'\<lparr>acc_lamports := acc_lamports a' - lamports\<rparr>)"
    using a'(3) b(4) by (simp add: accounts_to_def)
  have "unat (acc_lamports (account_at t (tx_index ic j))) + unat lamports < 2 ^ 64"
    "account_at tc' = (account_at t)(tx_index ic j := (account_at t (tx_index ic j))\<lparr>acc_lamports := acc_lamports (account_at t (tx_index ic j)) + lamports\<rparr>)"
    using checked_add_lamports_okE [of c lamports "set_borrow_at (tx_index ic j) WRITING t" v] c
    by (simp_all add: accounts_to_def ba_account_def get_lamports_def)
  then show ?thesis using a'(1,2) at by (intro exI [of _ a']) (simp add: moved_lamports_def debit_def credit_def)
qed

subsection \<open>Refinement\<close>

definition vote_ledger_step ::
  "vote_env \<Rightarrow> instruction_context \<Rightarrow> pubkey list \<Rightarrow> (nat \<Rightarrow> account) \<Rightarrow> (nat \<Rightarrow> account) \<Rightarrow> bool" where
  "vote_ledger_step env ic signers m m' \<longleftrightarrow> (\<exists>clock a'. cached_clock env clock \<and>
     (vote_account_step env clock signers (m (tx_index ic 0)) a' \<and> m' = m(tx_index ic 0 := a') \<or>
      (\<exists>rent lamports. sc_rent (ve_sysvar_cache env) = Some rent \<and>
         withdraw_leaves env clock rent signers lamports (m (tx_index ic 0)) a' \<and>
         moved_lamports (tx_index ic 0) (tx_index ic 1) lamports (m(tx_index ic 0 := a')) m')))"

lemma vote_ledger_transition:
  "cached_clock env clock \<Longrightarrow> vote_account_step env clock signers (m (tx_index ic 0)) a' \<Longrightarrow> m' = m(tx_index ic 0 := a') \<Longrightarrow>
   vote_ledger_step env ic signers m m'"
  unfolding vote_ledger_step_def by blast

lemma get_signers_set_borrow [simp]: "get_signers ic (set_borrow_at i f tc) = get_signers ic tc"
proof -
  have "collect_signers (set_borrow_at i f tc) ias r = collect_signers tc ias r" for ias r
    by (induction tc ias r rule: collect_signers.induct)
      (simp_all add: set_borrow_at_def get_key_of_account_at_index_def and_then_def split: sum.split)
  then show ?thesis by (simp add: get_signers_def)
qed

lemma vote_program_ledger_step:
  assumes "get_current_instruction_context tc = Inr ic" "vote_process_instruction env tc = (Inr (), tc')"
  shows "acc_owner (account_at tc (tx_index ic 0)) = vote_program_id \<and>
    (\<exists>signers. get_signers ic tc = Inr signers \<and> vote_ledger_step env ic signers (account_at tc) (account_at tc'))"
proof -
  have "vote_in_frame env ic tc = (Inr (), tc')"
    using assms by (simp add: vote_process_instruction_def bind_apply reads_apply)
  then obtain signers pending t where first: "with_instruction_account ic 0 (vote_on_account env ic) tc = (Inr (signers, pending), t)"
    and rest: "(case pending of None \<Rightarrow> return () | Some (lamports, rent, clock) \<Rightarrow> withdraw env ic 0 lamports 1 signers rent clock) t = (Inr (), tc')"
    unfolding vote_in_frame_def by (elim bind_okE) auto
  obtain b w where b: "ba_index b = tx_index ic 0" "tx_index ic 0 < num_accounts tc"
    "vote_on_account env ic b (set_borrow_at (tx_index ic 0) WRITING tc) = (Inr (signers, pending), w)" "t = set_borrow_at (tx_index ic 0) UNUSED w"
    by (rule with_instruction_account_okE [OF first])
  let ?u = "set_borrow_at (tx_index ic 0) WRITING tc"
  from b(3) obtain instruction where m: "get_owner b ?u = vote_program_id" "get_signers ic ?u = Inr signers"
    "vote_instruction_on_account env ic b signers instruction ?u = (Inr pending, w)"
    unfolding vote_on_account_def by (elim bind_okE gets_okE reads_okE lift_okE fail_if_okE) (auto simp: return_apply)
  have owner: "acc_owner (account_at tc (tx_index ic 0)) = vote_program_id" using m(1) b(1) by (simp add: get_owner_def ba_account_def)
  have "match_outcome env signers b instruction ?u w pending" using vote_match [OF m(3) _ m(2)] b(1,2) by simp
  then have "vote_ledger_step env ic signers (account_at tc) (account_at tc')"
    unfolding match_outcome_def
  proof (elim disjE exE conjE)
    fix clock
    assume p: "pending = None" "cached_clock env clock" "account_steps env clock signers b ?u w"
    then obtain a' where "vote_account_step env clock signers (account_at tc (tx_index ic 0)) a'"
      "account_at tc' = (account_at tc)(tx_index ic 0 := a')"
      using rest b(1,4) by (auto simp: account_steps_def accounts_to_def ba_account_def return_apply)
    then show ?thesis by (rule vote_ledger_transition [OF p(2)])
  next
    fix lamports rent clock
    assume p: "pending = Some (lamports, rent, clock)" "w = ?u" "sc_rent (ve_sysvar_cache env) = Some rent" "cached_clock env clock"
    have "withdraw env ic 0 lamports 1 signers rent clock t = (Inr (), tc')" using rest p(1) by simp
    from withdraw_step [OF this] show ?thesis using p b(4) unfolding vote_ledger_step_def by auto
  qed
  then show ?thesis using owner m(2) by simp
qed

end
