(* ===== verification/Vote_Account_Safety.thy ===== *)
theory Vote_Account_Safety
  imports Vote_Refinement Example_Context
begin

section \<open>The safety of a vote account\<close>

text \<open>
  Properties of the vote program as a whole, through its specification: the refinement itself, and that
  every change of a vote account has the authority it needs and keeps the tower well formed.
\<close>

subsection \<open>Authority over a vote account\<close>

text \<open>Votes change neither the authorities nor the commission.\<close>

definition same_authority :: "vote_state \<Rightarrow> vote_state \<Rightarrow> bool" where
  "same_authority vs vs' \<longleftrightarrow> vs_node_pubkey vs' = vs_node_pubkey vs \<and> vs_authorized_withdrawer vs' = vs_authorized_withdrawer vs \<and>
     vs_commission vs' = vs_commission vs \<and> vs_authorized_voters vs' = vs_authorized_voters vs \<and> vs_prior_voters vs' = vs_prior_voters vs"

interpretation auth: effect_preorder same_authority
  by unfold_locales (simp_all add: same_authority_def)

lemma same_authority_next_vote_slot: "same_authority vs (process_next_vote_slot s e c t d vs)"
  by (simp add: same_authority_def process_next_vote_slot_def Let_def)

lemma same_authority_fold: "same_authority vs (fold (\<lambda>s. process_next_vote_slot s e c t d) slots vs)"
  by (induction slots arbitrary: vs) (simp_all add: auth.R_refl, meson auth.R_trans same_authority_next_vote_slot)

lemma keeps_authority_timestamp: "keeps same_authority (process_timestamp s t)"
  unfolding process_timestamp_def by (intro auth.keeps_rules auth.keeps_modify) (simp add: same_authority_def)

lemma keeps_authority_process_vote: "keeps same_authority (process_vote vote sh e s t d)"
  unfolding process_vote_def process_vote_unfiltered_def Let_def
  by (intro auth.keeps_rules auth.keeps_modify same_authority_fold)

lemma keeps_authority_update: "keeps same_authority (do_process_vote_state_update sh e s update t d)"
  unfolding do_process_vote_state_update_def process_new_vote_state_def Let_def
  by (intro auth.keeps_rules auth.keeps_modify keeps_authority_timestamp) (simp_all add: same_authority_def)

text \<open>The votes, the root, the credits and the timestamp.\<close>

definition ballot :: "vote_state \<Rightarrow> landed_vote list \<times> u64 option \<times> (u64 \<times> u64 \<times> u64) list \<times> block_timestamp" where
  "ballot vs = (vs_votes vs, vs_root_slot vs, vs_epoch_credits vs, vs_last_timestamp vs)"

definition voters_usable :: "clock \<Rightarrow> vote_state \<Rightarrow> bool" where
  "voters_usable clock vs \<longleftrightarrow> ck_leader_schedule_epoch clock < - 1 \<and> ck_epoch clock \<le> ck_leader_schedule_epoch clock + 1 \<and>
     voters_ok (ck_leader_schedule_epoch clock + 1) (vs_authorized_voters vs) \<and> circ_buf_ok (vs_prior_voters vs)"

abbreviation voter_at :: "vote_state \<Rightarrow> u64 \<Rightarrow> pubkey option" where
  "voter_at vs epoch \<equiv> get_authorized_voter (vs_authorized_voters vs) epoch"

text \<open>What a transition from \<open>vs\<close> to \<open>vs'\<close> needs, by what it changes.\<close>

definition authority_respected :: "vote_env \<Rightarrow> clock \<Rightarrow> pubkey list \<Rightarrow> vote_state \<Rightarrow> vote_state \<Rightarrow> bool" where
  "authority_respected env clock signers vs vs' \<longleftrightarrow>
     ((vs_authorized_withdrawer vs', vs_commission vs', vs_node_pubkey vs') \<noteq>
        (vs_authorized_withdrawer vs, vs_commission vs, vs_node_pubkey vs) \<longrightarrow> signs (ve_sha256 env) signers (vs_authorized_withdrawer vs)) \<and>
     (ballot vs' \<noteq> ballot vs \<longrightarrow> (\<exists>voter\<in>set signers. voter_at vs (ck_epoch clock) = Some voter)) \<and>
     (\<forall>epoch\<ge>ck_epoch clock. voter_at vs' epoch \<noteq> voter_at vs epoch \<longrightarrow> ck_leader_schedule_epoch clock < epoch \<and>
        (signs (ve_sha256 env) signers (vs_authorized_withdrawer vs) \<or> (\<exists>voter. voter_at vs (ck_epoch clock) = Some voter \<and> signs (ve_sha256 env) signers voter)))"

definition same_but_voters :: "vote_state \<Rightarrow> vote_state \<Rightarrow> bool" where
  "same_but_voters vs vs' \<longleftrightarrow> ballot vs' = ballot vs \<and> vs_authorized_withdrawer vs' = vs_authorized_withdrawer vs \<and>
     vs_commission vs' = vs_commission vs \<and> vs_node_pubkey vs' = vs_node_pubkey vs"

interpretation but_voters: effect_preorder same_but_voters
  by unfold_locales (simp_all add: same_but_voters_def)

lemma keeps_get_and_update: "keeps same_but_voters (get_and_update_authorized_voter epoch)"
  by (rule keepsI)
    (auto simp: get_and_update_authorized_voter_def same_but_voters_def ballot_def split: prod.split option.split)

lemma keeps_set_new_authorized_voter: "keeps same_but_voters (set_new_authorized_voter q current target verify)"
  unfolding set_new_authorized_voter_def expire_prior_voter_def Let_def
  by (intro but_voters.keeps_rules but_voters.keeps_modify keeps_get_and_update) (simp_all add: same_but_voters_def ballot_def)

text \<open>The three kinds of transition.\<close>

lemma voter_transition_authority:
  assumes usable: "voters_usable clock vs" and keys: "\<forall>k\<in>set keys. signs (ve_sha256 env) signers k"
    and target: "checked_add (ck_leader_schedule_epoch clock) 1 = Some target"
    and run: "set_new_authorized_voter q (ck_epoch clock) target
      (\<lambda>voter. if vs_authorized_withdrawer vs \<in> set keys then Inr () else verify_authorized_signer voter keys) vs = (Inr u, vs')"
  shows "authority_respected env clock signers vs vs' \<and> voters_usable clock vs' \<and> same_tower vs vs'"
proof -
  have t: "target = ck_leader_schedule_epoch clock + 1" using target by (simp add: checked_add_def split: if_splits)
  have lt: "ck_leader_schedule_epoch clock < target"
    using target by (auto simp: checked_add_def word_less_nat_alt unat_word_ariths split: if_splits)
  have ok: "voters_ok target (vs_authorized_voters vs)" "circ_buf_ok (vs_prior_voters vs)" "ck_epoch clock \<le> target"
    using usable t by (simp_all add: voters_usable_def)
  note change = authorized_voter_change_lemma [OF ok, of "\<lambda>voter. if vs_authorized_withdrawer vs \<in> set keys then Inr ()
      else verify_authorized_signer voter keys" q, unfolded run, simplified]
  have frame: "same_but_voters vs vs'" using keepsD [OF keeps_set_new_authorized_voter run] .
  have "signs (ve_sha256 env) signers (vs_authorized_withdrawer vs) \<or> (\<exists>voter. voter_at vs (ck_epoch clock) = Some voter \<and> signs (ve_sha256 env) signers voter)"
    using change keys by (auto split: if_splits)
  moreover have "ck_leader_schedule_epoch clock < epoch" if "ck_epoch clock \<le> epoch" "voter_at vs' epoch \<noteq> voter_at vs epoch" for epoch
    using that change lt by (auto split: if_splits)
  ultimately show ?thesis
    using frame change usable t
    by (auto simp: authority_respected_def voters_usable_def same_but_voters_def same_tower_def ballot_def)
qed

lemma ballot_transition_authority:
  assumes usable: "voters_usable clock vs0" and run: "get_and_update_authorized_voter (ck_epoch clock) vs0 = (Inr voter, vs)"
    and signed: "voter \<in> set signers" and same: "same_authority vs vs'"
  shows "authority_respected env clock signers vs0 vs' \<and> voters_usable clock vs' \<and> same_tower vs0 vs"
proof -
  have ok: "voters_ok (ck_leader_schedule_epoch clock + 1) (vs_authorized_voters vs0)"
    "ck_epoch clock \<le> ck_leader_schedule_epoch clock + 1" using usable by (simp_all add: voters_usable_def)
  note up = update_voters [OF ok, unfolded run prod.case sum.case]
  have "vs = vs0\<lparr>vs_authorized_voters := vs_authorized_voters vs\<rparr>" using up by blast
  from arg_cong [where f = vs_prior_voters, OF this] have "vs_prior_voters vs = vs_prior_voters vs0" by simp
  moreover have "same_but_voters vs0 vs" by (rule keepsD [OF keeps_get_and_update run])
  moreover have "voter_at vs0 (ck_epoch clock) = Some voter" "voters_ok (ck_leader_schedule_epoch clock + 1) (vs_authorized_voters vs)"
    "\<forall>epoch\<ge>ck_epoch clock. voter_at vs epoch = voter_at vs0 epoch" using up by blast+
  ultimately show ?thesis using usable signed same
    by (auto simp: authority_respected_def voters_usable_def same_authority_def same_but_voters_def same_tower_def ballot_def)
qed

lemma plain_transition_authority:
  assumes "voters_usable clock vs" "ballot vs' = ballot vs" "vs_authorized_voters vs' = vs_authorized_voters vs"
    "vs_prior_voters vs' = vs_prior_voters vs" "signs (ve_sha256 env) signers (vs_authorized_withdrawer vs)"
  shows "authority_respected env clock signers vs vs' \<and> voters_usable clock vs' \<and> same_tower vs vs'"
  using assms by (simp add: authority_respected_def voters_usable_def ballot_def same_tower_def)

lemma vote_transition_safe:
  assumes "vote_transition env clock signers versioned vs'" "\<not> is_uninitialized versioned" "vs = convert_to_current versioned"
    and usable: "voters_usable clock vs" and ok: "tower_ok vs"
  shows "authority_respected env clock signers vs vs' \<and> voters_usable clock vs' \<and> tower_ok vs' \<and> tower_follows vs vs'"
proof -
  have same: ?thesis if "authority_respected env clock signers vs vs' \<and> voters_usable clock vs' \<and> same_tower vs vs'"
    using that ok tower_ok_same tower_follows_same by blast
  have plain: ?thesis if "ballot vs' = ballot vs" "vs_authorized_voters vs' = vs_authorized_voters vs"
    "vs_prior_voters vs' = vs_prior_voters vs" "signs (ve_sha256 env) signers (vs_authorized_withdrawer vs)"
    by (rule same) (rule plain_transition_authority [OF usable that])
  have voted: ?thesis
    if run: "get_and_update_authorized_voter (ck_epoch clock) vs = (Inr voter, vs0)" and v: "voter \<in> set signers"
      and kept: "same_authority vs0 vs'" and tower: "tower_ok vs0 \<Longrightarrow> tower_ok vs' \<and> tower_follows vs0 vs'" for voter vs0
  proof -
    note auth = ballot_transition_authority [OF usable run v kept]
    then have "tower_ok vs0" "tower_follows vs vs0" using ok tower_ok_same tower_follows_same by blast+
    then show ?thesis using auth tower tower_follows_trans by blast
  qed
  from assms(1) show ?thesis
  proof cases
    case (initialize init)
    then show ?thesis using assms(2) by simp
  next
    case (set_voter keys target key)
    then show ?thesis by (intro same voter_transition_authority [OF usable]) (simp_all add: assms(3))
  next
    case (cast_vote slot_hashes voter vs0 vote vs1)
    have stamp: "same_authority vs1 vs'" "same_tower vs1 vs'"
      using cast_vote(6) keepsD [OF keeps_authority_timestamp] keepsD [OF keeps_same_tower_timestamp] auth.R_refl tower.R_refl by blast+
    have "same_authority vs0 vs'"
      using keepsD [OF keeps_authority_process_vote cast_vote(5)] stamp(1) auth.R_trans by blast
    moreover have "tower_ok vs' \<and> tower_follows vs0 vs'" if "tower_ok vs0"
      using process_vote_tower [OF that cast_vote(5)] stamp(2) tower_ok_same tower_follows_same tower_follows_trans by blast
    ultimately show ?thesis using voted cast_vote(3,4) assms(3) by blast
  next
    case (update_votes slot_hashes voter vs0 update)
    then show ?thesis
      using voted [of voter vs0] keepsD [OF keeps_authority_update update_votes(5)] update_tower [OF _ update_votes(5)] assms(3) by blast
  qed (rule plain; simp add: assms(3) ballot_def signs_def)+
qed

subsection \<open>A concrete vote account\<close>

text \<open>
  The codec of the example stores the commission in one byte: it reads and writes the
  states that differ from \<open>example_vote_state\<close> in the commission.
\<close>

definition example_vote_state :: vote_state where
  "example_vote_state = (vote_state_new example_vote_init example_clock)\<lparr>
     vs_votes := vs_votes example_votes, vs_root_slot := vs_root_slot example_votes\<rparr>"

definition example_vote_codec :: "vote_state_versions bincode" where
  "example_vote_codec = \<lparr>
     bc_serialize = (\<lambda>st. Some [vs_commission (convert_to_current st)]),
     bc_serialized_size = (\<lambda>_. Some 1),
     bc_serialize_into = (\<lambda>st d. if d = [] then None else Some [vs_commission (convert_to_current st)]),
     bc_deserialize = (\<lambda>d. case d of [] \<Rightarrow> None | c # _ \<Rightarrow> Some (CurrentState (example_vote_state\<lparr>vs_commission := c\<rparr>)))\<rparr>"

definition example_vote_env :: vote_env where
  "example_vote_env = \<lparr>
     ve_sysvar_cache = sysvar_cache_default\<lparr>sc_clock := Some example_clock, sc_epoch_schedule := epoch_schedule_default\<rparr>,
     ve_sha256 = example_sha256, ve_state = example_vote_codec,
     ve_decode = (\<lambda>_ bs. if bs = [] then None else Some (UpdateCommission (hd bs))),
     ve_add_vote_latency = False, ve_timely_vote_credits = False, ve_deprecate_legacy_vote = False,
     ve_allow_commission_decrease = True, ve_commission_first_half = True\<rparr>"

definition example_vote_accounts :: "(pubkey \<times> account) list" where
  "example_vote_accounts =
     [(vote_program_id, account_new 1 0 native_loader_id),
      (replicate 32 8, (account_new 2000000 0 vote_program_id)\<lparr>acc_data := [10]\<rparr>),
      (replicate 32 3, account_default)]"

abbreviation vote_metas :: "instruction_account list" where
  "vote_metas \<equiv> [example_meta 1 False True, example_meta 2 True False]"

abbreviation vote_tx :: transaction_context where
  "vote_tx \<equiv> example_context example_vote_accounts vote_metas [7]"

lemma example_epoch_schedule: "\<exists>es. epoch_schedule_default = Some es"
  by (simp add: epoch_schedule_default_def epoch_schedule_custom_def DEFAULT_SLOTS_PER_EPOCH_def MINIMUM_SLOTS_PER_EPOCH_def Let_def)

lemma vote_example_signers: "get_signers (example_ic vote_metas [7]) vote_tx = Inr [replicate 32 3]"
  by (simp add: get_signers_def example_ic_def example_meta_def example_context_def
      get_key_of_account_at_index_def vec_get_def example_vote_accounts_def List.insert_def)

lemma example_vote_state_withdrawer [simp]: "vs_authorized_withdrawer example_vote_state = replicate 32 3"
  by (simp add: example_vote_state_def vote_state_new_def example_vote_init_def)

lemma example_vote_state_commission [simp]: "vs_commission example_vote_state = 10"
  "example_vote_state\<lparr>vs_commission := 10\<rparr> = example_vote_state"
  by (simp_all add: example_vote_state_def vote_state_new_def example_vote_init_def)

lemma vote_example_account:
  "tx_index (example_ic vote_metas [7]) 0 = 1" "acc_data (account_at vote_tx 1) = [10]"
  by (simp_all add: example_ic_def example_meta_def example_vote_accounts_def example_context_def ta_new_def refcell_new_def account_at_def)

lemma vote_example_run: "\<exists>tc'. vote_process_instruction example_vote_env vote_tx = (Inr (), tc')"
proof -
  obtain es where es: "epoch_schedule_default = Some es" using example_epoch_schedule by blast
  have "\<exists>tc'. vote_in_frame example_vote_env (example_ic vote_metas [7]) vote_tx = (Inr (), tc')"
    using vote_example_signers
    by (simp add: vote_in_frame_def vote_on_account_def limited_deserialize_def update_commission_def get_epoch_schedule_def
        get_clock_def get_vote_state_def get_state_def example_vote_codec_def is_commission_increase_def verify_authorized_signer_def
        set_vote_account_state_def make_room_for_current_def set_state_def get_data_mut_def can_data_be_changed_def write_data_def
        example_vote_env_def example_vote_accounts_def example_eval Let_def ok_or_def and_then_def get_signers_def List.insert_def es)
  then show ?thesis by (simp add: vote_process_instruction_def bind_apply reads_apply current_example)
qed

lemma vote_example_ok:
  "tower_ok example_vote_state" "voters_usable example_clock example_vote_state" "\<not> is_uninitialized (CurrentState example_vote_state)"
proof -
  show "tower_ok example_vote_state" 
    using example_votes_ok tower_ok_same [of example_votes example_vote_state] by (simp add: same_tower_def example_vote_state_def)
  show "voters_usable example_clock example_vote_state"
    by (simp add: voters_usable_def example_vote_state_def vote_state_new_def vote_state_default_def example_clock_def voters_ok_def
        circ_buf_ok_def authorized_voters_new_def circ_buf_default_def MAX_ITEMS_def)
  show "\<not> is_uninitialized (CurrentState example_vote_state)"
    by (simp add: example_vote_state_def vote_state_new_def authorized_voters_new_def)
qed

subsection \<open>Properties\<close>

text \<open>
  C4: the vote program against its specification. When the program succeeds, its first account belongs to the vote program
  and the accounts have changed by exactly one step of the specification: either the vote state that
  the account holds made one of the transitions, with the signatures that transition needs, and
  nothing but the data of this account changed; or the withdrawer signed, and lamports moved from the
  vote account, which stays rent exempt or is closed, to the second account.
\<close>

theorem vote_program_refines:
  assumes "get_current_instruction_context tc = Inr ic" "vote_process_instruction env tc = (Inr (), tc')"
  shows "acc_owner (account_at tc (tx_index ic 0)) = vote_program_id \<and>
    (\<exists>signers. get_signers ic tc = Inr signers \<and> vote_ledger_step env ic signers (account_at tc) (account_at tc'))"
  by (rule vote_program_ledger_step [OF assms])

theorem vote_program_refines_witness:
  "\<exists>tc'. vote_process_instruction example_vote_env vote_tx = (Inr (), tc') \<and>
     vote_ledger_step example_vote_env (example_ic vote_metas [7]) [replicate 32 3] (account_at vote_tx) (account_at tc')"
proof -
  obtain tc' where run: "vote_process_instruction example_vote_env vote_tx = (Inr (), tc')" using vote_example_run by blast
  show ?thesis using vote_program_refines [OF current_example run] run vote_example_signers by auto
qed

text \<open>
  C5: a vote account is protected. When the vote program succeeds on an initialized account, either lamports were
  withdrawn with the signature of the withdrawer, or no account but the first one changed and the new vote
  state obeys its authorities: the withdrawer, the commission and the identity change only when the
  withdrawer signs, the votes and credits only when the voter of the epoch signs, and the voter
  of an epoch only when one of the two signs and the epoch is past the leader schedule. The new
  tower is well formed and follows the old one, and the state can serve as the input of
  the next instruction.
\<close>

theorem vote_account_protected:
  assumes current: "get_current_instruction_context tc = Inr ic" and run: "vote_process_instruction env tc = (Inr (), tc')"
    and state: "bc_deserialize (ve_state env) (acc_data (account_at tc (tx_index ic 0))) = Some versioned"
      "\<not> is_uninitialized versioned" "vs = convert_to_current versioned"
    and clock: "sc_clock (ve_sysvar_cache env) = Some clock" and ok: "voters_usable clock vs" "tower_ok vs"
  shows "\<exists>signers. get_signers ic tc = Inr signers \<and>
    ((\<exists>rent lamports a'. sc_rent (ve_sysvar_cache env) = Some rent \<and> vs_authorized_withdrawer vs \<in> set signers \<and>
        withdraw_leaves env clock rent signers lamports (account_at tc (tx_index ic 0)) a' \<and>
        moved_lamports (tx_index ic 0) (tx_index ic 1) lamports ((account_at tc)(tx_index ic 0 := a')) (account_at tc')) \<or>
     (\<exists>vs' a'. account_at tc' = (account_at tc)(tx_index ic 0 := a') \<and> stored_in env vs' (account_at tc (tx_index ic 0)) a' \<and>
        authority_respected env clock signers vs vs' \<and> voters_usable clock vs' \<and> tower_ok vs' \<and> tower_follows vs vs'))"
proof -
  obtain signers c a' where s: "get_signers ic tc = Inr signers" "cached_clock env c"
    and outcome: "vote_account_step env c signers (account_at tc (tx_index ic 0)) a' \<and> account_at tc' = (account_at tc)(tx_index ic 0 := a') \<or>
      (\<exists>rent lamports. sc_rent (ve_sysvar_cache env) = Some rent \<and> withdraw_leaves env c rent signers lamports (account_at tc (tx_index ic 0)) a' \<and>
         moved_lamports (tx_index ic 0) (tx_index ic 1) lamports ((account_at tc)(tx_index ic 0 := a')) (account_at tc'))"
    using vote_program_ledger_step [OF current run] unfolding vote_ledger_step_def by blast
  have "c = clock" using s(2) clock by (simp add: cached_clock_def)
  from outcome show ?thesis
  proof (elim disjE conjE exE)
    assume "vote_account_step env c signers (account_at tc (tx_index ic 0)) a'" and at: "account_at tc' = (account_at tc)(tx_index ic 0 := a')"
    then obtain vs' where vs': "vote_transition env clock signers versioned vs'" "stored_in env vs' (account_at tc (tx_index ic 0)) a'"
      using state(1) \<open>c = clock\<close> unfolding vote_account_step_def by auto
    then show ?thesis using vote_transition_safe [OF vs'(1) state(2,3) ok] at s(1) by blast
  next
    fix rent lamports
    assume w: "sc_rent (ve_sysvar_cache env) = Some rent" "withdraw_leaves env c rent signers lamports (account_at tc (tx_index ic 0)) a'"
      "moved_lamports (tx_index ic 0) (tx_index ic 1) lamports ((account_at tc)(tx_index ic 0 := a')) (account_at tc')"
    then have "vs_authorized_withdrawer vs \<in> set signers" using state(1,3) by (auto simp: withdraw_leaves_def)
    then show ?thesis using w s(1) \<open>c = clock\<close> by blast
  qed
qed

theorem vote_account_protected_witness:
  "\<exists>tc'. vote_process_instruction example_vote_env vote_tx = (Inr (), tc') \<and>
     (\<exists>vs' a'. account_at tc' = (account_at vote_tx)(1 := a') \<and> stored_in example_vote_env vs' (account_at vote_tx 1) a' \<and>
        authority_respected example_vote_env example_clock [replicate 32 3] example_vote_state vs' \<and> voters_usable example_clock vs' \<and>
        tower_ok vs' \<and> tower_follows example_vote_state vs')"
proof -
  obtain tc' where run: "vote_process_instruction example_vote_env vote_tx = (Inr (), tc')" using vote_example_run by blast
  show ?thesis
    using vote_account_protected [OF current_example run, of "CurrentState example_vote_state" example_vote_state example_clock]
      vote_example_ok vote_example_account vote_example_signers run
    by (auto simp: example_vote_env_def example_vote_codec_def sysvar_cache_default_def)
qed

end
