(* ===== verification/Stake_Activation.thy ===== *)
theory Stake_Activation
  imports Stake_State
begin

section \<open>Warm-up and cool-down\<close>

text \<open>
  The status of a delegation in an epoch is well formed whatever the stake history says and however the
  floating-point arithmetic rounds, and cooling down never gives stake back.
\<close>

lemma activating_loop_le:
  "e \<le> dg_stake d \<Longrightarrow> activating_loop d history new_rate target prev cluster e \<le> dg_stake d"
proof (induction d history new_rate target prev cluster e rule: activating_loop.induct)
  case (1 d history new_rate target prev cluster e)
  then show ?case by (subst activating_loop.simps) (auto simp: Let_def not_le less_imp_le split: option.split)
qed

lemma activating_loop_target:
  "dg_deactivation_epoch d \<le> target \<Longrightarrow> dg_deactivation_epoch d \<le> target' \<Longrightarrow>
   activating_loop d history new_rate target' prev cluster e = activating_loop d history new_rate target prev cluster e"
proof (induction d history new_rate target prev cluster e rule: activating_loop.induct)
  case (1 d history new_rate target prev cluster e)
  show ?case
  proof (cases "dg_deactivation_epoch d \<le> prev + 1")
    case True
    then show ?thesis by (simp add: activating_loop.simps [of _ _ _ _ prev] Let_def)
  next
    case False
    then have "\<not> target \<le> prev + 1" "\<not> target' \<le> prev + 1" using "1.prems" by auto
    then show ?thesis using False "1.IH" [OF refl _ refl refl refl] "1.prems"
      by (simp add: activating_loop.simps [of _ _ _ _ prev] Let_def split: option.split)
  qed
qed

lemma saturating_sub_le: "saturating_sub a b \<le> (a :: u64)"
  by (simp add: saturating_sub_def word_le_nat_alt unat_sub)

lemma deactivating_loop_le: "deactivating_loop history new_rate target prev cluster e \<le> e"
proof (induction history new_rate target prev cluster e rule: deactivating_loop.induct)
  case (1 history new_rate target prev cluster e)
  have le: "saturating_sub e v \<le> e" for v by (rule saturating_sub_le)
  show ?case
    using 1 [OF refl _ refl refl] order_trans [OF _ le]
    by (subst deactivating_loop.simps) (auto simp: Let_def saturating_sub_le split: option.split)
qed

lemma deactivating_loop_mono:
  "target \<le> target' \<Longrightarrow>
   deactivating_loop history new_rate target' prev cluster e \<le> deactivating_loop history new_rate target prev cluster e"
proof (induction history new_rate target prev cluster e rule: deactivating_loop.induct)
  case (1 history new_rate target prev cluster e)
  show ?case
  proof (cases "target \<le> prev + 1")
    case True
    then show ?thesis
      by (simp add: deactivating_loop.simps [of _ _ _ prev] Let_def deactivating_loop_le split: option.split)
  next
    case False
    then have "\<not> target' \<le> prev + 1" using "1.prems" by auto
    then show ?thesis using False "1.IH" [OF refl _ refl refl] "1.prems"
      by (simp add: deactivating_loop.simps [of _ _ _ prev] Let_def split: option.split)
  qed
qed

text \<open>A delegation as the program makes them: bootstrap, or activated no later than deactivated.\<close>

definition delegation_ok :: "delegation \<Rightarrow> bool" where
  "delegation_ok d \<longleftrightarrow> is_bootstrap d \<or> dg_activation_epoch d \<le> dg_deactivation_epoch d"

lemma stake_and_activating_sum:
  assumes "stake_and_activating d target history new_rate = (e, a)"
  shows "unat e + unat a \<le> unat (dg_stake d)"
    and "is_bootstrap d \<or> dg_activation_epoch d \<le> target \<and> dg_activation_epoch d \<noteq> dg_deactivation_epoch d \<Longrightarrow>
      unat e + unat a = unat (dg_stake d)"
proof -
  have le: "activating_loop d history new_rate target prev cluster 0 \<le> dg_stake d" for prev cluster
    by (rule activating_loop_le) simp
  show "unat e + unat a \<le> unat (dg_stake d)"
    using assms le by (auto simp: stake_and_activating_def Let_def unat_sub word_le_nat_alt split: if_splits option.splits)
  show "unat e + unat a = unat (dg_stake d)"
    if "is_bootstrap d \<or> dg_activation_epoch d \<le> target \<and> dg_activation_epoch d \<noteq> dg_deactivation_epoch d"
    using assms le that le [unfolded word_le_nat_alt]
    by (auto simp: stake_and_activating_def Let_def unat_sub split: if_splits option.splits)
qed

lemma stake_and_activating_later:
  assumes "delegation_ok d" "dg_deactivation_epoch d \<le> target" "dg_deactivation_epoch d \<le> target'"
  shows "fst (stake_and_activating d target' history new_rate) = fst (stake_and_activating d target history new_rate)"
proof (cases "is_bootstrap d \<or> dg_activation_epoch d = dg_deactivation_epoch d")
  case True
  then show ?thesis by (auto simp: stake_and_activating_def)
next
  case False
  then have "dg_activation_epoch d < dg_deactivation_epoch d" using assms(1) by (auto simp: delegation_ok_def)
  then have "dg_activation_epoch d < target" "dg_activation_epoch d < target'" using assms(2,3) by auto
  then show ?thesis
    using activating_loop_target [OF assms(2,3)] by (auto simp: stake_and_activating_def Let_def split: option.split)
qed

abbreviation stake_status :: "delegation \<Rightarrow> u64 \<Rightarrow> stake_history \<Rightarrow> u64 option \<Rightarrow> stake_history_entry" where
  "stake_status \<equiv> stake_activating_and_deactivating"

lemmas stake_status_defs = stake_activating_and_deactivating_def with_effective_def with_effective_and_activating_def
  with_deactivating_def

lemma stake_status_le:
  "unat (sh_effective (stake_status d epoch history rate)) + unat (sh_activating (stake_status d epoch history rate)) \<le> unat (dg_stake d)"
proof -
  obtain e a where ea: "stake_and_activating d epoch history rate = (e, a)" by fastforce
  have dl: "unat (deactivating_loop h r t p c e) \<le> unat e" for h r t p c
    using deactivating_loop_le by (simp add: word_le_nat_alt)
  show ?thesis
    using ea stake_and_activating_sum(1) [OF ea] dl by (auto simp: stake_status_defs split: option.split intro: order_trans [OF dl])
qed

text \<open>
  C12: the status of a delegation. In every epoch, whatever the stake history holds and however the shares are rounded, the
  effective and the activating stake add up to at most the delegated stake, and to all of it from the
  activation on until a deactivation; nothing is effective before the activation; stake that is
  deactivating is the stake that is still effective, and nothing is activating then. Once a delegation
  is deactivated, its effective stake never grows again.
\<close>

theorem stake_status_sound:
  "unat (sh_effective (stake_status d epoch history rate)) + unat (sh_activating (stake_status d epoch history rate)) \<le> unat (dg_stake d) \<and>
    (sh_deactivating (stake_status d epoch history rate) = 0 \<or>
       sh_deactivating (stake_status d epoch history rate) = sh_effective (stake_status d epoch history rate) \<and>
       sh_activating (stake_status d epoch history rate) = 0) \<and>
    (epoch < dg_activation_epoch d \<and> \<not> is_bootstrap d \<and> delegation_ok d \<longrightarrow>
       stake_status d epoch history rate = with_effective 0) \<and>
    (epoch < dg_deactivation_epoch d \<and> (is_bootstrap d \<or> dg_activation_epoch d \<le> epoch) \<longrightarrow>
       unat (sh_effective (stake_status d epoch history rate)) + unat (sh_activating (stake_status d epoch history rate)) = unat (dg_stake d)) \<and>
    (delegation_ok d \<and> dg_deactivation_epoch d \<le> epoch \<and> epoch \<le> later \<longrightarrow>
       sh_effective (stake_status d later history rate) \<le> sh_effective (stake_status d epoch history rate))"
proof -
  obtain e a where ea: "stake_and_activating d epoch history rate = (e, a)" by fastforce
  note sums = stake_and_activating_sum [OF ea]
  have "sh_deactivating (stake_status d epoch history rate) = 0 \<or>
      sh_deactivating (stake_status d epoch history rate) = sh_effective (stake_status d epoch history rate) \<and>
      sh_activating (stake_status d epoch history rate) = 0"
    using ea by (auto simp: stake_status_defs split: option.split)
  moreover have "stake_status d epoch history rate = with_effective 0"
    if "epoch < dg_activation_epoch d" "\<not> is_bootstrap d" "delegation_ok d"
    using that by (auto simp: stake_status_defs stake_and_activating_def delegation_ok_def)
  moreover have "unat (sh_effective (stake_status d epoch history rate)) + unat (sh_activating (stake_status d epoch history rate)) = unat (dg_stake d)"
    if "epoch < dg_deactivation_epoch d" "is_bootstrap d \<or> dg_activation_epoch d \<le> epoch"
  proof -
    have "is_bootstrap d \<or> dg_activation_epoch d \<le> epoch \<and> dg_activation_epoch d \<noteq> dg_deactivation_epoch d" using that by auto
    from sums(2) [OF this] show ?thesis using that(1) ea by (auto simp: stake_status_defs)
  qed
  moreover have "sh_effective (stake_status d later history rate) \<le> sh_effective (stake_status d epoch history rate)"
    if c: "delegation_ok d" "dg_deactivation_epoch d \<le> epoch" "epoch \<le> later"
  proof -
    obtain a' where later: "stake_and_activating d later history rate = (e, a')"
      using stake_and_activating_later [OF c(1,2) order_trans [OF c(2,3)]] ea by (metis fst_conv prod.collapse)
    show ?thesis
      using ea later c deactivating_loop_mono [OF c(3)] deactivating_loop_le
      by (auto simp: stake_status_defs not_less split: option.split)
  qed
  ultimately show ?thesis using stake_status_le by blast
qed

theorem stake_status_sound_witness:
  "unat (sh_effective (stake_status (delegation_new [] 100 7) 9 [] None)) +
     unat (sh_activating (stake_status (delegation_new [] 100 7) 9 [] None)) = 100"
  using stake_status_sound [of "delegation_new [] 100 7" 9 "[]" None 9] by (simp add: delegation_new_def)

end
