(* ===== verification/Stake_Ledger.thy ===== *)
theory Stake_Ledger
  imports Stake_Program Stake_Activation Account_Wp
begin

section \<open>What the stake program does to the ledger\<close>

text \<open>
  An abstract specification of the stake program on the accounts of a transaction, without borrows, account positions
  and sysvar accounts: one rule for each thing that can happen, with the states and balances of the accounts
  before and after, and the signatures that are needed. \<open>i\<close> is the stake account of an instruction and \<open>j\<close> the second
  account: the destination of a split, a withdrawal or a redelegation, the source of a merge.
\<close>

definition state_of :: "stake_env \<Rightarrow> account \<Rightarrow> stake_state option" where
  "state_of env a = bc_deserialize (se_state env) (acc_data a)"

text \<open>Among the first \<open>n\<close> accounts, the one at \<open>i\<close> is a stake account in the state \<open>st\<close>.\<close>

definition stake_account :: "stake_env \<Rightarrow> nat \<Rightarrow> ledger \<Rightarrow> nat \<Rightarrow> stake_state \<Rightarrow> bool" where
  "stake_account env n m i st \<longleftrightarrow> i < n \<and> acc_owner (m i) = stake_program_id \<and> state_of env (m i) = Some st"

text \<open>The account \<open>a\<close> with a new state and a new balance.\<close>

definition updated :: "stake_env \<Rightarrow> account \<Rightarrow> stake_state \<Rightarrow> u64 \<Rightarrow> account \<Rightarrow> bool" where
  "updated env a st lamports a' \<longleftrightarrow>
     a' = a\<lparr>acc_data := acc_data a', acc_lamports := lamports\<rparr> \<and> state_of env a' = Some st"

text \<open>The vote account with the key \<open>voter\<close>.\<close>

definition votes_as :: "stake_env \<Rightarrow> pubkey list \<Rightarrow> ledger \<Rightarrow> pubkey \<Rightarrow> vote_state \<Rightarrow> bool" where
  "votes_as env keys m voter vs \<longleftrightarrow> (\<exists>k versioned. keys ! k = voter \<and> acc_owner (m k) = vote_program_id \<and>
     bc_deserialize (se_vote_state env) (acc_data (m k)) = Some versioned \<and> vs = convert_to_current versioned)"

fun with_meta :: "stake_meta \<Rightarrow> stake_state \<Rightarrow> stake_state" where
  "with_meta meta (StakeInitialized _) = StakeInitialized meta"
| "with_meta meta (Staked _ s flags) = Staked meta s flags"
| "with_meta meta st = st"

inductive stake_step ::
  "stake_env \<Rightarrow> nat \<Rightarrow> pubkey list \<Rightarrow> pubkey list \<Rightarrow> nat \<Rightarrow> nat \<Rightarrow> ledger \<Rightarrow> ledger \<Rightarrow> bool"
  for env n keys signers i j where
  query: "stake_step env n keys signers i j m m"
| initialize: "stake_account env n m i StakeUninitialized \<Longrightarrow> get_rent (se_sysvar_cache env) = Inr rent \<Longrightarrow>
    reserve = minimum_balance rent STAKE_STATE_SIZE \<Longrightarrow> reserve \<le> acc_lamports (m i) \<Longrightarrow>
    updated env (m i) (StakeInitialized \<lparr>sm_rent_exempt_reserve = reserve, sm_authorized = a, sm_lockup = l\<rparr>)
      (acc_lamports (m i)) a' \<Longrightarrow>
    stake_step env n keys signers i j m (m(i := a'))"
| authorize: "stake_account env n m i st \<Longrightarrow> stake_state_meta st = Some meta \<Longrightarrow> get_clock (se_sysvar_cache env) = Inr clock \<Longrightarrow>
    \<forall>k\<in>set ks. signs (se_sha256 env) signers k \<Longrightarrow>
    authorized_authorize (sm_authorized meta) ks new_key kind (Some (sm_lockup meta, clock, custodian)) = Inr a \<Longrightarrow>
    updated env (m i) (with_meta (meta\<lparr>sm_authorized := a\<rparr>) st) (acc_lamports (m i)) a' \<Longrightarrow>
    stake_step env n keys signers i j m (m(i := a'))"
| set_lockup: "stake_account env n m i st \<Longrightarrow> stake_state_meta st = Some meta \<Longrightarrow> get_clock (se_sysvar_cache env) = Inr clock \<Longrightarrow>
    meta_set_lockup meta lockup signers clock = Inr meta' \<Longrightarrow>
    updated env (m i) (with_meta meta' st) (acc_lamports (m i)) a' \<Longrightarrow>
    stake_step env n keys signers i j m (m(i := a'))"
| delegate: "stake_account env n m i (StakeInitialized meta) \<Longrightarrow> get_clock (se_sysvar_cache env) = Inr clock \<Longrightarrow>
    sa_staker (sm_authorized meta) \<in> set signers \<Longrightarrow>
    amount = saturating_sub (acc_lamports (m i)) (sm_rent_exempt_reserve meta) \<Longrightarrow> get_minimum_delegation env \<le> amount \<Longrightarrow>
    votes_as env keys m voter vs \<Longrightarrow>
    updated env (m i) (Staked meta (new_stake amount voter vs (ck_epoch clock)) flags_empty) (acc_lamports (m i)) a' \<Longrightarrow>
    stake_step env n keys signers i j m (m(i := a'))"
| delegate_again: "stake_account env n m i (Staked meta s flags) \<Longrightarrow> get_clock (se_sysvar_cache env) = Inr clock \<Longrightarrow>
    sa_staker (sm_authorized meta) \<in> set signers \<Longrightarrow>
    amount = saturating_sub (acc_lamports (m i)) (sm_rent_exempt_reserve meta) \<Longrightarrow> get_minimum_delegation env \<le> amount \<Longrightarrow>
    votes_as env keys m voter vs \<Longrightarrow> redelegate_stake env s amount voter vs clock history = Inr s' \<Longrightarrow>
    updated env (m i) (Staked meta s' flags) (acc_lamports (m i)) a' \<Longrightarrow>
    stake_step env n keys signers i j m (m(i := a'))"
| deactivate: "stake_account env n m i (Staked meta s flags) \<Longrightarrow> get_clock (se_sysvar_cache env) = Inr clock \<Longrightarrow>
    sa_staker (sm_authorized meta) \<in> set signers \<or>
      (\<exists>vs. votes_as env keys m (dg_voter_pubkey (sk_delegation s)) vs \<and>
         eligible_for_deactivate_delinquent (vs_epoch_credits vs) (ck_epoch clock)) \<Longrightarrow>
    deactivate_stake env s flags (ck_epoch clock) = Inr (s', flags') \<Longrightarrow>
    updated env (m i) (Staked meta s' flags') (acc_lamports (m i)) a' \<Longrightarrow>
    stake_step env n keys signers i j m (m(i := a'))"
| split_staked: "stake_account env n m i (Staked meta s flags) \<Longrightarrow> stake_account env n m j StakeUninitialized \<Longrightarrow> i \<noteq> j \<Longrightarrow>
    sa_staker (sm_authorized meta) \<in> set signers \<Longrightarrow>
    check_split_amounts env lamports meta (get_minimum_delegation env) active (acc_lamports (m i)) (acc_lamports (m j))
      STAKE_STATE_SIZE = Inr (rest, reserve) \<Longrightarrow>
    split_stake_amounts meta s lamports (get_minimum_delegation env) rest reserve (acc_lamports (m j)) = Inr (delta, amount) \<Longrightarrow>
    stake_split s delta amount = Inr (s1, s2) \<Longrightarrow> unat (acc_lamports (m j)) + unat lamports < 2 ^ 64 \<Longrightarrow>
    updated env (m i) (if lamports = acc_lamports (m i) then StakeUninitialized else Staked meta s1 flags)
      (acc_lamports (m i) - lamports) a' \<Longrightarrow>
    updated env (m j) (Staked (meta\<lparr>sm_rent_exempt_reserve := reserve\<rparr>) s2 flags) (acc_lamports (m j) + lamports) b' \<Longrightarrow>
    stake_step env n keys signers i j m (m(i := a', j := b'))"
| split_initialized: "stake_account env n m i (StakeInitialized meta) \<Longrightarrow> stake_account env n m j StakeUninitialized \<Longrightarrow> i \<noteq> j \<Longrightarrow>
    sa_staker (sm_authorized meta) \<in> set signers \<Longrightarrow>
    check_split_amounts env lamports meta 0 False (acc_lamports (m i)) (acc_lamports (m j)) STAKE_STATE_SIZE
      = Inr (rest, reserve) \<Longrightarrow> unat (acc_lamports (m j)) + unat lamports < 2 ^ 64 \<Longrightarrow>
    updated env (m i) (if lamports = acc_lamports (m i) then StakeUninitialized else StakeInitialized meta)
      (acc_lamports (m i) - lamports) a' \<Longrightarrow>
    updated env (m j) (StakeInitialized (meta\<lparr>sm_rent_exempt_reserve := reserve\<rparr>)) (acc_lamports (m j) + lamports) b' \<Longrightarrow>
    stake_step env n keys signers i j m (m(i := a', j := b'))"
| split_uninitialized: "stake_account env n m i StakeUninitialized \<Longrightarrow> stake_account env n m j StakeUninitialized \<Longrightarrow>
    keys ! i \<in> set signers \<Longrightarrow> updated env (m i) StakeUninitialized (acc_lamports (m i)) a' \<Longrightarrow>
    moved_lamports i j lamports (m(i := a')) m' \<Longrightarrow>
    stake_step env n keys signers i j m m'"
| merge: "stake_account env n m i st \<Longrightarrow> stake_account env n m j source_st \<Longrightarrow> i \<noteq> j \<Longrightarrow>
    get_clock (se_sysvar_cache env) = Inr clock \<Longrightarrow>
    get_if_mergeable env st (acc_lamports (m i)) clock history = Inr kind \<Longrightarrow>
    get_if_mergeable env source_st (acc_lamports (m j)) clock history = Inr source_kind \<Longrightarrow>
    sa_staker (sm_authorized (merge_kind_meta kind)) \<in> set signers \<Longrightarrow> merge_kind_merge kind source_kind clock = Inr merged \<Longrightarrow>
    unat (acc_lamports (m i)) + unat (acc_lamports (m j)) < 2 ^ 64 \<Longrightarrow>
    updated env (m i) (option_unwrap_or merged st) (acc_lamports (m i) + acc_lamports (m j)) a' \<Longrightarrow>
    updated env (m j) StakeUninitialized 0 b' \<Longrightarrow>
    stake_step env n keys signers i j m (m(i := a', j := b'))"
| withdraw: "stake_account env n m i st \<Longrightarrow> get_clock (se_sysvar_cache env) = Inr clock \<Longrightarrow> w \<in> set signers \<Longrightarrow>
    withdraw_limits st (keys ! i) [w] clock history new_rate = Inr (lockup, reserve, is_staked) \<Longrightarrow>
    set_option custodian \<subseteq> set signers \<Longrightarrow> \<not> is_in_force lockup clock custodian \<Longrightarrow>
    unat lamports + unat reserve \<le> unat (acc_lamports (m i)) \<or> \<not> is_staked \<and> lamports = acc_lamports (m i) \<Longrightarrow>
    updated env (m i) (if lamports = acc_lamports (m i) then StakeUninitialized else st) (acc_lamports (m i)) a' \<Longrightarrow>
    moved_lamports i j lamports (m(i := a')) m' \<Longrightarrow>
    stake_step env n keys signers i j m m'"
| redelegate: "stake_account env n m i (Staked meta s flags) \<Longrightarrow> stake_account env n m j StakeUninitialized \<Longrightarrow> i \<noteq> j \<Longrightarrow>
    se_redelegate env \<Longrightarrow> get_clock (se_sysvar_cache env) = Inr clock \<Longrightarrow> get_rent (se_sysvar_cache env) = Inr rent \<Longrightarrow>
    get_stake_status env s clock = Inr status \<Longrightarrow>
    sh_effective status \<noteq> 0 \<and> sh_activating status = 0 \<and> sh_deactivating status = 0 \<Longrightarrow>
    sa_staker (sm_authorized meta) \<in> set signers \<Longrightarrow> dg_voter_pubkey (sk_delegation s) \<noteq> voter \<Longrightarrow> votes_as env keys m voter vs \<Longrightarrow>
    deactivate_stake env s flags (ck_epoch clock) = Inr (s', flags') \<Longrightarrow>
    sh_effective status \<le> acc_lamports (m i) \<Longrightarrow> unat (acc_lamports (m j)) + unat (sh_effective status) < 2 ^ 64 \<Longrightarrow>
    reserve = minimum_balance rent STAKE_STATE_SIZE \<Longrightarrow>
    amount = saturating_sub (acc_lamports (m j) + sh_effective status) reserve \<Longrightarrow> get_minimum_delegation env \<le> amount \<Longrightarrow>
    updated env (m i) (Staked meta s' flags') (acc_lamports (m i) - sh_effective status) a' \<Longrightarrow>
    updated env (m j) (Staked (meta\<lparr>sm_rent_exempt_reserve := reserve\<rparr>) (new_stake amount voter vs (ck_epoch clock))
      MUST_FULLY_ACTIVATE_BEFORE_DEACTIVATION_IS_PERMITTED) (acc_lamports (m j) + sh_effective status) b' \<Longrightarrow>
    stake_step env n keys signers i j m (m(i := a', j := b'))"

end
