(* ===== verification/Stake_Refinement.thy ===== *)
theory Stake_Refinement
  imports Stake_Ledger
begin

section \<open>The stake program refines its specification\<close>

text \<open>
  Each handler of the stake program is taken apart with the rules of \<open>Account_Wp\<close> and ends in a rule of
  the specification. The codec has to read back the states it has written.
\<close>

lemma wp_case_stake_state:
  "(st = StakeUninitialized \<Longrightarrow> wp t0 fl m1 P M) \<Longrightarrow> (\<And>meta. st = StakeInitialized meta \<Longrightarrow> wp t0 fl (m2 meta) P M) \<Longrightarrow>
   (\<And>meta s flags. st = Staked meta s flags \<Longrightarrow> wp t0 fl (m3 meta s flags) P M) \<Longrightarrow> (st = RewardsPool \<Longrightarrow> wp t0 fl m4 P M) \<Longrightarrow>
   wp t0 fl (case st of StakeUninitialized \<Rightarrow> m1 | StakeInitialized meta \<Rightarrow> m2 meta | Staked meta s flags \<Rightarrow> m3 meta s flags | RewardsPool \<Rightarrow> m4) P M"
  by (cases st) simp_all

lemma wp_write_state:
  assumes "reads_back (se_state env)" "ba_index b < num_accounts t0"
    and "\<And>a'. updated env (M (ba_index b)) st (acc_lamports (M (ba_index b))) a' \<Longrightarrow> P () (M(ba_index b := a'))"
  shows "wp t0 fl (set_state (se_state env) b st) P M"
proof (rule wp_set_state [OF assms(2)])
  fix M'
  assume "stored (se_state env) (ba_index b) st M M'"
  then obtain d where "M' = M(ba_index b := (M (ba_index b))\<lparr>acc_data := d\<rparr>)" "bc_deserialize (se_state env) d = Some st"
    using assms(1) by (blast elim: storedE)
  then show "P () M'" using assms(3) [of "(M (ba_index b))\<lparr>acc_data := d\<rparr>"] by (simp add: updated_def state_of_def)
qed

lemmas stake_wp_rules = wp_bind wp_return wp_throw wp_lift wp_fail_if wp_reads wp_gets wp_if wp_case_prod wp_case_option
  wp_with_instruction_account wp_checked_sub_lamports wp_checked_add_lamports wp_write_state wp_case_stake_state

lemma authorized_check_Inr:
  "authorized_check a signers Staker = Inr u \<longleftrightarrow> sa_staker a \<in> set signers"
  "authorized_check a signers StakeWithdrawer = Inr u \<longleftrightarrow> sa_withdrawer a \<in> set signers"
  by (simp_all add: authorized_check_def)

lemma validate_delegated_amount_Inr:
  "validate_delegated_amount env b meta tc = Inr amount \<longleftrightarrow>
     amount = saturating_sub (get_lamports b tc) (sm_rent_exempt_reserve meta) \<and> get_minimum_delegation env \<le> amount"
  by (auto simp: validate_delegated_amount_def Let_def not_less)

lemma updated_trans: "updated env a st l a' \<Longrightarrow> updated env a' st' l' a'' \<Longrightarrow> updated env a st' l' a''"
  by (cases a; cases a'; cases a'') (simp add: updated_def)

lemma updated_balance: "updated env a st l a' \<Longrightarrow> updated env a st l' (a'\<lparr>acc_lamports := l'\<rparr>)"
  by (cases a; cases a') (simp add: updated_def state_of_def)

lemma updated_self: "state_of env a = Some st \<Longrightarrow> updated env a st l (a\<lparr>acc_lamports := l\<rparr>)"
  by (cases a) (simp add: updated_def state_of_def)

lemma updated_fields: "updated env a st l a' \<Longrightarrow> acc_lamports a' = l \<and> acc_owner a' = acc_owner a \<and> state_of env a' = Some st"
  by (cases a; cases a') (simp add: updated_def)

subsection \<open>Handlers on one account\<close>

lemma wp_initialize:
  assumes i: "ba_index b = i" and "reads_back (se_state env)" "ba_index b < num_accounts t0" "acc_owner (M (ba_index b)) = stake_program_id"
    and "get_rent (se_sysvar_cache env) = Inr rent"
  shows "wp t0 fl (initialize env b a l rent) (\<lambda>_. stake_step env (num_accounts t0) keys signers i j M) M"
  unfolding i [symmetric] initialize_def Let_def
  by (intro stake_wp_rules assms(2,3))
    (auto simp: sees_reads ok_or_Inr stake_account_def state_of_def assms(3,4,5) intro!: stake_step.initialize)

lemma wp_authorize:
  assumes i: "ba_index b = i" and "reads_back (se_state env)" "ba_index b < num_accounts t0" "acc_owner (M (ba_index b)) = stake_program_id"
    and "get_clock (se_sysvar_cache env) = Inr clock" "\<forall>k\<in>set ks. signs (se_sha256 env) signers k"
  shows "wp t0 fl (stake_account_authorize env b ks new_key kind clock custodian)
    (\<lambda>_. stake_step env (num_accounts t0) keys signers i j M) M"
  unfolding i [symmetric] stake_account_authorize_def Let_def
  by (intro stake_wp_rules assms(2,3))
    (auto simp: sees_reads ok_or_Inr stake_account_def state_of_def and_then_Inr assms(3,4)
      intro!: stake_step.authorize [OF _ _ assms(5,6)])

lemma wp_set_lockup:
  assumes i: "ba_index b = i" and "reads_back (se_state env)" "ba_index b < num_accounts t0" "acc_owner (M (ba_index b)) = stake_program_id"
    and "get_clock (se_sysvar_cache env) = Inr clock"
  shows "wp t0 fl (set_lockup env b lockup signers clock) (\<lambda>_. stake_step env (num_accounts t0) keys signers i j M) M"
  unfolding i [symmetric] set_lockup_def
  by (intro stake_wp_rules assms(2,3))
    (auto simp: sees_reads ok_or_Inr stake_account_def state_of_def assms(3,4)
      intro!: stake_step.set_lockup [OF _ _ assms(5)])

lemma wp_authorize_with_seed:
  assumes i: "ba_index b = i" and "reads_back (se_state env)" "ba_index b < num_accounts t0" "acc_owner (M (ba_index b)) = stake_program_id"
    and "get_clock (se_sysvar_cache env) = Inr clock" and signers: "get_signers ic t0 = Inr signers"
  shows "wp t0 fl (authorize_with_seed env ic b base_index seed owner new_key kind clock custodian)
    (\<lambda>_. stake_step env (num_accounts t0) keys signers i j M) M"
  unfolding i [symmetric] authorize_with_seed_def
  by (intro stake_wp_rules wp_authorize [OF refl] assms(2,3,4,5))
    (auto simp: sees_reads signs_def map_err_def split: sum.splits dest: signing_key_in_signers [OF signers])

lemma wp_deactivate:
  assumes "reads_back (se_state env)" "ba_index b < num_accounts t0"
    and "\<And>meta s flags s' flags' a'. state_of env (M (ba_index b)) = Some (Staked meta s flags) \<Longrightarrow>
      sa_staker (sm_authorized meta) \<in> set signers \<Longrightarrow> deactivate_stake env s flags (ck_epoch clock) = Inr (s', flags') \<Longrightarrow>
      updated env (M (ba_index b)) (Staked meta s' flags') (acc_lamports (M (ba_index b))) a' \<Longrightarrow> P () (M(ba_index b := a'))"
  shows "wp t0 fl (deactivate env b clock signers) P M"
  unfolding deactivate_def
  by (intro stake_wp_rules assms(1,2)) (auto simp: sees_reads ok_or_Inr state_of_def authorized_check_Inr intro!: assms(3))

lemma wp_read_vote_account:
  assumes "\<And>r. acc_owner (M (ba_index b)) = vote_program_id \<Longrightarrow>
      r = ok_or (bc_deserialize (se_vote_state env) (acc_data (M (ba_index b)))) InvalidAccountData \<Longrightarrow>
      P (tc_account_keys t0 ! ba_index b, r) M"
  shows "wp t0 fl (read_vote_account env b) P M"
  unfolding read_vote_account_def by (intro stake_wp_rules) (auto simp: sees_reads intro: assms)

lemma votes_asI:
  "acc_owner (m k) = vote_program_id \<Longrightarrow> bc_deserialize (se_vote_state env) (acc_data (m k)) = Some versioned \<Longrightarrow>
   votes_as env keys m (keys ! k) (convert_to_current versioned)"
  unfolding votes_as_def by blast

lemmas delegate_simps = sees_reads ok_or_Inr stake_account_def state_of_def authorized_check_Inr validate_delegated_amount_Inr

lemma wp_delegate:
  assumes "reads_back (se_state env)" "acc_owner (M (tx_index ic i)) = stake_program_id"
    and clock: "get_clock (se_sysvar_cache env) = Inr clock"
  shows "wp t0 fl (delegate env ic i vote_index clock history signers)
    (\<lambda>_. stake_step env (num_accounts t0) (tc_account_keys t0) signers (tx_index ic i) j M) M"
  unfolding delegate_def
  apply (intro stake_wp_rules wp_read_vote_account assms(1))
  subgoal by simp
  subgoal by (auto simp: delegate_simps assms(2) intro!: stake_step.delegate [OF _ clock] votes_asI)
  subgoal by simp
  subgoal by (auto simp: delegate_simps assms(2) intro!: stake_step.delegate_again [OF _ clock] votes_asI)
  done

lemma delinquent_step:
  assumes "stake_account env n m i (Staked meta s flags)" "get_clock (se_sysvar_cache env) = Inr clock"
    and "eligible_for_deactivate_delinquent (vs_epoch_credits vs) (ck_epoch clock)"
    and "votes_as env keys m (dg_voter_pubkey (sk_delegation s)) vs"
    and "deactivate_stake env s flags (ck_epoch clock) = Inr (s', flags')"
    and "updated env (m i) (Staked meta s' flags') (acc_lamports (m i)) a'"
  shows "stake_step env n keys signers i j m (m(i := a'))"
  by (rule stake_step.deactivate [OF _ assms(2) _ assms(5)]) (use assms in blast)+

lemma wp_deactivate_delinquent:
  assumes i: "ba_index b = i" and "reads_back (se_state env)" "ba_index b < num_accounts t0" "acc_owner (M (ba_index b)) = stake_program_id"
    and clock: "get_clock (se_sysvar_cache env) = Inr clock"
  shows "wp t0 fl (deactivate_delinquent env ic b delinquent_index reference_index (ck_epoch clock))
    (\<lambda>_. stake_step env (num_accounts t0) (tc_account_keys t0) signers i j M) M"
  unfolding i [symmetric] deactivate_delinquent_def read_vote_state_def
  by (intro stake_wp_rules wp_read_vote_account assms(2,3))
    (auto simp: delegate_simps assms(3,4) dest!: key_of_instruction_account_nth intro!: delinquent_step [OF _ clock] votes_asI)

subsection \<open>Handlers on two accounts\<close>

lemma wp_check_uninitialized:
  assumes "acc_owner (M (ba_index b)) = stake_program_id \<Longrightarrow> length (acc_data (M (ba_index b))) = STAKE_STATE_SIZE \<Longrightarrow>
      state_of env (M (ba_index b)) = Some StakeUninitialized \<Longrightarrow> P () M"
  shows "wp t0 fl (check_uninitialized env b e) P M"
  unfolding check_uninitialized_def
  by (intro stake_wp_rules) (auto simp: sees_reads ok_or_Inr state_of_def intro!: assms)

lemma wp_validate_split_amount:
  assumes "\<And>r. check_split_amounts env lamports meta additional active (acc_lamports (M (tx_index ic i)))
      (acc_lamports (M (tx_index ic j))) (length (acc_data (M (tx_index ic j)))) = Inr r \<Longrightarrow> P r M"
  shows "wp t0 fl (validate_split_amount env ic i j lamports meta additional active) P M"
  unfolding validate_split_amount_def
  by (intro stake_wp_rules) (auto simp: sees_reads intro!: assms)

lemma wp_split_staked:
  assumes "reads_back (se_state env)" "tx_index ic i \<noteq> tx_index ic j"
    and "\<And>active rest reserve delta amount s1 s2 a' b'. sa_staker (sm_authorized meta) \<in> set signers \<Longrightarrow>
      check_split_amounts env lamports meta (get_minimum_delegation env) active (acc_lamports (M (tx_index ic i)))
        (acc_lamports (M (tx_index ic j))) (length (acc_data (M (tx_index ic j)))) = Inr (rest, reserve) \<Longrightarrow>
      split_stake_amounts meta s lamports (get_minimum_delegation env) rest reserve balance = Inr (delta, amount) \<Longrightarrow>
      stake_split s delta amount = Inr (s1, s2) \<Longrightarrow>
      updated env (M (tx_index ic i)) (Staked meta s1 flags) (acc_lamports (M (tx_index ic i))) a' \<Longrightarrow>
      updated env (M (tx_index ic j)) (Staked (meta\<lparr>sm_rent_exempt_reserve := reserve\<rparr>) s2 flags) (acc_lamports (M (tx_index ic j))) b' \<Longrightarrow>
      P () (M(tx_index ic i := a', tx_index ic j := b'))"
  shows "wp t0 fl (split_staked env ic i lamports j signers balance meta s flags) P M"
  unfolding split_staked_def
  by (intro stake_wp_rules wp_validate_split_amount assms(1))
    (auto simp: authorized_check_Inr map_err_def assms(2) [symmetric] split: sum.splits intro!: assms(3))

lemma wp_split_initialized:
  assumes "reads_back (se_state env)"
    and "\<And>rest reserve b'. sa_staker (sm_authorized meta) \<in> set signers \<Longrightarrow>
      check_split_amounts env lamports meta 0 False (acc_lamports (M (tx_index ic i)))
        (acc_lamports (M (tx_index ic j))) (length (acc_data (M (tx_index ic j)))) = Inr (rest, reserve) \<Longrightarrow>
      updated env (M (tx_index ic j)) (StakeInitialized (meta\<lparr>sm_rent_exempt_reserve := reserve\<rparr>)) (acc_lamports (M (tx_index ic j))) b' \<Longrightarrow>
      P () (M(tx_index ic j := b'))"
  shows "wp t0 fl (split_initialized env ic i lamports j signers meta) P M"
  unfolding split_initialized_def
  by (intro stake_wp_rules wp_validate_split_amount assms(1)) (auto simp: authorized_check_Inr intro!: assms(2))


text \<open>The end of a split: the source is cleared when nothing is left, and the lamports move.\<close>

definition finish_split :: "stake_env \<Rightarrow> instruction_context \<Rightarrow> index_of_account \<Rightarrow> u64 \<Rightarrow> index_of_account \<Rightarrow> unit tc_effect" where
  "finish_split env ic stake_account_index lamports split_index =
     bind (with_instruction_account ic stake_account_index (\<lambda>b.
             bind (gets (get_lamports b)) (\<lambda>balance.
               if lamports = balance then set_state (se_state env) b StakeUninitialized else return ()))) (\<lambda>_.
     bind (with_instruction_account ic split_index (\<lambda>b. checked_add_lamports b lamports)) (\<lambda>_.
       with_instruction_account ic stake_account_index (\<lambda>b. checked_sub_lamports b lamports)))"

lemma wp_finish_split:
  assumes "reads_back (se_state env)" "state_of env (M (tx_index ic i)) = Some st"
    and "\<And>a'. updated env (M (tx_index ic i)) (if lamports = acc_lamports (M (tx_index ic i)) then StakeUninitialized else st)
        (acc_lamports (M (tx_index ic i))) a' \<Longrightarrow>
      unat (acc_lamports ((M(tx_index ic i := a')) (tx_index ic j))) + unat lamports < 2 ^ 64 \<Longrightarrow>
      P () (debit (tx_index ic i) lamports (credit (tx_index ic j) lamports (M(tx_index ic i := a'))))"
  shows "wp t0 fl (finish_split env ic i lamports j) P M"
  unfolding finish_split_def
  apply (intro stake_wp_rules assms(1))
  subgoal by simp
  subgoal by simp
  subgoal by simp
  subgoal for b tc a' c d using assms(3) [of a'] by (simp add: sees_reads)
  subgoal by simp
  subgoal by simp
  subgoal for b tc c d using assms(3) [of "M (tx_index ic i)"] updated_self [OF assms(2), of "acc_lamports (M (tx_index ic i))"]
    by (simp add: sees_reads)
  done


lemma split_result:
  "i \<noteq> j \<Longrightarrow> debit i v (credit j v (m(i := a, j := b, i := a'))) =
     m(i := a'\<lparr>acc_lamports := acc_lamports a' - v\<rparr>, j := b\<lparr>acc_lamports := acc_lamports b + v\<rparr>)"
  "i \<noteq> j \<Longrightarrow> debit i v (credit j v (m(j := b, i := a'))) =
     m(i := a'\<lparr>acc_lamports := acc_lamports a' - v\<rparr>, j := b\<lparr>acc_lamports := acc_lamports b + v\<rparr>)"
  by (auto simp: debit_def credit_def)

lemma finish_uninitialized:
  assumes "stake_account env n m i StakeUninitialized" "stake_account env n m j StakeUninitialized" "keys ! i \<in> set signers"
    and a': "updated env (m i) StakeUninitialized (acc_lamports (m i)) a'"
    and v: "v \<le> acc_lamports (m i)" "unat (acc_lamports ((m(i := a')) j)) + unat v < 2 ^ 64"
  shows "stake_step env n keys signers i j m (debit i v (credit j v (m(i := a'))))"
proof (rule stake_step.split_uninitialized [OF assms(1-4)])
  have "acc_lamports a' = acc_lamports (m i)" using updated_fields [OF a'] by simp
  then show "moved_lamports i j v (m(i := a')) (debit i v (credit j v (m(i := a'))))"
    using v by (auto simp: moved_lamports_def debit_def credit_def unat_sub word_le_nat_alt fun_eq_iff)
qed

lemma wp_split_initialized_source:
  assumes codec: "reads_back (se_state env)" and src: "stake_account env (num_accounts t0) M (tx_index ic i) (StakeInitialized meta)"
    and dst: "stake_account env (num_accounts t0) M (tx_index ic j) StakeUninitialized" "length (acc_data (M (tx_index ic j))) = STAKE_STATE_SIZE"
  shows "wp t0 fl (bind (split_initialized env ic i lamports j signers meta) (\<lambda>_. finish_split env ic i lamports j))
    (\<lambda>_. stake_step env (num_accounts t0) keys signers (tx_index ic i) (tx_index ic j) M) M"
proof -
  have ne: "tx_index ic i \<noteq> tx_index ic j" using src dst(1) by (auto simp: stake_account_def)
  show ?thesis
    apply (intro wp_bind wp_split_initialized wp_finish_split [OF codec, where st = "StakeInitialized meta"] codec)
    subgoal using src ne by (simp add: stake_account_def)
    subgoal for rest reserve b' a'
      using ne dst(2) updated_fields [of env "M (tx_index ic j)" _ _ b'] updated_fields [of env "M (tx_index ic i)" _ _ a']
      by (auto simp: split_result intro!: stake_step.split_initialized src dst(1) updated_balance)
    done
qed

lemma wp_split_staked_source:
  assumes codec: "reads_back (se_state env)" and src: "stake_account env (num_accounts t0) M (tx_index ic i) (Staked meta s flags)"
    and dst: "stake_account env (num_accounts t0) M (tx_index ic j) StakeUninitialized" "length (acc_data (M (tx_index ic j))) = STAKE_STATE_SIZE"
    and balance: "balance = acc_lamports (M (tx_index ic j))"
  shows "wp t0 fl (bind (split_staked env ic i lamports j signers balance meta s flags) (\<lambda>_. finish_split env ic i lamports j))
    (\<lambda>_. stake_step env (num_accounts t0) keys signers (tx_index ic i) (tx_index ic j) M) M"
proof -
  have ne: "tx_index ic i \<noteq> tx_index ic j" using src dst(1) by (auto simp: stake_account_def)
  show ?thesis
    apply (intro wp_bind wp_split_staked ne codec)
    subgoal for active rest reserve delta amount s1 s2 a1 b'
      apply (rule wp_finish_split [OF codec, where st = "Staked meta s1 flags"])
      subgoal using ne by (simp add: updated_fields)
      subgoal for a'
        using ne dst(2) updated_fields [of env "M (tx_index ic j)" _ _ b'] updated_fields [of env a1 _ _ a']
          updated_fields [of env "M (tx_index ic i)" _ _ a1] updated_trans [of env "M (tx_index ic i)" _ _ a1]
        by (auto simp: split_result balance intro!: stake_step.split_staked src dst(1) updated_balance)
      done
    done
qed

lemma wp_split_source:
  assumes codec: "reads_back (se_state env)" and src: "stake_account env (num_accounts t0) M (tx_index ic i) st"
    and dst: "stake_account env (num_accounts t0) M (tx_index ic j) StakeUninitialized" "length (acc_data (M (tx_index ic j))) = STAKE_STATE_SIZE"
    and balance: "balance = acc_lamports (M (tx_index ic j))" "lamports \<le> acc_lamports (M (tx_index ic i))"
  shows "wp t0 fl (bind (case st of
             Staked meta s flags \<Rightarrow> split_staked env ic i lamports j signers balance meta s flags
           | StakeInitialized meta \<Rightarrow> split_initialized env ic i lamports j signers meta
           | StakeUninitialized \<Rightarrow>
               bind (reads (key_of_instruction_account ic i)) (\<lambda>stake_pubkey.
                 fail_if (stake_pubkey \<notin> set signers) MissingRequiredSignature)
           | RewardsPool \<Rightarrow> throw InvalidAccountData) (\<lambda>_. finish_split env ic i lamports j))
    (\<lambda>_. stake_step env (num_accounts t0) (tc_account_keys t0) signers (tx_index ic i) (tx_index ic j) M) M"
proof (cases st)
  case StakeUninitialized
  have keys: "sees t0 fl M tc \<Longrightarrow> key_of_instruction_account ic i tc = Inr key \<Longrightarrow> key = tc_account_keys t0 ! tx_index ic i" for tc key
    by (simp add: sees_reads key_of_instruction_account_nth)
  show ?thesis unfolding StakeUninitialized stake_state.case
    by (intro stake_wp_rules wp_finish_split [OF codec, where st = StakeUninitialized])
      (use src dst(1) balance(2) in \<open>auto simp: StakeUninitialized stake_account_def dest!: keys intro!: finish_uninitialized\<close>)
next
  case (StakeInitialized meta)
  show ?thesis unfolding StakeInitialized stake_state.case
    by (rule wp_split_initialized_source) (use codec src dst StakeInitialized in simp_all)
next
  case (Staked meta s flags)
  show ?thesis unfolding Staked stake_state.case
    by (rule wp_split_staked_source) (use codec src dst balance Staked in simp_all)
qed (auto intro!: wp_bind wp_throw)

lemma wp_split:
  assumes "reads_back (se_state env)" "acc_owner (M (tx_index ic i)) = stake_program_id"
  shows "wp t0 fl (split_stake_account env ic i lamports j signers)
    (\<lambda>_. stake_step env (num_accounts t0) (tc_account_keys t0) signers (tx_index ic i) (tx_index ic j) M) M"
  unfolding split_stake_account_def finish_split_def [symmetric]
  by (intro wp_bind wp_with_instruction_account wp_check_uninitialized wp_gets, rule wp_fail_if, rule wp_reads,
      rule wp_split_source [OF assms(1)])
    (simp_all add: sees_reads ok_or_Inr state_of_def stake_account_def assms(2) not_less)


lemma borrowed_twice: "k < length fl \<Longrightarrow> fl[k := WRITING] ! k' = UNUSED \<Longrightarrow> k' \<noteq> k"
  by auto

lemma merge_result:
  assumes "i \<noteq> j" "stake_account env n m i st" "stake_account env n m j source_st" "get_clock (se_sysvar_cache env) = Inr clock"
    and "get_if_mergeable env st (acc_lamports (m i)) clock history = Inr kind"
    and "get_if_mergeable env source_st (acc_lamports (m j)) clock history = Inr source_kind"
    and "sa_staker (sm_authorized (merge_kind_meta kind)) \<in> set signers" "merge_kind_merge kind source_kind clock = Inr merged"
    and "updated env (m i) (option_unwrap_or merged st) (acc_lamports (m i)) a'"
    and "updated env (m j) StakeUninitialized (acc_lamports (m j)) b'"
    and "unat (acc_lamports a') + unat (acc_lamports b') < 2 ^ 64"
  shows "stake_step env n keys signers i j m (credit i (acc_lamports b') (debit j (acc_lamports b') (m(i := a', j := b'))))"
proof -
  have l: "acc_lamports a' = acc_lamports (m i)" "acc_lamports b' = acc_lamports (m j)"
    using assms(9,10) updated_fields by blast+
  have "credit i (acc_lamports b') (debit j (acc_lamports b') (m(i := a', j := b'))) =
    m(i := a'\<lparr>acc_lamports := acc_lamports (m i) + acc_lamports (m j)\<rparr>, j := b'\<lparr>acc_lamports := 0\<rparr>)"
    using assms(1) l by (auto simp: credit_def debit_def)
  then show ?thesis
    using assms l by (auto intro!: stake_step.merge [where st = st and source_st = source_st] updated_balance)
qed

lemma wp_merge:
  assumes "reads_back (se_state env)" "acc_owner (M (tx_index ic i)) = stake_program_id"
    and clock: "get_clock (se_sysvar_cache env) = Inr clock"
  shows "wp t0 fl (merge_stake_accounts env ic i j clock history signers)
    (\<lambda>_. stake_step env (num_accounts t0) (tc_account_keys t0) signers (tx_index ic i) (tx_index ic j) M) M"
  unfolding merge_stake_accounts_def
  apply (intro stake_wp_rules assms(1), simp_all add: sees_reads ok_or_Inr authorized_check_Inr state_of_def [symmetric])
  subgoal for b tc x xa ba tca st tcb kind tcc source_st tcd source_kind merged b'
    using borrowed_twice [of "tx_index ic j" fl "tx_index ic i"]
      merge_result [of "tx_index ic i" "tx_index ic j" env "num_accounts t0" M st source_st clock history kind source_kind signers None "M (tx_index ic i)" b']
      updated_self [of env "M (tx_index ic i)" st "acc_lamports (M (tx_index ic i))"] assms(2) clock
    by (simp add: stake_account_def option_unwrap_or_def debit_def)
  subgoal for b tc x xa ba tca st tcb kind tcc source_st tcd source_kind merged st' a' b'
    using borrowed_twice [of "tx_index ic j" fl "tx_index ic i"]
      merge_result [of "tx_index ic i" "tx_index ic j" env "num_accounts t0" M st source_st clock history kind source_kind signers "Some st'" a' b']
      assms(2) clock
    by (simp add: stake_account_def option_unwrap_or_def debit_def)
  done

lemma wp_withdraw_custodian:
  assumes "get_signers ic t0 = Inr signers" "\<And>c. set_option c \<subseteq> set signers \<Longrightarrow> P c M"
  shows "wp t0 fl (withdraw_custodian ic k) P M"
  unfolding withdraw_custodian_def
  by (intro stake_wp_rules) (auto simp: sees_reads intro!: assms(2) dest: signing_key_in_signers [OF assms(1)])


lemma wp_withdraw_from:
  assumes codec: "reads_back (se_state env)" and b: "ba_index b < num_accounts t0"
    and signers: "get_signers ic t0 = Inr signers"
    and P: "\<And>st lockup reserve is_staked custodian a'. state_of env (M (ba_index b)) = Some st \<Longrightarrow>
      withdraw_limits st (tc_account_keys t0 ! ba_index b) ks clock history new_rate = Inr (lockup, reserve, is_staked) \<Longrightarrow>
      set_option custodian \<subseteq> set signers \<Longrightarrow> \<not> is_in_force lockup clock custodian \<Longrightarrow>
      unat lamports + unat reserve \<le> unat (acc_lamports (M (ba_index b))) \<or> \<not> is_staked \<and> lamports = acc_lamports (M (ba_index b)) \<Longrightarrow>
      updated env (M (ba_index b)) (if lamports = acc_lamports (M (ba_index b)) then StakeUninitialized else st)
        (acc_lamports (M (ba_index b))) a' \<Longrightarrow>
      lamports \<le> acc_lamports a' \<Longrightarrow> P () (debit (ba_index b) lamports (M(ba_index b := a')))"
  shows "wp t0 fl (withdraw_from env ic b lamports clock history ks custodian_index new_rate) P M"
  unfolding withdraw_from_def
  apply (intro stake_wp_rules wp_withdraw_custodian [OF signers] codec b)
  apply (simp_all add: sees_reads ok_or_Inr state_of_def [symmetric])
  subgoal for tc st tca limits lockup rest reserve is_staked custodian total tcb a'
    using P [of st lockup reserve is_staked custodian a'] checked_add_Some [of lamports reserve total]
    by (auto simp: not_less word_le_nat_alt)
  subgoal for tc st tca limits lockup rest reserve is_staked custodian total
    using P [of st lockup reserve is_staked custodian "M (ba_index b)"] checked_add_Some [of lamports reserve total]
      updated_self [of env "M (ba_index b)" st "acc_lamports (M (ba_index b))"]
    by (auto simp: not_less word_le_nat_alt)
  done

lemma wp_withdraw:
  assumes codec: "reads_back (se_state env)" and owner: "acc_owner (M (tx_index ic i)) = stake_program_id"
    and clock: "get_clock (se_sysvar_cache env) = Inr clock" and signers: "get_signers ic t0 = Inr signers"
  shows "wp t0 fl (withdraw_stake env ic i lamports j clock history authority_index custodian_index new_rate)
    (\<lambda>_. stake_step env (num_accounts t0) (tc_account_keys t0) signers (tx_index ic i) (tx_index ic j) M) M"
proof -
  have w: "sees t0 fl' M tc \<Longrightarrow> key_of_instruction_account ic k tc = Inr key \<Longrightarrow> is_instruction_account_signer ic k = Inr signed \<Longrightarrow>
      \<not> \<not> signed \<Longrightarrow> key \<in> set signers" for fl' tc k key signed
    using signing_key_in_signers [OF signers] by (auto simp: sees_reads)
  show ?thesis
    unfolding withdraw_stake_def
    apply (intro wp_bind wp_reads wp_lift wp_fail_if wp_with_instruction_account wp_withdraw_from [OF codec _ signers]
        wp_checked_add_lamports)
    subgoal by simp
    subgoal by simp
    subgoal for tc key signed b st lockup reserve is_staked custodian a' c
      by (rule stake_step.withdraw [where st = st and clock = clock and w = key and history = history and new_rate = new_rate
            and lockup = lockup and reserve = reserve and is_staked = is_staked and custodian = custodian and a' = a' and lamports = lamports])
        (use owner clock w in \<open>simp_all add: stake_account_def moved_lamports_def\<close>)
    done
qed

lemma updated_after_balance: "updated env (a\<lparr>acc_lamports := l\<rparr>) st l' a' \<Longrightarrow> updated env a st l' a'"
  by (cases a; cases a') (simp add: updated_def)

lemma redelegate_result:
  assumes "i \<noteq> j" "stake_account env n m i (Staked meta s flags)" "stake_account env n m j StakeUninitialized" "se_redelegate env"
    and "get_clock (se_sysvar_cache env) = Inr clock" "get_rent (se_sysvar_cache env) = Inr rent" "get_stake_status env s clock = Inr status"
    and "sh_activating status = 0 \<and> sh_effective status \<noteq> 0 \<and> sh_deactivating status = 0" "sa_staker (sm_authorized meta) \<in> set signers"
    and "dg_voter_pubkey (sk_delegation s) \<noteq> voter" "votes_as env keys m voter vs"
    and "deactivate_stake env s flags (ck_epoch clock) = Inr (s', flags')"
    and a': "updated env (m i) (Staked meta s' flags') (acc_lamports (m i)) a'" and "sh_effective status \<le> acc_lamports a'"
    and "unat (acc_lamports (m j)) + unat (sh_effective status) < 2 ^ 64"
    and m': "m' = credit j (sh_effective status) (debit i (sh_effective status) (m(i := a')))"
    and reserve: "reserve = minimum_balance rent STAKE_STATE_SIZE"
    and amount: "amount = saturating_sub (acc_lamports (m' j)) reserve" "get_minimum_delegation env \<le> amount"
    and b': "updated env (m' j) (Staked (meta\<lparr>sm_rent_exempt_reserve := reserve\<rparr>) (new_stake amount voter vs (ck_epoch clock))
      MUST_FULLY_ACTIVATE_BEFORE_DEACTIVATION_IS_PERMITTED) (acc_lamports (m' j)) b'"
  shows "stake_step env n keys signers i j m (m'(j := b'))"
proof -
  let ?e = "sh_effective status"
  have l: "acc_lamports a' = acc_lamports (m i)" using a' updated_fields by blast
  have mj: "m' j = (m j)\<lparr>acc_lamports := acc_lamports (m j) + ?e\<rparr>" using assms(1) by (simp add: m' credit_def debit_def)
  have eq: "m'(j := b') = m(i := a'\<lparr>acc_lamports := acc_lamports (m i) - ?e\<rparr>, j := b')"
    using assms(1) l by (auto simp: m' credit_def debit_def)
  show ?thesis unfolding eq
    by (rule stake_step.redelegate [OF assms(2,3,1,4-7) _ assms(9-12) _ assms(15) reserve])
      (use assms(8,14) l amount b' in \<open>auto simp: mj intro: updated_after_balance updated_balance [OF a']\<close>)
qed

lemma wp_redelegate:
  assumes i: "ba_index b = i" and codec: "reads_back (se_state env)" and b: "ba_index b < num_accounts t0" "ba_index b < length fl" "fl ! ba_index b = WRITING"
    and owner: "acc_owner (M (ba_index b)) = stake_program_id" and feature: "se_redelegate env"
  shows "wp t0 fl (redelegate env ic b j k signers)
    (\<lambda>_. stake_step env (num_accounts t0) (tc_account_keys t0) signers i (tx_index ic j) M) M"
proof -
  have ne: "tx_index ic j \<noteq> ba_index b" if "fl ! tx_index ic j = UNUSED" using that b(3) by auto
  show ?thesis
    unfolding i [symmetric] redelegate_def Let_def
    apply (intro stake_wp_rules wp_check_uninitialized wp_read_vote_account wp_deactivate codec b)
    apply (simp_all add: delegate_simps)
    subgoal for clock c d r vote_state versioned tc st meta0 s flags status meta s' flags' a' rent tca tcb b'
      using ne updated_fields [of env "M (ba_index b)" _ _ a']
      by (intro redelegate_result [where clock = clock and meta = meta and s = s and flags = flags and s' = s' and flags' = flags'
            and status = status and rent = rent and a' = a'])
        (auto simp: stake_account_def state_of_def b owner feature debit_def credit_def intro!: votes_asI)
    done
qed


subsection \<open>The entry point\<close>

lemma wp_with_stake_account:
  assumes "\<And>b. ba_index b = tx_index ic 0 \<Longrightarrow> ba_index b < num_accounts t0 \<Longrightarrow> acc_owner (M (ba_index b)) = stake_program_id \<Longrightarrow>
      ba_index b < length fl \<Longrightarrow> wp t0 (fl[ba_index b := WRITING]) (body b) P M"
  shows "wp t0 fl (with_stake_account ic body) P M"
  unfolding with_stake_account_def
  apply (intro stake_wp_rules)
  subgoal for b using assms [of b] by (simp add: sees_reads)
  done

lemma wp_check_accounts: "P () M \<Longrightarrow> wp t0 fl (check_accounts ic n) P M"
  unfolding check_accounts_def by (intro stake_wp_rules) simp

lemma checked_sysvars:
  "checked_clock c ic i tc = Inr clock \<Longrightarrow> get_clock c = Inr clock"
  "checked_rent c ic i tc = Inr rent \<Longrightarrow> get_rent c = Inr rent"
  by (auto simp: checked_clock_def checked_rent_def and_then_Inr)

lemma wp_stake_sysvars:
  assumes "\<And>clock history. get_clock (se_sysvar_cache env) = Inr clock \<Longrightarrow> acc_owner (M (tx_index ic 0)) = stake_program_id \<Longrightarrow>
      P (clock, history) M"
  shows "wp t0 fl (stake_sysvars env ic n) P M"
  unfolding stake_sysvars_def
  apply (intro stake_wp_rules wp_with_stake_account wp_check_accounts)
  subgoal for b tc clock tca history using assms [of clock history] by (auto dest: checked_sysvars)
  done

lemma wp_check_stake_config: "P () M \<Longrightarrow> wp t0 fl (check_stake_config env ic i) P M"
  unfolding check_stake_config_def by (intro stake_wp_rules) simp_all

lemma wp_get_optional_pubkey: "(\<And>k. P k M) \<Longrightarrow> wp t0 fl (get_optional_pubkey ic i b) P M"
  unfolding get_optional_pubkey_def by (intro stake_wp_rules) simp_all

lemma wp_signing_authority: "(\<And>k. P k M) \<Longrightarrow> wp t0 fl (signing_authority ic i) P M"
  unfolding signing_authority_def by (intro stake_wp_rules) simp_all

lemmas entry_rules = wp_with_stake_account wp_check_accounts wp_stake_sysvars wp_check_stake_config wp_get_optional_pubkey
  wp_signing_authority

lemma wp_case_pair: "wp t0 fl (f x y) P M \<Longrightarrow> wp t0 fl (case (x, y) of (a, b) \<Rightarrow> f a b) P M"
  by simp

lemma wp_deactivate_step:
  assumes "ba_index b = i" "reads_back (se_state env)" "ba_index b < num_accounts t0" "acc_owner (M (ba_index b)) = stake_program_id"
    and clock: "get_clock (se_sysvar_cache env) = Inr clock"
  shows "wp t0 fl (deactivate env b clock signers) (\<lambda>_. stake_step env (num_accounts t0) keys signers i j M) M"
  unfolding assms(1) [symmetric]
  by (rule wp_deactivate [OF assms(2,3)]) (auto simp: stake_account_def assms(3,4) intro!: stake_step.deactivate [OF _ clock])

lemma wp_redelegate_step:
  assumes "ba_index b = i" "reads_back (se_state env)" "ba_index b < num_accounts t0" "acc_owner (M (ba_index b)) = stake_program_id"
    and "ba_index b < length fl" "se_redelegate env"
  shows "wp t0 (fl[ba_index b := WRITING]) (redelegate env ic b 1 k signers)
    (\<lambda>_. stake_step env (num_accounts t0) (tc_account_keys t0) signers i (tx_index ic 1) M) M"
  using assms by (intro wp_redelegate) simp_all

lemmas handler_rules = wp_initialize wp_authorize wp_authorize_with_seed wp_deactivate_step wp_set_lockup wp_deactivate_delinquent
  wp_redelegate_step wp_bind wp_case_pair wp_if wp_throw

lemma wp_stake_execute:
  assumes codec: "reads_back (se_state env)" and signers: "get_signers ic t0 = Inr signers"
    and "instruction \<noteq> GetMinimumDelegation"
  shows "wp t0 fl (stake_execute env ic signers instruction)
    (\<lambda>_. stake_step env (num_accounts t0) (tc_account_keys t0) signers (tx_index ic 0) (tx_index ic 1) M) M"
proof -
  have self: "\<forall>k\<in>set signers. signs (se_sha256 env) signers k" by (simp add: signs_def)
  note rules = entry_rules handler_rules codec signers self
  show ?thesis
  proof (cases instruction)
    case GetMinimumDelegation
    then show ?thesis using assms(3) by simp
  next
    case DelegateStake
    show ?thesis unfolding DelegateStake stake_execute.simps by (intro rules wp_delegate)
  next
    case MergeStake
    show ?thesis unfolding MergeStake stake_execute.simps by (intro rules wp_merge)
  next
    case (WithdrawStake v)
    show ?thesis unfolding WithdrawStake stake_execute.simps by (intro rules wp_lift wp_withdraw)
  next
    case (SetLockup args)
    show ?thesis unfolding SetLockup stake_execute.simps by (intro rules wp_lift)
  next
    case (SetLockupChecked timestamp epoch)
    show ?thesis unfolding SetLockupChecked stake_execute.simps by (intro rules wp_lift)
  next
    case DeactivateDelinquent
    show ?thesis unfolding DeactivateDelinquent stake_execute.simps by (intro rules wp_lift)
  next
    case (SplitStake v)
    show ?thesis unfolding SplitStake stake_execute.simps
      apply (intro rules wp_split)
      subgoal for b by simp
      done
  qed (simp_all only: stake_execute.simps, (intro rules wp_reads checked_sysvars; assumption)+)
qed


lemma stake_program_ledger_step:
  assumes "reads_back (se_state env)" "get_current_instruction_context tc = Inr ic" "stake_process_instruction env tc = (Inr (), tc')"
  shows "\<exists>signers. get_signers ic tc = Inr signers \<and> num_accounts tc' = num_accounts tc \<and>
    stake_step env (num_accounts tc) (tc_account_keys tc) signers (tx_index ic 0) (tx_index ic 1) (account_at tc) (account_at tc')"
proof -
  from assms(2,3) obtain signers instruction where s: "get_signers ic tc = Inr signers"
    "stake_execute env ic signers instruction tc = (Inr (), tc')"
    unfolding stake_process_instruction_def by (elim bind_okE reads_okE lift_okE) auto
  show ?thesis
  proof (cases "instruction = GetMinimumDelegation")
    case True
    then have "account_at tc' = account_at tc" "num_accounts tc' = num_accounts tc"
      using s(2) by (auto simp: set_return_data_def effect_simps account_at_def split: if_splits)
    then show ?thesis using s(1) stake_step.query by auto
  next
    case False
    show ?thesis
      using wpD [OF wp_stake_execute [OF assms(1) s(1) False] sees_self s(2)] s(1) by (auto simp: sees_def)
  qed
qed

end
