(* ===== verification/Stake_Backed.thy ===== *)
theory Stake_Backed
  imports Stake_Refinement
begin

section \<open>Stake is backed by lamports\<close>

text \<open>
  The invariant of stake accounts: the recorded reserve is the rent-exempt minimum and is covered by the balance, and
  the balance covers the reserve and the delegated stake as long as the stake is not deactivated. Every
  rule of the specification keeps it, for one rent, but for one case: while the feature for redelegation is not active,
  delegating a stake again can take back a deactivation without looking at the balance.
\<close>

fun backed_state :: "u64 \<Rightarrow> u64 \<Rightarrow> stake_state \<Rightarrow> u64 \<Rightarrow> bool" where
  "backed_state reserve epoch (StakeInitialized meta) lamports \<longleftrightarrow>
     sm_rent_exempt_reserve meta = reserve \<and> reserve \<le> lamports"
| "backed_state reserve epoch (Staked meta s flags) lamports \<longleftrightarrow>
     sm_rent_exempt_reserve meta = reserve \<and> reserve \<le> lamports \<and>
     (epoch < dg_deactivation_epoch (sk_delegation s) \<longrightarrow> unat reserve + unat (sk_stake s) \<le> unat lamports)"
| "backed_state reserve epoch _ lamports \<longleftrightarrow> True"

definition backed :: "stake_env \<Rightarrow> u64 \<Rightarrow> u64 \<Rightarrow> account \<Rightarrow> bool" where
  "backed env reserve epoch a \<longleftrightarrow> (acc_owner a = stake_program_id \<longrightarrow>
     (\<forall>st. state_of env a = Some st \<longrightarrow> backed_state reserve epoch st (acc_lamports a)))"

lemma backed_state_more: "backed_state R e st l \<Longrightarrow> l \<le> l' \<Longrightarrow> backed_state R e st l'"
  by (cases st) (auto simp: word_le_nat_alt)

lemma backed_updated: "updated env a st l a' \<Longrightarrow> backed_state R e st l \<Longrightarrow> backed env R e a'"
  using updated_fields [of env a st l a'] by (simp add: backed_def)

lemma backed_with_meta:
  "stake_state_meta st = Some meta \<Longrightarrow> sm_rent_exempt_reserve meta' = sm_rent_exempt_reserve meta \<Longrightarrow>
   backed_state R e (with_meta meta' st) l = backed_state R e st l"
  by (cases st) auto

subsection \<open>Changing one state\<close>

lemma backed_delegate:
  assumes "backed_state R e (StakeInitialized meta) l" "amount = saturating_sub l (sm_rent_exempt_reserve meta)"
  shows "backed_state R e (Staked meta (new_stake amount voter vs epoch) flags) l"
  using assms by (auto simp: new_stake_def delegation_new_def unat_saturating_sub word_le_nat_alt)

definition rescind :: "stake \<Rightarrow> stake" where
  "rescind s = s\<lparr>sk_delegation := (sk_delegation s)\<lparr>dg_deactivation_epoch := - 1\<rparr>\<rparr>"

lemma backed_delegate_again:
  assumes "backed_state R (ck_epoch clock) (Staked meta s flags) l" "amount = saturating_sub l (sm_rent_exempt_reserve meta)"
    and "redelegate_stake env s amount voter vs clock history = Inr s'"
  shows "backed_state R (ck_epoch clock) (Staked meta s' flags) l \<or>
    \<not> se_redelegate env \<and> dg_deactivation_epoch (sk_delegation s) = ck_epoch clock \<and> s' = rescind s"
  using assms
  by (auto simp: redelegate_stake_def rescind_def and_then_Inr Let_def unat_saturating_sub word_le_nat_alt split: if_splits)

text \<open>An account whose deactivation in this epoch was taken back, with the same balance.\<close>

definition rescinded :: "stake_env \<Rightarrow> u64 \<Rightarrow> account \<Rightarrow> account \<Rightarrow> bool" where
  "rescinded env epoch a a' \<longleftrightarrow> acc_lamports a' = acc_lamports a \<and>
     (\<exists>meta s flags. state_of env a = Some (Staked meta s flags) \<and> dg_deactivation_epoch (sk_delegation s) = epoch \<and>
        state_of env a' = Some (Staked meta (rescind s) flags))"

lemma deactivate_stake_Inr:
  assumes "deactivate_stake env s flags epoch = Inr (s', flags')"
  shows "dg_deactivation_epoch (sk_delegation s) = - 1" "dg_deactivation_epoch (sk_delegation s') = epoch"
  using assms by (auto simp: deactivate_stake_def stake_deactivate_def and_then_Inr Let_def split: if_splits)

lemma backed_deactivate:
  assumes "backed_state R e (Staked meta s flags) l" "deactivate_stake env s flags e = Inr (s', flags')" "R \<le> l'"
  shows "backed_state R e (Staked meta s' flags') l'"
  using assms deactivate_stake_Inr [OF assms(2)] by auto

lemma backed_withdraw:
  assumes "backed_state R (ck_epoch clock) st l"
    and "withdraw_limits st key ks clock history new_rate = Inr (lockup, reserve, is_staked)"
    and "unat v + unat reserve \<le> unat l \<or> \<not> is_staked \<and> v = l"
  shows "backed_state R (ck_epoch clock) (if v = l then StakeUninitialized else st) (l - v)"
proof (cases "v = l")
  case False
  then have le: "unat v + unat reserve \<le> unat l" using assms(3) by auto
  then have sub: "unat (l - v) = unat l - unat v" by (simp add: unat_sub word_le_nat_alt)
  show ?thesis
    using assms(1,2) le sub False
    by (cases st) (auto simp: withdraw_limits_def and_then_Inr Let_def ok_or_Inr word_le_nat_alt word_less_nat_alt not_le
        dest!: checked_add_Some split: if_splits)
qed simp


subsection \<open>Splitting\<close>

lemma check_split_amounts_Inr:
  assumes "check_split_amounts env v meta additional active l d len = Inr (rest, reserve)" "get_rent (se_sysvar_cache env) = Inr rent"
  shows "v \<le> l" "unat rest = unat l - unat v" "reserve = minimum_balance rent len"
    "rest = 0 \<or> unat (saturating_add (sm_rent_exempt_reserve meta) additional) \<le> unat rest"
    "unat (saturating_add reserve additional) \<le> unat d + unat v"
proof -
  note facts = assms [unfolded check_split_amounts_def Let_def and_then_Inr, simplified]
  show "v \<le> l" "reserve = minimum_balance rent len" using facts by (auto simp: not_less and_then_Inr split: if_splits)
  have "rest = saturating_sub l v" using facts by (auto simp: not_less and_then_Inr split: if_splits)
  then show "unat rest = unat l - unat v" by (simp add: unat_saturating_sub)
  show "rest = 0 \<or> unat (saturating_add (sm_rent_exempt_reserve meta) additional) \<le> unat rest"
    using facts by (auto simp: not_less and_then_Inr word_le_nat_alt split: if_splits)
  show "unat (saturating_add reserve additional) \<le> unat d + unat v"
    using facts by (auto simp: not_less and_then_Inr word_le_nat_alt unat_saturating_sub split: if_splits)
qed

lemma nothing_left: "v \<le> l \<Longrightarrow> unat rest = unat l - unat v \<Longrightarrow> rest = 0 \<longleftrightarrow> v = (l :: u64)"
  by (auto simp: word_unat_eq_iff word_le_nat_alt)

lemma saturating_add_ge: "unat a \<le> unat (saturating_add a (b :: u64))"
proof -
  have "unat a < 2 ^ LENGTH(64)" by (rule unsigned_less)
  then show ?thesis by (simp add: unat_saturating_add)
qed

lemma split_stake_amounts_Inr:
  assumes "split_stake_amounts meta s v minimum rest reserve d = Inr (delta, amount)"
    and "stake_split s delta amount = Inr (s1, s2)"
  shows "sk_stake s2 = amount" "unat (sk_stake s1) = unat (sk_stake s) - unat delta" "delta \<le> sk_stake s" "minimum \<le> amount"
    "dg_deactivation_epoch (sk_delegation s1) = dg_deactivation_epoch (sk_delegation s)"
    "rest = 0 \<Longrightarrow> amount = saturating_sub v (sm_rent_exempt_reserve meta)"
    "rest \<noteq> 0 \<Longrightarrow> delta = v \<and> amount = saturating_sub v (saturating_sub reserve d)"
  using assms
  by (auto simp: split_stake_amounts_def stake_split_def Let_def and_then_Inr not_less unat_sub word_le_nat_alt split: if_splits)


lemma backed_split_staked:
  assumes split: "check_split_amounts env v meta minimum active l d STAKE_STATE_SIZE = Inr (rest, reserve)"
    "split_stake_amounts meta s v minimum rest reserve d = Inr (delta, amount)" "stake_split s delta amount = Inr (s1, s2)"
    and rent: "get_rent (se_sysvar_cache env) = Inr rent" "R = minimum_balance rent STAKE_STATE_SIZE" and min: "0 < minimum"
    and source: "backed_state R e (Staked meta s flags) l" and total: "unat d + unat v < 2 ^ 64"
  shows "backed_state R e (if v = l then StakeUninitialized else Staked meta s1 flags) (l - v)"
    and "backed_state R e (Staked (meta\<lparr>sm_rent_exempt_reserve := reserve\<rparr>) s2 flags) (d + v)"
proof -
  note c = check_split_amounts_Inr [OF split(1) rent(1)] and a = split_stake_amounts_Inr [OF split(2,3)]
  have R: "sm_rent_exempt_reserve meta = R" "reserve = R" using source c(3) rent(2) by auto
  have lv: "unat (l - v) = unat l - unat v" and dv: "unat (d + v) = unat d + unat v"
    using c(1) total by (simp_all add: unat_sub unat_plus_if')
  have rest0: "rest = 0 \<longleftrightarrow> v = l" by (rule nothing_left [OF c(1,2)])
  have pos: "0 < unat amount" using min a(4) by (simp add: word_less_nat_alt word_le_nat_alt)
  show "backed_state R e (if v = l then StakeUninitialized else Staked meta s1 flags) (l - v)"
  proof (cases "v = l")
    case False
    then have rest: "rest \<noteq> 0" using rest0 by simp
    then have "unat R \<le> unat l - unat v"
      using c(2,4) saturating_add_ge [of "sm_rent_exempt_reserve meta" minimum] R by auto
    moreover have "unat (sk_stake s1) = unat (sk_stake s) - unat v" "unat v \<le> unat (sk_stake s)"
      using a(2,3,7) rest by (auto simp: word_le_nat_alt)
    ultimately show ?thesis using False source a(5) R lv by (auto simp: word_le_nat_alt)
  qed simp
  have "unat R + unat amount \<le> unat d + unat v"
  proof (cases "rest = 0")
    case True
    then show ?thesis using pos a(6) R by (auto simp: unat_saturating_sub)
  next
    case False
    then show ?thesis using pos a(7) R by (auto simp: unat_saturating_sub)
  qed
  then show "backed_state R e (Staked (meta\<lparr>sm_rent_exempt_reserve := reserve\<rparr>) s2 flags) (d + v)"
    using a(1) R dv by (auto simp: word_le_nat_alt)
qed

lemma backed_split_initialized:
  assumes split: "check_split_amounts env v meta 0 False l d STAKE_STATE_SIZE = Inr (rest, reserve)"
    and rent: "get_rent (se_sysvar_cache env) = Inr rent" "R = minimum_balance rent STAKE_STATE_SIZE"
    and source: "backed_state R e (StakeInitialized meta) l" and total: "unat d + unat v < 2 ^ 64"
  shows "backed_state R e (if v = l then StakeUninitialized else StakeInitialized meta) (l - v)"
    and "backed_state R e (StakeInitialized (meta\<lparr>sm_rent_exempt_reserve := reserve\<rparr>)) (d + v)"
proof -
  note c = check_split_amounts_Inr [OF split rent(1)]
  have "unat (l - v) = unat l - unat v" "unat (d + v) = unat d + unat v"
    using c(1) total by (simp_all add: unat_sub unat_plus_if')
  moreover have "rest = 0 \<longleftrightarrow> v = l" by (rule nothing_left [OF c(1,2)])
  ultimately show "backed_state R e (if v = l then StakeUninitialized else StakeInitialized meta) (l - v)"
    "backed_state R e (StakeInitialized (meta\<lparr>sm_rent_exempt_reserve := reserve\<rparr>)) (d + v)"
    using c source rent(2) saturating_add_ge [of R 0] by (auto simp: word_le_nat_alt split: if_splits)
qed

subsection \<open>Merging and redelegating\<close>

lemma merge_stakes_Inr:
  assumes "merge_delegation_stake_and_credits_observed s v credits = Inr s'"
  shows "unat (sk_stake s') = unat (sk_stake s) + unat v \<and>
    dg_deactivation_epoch (sk_delegation s') = dg_deactivation_epoch (sk_delegation s)"
  using assms by (auto simp: merge_delegation_stake_and_credits_observed_def and_then_Inr ok_or_Inr dest!: checked_add_Some)

text \<open>What the classification of a state for a merge says about its account.\<close>

definition backs_kind :: "u64 \<Rightarrow> u64 \<Rightarrow> merge_kind \<Rightarrow> u64 \<Rightarrow> bool" where
  "backs_kind R e kind l \<longleftrightarrow> sm_rent_exempt_reserve (merge_kind_meta kind) = R \<and> R \<le> l \<and>
     (case kind of
        Inactive _ lamports _ \<Rightarrow> lamports = l
      | ActivationEpoch _ s _ \<Rightarrow> e < dg_deactivation_epoch (sk_delegation s) \<longrightarrow> unat R + unat (sk_stake s) \<le> unat l
      | FullyActive _ s \<Rightarrow> e < dg_deactivation_epoch (sk_delegation s) \<longrightarrow> unat R + unat (sk_stake s) \<le> unat l)"

lemma get_if_mergeable_backs:
  assumes "get_if_mergeable env st l clock history = Inr kind" "backed_state R e st l"
  shows "backs_kind R e kind l"
  using assms by (cases st) (auto simp: get_if_mergeable_def backs_kind_def and_then_Inr Let_def split: if_splits)

lemma backed_merge:
  assumes "merge_kind_merge kind source clock = Inr (Some st)" "backs_kind R e kind l" "backs_kind R e source d"
    and "unat l + unat d < 2 ^ 64"
  shows "backed_state R e st (l + d)"
proof -
  have "unat (l + d) = unat l + unat d" using assms(4) by (simp add: unat_plus_if')
  then show ?thesis
    using assms(1-3)
    by (cases kind; cases source)
      (auto simp: merge_kind_merge_def active_delegations_can_merge_def backs_kind_def and_then_Inr ok_or_Inr word_le_nat_alt
        dest!: merge_stakes_Inr checked_add_Some split: if_splits)
qed


lemma redelegate_backing:
  assumes "get_stake_status env s clock = Inr status" "sh_effective status \<noteq> 0" "sh_deactivating status = 0"
    and "deactivate_stake env s flags (ck_epoch clock) = Inr (s', flags')"
    and "backed_state R (ck_epoch clock) (Staked meta s flags) l"
  shows "R \<le> l - sh_effective status"
proof -
  obtain history new_rate where status: "status = stake_status (sk_delegation s) (ck_epoch clock) history new_rate"
    using assms(1) by (auto simp: get_stake_status_def and_then_Inr)
  have "dg_deactivation_epoch (sk_delegation s) = - 1" by (rule deactivate_stake_Inr(1) [OF assms(4)])
  moreover have "ck_epoch clock \<noteq> - 1"
    using assms(2,3) calculation unfolding status by (auto simp: stake_status_defs split: prod.splits)
  ultimately have "ck_epoch clock < dg_deactivation_epoch (sk_delegation s)"
    using word_order.not_eq_extremum by auto
  moreover have "unat (sh_effective status) \<le> unat (sk_stake s)"
    unfolding status using stake_status_le add_leD1 by blast
  ultimately have "unat R + unat (sh_effective status) \<le> unat l" using assms(5) by auto
  then show ?thesis by (simp add: word_le_nat_alt unat_sub)
qed

subsection \<open>Every step keeps stake backed\<close>

lemma minimum_delegation_pos: "0 < get_minimum_delegation env"
  by (simp add: get_minimum_delegation_def)

lemma backed_moved:
  assumes "moved_lamports i j v m m'" "k = i \<Longrightarrow> backed env R e ((m i)\<lparr>acc_lamports := acc_lamports (m i) - v\<rparr>)"
    and "k \<noteq> i \<Longrightarrow> backed env R e (m k)"
  shows "backed env R e (m' k)"
proof -
  let ?m = "debit i v m"
  have "backed env R e (?m k)" using assms by (auto simp: debit_def)
  moreover have "acc_lamports (?m j) \<le> acc_lamports (?m j) + v"
    using assms(1) by (simp add: moved_lamports_def word_le_nat_alt unat_plus_if')
  ultimately show ?thesis
    using assms(1) by (auto simp: moved_lamports_def backed_def credit_def state_of_def intro: backed_state_more)
qed


lemma backed_stake_account:
  "stake_account env n m i st \<Longrightarrow> \<forall>k<n. backed env R e (m k) \<Longrightarrow> backed_state R e st (acc_lamports (m i))"
  by (simp add: stake_account_def backed_def)

lemma backed_update:
  "\<forall>k<n. backed env R e (m k) \<Longrightarrow> updated env (m i) st l a' \<Longrightarrow> backed_state R e st l \<Longrightarrow> \<forall>k<n. backed env R e ((m(i := a')) k)"
  by (simp add: backed_updated)

lemma backed_update_two:
  assumes "\<forall>k<n. backed env R e (m k)" "updated env (m i) st l a'" "backed_state R e st l"
    and "updated env (m j) st' l' b'" "backed_state R e st' l'"
  shows "\<forall>k<n. backed env R e ((m(i := a', j := b')) k)"
  using assms by (simp add: backed_updated)

lemma backed_move_step:
  assumes all: "\<forall>k<n. backed env R e (m k)" and a': "updated env (m i) st (acc_lamports (m i)) a'"
    and st: "backed_state R e st (acc_lamports (m i) - v)" and move: "moved_lamports i j v (m(i := a')) m'"
  shows "\<forall>k<n. backed env R e (m' k)"
proof (intro allI impI)
  fix k assume "k < n"
  have "backed env R e (((m(i := a')) i)\<lparr>acc_lamports := acc_lamports ((m(i := a')) i) - v\<rparr>)"
    using backed_updated [OF updated_balance [OF a'] st] updated_fields [OF a'] by simp
  then show "backed env R e (m' k)" by (rule backed_moved [OF move]) (use all \<open>k < n\<close> in auto)
qed

lemma backed_merge_result:
  assumes "get_if_mergeable env st l clock history = Inr kind" "get_if_mergeable env source_st d clock history = Inr source_kind"
    and "merge_kind_merge kind source_kind clock = Inr merged" "unat l + unat d < 2 ^ 64"
    and "backed_state R e st l" "backed_state R e source_st d"
  shows "backed_state R e (option_unwrap_or merged st) (l + d)"
proof (cases merged)
  case None
  have "l \<le> l + d" using assms(4) by (simp add: word_le_nat_alt unat_plus_if')
  then show ?thesis using backed_state_more [OF assms(5)] by (simp add: None option_unwrap_or_def)
next
  case (Some st')
  show ?thesis
    using backed_merge [OF assms(3) [unfolded Some] get_if_mergeable_backs [OF assms(1,5)] get_if_mergeable_backs [OF assms(2,6)] assms(4)]
    by (simp add: Some option_unwrap_or_def)
qed

lemma backed_redelegate_to:
  assumes "amount = saturating_sub l R" "get_minimum_delegation env \<le> amount"
  shows "backed_state R e (Staked (meta\<lparr>sm_rent_exempt_reserve := R\<rparr>) (new_stake amount voter vs epoch) flags) l"
proof -
  have "R \<le> l"
    using assms minimum_delegation_pos [of env] by (simp add: word_le_nat_alt word_less_nat_alt unat_saturating_sub)
  then show ?thesis using assms(1) by (intro backed_delegate) simp_all
qed

lemma stake_step_backed:
  assumes step: "stake_step env n keys signers i j m m'" and clock: "get_clock (se_sysvar_cache env) = Inr clock"
    and rent: "get_rent (se_sysvar_cache env) = Inr rent" "R = minimum_balance rent STAKE_STATE_SIZE"
    and all: "\<forall>k<n. backed env R (ck_epoch clock) (m k)"
  shows "(\<forall>k<n. backed env R (ck_epoch clock) (m' k)) \<or>
    (\<exists>a'. m' = m(i := a') \<and> \<not> se_redelegate env \<and> rescinded env (ck_epoch clock) (m i) a')"
  using step
proof cases
  case (initialize rent' reserve a l a')
  show ?thesis unfolding initialize(1) by (intro disjI1, rule backed_update [OF all initialize(6)]) (use initialize rent in auto)
next
  case (authorize st meta clock' ks key kind custodian a a')
  show ?thesis unfolding authorize(1)
    by (intro disjI1, rule backed_update [OF all authorize(7)]) (use backed_stake_account [OF authorize(2) all] backed_with_meta [OF authorize(3)] in auto)
next
  case (set_lockup st meta clock' lockup meta' a')
  have "sm_rent_exempt_reserve meta' = sm_rent_exempt_reserve meta"
    using set_lockup(5) by (auto simp: meta_set_lockup_def split: if_splits)
  then show ?thesis unfolding set_lockup(1)
    by (intro disjI1 backed_update [OF all set_lockup(6)]) (use backed_stake_account [OF set_lockup(2) all] backed_with_meta [OF set_lockup(3)] in auto)
next
  case (delegate meta clock' amount voter vs a')
  show ?thesis unfolding delegate(1)
    by (intro disjI1, rule backed_update [OF all delegate(8) backed_delegate [OF backed_stake_account [OF delegate(2) all] delegate(5)]])
next
  case (delegate_again meta s flags clock' amount voter vs history s' a')
  have "clock' = clock" using delegate_again(3) clock by simp
  note again = backed_delegate_again [OF backed_stake_account [OF delegate_again(2) all] delegate_again(5) delegate_again(8) [unfolded this]]
  have "rescinded env (ck_epoch clock) (m i) a'" if "dg_deactivation_epoch (sk_delegation s) = ck_epoch clock" "s' = rescind s"
    using that delegate_again(2) updated_fields [OF delegate_again(9)] by (auto simp: rescinded_def stake_account_def)
  then show ?thesis unfolding delegate_again(1) using again backed_update [OF all delegate_again(9)] by blast
next
  case (deactivate meta s flags clock' s' flags' a')
  have "clock' = clock" using deactivate(3) clock by simp
  note b = backed_stake_account [OF deactivate(2) all] and d = deactivate(5) [unfolded this]
  show ?thesis unfolding deactivate(1) by (intro disjI1, rule backed_update [OF all deactivate(6) backed_deactivate [OF b d]]) (use b in simp)
next
  case (split_staked meta s flags lamports active rest reserve delta amount s1 s2 a' b')
  note b = backed_split_staked [OF split_staked(6,7,8) rent minimum_delegation_pos backed_stake_account [OF split_staked(2) all] split_staked(9)]
  show ?thesis unfolding split_staked(1) by (intro disjI1, rule backed_update_two [OF all split_staked(10) b(1) split_staked(11) b(2)])
next
  case (split_initialized meta lamports rest reserve a' b')
  note b = backed_split_initialized [OF split_initialized(6) rent backed_stake_account [OF split_initialized(2) all] split_initialized(7)]
  show ?thesis unfolding split_initialized(1) by (intro disjI1, rule backed_update_two [OF all split_initialized(8) b(1) split_initialized(9) b(2)])
next
  case (split_uninitialized a' lamports)
  show ?thesis by (intro disjI1, rule backed_move_step [OF all split_uninitialized(4) _ split_uninitialized(5)]) simp
next
  case (merge st source_st clock' history kind source_kind merged a' b')
  note b = backed_merge_result [OF merge(6,7,9,10) backed_stake_account [OF merge(2) all] backed_stake_account [OF merge(3) all]]
  show ?thesis unfolding merge(1) by (intro disjI1, rule backed_update_two [OF all merge(11) b merge(12)]) simp
next
  case (withdraw st clock' w history new_rate lockup reserve is_staked custodian lamports a')
  have "clock' = clock" using withdraw(2) clock by simp
  note limits = withdraw(4,7) [unfolded this]
  show ?thesis by (intro disjI1, rule backed_move_step [OF all withdraw(8) backed_withdraw [OF backed_stake_account [OF withdraw(1) all] limits] withdraw(9)])
next
  case (redelegate meta s flags clock' rent' status voter vs s' flags' reserve amount a' b')
  have eq: "clock' = clock" "reserve = R" using redelegate(6,7,16) clock rent by simp_all
  note b = backed_stake_account [OF redelegate(2) all] and r = redelegate(8,13,17,18,20) [unfolded eq]
  have "R \<le> acc_lamports (m i) - sh_effective status" by (rule redelegate_backing [OF r(1) _ _ r(2) b]) (use redelegate(9) in auto)
  note src = backed_deactivate [OF b r(2) this]
  show ?thesis unfolding redelegate(1) by (intro disjI1, rule backed_update_two [OF all redelegate(19) src r(5) backed_redelegate_to [OF r(3,4)]])
qed (use all in simp)

end
