(* ===== verification/Stake_Credits.thy ===== *)
theory Stake_Credits
  imports Stake_Backed
begin

section \<open>Credits of merged stakes\<close>

text \<open>
  The credits observed after a merge, which the program computes in 128-bit arithmetic.
\<close>

lemma unat_ucast_u128 [simp]: "unat (ucast (x :: u64) :: u128) = unat x"
proof -
  have "unat x < 2 ^ LENGTH(64)" by (rule unsigned_less)
  then show ?thesis by (simp add: unsigned_ucast_eq take_bit_nat_eq_self)
qed

lemma unat_bound_u64: "unat (x :: u64) \<le> 2 ^ 64 - 1"
proof -
  have "unat x < 2 ^ LENGTH(64)" by (rule unsigned_less)
  then show ?thesis by simp
qed

lemma checked_mul_u128:
  assumes "unat a * unat b < 2 ^ 128"
  shows "checked_mul a (b :: u128) = Some (a * b)" "unat (a * b) = unat a * unat b"
  using assms by (simp_all add: checked_mul_def unat_word_ariths)

lemma weighted_bound:
  fixes a b x y :: u64
  shows "unat a * unat x + unat b * unat y \<le> (2 ^ 64 - 1) * (unat x + unat y)"
  unfolding add_mult_distrib2 by (intro add_mono mult_le_mono unat_bound_u64 order_refl)

lemma ceiling_div:
  assumes "0 < (t :: nat)"
  shows "w \<le> (w + t - 1) div t * t" "(w + t - 1) div t * t < w + t"
proof -
  have "(w + t - 1) div t * t + (w + t - 1) mod t = w + t - 1" by simp
  moreover have "(w + t - 1) mod t < t" using assms by simp
  ultimately show "w \<le> (w + t - 1) div t * t" "(w + t - 1) div t * t < w + t" using assms by linarith+
qed

lemma ceiling_div_bound:
  assumes "0 < (t :: nat)" "w \<le> b * t"
  shows "(w + t - 1) div t \<le> b"
proof -
  have "w + t - 1 < (b + 1) * t" using assms by (simp add: algebra_simps)
  then have "(w + t - 1) div t < b + 1" using assms(1) by (simp add: less_mult_imp_div_less)
  then show ?thesis by simp
qed


lemma weighted_credits:
  fixes s v credits
  defines "t \<equiv> unat (sk_stake s) + unat v"
    and "w \<equiv> unat (sk_credits_observed s) * unat (sk_stake s) + unat credits * unat v"
  assumes "t < 2 ^ 64" "0 < t" "sk_credits_observed s \<noteq> credits"
  shows "\<exists>c. stake_weighted_credits_observed s v credits = Some c \<and> unat c = (w + t - 1) div t"
proof -
  let ?p = "ucast (sk_credits_observed s) * ucast (sk_stake s) :: u128" and ?q = "ucast credits * ucast v :: u128"
  have w: "w \<le> (2 ^ 64 - 1) * t" unfolding w_def t_def by (rule weighted_bound)
  also have "\<dots> \<le> (2 ^ 64 - 1) * (2 ^ 64 - 1)" using assms(3) by (intro mult_le_mono2) simp
  finally have wb: "w + t < 2 ^ 128" using assms(3) by simp
  have p: "unat ?p = unat (sk_credits_observed s) * unat (sk_stake s)"
    "checked_mul (ucast (sk_credits_observed s)) (ucast (sk_stake s)) = Some ?p"
    using wb by (simp_all add: checked_mul_u128 w_def)
  have q: "unat ?q = unat credits * unat v" "checked_mul (ucast credits) (ucast v) = Some ?q"
    using wb by (simp_all add: checked_mul_u128 w_def)
  have total: "checked_add (sk_stake s) v = Some (sk_stake s + v)" "unat (sk_stake s + v) = t"
    using assms(3) by (simp_all add: checked_add_def t_def unat_plus_if')
  have pq: "checked_add ?p ?q = Some (?p + ?q)" "unat (?p + ?q) = w"
    using wb p q by (simp_all add: checked_add_def w_def unat_plus_if')
  let ?r = "?p + ?q + ucast (sk_stake s + v)"
  have r: "checked_add (?p + ?q) (ucast (sk_stake s + v)) = Some ?r" "unat ?r = w + t"
    using wb pq(2) total(2) by (simp_all add: checked_add_def unat_plus_if')
  have r1: "checked_sub ?r 1 = Some (?r - 1)" "unat (?r - 1) = w + t - 1"
    using assms(4) r(2) by (simp_all add: checked_sub_def unat_sub word_le_nat_alt)
  let ?c = "(?r - 1) div ucast (sk_stake s + v)"
  have c: "unat ?c = (w + t - 1) div t" using r1(2) total(2) by (simp add: unat_div)
  have b: "(w + t - 1) div t < 2 ^ 64" using ceiling_div_bound [OF assms(4) w] by simp
  have nz: "(ucast (sk_stake s + v) :: u128) \<noteq> 0"
    using assms(4) total(2) by (metis less_irrefl unat_eq_zero unat_ucast_u128)
  have "stake_weighted_credits_observed s v credits = Some (ucast ?c)"
    using assms(5) p(2) q(2) total(1) pq(1) r(1) r1(1) c b nz by (simp add: stake_weighted_credits_observed_def Let_def)
  moreover have "unat (ucast ?c :: u64) = (w + t - 1) div t"
    using c b by (simp add: unsigned_ucast_eq take_bit_nat_eq_self)
  ultimately show ?thesis by blast
qed

text \<open>
  C14: merging credits. For two stakes whose sum is positive and fits in 64 bits, the credits observed after a merge are always computed,
  and are the mean of the two, weighted with the stakes and rounded up: no intermediate value overflows.
\<close>

theorem merged_credits_mean:
  assumes "unat (sk_stake s) + unat v < 2 ^ 64" "0 < unat (sk_stake s) + unat v"
  shows "\<exists>c. stake_weighted_credits_observed s v credits = Some c \<and>
    unat (sk_credits_observed s) * unat (sk_stake s) + unat credits * unat v \<le> unat c * (unat (sk_stake s) + unat v) \<and>
    unat c * (unat (sk_stake s) + unat v) <
      unat (sk_credits_observed s) * unat (sk_stake s) + unat credits * unat v + (unat (sk_stake s) + unat v)"
proof (cases "sk_credits_observed s = credits")
  case True
  then show ?thesis using assms by (simp add: stake_weighted_credits_observed_def algebra_simps)
next
  case False
  then show ?thesis using weighted_credits [OF assms] ceiling_div [OF assms(2)] by metis
qed


theorem merged_credits_mean_witness:
  "\<exists>c. stake_weighted_credits_observed \<lparr>sk_delegation = delegation_new [] 3 7, sk_credits_observed = 10\<rparr> 1 5 = Some c \<and>
     35 \<le> unat c * 4 \<and> unat c * 4 < 39"
  using merged_credits_mean [of "\<lparr>sk_delegation = delegation_new [] 3 7, sk_credits_observed = 10\<rparr>" 1 5]
  by (simp add: delegation_new_def)

end
