(* ===== verification/Stake_Custody.thy ===== *)
theory Stake_Custody
  imports Stake_Refinement
begin

section \<open>Custody of staked lamports\<close>

text \<open>
  Lamports move between stake accounts in splits, merges and redelegations, which the staker can order alone. What
  protects them is that the authorities and the lockup go along. For a property of the meta data of stake accounts
  that the steps of the specification respect, the lamports in the accounts with the property never become less. The locale
  states what has to be respected; the withdraw authority and the lockup are its two instances.
\<close>

definition meta_of :: "stake_env \<Rightarrow> account \<Rightarrow> stake_meta option" where
  "meta_of env a = (if acc_owner a = stake_program_id then Option.bind (state_of env a) stake_state_meta else None)"

definition held :: "stake_env \<Rightarrow> (stake_meta \<Rightarrow> bool) \<Rightarrow> account \<Rightarrow> nat" where
  "held env Q a = (case meta_of env a of None \<Rightarrow> 0 | Some meta \<Rightarrow> if Q meta then unat (acc_lamports a) else 0)"

definition total_held :: "stake_env \<Rightarrow> (stake_meta \<Rightarrow> bool) \<Rightarrow> nat \<Rightarrow> ledger \<Rightarrow> nat" where
  "total_held env Q n m = (\<Sum>k<n. held env Q (m k))"

text \<open>What an account in the state \<open>st\<close> with the balance \<open>l\<close> holds.\<close>

definition state_holds :: "(stake_meta \<Rightarrow> bool) \<Rightarrow> stake_state \<Rightarrow> u64 \<Rightarrow> nat" where
  "state_holds Q st l = (case stake_state_meta st of None \<Rightarrow> 0 | Some meta \<Rightarrow> if Q meta then unat l else 0)"

lemma state_holds_simps [simp]:
  "state_holds Q StakeUninitialized l = 0" "state_holds Q RewardsPool l = 0"
  "state_holds Q (StakeInitialized meta) l = (if Q meta then unat l else 0)"
  "state_holds Q (Staked meta s flags) l = (if Q meta then unat l else 0)"
  by (simp_all add: state_holds_def)

lemma held_account: "stake_account env n m i st \<Longrightarrow> held env Q (m i) = state_holds Q st (acc_lamports (m i))"
  by (simp add: held_def meta_of_def stake_account_def state_holds_def)

lemma held_updated:
  "stake_account env n m i st \<Longrightarrow> updated env (m i) st' l a' \<Longrightarrow> held env Q a' = state_holds Q st' l"
  using updated_fields [of env "m i" st' l a'] by (auto simp: held_def meta_of_def stake_account_def state_holds_def)

lemma total_held_mono: "(\<And>k. k < n \<Longrightarrow> held env Q (m k) \<le> held env Q (m' k)) \<Longrightarrow> total_held env Q n m \<le> total_held env Q n m'"
  by (auto simp: total_held_def intro: sum_mono)

lemma total_held_one:
  assumes "stake_account env n m i st" "updated env (m i) st' l a'" "state_holds Q st (acc_lamports (m i)) \<le> state_holds Q st' l"
  shows "total_held env Q n m \<le> total_held env Q n (m(i := a'))"
  using assms held_account [OF assms(1)] held_updated [OF assms(1,2)] by (intro total_held_mono) simp

lemma total_held_two:
  assumes i: "stake_account env n m i st" "updated env (m i) st' l a'" and j: "stake_account env n m j t" "updated env (m j) t' d b'"
    and ne: "i \<noteq> j"
    and le: "state_holds Q st (acc_lamports (m i)) + state_holds Q t (acc_lamports (m j)) \<le> state_holds Q st' l + state_holds Q t' d"
  shows "total_held env Q n m \<le> total_held env Q n (m(i := a', j := b'))"
proof -
  have ij: "i \<in> {..<n}" "j \<in> {..<n} - {i}" using i(1) j(1) ne by (auto simp: stake_account_def)
  have split: "total_held env Q n m = held env Q (m i) + (held env Q (m j) + (\<Sum>k\<in>{..<n} - {i} - {j}. held env Q (m k)))" for m
    unfolding total_held_def using ij by (simp add: sum.remove)
  have "(\<Sum>k\<in>{..<n} - {i} - {j}. held env Q ((m(i := a', j := b')) k)) = (\<Sum>k\<in>{..<n} - {i} - {j}. held env Q (m k))"
    by (rule sum.cong) auto
  then show ?thesis
    using ne le held_account [OF i(1)] held_account [OF j(1)] held_updated [OF i] held_updated [OF j] by (simp add: split)
qed

lemma total_held_move:
  assumes "stake_account env n m i st" "state_holds Q st (acc_lamports (m i)) = 0" "moved_lamports i j v (m(i := a')) m'"
  shows "total_held env Q n m \<le> total_held env Q n m'"
proof (rule total_held_mono)
  fix k assume "k < n"
  have "held env Q (m i) = 0" using assms(2) held_account [OF assms(1)] by simp
  then show "held env Q (m k) \<le> held env Q (m' k)"
    using assms(3)
    by (auto simp: moved_lamports_def credit_def debit_def held_def meta_of_def state_of_def unat_plus_if' split: option.split)
qed

lemma split_holds:
  assumes "v \<le> l" "unat d + unat v < 2 ^ 64" "stake_state_meta st = Some meta" "stake_state_meta st1 = Some meta"
    "stake_state_meta st2 = Some meta'" "Q meta' = Q meta"
  shows "state_holds Q st l + state_holds Q StakeUninitialized d \<le>
    state_holds Q (if v = l then StakeUninitialized else st1) (l - v) + state_holds Q st2 (d + v)"
  using assms by (auto simp: state_holds_def unat_sub unat_plus_if' word_le_nat_alt)


lemma check_split_amounts_le: "check_split_amounts env v meta additional active l d len = Inr r \<Longrightarrow> v \<le> l"
  by (auto simp: check_split_amounts_def not_less split: if_splits)

lemma merged_meta:
  assumes "get_if_mergeable env st l clock history = Inr kind" "merge_kind_merge kind source clock = Inr merged"
  shows "stake_state_meta st = Some (merge_kind_meta kind)" "stake_state_meta (option_unwrap_or merged st) = Some (merge_kind_meta kind)"
    "metas_can_merge (merge_kind_meta kind) (merge_kind_meta source) clock = Inr ()"
proof -
  show st: "stake_state_meta st = Some (merge_kind_meta kind)"
    using assms(1) by (cases st) (auto simp: get_if_mergeable_def and_then_Inr Let_def split: if_splits)
  show "metas_can_merge (merge_kind_meta kind) (merge_kind_meta source) clock = Inr ()"
    using assms(2) by (simp add: merge_kind_merge_def and_then_Inr)
  have "merged = None \<or> (\<exists>st'. merged = Some st' \<and> stake_state_meta st' = Some (merge_kind_meta kind))"
    using assms(2) by (cases kind; cases source) (auto simp: merge_kind_merge_def and_then_Inr)
  then show "stake_state_meta (option_unwrap_or merged st) = Some (merge_kind_meta kind)"
    using st by (auto simp: option_unwrap_or_def)
qed

subsection \<open>Properties that the steps respect\<close>

locale custody =
  fixes env :: stake_env and clock :: clock and signers :: "pubkey list" and Q :: "stake_meta \<Rightarrow> bool"
  assumes reserve: "Q (meta\<lparr>sm_rent_exempt_reserve := r\<rparr>) = Q meta"
    and authorize: "Q meta \<Longrightarrow> \<forall>k\<in>set ks. signs (se_sha256 env) signers k \<Longrightarrow>
      authorized_authorize (sm_authorized meta) ks key kind (Some (sm_lockup meta, clock, custodian)) = Inr a \<Longrightarrow>
      Q (meta\<lparr>sm_authorized := a\<rparr>)"
    and set_lockup: "Q meta \<Longrightarrow> meta_set_lockup meta args signers clock = Inr meta' \<Longrightarrow> Q meta'"
    and merge: "Q source \<Longrightarrow> metas_can_merge meta source clock = Inr () \<Longrightarrow> Q meta"
    and withdraw: "Q meta \<Longrightarrow> sa_withdrawer (sm_authorized meta) \<in> set signers \<Longrightarrow> set_option c \<subseteq> set signers \<Longrightarrow>
      is_in_force (sm_lockup meta) clock c"
begin

lemma with_meta_holds:
  "stake_state_meta st = Some meta \<Longrightarrow> (Q meta \<Longrightarrow> Q meta') \<Longrightarrow> state_holds Q st l \<le> state_holds Q (with_meta meta' st) l"
  by (cases st) auto

lemma withdrawn_holds:
  assumes "withdraw_limits st key [w] clock history new_rate = Inr (lockup, rest)" "w \<in> set signers" "set_option c \<subseteq> set signers"
    and "\<not> is_in_force lockup clock c"
  shows "state_holds Q st l = 0"
  using assms withdraw [of _ c]
  by (cases st) (auto simp: withdraw_limits_def and_then_Inr authorized_check_Inr Let_def split: if_splits)

lemma merge_holds:
  assumes "get_if_mergeable env st l clock history = Inr kind" "get_if_mergeable env source_st d clock history = Inr source"
    and "merge_kind_merge kind source clock = Inr merged" "unat l + unat d < 2 ^ 64"
  shows "state_holds Q st l + state_holds Q source_st d \<le> state_holds Q (option_unwrap_or merged st) (l + d) + state_holds Q StakeUninitialized 0"
proof -
  note m = merged_meta [OF assms(1,3)]
  have "stake_state_meta source_st = Some (merge_kind_meta source)"
    using assms(2) by (cases source_st) (auto simp: get_if_mergeable_def and_then_Inr Let_def split: if_splits)
  then show ?thesis using m merge [OF _ m(3)] assms(4) by (auto simp: state_holds_def unat_plus_if')
qed

lemma step_keeps_total:
  assumes step: "stake_step env n keys signers i j m m'" and clock: "get_clock (se_sysvar_cache env) = Inr clock"
  shows "total_held env Q n m \<le> total_held env Q n m'"
  using step
proof cases
  case (initialize rent' reserve a l a')
  show ?thesis unfolding initialize(1) by (rule total_held_one [OF initialize(2,6)]) simp
next
  case (authorize st meta clock' ks key kind custodian a a')
  have "clock' = clock" using authorize(4) clock by simp
  then show ?thesis unfolding authorize(1)
    using authorize(6) by (intro total_held_one [OF authorize(2,7)] with_meta_holds [OF authorize(3)]) (auto intro: custody.authorize [OF custody_axioms _ authorize(5)])
next
  case (set_lockup st meta clock' args meta' a')
  have "clock' = clock" using set_lockup(4) clock by simp
  then show ?thesis unfolding set_lockup(1)
    using set_lockup(5) by (intro total_held_one [OF set_lockup(2,6)] with_meta_holds [OF set_lockup(3)]) (auto intro: custody.set_lockup [OF custody_axioms])
next
  case (delegate meta clock' amount voter vs a')
  show ?thesis unfolding delegate(1) by (rule total_held_one [OF delegate(2,8)]) simp
next
  case (delegate_again meta s flags clock' amount voter vs history s' a')
  show ?thesis unfolding delegate_again(1) by (rule total_held_one [OF delegate_again(2,9)]) simp
next
  case (deactivate meta s flags clock' s' flags' a')
  show ?thesis unfolding deactivate(1) by (rule total_held_one [OF deactivate(2,6)]) simp
next
  case (split_staked meta s flags v active rest r delta amount s1 s2 a' b')
  show ?thesis unfolding split_staked(1)
    by (rule total_held_two [OF split_staked(2,10,3,11,4) split_holds [where meta = meta and meta' = "meta\<lparr>sm_rent_exempt_reserve := r\<rparr>", OF check_split_amounts_le [OF split_staked(6)] split_staked(9)]])
      (simp_all add: reserve)
next
  case (split_initialized meta v rest r a' b')
  show ?thesis unfolding split_initialized(1)
    by (rule total_held_two [OF split_initialized(2,8,3,9,4) split_holds [where meta = meta and meta' = "meta\<lparr>sm_rent_exempt_reserve := r\<rparr>", OF check_split_amounts_le [OF split_initialized(6)] split_initialized(7)]])
      (simp_all add: reserve)
next
  case (split_uninitialized a' v)
  show ?thesis by (rule total_held_move [OF split_uninitialized(1) _ split_uninitialized(5)]) simp
next
  case (merge st source_st clock' history kind source_kind merged a' b')
  have "clock' = clock" using merge(5) clock by simp
  note h = merge_holds [OF merge(6,7,9) [unfolded this] merge(10)]
  show ?thesis unfolding merge(1) by (rule total_held_two [OF merge(2,11,3,12,4) h])
next
  case (withdraw st clock' w history new_rate lockup r is_staked custodian v a')
  have "clock' = clock" using withdraw(2) clock by simp
  note h = withdrawn_holds [OF withdraw(4) [unfolded this] withdraw(3,5) withdraw(6) [unfolded this]]
  show ?thesis by (rule total_held_move [OF withdraw(1) h withdraw(9)])
next
  case (redelegate meta s flags clock' rent' status voter vs s' flags' r amount a' b')
  show ?thesis unfolding redelegate(1)
    by (rule total_held_two [OF redelegate(2,19,3,20,4)])
      (use redelegate(14,15) reserve in \<open>auto simp: unat_sub unat_plus_if' word_le_nat_alt\<close>)
qed simp

end


subsection \<open>The withdraw authority and the lockup\<close>

definition withdrawer_absent :: "stake_env \<Rightarrow> pubkey list \<Rightarrow> pubkey \<Rightarrow> stake_meta \<Rightarrow> bool" where
  "withdrawer_absent env signers w meta \<longleftrightarrow> sa_withdrawer (sm_authorized meta) = w \<and> \<not> signs (se_sha256 env) signers w"

definition custodian_absent :: "stake_env \<Rightarrow> clock \<Rightarrow> pubkey list \<Rightarrow> stake_lockup \<Rightarrow> stake_meta \<Rightarrow> bool" where
  "custodian_absent env clock signers lockup meta \<longleftrightarrow> sm_lockup meta = lockup \<and> is_in_force lockup clock None \<and>
     \<not> signs (se_sha256 env) signers (lu_custodian lockup)"

interpretation by_withdrawer: custody env clock signers "withdrawer_absent env signers w" for env clock signers w
proof unfold_locales
  fix meta ks key kind custodian a
  assume "withdrawer_absent env signers w meta" "\<forall>k\<in>set ks. signs (se_sha256 env) signers k"
    "authorized_authorize (sm_authorized meta) ks key kind (Some (sm_lockup meta, clock, custodian)) = Inr a"
  then show "withdrawer_absent env signers w (meta\<lparr>sm_authorized := a\<rparr>)"
    by (cases kind) (auto simp: withdrawer_absent_def authorized_authorize_def and_then_Inr authorized_check_Inr split: if_splits)
qed (auto simp: withdrawer_absent_def meta_set_lockup_def metas_can_merge_def signs_def split: if_splits)

interpretation by_lockup: custody env clock signers "custodian_absent env clock signers lockup" for env clock signers lockup
proof unfold_locales
  fix meta c
  assume "custodian_absent env clock signers lockup meta" "set_option c \<subseteq> set signers"
  then show "is_in_force (sm_lockup meta) clock c"
    by (cases c) (auto simp: custodian_absent_def is_in_force_def signs_def)
qed (auto simp: custodian_absent_def meta_set_lockup_def metas_can_merge_def signs_def Let_def split: if_splits)

end
