(* ===== verification/Stake_Properties.thy ===== *)
theory Stake_Properties
  imports Stake_Credits Stake_Custody Example_Context
begin

section \<open>Properties of the stake program\<close>

text \<open>
  The properties of the stake program, and an example that they apply to: the staker splits an account whose lockup is
  in force. The codec of the example writes the two states that occur in it.
\<close>

definition example_stake_meta :: stake_meta where
  "example_stake_meta = \<lparr>sm_rent_exempt_reserve = 2282880,
     sm_authorized = \<lparr>sa_staker = replicate 32 3, sa_withdrawer = replicate 32 4\<rparr>,
     sm_lockup = \<lparr>lu_unix_timestamp = 0, lu_epoch = 9, lu_custodian = replicate 32 5\<rparr>\<rparr>"

definition example_stake_codec :: "stake_state bincode" where
  "example_stake_codec = \<lparr>
     bc_serialize = (\<lambda>st. if st = StakeUninitialized then Some [0] else Some [1]),
     bc_serialized_size = (\<lambda>_. Some 1),
     bc_serialize_into = (\<lambda>st d. if d = [] then None else if st = StakeUninitialized then Some [0]
        else if st = StakeInitialized example_stake_meta then Some [1] else None),
     bc_deserialize = (\<lambda>d. case d of [] \<Rightarrow> None
        | c # _ \<Rightarrow> Some (if c = 0 then StakeUninitialized else StakeInitialized example_stake_meta))\<rparr>"

definition example_stake_clock :: clock where
  "example_stake_clock = \<lparr>ck_slot = 0, ck_epoch_start_timestamp = 0, ck_epoch = 5, ck_leader_schedule_epoch = 6, ck_unix_timestamp = 0\<rparr>"

definition example_stake_env :: stake_env where
  "example_stake_env = \<lparr>
     se_sysvar_cache = sysvar_cache_default\<lparr>sc_clock := Some example_stake_clock, sc_rent := Some rent_default\<rparr>,
     se_sha256 = example_sha256, se_state = example_stake_codec,
     se_vote_state = \<lparr>bc_serialize = (\<lambda>_. None), bc_serialized_size = (\<lambda>_. None), bc_serialize_into = (\<lambda>_ _. None),
       bc_deserialize = (\<lambda>_. None)\<rparr>,
     se_decode = (\<lambda>_ bs. if bs = [] then None else Some (SplitStake 3000000)),
     se_config_keys = \<lparr>bc_serialize = (\<lambda>_. None), bc_serialized_size = (\<lambda>_. None), bc_serialize_into = (\<lambda>_ _. None),
       bc_deserialize = (\<lambda>_. None)\<rparr>,
     se_config_decodes = (\<lambda>_. False), se_redelegate = True, se_raise_minimum = False, se_reduce_warmup = None\<rparr>"

definition example_stake_accounts :: "(pubkey \<times> account) list" where
  "example_stake_accounts =
     [(stake_program_id, account_new 1 0 native_loader_id),
      (replicate 32 8, (account_new 9000000 0 stake_program_id)\<lparr>acc_data := 1 # replicate 199 0\<rparr>),
      (replicate 32 9, (account_new 0 0 stake_program_id)\<lparr>acc_data := 0 # replicate 199 0\<rparr>),
      (replicate 32 3, account_default)]"

definition stake_metas :: "instruction_account list" where
  "stake_metas = [example_meta 1 False True, example_meta 2 False True, example_meta 3 True False]"

definition stake_tx :: transaction_context where
  "stake_tx = example_context example_stake_accounts stake_metas [3]"

definition stake_ic :: instruction_context where
  "stake_ic = example_ic stake_metas [3]"

lemma stake_example_current: "get_current_instruction_context stake_tx = Inr stake_ic"
  unfolding stake_tx_def stake_ic_def by (rule current_example)

lemma example_stake_reads_back: "reads_back (se_state example_stake_env)"
proof -
  have "slice_write d [b] = b # drop 1 d" if "d \<noteq> []" for d and b :: u8
    using that by (cases d) (simp_all add: slice_write_def)
  then show ?thesis by (auto simp: reads_back_def example_stake_env_def example_stake_codec_def split: if_splits)
qed

lemma stake_example_signers: "get_signers stake_ic stake_tx = Inr [replicate 32 3]"
  unfolding stake_tx_def stake_ic_def stake_metas_def
  by (simp add: get_signers_def example_ic_def example_meta_def example_context_def
      get_key_of_account_at_index_def vec_get_def example_stake_accounts_def List.insert_def)

lemma example_reserve: "minimum_balance rent_default 200 = 2282880"
  using unat_minimum_balance_default [of 200] by (simp add: word_unat_eq_iff)

lemma stake_example_run: "\<exists>tc'. stake_process_instruction example_stake_env stake_tx = (Inr (), tc')"
proof -
  have "\<exists>tc'. stake_execute example_stake_env stake_ic [replicate 32 3] (SplitStake 3000000) stake_tx = (Inr (), tc')"
    unfolding stake_tx_def stake_ic_def stake_metas_def
    by (simp add: with_stake_account_def check_accounts_def split_stake_account_def check_uninitialized_def get_state_def STAKE_STATE_SIZE_def
        split_initialized_def authorized_check_def validate_split_amount_def check_split_amounts_def get_rent_def example_reserve
        set_state_def get_data_mut_def can_data_be_changed_def write_data_def slice_write_def example_stake_codec_def example_stake_meta_def
        example_stake_env_def example_stake_accounts_def example_eval Let_def ok_or_def and_then_def sysvar_cache_default_def)
  then show ?thesis using stake_example_signers
    by (simp add: stake_process_instruction_def bind_apply reads_apply lift_apply stake_example_current limited_deserialize_def
        example_stake_env_def stake_ic_def example_ic_def del: stake_execute.simps)
qed


lemma stake_example_env:
  "get_clock (se_sysvar_cache example_stake_env) = Inr example_stake_clock"
  "get_rent (se_sysvar_cache example_stake_env) = Inr rent_default" "se_redelegate example_stake_env"
  by (simp_all add: example_stake_env_def sysvar_cache_default_def get_clock_def get_rent_def)

lemma stake_example_accounts:
  "num_accounts stake_tx = 4" "tx_index stake_ic 0 = 1" "tx_index stake_ic 1 = 2"
  "meta_of example_stake_env (account_at stake_tx 1) = Some example_stake_meta" "acc_lamports (account_at stake_tx 1) = 9000000"
  unfolding stake_tx_def stake_ic_def stake_metas_def
  by (simp_all add: example_ic_def example_meta_def example_stake_accounts_def example_context_def ta_new_def refcell_new_def account_at_def
      account_new_def meta_of_def state_of_def example_stake_env_def example_stake_codec_def)

lemma stake_example_backed: "\<forall>k<num_accounts stake_tx. backed example_stake_env (minimum_balance rent_default STAKE_STATE_SIZE) 5 (account_at stake_tx k)"
proof -
  have "backed example_stake_env 2282880 5 (account_at stake_tx k)" if "k \<in> {0, 1, 2, 3}" for k
    using that unfolding stake_tx_def
    by (auto simp: backed_def state_of_def example_stake_accounts_def example_context_def ta_new_def refcell_new_def account_at_def
        account_new_def account_default_def example_stake_env_def example_stake_codec_def example_stake_meta_def)
  moreover have "k \<in> {0, 1, 2, 3}" if "k < 4" for k :: nat using that by auto
  ultimately show ?thesis unfolding stake_example_accounts(1) STAKE_STATE_SIZE_def example_reserve by blast
qed

subsection \<open>The specification\<close>

text \<open>
  C9: the stake program against its specification. When the program succeeds, the accounts of the transaction have changed by one
  step of the specification, with the signatures, the balances and the states that the step asks for; nothing
  else has changed. The only hypothesis on the codec of stake states is that it reads back what it has written.
\<close>

theorem stake_program_refines:
  assumes "reads_back (se_state env)" "get_current_instruction_context tc = Inr ic" "stake_process_instruction env tc = (Inr (), tc')"
  shows "\<exists>signers. get_signers ic tc = Inr signers \<and> num_accounts tc' = num_accounts tc \<and>
    stake_step env (num_accounts tc) (tc_account_keys tc) signers (tx_index ic 0) (tx_index ic 1) (account_at tc) (account_at tc')"
  by (rule stake_program_ledger_step [OF assms])

theorem stake_program_refines_witness:
  "\<exists>tc'. stake_process_instruction example_stake_env stake_tx = (Inr (), tc') \<and>
     stake_step example_stake_env 4 (map fst example_stake_accounts) [replicate 32 3] 1 2 (account_at stake_tx) (account_at tc')"
proof -
  obtain tc' where run: "stake_process_instruction example_stake_env stake_tx = (Inr (), tc')" using stake_example_run by blast
  have keys: "tc_account_keys stake_tx = map fst example_stake_accounts" by (simp add: stake_tx_def example_context_def)
  show ?thesis
    using stake_program_refines [OF example_stake_reads_back stake_example_current run] run
    unfolding stake_example_signers stake_example_accounts keys by auto
qed

text \<open>
  C10: stake is backed. Suppose the accounts of the stake program hold their rent-exempt reserve, and in addition the delegated stake
  where it is not deactivated. Then they do so after every successful instruction of the stake program:
  delegating, splitting, merging, redelegating, rescinding a deactivation and withdrawing never leave a
  delegation with more stake than lamports. The one exception is a stake account whose deactivation is
  rescinded while the feature for redelegation is not active; the other accounts are backed then, too.
\<close>

theorem stake_accounts_backed:
  assumes "reads_back (se_state env)" "get_current_instruction_context tc = Inr ic" "stake_process_instruction env tc = (Inr (), tc')"
    and "get_clock (se_sysvar_cache env) = Inr clock" "get_rent (se_sysvar_cache env) = Inr rent"
    and "\<forall>k<num_accounts tc. backed env (minimum_balance rent STAKE_STATE_SIZE) (ck_epoch clock) (account_at tc k)"
  shows "\<forall>k<num_accounts tc'. backed env (minimum_balance rent STAKE_STATE_SIZE) (ck_epoch clock) (account_at tc' k) \<or>
    \<not> se_redelegate env \<and> k = tx_index ic 0 \<and> rescinded env (ck_epoch clock) (account_at tc k) (account_at tc' k)"
proof -
  from stake_program_ledger_step [OF assms(1-3)] obtain signers where
    "stake_step env (num_accounts tc) (tc_account_keys tc) signers (tx_index ic 0) (tx_index ic 1) (account_at tc) (account_at tc')"
    and n: "num_accounts tc' = num_accounts tc" by blast
  from stake_step_backed [OF this(1) assms(4,5) refl assms(6)] show ?thesis
  proof
    assume "\<exists>a'. account_at tc' = (account_at tc)(tx_index ic 0 := a') \<and> \<not> se_redelegate env \<and>
      rescinded env (ck_epoch clock) (account_at tc (tx_index ic 0)) a'"
    then show ?thesis using assms(6) n by (auto split: if_splits)
  qed (simp add: n)
qed

theorem stake_accounts_backed_witness:
  "\<exists>tc'. stake_process_instruction example_stake_env stake_tx = (Inr (), tc') \<and>
     (\<forall>k<num_accounts tc'. backed example_stake_env (minimum_balance rent_default STAKE_STATE_SIZE) 5 (account_at tc' k))"
proof -
  obtain tc' where run: "stake_process_instruction example_stake_env stake_tx = (Inr (), tc')" using stake_example_run by blast
  have "ck_epoch example_stake_clock = 5" by (simp add: example_stake_clock_def)
  then show ?thesis
    using stake_accounts_backed [OF example_stake_reads_back stake_example_current run stake_example_env(1,2)] stake_example_env(3)
      stake_example_backed run by auto
qed

text \<open>
  C11: custody of staked lamports. As long as a withdraw authority does not sign, no successful instruction of the stake program lowers the
  lamports in the accounts of that authority; and as long as a lockup is in force and its custodian does not
  sign, none lowers the lamports in the accounts under that lockup. The staker may split, merge and redelegate
  in the meantime. Keys derived from a signer with a seed count as signing.
\<close>

theorem stake_custody:
  assumes "reads_back (se_state env)" "get_current_instruction_context tc = Inr ic" "stake_process_instruction env tc = (Inr (), tc')"
    and clock: "get_clock (se_sysvar_cache env) = Inr clock" and signers: "get_signers ic tc = Inr signers"
  shows "(\<not> signs (se_sha256 env) signers w \<longrightarrow>
      total_held env (\<lambda>meta. sa_withdrawer (sm_authorized meta) = w) (num_accounts tc) (account_at tc) \<le>
      total_held env (\<lambda>meta. sa_withdrawer (sm_authorized meta) = w) (num_accounts tc) (account_at tc')) \<and>
    (is_in_force lockup clock None \<and> \<not> signs (se_sha256 env) signers (lu_custodian lockup) \<longrightarrow>
      total_held env (\<lambda>meta. sm_lockup meta = lockup) (num_accounts tc) (account_at tc) \<le>
      total_held env (\<lambda>meta. sm_lockup meta = lockup) (num_accounts tc) (account_at tc'))"
proof -
  have step: "stake_step env (num_accounts tc) (tc_account_keys tc) signers (tx_index ic 0) (tx_index ic 1) (account_at tc) (account_at tc')"
    using stake_program_ledger_step [OF assms(1-3)] signers by simp
  have "withdrawer_absent env signers w = (\<lambda>meta. sa_withdrawer (sm_authorized meta) = w)" if "\<not> signs (se_sha256 env) signers w"
    using that by (auto simp: withdrawer_absent_def)
  moreover have "custodian_absent env clock signers lockup = (\<lambda>meta. sm_lockup meta = lockup)"
    if "is_in_force lockup clock None" "\<not> signs (se_sha256 env) signers (lu_custodian lockup)"
    using that by (auto simp: custodian_absent_def)
  ultimately show ?thesis
    using by_withdrawer.step_keeps_total [OF step clock, of w] by_lockup.step_keeps_total [OF step clock, of lockup] by auto
qed

lemma stake_example_unsigned: "\<not> signs (se_sha256 example_stake_env) [replicate 32 3] (replicate 32 5)"
proof -
  have "example_sha256 bs \<noteq> replicate 32 5" if "take 1 bs = [3]" for bs
    using that by (cases bs) (simp_all add: example_sha256_def numeral_eq_Suc)
  moreover have "take 1 (replicate 32 3 @ bs) = [3 :: u8]" for bs by (simp add: numeral_eq_Suc)
  ultimately show ?thesis
    by (auto simp: signs_def create_with_seed_def example_stake_env_def hashv_def Let_def split: if_splits)
qed

theorem stake_custody_witness:
  "\<exists>tc'. stake_process_instruction example_stake_env stake_tx = (Inr (), tc') \<and>
     9000000 \<le> total_held example_stake_env (\<lambda>meta. sm_lockup meta = sm_lockup example_stake_meta) 4 (account_at tc')"
proof -
  obtain tc' where run: "stake_process_instruction example_stake_env stake_tx = (Inr (), tc')" using stake_example_run by blast
  let ?Q = "\<lambda>meta. sm_lockup meta = sm_lockup example_stake_meta"
  have "held example_stake_env ?Q (account_at stake_tx 1) \<le> total_held example_stake_env ?Q 4 (account_at stake_tx)"
    unfolding total_held_def by (rule member_le_sum) simp_all
  then have "9000000 \<le> total_held example_stake_env ?Q 4 (account_at stake_tx)"
    unfolding held_def stake_example_accounts by simp
  moreover have "is_in_force (sm_lockup example_stake_meta) example_stake_clock None"
    "lu_custodian (sm_lockup example_stake_meta) = replicate 32 5"
    by (simp_all add: is_in_force_def example_stake_meta_def example_stake_clock_def)
  ultimately show ?thesis
    using stake_custody [OF example_stake_reads_back stake_example_current run stake_example_env(1) stake_example_signers,
        of "[]" "sm_lockup example_stake_meta"] run stake_example_unsigned
    unfolding stake_example_accounts by (auto intro: order_trans)
qed


subsection \<open>Withdraw authorities derived with a seed\<close>

text \<open>
  C40: a derived withdraw authority under a lockup. The instructions that authorize with a seed take the custodian of the lockup as an
  optional signing account, but look for its signature among the derived keys only. So while a lockup is in force they
  never change the withdraw authority, whoever signs, unless the authority is itself the custodian.
\<close>

theorem seeded_withdrawer_stuck:
  assumes "get_state (se_state env) b tc = Inr st" "stake_state_meta st = Some meta" "is_in_force (sm_lockup meta) clock None"
    and "sa_withdrawer (sm_authorized meta) \<noteq> lu_custodian (sm_lockup meta)"
  shows "\<exists>e. fst (authorize_with_seed env ic b base_index seed owner new_authority StakeWithdrawer clock custodian tc) = Inl e"
proof (rule ccontr)
  assume "\<not> ?thesis"
  then obtain tc' where run: "authorize_with_seed env ic b base_index seed owner new_authority StakeWithdrawer clock custodian tc = (Inr (), tc')"
    by (cases "authorize_with_seed env ic b base_index seed owner new_authority StakeWithdrawer clock custodian tc";
        cases "fst (authorize_with_seed env ic b base_index seed owner new_authority StakeWithdrawer clock custodian tc)") auto
  let ?tail = "\<lambda>ks. stake_account_authorize env b ks new_authority StakeWithdrawer clock custodian tc = (Inr (), tc')"
  have "?tail [] \<or> (\<exists>k. ?tail [k])"
    using run unfolding authorize_with_seed_def
    by (elim bind_okE lift_okE) (auto elim!: bind_okE reads_okE lift_okE simp: return_apply split: if_splits)
  then have "\<exists>ks. length ks \<le> 1 \<and> ?tail ks" by (elim disjE exE) (rule exI, erule conjI [rotated], simp)+
  then obtain ks where ks: "length ks \<le> 1" "?tail ks" by blast
  then obtain a where "authorized_authorize (sm_authorized meta) ks new_authority StakeWithdrawer (Some (sm_lockup meta, clock, custodian)) = Inr a"
    using assms(1,2)
    by (cases st) (auto simp: stake_account_authorize_def and_then_Inr elim!: bind_okE reads_okE lift_okE)
  then have "lu_custodian (sm_lockup meta) \<in> set ks" "sa_withdrawer (sm_authorized meta) \<in> set ks"
    using assms(3) by (auto simp: authorized_authorize_def check_custodian_def and_then_Inr authorized_check_Inr is_in_force_def
        split: option.splits if_splits)
  then show False using ks(1) assms(4) by (cases ks) auto
qed

theorem seeded_withdrawer_stuck_witness:
  "\<exists>e. fst (authorize_with_seed example_stake_env stake_ic
     \<lparr>ba_instruction_context = stake_ic, ba_index_in_transaction = 1, ba_index_in_instruction = 1\<rparr>
     2 [] [] [] StakeWithdrawer example_stake_clock (Some (replicate 32 5)) stake_tx) = Inl e"
proof (rule seeded_withdrawer_stuck [where st = "StakeInitialized example_stake_meta" and meta = example_stake_meta])
  have "acc_data (account_at stake_tx 1) = 1 # replicate 199 0"
    by (simp add: stake_tx_def example_stake_accounts_def example_context_def ta_new_def refcell_new_def account_at_def)
  then show "get_state (se_state example_stake_env) \<lparr>ba_instruction_context = stake_ic, ba_index_in_transaction = 1, ba_index_in_instruction = 1\<rparr> stake_tx
      = Inr (StakeInitialized example_stake_meta)"
    by (simp add: get_state_def get_data_def ba_account_def example_stake_env_def example_stake_codec_def)
qed (simp_all add: example_stake_meta_def example_stake_clock_def is_in_force_def)

end
