(* ===== verification/Example_Message.thy ===== *)
theory Example_Message
  imports Builtins Vote_Account_Safety Stake_Properties Message_Properties
begin

section \<open>A concrete message\<close>

text \<open>
  A legacy message with one transfer of the system program, run through the message processor with
  the modelled built-ins. The properties of the runtime are evaluated on it.
\<close>

definition transfer_message :: sanitized_message where
  "transfer_message = Legacy (legacy_sanitized_new
     \<lparr>lm_header = \<lparr>mh_num_required_signatures = 1, mh_num_readonly_signed_accounts = 0, mh_num_readonly_unsigned_accounts = 1\<rparr>,
      lm_account_keys = [replicate 32 1, replicate 32 2, system_program_id],
      lm_recent_blockhash = replicate 32 9,
      lm_instructions = [\<lparr>ci_program_id_index = 2, ci_accounts = [0, 1], ci_data = enc_system_instruction (Transfer 5)\<rparr>]\<rparr>)"

definition example_start :: transaction_context where
  "example_start =
     \<lparr>tc_account_keys = [replicate 32 1, replicate 32 2, system_program_id],
      tc_accounts = ta_new (map refcell_new [account_new 1000 0 system_program_id, account_new 0 0 system_program_id,
        (account_new 1 0 native_loader_id)\<lparr>acc_executable := True\<rparr>]),
      tc_instruction_stack_capacity = 5, tc_instruction_trace_capacity = 64,
      tc_instruction_stack = [], tc_instruction_trace = [ic_default],
      tc_return_data = \<lparr>rd_program_id = replicate 32 0, rd_data = []\<rparr>,
      tc_accounts_resize_delta = 0, tc_rent = rent_default\<rparr>"

definition example_budget :: compute_budget where
  "example_budget = \<lparr>cb_compute_unit_limit = 200000, cb_max_invoke_stack_height = 5, cb_max_instruction_trace_length = 64\<rparr>"

definition example_builtin_env :: builtin_env where
  "example_builtin_env = \<lparr>be_system = example_env, be_vote = example_vote_env, be_stake = example_stake_env, be_config = example_config_env,
     be_lookup = \<lparr>le_sysvar_cache = sysvar_cache_default, le_sha256 = example_sha256,
       le_bytes_are_curve_point = (\<lambda>_. False), le_table = table_codec,
       le_system = system_instruction_codec,
       le_decode = (\<lambda>_ _. None), le_relax_authority_signer_check = True\<rparr>\<rparr>"

abbreviation transfer_data :: bytes where
  "transfer_data \<equiv> enc_system_instruction (Transfer 5)"

abbreviation transfer_accounts :: "instruction_account list" where
  "transfer_accounts \<equiv> [example_meta 0 True True, example_meta 1 False True]"

text \<open>The transaction context while the transfer runs, and when it is done.\<close>

definition example_frame :: transaction_context where
  "example_frame = example_start\<lparr>tc_instruction_stack := [0],
     tc_instruction_trace := [\<lparr>ic_nesting_level = 0, ic_instruction_accounts_lamport_sum = 1000, ic_program_accounts = [2],
       ic_instruction_accounts = transfer_accounts, ic_instruction_data = transfer_data\<rparr>, ic_default]\<rparr>"

definition example_done :: transaction_context where
  "example_done = example_frame\<lparr>
      tc_accounts := \<lparr>ta_accounts = map refcell_new [account_new 995 0 system_program_id, account_new 5 0 system_program_id,
        (account_new 1 0 native_loader_id)\<lparr>acc_executable := True\<rparr>], ta_touched_flags = [True, True, False]\<rparr>,
      tc_return_data := \<lparr>rd_program_id = system_program_id, rd_data = []\<rparr>\<rparr>"

lemmas frame_eval = example_frame_def example_done_def example_start_def example_eval
  get_instruction_context_at_index_in_trace_def get_instruction_trace_length_def
  get_current_instruction_context_def get_instruction_context_at_nesting_level_def get_instruction_context_stack_height_def
  on_tc_def update_next_instruction_context_def upt_conv_Cons try_borrow_program_account_def ic_configure_def
  instruction_accounts_lamport_sum_def is_instruction_account_duplicate_def Let_def ic_default_def
  configured_def get_account_at_index_def get_key_def

lemma decode_transfer: "limited_deserialize (env_decode example_env) transfer_data = Inr (Transfer 5)"
  using limited_decode_example [of "Transfer 5" "[]"] by (simp add: example_ic_def put_u64_def)

lemma plain_keys: "\<not> is_builtin_key_or_sysvar key_a" "\<not> is_builtin_key_or_sysvar key_b"
  by (simp_all add: is_builtin_key_or_sysvar_def BUILTIN_PROGRAMS_KEYS_def is_sysvar_id_def sysvar_all_ids_def list_eq_replicate
      eq_commute [of "replicate _ _"] message_id_defs)

lemma example_message_instruction:
  "program_instructions_iter transfer_message =
     [(Some system_program_id, \<lparr>ci_program_id_index = 2, ci_accounts = [0, 1], ci_data = transfer_data\<rparr>)]"
  by (simp add: transfer_message_def program_instructions_iter_def msg_account_keys_def msg_instructions_def account_keys_get_def
      key_segment_iter_def legacy_sanitized_new_def del: enc_system_instruction.simps)

lemma example_message_accounts:
  "message_instruction_accounts transfer_message \<lparr>ci_program_id_index = 2, ci_accounts = [0, 1], ci_data = d\<rparr> = transfer_accounts"
  by (simp add: transfer_message_def message_instruction_accounts_def message_instruction_account_def msg_is_signer_def
      msg_is_writable_def msg_header_def legacy_sanitized_new_def example_meta_def legacy_is_writable_def
      legacy_is_writable_index_def legacy_demote_program_id_def Let_def vec_get_def plain_keys usize_wrapping_sub_def
      legacy_is_key_called_as_program_def index_called_as_program_def)

lemma example_push:
  assumes "iv_tc iv = configured [2] transfer_accounts transfer_data example_start"
  shows "\<exists>iv'. invoke_push iv = (Inr (), iv') \<and> iv_tc iv' = example_frame \<and> iv_compute_meter iv' = iv_compute_meter iv"
  using assms by (simp add: invoke_push_def tc_push_def frame_eval del: enc_system_instruction.simps)

lemma system_entrypoint:
  "lookup_entrypoint (loaded_builtins env 5) system_program_id =
     Inr (declare_process_instruction system_DEFAULT_COMPUTE_UNITS (on_tc (system_process_instruction (be_system env))))"
  by (simp add: lookup_entrypoint_def builtin_programs_def builtin_defs numeral_eq_Suc)

lemma example_chain:
  assumes "iv_tc iv = example_frame" "iv_compute_meter iv = 200000"
  shows "\<exists>iv'. process_executable_chain (loaded_builtins example_builtin_env 5) iv = (Inr (), iv') \<and> iv_tc iv' = example_done"
  using assms
  by (simp add: process_executable_chain_def frame_eval builtin_id_of_def system_entrypoint set_return_data_def
      run_entrypoint_def decode_transfer system_DEFAULT_COMPUTE_UNITS_def example_builtin_env_def
      declare_process_instruction_def consume_checked_def system_process_instruction_def get_signers_def
      transfer_def transfer_verified_def get_remaining_def is_ok_def del: enc_system_instruction.simps)

lemma example_pop:
  assumes "iv_tc iv = example_done"
  shows "\<exists>iv'. invoke_pop iv = (Inr (), iv') \<and> iv_tc iv' = example_done\<lparr>tc_instruction_stack := []\<rparr>"
  using assms
  by (simp add: invoke_pop_def frame_eval tc_pop_def detect_unbalanced_def option.case_eq_if del: enc_system_instruction.simps)

lemma example_start_inv: "tx_inv example_start"
  by (simp add: tx_inv_def stack_inv_def example_start_def system_program_id_def list_eq_replicate)

lemma example_process_instruction:
  assumes "iv_tc iv = example_start" "iv_compute_meter iv = 200000"
  shows "\<exists>iv'. process_instruction (loaded_builtins example_builtin_env 5) transfer_data transfer_accounts [2] iv = (Inr (), iv') \<and>
    iv_tc iv' = example_done\<lparr>tc_instruction_stack := []\<rparr>"
proof -
  have "tx_inv (iv_tc iv)" using assms(1) example_start_inv by simp
  then obtain v where v: "iv_tc v = configured [2] transfer_accounts transfer_data example_start" "iv_compute_meter v = 200000"
    "process_instruction (loaded_builtins example_builtin_env 5) transfer_data transfer_accounts [2] iv =
       bind invoke_push (\<lambda>_. run_then_pop (process_executable_chain (loaded_builtins example_builtin_env 5))) v"
    using process_instruction_pushes [of iv "[2]" transfer_accounts transfer_data] assms by metis
  obtain u where u: "invoke_push v = (Inr (), u)" "iv_tc u = example_frame" "iv_compute_meter u = 200000"
    using example_push [OF v(1)] v(2) by auto
  obtain w where w: "process_executable_chain (loaded_builtins example_builtin_env 5) u = (Inr (), w)" "iv_tc w = example_done"
    using example_chain [OF u(2,3)] by blast
  show ?thesis unfolding v(3) using example_pop [OF w(2)] u w by (auto simp: bind_apply run_then_pop_def)
qed

lemma example_message_run:
  "\<exists>ps. process_message (loaded_builtins example_builtin_env 5) (\<lambda>_. False) transfer_message [[2]] example_budget 0 example_start = (Inr (), ps) \<and>
     pr_tc ps = example_done\<lparr>tc_instruction_stack := []\<rparr>"
proof -
  have "find_index_of_account example_start sysvar_instructions_id = None"
    by (simp add: find_index_of_account_def example_start_def list_eq_replicate eq_commute [of "replicate _ _"] id_defs)
  then have fixup: "fixup_instructions_sysvar 0 example_start = Inr example_start" by (simp add: fixup_instructions_sysvar_def)
  have pre: "\<not> is_precompile system_program_id (\<lambda>_. False)"
    by (simp add: is_precompile_def PRECOMPILES_def precompile_check_id_def secp256k1_program_id_def ed25519_program_id_def
        system_program_id_def list_eq_replicate)
  obtain iv' where "process_instruction (loaded_builtins example_builtin_env 5) transfer_data transfer_accounts [2]
      (invoke_context_new example_start example_budget) = (Inr (), iv')" "iv_tc iv' = example_done\<lparr>tc_instruction_stack := []\<rparr>"
    using example_process_instruction [of "invoke_context_new example_start example_budget"]
    by (auto simp: invoke_context_new_def example_budget_def)
  then show ?thesis
    by (simp add: process_message_def example_message_instruction process_message_instruction_def fixup pre Let_def
        example_message_accounts bind_apply return_apply on_iv_def finally_do_apply invoke_context_new_def
        del: enc_system_instruction.simps loaded_builtins.simps)
qed

lemma example_message_short:
  "\<forall>ix\<in>set (msg_instructions transfer_message). \<forall>ps\<in>set [[2]]. length (ps :: index_of_account list) + length (ci_accounts ix) < 2 ^ 16"
  by (simp add: transfer_message_def msg_instructions_def legacy_sanitized_new_def)

subsection \<open>A caller that invokes the system program\<close>

definition transfer_ix :: instruction where
  "transfer_ix = \<lparr>ix_program_id = system_program_id,
     ix_accounts = [\<lparr>am_pubkey = key_a, am_is_signer = True, am_is_writable = True\<rparr>,
       \<lparr>am_pubkey = key_b, am_is_signer = False, am_is_writable = True\<rparr>], ix_data = transfer_data\<rparr>"

definition caller_ic :: instruction_context where
  "caller_ic = example_ic (transfer_accounts @ [example_meta 2 False False]) []"

definition caller_frame :: transaction_context where
  "caller_frame = example_start\<lparr>tc_instruction_stack := [0],
     tc_instruction_trace := [caller_ic, ic_default]\<rparr>"

lemma caller_frame_eval:
  "tx_inv caller_frame"
  "get_current_instruction_context caller_frame = Inr caller_ic"
  by (simp_all add: tx_inv_def stack_inv_def caller_frame_def caller_ic_def frame_eval system_program_id_def list_eq_replicate)

lemma key_differs: "key_a \<noteq> system_program_id" "key_b \<noteq> system_program_id" "key_a \<noteq> key_b"
  by (simp_all add: system_program_id_def replicate_eq_replicate)

lemma caller_prepares:
  "\<exists>ias ps. prepare_instruction transfer_ix [] caller_frame = (Inr (ias, ps), caller_frame) \<and> ias = transfer_accounts \<and> ps = [2]"
proof -
  have dedup: "dedup_accounts caller_frame caller_ic (ix_accounts transfer_ix) 0 [] [] =
      Inr (transfer_accounts, [0, 1])"
    by (simp add: transfer_ix_def caller_frame_def caller_ic_def example_start_def example_ic_def example_meta_def find_index_of_account_def
        find_index_of_instruction_account_def key_differs key_differs [symmetric] vec_get_def)
  have check: "check_privileges caller_ic [] transfer_accounts caller_frame = (Inr (), caller_frame)"
    by (simp add: caller_frame_def caller_ic_def frame_eval del: enc_system_instruction.simps)
  have "find_index_of_instruction_account caller_ic caller_frame (ix_program_id transfer_ix) = Some 2"
    by (simp add: transfer_ix_def caller_frame_def caller_ic_def example_start_def example_ic_def example_meta_def
        find_index_of_instruction_account_def key_differs vec_get_def)
  moreover have "with_instruction_account caller_ic 2 (\<lambda>b. bind (gets (is_executable b)) (\<lambda>executable.
      bind (fail_if (\<not> executable) AccountNotExecutable) (\<lambda>_. return (ba_index_in_transaction b)))) caller_frame = (Inr 2, caller_frame)"
    by (simp add: caller_frame_def caller_ic_def frame_eval)
  ultimately show ?thesis
    by (simp add: prepare_instruction_def bind_apply reads_apply lift_apply return_apply caller_frame_eval dedup check [unfolded One_nat_def] vec_get_def and_then_def
        del: check_privileges.simps)
qed

end
