(* ===== verification/Runtime_Properties.thy ===== *)
theory Runtime_Properties
  imports Example_Message
begin

section \<open>The runtime with the built-in programs\<close>

text \<open>
  What a message does when its instructions run the modelled built-ins: which accounts it may
  change, that lamports are neither created nor destroyed, that a cross-program invocation carries no
  privilege its caller lacks, and that the depth to which the program table is unfolded does not
  matter once it reaches the stack capacity.
\<close>

subsection \<open>The depth of the program table\<close>

lemma process_instruction_deeper:
  assumes "tx_inv (iv_tc iv)" "length ps + length ias < 2 ^ 16"
    and "tc_instruction_stack_capacity (iv_tc iv) \<le> length (tc_instruction_stack (iv_tc iv)) + n" "n \<le> n'"
  shows "process_instruction (loaded_builtins env n') data ias ps iv = process_instruction (loaded_builtins env n) data ias ps iv"
  using assms(4)
proof (induction rule: dec_induct)
  case (step k)
  then show ?case
    using process_instruction_depth [OF assms(1,2), of k env data] assms(3) by (simp del: loaded_builtins.simps)
qed simp

lemma message_instruction_deeper:
  assumes inv: "tx_inv (pr_tc ps)" and len: "length ps_ix + length (ci_accounts ix) < 2 ^ 16"
    and cap: "tc_instruction_stack_capacity (pr_tc ps) \<le> n" "n \<le> n'"
  shows "process_message_instruction (loaded_builtins env n') is_active m i p ix ps_ix ps =
    process_message_instruction (loaded_builtins env n) is_active m i p ix ps_ix ps"
proof (cases p)
  case (Some pk)
  let ?ias = "message_instruction_accounts m ix"
  have "process_instruction (loaded_builtins env n') (ci_data ix) ?ias ps_ix iv =
      process_instruction (loaded_builtins env n) (ci_data ix) ?ias ps_ix iv"
    if "fixup_instructions_sysvar i (pr_tc ps) = Inr tc" "iv_tc iv = tc" for tc iv
    using fixup_ok [OF that(1) inv] that(2) len cap
    by (intro process_instruction_deeper) (auto simp: msg_rel_def)
  then show ?thesis
    using Some by (auto simp: process_message_instruction_def bind_apply Let_def on_iv_def finally_do_apply split: sum.split)
qed (simp add: process_message_instruction_def)

lemma message_loop_deeper:
  assumes "tx_inv (pr_tc ps)" "tc_instruction_stack_capacity (pr_tc ps) \<le> n" "n \<le> n'"
    and "\<forall>((p, ix), ps_ix)\<in>set items. length ps_ix + length (ci_accounts ix) < 2 ^ 16"
  shows "process_message_loop (loaded_builtins env n') is_active m i items ps =
    process_message_loop (loaded_builtins env n) is_active m i items ps"
  using assms
proof (induction items arbitrary: i ps)
  case (Cons item items)
  obtain p ix ps_ix where item: "item = ((p, ix), ps_ix)" by (metis prod.collapse)
  let ?run = "process_message_instruction (loaded_builtins env n) is_active m i p ix ps_ix ps"
  have len: "length ps_ix + length (ci_accounts ix) < 2 ^ 16" using Cons.prems(4) item by simp
  have "message_step m (fst ?run = Inr ()) (pr_tc ps) (pr_tc (snd ?run))"
    by (rule builtins.message_instruction_step [OF prod.collapse [symmetric] Cons.prems(1) len])
  then have "tx_inv (pr_tc (snd ?run))" "tc_instruction_stack_capacity (pr_tc (snd ?run)) \<le> n"
    using Cons.prems(2) by (simp_all add: message_step_def msg_rel_def)
  then have "process_message_loop (loaded_builtins env n') is_active m (Suc i) items (snd ?run) =
      process_message_loop (loaded_builtins env n) is_active m (Suc i) items (snd ?run)"
    using Cons.prems(3,4) by (intro Cons.IH) simp_all
  then show ?case
    using message_instruction_deeper [OF Cons.prems(1) len Cons.prems(2,3)]
    by (cases ?run; cases "fst ?run") (simp_all add: item bind_apply)
qed simp

lemma items_short:
  assumes "\<forall>ix\<in>set (msg_instructions m). \<forall>ps\<in>set program_indices. length ps + length (ci_accounts ix) < 2 ^ 16"
  shows "\<forall>((p, ix), ps_ix)\<in>set (zip (program_instructions_iter m) program_indices). length ps_ix + length (ci_accounts ix) < 2 ^ 16"
proof
  fix x
  assume "x \<in> set (zip (program_instructions_iter m) program_indices)"
  then obtain p ix ps where x: "x = ((p, ix), ps)" "(p, ix) \<in> set (program_instructions_iter m)" "ps \<in> set program_indices"
    by (metis prod.collapse set_zip_leftD set_zip_rightD)
  then have "ix \<in> set (msg_instructions m)" by (auto simp: program_instructions_iter_def)
  then show "(\<lambda>((p, ix), ps_ix). length ps_ix + length (ci_accounts ix) < 2 ^ 16) x" using assms x by simp
qed

text \<open>
  C15: the invocation depth is bounded by the stack. With a program table unfolded at least as deep
  as the capacity of the instruction stack, a message has the same result and leaves the same state
  as with a table unfolded exactly as deep as the stack: no run reaches the bottom of the table.
\<close>
theorem message_depth_enough:
  assumes "tx_inv tc" "tc_instruction_stack_capacity tc \<le> n"
    and "\<forall>ix\<in>set (msg_instructions m). \<forall>ps\<in>set program_indices. length ps + length (ci_accounts ix) < 2 ^ 16"
  shows "process_message (loaded_builtins env n) is_active m program_indices budget units tc =
    process_message (loaded_builtins env (tc_instruction_stack_capacity tc)) is_active m program_indices budget units tc"
  unfolding process_message_def using assms
  by (intro message_loop_deeper items_short) (simp_all add: invoke_context_new_def)

theorem message_depth_enough_witness:
  "\<exists>ps. process_message (loaded_builtins example_builtin_env 9) (\<lambda>_. False) transfer_message [[2]] example_budget 0 example_start = (Inr (), ps) \<and>
     acc_lamports (account_at (pr_tc ps) 1) = 5"
proof -
  have "process_message (loaded_builtins example_builtin_env 9) (\<lambda>_. False) transfer_message [[2]] example_budget 0 example_start =
      process_message (loaded_builtins example_builtin_env (tc_instruction_stack_capacity example_start)) (\<lambda>_. False) transfer_message [[2]]
        example_budget 0 example_start"
    by (rule message_depth_enough [OF example_start_inv _ example_message_short]) (simp add: example_start_def)
  moreover have "tc_instruction_stack_capacity example_start = 5" by (simp add: example_start_def)
  ultimately show ?thesis using example_message_run by (auto simp: example_done_def account_at_def refcell_new_def account_new_def)
qed

subsection \<open>What a message may do\<close>

text \<open>
  C2: the effect of a message that runs the built-ins. On every outcome, error or not, the accounts
  that the message does not lock for writing are unchanged, except that the processor writes the index
  of the current instruction into the data of the instructions sysvar; the instruction stack is
  unwound and every account borrow is released. If the message succeeds, the lamports of all accounts
  add up to the same total as before.
\<close>
theorem message_effect:
  assumes "tx_inv tc"
    and "\<forall>ix\<in>set (msg_instructions m). \<forall>ps\<in>set program_indices. length ps + length (ci_accounts ix) < 2 ^ 16"
    and "process_message (loaded_builtins env n) is_active m program_indices budget units tc = (r, ps')"
  shows "(\<forall>k. \<not> msg_is_writable m k \<longrightarrow> account_at (pr_tc ps') k = account_at tc k \<or>
       (tc_account_keys tc ! k = sysvar_instructions_id \<and>
        (\<exists>d. length d = length (acc_data (account_at tc k)) \<and> account_at (pr_tc ps') k = (account_at tc k)\<lparr>acc_data := d\<rparr>))) \<and>
     tc_instruction_stack (pr_tc ps') = tc_instruction_stack tc \<and> borrow_flags (pr_tc ps') = borrow_flags tc \<and>
     tc_account_keys (pr_tc ps') = tc_account_keys tc \<and>
     (r = Inr () \<longrightarrow> total_lamports (num_accounts (pr_tc ps')) (account_at (pr_tc ps')) = total_lamports (num_accounts tc) (account_at tc))"
  using builtins.process_message_step [OF assms(3,1,2)]
  unfolding message_step_def msg_rel_def sysvar_update_def by blast

theorem message_effect_witness:
  "\<exists>ps. process_message (loaded_builtins example_builtin_env 5) (\<lambda>_. False) transfer_message [[2]] example_budget 0 example_start = (Inr (), ps) \<and>
     acc_lamports (account_at (pr_tc ps) 1) = 5 \<and>
     total_lamports (num_accounts (pr_tc ps)) (account_at (pr_tc ps)) = total_lamports (num_accounts example_start) (account_at example_start)"
proof -
  obtain ps where run: "process_message (loaded_builtins example_builtin_env 5) (\<lambda>_. False) transfer_message [[2]] example_budget 0 example_start = (Inr (), ps)"
    "pr_tc ps = example_done\<lparr>tc_instruction_stack := []\<rparr>" using example_message_run by blast
  then show ?thesis
    using message_effect [OF example_start_inv example_message_short run(1)]
    by (auto simp: example_done_def account_at_def refcell_new_def account_new_def)
qed

text \<open>
  C3: a cross-program invocation carries no privilege its caller lacks. When \<open>prepare_instruction\<close>
  succeeds, the accounts it returns are those of the instruction, each with exactly the union of the
  privileges that the instruction asks for its key; a writable one is writable for the caller, a
  signer is a signer of the caller or an explicitly given signer, and the program account is
  executable and has the key of the instruction's program.
\<close>
theorem no_privilege_escalation:
  assumes "prepare_instruction ix signers tc = (Inr (ias, ps), tc')"
    and "tx_inv tc" "get_current_instruction_context tc = Inr caller" "wf_ic caller"
    and "length (ix_accounts ix) \<le> 2 ^ 16"
  shows "length ias = length (ix_accounts ix) \<and> (\<forall>i<length ias.
       tc_account_keys tc ! unat (ia_index_in_transaction (ias ! i)) = am_pubkey (ix_accounts ix ! i) \<and>
       ia_is_writable (ias ! i) = (\<exists>am\<in>set (ix_accounts ix). am_pubkey am = am_pubkey (ix_accounts ix ! i) \<and> am_is_writable am) \<and>
       ia_is_signer (ias ! i) = (\<exists>am\<in>set (ix_accounts ix). am_pubkey am = am_pubkey (ix_accounts ix ! i) \<and> am_is_signer am)) \<and>
     (\<forall>ia\<in>set ias. (ia_is_writable ia \<longrightarrow> writable_at caller (unat (ia_index_in_transaction ia))) \<and>
       (ia_is_signer ia \<longrightarrow> signer_at caller (unat (ia_index_in_transaction ia)) \<or>
          tc_account_keys tc ! unat (ia_index_in_transaction ia) \<in> set signers)) \<and>
     (\<exists>p. ps = [p] \<and> acc_executable (account_at tc (unat p)) \<and> tc_account_keys tc ! unat p = ix_program_id ix)"
  using prepare_instruction_ok [OF assms]
  by (auto simp: prepared_def vec_get_def split: if_splits)

theorem no_privilege_escalation_witness:
  "\<exists>ias ps. prepare_instruction transfer_ix [] caller_frame = (Inr (ias, ps), caller_frame) \<and>
     ps = [2] \<and> map ia_is_signer ias = [True, False] \<and> map ia_is_writable ias = [True, True]"
proof -
  obtain ias ps where run: "prepare_instruction transfer_ix [] caller_frame = (Inr (ias, ps), caller_frame)"
    "ias = transfer_accounts" "ps = [2]" using caller_prepares by blast
  have "wf_ic caller_ic" by (simp add: caller_ic_def wf_ic_def example_ic_def)
  note no_privilege_escalation [OF run(1) caller_frame_eval this]
  then show ?thesis using run by (simp add: transfer_ix_def example_meta_def)
qed

end
