(* ===== verification/Lookup_Table_Safety.thy ===== *)
theory Lookup_Table_Safety
  imports Example_Message
begin

section \<open>Lookup tables under the built-in programs\<close>

text \<open>
  The property of the lookup table program over the table of built-ins, where creating and extending
  a table invoke the system program, and a run that deactivates a table.
\<close>

text \<open>
  C16: a lookup table changes only along its state machine and under its authority. When the lookup
  table program succeeds, an account that holds a table keeps its data; or it is the first account of
  the instruction, the second account is the authority of the table and signed, and the table took
  one freeze, extend or deactivate step at the current slot, or it was closed after it had been
  deactivated for so long that its deactivation slot left the slot hashes.
\<close>
theorem lookup_tables_authorized:
  assumes "alt_process_instruction env (loaded_builtins benv (Suc n)) iv = (Inr (), iv')"
    and "table_laws (le_table env)" "tx_inv (iv_tc iv)" "get_current_instruction_context (iv_tc iv) = Inr ic" "wf_ic ic"
    and "native_program (iv_tc iv) system_program_id"
    and "get_clock (le_sysvar_cache env) = Inr clock" "get_slot_hashes (le_sysvar_cache env) = Inr slot_hashes"
    and "\<forall>d ks. le_decode env PACKET_DATA_SIZE d = Some (ExtendLookupTable ks) \<longrightarrow> (\<forall>k\<in>set ks. wf_key k) \<and> length ks < 2 ^ 63"
    and "acc_owner (account_at (iv_tc iv) k) = alt_program_id" "table_at env (iv_tc iv) k = Inr t"
  shows "acc_data (account_at (iv_tc iv') k) = acc_data (account_at (iv_tc iv) k) \<or>
    (k = tx_index ic 0 \<and> (\<exists>authority. signed_by ic 1 (iv_tc iv) authority \<and> lt_authority (alt_meta t) = Some authority \<and>
      ((\<exists>t'. table_step authority (ck_slot clock) t t' \<and> table_at env (iv_tc iv') k = Inr t') \<or>
       (table_status (alt_meta t) (ck_slot clock) slot_hashes = Deactivated \<and>
        acc_data (account_at (iv_tc iv') k) = [] \<and> acc_lamports (account_at (iv_tc iv') k) = 0))))"
  by (rule builtins.alt_tables [OF assms(1) system_is_leaf assms(2-11)])

subsection \<open>Deactivating a table\<close>

definition table_clock :: clock where
  "table_clock = \<lparr>ck_slot = 7, ck_epoch_start_timestamp = 0, ck_epoch = 0, ck_leader_schedule_epoch = 1, ck_unix_timestamp = 0\<rparr>"

definition table_env :: lookup_env where
  "table_env = \<lparr>le_sysvar_cache = sysvar_cache_default\<lparr>sc_clock := Some table_clock, sc_slot_hashes := Some []\<rparr>,
     le_sha256 = example_sha256, le_bytes_are_curve_point = (\<lambda>_. False), le_table = table_codec,
     le_system = system_instruction_codec,
     le_decode = (\<lambda>_ bs. if bs = le_bytes 4 3 then Some DeactivateLookupTable else None),
     le_relax_authority_signer_check = True\<rparr>"

definition table_data :: bytes where
  "table_data = enc_program_state (LookupTable (alt_meta example_table)) @ replicate 32 2"

definition table_accounts :: "(pubkey \<times> account) list" where
  "table_accounts =
     [(alt_program_id, (account_new 1 0 native_loader_id)\<lparr>acc_executable := True\<rparr>),
      (replicate 32 5, (account_new 2000000 0 alt_program_id)\<lparr>acc_data := table_data\<rparr>),
      (replicate 32 1, account_default)]"

abbreviation table_metas :: "instruction_account list" where
  "table_metas \<equiv> [example_meta 1 False True, example_meta 2 True False]"

abbreviation table_tx :: transaction_context where
  "table_tx \<equiv> example_context table_accounts table_metas (le_bytes 4 3)"

lemma table_data_deserialize: "table_deserialize table_codec table_data = Inr example_table"
proof -
  let ?s = "LookupTable (alt_meta example_table)"
  have wf: "?s \<in> wf_program_state"
    by (simp add: wf_program_state_def example_table_def lookup_table_meta_new_def lookup_table_meta_default_def wf_key_def PUBKEY_BYTES_def)
  have len: "length (enc_program_state ?s) = 56"
    by (simp add: example_table_def lookup_table_meta_new_def lookup_table_meta_default_def)
  have "pubkey_chunks (replicate 32 2) = [replicate 32 2]"
    using pubkey_chunks_key [of "replicate 32 2" "[]"] by (simp add: pubkey_chunks.simps)
  then show ?thesis
    using dec_enc_program_state [OF wf, of "replicate 32 2"] len
    by (simp add: table_deserialize_def table_data_def table_codec_def fixint_codec_def try_cast_pubkeys_def
        LOOKUP_TABLE_META_SIZE_def and_then_def del: enc_program_state.simps) (simp add: example_table_def)
qed

lemma alt_not_key: "alt_program_id \<noteq> replicate 32 x"
  by (simp add: alt_program_id_def list_eq_replicate)

lemma table_facts:
  "lt_authority (alt_meta example_table) = Some (replicate 32 1)" "lt_deactivation_slot (alt_meta example_table) = - 1"
  "length table_data = 88" "LOOKUP_TABLE_META_SIZE = 56"
  "bc_serialize_into table_codec (LookupTable ((alt_meta example_table)\<lparr>lt_deactivation_slot := 7\<rparr>)) (replicate 56 0) =
     Some (enc_program_state (LookupTable ((alt_meta example_table)\<lparr>lt_deactivation_slot := 7\<rparr>)))"
  by (simp_all add: example_table_def lookup_table_meta_new_def lookup_table_meta_default_def table_data_def
      LOOKUP_TABLE_META_SIZE_def table_codec_def fixint_codec_def)

lemma table_run_ok:
  "\<exists>tc'. deactivate_lookup_table table_env (example_ic table_metas (le_bytes 4 3)) table_tx = (Inr (), tc')"
  by (simp add: deactivate_lookup_table_def check_table_owner_def check_signing_account_def check_authority_def table_env_def
      overwrite_account_meta_def overwrite_meta_data_def example_eval table_accounts_def table_data_deserialize get_clock_def
      table_clock_def get_data_mut_def can_data_be_changed_def write_data_def get_key_def and_then_def table_facts)

lemma table_process_ok:
  assumes "iv_tc iv = table_tx"
  shows "\<exists>iv'. alt_process_instruction table_env programs iv = (Inr (), iv')"
proof -
  obtain tc' where "deactivate_lookup_table table_env (example_ic table_metas (le_bytes 4 3)) table_tx = (Inr (), tc')"
    using table_run_ok by blast
  moreover have "limited_deserialize (le_decode table_env) (le_bytes 4 3) = Inr DeactivateLookupTable"
    by (simp add: limited_deserialize_def table_env_def)
  ultimately show ?thesis
    using assms
    by (simp add: alt_process_instruction_def bind_apply on_tc_def reads_apply current_example lift_apply) (simp add: example_ic_def)
qed

lemma table_tx_inv: "tx_inv table_tx" "native_program table_tx system_program_id"
  by (simp_all add: tx_inv_def stack_inv_def native_program_def example_context_def table_accounts_def example_ic_def
      system_program_id_def alt_not_key replicate_eq_replicate vec_get_def nth_Cons split: nat.splits)

theorem lookup_tables_authorized_witness:
  "\<exists>iv'. alt_process_instruction table_env (loaded_builtins example_builtin_env 1) (invoke_context_new table_tx example_budget) = (Inr (), iv') \<and>
     (acc_data (account_at (iv_tc iv') 1) = table_data \<or>
      (\<exists>authority. signed_by (example_ic table_metas (le_bytes 4 3)) 1 table_tx authority \<and>
         ((\<exists>t'. table_step authority 7 example_table t' \<and> table_at table_env (iv_tc iv') 1 = Inr t') \<or>
          (acc_data (account_at (iv_tc iv') 1) = [] \<and> acc_lamports (account_at (iv_tc iv') 1) = 0))))"
proof -
  obtain iv' where run: "alt_process_instruction table_env (loaded_builtins example_builtin_env (Suc 0)) (invoke_context_new table_tx example_budget) = (Inr (), iv')"
    using table_process_ok [of "invoke_context_new table_tx example_budget"] by (auto simp: invoke_context_new_def)
  have start: "iv_tc (invoke_context_new table_tx example_budget) = table_tx" by (simp add: invoke_context_new_def)
  have wf: "wf_ic (example_ic table_metas (le_bytes 4 3))" by (simp add: wf_ic_def example_ic_def)
  have facts: "table_laws (le_table table_env)" "get_clock (le_sysvar_cache table_env) = Inr table_clock"
    "get_slot_hashes (le_sysvar_cache table_env) = Inr []" "le_table table_env = table_codec"
    "\<forall>d ks. le_decode table_env PACKET_DATA_SIZE d = Some (ExtendLookupTable ks) \<longrightarrow> (\<forall>k\<in>set ks. wf_key k) \<and> length ks < 2 ^ 63"
    by (simp_all add: table_env_def table_codec_table_laws get_clock_def get_slot_hashes_def)
  have table: "acc_owner (account_at table_tx 1) = alt_program_id" "acc_data (account_at table_tx 1) = table_data"
    by (simp_all add: example_context_def table_accounts_def account_at_def ta_new_def refcell_new_def account_new_def)
  then have at: "table_at table_env table_tx 1 = Inr example_table" by (simp add: table_at_def facts(4) table_data_deserialize)
  note lookup_tables_authorized [OF run, unfolded start, OF facts(1) table_tx_inv(1) current_example wf table_tx_inv(2) facts(2,3,5) table(1) at, unfolded table(2)]
  then show ?thesis using run by (auto simp: table_clock_def)
qed

end
