(* ===== verification/Compiled_Keys.thy ===== *)
theory Compiled_Keys
  imports Message Btree_Map "HOL-Library.List_Lexorder"
begin

section \<open>Compiling instructions into messages\<close>

text \<open>
  \<open>sdk/program/src/message/compiled_keys.rs\<close> and the constructors of messages.
\<close>

subsection \<open>Definitions\<close>

datatype compile_error = AccountIndexOverflow | AddressTableLookupIndexOverflow | UnknownInstructionKey pubkey

record compiled_key_meta =
  ckm_is_signer :: bool
  ckm_is_writable :: bool
  ckm_is_invoked :: bool

record compiled_keys =
  ck_payer :: "pubkey option"
  ck_key_meta_map :: "(pubkey \<times> compiled_key_meta) list"

definition compiled_key_meta_default :: compiled_key_meta where
  "compiled_key_meta_default = \<lparr>ckm_is_signer = False, ckm_is_writable = False, ckm_is_invoked = False\<rparr>"

definition compile_account :: "account_meta \<Rightarrow> (pubkey \<times> compiled_key_meta) list \<Rightarrow> (pubkey \<times> compiled_key_meta) list" where
  "compile_account am m = btree_entry (am_pubkey am) compiled_key_meta_default
     (\<lambda>meta. meta\<lparr>ckm_is_signer := ckm_is_signer meta \<or> am_is_signer am,
                  ckm_is_writable := ckm_is_writable meta \<or> am_is_writable am\<rparr>) m"

definition compile_instruction_keys :: "instruction \<Rightarrow> (pubkey \<times> compiled_key_meta) list \<Rightarrow> (pubkey \<times> compiled_key_meta) list" where
  "compile_instruction_keys ix m = fold compile_account (ix_accounts ix)
     (btree_entry (ix_program_id ix) compiled_key_meta_default (\<lambda>meta. meta\<lparr>ckm_is_invoked := True\<rparr>) m)"

definition compiled_keys_compile :: "instruction list \<Rightarrow> pubkey option \<Rightarrow> compiled_keys" where
  "compiled_keys_compile instructions payer =
     (let key_meta_map = fold compile_instruction_keys instructions []
      in \<lparr>ck_payer = payer,
          ck_key_meta_map =
            (case payer of
               None \<Rightarrow> key_meta_map
             | Some p \<Rightarrow> btree_entry p compiled_key_meta_default
                 (\<lambda>meta. meta\<lparr>ckm_is_signer := True, ckm_is_writable := True\<rparr>) key_meta_map)\<rparr>)"

definition try_into_u8 :: "nat \<Rightarrow> compile_error + u8" where
  "try_into_u8 num = (if num < 256 then Inr (of_nat num) else Inl AccountIndexOverflow)"

definition keys_where :: "(compiled_key_meta \<Rightarrow> bool) \<Rightarrow> (pubkey \<times> compiled_key_meta) list \<Rightarrow> pubkey list" where
  "keys_where p m = map fst (filter (\<lambda>(key, meta). p meta) m)"

definition try_into_message_components :: "compiled_keys \<Rightarrow> compile_error + (message_header \<times> pubkey list)" where
  "try_into_message_components ck =
     (let key_meta_map = (case ck_payer ck of Some p \<Rightarrow> btree_remove p (ck_key_meta_map ck) | None \<Rightarrow> ck_key_meta_map ck);
          writable_signer_keys = (case ck_payer ck of Some p \<Rightarrow> [p] | None \<Rightarrow> []) @
            keys_where (\<lambda>meta. ckm_is_signer meta \<and> ckm_is_writable meta) key_meta_map;
          readonly_signer_keys = keys_where (\<lambda>meta. ckm_is_signer meta \<and> \<not> ckm_is_writable meta) key_meta_map;
          writable_non_signer_keys = keys_where (\<lambda>meta. \<not> ckm_is_signer meta \<and> ckm_is_writable meta) key_meta_map;
          readonly_non_signer_keys = keys_where (\<lambda>meta. \<not> ckm_is_signer meta \<and> \<not> ckm_is_writable meta) key_meta_map;
          signers_len = usize_saturating_add (length writable_signer_keys) (length readonly_signer_keys)
      in and_then (try_into_u8 signers_len) (\<lambda>num_required_signatures.
         and_then (try_into_u8 (length readonly_signer_keys)) (\<lambda>num_readonly_signed_accounts.
         and_then (try_into_u8 (length readonly_non_signer_keys)) (\<lambda>num_readonly_unsigned_accounts.
           Inr (\<lparr>mh_num_required_signatures = num_required_signatures,
                 mh_num_readonly_signed_accounts = num_readonly_signed_accounts,
                 mh_num_readonly_unsigned_accounts = num_readonly_unsigned_accounts\<rparr>,
                writable_signer_keys @ readonly_signer_keys @ writable_non_signer_keys @ readonly_non_signer_keys)))))"

text \<open>The private \<open>position\<close> of legacy messages: \<open>None\<close> is the panic, and \<open>as u8\<close> truncates.\<close>

definition key_position :: "pubkey list \<Rightarrow> pubkey \<Rightarrow> u8 option" where
  "key_position keys key = map_option of_nat (vec_position (\<lambda>k. k = key) keys)"

fun option_all :: "'a option list \<Rightarrow> 'a list option" where
  "option_all [] = Some []"
| "option_all (x # xs) = (case (x, option_all xs) of (Some y, Some ys) \<Rightarrow> Some (y # ys) | _ \<Rightarrow> None)"

definition compile_instruction :: "pubkey list \<Rightarrow> instruction \<Rightarrow> compiled_instruction option" where
  "compile_instruction keys ix =
     (case (option_all (map (\<lambda>am. key_position keys (am_pubkey am)) (ix_accounts ix)), key_position keys (ix_program_id ix)) of
        (Some accounts, Some program_id_index) \<Rightarrow>
          Some \<lparr>ci_program_id_index = program_id_index, ci_accounts = accounts, ci_data = ix_data ix\<rparr>
      | _ \<Rightarrow> None)"

definition compile_instructions :: "pubkey list \<Rightarrow> instruction list \<Rightarrow> compiled_instruction list option" where
  "compile_instructions keys ixs = option_all (map (compile_instruction keys) ixs)"

definition message_new_with_blockhash :: "instruction list \<Rightarrow> pubkey option \<Rightarrow> hash \<Rightarrow> legacy_message option" where
  "message_new_with_blockhash instructions payer blockhash =
     (case try_into_message_components (compiled_keys_compile instructions payer) of
        Inl _ \<Rightarrow> None
      | Inr (header, keys) \<Rightarrow>
          map_option (\<lambda>compiled. \<lparr>lm_header = header, lm_account_keys = keys, lm_recent_blockhash = blockhash,
              lm_instructions = compiled\<rparr>)
            (compile_instructions keys instructions))"

subsection \<open>Lookup tables at compile time\<close>

record address_lookup_table_account =
  alt_key :: pubkey
  alt_addresses :: "pubkey list"

fun drain_indexes :: "pubkey list \<Rightarrow> pubkey list \<Rightarrow> compile_error + (u8 list \<times> pubkey list)" where
  "drain_indexes addresses [] = Inr ([], [])"
| "drain_indexes addresses (search_key # search_keys) =
     (case vec_position (\<lambda>key. key = search_key) addresses of
        None \<Rightarrow> drain_indexes addresses search_keys
      | Some key_index \<Rightarrow>
          if 256 \<le> key_index then Inl AddressTableLookupIndexOverflow
          else and_then (drain_indexes addresses search_keys) (\<lambda>(indexes, drained_keys).
            Inr (of_nat key_index # indexes, search_key # drained_keys)))"

definition try_drain_keys_found_in_lookup_table ::
  "pubkey list \<Rightarrow> (compiled_key_meta \<Rightarrow> bool) \<Rightarrow> compiled_keys \<Rightarrow> compile_error + ((u8 list \<times> pubkey list) \<times> compiled_keys)" where
  "try_drain_keys_found_in_lookup_table addresses key_meta_filter ck =
     and_then (drain_indexes addresses (keys_where key_meta_filter (ck_key_meta_map ck))) (\<lambda>(indexes, drained_keys).
       Inr ((indexes, drained_keys), ck\<lparr>ck_key_meta_map := fold btree_remove drained_keys (ck_key_meta_map ck)\<rparr>))"

definition try_extract_table_lookup ::
  "address_lookup_table_account \<Rightarrow> compiled_keys \<Rightarrow>
     compile_error + ((message_address_table_lookup \<times> loaded_addresses) option \<times> compiled_keys)" where
  "try_extract_table_lookup lookup_table_account ck =
     and_then (try_drain_keys_found_in_lookup_table (alt_addresses lookup_table_account)
       (\<lambda>meta. \<not> ckm_is_signer meta \<and> \<not> ckm_is_invoked meta \<and> ckm_is_writable meta) ck)
       (\<lambda>((writable_indexes, drained_writable_keys), ck').
     and_then (try_drain_keys_found_in_lookup_table (alt_addresses lookup_table_account)
       (\<lambda>meta. \<not> ckm_is_signer meta \<and> \<not> ckm_is_invoked meta \<and> \<not> ckm_is_writable meta) ck')
       (\<lambda>((readonly_indexes, drained_readonly_keys), ck'').
       Inr (if writable_indexes = [] \<and> readonly_indexes = [] then None
            else Some (\<lparr>tl_account_key = alt_key lookup_table_account, tl_writable_indexes = writable_indexes,
                        tl_readonly_indexes = readonly_indexes\<rparr>,
                       \<lparr>la_writable = drained_writable_keys, la_readonly = drained_readonly_keys\<rparr>), ck'')))"

fun extract_table_lookups ::
  "address_lookup_table_account list \<Rightarrow> compiled_keys \<Rightarrow>
     compile_error + ((message_address_table_lookup \<times> loaded_addresses) list \<times> compiled_keys)" where
  "extract_table_lookups [] ck = Inr ([], ck)"
| "extract_table_lookups (table # tables) ck =
     and_then (try_extract_table_lookup table ck) (\<lambda>(found, ck').
     and_then (extract_table_lookups tables ck') (\<lambda>(rest, ck'').
       Inr ((case found of Some f \<Rightarrow> [f] | None \<Rightarrow> []) @ rest, ck'')))"

text \<open>The map from keys to indexes is filled in order, so the last position of a key counts.\<close>

definition account_index_map :: "pubkey list \<Rightarrow> compile_error + (pubkey \<Rightarrow> u8 option)" where
  "account_index_map keys =
     (if 256 < length keys then Inl AccountIndexOverflow
      else Inr (\<lambda>key. map_option of_nat (vec_rposition (\<lambda>k. k = key) keys)))"

fun result_all :: "('e + 'a) list \<Rightarrow> 'e + 'a list" where
  "result_all [] = Inr []"
| "result_all (x # xs) = and_then x (\<lambda>y. and_then (result_all xs) (\<lambda>ys. Inr (y # ys)))"

definition try_compile_instructions :: "account_keys \<Rightarrow> instruction list \<Rightarrow> compile_error + compiled_instruction list" where
  "try_compile_instructions ak instructions =
     and_then (account_index_map (account_keys_iter ak)) (\<lambda>index.
       let get_account_index = (\<lambda>key. ok_or (index key) (UnknownInstructionKey key))
       in result_all (map (\<lambda>ix.
            and_then (result_all (map (\<lambda>am. get_account_index (am_pubkey am)) (ix_accounts ix))) (\<lambda>accounts.
            and_then (get_account_index (ix_program_id ix)) (\<lambda>program_id_index.
              Inr \<lparr>ci_program_id_index = program_id_index, ci_accounts = accounts, ci_data = ix_data ix\<rparr>))) instructions))"

definition v0_try_compile ::
  "pubkey \<Rightarrow> instruction list \<Rightarrow> address_lookup_table_account list \<Rightarrow> hash \<Rightarrow> compile_error + v0_message" where
  "v0_try_compile payer instructions tables blockhash =
     and_then (extract_table_lookups tables (compiled_keys_compile instructions (Some payer))) (\<lambda>(extracted, ck).
     and_then (try_into_message_components ck) (\<lambda>(header, static_keys).
     let dynamic_keys = \<lparr>la_writable = concat (map (la_writable \<circ> snd) extracted),
                         la_readonly = concat (map (la_readonly \<circ> snd) extracted)\<rparr>
     in and_then (try_compile_instructions \<lparr>ak_static_keys = static_keys, ak_dynamic_keys = Some dynamic_keys\<rparr> instructions)
          (\<lambda>compiled.
            Inr \<lparr>v0_header = header, v0_account_keys = static_keys, v0_recent_blockhash = blockhash,
                 v0_instructions = compiled, v0_address_table_lookups = map fst extracted\<rparr>)))"

end
