(* ===== verification/Compile_Correct.thy ===== *)
theory Compile_Correct
  imports Compiled_Keys Message_Properties
begin

section \<open>Compilation keeps what the instructions ask for\<close>

text \<open>
  The keys of a compiled message are the keys the instructions and the payer name, each once,
  grouped so that the header's counts tell signers and writable accounts apart; the indices of the
  compiled instructions lead back to the keys of the given ones.
\<close>

definition key_used :: "instruction list \<Rightarrow> pubkey option \<Rightarrow> pubkey \<Rightarrow> bool" where
  "key_used ixs payer k \<longleftrightarrow> payer = Some k \<or> (\<exists>ix\<in>set ixs. ix_program_id ix = k \<or> (\<exists>am\<in>set (ix_accounts ix). am_pubkey am = k))"

definition key_signs :: "instruction list \<Rightarrow> pubkey option \<Rightarrow> pubkey \<Rightarrow> bool" where
  "key_signs ixs payer k \<longleftrightarrow> payer = Some k \<or> (\<exists>ix\<in>set ixs. \<exists>am\<in>set (ix_accounts ix). am_pubkey am = k \<and> am_is_signer am)"

definition key_written :: "instruction list \<Rightarrow> pubkey option \<Rightarrow> pubkey \<Rightarrow> bool" where
  "key_written ixs payer k \<longleftrightarrow> payer = Some k \<or> (\<exists>ix\<in>set ixs. \<exists>am\<in>set (ix_accounts ix). am_pubkey am = k \<and> am_is_writable am)"

lemma key_signs_used: "key_signs ixs payer k \<Longrightarrow> key_used ixs payer k"
  by (auto simp: key_signs_def key_used_def)

lemma key_payer:
  "key_used ixs payer k \<longleftrightarrow> payer = Some k \<or> key_used ixs None k"
  "key_signs ixs payer k \<longleftrightarrow> payer = Some k \<or> key_signs ixs None k"
  "key_written ixs payer k \<longleftrightarrow> payer = Some k \<or> key_written ixs None k"
  by (auto simp: key_used_def key_signs_def key_written_def)

subsection \<open>The map of keys\<close>

definition meta_of :: "(pubkey \<times> compiled_key_meta) list \<Rightarrow> pubkey \<Rightarrow> compiled_key_meta" where
  "meta_of m k = (case map_of m k of None \<Rightarrow> compiled_key_meta_default | Some v \<Rightarrow> v)"

lemma btree_entry_facts:
  assumes "btree_inv m"
  shows "btree_inv (btree_entry k compiled_key_meta_default f m)"
    "dom (map_of (btree_entry k compiled_key_meta_default f m)) = insert k (dom (map_of m))"
    "meta_of (btree_entry k compiled_key_meta_default f m) = (meta_of m)(k := f (meta_of m k))"
  using assms by (auto simp: btree_entry_inv map_of_btree_entry meta_of_def fun_eq_iff)

lemma compile_account_facts:
  assumes "btree_inv m"
  shows "btree_inv (compile_account am m)"
    "dom (map_of (compile_account am m)) = insert (am_pubkey am) (dom (map_of m))"
    "ckm_is_signer (meta_of (compile_account am m) k) \<longleftrightarrow> ckm_is_signer (meta_of m k) \<or> (am_pubkey am = k \<and> am_is_signer am)"
    "ckm_is_writable (meta_of (compile_account am m) k) \<longleftrightarrow> ckm_is_writable (meta_of m k) \<or> (am_pubkey am = k \<and> am_is_writable am)"
  using btree_entry_facts [OF assms] by (auto simp: compile_account_def)

lemma fold_compile_account:
  assumes "btree_inv m"
  shows "btree_inv (fold compile_account ams m) \<and>
    dom (map_of (fold compile_account ams m)) = dom (map_of m) \<union> am_pubkey ` set ams \<and>
    (\<forall>k. ckm_is_signer (meta_of (fold compile_account ams m) k) \<longleftrightarrow>
       ckm_is_signer (meta_of m k) \<or> (\<exists>am\<in>set ams. am_pubkey am = k \<and> am_is_signer am)) \<and>
    (\<forall>k. ckm_is_writable (meta_of (fold compile_account ams m) k) \<longleftrightarrow>
       ckm_is_writable (meta_of m k) \<or> (\<exists>am\<in>set ams. am_pubkey am = k \<and> am_is_writable am))"
  using assms
proof (induction ams arbitrary: m)
  case (Cons am ams)
  note step = compile_account_facts [OF Cons.prems]
  show ?case using Cons.IH [OF step(1)] step by (auto simp del: map_of_eq_None_iff)
qed simp

lemma fold_compile_instruction_keys:
  assumes "btree_inv m"
  shows "btree_inv (fold compile_instruction_keys ixs m) \<and>
    dom (map_of (fold compile_instruction_keys ixs m)) = dom (map_of m) \<union> {k. key_used ixs None k} \<and>
    (\<forall>k. ckm_is_signer (meta_of (fold compile_instruction_keys ixs m) k) \<longleftrightarrow> ckm_is_signer (meta_of m k) \<or> key_signs ixs None k) \<and>
    (\<forall>k. ckm_is_writable (meta_of (fold compile_instruction_keys ixs m) k) \<longleftrightarrow> ckm_is_writable (meta_of m k) \<or> key_written ixs None k)"
  using assms
proof (induction ixs arbitrary: m)
  case (Cons ix ixs)
  let ?m = "btree_entry (ix_program_id ix) compiled_key_meta_default (\<lambda>meta. meta\<lparr>ckm_is_invoked := True\<rparr>) m"
  note e = btree_entry_facts [OF Cons.prems, of "ix_program_id ix" "\<lambda>meta. meta\<lparr>ckm_is_invoked := True\<rparr>"]
  have flags: "ckm_is_signer (meta_of ?m k) = ckm_is_signer (meta_of m k)"
    "ckm_is_writable (meta_of ?m k) = ckm_is_writable (meta_of m k)" for k
    using e(3) by auto
  let ?m' = "fold compile_account (ix_accounts ix) ?m"
  have m': "compile_instruction_keys ix m = ?m'" by (simp add: compile_instruction_keys_def)
  note a = fold_compile_account [OF e(1), of "ix_accounts ix"]
  then have ih: "btree_inv (fold compile_instruction_keys ixs ?m') \<and>
    dom (map_of (fold compile_instruction_keys ixs ?m')) = dom (map_of ?m') \<union> {k. key_used ixs None k} \<and>
    (\<forall>k. ckm_is_signer (meta_of (fold compile_instruction_keys ixs ?m') k) \<longleftrightarrow> ckm_is_signer (meta_of ?m' k) \<or> key_signs ixs None k) \<and>
    (\<forall>k. ckm_is_writable (meta_of (fold compile_instruction_keys ixs ?m') k) \<longleftrightarrow> ckm_is_writable (meta_of ?m' k) \<or> key_written ixs None k)"
    by (intro Cons.IH) blast
  have "dom (map_of ?m') \<union> {k. key_used ixs None k} = dom (map_of m) \<union> {k. key_used (ix # ixs) None k}"
    using a e(2) by (auto simp: key_used_def)
  moreover have "ckm_is_signer (meta_of ?m' k) \<or> key_signs ixs None k \<longleftrightarrow> ckm_is_signer (meta_of m k) \<or> key_signs (ix # ixs) None k"
    "ckm_is_writable (meta_of ?m' k) \<or> key_written ixs None k \<longleftrightarrow> ckm_is_writable (meta_of m k) \<or> key_written (ix # ixs) None k" for k
    using a flags [of k] by (auto simp: key_signs_def key_written_def)
  ultimately show ?case using ih by (simp add: m')
qed (auto simp: key_used_def key_signs_def key_written_def)

lemma compiled_keys_compile_facts:
  fixes ixs payer
  defines "m \<equiv> ck_key_meta_map (compiled_keys_compile ixs payer)"
  shows "btree_inv m" "dom (map_of m) = {k. key_used ixs payer k}"
    "ckm_is_signer (meta_of m k) = key_signs ixs payer k" "ckm_is_writable (meta_of m k) = key_written ixs payer k"
proof -
  let ?m = "fold compile_instruction_keys ixs []"
  note f = fold_compile_instruction_keys [of "[]" ixs, simplified]
  have nil: "\<not> ckm_is_signer (meta_of [] k)" "\<not> ckm_is_writable (meta_of [] k)" for k
    by (simp_all add: meta_of_def compiled_key_meta_default_def)
  have inv: "btree_inv ?m" using f by blast
  note e = btree_entry_facts [OF inv]
  show "btree_inv m" "dom (map_of m) = {k. key_used ixs payer k}"
    using f e by (auto simp: m_def compiled_keys_compile_def Let_def key_payer(1) [of ixs payer] split: option.splits)
  show "ckm_is_signer (meta_of m k) = key_signs ixs payer k" "ckm_is_writable (meta_of m k) = key_written ixs payer k"
    using f e nil
    by (auto simp: m_def compiled_keys_compile_def Let_def key_payer(2,3) [of ixs payer] split: option.splits)
qed

subsection \<open>Header and keys\<close>

lemma keys_where_set: "set (keys_where p m) = {k. \<exists>v. (k, v) \<in> set m \<and> p v}"
  by (force simp: keys_where_def)

lemma keys_where_distinct: "distinct (map fst m) \<Longrightarrow> distinct (keys_where p m)"
  unfolding keys_where_def by (rule distinct_map_filter)

lemma try_into_u8_ok: "try_into_u8 n = Inr x \<Longrightarrow> unat x = n"
  by (auto simp: try_into_u8_def unat_of_nat split: if_splits)

lemma unat_u8: "unat (x :: u8) < 256"
  by (rule less_le_trans [OF unsigned_less]) simp

lemma usize_saturating_add_small: "usize_saturating_add a b < 256 \<Longrightarrow> usize_saturating_add a b = a + b"
  by (auto simp: usize_saturating_add_def usize_max_def)

text \<open>The four groups of keys.\<close>

lemma components_groups:
  assumes "try_into_message_components (compiled_keys_compile ixs payer) = Inr (header, keys)"
  obtains ws rs wn rn where "keys = ws @ rs @ wn @ rn"
    "unat (mh_num_required_signatures header) = length ws + length rs"
    "unat (mh_num_readonly_signed_accounts header) = length rs"
    "unat (mh_num_readonly_unsigned_accounts header) = length rn"
    "\<forall>k\<in>set ws. key_signs ixs payer k \<and> key_written ixs payer k"
    "\<forall>k\<in>set rs. key_signs ixs payer k \<and> \<not> key_written ixs payer k"
    "\<forall>k\<in>set wn. \<not> key_signs ixs payer k \<and> key_written ixs payer k"
    "\<forall>k\<in>set rn. \<not> key_signs ixs payer k \<and> \<not> key_written ixs payer k"
    "distinct keys" "set keys = {k. key_used ixs payer k}" "\<forall>p. payer = Some p \<longrightarrow> keys ! 0 = p \<and> keys \<noteq> []"
proof -
  define m where "m = ck_key_meta_map (compiled_keys_compile ixs payer)"
  note f = compiled_keys_compile_facts [of ixs payer, folded m_def]
  define m' where "m' = (case payer of Some p \<Rightarrow> btree_remove p m | None \<Rightarrow> m)"
  define pl where "pl = (case payer of Some p \<Rightarrow> [p] | None \<Rightarrow> [])"
  have pay: "ck_payer (compiled_keys_compile ixs payer) = payer" by (simp add: compiled_keys_compile_def Let_def)
  have m'_eq: "(case payer of None \<Rightarrow> ck_key_meta_map (compiled_keys_compile ixs payer)
      | Some p \<Rightarrow> btree_remove p (ck_key_meta_map (compiled_keys_compile ixs payer))) = m'"
    by (simp only: m'_def m_def)
  have inv': "btree_inv m'" using f(1) by (simp add: m'_def btree_remove_inv split: option.split)
  have dist: "distinct (map fst m')" using inv' by (rule btree_distinct)
  have mem: "(k, v) \<in> set m' \<longleftrightarrow> map_of m' k = Some v" for k v using dist by simp
  have m'_of: "map_of m' k = (if payer = Some k then None else map_of m k)" for k
    by (simp add: m'_def map_of_btree_remove split: option.split)
  have flags: "ckm_is_signer v = key_signs ixs payer k" "ckm_is_writable v = key_written ixs payer k" "payer \<noteq> Some k"
    if "(k, v) \<in> set m'" for k v
  proof -
    from that have "map_of m k = Some v" "payer \<noteq> Some k" by (simp_all add: mem m'_of split: if_splits)
    then show "ckm_is_signer v = key_signs ixs payer k" "ckm_is_writable v = key_written ixs payer k" "payer \<noteq> Some k"
      using f(3,4) [of k] by (simp_all add: meta_of_def)
  qed
  let ?g = "\<lambda>s w. keys_where (\<lambda>meta. ckm_is_signer meta = s \<and> ckm_is_writable meta = w) m'"
  have g: "set (?g s w) = {k. key_used ixs payer k \<and> payer \<noteq> Some k \<and> key_signs ixs payer k = s \<and> key_written ixs payer k = w}" for s w
  proof -
    have "k \<in> set (?g s w) \<longleftrightarrow> key_used ixs payer k \<and> payer \<noteq> Some k \<and> key_signs ixs payer k = s \<and> key_written ixs payer k = w" for k
    proof
      assume "k \<in> set (?g s w)"
      then obtain v where v: "(k, v) \<in> set m'" "ckm_is_signer v = s" "ckm_is_writable v = w" by (auto simp: keys_where_set)
      then have "k \<in> dom (map_of m)" by (auto simp: mem m'_of split: if_splits)
      then show "key_used ixs payer k \<and> payer \<noteq> Some k \<and> key_signs ixs payer k = s \<and> key_written ixs payer k = w"
        using v flags [OF v(1)] f(2) by auto
    next
      assume k: "key_used ixs payer k \<and> payer \<noteq> Some k \<and> key_signs ixs payer k = s \<and> key_written ixs payer k = w"
      then obtain v where "map_of m k = Some v" using f(2) by (auto simp: dom_def)
      then have v: "(k, v) \<in> set m'" using k by (simp add: mem m'_of)
      then show "k \<in> set (?g s w)" using flags [OF v] k by (auto simp: keys_where_set)
    qed
    then show ?thesis by blast
  qed
  note gs = g [of True True, simplified] g [of True False, simplified] g [of False True, simplified] g [of False False, simplified]
  have pls: "set pl = {k. payer = Some k}" "distinct pl" by (auto simp: pl_def split: option.splits)
  have payer: "key_used ixs payer k" "key_signs ixs payer k" "key_written ixs payer k" if "payer = Some k" for k
    using that key_payer [of ixs payer k] by simp_all
  let ?ws = "pl @ ?g True True" and ?rs = "?g True False" and ?wn = "?g False True" and ?rn = "?g False False"
  have comp: "keys = ?ws @ ?rs @ ?wn @ ?rn"
    "try_into_u8 (usize_saturating_add (length ?ws) (length ?rs)) = Inr (mh_num_required_signatures header)"
    "try_into_u8 (length ?rs) = Inr (mh_num_readonly_signed_accounts header)"
    "try_into_u8 (length ?rn) = Inr (mh_num_readonly_unsigned_accounts header)"
    using assms
    by (auto simp: try_into_message_components_def Let_def and_then_Inr pay m'_eq pl_def [symmetric])
  have "distinct keys"
    unfolding comp(1) using dist pls(2) by (auto simp: keys_where_distinct gs pls(1))
  moreover have "set keys = {k. key_used ixs payer k}"
    unfolding comp(1) using payer by (auto simp: gs pls(1))
  moreover have "unat (mh_num_required_signatures header) = length ?ws + length ?rs"
    using try_into_u8_ok [OF comp(2)] unat_u8 [of "mh_num_required_signatures header"]
    by (intro trans [OF _ usize_saturating_add_small]) simp_all
  moreover have "\<forall>p. payer = Some p \<longrightarrow> keys ! 0 = p \<and> keys \<noteq> []" unfolding comp(1) by (simp add: pl_def)
  ultimately show thesis
    using try_into_u8_ok [OF comp(3)] try_into_u8_ok [OF comp(4)] comp(1) payer
    by (intro that [of ?ws ?rs ?wn ?rn]) (auto simp: gs pls(1))
qed

lemma group_flags:
  assumes "keys = ws @ rs @ wn @ rn" "i < length keys"
    and "\<forall>k\<in>set ws. s k \<and> w k" "\<forall>k\<in>set rs. s k \<and> \<not> w k" "\<forall>k\<in>set wn. \<not> s k \<and> w k" "\<forall>k\<in>set rn. \<not> s k \<and> \<not> w k"
  shows "s (keys ! i) \<longleftrightarrow> i < length ws + length rs"
    "w (keys ! i) \<longleftrightarrow> i < length ws \<or> (length ws + length rs \<le> i \<and> i < length keys - length rn)"
proof -
  consider "i < length ws" | j where "i = length ws + j" "j < length rs"
    | j where "i = length ws + length rs + j" "j < length wn"
    | j where "i = length ws + length rs + length wn + j" "j < length rn"
  proof -
    have "i < length ws + length rs + length wn + length rn" using assms(1,2) by simp
    then show thesis
      using that(1) that(2) [of "i - length ws"] that(3) [of "i - length ws - length rs"]
        that(4) [of "i - length ws - length rs - length wn"] by linarith
  qed
  then have "(s (keys ! i) \<longleftrightarrow> i < length ws + length rs) \<and>
    (w (keys ! i) \<longleftrightarrow> i < length ws \<or> (length ws + length rs \<le> i \<and> i < length keys - length rn))"
    using assms(3-6) unfolding assms(1) by cases (simp_all add: nth_append)
  then show "s (keys ! i) \<longleftrightarrow> i < length ws + length rs"
    "w (keys ! i) \<longleftrightarrow> i < length ws \<or> (length ws + length rs \<le> i \<and> i < length keys - length rn)" by blast+
qed

subsection \<open>Instructions\<close>

lemma option_all_Some: "option_all xs = Some ys \<longleftrightarrow> xs = map Some ys"
proof
  show "option_all xs = Some ys \<Longrightarrow> xs = map Some ys"
    by (induction xs arbitrary: ys) (auto split: option.splits)
  show "xs = map Some ys \<Longrightarrow> option_all xs = Some ys"
    by (induction ys arbitrary: xs) auto
qed

lemma key_position_ok:
  assumes "key_position keys key = Some i" "length keys \<le> 256"
  shows "vec_get keys (unat i) = Some key"
proof -
  from assms(1) obtain n where n: "n < length keys" "keys ! n = key" "i = of_nat n"
    by (auto simp: key_position_def vec_position_Some)
  moreover from n assms(2) have "unat i = n" by (simp add: unat_of_nat)
  ultimately show ?thesis by (simp add: vec_get_def)
qed

text \<open>A compiled instruction means the given one under a list of keys.\<close>

definition compiled_as :: "(nat \<Rightarrow> pubkey option) \<Rightarrow> instruction \<Rightarrow> compiled_instruction \<Rightarrow> bool" where
  "compiled_as get ix ci \<longleftrightarrow> get (unat (ci_program_id_index ci)) = Some (ix_program_id ix) \<and>
     map (\<lambda>i. get (unat i)) (ci_accounts ci) = map (\<lambda>am. Some (am_pubkey am)) (ix_accounts ix) \<and> ci_data ci = ix_data ix"

lemma compile_instruction_ok:
  assumes "compile_instruction keys ix = Some ci" "length keys \<le> 256"
  shows "compiled_as (vec_get keys) ix ci"
proof -
  from assms(1) have ci: "map (\<lambda>am. key_position keys (am_pubkey am)) (ix_accounts ix) = map Some (ci_accounts ci)"
    "key_position keys (ix_program_id ix) = Some (ci_program_id_index ci)" "ci_data ci = ix_data ix"
    by (auto simp: compile_instruction_def option_all_Some split: option.splits)
  have "map (\<lambda>i. vec_get keys (unat i)) (ci_accounts ci) = map (\<lambda>am. Some (am_pubkey am)) (ix_accounts ix)"
  proof (rule nth_equalityI)
    show len: "length (map (\<lambda>i. vec_get keys (unat i)) (ci_accounts ci)) = length (map (\<lambda>am. Some (am_pubkey am)) (ix_accounts ix))"
      using arg_cong [OF ci(1), of length] by simp
    fix j
    assume "j < length (map (\<lambda>i. vec_get keys (unat i)) (ci_accounts ci))"
    moreover from this len have "key_position keys (am_pubkey (ix_accounts ix ! j)) = Some (ci_accounts ci ! j)"
      using arg_cong [OF ci(1), of "\<lambda>l. l ! j"] by simp
    ultimately show "map (\<lambda>i. vec_get keys (unat i)) (ci_accounts ci) ! j = map (\<lambda>am. Some (am_pubkey am)) (ix_accounts ix) ! j"
      using key_position_ok [OF _ assms(2)] len by simp
  qed
  then show ?thesis using key_position_ok [OF ci(2) assms(2)] ci(3) by (simp add: compiled_as_def)
qed

lemma compile_instructions_ok:
  assumes "compile_instructions keys ixs = Some compiled" "length keys \<le> 256"
  shows "list_all2 (compiled_as (vec_get keys)) ixs compiled"
proof -
  have eq: "map (compile_instruction keys) ixs = map Some compiled"
    using assms(1) by (simp add: compile_instructions_def option_all_Some)
  show ?thesis
    unfolding list_all2_conv_all_nth
  proof (intro conjI allI impI)
    show len: "length ixs = length compiled" using arg_cong [OF eq, of length] by simp
    fix j
    assume "j < length ixs"
    then have "compile_instruction keys (ixs ! j) = Some (compiled ! j)"
      using arg_cong [OF eq, of "\<lambda>l. l ! j"] len by simp
    then show "compiled_as (vec_get keys) (ixs ! j) (compiled ! j)" using assms(2) by (rule compile_instruction_ok)
  qed
qed

text \<open>The sanitization of a compiled instruction can only fail because its program is the first key.\<close>

lemma compiled_as_indices:
  assumes "compiled_as (vec_get keys) ix ci" "distinct keys"
  shows "unat (ci_program_id_index ci) < length keys" "\<forall>i\<in>set (ci_accounts ci). unat i < length keys"
    "ci_program_id_index ci = 0 \<longleftrightarrow> vec_get keys 0 = Some (ix_program_id ix)"
proof -
  have program: "unat (ci_program_id_index ci) < length keys" "keys ! unat (ci_program_id_index ci) = ix_program_id ix"
    and accounts: "map (\<lambda>i. vec_get keys (unat i)) (ci_accounts ci) = map (\<lambda>am. Some (am_pubkey am)) (ix_accounts ix)"
    using assms(1) by (simp_all add: compiled_as_def)
  show "unat (ci_program_id_index ci) < length keys" by (rule program)
  have "\<forall>x\<in>set (map (\<lambda>i. vec_get keys (unat i)) (ci_accounts ci)). x \<noteq> None" unfolding accounts by simp
  then show "\<forall>i\<in>set (ci_accounts ci). unat i < length keys" by (simp add: not_le)
  have "vec_get keys 0 = Some (ix_program_id ix) \<longleftrightarrow> unat (ci_program_id_index ci) = 0"
    using program nth_eq_iff_index_eq [OF assms(2), of 0 "unat (ci_program_id_index ci)"] by auto
  then show "ci_program_id_index ci = 0 \<longleftrightarrow> vec_get keys 0 = Some (ix_program_id ix)" by (simp add: unat_eq_zero)
qed

lemma compiled_sanitize_instructions:
  assumes "list_all2 (compiled_as (vec_get keys)) ixs compiled" "distinct keys"
  shows "legacy_sanitize_instructions (length keys) compiled = Inr () \<longleftrightarrow>
    (\<forall>ix\<in>set ixs. vec_get keys 0 \<noteq> Some (ix_program_id ix))"
  using assms(1)
proof (induction rule: list_all2_induct)
  case (Cons ix ixs ci compiled)
  then show ?case using compiled_as_indices [OF Cons.hyps(1) assms(2)]
    by (simp add: and_then_Inr sanitize_indices_ok not_le del: vec_get_Some)
qed simp

lemma compiled_sanitize:
  assumes "keys = ws @ rs @ wn @ rn"
    "unat (mh_num_required_signatures header) = length ws + length rs"
    "unat (mh_num_readonly_signed_accounts header) = length rs"
    "unat (mh_num_readonly_unsigned_accounts header) = length rn"
    and "list_all2 (compiled_as (vec_get keys)) ixs compiled" "distinct keys"
  shows "legacy_sanitize \<lparr>lm_header = header, lm_account_keys = keys, lm_recent_blockhash = h, lm_instructions = compiled\<rparr> = Inr () \<longleftrightarrow>
    ws \<noteq> [] \<and> (\<forall>ix\<in>set ixs. vec_get keys 0 \<noteq> Some (ix_program_id ix))"
  using compiled_sanitize_instructions [OF assms(5,6)] assms(1-4)
  by (simp add: legacy_sanitize_def word_le_nat_alt)

lemma writable_signers:
  assumes "{k. key_used ixs payer k} \<subseteq> set ws \<union> ks" "\<forall>k\<in>set ws. key_signs ixs payer k \<and> key_written ixs payer k"
    and "\<forall>k\<in>ks. \<not> (key_signs ixs payer k \<and> key_written ixs payer k)"
  shows "ws \<noteq> [] \<longleftrightarrow> (\<exists>k. key_signs ixs payer k \<and> key_written ixs payer k)"
proof
  assume "ws \<noteq> []"
  then show "\<exists>k. key_signs ixs payer k \<and> key_written ixs payer k" using assms(2) by (cases ws) auto
next
  assume "\<exists>k. key_signs ixs payer k \<and> key_written ixs payer k"
  then obtain k where "k \<in> set ws" using key_signs_used assms(1,3) by blast
  then show "ws \<noteq> []" by auto
qed

text \<open>
  C30: a legacy message compiled from instructions and a payer has every key the instructions and
  the payer name exactly once, the payer first; an index signs, or was requested as writable,
  exactly when some instruction or the payer asks it of that key; and each compiled instruction
  resolves to the program, accounts and data of the given one. The message passes sanitization exactly when
  some key is asked to sign and to be writable, as a payer is, and the first key is not the program of an
  instruction. (With more than 256 keys the cast of a position to a byte would truncate.)
\<close>

theorem message_compile_correct:
  assumes "message_new_with_blockhash ixs payer blockhash = Some m" "length (lm_account_keys m) \<le> 256"
  shows "distinct (lm_account_keys m) \<and> set (lm_account_keys m) = {k. key_used ixs payer k} \<and>
    (\<forall>p. payer = Some p \<longrightarrow> vec_get (lm_account_keys m) 0 = Some p) \<and>
    (\<forall>i<length (lm_account_keys m).
       legacy_is_signer m i = key_signs ixs payer (lm_account_keys m ! i) \<and>
       legacy_is_writable_index m i = key_written ixs payer (lm_account_keys m ! i)) \<and>
    list_all2 (compiled_as (vec_get (lm_account_keys m))) ixs (lm_instructions m) \<and>
    (legacy_sanitize m = Inr () \<longleftrightarrow> (\<exists>k. key_signs ixs payer k \<and> key_written ixs payer k) \<and>
       (\<forall>ix\<in>set ixs. vec_get (lm_account_keys m) 0 \<noteq> Some (ix_program_id ix)))"
proof -
  from assms(1) obtain header keys compiled where
    c: "try_into_message_components (compiled_keys_compile ixs payer) = Inr (header, keys)"
    "compile_instructions keys ixs = Some compiled"
    "m = \<lparr>lm_header = header, lm_account_keys = keys, lm_recent_blockhash = blockhash, lm_instructions = compiled\<rparr>"
    by (auto simp: message_new_with_blockhash_def split: sum.splits prod.splits)
  from c(1) obtain ws rs wn rn where g: "keys = ws @ rs @ wn @ rn"
    "unat (mh_num_required_signatures header) = length ws + length rs"
    "unat (mh_num_readonly_signed_accounts header) = length rs"
    "unat (mh_num_readonly_unsigned_accounts header) = length rn"
    "\<forall>k\<in>set ws. key_signs ixs payer k \<and> key_written ixs payer k"
    "\<forall>k\<in>set rs. key_signs ixs payer k \<and> \<not> key_written ixs payer k"
    "\<forall>k\<in>set wn. \<not> key_signs ixs payer k \<and> key_written ixs payer k"
    "\<forall>k\<in>set rn. \<not> key_signs ixs payer k \<and> \<not> key_written ixs payer k"
    "distinct keys" "set keys = {k. key_used ixs payer k}" "\<forall>p. payer = Some p \<longrightarrow> keys ! 0 = p \<and> keys \<noteq> []"
    by (rule components_groups)
  have small: "length keys \<le> 256" using assms(2) c(3) by simp
  then have wrap: "usize_wrapping_sub (length keys) (length rn) = length keys - length rn"
    using g(1) by (intro usize_wrapping_sub_le) simp_all
  have "unat (mh_num_required_signatures header - mh_num_readonly_signed_accounts header) = length ws"
    using g(2,3) by (simp add: unat_sub word_le_nat_alt)
  then have "\<forall>i<length keys. legacy_is_signer m i = key_signs ixs payer (keys ! i) \<and>
      legacy_is_writable_index m i = key_written ixs payer (keys ! i)"
    using group_flags [OF g(1) _ g(5-8)] g(2,4) wrap
    by (simp add: c(3) legacy_is_signer_def legacy_is_writable_index_def)
  moreover note compiled = compile_instructions_ok [OF c(2) small]
  moreover have "ws \<noteq> [] \<longleftrightarrow> (\<exists>k. key_signs ixs payer k \<and> key_written ixs payer k)"
    using g(5-8,10) by (intro writable_signers [where ks = "set (rs @ wn @ rn)"]) (auto simp: g(1))
  ultimately show ?thesis
    using g(9,10,11) compiled_sanitize [OF g(1-4) compiled g(9), of blockhash] by (simp add: c(3))
qed

definition example_instructions :: "instruction list" where
  "example_instructions =
     [\<lparr>ix_program_id = replicate 32 7, ix_accounts =
         [\<lparr>am_pubkey = replicate 32 2, am_is_signer = True, am_is_writable = False\<rparr>,
          \<lparr>am_pubkey = replicate 32 1, am_is_signer = False, am_is_writable = True\<rparr>], ix_data = [1, 2]\<rparr>]"

lemma example_compiles:
  "message_new_with_blockhash example_instructions (Some (replicate 32 5)) (replicate 32 0) =
     Some \<lparr>lm_header = \<lparr>mh_num_required_signatures = 2, mh_num_readonly_signed_accounts = 1, mh_num_readonly_unsigned_accounts = 1\<rparr>,
       lm_account_keys = [replicate 32 5, replicate 32 2, replicate 32 1, replicate 32 7], lm_recent_blockhash = replicate 32 0,
       lm_instructions = [\<lparr>ci_program_id_index = 3, ci_accounts = [1, 2], ci_data = [1, 2]\<rparr>]\<rparr>"
proof -
  have "replicate n (a::u8) < replicate n b \<longleftrightarrow> 0 < n \<and> a < b" for n a b
    by (induction n) auto
  then have less: "replicate 32 (a::u8) < replicate 32 b \<longleftrightarrow> a < b" for a b by simp
  have eq: "replicate 32 (a::u8) = replicate 32 b \<longleftrightarrow> a = b" for a b
    by (simp add: replicate_eq_replicate)
  show ?thesis
    by (simp add: message_new_with_blockhash_def example_instructions_def compiled_keys_compile_def Let_def
        compile_instruction_keys_def compile_account_def compiled_key_meta_default_def less eq
        try_into_message_components_def btree_remove_def keys_where_def try_into_u8_def usize_saturating_add_def usize_max_def
        compile_instructions_def compile_instruction_def key_position_def)
qed

theorem message_compile_correct_witness:
  "\<exists>m. message_new_with_blockhash example_instructions (Some (replicate 32 5)) (replicate 32 0) = Some m \<and>
     list_all2 (compiled_as (vec_get (lm_account_keys m))) example_instructions (lm_instructions m) \<and> legacy_sanitize m = Inr ()"
proof -
  obtain m where m: "message_new_with_blockhash example_instructions (Some (replicate 32 5)) (replicate 32 0) = Some m"
    "lm_account_keys m = [replicate 32 5, replicate 32 2, replicate 32 1, replicate 32 7]"
    using example_compiles by force
  then have "length (lm_account_keys m) \<le> 256" by simp
  note correct = message_compile_correct [OF m(1) this]
  have "\<forall>ix\<in>set example_instructions. vec_get (lm_account_keys m) 0 \<noteq> Some (ix_program_id ix)"
    by (simp add: m(2) example_instructions_def replicate_eq_replicate)
  moreover have "key_signs example_instructions (Some p) p \<and> key_written example_instructions (Some p) p" for p
    by (simp add: key_signs_def key_written_def)
  ultimately show ?thesis using correct m(1) by blast
qed

end
