(* ===== verification/Vote_Liveness.thy ===== *)
theory Vote_Liveness
  imports Vote_Properties
begin

section \<open>Voting makes progress\<close>

text \<open>
  A validator that votes for slot after slot of the fork in the slot hashes: every vote is accepted,
  and from the 32nd vote on each vote roots one more slot. The state before the first vote may hold any
  votes.
\<close>

text \<open>The circumstances of one vote: the hash of the slot, the slot hashes and the clock.\<close>

record cast =
  cs_hash :: hash
  cs_slot_hashes :: slot_hashes
  cs_epoch :: u64
  cs_current_slot :: u64

fun cast_votes :: "bool \<Rightarrow> bool \<Rightarrow> u64 \<Rightarrow> cast list \<Rightarrow> unit vs_effect" where
  "cast_votes timely dep slot [] = return ()"
| "cast_votes timely dep slot (c # cs) =
     bind (process_vote \<lparr>vt_slots = [slot], vt_hash = cs_hash c, vt_timestamp = None\<rparr> (cs_slot_hashes c)
             (cs_epoch c) (cs_current_slot c) timely dep) (\<lambda>_.
       cast_votes timely dep (slot + 1) cs)"

definition on_fork :: "u64 \<Rightarrow> cast \<Rightarrow> bool" where
  "on_fork slot c \<longleftrightarrow> desc (cs_slot_hashes c) \<and> (slot, cs_hash c) \<in> set (cs_slot_hashes c)"

definition beyond :: "vote_state \<Rightarrow> u64 \<Rightarrow> bool" where
  "beyond vs slot \<longleftrightarrow> (case last_voted_slot (vs_votes vs) of None \<Rightarrow> True | Some s \<Rightarrow> s < slot)"

subsection \<open>A vote for one slot\<close>

lemma check_slots_loop_done: "check_slots_loop last_voted [slot] sh (Suc 0) j = (Suc 0, j)"
  by (subst check_slots_loop.simps) simp

lemma check_slots_loop_single:
  assumes "\<not> (case last_voted of None \<Rightarrow> False | Some s \<Rightarrow> slot \<le> s)" "desc sh" "k < j" "j \<le> length sh" "fst (sh ! k) = slot"
  shows "check_slots_loop last_voted [slot] sh 0 j = (1, k)"
  using assms(3,4)
proof (induction j)
  case (Suc j)
  show ?case
  proof (cases "k = j")
    case True
    then show ?thesis using assms(1,5) by (subst check_slots_loop.simps) (auto simp: check_slots_loop_done split: option.splits)
  next
    case False
    then have "fst (sh ! j) < fst (sh ! k)"
      using assms(2) Suc.prems by (simp add: desc_def sorted_wrt_iff_nth_less)
    then show ?thesis using Suc False assms(1,5) by (subst check_slots_loop.simps) (auto split: option.splits)
  qed
qed simp

lemma last_slot_le:
  assumes "desc sh" "(slot, hash) \<in> set sh"
  shows "fst (last sh) \<le> slot"
proof -
  obtain k where k: "k < length sh" "sh ! k = (slot, hash)" using assms(2) by (metis in_set_conv_nth)
  have "fst (sh ! (length sh - 1)) \<le> fst (sh ! k)"
    using assms(1) k(1) by (cases "k = length sh - 1") (auto simp: desc_def sorted_wrt_iff_nth_less intro: less_imp_le)
  then show ?thesis using k by (cases "sh = []") (simp_all add: last_conv_nth)
qed

lemma vote_for_slot_accepted:
  assumes "on_fork slot c" "beyond vs slot"
  shows "process_vote \<lparr>vt_slots = [slot], vt_hash = cs_hash c, vt_timestamp = None\<rparr> (cs_slot_hashes c) (cs_epoch c)
      (cs_current_slot c) timely dep vs = (Inr (), process_next_vote_slot slot (cs_epoch c) (cs_current_slot c) timely dep vs)"
proof -
  let ?sh = "cs_slot_hashes c"
  have fork: "desc ?sh" "(slot, cs_hash c) \<in> set ?sh" using assms(1) by (simp_all add: on_fork_def)
  then obtain k where k: "k < length ?sh" "?sh ! k = (slot, cs_hash c)" by (metis in_set_conv_nth)
  have new: "\<not> (case last_voted_slot (vs_votes vs) of None \<Rightarrow> False | Some s \<Rightarrow> slot \<le> s)"
    using assms(2) by (auto simp: beyond_def split: option.splits)
  have "check_slots_are_valid vs [slot] (cs_hash c) ?sh = Inr ()"
    using check_slots_loop_single [OF new fork(1) k(1) order_refl] k by (simp add: check_slots_are_valid_def vec_get_def)
  moreover have "?sh \<noteq> []" "fst (last ?sh) \<le> slot" using fork last_slot_le by auto
  ultimately show ?thesis by (simp add: process_vote_def process_vote_unfiltered_def effect_simps)
qed

subsection \<open>The slots of the tower\<close>

lemma double_lockouts_slots [simp]: "map lv_slot (double_lockouts votes) = map lv_slot votes"
  by (rule nth_equalityI) (simp_all add: double_lockouts_def nth_enumerate_eq increase_confirmation_count_def)

lemma double_lockouts_last: "lv_conf v = 1 \<Longrightarrow> last (double_lockouts (votes @ [v])) = v"
  by (simp add: double_lockouts_def enumerate_append_eq)

lemma next_vote_slot_slots:
  assumes "beyond vs slot" "P = pop_expired_votes slot (vs_votes vs)" "length P \<le> 31"
    and "vs' = process_next_vote_slot slot e c timely dep vs"
  shows "map lv_slot (vs_votes vs') = drop (length P + 1 - 31) (map lv_slot P @ [slot])"
    and "vs_root_slot vs' = (if length P = 31 then Some (lv_slot (hd P)) else vs_root_slot vs)"
    and "vs_votes vs' \<noteq> [] \<and> lv_lockout (last (vs_votes vs')) = lockout_new slot"
proof -
  have new: "\<not> (case last_voted_slot (vs_votes vs) of None \<Rightarrow> False | Some s \<Rightarrow> slot \<le> s)"
    using assms(1) by (auto simp: beyond_def split: option.splits)
  have tl: "map lv_slot (tl P) = drop 1 (map lv_slot P)" by (simp add: drop_Suc map_tl)
  show slots: "map lv_slot (vs_votes vs') = drop (length P + 1 - 31) (map lv_slot P @ [slot])"
    using new assms(2-4) tl
    by (cases "length P = 31") (auto simp: process_next_vote_slot_def Let_def MAX_LOCKOUT_HISTORY_def lockout_new_def)
  show "vs_root_slot vs' = (if length P = 31 then Some (lv_slot (hd P)) else vs_root_slot vs)"
    using new assms(2-4) by (simp add: process_next_vote_slot_def Let_def MAX_LOCKOUT_HISTORY_def)
  have "vs_votes vs' \<noteq> []" using arg_cong [OF slots, of length] assms(3) by auto
  moreover have "lv_lockout (last (vs_votes vs')) = lockout_new slot"
    using new assms(4) by (simp add: process_next_vote_slot_def Let_def double_lockouts_last lockout_new_def)
  ultimately show "vs_votes vs' \<noteq> [] \<and> lv_lockout (last (vs_votes vs')) = lockout_new slot" by simp
qed

subsection \<open>A run of votes\<close>

text \<open>
  After \<open>k\<close> votes from slot \<open>s\<close> on, the tower holds the newest 31 slots of those that were left over from before
  and the \<open>k\<close> slots.
\<close>

definition voted :: "u64 \<Rightarrow> nat \<Rightarrow> vote_state \<Rightarrow> bool" where
  "voted s k vs \<longleftrightarrow> (\<exists>front. length front \<le> 31 \<and>
     map lv_slot (vs_votes vs) = drop (length front + k - 31) (front @ map (\<lambda>i. s + of_nat i) [0..<k]) \<and>
     (32 \<le> k \<longrightarrow> vs_root_slot vs = Some (s + of_nat (k - 32))) \<and>
     vs_votes vs \<noteq> [] \<and> lv_lockout (last (vs_votes vs)) = lockout_new (s + of_nat (k - 1)))"

lemma voted_first:
  assumes "length (vs_votes vs) \<le> 31" "beyond vs s"
  shows "voted s 1 (process_next_vote_slot s e c timely dep vs)"
proof -
  let ?P = "pop_expired_votes s (vs_votes vs)"
  have "length ?P \<le> 31"
    using assms(1) length_dropWhile_le [of _ "rev (vs_votes vs)"] by (simp add: pop_expired_votes_def) (meson le_trans length_rev)
  note n = next_vote_slot_slots [OF assms(2) refl this refl, of e c timely dep]
  show ?thesis unfolding voted_def
    by (rule exI [of _ "map lv_slot ?P"]) (use n \<open>length ?P \<le> 31\<close> in simp)
qed

lemma voted_last:
  assumes "voted s k vs"
  shows "last_voted_slot (vs_votes vs) = Some (s + of_nat (k - 1))"
  using assms by (auto simp: voted_def last_voted_slot_def lockout_new_def)

lemma voted_unexpired:
  assumes "voted s k vs" "0 < k" "unat s + k < 2 ^ 64"
  shows "beyond vs (s + of_nat k)" "pop_expired_votes (s + of_nat k) (vs_votes vs) = vs_votes vs"
proof -
  obtain j where j: "k = Suc j" using assms(2) by (cases k) auto
  have at: "unat (s + of_nat i) = unat s + i" if "i \<le> k" for i
    using that assms(3) by (simp add: unat_word_ariths unat_of_nat)
  have w: "unat (s + of_nat k) = unat s + k" "unat (s + of_nat (k - 1)) = unat s + (k - 1)"
    using at [of k] at [of j] j by simp_all
  then show "beyond vs (s + of_nat k)" using voted_last [OF assms(1)] assms(2) by (simp add: beyond_def word_less_nat_alt)
  have votes: "vs_votes vs \<noteq> []" "lv_lockout (last (vs_votes vs)) = lockout_new (s + of_nat (k - 1))"
    using assms(1) by (auto simp: voted_def)
  have "is_locked_out_at_slot (lv_lockout (last (vs_votes vs))) (s + of_nat k)"
    using w votes(2) assms(2,3)
    by (simp add: is_locked_out_at_slot_def last_locked_out_slot_def lockout_period_def INITIAL_LOCKOUT_def lockout_new_def
        word_le_nat_alt unat_saturating_add)
  moreover obtain ys y where "vs_votes vs = ys @ [y]" using votes(1) by (metis rev_exhaust)
  ultimately show "pop_expired_votes (s + of_nat k) (vs_votes vs) = vs_votes vs" by (simp add: pop_expired_votes_def)
qed

lemma drop_snoc: "m \<le> length xs \<Longrightarrow> drop (Suc m) (xs @ [x]) = drop 1 (drop m xs @ [x])"
  by (cases "m = length xs") (simp_all add: drop_Suc)

lemma voted_next:
  assumes "voted s k vs" "0 < k" "unat s + k < 2 ^ 64"
  shows "voted s (Suc k) (process_next_vote_slot (s + of_nat k) e c timely dep vs)"
proof -
  let ?vs = "process_next_vote_slot (s + of_nat k) e c timely dep vs" and ?xs = "map (\<lambda>i. s + of_nat i) [0..<k]"
  obtain front where f: "length front \<le> 31" "map lv_slot (vs_votes vs) = drop (length front + k - 31) (front @ ?xs)"
    and root: "32 \<le> k \<longrightarrow> vs_root_slot vs = Some (s + of_nat (k - 32))" using assms(1) by (auto simp: voted_def)
  have len: "length (vs_votes vs) = min 31 (length front + k)" using arg_cong [OF f(2), of length] by simp
  note n = next_vote_slot_slots [OF voted_unexpired(1) [OF assms] voted_unexpired(2) [OF assms, symmetric] _ refl, of e c timely dep]
  have l: "length (vs_votes vs) \<le> 31" using len by simp
  have "map lv_slot (vs_votes ?vs) = drop (length front + Suc k - 31) ((front @ ?xs) @ [s + of_nat k])"
  proof (cases "length front + k < 31")
    case True
    then show ?thesis using n(1) [OF l] f len by simp
  next
    case False
    then have "length front + Suc k - 31 = Suc (length front + k - 31)" by simp
    then show ?thesis
      using n(1) [OF l] f(2) len False drop_snoc [of "length front + k - 31" "front @ ?xs" "s + of_nat k"] by simp
  qed
  moreover have "vs_root_slot ?vs = Some (s + of_nat (Suc k - 32))" if "32 \<le> Suc k"
  proof -
    have full: "length (vs_votes vs) = 31" using len that by simp
    then have "vs_votes vs \<noteq> []" by auto
    then have "lv_slot (hd (vs_votes vs)) = hd (drop (length front + k - 31) (front @ ?xs))"
      using f(2) by (metis hd_map)
    also have "\<dots> = s + of_nat (Suc k - 32)" using that by (subst hd_drop_conv_nth) (auto simp: nth_append)
    finally show ?thesis using n(2) [OF l] full by simp
  qed
  ultimately show ?thesis unfolding voted_def using f(1) n(3) [OF l] by (intro exI [of _ front]) simp
qed

lemma cast_votes_voted:
  assumes "voted s k vs" "0 < k" "unat s + k + length cs < 2 ^ 64" "\<forall>i<length cs. on_fork (s + of_nat (k + i)) (cs ! i)"
  shows "\<exists>vs'. cast_votes timely dep (s + of_nat k) cs vs = (Inr (), vs') \<and> voted s (k + length cs) vs'"
  using assms
proof (induction cs arbitrary: k vs)
  case Nil
  then show ?case by (simp add: return_apply)
next
  case (Cons c cs)
  let ?vs = "process_next_vote_slot (s + of_nat k) (cs_epoch c) (cs_current_slot c) timely dep vs"
  have "on_fork (s + of_nat k) c" using Cons.prems(4) by force
  moreover have lt: "unat s + k < 2 ^ 64" using Cons.prems(3) by simp
  ultimately have run: "cast_votes timely dep (s + of_nat k) (c # cs) vs = cast_votes timely dep (s + of_nat (Suc k)) cs ?vs"
    using vote_for_slot_accepted [OF _ voted_unexpired(1) [OF Cons.prems(1,2) lt]] by (simp add: bind_apply add_ac)
  have "\<forall>i<length cs. on_fork (s + of_nat (Suc k + i)) (cs ! i)"
    using Cons.prems(4) by (auto simp: add_ac dest: spec [of _ "Suc _"])
  then show ?case
    using Cons.IH [of "Suc k" ?vs] voted_next [OF Cons.prems(1,2) lt] Cons.prems(3) run by simp
qed

text \<open>
  C8: voting makes progress. A validator whose tower has at most 31 votes votes for consecutive slots beyond its last vote, each
  of them in the slot hashes of its time with the right hash. Every one of the votes is accepted,
  and after 32 or more of them the root is the slot 32 votes back and the tower holds the 31
  slots since. Whatever the tower held before does not delay this.
\<close>

theorem consecutive_votes_root:
  assumes "length (vs_votes vs) \<le> 31" "beyond vs s" "32 \<le> length cs" "unat s + length cs < 2 ^ 64"
    "\<forall>i<length cs. on_fork (s + of_nat i) (cs ! i)"
  shows "\<exists>vs'. cast_votes timely dep s cs vs = (Inr (), vs') \<and> vs_root_slot vs' = Some (s + of_nat (length cs - 32)) \<and>
    map lv_slot (vs_votes vs') = map (\<lambda>i. s + of_nat i) [length cs - 31..<length cs]"
proof -
  obtain c cs' where cs: "cs = c # cs'" using assms(3) by (cases cs) auto
  let ?vs = "process_next_vote_slot s (cs_epoch c) (cs_current_slot c) timely dep vs"
  have "on_fork s c" using assms(5) cs by force
  then have run: "cast_votes timely dep s cs vs = cast_votes timely dep (s + of_nat 1) cs' ?vs"
    using vote_for_slot_accepted [OF _ assms(2)] cs by (simp add: bind_apply)
  have "\<forall>i<length cs'. on_fork (s + of_nat (1 + i)) (cs' ! i)" using assms(5) cs by auto
  then obtain vs' where vs': "cast_votes timely dep s cs vs = (Inr (), vs')" "voted s (length cs) vs'"
    using cast_votes_voted [OF voted_first [OF assms(1,2), of "cs_epoch c" "cs_current_slot c" timely dep], of cs' timely dep] assms(4) run cs
    by (auto simp del: cast_votes.simps)
  then obtain front where f: "length front \<le> 31"
    "map lv_slot (vs_votes vs') = drop (length front + length cs - 31) (front @ map (\<lambda>i. s + of_nat i) [0..<length cs])"
    by (auto simp: voted_def)
  then have "map lv_slot (vs_votes vs') = drop (length cs - 31) (map (\<lambda>i. s + of_nat i) [0..<length cs])"
    using assms(3) by (simp add: drop_append)
  then show ?thesis using vs' assms(3) by (auto simp: voted_def drop_map)
qed

definition example_casts :: "cast list" where
  "example_casts = map (\<lambda>i. \<lparr>cs_hash = replicate 32 1, cs_slot_hashes = [(100 + of_nat i, replicate 32 1)], cs_epoch = 4,
     cs_current_slot = 101 + of_nat i\<rparr>) [0..<40]"

theorem consecutive_votes_root_witness:
  "\<exists>vs'. cast_votes True True 100 example_casts example_votes = (Inr (), vs') \<and> vs_root_slot vs' = Some 108"
proof -
  have l: "length example_casts = 40" "length (vs_votes example_votes) = 2" by (simp_all add: example_casts_def example_votes_def)
  have "beyond example_votes 100" by (simp add: beyond_def example_votes_def last_voted_slot_def)
  moreover have "\<forall>i<length example_casts. on_fork (100 + of_nat i) (example_casts ! i)"
    by (simp add: on_fork_def example_casts_def desc_def)
  ultimately have "\<exists>vs'. cast_votes True True 100 example_casts example_votes = (Inr (), vs') \<and>
      vs_root_slot vs' = Some (100 + of_nat (length example_casts - 32))"
    using consecutive_votes_root [of example_votes 100 example_casts True True] l by auto
  then show ?thesis by (simp add: example_casts_def)
qed

end
