(* ===== verification/Stake_Rewards.thy ===== *)
theory Stake_Rewards
  imports Stake_Credits Vote_Authority
begin

section \<open>Staking rewards\<close>

text \<open>
  \<open>programs/stake/src/points.rs\<close>, \<open>programs/stake/src/rewards.rs\<close> and \<open>new_stake_history_entry\<close>: the points that a stake has earned with
  the credits of its vote account, the rewards for them, and the redemption of the rewards. The tracer, a
  callback that only observes the calculation, is left out. Sums and differences wrap around as in a release build. In
  \<open>calculate_stake_rewards\<close> and after it, \<open>None\<close> as the outer result is a failing \<open>unwrap\<close>.
\<close>

record point_value =
  pv_rewards :: u64
  pv_points :: u128

record calculated_stake_points =
  cp_points :: u128
  cp_new_credits_observed :: u64
  cp_force_credits_update_with_skipped_reward :: bool

record calculated_stake_rewards =
  cr_staker_rewards :: u64
  cr_voter_rewards :: u64
  cr_new_credits_observed :: u64

text \<open>The credits of one epoch that count for a stake.\<close>

definition earned_credits :: "u64 \<Rightarrow> u64 \<Rightarrow> u64 \<Rightarrow> u64 \<Rightarrow> u64" where
  "earned_credits credits_in_stake new_credits_observed final_epoch_credits initial_epoch_credits =
     (if credits_in_stake < initial_epoch_credits then final_epoch_credits - initial_epoch_credits
      else if credits_in_stake < final_epoch_credits then final_epoch_credits - new_credits_observed
      else 0)"

fun points_loop ::
  "stake \<Rightarrow> stake_history \<Rightarrow> u64 option \<Rightarrow> (u64 \<times> u64 \<times> u64) list \<Rightarrow> u128 \<Rightarrow> u64 \<Rightarrow> u128 \<times> u64" where
  "points_loop s history new_rate [] points new_credits_observed = (points, new_credits_observed)"
| "points_loop s history new_rate ((epoch, final_epoch_credits, initial_epoch_credits) # rest) points new_credits_observed =
     (let stake_amount = (ucast (delegation_stake (sk_delegation s) epoch history new_rate) :: u128);
          earned = ucast (earned_credits (sk_credits_observed s) new_credits_observed final_epoch_credits initial_epoch_credits)
      in points_loop s history new_rate rest (points + stake_amount * earned) (max new_credits_observed final_epoch_credits))"

definition calculate_stake_points_and_credits ::
  "stake \<Rightarrow> vote_state \<Rightarrow> stake_history \<Rightarrow> u64 option \<Rightarrow> calculated_stake_points" where
  "calculate_stake_points_and_credits s vs history new_rate =
     (let credits_in_stake = sk_credits_observed s; credits_in_vote = vote_credits vs in
      if credits_in_vote < credits_in_stake
      then \<lparr>cp_points = 0, cp_new_credits_observed = credits_in_vote, cp_force_credits_update_with_skipped_reward = True\<rparr>
      else if credits_in_vote = credits_in_stake
      then \<lparr>cp_points = 0, cp_new_credits_observed = credits_in_stake, cp_force_credits_update_with_skipped_reward = False\<rparr>
      else
        let (points, new_credits_observed) = points_loop s history new_rate (vs_epoch_credits vs) 0 credits_in_stake
        in \<lparr>cp_points = points, cp_new_credits_observed = new_credits_observed, cp_force_credits_update_with_skipped_reward = False\<rparr>)"

definition calculate_points ::
  "stake_state \<Rightarrow> vote_state \<Rightarrow> stake_history \<Rightarrow> u64 option \<Rightarrow> instruction_error + u128" where
  "calculate_points st vs history new_rate =
     (case st of
        Staked _ s _ \<Rightarrow> Inr (cp_points (calculate_stake_points_and_credits s vs history new_rate))
      | _ \<Rightarrow> Inl InvalidAccountData)"

text \<open>The two divisions with their \<open>unwrap\<close>s: the rewards for some points.\<close>

definition rewards_for_points :: "point_value \<Rightarrow> u128 \<Rightarrow> u64 option" where
  "rewards_for_points pv points =
     Option.bind (checked_mul points (ucast (pv_rewards pv))) (\<lambda>x.
       if pv_points pv = 0 then None
       else let rewards = x div pv_points pv in if unat rewards < 2 ^ 64 then Some (ucast rewards) else None)"

definition calculate_stake_rewards ::
  "u64 \<Rightarrow> stake \<Rightarrow> point_value \<Rightarrow> vote_state \<Rightarrow> stake_history \<Rightarrow> u64 option \<Rightarrow> calculated_stake_rewards option option" where
  "calculate_stake_rewards rewarded_epoch s pv vs history new_rate =
     (let calculated = calculate_stake_points_and_credits s vs history new_rate;
          new_credits_observed = cp_new_credits_observed calculated;
          force = cp_force_credits_update_with_skipped_reward calculated \<or> pv_rewards pv = 0 \<or>
            dg_activation_epoch (sk_delegation s) = rewarded_epoch in
      if force then Some (Some \<lparr>cr_staker_rewards = 0, cr_voter_rewards = 0, cr_new_credits_observed = new_credits_observed\<rparr>)
      else if cp_points calculated = 0 then Some None
      else if pv_points pv = 0 then Some None
      else Option.bind (rewards_for_points pv (cp_points calculated)) (\<lambda>rewards.
        if rewards = 0 then Some None
        else Option.bind (commission_split (vs_commission vs) rewards) (\<lambda>(voter_rewards, staker_rewards, is_split).
          if (voter_rewards = 0 \<or> staker_rewards = 0) \<and> is_split then Some None
          else Some (Some \<lparr>cr_staker_rewards = staker_rewards, cr_voter_rewards = voter_rewards,
                           cr_new_credits_observed = new_credits_observed\<rparr>))))"

definition redeem_stake_rewards ::
  "u64 \<Rightarrow> stake \<Rightarrow> point_value \<Rightarrow> vote_state \<Rightarrow> stake_history \<Rightarrow> u64 option \<Rightarrow> (stake \<times> u64 \<times> u64) option option" where
  "redeem_stake_rewards rewarded_epoch s pv vs history new_rate =
     map_option (map_option (\<lambda>c.
         (set_sk_stake (sk_stake s + cr_staker_rewards c) (s\<lparr>sk_credits_observed := cr_new_credits_observed c\<rparr>),
          cr_staker_rewards c, cr_voter_rewards c)))
       (calculate_stake_rewards rewarded_epoch s pv vs history new_rate)"

text \<open>The account after a redemption, with the rewards of the staker and of the voter.\<close>

definition redeem_rewards ::
  "stake_state bincode \<Rightarrow> u64 \<Rightarrow> stake_state \<Rightarrow> account \<Rightarrow> vote_state \<Rightarrow> point_value \<Rightarrow> stake_history \<Rightarrow> u64 option
     \<Rightarrow> (instruction_error + account \<times> u64 \<times> u64) option" where
  "redeem_rewards codec rewarded_epoch st a vs pv history new_rate =
     (case st of
        Staked meta s flags \<Rightarrow>
          map_option (\<lambda>redeemed.
            case redeemed of
              None \<Rightarrow> Inl (stake_error_into NoCreditsToRedeem)
            | Some (s, stakers_reward, voters_reward) \<Rightarrow>
                and_then (ok_or (checked_add (acc_lamports a) stakers_reward) ArithmeticOverflow) (\<lambda>lamports.
                and_then (ok_or (bc_serialize_into codec (Staked meta s flags) (acc_data a)) GenericError) (\<lambda>bs.
                  Inr (a\<lparr>acc_lamports := lamports, acc_data := slice_write (acc_data a) bs\<rparr>, stakers_reward, voters_reward))))
            (redeem_stake_rewards rewarded_epoch s pv vs history new_rate)
      | _ \<Rightarrow> Some (Inl InvalidAccountData))"

text \<open>The entry of the stake history for an epoch: the sum over all delegations.\<close>

definition new_stake_history_entry :: "u64 \<Rightarrow> delegation list \<Rightarrow> stake_history \<Rightarrow> u64 option \<Rightarrow> stake_history_entry" where
  "new_stake_history_entry epoch stakes history new_rate =
     foldl (\<lambda>sum d. stake_history_entry_add sum (stake_activating_and_deactivating d epoch history new_rate)) (with_effective 0) stakes"


subsection \<open>Points\<close>

text \<open>The credits of a vote account as the vote program records them: every epoch starts where the one before has ended.\<close>

fun credits_chain :: "u64 \<Rightarrow> (u64 \<times> u64 \<times> u64) list \<Rightarrow> bool" where
  "credits_chain start [] = True"
| "credits_chain start ((epoch, final_credits, initial_credits) # rest) =
     (initial_credits = start \<and> initial_credits \<le> final_credits \<and> credits_chain final_credits rest)"

definition last_credits :: "u64 \<Rightarrow> (u64 \<times> u64 \<times> u64) list \<Rightarrow> u64" where
  "last_credits start epoch_credits = (if epoch_credits = [] then start else fst (snd (last epoch_credits)))"

lemma last_credits_Cons: "last_credits start ((epoch, final_credits, initial_credits) # rest) = last_credits final_credits rest"
  by (simp add: last_credits_def)

lemma credits_chain_le: "credits_chain start epoch_credits \<Longrightarrow> start \<le> last_credits start epoch_credits"
proof (induction start epoch_credits rule: credits_chain.induct)
  case (2 start epoch final_credits initial_credits rest)
  then show ?case using order_trans by (auto simp: last_credits_Cons)
qed (simp add: last_credits_def)

text \<open>Whatever the stake has observed, it earns the credits of the epoch beyond those.\<close>

lemma unat_earned_credits:
  assumes "n = c \<or> n = max c p" "p \<le> f"
  shows "unat (earned_credits c n f p) = unat (max c f) - unat (max c p)"
  using assms by (auto simp: earned_credits_def max_def unat_sub word_le_nat_alt word_less_nat_alt)

lemma points_loop_bound:
  assumes "credits_chain p ec" "n = c \<or> n = max c p" "c = sk_credits_observed s"
    and "unat points + unat (sk_stake s) * (unat (max c (last_credits p ec)) - unat (max c p)) < 2 ^ 128"
    and "points_loop s history new_rate ec points n = (points', n')"
  shows "unat points' \<le> unat points + unat (sk_stake s) * (unat (max c (last_credits p ec)) - unat (max c p))"
  using assms
proof (induction p ec arbitrary: points n rule: credits_chain.induct)
  case (2 p epoch f i rest)
  let ?k = "unat (sk_stake s)" and ?e = "unat (max c f) - unat (max c p)" and ?r = "unat (max c (last_credits f rest)) - unat (max c f)"
  let ?a = "ucast (delegation_stake (sk_delegation s) epoch history new_rate) :: u128" and ?b = "ucast (earned_credits c n f p) :: u128"
  have chain: "i = p" "p \<le> f" "credits_chain f rest" using "2.prems"(1) by auto
  have "max c p \<le> max c f" "max c f \<le> max c (last_credits f rest)"
    using chain(2) credits_chain_le [OF chain(3)] by (intro max.mono order_refl; simp)+
  then have split: "unat (max c (last_credits f rest)) - unat (max c p) = ?e + ?r" by (simp add: word_le_nat_alt)
  have "unat (delegation_stake (sk_delegation s) epoch history new_rate) \<le> ?k"
    unfolding delegation_stake_def using stake_status_le add_leD1 by blast
  then have ab: "unat ?a * unat ?b \<le> ?k * ?e"
    using unat_earned_credits [OF "2.prems"(2) chain(2)] by (simp add: mult_le_mono1)
  have bound: "unat points + ?k * ?e + ?k * ?r < 2 ^ 128"
    using "2.prems"(4) unfolding last_credits_Cons split add_mult_distrib2 by simp
  have "unat ?a * unat ?b < 2 ^ 128" "unat points + unat ?a * unat ?b < 2 ^ 128" using ab bound by linarith+
  then have sum: "unat (points + ?a * ?b) = unat points + unat ?a * unat ?b"
    using checked_mul_u128(2) [of ?a ?b] by (simp add: unat_plus_if')
  have n: "max n f = c \<or> max n f = max c f" using "2.prems"(2) chain(2) by (auto simp: max_def split: if_splits)
  have "points_loop s history new_rate rest (points + ?a * ?b) (max n f) = (points', n')"
    using "2.prems"(3,5) chain(1) by (simp add: Let_def)
  from "2.IH" [OF chain(3) n "2.prems"(3) _ this] have "unat points' \<le> unat points + unat ?a * unat ?b + ?k * ?r"
    using sum ab bound by simp
  then show ?case using ab unfolding last_credits_Cons split add_mult_distrib2 by simp
qed simp

lemma points_bound:
  assumes "credits_chain p (vs_epoch_credits vs)"
  shows "unat (cp_points (calculate_stake_points_and_credits s vs history new_rate)) \<le>
    unat (sk_stake s) * (unat (vote_credits vs) - unat (sk_credits_observed s))"
proof (cases "sk_credits_observed s < vote_credits vs")
  case True
  let ?c = "sk_credits_observed s" and ?ec = "vs_epoch_credits vs"
  obtain points n where loop: "points_loop s history new_rate ?ec 0 ?c = (points, n)" by fastforce
  have ec: "?ec \<noteq> []" "last_credits p ?ec = vote_credits vs" using True by (auto simp: vote_credits_def last_credits_def)
  have "unat (sk_stake s) * (unat (max ?c (vote_credits vs)) - unat (max ?c p)) \<le> (2 ^ 64 - 1) * (2 ^ 64 - 1)"
    using unat_bound_u64 [of "max ?c (vote_credits vs)"] by (intro mult_le_mono unat_bound_u64) simp
  then have small: "unat (sk_stake s) * (unat (max ?c (vote_credits vs)) - unat (max ?c p)) < 2 ^ 128" by simp
  have "unat points \<le> unat (sk_stake s) * (unat (max ?c (vote_credits vs)) - unat (max ?c p))"
    using points_loop_bound [OF assms _ refl _ loop] small ec(2) by simp
  also have "\<dots> \<le> unat (sk_stake s) * (unat (vote_credits vs) - unat ?c)"
    using True by (intro mult_le_mono2) (auto simp: max_def word_le_nat_alt word_less_nat_alt)
  finally show ?thesis using True loop by (simp add: calculate_stake_points_and_credits_def Let_def)
qed (auto simp: calculate_stake_points_and_credits_def Let_def)


subsection \<open>Rewards\<close>

definition paid :: "calculated_stake_rewards option option \<Rightarrow> nat" where
  "paid result = (case result of Some (Some c) \<Rightarrow> unat (cr_staker_rewards c) + unat (cr_voter_rewards c) | _ \<Rightarrow> 0)"

lemma rewards_for_points_Some:
  assumes "rewards_for_points pv points = Some r"
  shows "unat r = unat points * unat (pv_rewards pv) div unat (pv_points pv)"
proof -
  let ?x = "points * ucast (pv_rewards pv)" and ?q = "points * ucast (pv_rewards pv) div pv_points pv"
  have "unat points * unat (pv_rewards pv) < 2 ^ 128"
    using assms by (rule_tac ccontr) (simp add: rewards_for_points_def checked_mul_def)
  then have m: "checked_mul points (ucast (pv_rewards pv)) = Some ?x" "unat ?x = unat points * unat (pv_rewards pv)"
    by (simp_all add: checked_mul_u128)
  then have q: "unat ?q < 2 ^ 64" "r = ucast ?q" using assms by (simp_all add: rewards_for_points_def Let_def split: if_splits)
  then have "unat r = unat ?q" by (simp add: unsigned_ucast_eq take_bit_nat_eq_self)
  then show ?thesis using m(2) by (simp add: unat_div)
qed

lemma rewards_for_points_None:
  assumes "rewards_for_points pv points = None" "points \<le> pv_points pv" "pv_points pv \<noteq> 0"
  shows "2 ^ 128 \<le> unat points * unat (pv_rewards pv)"
proof (rule ccontr)
  assume "\<not> 2 ^ 128 \<le> unat points * unat (pv_rewards pv)"
  then have m: "checked_mul points (ucast (pv_rewards pv)) = Some (points * ucast (pv_rewards pv))"
    "unat (points * ucast (pv_rewards pv)) = unat points * unat (pv_rewards pv)"
    by (simp_all add: checked_mul_u128)
  have "unat points * unat (pv_rewards pv) \<le> unat (pv_points pv) * unat (pv_rewards pv)"
    using assms(2) by (simp add: word_le_nat_alt)
  from div_le_mono [OF this, of "unat (pv_points pv)"]
  have "unat points * unat (pv_rewards pv) div unat (pv_points pv) \<le> unat (pv_rewards pv)"
    using assms(3) by (simp add: unat_eq_zero)
  moreover have "unat (pv_rewards pv) < 2 ^ 64" using unat_bound_u64 [of "pv_rewards pv"] by simp
  ultimately show False using assms(1,3) m by (simp add: rewards_for_points_def Let_def unat_div)
qed

lemma paid_le:
  "paid (calculate_stake_rewards epoch s pv vs history new_rate) \<le>
     unat (cp_points (calculate_stake_points_and_credits s vs history new_rate)) * unat (pv_rewards pv) div unat (pv_points pv)"
proof (cases "\<exists>r. rewards_for_points pv (cp_points (calculate_stake_points_and_credits s vs history new_rate)) = Some r")
  case True
  then obtain r where r: "rewards_for_points pv (cp_points (calculate_stake_points_and_credits s vs history new_rate)) = Some r" by blast
  obtain mine theirs split where "commission_split (vs_commission vs) r = Some (mine, theirs, split)" "unat mine + unat theirs \<le> unat r"
    using commission_split_exact by blast
  then show ?thesis
    using rewards_for_points_Some [OF r] r by (simp add: calculate_stake_rewards_def paid_def Let_def)
next
  case False
  then show ?thesis by (auto simp: calculate_stake_rewards_def paid_def Let_def)
qed

lemma calculate_stake_rewards_None:
  assumes "calculate_stake_rewards epoch s pv vs history new_rate = None"
    and "cp_points (calculate_stake_points_and_credits s vs history new_rate) \<le> pv_points pv"
  shows "2 ^ 128 \<le> unat (cp_points (calculate_stake_points_and_credits s vs history new_rate)) * unat (pv_rewards pv)"
proof (rule rewards_for_points_None [OF _ assms(2)])
  show "rewards_for_points pv (cp_points (calculate_stake_points_and_credits s vs history new_rate)) = None"
  proof (rule ccontr)
    assume "rewards_for_points pv (cp_points (calculate_stake_points_and_credits s vs history new_rate)) \<noteq> None"
    then obtain r where r: "rewards_for_points pv (cp_points (calculate_stake_points_and_credits s vs history new_rate)) = Some r" by blast
    obtain mine theirs split where "commission_split (vs_commission vs) r = Some (mine, theirs, split)"
      using commission_split_exact by blast
    then show False using assms(1) r by (simp add: calculate_stake_rewards_def Let_def split: if_splits)
  qed
  show "pv_points pv \<noteq> 0" using assms(1) by (auto simp: calculate_stake_rewards_def Let_def split: if_splits)
qed

lemma div_add_le: "a div n + b div n \<le> (a + b) div (n :: nat)"
  using div_add1_eq [of a b n] by simp

lemma paid_sum_le:
  "(\<Sum>(s, vs)\<leftarrow>stakes. paid (calculate_stake_rewards epoch s pv vs history new_rate)) \<le>
     (\<Sum>(s, vs)\<leftarrow>stakes. unat (cp_points (calculate_stake_points_and_credits s vs history new_rate))) * unat (pv_rewards pv)
       div unat (pv_points pv)"
proof (induction stakes)
  case (Cons p stakes)
  obtain s vs where p: "p = (s, vs)" by fastforce
  show ?case
    using Cons paid_le [of epoch s pv vs history new_rate]
      div_add_le [of "unat (cp_points (calculate_stake_points_and_credits s vs history new_rate)) * unat (pv_rewards pv)" "unat (pv_points pv)"
        "(\<Sum>(s, vs)\<leftarrow>stakes. unat (cp_points (calculate_stake_points_and_credits s vs history new_rate))) * unat (pv_rewards pv)"]
    by (simp add: p add_mult_distrib)
qed simp

text \<open>
  C13: the rewards of an epoch. When the points of all stakes add up to at most the points of the round, the rewards of all stakers and voters
  together are at most the lamports of the round. A calculation panics only when the product of points and lamports does
  not fit in 128 bits. And a stake earns at most one point per lamport and new credit of its vote account, when the account
  records its credits epoch after epoch: no credit counts twice.
\<close>

theorem rewards_within_pool:
  assumes "(\<Sum>(s, vs)\<leftarrow>stakes. unat (cp_points (calculate_stake_points_and_credits s vs history new_rate))) \<le> unat (pv_points pv)"
  shows "(\<Sum>(s, vs)\<leftarrow>stakes. paid (calculate_stake_rewards epoch s pv vs history new_rate)) \<le> unat (pv_rewards pv) \<and>
    (\<forall>(s, vs)\<in>set stakes. calculate_stake_rewards epoch s pv vs history new_rate = None \<longrightarrow>
       2 ^ 128 \<le> unat (cp_points (calculate_stake_points_and_credits s vs history new_rate)) * unat (pv_rewards pv)) \<and>
    (\<forall>(s, vs)\<in>set stakes. \<forall>start. credits_chain start (vs_epoch_credits vs) \<longrightarrow>
       unat (cp_points (calculate_stake_points_and_credits s vs history new_rate)) \<le>
         unat (sk_stake s) * (unat (vote_credits vs) - unat (sk_credits_observed s)))"
proof (intro conjI ballI)
  let ?p = "\<lambda>s vs. unat (cp_points (calculate_stake_points_and_credits s vs history new_rate))"
  have "(\<Sum>(s, vs)\<leftarrow>stakes. ?p s vs) * unat (pv_rewards pv) div unat (pv_points pv) \<le> unat (pv_rewards pv)"
    using div_le_mono [OF mult_le_mono1 [OF assms], of "unat (pv_rewards pv)" "unat (pv_points pv)"]
    by (cases "unat (pv_points pv) = 0") simp_all
  then show "(\<Sum>(s, vs)\<leftarrow>stakes. paid (calculate_stake_rewards epoch s pv vs history new_rate)) \<le> unat (pv_rewards pv)"
    using paid_sum_le [of epoch pv history new_rate stakes] by simp
next
  fix sv assume sv: "sv \<in> set stakes"
  have "cp_points (calculate_stake_points_and_credits (fst sv) (snd sv) history new_rate) \<le> pv_points pv"
    using member_le_sum_list [of "unat (cp_points (calculate_stake_points_and_credits (fst sv) (snd sv) history new_rate))"
        "map (\<lambda>(s, vs). unat (cp_points (calculate_stake_points_and_credits s vs history new_rate))) stakes"] sv assms
    by (force simp: word_le_nat_alt split_def)
  then show "case sv of (s, vs) \<Rightarrow> calculate_stake_rewards epoch s pv vs history new_rate = None \<longrightarrow>
      2 ^ 128 \<le> unat (cp_points (calculate_stake_points_and_credits s vs history new_rate)) * unat (pv_rewards pv)"
    using calculate_stake_rewards_None by (auto simp: split_def)
qed (auto simp: points_bound)


definition example_rewarded :: "(stake \<times> vote_state) list" where
  "example_rewarded = [(\<lparr>sk_delegation = (delegation_new [] 10 (- 1))\<lparr>dg_deactivation_epoch := 100\<rparr>, sk_credits_observed = 3\<rparr>,
     vote_state_default\<lparr>vs_epoch_credits := [(0, 8, 0)], vs_commission := 10\<rparr>)]"

lemma example_points:
  "(\<Sum>(s, vs)\<leftarrow>example_rewarded. unat (cp_points (calculate_stake_points_and_credits s vs [] None))) = 50"
  by (simp add: example_rewarded_def calculate_stake_points_and_credits_def vote_credits_def earned_credits_def delegation_stake_def
      stake_status_defs stake_and_activating_def is_bootstrap_def delegation_new_def Let_def word_less_nat_alt)

theorem rewards_within_pool_witness:
  "(\<Sum>(s, vs)\<leftarrow>example_rewarded. paid (calculate_stake_rewards 5 s \<lparr>pv_rewards = 100, pv_points = 50\<rparr> vs [] None)) \<le> 100"
  using rewards_within_pool [of "[]" None example_rewarded "\<lparr>pv_rewards = 100, pv_points = 50\<rparr>" 5] example_points by simp

subsection \<open>Redeeming\<close>

text \<open>A redemption adds the same lamports to the stake and to the balance, so it keeps stake backed.\<close>

lemma redeem_rewards_backed:
  assumes "redeem_rewards codec epoch (Staked meta s flags) a vs pv history new_rate = Some (Inr (a', staker, voter))"
    and "backed_state R e (Staked meta s flags) (acc_lamports a)"
  shows "\<exists>s' bs. bc_serialize_into codec (Staked meta s' flags) (acc_data a) = Some bs \<and>
    a' = a\<lparr>acc_lamports := acc_lamports a + staker, acc_data := slice_write (acc_data a) bs\<rparr> \<and>
    backed_state R e (Staked meta s' flags) (acc_lamports a')"
proof -
  obtain c where c: "calculate_stake_rewards epoch s pv vs history new_rate = Some (Some c)"
    using assms(1) by (cases "calculate_stake_rewards epoch s pv vs history new_rate"; cases "the (calculate_stake_rewards epoch s pv vs history new_rate)")
      (simp_all add: redeem_rewards_def redeem_stake_rewards_def)
  then obtain bs where total: "unat (acc_lamports a) + unat staker < 2 ^ 64"
    and bs: "bc_serialize_into codec (Staked meta (set_sk_stake (sk_stake s + staker) (s\<lparr>sk_credits_observed := cr_new_credits_observed c\<rparr>)) flags)
      (acc_data a) = Some bs"
    and a': "a' = a\<lparr>acc_lamports := acc_lamports a + staker, acc_data := slice_write (acc_data a) bs\<rparr>"
    using assms(1) by (auto simp: redeem_rewards_def redeem_stake_rewards_def and_then_Inr ok_or_Inr checked_add_def split: if_splits)
  have "backed_state R e (Staked meta (set_sk_stake (sk_stake s + staker) (s\<lparr>sk_credits_observed := cr_new_credits_observed c\<rparr>)) flags)
      (acc_lamports a + staker)"
    using assms(2) total by (auto simp: unat_plus_if' word_le_nat_alt)
  then show ?thesis using bs unfolding a' by (intro exI conjI) (assumption, rule refl, simp)
qed

end
