(* ===== verification/Stake_Rescind.thy ===== *)
theory Stake_Rescind
  imports Stake_Properties Account_Ready
begin

section \<open>Rescinding a deactivation\<close>

text \<open>
  Delegating a stake to its own vote account in the epoch in which it was deactivated takes the deactivation back. The
  condition for it and what it leaves of the backing of the stake, for the handler \<open>delegate\<close>.
\<close>






















end
