(* ===== verification/Spec2Isabelle.thy ===== *)
theory Spec2Isabelle
  imports Runtime_Properties Lookup_Table_Safety Compile_Correct Vote_Liveness Stake_Rewards Stake_Rescind
begin

text \<open>
  This library models the part of \<open>src/solana\<close> that executes the instructions of a transaction: the
  runtime that runs a message, and the built-in programs that it runs. Paths below are relative to
  \<open>src/solana\<close>.

  \<^bold>\<open>The program and its parts.\<close> A client compiles instructions into a message
  (\<open>sdk/program/src/message\<close>). The message processor (\<open>program-runtime/src/message_processor.rs\<close>) runs the
  instructions of a sanitized message in order, in one transaction context
  (\<open>sdk/src/transaction_context.rs\<close>) that holds the accounts, the stack and the trace of instructions.
  For each instruction the invoke context (\<open>program-runtime/src/invoke_context.rs\<close>) pushes a frame, looks
  up the program and runs it; a program can invoke another one, through the checks of
  \<open>prepare_instruction\<close>. A built-in program decodes its instruction, reads cluster state from the sysvar cache
  (\<open>program-runtime/src/sysvar_cache.rs\<close>) and touches accounts only through \<open>BorrowedAccount\<close>, whose setters
  hold the access rules. The built-ins are the system program, the vote, stake, config, address lookup
  table and compute budget programs.

  \<^bold>\<open>How the code is represented.\<close> A stateful operation is a function from its state to a result (\<open>Inl\<close> the
  error, \<open>Inr\<close> the value) and the state it leaves; an error keeps what was written before it, as in the source.
  Integers are words of their width, with checked, saturating and, as in a release build, wrapping
  operations; \<open>i64\<close> time stamps and lengths of vectors are mathematical integers. An assertion, an
  \<open>expect\<close> or an index that can fail is an error value or \<open>None\<close>. A \<open>RefCell\<close> is a value with its borrow
  flag. Third-party code is an argument, collected in one environment record for each program
  (\<open>invoke_env\<close>, \<open>vote_env\<close>, \<open>stake_env\<close> and so on): SHA-256, bincode
  (encoders and size-limited decoders), the test for points on the curve and the verification of
  precompiles. A theorem that needs something of it has it as a hypothesis: decoding gives back
  what was encoded, hashes are 32 bytes long. The witnesses instantiate them with concrete functions.
\<close>

text \<open>
  \<^bold>\<open>Foundations.\<close>
  \<^item> \<open>Prelude\<close>: machine integers, results, the effect type with its rules, and \<open>effect_preorder\<close>, the locale of
    relations that effects keep. Every invariant of handlers is an interpretation of it.
  \<^item> \<open>Sdk_Types\<close>: \<open>Pubkey\<close>, \<open>Hash\<close>, \<open>InstructionError\<close>, \<open>AccountSharedData\<close>, seed-derived addresses.
  \<^item> \<open>F64\<close>: binary64 arithmetic with rounding to nearest even. \<open>Rent\<close>: \<open>sdk/program/src/rent.rs\<close>; the minimum
    balance is exact. \<open>Epoch_Schedule\<close>: \<open>epoch_schedule.rs\<close>; slots and epochs convert back and forth.
  \<^item> \<open>Btree_Map\<close>: ordered maps. \<open>Slot_Sysvars\<close>: \<open>slot_hashes.rs\<close>, \<open>stake_history.rs\<close> and \<open>slot_history.rs\<close>, under
    the locale \<open>recent_map\<close> of maps that keep exactly their newest keys.

  \<^bold>\<open>Accounts and the runtime.\<close>
  \<^item> \<open>Transaction_Context\<close> and \<open>Borrowed_Account\<close>: \<open>transaction_context.rs\<close>. \<open>Sysvar_Cache\<close>: \<open>sysvar_cache.rs\<close> and
    the types of the cached sysvars.
  \<^item> \<open>Access_Control\<close>: the relation \<open>safe_rel\<close>, what any use of borrowed accounts can do. \<open>Account_Specs\<close>: what
    a setter does when it succeeds. \<open>Account_Wp\<close>: backward rules that take a handler apart and leave
    what it does to the ledger, the function from indices to accounts. \<open>Account_Ready\<close>: equations for a
    context without borrows, which say when a handler succeeds.
  \<^item> \<open>Invoke_Context\<close>: \<open>InvokeContext\<close> with \<open>push\<close>, \<open>pop\<close>, \<open>prepare_instruction\<close>, \<open>native_invoke\<close>,
    \<open>process_instruction\<close>, \<open>process_executable_chain\<close>, compute units and the heap.
  \<^item> \<open>Lamport_Sums\<close>: what \<open>instruction_accounts_lamport_sum\<close> counts. \<open>Runtime_Safety\<close>: the invariant of stack and trace
    and the relation that every part of an execution keeps. \<open>Program_Contract\<close>: the locale of program tables
    whose programs stay inside their frame, with the consequences for \<open>process_instruction\<close>.
    \<open>Cross_Program\<close>: what \<open>prepare_instruction\<close> gives the callee. \<open>Leaf_Program\<close>: what a caller may rely on when it invokes
    a program that invokes no other.
  \<^item> \<open>Message\<close>: legacy, version 0 and sanitized messages, loaded addresses, account keys and sanitization.
    \<open>Message_Properties\<close>: the optimised tests mean what they should, no accessor of a sanitized message panics, and what a
    message locks for writing.
    \<open>Compiled_Keys\<close>, \<open>Compile_Correct\<close>: \<open>compiled_keys.rs\<close> and the constructors of messages; compilation keeps
    the instructions and their privileges. \<open>Instructions_Sysvar\<close>: \<open>sysvar/instructions.rs\<close> and its round trip.
  \<^item> \<open>Message_Processor\<close>: \<open>MessageProcessor::process_message\<close> and \<open>precompiles.rs\<close>. \<open>Builtins\<close>: \<open>runtime/src/builtins.rs\<close> and
    the compute budget program; \<open>program_contract\<close> is interpreted here on the table of the
    modelled programs. \<open>Runtime_Properties\<close>: what a message can change, conservation of lamports, no
    escalation of privileges, termination of invocations.
\<close>

text \<open>
  \<^bold>\<open>System program and nonces.\<close>
  \<^item> \<open>Nonce_State\<close>: \<open>nonce/state\<close>. \<open>System_Instruction\<close>: \<open>system_instruction.rs\<close> and \<open>AccountMeta\<close> and \<open>Instruction\<close>.
  \<^item> \<open>System_Program\<close>: the handlers of \<open>system_processor.rs\<close> and the nonce functions of \<open>system_instruction.rs\<close> in
    \<open>programs/system\<close>.
  \<^item> \<open>System_Ledger\<close>, \<open>System_Refinement\<close>, \<open>System_Properties\<close>: an abstract step relation on the ledger, that the entry point
    refines it, and conservation, authorization and the nonce state machine as consequences.

  \<^bold>\<open>Address lookup tables and config.\<close>
  \<^item> \<open>Lookup_Table_State\<close>: \<open>address_lookup_table/state.rs\<close> and the life of a table as a step relation; a lookup is
    stable along it. \<open>Lookup_Table_Program\<close>: the handlers of \<open>programs/address-lookup-table/src/processor.rs\<close>.
    \<open>Lookup_Table_Properties\<close>, \<open>Lookup_Table_Safety\<close>: the handlers move tables along their life, with
    the authority's signature, over the table of built-ins.
  \<^item> \<open>Config_Program\<close>, \<open>Config_Properties\<close>: \<open>config_processor.rs\<close>, the signatures an update needs, and exactly which updates
    are accepted.

  \<^bold>\<open>Vote program.\<close>
  \<^item> \<open>Vote_State\<close>: \<open>vote/state/mod.rs\<close>, \<open>authorized_voters.rs\<close> and the stored versions. \<open>Vote_Updates\<close>: the checks
    and updates of \<open>programs/vote/src/vote_state/mod.rs\<close>. \<open>Vote_Program\<close>: its account level and the
    entry point of \<open>vote_processor.rs\<close>.
  \<^item> \<open>Vote_Authority\<close>: voters of epochs and the split of the commission. \<open>Vote_Tower\<close>, \<open>Vote_History\<close>,
    \<open>Vote_Properties\<close>: well-formed towers, lockouts, agreement with the fork, no panics. \<open>Vote_Liveness\<close>: voting
    makes progress.
  \<^item> \<open>Vote_Refinement\<close>, \<open>Vote_Account_Safety\<close>: an abstract specification of the program, its refinement, and the safety of
    a vote account.
\<close>

text \<open>
  \<^bold>\<open>Stake program.\<close>
  \<^item> \<open>Stake_State\<close>: \<open>sdk/program/src/stake\<close>: authorities, lockups, delegations and their activation. \<open>Stake_Program\<close>: the handlers
    of \<open>programs/stake/src/stake_state.rs\<close> and the entry point of \<open>stake_instruction.rs\<close>. \<open>Stake_Safety\<close>: the handlers stay
    within \<open>safe_rel\<close>, as \<open>Builtins\<close> needs it.
  \<^item> \<open>Stake_Activation\<close>: the status of a delegation is well formed for every stake history.
  \<^item> \<open>Stake_Ledger\<close>, \<open>Stake_Refinement\<close>: an inductive specification on the ledger and that the entry point
    refines it.
  \<^item> \<open>Stake_Backed\<close>: stake accounts cover their reserve and stake. \<open>Stake_Custody\<close>: a locale with two instances, for the
    lamports under a withdraw authority and for those under a lockup. \<open>Stake_Credits\<close>: the credits of merged stakes.
    \<open>Stake_Properties\<close>: the properties for the entry point, and that a withdrawer cannot be changed with a seed under a lockup.
    \<open>Stake_Rescind\<close>: rescinding a deactivation, which keeps stake backed only with the check of the redelegation feature.
  \<^item> \<open>Stake_Rewards\<close>: \<open>points.rs\<close>, \<open>rewards.rs\<close> and \<open>new_stake_history_entry\<close>; the rewards stay within the pool of the
    epoch, no credit counts twice, and redeeming rewards keeps stake backed.

  \<open>Example_Context\<close> and \<open>Example_Message\<close> hold concrete transactions, messages, codecs and a stand-in for
  SHA-256, on which the witnesses evaluate the properties.

  \<^bold>\<open>Loops, bounds and depth.\<close> Every definition is total. Loops over vectors are structural recursions. Bisection
  (\<open>binary_search_loop\<close>) terminates by the length of the range, the comparison of a proposed tower with the slot hashes
  by the two positions, the loops of warm-up and cool-down by the distance of the epoch from the target
  epoch. Cross-program invocation is the one recursion without a bound in the data: \<open>loaded_builtins env n\<close> is
  the table of programs that can invoke each other \<open>n\<close> levels deep. \<open>message_depth_enough\<close> shows that a depth equal to the
  capacity of the instruction stack gives the results of every larger depth, because \<open>push\<close> fails on a full stack; so
  no result of the model is an artefact of the bound.

  \<^bold>\<open>Hypotheses.\<close> Theorems name the laws of third-party functions that they need: \<open>reads_back\<close> and \<open>bincode_laws\<close> for codecs,
  \<open>env_ok\<close> and \<open>table_laws\<close> with the well-formedness of decoded keys and hashes. Theorems on the runtime assume \<open>tx_inv\<close>, the
  invariant of stack, trace and account keys that every run keeps, and instructions with fewer than \<open>2 ^ 16\<close> accounts. Invariants of stored
  states (\<open>tower_ok\<close> and \<open>voters_usable\<close> for votes, \<open>backed\<close> for stakes) are assumed before an
  instruction and proved after it.

  \<^bold>\<open>Not modelled.\<close>
  \<^item> The bpf loaders, loader-v4 and programs in sBPF: they are calls into the virtual machine of the crate
    \<open>solana_rbpf\<close>. A table of programs that includes them is outside the interpretation in \<open>Builtins\<close>, though the results of
    \<open>Program_Contract\<close> and \<open>Cross_Program\<close> hold for every table that meets the contract.
  \<^item> The proofs of the zk token programs: elliptic-curve arithmetic of third-party crates.
  \<^item> The accounts database, the bank, the blockstore, the stages of the validator, gossip and turbine: their
    content is storage, threads, channels and sockets. Transaction fees, loading of accounts and
    the distribution of rewards to accounts belong to the bank.
  \<^item> RPC, clients and command-line tools: JSON, HTTP and argument parsing.
  \<^item> Inside the modelled parts: log messages (unless an argument of one can fail), timings, metrics, debug assertions, copy-on-write
    sharing of account data, \<open>Display\<close>, hashing of messages, borsh encodings, the compact encoding of vote state updates
    (part of the decoder), instruction builders for clients, genesis helpers and the tracer of reward calculations.
\<close>

end
